(* ===== verification/Prelude.thy ===== *)
theory Prelude
  imports Main "HOL-Library.Word" "HOL-Library.Monad_Syntax" "HOL-Library.Multiset"
begin

unbundle bit_operations_syntax

text \<open>
  Shared vocabulary of the development: the machine integers of the C code, the
  result codes of \<open>lib/lnag-utils.h\<close>, bounds-checked access to arrays, and the list
  and word lemmas that several components use.

  \<^item> C values whose width matters are words (\<open>u32\<close> is \<open>unsigned int\<close>, \<open>u64\<close> is
    \<open>unsigned long\<close> on the 64-bit systems the daemon is built for).
  \<^item> A pointer that may be NULL is an \<open>option\<close>.
  \<^item> A computation that may perform an access the C standard leaves undefined (out of
    the bounds of an array, through NULL) has the type \<open>'a ub\<close>: \<open>None\<close> is the undefined
    behaviour, \<open>Some x\<close> the defined result.  No theorem calls \<open>None\<close> a result.
  \<^item> A call that may fail to obtain memory takes the outcome of that call as an argument.
\<close>

section \<open>Types and result codes\<close>

type_synonym u32 = "32 word"
type_synonym u64 = "64 word"
type_synonym 'a ub = "'a option"
type_synonym c_int = int

abbreviation (input) OK :: c_int where "OK \<equiv> 0"
abbreviation (input) ERROR :: c_int where "ERROR \<equiv> - 2"

named_theorems ub_simps \<open>unfolding rules for bounds-checked accesses\<close>

section \<open>Bounds-checked arrays\<close>

definition arr_get :: "'a list \<Rightarrow> nat \<Rightarrow> 'a ub" where
  "arr_get xs i = (if i < length xs then Some (xs ! i) else None)"

definition arr_set :: "'a list \<Rightarrow> nat \<Rightarrow> 'a \<Rightarrow> 'a list ub" where
  "arr_set xs i x = (if i < length xs then Some (xs[i := x]) else None)"

lemma arr_get_Some [simp, ub_simps]: "i < length xs \<Longrightarrow> arr_get xs i = Some (xs ! i)"
  by (simp add: arr_get_def)

lemma arr_set_Some [simp, ub_simps]: "i < length xs \<Longrightarrow> arr_set xs i x = Some (xs[i := x])"
  by (simp add: arr_set_def)

lemma arr_get_None [ub_simps]: "length xs \<le> i \<Longrightarrow> arr_get xs i = None"
  by (simp add: arr_get_def)

lemma arr_set_None [ub_simps]: "length xs \<le> i \<Longrightarrow> arr_set xs i x = None"
  by (simp add: arr_set_def)

lemma arr_get_eq_Some [simp]: "arr_get xs i = Some x \<longleftrightarrow> i < length xs \<and> x = xs ! i"
  by (auto simp: arr_get_def)

lemma arr_set_eq_Some [simp]: "arr_set xs i x = Some ys \<longleftrightarrow> i < length xs \<and> ys = xs[i := x]"
  by (auto simp: arr_set_def)

section \<open>Words\<close>

lemma bit_push_bit_one: "bit (push_bit n (1 :: 'a :: len word)) m \<longleftrightarrow> m = n \<and> n < LENGTH('a)"
  by (auto simp: bit_exp_iff)

lemma unat_exp: "n < LENGTH('a) \<Longrightarrow> unat (2 ^ n :: 'a :: len word) = 2 ^ n"
  using unat_of_nat [where 'a = 'a, of "2 ^ n"] power_strict_increasing [of n "LENGTH('a)" "2 :: nat"]
  by simp

lemma and_push_bit_one_nonzero:
  "(w AND push_bit n (1 :: 'a :: len word) \<noteq> 0) \<longleftrightarrow> bit w n"
  by (simp add: and_exp_eq_0_iff_not_bit)

section \<open>C strings\<close>

text \<open>Strings are lists of \<open>char\<close> without the terminating null.\<close>

text \<open>A \<open>char\<close> is signed: codes from 128 on are negative numbers.\<close>

definition char_val :: "char \<Rightarrow> u32" where
  "char_val c = signed_take_bit 7 (of_char c)"

text \<open>The functions of \<open>common/shared.c\<close> behind the chained hash lists.\<close>

definition hashfunc :: "string option \<Rightarrow> string option \<Rightarrow> nat \<Rightarrow> nat" where
  "hashfunc name1 name2 hashslots =
    (let result = (case name1 of None \<Rightarrow> 0 | Some s \<Rightarrow> fold (\<lambda>c r. r + char_val c) s (0 :: u32));
         result = (case name2 of None \<Rightarrow> result | Some s \<Rightarrow> fold (\<lambda>c r. r + char_val c) s result)
     in unat result mod hashslots)"

definition uchar :: "char \<Rightarrow> int" where "uchar c = of_char c"

lemma uchar_inj [simp]: "uchar c = uchar b \<longleftrightarrow> c = b"
  by (simp add: uchar_def)

fun strcmp :: "string \<Rightarrow> string \<Rightarrow> c_int" where
  "strcmp [] [] = 0"
| "strcmp [] (_ # _) = - 1"
| "strcmp (_ # _) [] = 1"
| "strcmp (c # cs) (b # bs) =
    (if uchar c < uchar b then - 1 else if uchar c > uchar b then 1 else strcmp cs bs)"

definition compare_hashdata ::
  "string option \<Rightarrow> string option \<Rightarrow> string option \<Rightarrow> string option \<Rightarrow> c_int" where
  "compare_hashdata val1a val1b val2a val2b =
    (let cmp = (\<lambda>x y. case (x, y) of (None, None) \<Rightarrow> 0 | (None, Some _) \<Rightarrow> 1 | (Some _, None) \<Rightarrow> - 1
                      | (Some s, Some t) \<Rightarrow> strcmp s t);
         result = cmp val1a val2a
     in if result = 0 then cmp val1b val2b else result)"

lemma strcmp_eq_0 [simp]: "strcmp s t = 0 \<longleftrightarrow> s = t"
  by (induction s t rule: strcmp.induct) auto

lemma strcmp_Cons_neg:
  "strcmp (c # cs) (b # bs) < 0 \<longleftrightarrow> uchar c < uchar b \<or> c = b \<and> strcmp cs bs < 0"
  using uchar_inj [of c b] by (auto simp del: uchar_inj)

lemma strcmp_trans: "strcmp s t < 0 \<Longrightarrow> strcmp t u < 0 \<Longrightarrow> strcmp s u < 0"
proof (induction s arbitrary: t u)
  case Nil
  then show ?case by (cases t; cases u) simp_all
next
  case (Cons c cs)
  then obtain b bs where t: "t = b # bs" by (cases t) simp_all
  with Cons.prems(2) obtain a as where u: "u = a # as" by (cases u) simp_all
  from Cons.prems t u Cons.IH [of bs as] show ?case
    unfolding t u strcmp_Cons_neg by (auto dest: less_trans)
qed

lemma strcmp_flip: "strcmp s t < 0 \<longleftrightarrow> strcmp t s > 0"
  by (induction s t rule: strcmp.induct) auto

section \<open>Sorting with a comparison function\<close>

text \<open>\<open>qsort\<close> of the C library with a comparison function, as a stable insertion sort.\<close>

fun qsort_insert :: "('a \<Rightarrow> 'a \<Rightarrow> c_int) \<Rightarrow> 'a \<Rightarrow> 'a list \<Rightarrow> 'a list" where
  "qsort_insert cmp x [] = [x]"
| "qsort_insert cmp x (y # ys) = (if cmp x y \<le> 0 then x # y # ys else y # qsort_insert cmp x ys)"

definition qsort :: "('a \<Rightarrow> 'a \<Rightarrow> c_int) \<Rightarrow> 'a list \<Rightarrow> 'a list" where
  "qsort cmp xs = foldr (qsort_insert cmp) xs []"

lemma qsort_insert_mset [simp]: "mset (qsort_insert cmp x ys) = add_mset x (mset ys)"
  by (induction ys) auto

lemma qsort_mset [simp]: "mset (qsort cmp xs) = mset xs"
  by (induction xs) (auto simp: qsort_def)

lemma qsort_set [simp]: "set (qsort cmp xs) = set xs"
  by (metis qsort_mset set_mset_mset)

lemma qsort_sorted_wrt:
  assumes total: "\<And>x y. x \<in> A \<Longrightarrow> y \<in> A \<Longrightarrow> cmp x y \<le> 0 \<or> cmp y x \<le> 0"
    and trans: "\<And>x y z. x \<in> A \<Longrightarrow> y \<in> A \<Longrightarrow> z \<in> A \<Longrightarrow> cmp x y \<le> 0 \<Longrightarrow> cmp y z \<le> 0 \<Longrightarrow> cmp x z \<le> 0"
    and sub: "set xs \<subseteq> A"
  shows "sorted_wrt (\<lambda>x y. cmp x y \<le> 0) (qsort cmp xs)"
proof -
  have ins: "sorted_wrt (\<lambda>x y. cmp x y \<le> 0) (qsort_insert cmp x ys)"
    if "sorted_wrt (\<lambda>x y. cmp x y \<le> 0) ys" "x \<in> A" "set ys \<subseteq> A" for x ys
    using that
  proof (induction ys)
    case (Cons y ys)
    have set: "set (qsort_insert cmp x ys) = insert x (set ys)"
      by (metis qsort_insert_mset set_mset_add_mset_insert set_mset_mset)
    show ?case
    proof (cases "cmp x y \<le> 0")
      case True
      with Cons.prems trans [of x y] show ?thesis by auto
    next
      case False
      with total [of x y] Cons.prems have "cmp y x \<le> 0" by simp
      with Cons False show ?thesis by (simp add: set)
    qed
  qed simp
  from sub show ?thesis
  proof (induction xs)
    case (Cons x xs)
    then show ?case using ins [of "qsort cmp xs" x] by (simp add: qsort_def [of _ "x # xs"] flip: qsort_def)
  qed (simp add: qsort_def)
qed

section \<open>Operations that return\<close>

text \<open>That an operation in \<open>ub\<close> returns is shown along its structure.\<close>

named_theorems returns \<open>an operation returns\<close>

lemma returns_Some [returns]: "\<exists>r. Some x = Some r"
  by simp

lemma returns_if [returns]: "\<exists>r. x = Some r \<Longrightarrow> \<exists>r. y = Some r \<Longrightarrow> \<exists>r. (if b then x else y) = Some r"
  by simp

lemma returns_bind: "x = Some v \<Longrightarrow> \<exists>r. f v = Some r \<Longrightarrow> \<exists>r. x \<bind> f = Some r"
  by simp

lemma returns_map [returns]: "\<exists>r. x = Some r \<Longrightarrow> \<exists>r. map_option f x = Some r"
  by auto

end
