(* ===== verification/Bitmap.thy ===== *)
theory Bitmap
  imports Prelude
begin

text \<open>
  The bit maps of \<open>lib/bitmap.c\<close>: sets of small unsigned integers kept in an array of
  32-bit words, used by the template resolver for sets of object ids.

  The group of definitions follows the file: the record \<open>bitmap\<close> is \<open>struct bitmap\<close>,
  then one definition per function.  \<open>bm_set\<close> is the abstraction: the set of positions
  whose bit is on.  Lengths and positions are \<open>nat\<close>; the one place where the code
  narrows a position (\<open>const bmap l = pos >> SHIFTOUT\<close>) is written out.
  The array may be shorter than an index the code computes: such an access is \<open>None\<close>.
\<close>

section \<open>State\<close>

record bitmap =
  vector :: "u32 list option"
  alloc :: nat

definition MAPSIZE :: nat where "MAPSIZE = 32"
definition SHIFTOUT :: nat where "SHIFTOUT = 5"

definition word_idx :: "nat \<Rightarrow> nat" where
  "word_idx pos = (pos div 2 ^ SHIFTOUT) mod 2 ^ 32"

definition bit_idx :: "nat \<Rightarrow> nat" where
  "bit_idx pos = pos mod MAPSIZE"

definition words_for :: "nat \<Rightarrow> nat" where
  "words_for sz = sz div 2 ^ SHIFTOUT + (if sz mod MAPSIZE \<noteq> 0 then 1 else 0)"

text \<open>The block a call of \<open>realloc\<close> returns holds unspecified values in its new part:
  \<open>mem = Some junk\<close> is a successful call with these values, \<open>None\<close> a failing one.\<close>

type_synonym mem = "(nat \<Rightarrow> u32) option"

section \<open>Operations\<close>

definition bitmap_clear :: "bitmap option \<Rightarrow> bitmap option ub" where
  "bitmap_clear bm = (case bm of None \<Rightarrow> Some None
     | Some b \<Rightarrow> (case vector b of None \<Rightarrow> None
         | Some v \<Rightarrow> if alloc b \<le> length v
             then Some (Some (b\<lparr>vector := Some (replicate (alloc b) 0 @ drop (alloc b) v)\<rparr>))
             else None))"

definition bitmap_resize :: "mem \<Rightarrow> bitmap option \<Rightarrow> nat \<Rightarrow> (c_int \<times> bitmap option) ub" where
  "bitmap_resize mem bm sz =
    (let ralloc = words_for sz in
     case bm of None \<Rightarrow> Some (- 1, None)
     | Some b \<Rightarrow>
       (case vector b of
          None \<Rightarrow> (case mem of
              None \<Rightarrow> Some (- 1, Some b)
            | Some junk \<Rightarrow> Some (0, Some (b\<lparr>vector := Some (replicate ralloc 0), alloc := ralloc\<rparr>)))
        | Some v \<Rightarrow>
            if ralloc = 0 then None
            else (case mem of
              None \<Rightarrow> Some (- 1, Some b)
            | Some junk \<Rightarrow>
                Some (0, Some (b\<lparr>vector := Some (take ralloc v @ map junk [length v..<ralloc]),
                                 alloc := ralloc\<rparr>)))))"

definition bitmap_init :: "mem \<Rightarrow> bitmap option \<Rightarrow> nat \<Rightarrow> (bitmap option \<times> bitmap option) ub" where
  "bitmap_init mem bm sz =
    (case bm of None \<Rightarrow> Some (None, None)
     | Some b \<Rightarrow> do {
         (ret, bm') \<leftarrow> bitmap_resize mem bm sz;
         Some (if ret < 0 then None else bm', bm')
       })"

text \<open>\<open>bitmap_create\<close> makes two allocations: the structure (\<open>m1\<close>) and the vector (\<open>m2\<close>).\<close>

definition bitmap_create :: "bool \<Rightarrow> mem \<Rightarrow> nat \<Rightarrow> bitmap option ub" where
  "bitmap_create m1 m2 sz =
    (if \<not> m1 then Some None
     else do {
       (ret, bm') \<leftarrow> bitmap_init m2 (Some \<lparr>vector = None, alloc = 0\<rparr>) sz;
       Some ret
     })"

definition bitmap_cardinality :: "bitmap option \<Rightarrow> nat" where
  "bitmap_cardinality bm = (case bm of None \<Rightarrow> 0 | Some b \<Rightarrow> alloc b * MAPSIZE)"

text \<open>\<open>memcpy (dst + i, src + i, n bytes)\<close> on word vectors, \<open>n\<close> a multiple of 4: the source
  words are copied when both blocks are large enough, otherwise the behaviour is undefined.\<close>

definition copy_bytes :: "u32 list \<Rightarrow> u32 list \<Rightarrow> nat \<Rightarrow> nat \<Rightarrow> u32 list ub" where
  "copy_bytes dst src i n =
    (let k = n div 4 in
     if i + k \<le> length dst \<and> i + k \<le> length src
     then Some (take i dst @ take k (drop i src) @ drop (i + k) dst)
     else None)"

definition bitmap_copy :: "bool \<Rightarrow> mem \<Rightarrow> bitmap option \<Rightarrow> bitmap option ub" where
  "bitmap_copy m1 m2 bm =
    (case bm of None \<Rightarrow> Some None
     | Some b \<Rightarrow> do {
         ret \<leftarrow> bitmap_create m1 m2 (bitmap_cardinality bm);
         (case ret of None \<Rightarrow> Some None
          | Some r \<Rightarrow> do {
              dst \<leftarrow> vector r; src \<leftarrow> vector b;
              dst' \<leftarrow> copy_bytes dst src 0 (bitmap_cardinality bm);
              Some (Some (r\<lparr>vector := Some dst'\<rparr>))
            })
       })"

definition bpb :: "nat list" where
  "bpb = [
    0, 1, 1, 2, 1, 2, 2, 3, 1, 2, 2, 3, 2, 3, 3, 4,
    1, 2, 2, 3, 2, 3, 3, 4, 2, 3, 3, 4, 3, 4, 4, 5,
    1, 2, 2, 3, 2, 3, 3, 4, 2, 3, 3, 4, 3, 4, 4, 5,
    2, 3, 3, 4, 3, 4, 4, 5, 3, 4, 4, 5, 4, 5, 5, 6,
    1, 2, 2, 3, 2, 3, 3, 4, 2, 3, 3, 4, 3, 4, 4, 5,
    2, 3, 3, 4, 3, 4, 4, 5, 3, 4, 4, 5, 4, 5, 5, 6,
    2, 3, 3, 4, 3, 4, 4, 5, 3, 4, 4, 5, 4, 5, 5, 6,
    3, 4, 4, 5, 4, 5, 5, 6, 4, 5, 5, 6, 5, 6, 6, 7,
    1, 2, 2, 3, 2, 3, 3, 4, 2, 3, 3, 4, 3, 4, 4, 5,
    2, 3, 3, 4, 3, 4, 4, 5, 3, 4, 4, 5, 4, 5, 5, 6,
    2, 3, 3, 4, 3, 4, 4, 5, 3, 4, 4, 5, 4, 5, 5, 6,
    3, 4, 4, 5, 4, 5, 5, 6, 4, 5, 5, 6, 5, 6, 6, 7,
    2, 3, 3, 4, 3, 4, 4, 5, 3, 4, 4, 5, 4, 5, 5, 6,
    3, 4, 4, 5, 4, 5, 5, 6, 4, 5, 5, 6, 5, 6, 6, 7,
    3, 4, 4, 5, 4, 5, 5, 6, 4, 5, 5, 6, 5, 6, 6, 7,
    4, 5, 5, 6, 5, 6, 6, 7, 5, 6, 6, 7, 6, 7, 7, 8]"

definition byte_of :: "u32 \<Rightarrow> nat \<Rightarrow> nat" where
  "byte_of w i = unat (drop_bit (i * 8) w AND 255)"

definition l_bits :: "u32 \<Rightarrow> nat" where
  "l_bits w = sum_list (map (\<lambda>i. bpb ! byte_of w i) [0..<4])"

definition bitmap_set :: "bitmap option \<Rightarrow> nat \<Rightarrow> (c_int \<times> bitmap option) ub" where
  "bitmap_set bm pos =
    (let l = word_idx pos; k = bit_idx pos in
     case bm of None \<Rightarrow> Some (0, None)
     | Some b \<Rightarrow>
       if l > alloc b then Some (- 1, Some b)
       else do {
         v \<leftarrow> vector b;
         w \<leftarrow> arr_get v l;
         v' \<leftarrow> arr_set v l (w OR push_bit k 1);
         Some (0, Some (b\<lparr>vector := Some v'\<rparr>))
       })"

definition bitmap_isset :: "bitmap option \<Rightarrow> nat \<Rightarrow> c_int ub" where
  "bitmap_isset bm pos =
    (let l = word_idx pos; k = bit_idx pos in
     case bm of None \<Rightarrow> Some 0
     | Some b \<Rightarrow>
       if l > alloc b then Some 0
       else do {
         v \<leftarrow> vector b;
         w \<leftarrow> arr_get v l;
         Some (if w AND push_bit k 1 \<noteq> 0 then 1 else 0)
       })"

definition bitmap_unset :: "bitmap option \<Rightarrow> nat \<Rightarrow> (c_int \<times> bitmap option) ub" where
  "bitmap_unset bm pos =
    (let l = word_idx pos; k = bit_idx pos in
     do {
       val \<leftarrow> bitmap_isset bm pos;
       b \<leftarrow> bm;
       v \<leftarrow> vector b;
       w \<leftarrow> arr_get v l;
       v' \<leftarrow> arr_set v l (w AND NOT (push_bit k 1));
       Some (val, Some (b\<lparr>vector := Some v'\<rparr>))
     })"

definition bitmap_count_set_bits :: "bitmap option \<Rightarrow> nat ub" where
  "bitmap_count_set_bits bm =
    (case bm of None \<Rightarrow> Some 0
     | Some b \<Rightarrow> (if alloc b = 0 then Some 0 else do {
         v \<leftarrow> vector b;
         (if alloc b \<le> length v then Some (sum_list (map l_bits (take (alloc b) v))) else None)
       }))"

definition bitmap_count_unset_bits :: "bitmap option \<Rightarrow> nat ub" where
  "bitmap_count_unset_bits bm =
    map_option (\<lambda>n. bitmap_cardinality bm - n) (bitmap_count_set_bits bm)"

text \<open>
  The macro \<open>BITMAP_MATH\<close>: swap the operands so that the first has the smaller vector,
  create a result as large as the second, and combine the common words.  \<open>f\<close> is the
  loop body of the function that uses the macro; the words beyond the smaller vector
  stay as \<open>calloc\<close> left them.  The result is the new vector with the two (swapped) operands.
\<close>

definition math_loop :: "(u32 \<Rightarrow> u32 \<Rightarrow> u32) \<Rightarrow> bitmap \<Rightarrow> bitmap \<Rightarrow> u32 list \<Rightarrow> u32 list ub" where
  "math_loop f a b dst =
    (if alloc a = 0 then Some dst
     else do {
       va \<leftarrow> vector a; vb \<leftarrow> vector b;
       (if alloc a \<le> length va \<and> alloc a \<le> length vb \<and> alloc a \<le> length dst
        then Some (map2 f (take (alloc a) va) (take (alloc a) vb) @ drop (alloc a) dst)
        else None)
     })"

definition BITMAP_MATH ::
  "bool \<Rightarrow> mem \<Rightarrow> (u32 \<Rightarrow> u32 \<Rightarrow> u32) \<Rightarrow> bitmap \<Rightarrow> bitmap \<Rightarrow> (bitmap \<times> bitmap \<times> bitmap) option ub" where
  "BITMAP_MATH m1 m2 f a0 b0 =
    (let (a, b) = (if alloc a0 > alloc b0 then (b0, a0) else (a0, b0)) in
     do {
       r \<leftarrow> bitmap_create m1 m2 (bitmap_cardinality (Some b));
       (case r of None \<Rightarrow> Some None
        | Some bm \<Rightarrow> do {
            dst \<leftarrow> vector bm;
            dst' \<leftarrow> math_loop f a b dst;
            Some (Some (bm\<lparr>vector := Some dst'\<rparr>, a, b))
          })
     })"

definition bitmap_intersect :: "bool \<Rightarrow> mem \<Rightarrow> bitmap \<Rightarrow> bitmap \<Rightarrow> bitmap option ub" where
  "bitmap_intersect m1 m2 a b =
    map_option (map_option fst) (BITMAP_MATH m1 m2 (\<lambda>x y. x AND y) a b)"

definition bitmap_union ::
  "bool \<Rightarrow> mem \<Rightarrow> bitmap option \<Rightarrow> bitmap option \<Rightarrow> bitmap option ub" where
  "bitmap_union m1 m2 a b =
    (case a of None \<Rightarrow> bitmap_copy m1 m2 b
     | Some a' \<Rightarrow> (case b of None \<Rightarrow> bitmap_copy m1 m2 a
         | Some b' \<Rightarrow> map_option (map_option fst) (BITMAP_MATH m1 m2 (\<lambda>x y. x OR y) a' b')))"

definition bitmap_unite :: "mem \<Rightarrow> bitmap option \<Rightarrow> bitmap option \<Rightarrow> bitmap option ub" where
  "bitmap_unite m res addme =
    (case (addme, res) of
       (Some ad, Some r0) \<Rightarrow> do {
         r \<leftarrow> (if bitmap_cardinality addme > bitmap_cardinality res
               then bitmap_resize m res (bitmap_cardinality addme) \<bind> (\<lambda>(ret, r'). r')
               else Some r0);
         (if alloc ad = 0 then Some (Some r) else do {
            vr \<leftarrow> vector r; va \<leftarrow> vector ad;
            (if alloc ad \<le> length vr \<and> alloc ad \<le> length va
             then Some (Some (r\<lparr>vector := Some (map2 (\<lambda>x y. x OR y) (take (alloc ad) vr)
                         (take (alloc ad) va) @ drop (alloc ad) vr)\<rparr>))
             else None)
          })
       }
     | _ \<Rightarrow> Some res)"

definition bitmap_diff :: "bool \<Rightarrow> mem \<Rightarrow> bitmap \<Rightarrow> bitmap \<Rightarrow> bitmap option ub" where
  "bitmap_diff m1 m2 a0 b0 = do {
     r \<leftarrow> BITMAP_MATH m1 m2 (\<lambda>x y. x AND NOT y) a0 b0;
     (case r of None \<Rightarrow> Some None
      | Some (bm, a, b) \<Rightarrow>
          if alloc a0 > alloc b0 then do {
            dst \<leftarrow> vector bm; src \<leftarrow> vector b;
            dst' \<leftarrow> copy_bytes dst src (alloc a) ((alloc b - alloc a) * MAPSIZE);
            Some (Some (bm\<lparr>vector := Some dst'\<rparr>))
          } else Some (Some bm))
   }"

definition bitmap_symdiff :: "bool \<Rightarrow> mem \<Rightarrow> bitmap \<Rightarrow> bitmap \<Rightarrow> bitmap option ub" where
  "bitmap_symdiff m1 m2 a0 b0 = do {
     r \<leftarrow> BITMAP_MATH m1 m2 (\<lambda>x y. (x OR y) XOR (x AND y)) a0 b0;
     (case r of None \<Rightarrow> Some None
      | Some (bm, a, b) \<Rightarrow>
          if alloc b > alloc a then do {
            dst \<leftarrow> vector bm; src \<leftarrow> vector b;
            dst' \<leftarrow> copy_bytes dst src (alloc a) ((alloc b - alloc a) * MAPSIZE);
            Some (Some (bm\<lparr>vector := Some dst'\<rparr>))
          } else Some (Some bm))
   }"

section \<open>Abstraction: the set of positions\<close>

definition bm_wf :: "bitmap \<Rightarrow> bool" where
  "bm_wf b = (case vector b of None \<Rightarrow> False | Some v \<Rightarrow> length v = alloc b \<and> alloc b \<le> 2 ^ 32)"

definition words_set :: "u32 list \<Rightarrow> nat set" where
  "words_set v = {p. p div 32 < length v \<and> bit (v ! (p div 32)) (p mod 32)}"

definition bm_set :: "bitmap \<Rightarrow> nat set" where
  "bm_set b = (case vector b of None \<Rightarrow> {} | Some v \<Rightarrow> words_set v)"

lemma words_set_Nil [simp]: "words_set [] = {}"
  by (simp add: words_set_def)

lemma words_set_replicate [simp]: "words_set (replicate n 0) = {}"
  by (auto simp: words_set_def)

lemma bm_wfE:
  assumes "bm_wf b"
  obtains v where "vector b = Some v" "length v = alloc b" "alloc b \<le> 2 ^ 32"
    "bm_set b = words_set v"
  using assms by (auto simp: bm_wf_def bm_set_def split: option.splits)

lemma div_mod_eq_iff: "(p :: nat) div 32 = q div 32 \<and> p mod 32 = q mod 32 \<longleftrightarrow> p = q"
  by (metis div_mult_mod_eq)

text \<open>Updating one word of the vector changes the set only at the positions of that word.\<close>

lemma words_set_update:
  assumes "i < length v"
  shows "q \<in> words_set (v[i := w]) \<longleftrightarrow> (if q div 32 = i then bit w (q mod 32) else q \<in> words_set v)"
  using assms by (auto simp: words_set_def)

lemma words_set_update_set:
  assumes "p div 32 < length v"
  shows "words_set (v[p div 32 := v ! (p div 32) OR push_bit (p mod 32) 1]) = insert p (words_set v)"
proof (rule set_eqI)
  fix q
  have "q \<in> words_set (v[p div 32 := v ! (p div 32) OR push_bit (p mod 32) 1]) \<longleftrightarrow>
      (if q div 32 = p div 32 then bit (v ! (p div 32)) (q mod 32) \<or> q mod 32 = p mod 32
       else q \<in> words_set v)"
    using assms by (simp only: words_set_update bit_or_iff bit_push_bit_one) simp
  also have "\<dots> \<longleftrightarrow> q \<in> insert p (words_set v)"
    using assms div_mod_eq_iff [of q p] by (auto simp: words_set_def)
  finally show "q \<in> words_set (v[p div 32 := v ! (p div 32) OR push_bit (p mod 32) 1]) \<longleftrightarrow>
    q \<in> insert p (words_set v)" .
qed

lemma words_set_update_unset:
  assumes "p div 32 < length v"
  shows "words_set (v[p div 32 := v ! (p div 32) AND NOT (push_bit (p mod 32) 1)]) = words_set v - {p}"
proof (rule set_eqI)
  fix q
  have "q \<in> words_set (v[p div 32 := v ! (p div 32) AND NOT (push_bit (p mod 32) 1)]) \<longleftrightarrow>
      (if q div 32 = p div 32 then bit (v ! (p div 32)) (q mod 32) \<and> q mod 32 \<noteq> p mod 32
       else q \<in> words_set v)"
    using assms by (simp only: words_set_update bit_and_iff bit_not_iff bit_push_bit_one)
      (auto simp: possible_bit_def)
  also have "\<dots> \<longleftrightarrow> q \<in> words_set v - {p}"
    using assms div_mod_eq_iff [of q p] by (auto simp: words_set_def)
  finally show "q \<in> words_set (v[p div 32 := v ! (p div 32) AND NOT (push_bit (p mod 32) 1)]) \<longleftrightarrow>
    q \<in> words_set v - {p}" .
qed

text \<open>A position below the cardinality addresses a word of the vector, and the narrowing of
  the word index to 32 bits does not change it.\<close>

lemma idx_simps:
  assumes "p < alloc b * 32" "alloc b \<le> 2 ^ 32"
  shows "word_idx p = p div 32" "bit_idx p = p mod 32" "p div 32 < alloc b"
proof -
  have "p div 32 < alloc b" using assms(1) by (simp add: less_mult_imp_div_less)
  with assms(2) show "word_idx p = p div 32" by (simp add: word_idx_def SHIFTOUT_def)
  show "bit_idx p = p mod 32" by (simp add: bit_idx_def MAPSIZE_def)
  show "p div 32 < alloc b" by fact
qed

section \<open>Correctness of the element operations\<close>

lemma words_for_cover: "sz \<le> words_for sz * 32"
  unfolding words_for_def SHIFTOUT_def MAPSIZE_def by auto

lemma bitmap_create_spec:
  assumes "words_for sz \<le> 2 ^ 32"
  shows "\<exists>b. bitmap_create True (Some junk) sz = Some (Some b) \<and> bm_wf b \<and> bm_set b = {}
    \<and> sz \<le> bitmap_cardinality (Some b)"
  using assms words_for_cover [of sz]
  by (auto simp: Let_def bitmap_create_def bitmap_init_def bitmap_resize_def bm_wf_def bm_set_def
      bitmap_cardinality_def MAPSIZE_def)

lemma bitmap_set_spec:
  assumes "bm_wf b" "p < bitmap_cardinality (Some b)"
  shows "\<exists>b'. bitmap_set (Some b) p = Some (0, Some b') \<and> bm_wf b' \<and> alloc b' = alloc b
    \<and> bm_set b' = insert p (bm_set b)"
proof -
  from assms(1) obtain v where v: "vector b = Some v" "length v = alloc b" "alloc b \<le> 2 ^ 32"
    "bm_set b = words_set v" by (rule bm_wfE)
  note idx = idx_simps [OF _ v(3), of p] 
  have p: "p < alloc b * 32" using assms(2) by (simp add: bitmap_cardinality_def MAPSIZE_def)
  with v idx words_set_update_set [of p v] show ?thesis
    by (simp add: bitmap_set_def Let_def ub_simps bm_wf_def bm_set_def)
qed

lemma bitmap_isset_spec:
  assumes "bm_wf b" "p < bitmap_cardinality (Some b)"
  shows "bitmap_isset (Some b) p = Some (if p \<in> bm_set b then 1 else 0)"
proof -
  from assms(1) obtain v where v: "vector b = Some v" "length v = alloc b" "alloc b \<le> 2 ^ 32"
    "bm_set b = words_set v" by (rule bm_wfE)
  have p: "p < alloc b * 32" using assms(2) by (simp add: bitmap_cardinality_def MAPSIZE_def)
  with v idx_simps [OF p v(3)] show ?thesis
    by (simp add: bitmap_isset_def Let_def ub_simps words_set_def and_push_bit_one_nonzero
        del: push_bit_of_1)
qed

lemma bitmap_unset_spec:
  assumes "bm_wf b" "p < bitmap_cardinality (Some b)"
  shows "\<exists>b'. bitmap_unset (Some b) p = Some (if p \<in> bm_set b then 1 else 0, Some b') \<and> bm_wf b'
    \<and> alloc b' = alloc b \<and> bm_set b' = bm_set b - {p}"
proof -
  from assms(1) obtain v where v: "vector b = Some v" "length v = alloc b" "alloc b \<le> 2 ^ 32"
    "bm_set b = words_set v" by (rule bm_wfE)
  have p: "p < alloc b * 32" using assms(2) by (simp add: bitmap_cardinality_def MAPSIZE_def)
  with v idx_simps [OF p v(3)] words_set_update_unset [of p v] bitmap_isset_spec [OF assms]
  show ?thesis
    by (simp add: bitmap_unset_def Let_def ub_simps bm_wf_def bm_set_def)
qed

section \<open>Counting\<close>

definition pop_count :: "'a :: len word \<Rightarrow> nat" where
  "pop_count w = card {i. bit w i}"

text \<open>The table of the code is the one built by doubling: a number of \<open>k + 1\<close> bits whose top
  bit is on has one bit more than the number without it.\<close>

fun bit_table :: "nat \<Rightarrow> nat list" where
  "bit_table 0 = [0]"
| "bit_table (Suc k) = bit_table k @ map Suc (bit_table k)"

lemma length_bit_table: "length (bit_table k) = 2 ^ k"
  by (induction k) auto

lemma bpb_eq_bit_table: "bpb = bit_table 8"
  by code_simp

lemma bit_add_top:
  assumes "m < (2 :: nat) ^ k"
  shows "bit (2 ^ k + m) k" and "i < k \<Longrightarrow> bit (2 ^ k + m) i \<longleftrightarrow> bit m i" and "\<not> bit m k"
proof -
  have "(2 ^ k + m) div 2 ^ k = 1" using assms by (simp add: div_add_self1)
  then show "bit (2 ^ k + m) k" by (simp add: bit_iff_odd)
  show "\<not> bit m k" using assms by (simp add: bit_iff_odd)
  assume "i < k"
  then have "(2 :: nat) ^ k = 2 ^ (k - i) * 2 ^ i" and "even ((2 :: nat) ^ (k - i))"
    by (simp_all flip: power_add)
  then show "bit (2 ^ k + m) i \<longleftrightarrow> bit m i"
    by (simp add: bit_iff_odd)
qed

lemma bit_table_nth: "n < 2 ^ k \<Longrightarrow> bit_table k ! n = length (filter (bit n) [0..<k])"
proof (induction k arbitrary: n)
  case 0
  then show ?case by simp
next
  case (Suc k)
  show ?case
  proof (cases "n < 2 ^ k")
    case True
    with Suc.IH [OF True] bit_add_top(3) [OF True] show ?thesis
      by (simp add: nth_append length_bit_table)
  next
    case False
    define m where "m = n - 2 ^ k"
    with False Suc.prems have n: "n = 2 ^ k + m" and m: "m < 2 ^ k" by auto
    have "filter (bit n) [0..<k] = filter (bit m) [0..<k]"
      by (rule filter_cong) (auto simp: n bit_add_top(2) [OF m])
    with Suc.IH [OF m] bit_add_top(1) [OF m] m show ?thesis
      by (simp add: nth_append length_bit_table n)
  qed
qed

lemma bpb_correct: "n < 256 \<Longrightarrow> bpb ! n = length (filter (bit n) [0..<8])"
  by (simp only: bpb_eq_bit_table) (rule bit_table_nth, simp)

lemma byte_of_bits: "bit (byte_of w i) k \<longleftrightarrow> k < 8 \<and> bit w (i * 8 + k)"
proof -
  have m: "(255 :: u32) = mask 8" by (simp add: mask_eq_exp_minus_1)
  have "bit (drop_bit (i * 8) w AND 255) k \<longleftrightarrow> k < 8 \<and> bit w (i * 8 + k)"
    unfolding m bit_and_iff bit_drop_bit_eq bit_mask_iff possible_bit_def by auto
  then show ?thesis by (simp add: byte_of_def bit_unsigned_iff)
qed

lemma byte_of_less: "byte_of w i < 256"
proof -
  have "unat (drop_bit (i * 8) w AND 255) \<le> unat (255 :: u32)"
    by (rule word_and_le1 [THEN word_le_nat_alt [THEN iffD1]])
  then show ?thesis by (simp add: byte_of_def)
qed

lemma l_bits_pop_count: "l_bits w = pop_count w"
proof -
  have byte: "bpb ! byte_of w i = length (filter (bit w) [i * 8..<i * 8 + 8])" for i
  proof -
    have "filter (bit (byte_of w i)) [0..<8] = filter (\<lambda>k. bit w (i * 8 + k)) [0..<8]"
      by (rule filter_cong) (auto simp: byte_of_bits)
    moreover have "[i * 8..<i * 8 + 8] = map (\<lambda>k. i * 8 + k) [0..<8]"
      by (simp add: map_add_upt add.commute)
    ultimately show ?thesis
      by (simp add: bpb_correct byte_of_less filter_map o_def)
  qed
  have "l_bits w = length (filter (bit w) ([0..<8] @ [8..<16] @ [16..<24] @ [24..<32]))"
    by (simp add: l_bits_def byte upt_conv_Cons numeral_eq_Suc del: upt_Suc)
  also have "[0..<8] @ [8..<16] @ [16..<24] @ [24..<32] = [0..<32]" by code_simp
  also have "length (filter (bit w) [0..<32]) = card (set (filter (bit w) [0..<32]))"
    by (rule distinct_card [symmetric]) simp
  also have "set (filter (bit w) [0..<32]) = {i. bit w i}"
    using bit_imp_le_length [of w] by auto
  finally show ?thesis unfolding pop_count_def .
qed

lemma words_set_snoc:
  "words_set (v @ [w]) = words_set v \<union> (\<lambda>k. length v * 32 + k) ` {k. bit w k}"
proof (rule set_eqI, rule iffI)
  fix p assume p: "p \<in> words_set (v @ [w])"
  show "p \<in> words_set v \<union> (\<lambda>k. length v * 32 + k) ` {k. bit w k}"
  proof (cases "p div 32 < length v")
    case True with p show ?thesis by (auto simp: words_set_def nth_append)
  next
    case False
    with p have d: "p div 32 = length v" by (auto simp: words_set_def)
    with p have "bit w (p mod 32)" by (simp add: words_set_def)
    moreover have "p = length v * 32 + p mod 32" using d by (metis div_mult_mod_eq)
    ultimately show ?thesis by blast
  qed
next
  fix p assume "p \<in> words_set v \<union> (\<lambda>k. length v * 32 + k) ` {k. bit w k}"
  moreover have "length v * 32 + k \<in> words_set (v @ [w])" if "bit w k" for k
  proof -
    from that have "k < 32" using bit_imp_le_length by fastforce
    with that show ?thesis by (simp add: words_set_def nth_append)
  qed
  moreover have "words_set v \<subseteq> words_set (v @ [w])" by (auto simp: words_set_def nth_append)
  ultimately show "p \<in> words_set (v @ [w])" by auto
qed

lemma finite_words_set: "finite (words_set v)"
proof (rule finite_subset)
  show "words_set v \<subseteq> {..< length v * 32}"
    by (auto simp: words_set_def div_less_iff_less_mult)
qed simp

lemma card_words_set: "card (words_set v) = sum_list (map l_bits v)"
proof (induction v rule: rev_induct)
  case Nil
  then show ?case by simp
next
  case (snoc w v)
  have fin: "finite {k. bit w k}" by (rule finite_subset [of _ "{..<32}"]) (auto dest: bit_imp_le_length)
  have "words_set v \<inter> (\<lambda>k. length v * 32 + k) ` {k. bit w k} = {}"
    by (auto simp: words_set_def)
  with snoc fin show ?case
    by (simp add: words_set_snoc card_Un_disjoint finite_words_set card_image inj_on_def
        l_bits_pop_count pop_count_def)
qed

lemma bitmap_count_set_bits_spec:
  assumes "bm_wf b"
  shows "bitmap_count_set_bits (Some b) = Some (card (bm_set b))"
  using assms by (auto elim!: bm_wfE simp: bitmap_count_set_bits_def card_words_set)

section \<open>Set algebra\<close>

lemma bitmap_create_like:
  assumes "alloc b \<le> 2 ^ 32"
  shows "bitmap_create True (Some junk) (bitmap_cardinality (Some b)) =
    Some (Some \<lparr>vector = Some (replicate (alloc b) 0), alloc = alloc b\<rparr>)"
  by (simp add: Let_def bitmap_create_def bitmap_init_def bitmap_resize_def bitmap_cardinality_def
      words_for_def SHIFTOUT_def MAPSIZE_def)

text \<open>
  The contract of the loop body of \<open>BITMAP_MATH\<close>: a word operation that works bit by bit.
  The four functions that use the macro differ only in it.
\<close>

locale bitwise =
  fixes f :: "u32 \<Rightarrow> u32 \<Rightarrow> u32" and g :: "bool \<Rightarrow> bool \<Rightarrow> bool"
  assumes bit_f: "bit (f x y) k \<longleftrightarrow> g (bit x k) (bit y k) \<and> k < 32"
begin

lemma words_set_map2:
  assumes "length va \<le> length vb"
  shows "words_set (map2 f va (take (length va) vb) @ replicate (length vb - length va) 0) =
    {p. p div 32 < length va \<and> g (p \<in> words_set va) (p \<in> words_set vb)}"
proof (rule set_eqI)
  fix p
  show "p \<in> words_set (map2 f va (take (length va) vb) @ replicate (length vb - length va) 0) \<longleftrightarrow>
    p \<in> {p. p div 32 < length va \<and> g (p \<in> words_set va) (p \<in> words_set vb)}"
  proof (cases "p div 32 < length va")
    case True
    with assms show ?thesis by (simp add: words_set_def nth_append bit_f)
  next
    case False
    with assms show ?thesis by (auto simp: words_set_def nth_append)
  qed
qed

lemma ordered:
  assumes "bm_wf a" "bm_wf b" "alloc a \<le> alloc b"
  shows "\<exists>r. BITMAP_MATH True (Some junk) f a b = Some (Some (r, a, b)) \<and> bm_wf r \<and> alloc r = alloc b
    \<and> bm_set r = {p. p div 32 < alloc a \<and> g (p \<in> bm_set a) (p \<in> bm_set b)}"
proof -
  from assms(1) obtain va where va: "vector a = Some va" "length va = alloc a" "alloc a \<le> 2 ^ 32"
    "bm_set a = words_set va" by (rule bm_wfE)
  from assms(2) obtain vb where vb: "vector b = Some vb" "length vb = alloc b" "alloc b \<le> 2 ^ 32"
    "bm_set b = words_set vb" by (rule bm_wfE)
  show ?thesis
    using va vb assms(3) words_set_map2 [of va vb]
    by (auto simp: BITMAP_MATH_def bitmap_create_like math_loop_def bm_wf_def bm_set_def)
qed

lemma swapped:
  assumes "alloc a > alloc b"
  shows "BITMAP_MATH m1 m2 f a b = BITMAP_MATH m1 m2 f b a"
  using assms by (simp add: BITMAP_MATH_def)

text \<open>For a symmetric operation the exchange of the operands does not show, and the result
  lives on the words both vectors have.\<close>

lemma symmetric_result:
  assumes "bm_wf a" "bm_wf b" and sym: "\<And>x y. g x y = g y x"
  shows "\<exists>r x y. BITMAP_MATH True (Some junk) f a b = Some (Some (r, x, y)) \<and> bm_wf r
    \<and> alloc r = max (alloc a) (alloc b)
    \<and> bm_set r = {p. p div 32 < min (alloc a) (alloc b) \<and> g (p \<in> bm_set a) (p \<in> bm_set b)}"
proof (cases "alloc a > alloc b")
  case True
  with assms(1,2) ordered [of b a junk] obtain r
    where "BITMAP_MATH True (Some junk) f b a = Some (Some (r, b, a))" "bm_wf r" "alloc r = alloc a"
      "bm_set r = {p. p div 32 < alloc b \<and> g (p \<in> bm_set b) (p \<in> bm_set a)}" by auto
  with True show ?thesis by (auto simp: swapped [OF True] sym max_def min_def)
next
  case False
  with assms(1,2) ordered [of a b junk] obtain r
    where "BITMAP_MATH True (Some junk) f a b = Some (Some (r, a, b))" "bm_wf r" "alloc r = alloc b"
      "bm_set r = {p. p div 32 < alloc a \<and> g (p \<in> bm_set a) (p \<in> bm_set b)}" by auto
  with False show ?thesis by (auto simp: max_def min_def)
qed

end

interpretation w_and: bitwise "\<lambda>x y. x AND y" "\<lambda>p q. p \<and> q"
  by unfold_locales (auto simp: bit_and_iff dest: bit_imp_le_length)

interpretation w_or: bitwise "\<lambda>x y. x OR y" "\<lambda>p q. p \<or> q"
  by unfold_locales (auto simp: bit_or_iff dest: bit_imp_le_length)

interpretation w_diff: bitwise "\<lambda>x y. x AND NOT y" "\<lambda>p q. p \<and> \<not> q"
  by unfold_locales (auto simp: bit_and_iff bit_not_iff possible_bit_def dest: bit_imp_le_length)

interpretation w_xor: bitwise "\<lambda>x y. (x OR y) XOR (x AND y)" "\<lambda>p q. p \<noteq> q"
  by unfold_locales (auto simp: bit_and_iff bit_or_iff bit_xor_iff dest: bit_imp_le_length)

lemma bm_set_bound: "bm_wf b \<Longrightarrow> p \<in> bm_set b \<Longrightarrow> p div 32 < alloc b"
  by (auto elim!: bm_wfE simp: words_set_def)

text \<open>A copy of \<open>(m - k) * MAPSIZE\<close> bytes from word \<open>k\<close> on leaves a block of \<open>m\<close> words:
  \<open>MAPSIZE\<close> counts bits, so the length asked for is eight times the one that is there.\<close>

lemma copy_bytes_overrun:
  assumes "k < m" "length dst \<le> m"
  shows "copy_bytes dst src k ((m - k) * MAPSIZE) = None"
proof -
  have "(m - k) * MAPSIZE div 4 = 8 * (m - k)" by (simp add: MAPSIZE_def)
  with assms show ?thesis by (auto simp: copy_bytes_def Let_def)
qed

lemma math_vector:
  assumes "bm_wf r"
  shows "\<exists>v. vector r = Some v \<and> length v = alloc r"
  using assms by (auto elim!: bm_wfE)

lemma diff_spec:
  assumes "bm_wf a" "bm_wf b"
  shows "if alloc a \<le> alloc b
      then \<exists>d. bitmap_diff True (Some junk) a b = Some (Some d) \<and> bm_wf d \<and> bm_set d = bm_set a - bm_set b
      else bitmap_diff True (Some junk) a b = None"
proof (cases "alloc a \<le> alloc b")
  case True
  with w_diff.ordered [OF assms True, of junk] bm_set_bound [OF assms(1)] show ?thesis
    by (fastforce simp: bitmap_diff_def)
next
  case False
  then obtain r where r: "BITMAP_MATH True (Some junk) (\<lambda>x y. x AND NOT y) a b = Some (Some (r, b, a))"
    "bm_wf r" "alloc r = alloc a"
    using w_diff.ordered [OF assms(2,1), of junk] w_diff.swapped [of b a] by auto
  from False r math_vector [OF r(2)] math_vector [OF assms(1)]
  show ?thesis by (auto simp: bitmap_diff_def copy_bytes_overrun)
qed

lemma symdiff_spec:
  assumes "bm_wf a" "bm_wf b"
  shows "if alloc a = alloc b
      then \<exists>d. bitmap_symdiff True (Some junk) a b = Some (Some d) \<and> bm_wf d
        \<and> bm_set d = {p. (p \<in> bm_set a) \<noteq> (p \<in> bm_set b)}
      else bitmap_symdiff True (Some junk) a b = None"
proof -
  have overrun: "bitmap_symdiff True (Some junk) x y = None" if "bm_wf x" "bm_wf y" "alloc x < alloc y" for x y
    using w_xor.ordered [OF that(1,2), of junk] that math_vector [OF that(2)]
    by (auto simp: bitmap_symdiff_def copy_bytes_overrun dest!: math_vector)
  have swap: "bitmap_symdiff True (Some junk) a b = bitmap_symdiff True (Some junk) b a" if "alloc a > alloc b"
    unfolding bitmap_symdiff_def w_xor.swapped [OF that] ..
  consider "alloc a = alloc b" | "alloc a < alloc b" | "alloc b < alloc a" by linarith
  then show ?thesis
  proof cases
    case 1
    with w_xor.ordered [OF assms, of junk] bm_set_bound [OF assms(1)] bm_set_bound [OF assms(2)]
    show ?thesis by (auto simp: bitmap_symdiff_def)
  qed (use overrun assms swap in auto)
qed

lemma copy_spec:
  assumes "bm_wf b"
  shows "bitmap_copy True (Some junk) (Some b) = (if alloc b = 0 then Some (Some b) else None)"
proof -
  from assms obtain v where v: "vector b = Some v" "length v = alloc b" "alloc b \<le> 2 ^ 32" by (rule bm_wfE)
  show ?thesis
  proof (cases "alloc b = 0")
    case True
    with v show ?thesis
      using bitmap_create_like [of b junk] by (cases b) (simp add: bitmap_copy_def copy_bytes_def bitmap_cardinality_def)
  next
    case False
    then have "copy_bytes (replicate (alloc b) 0) v 0 ((alloc b - 0) * MAPSIZE) = None"
      by (intro copy_bytes_overrun) simp_all
    with False v show ?thesis
      using bitmap_create_like [of b junk] by (simp add: bitmap_copy_def bitmap_cardinality_def)
  qed
qed

section \<open>Properties\<close>

text \<open>C39. Within the cardinality, \<open>bitmap_set\<close>, \<open>bitmap_unset\<close> and \<open>bitmap_isset\<close> behave as
  insertion into, removal from and membership in a set of positions: setting or clearing one
  position succeeds, keeps the representation invariant and the size, changes the answer for that
  position only, and the clearing call reports whether the position was in the set.\<close>

theorem bitmap_is_set:
  assumes "bm_wf b" "p < bitmap_cardinality (Some b)" "q < bitmap_cardinality (Some b)"
  shows "\<exists>s u. bitmap_set (Some b) p = Some (0, Some s) \<and> bm_wf s
    \<and> bitmap_unset (Some b) p = Some (if p \<in> bm_set b then 1 else 0, Some u) \<and> bm_wf u
    \<and> bm_set s = insert p (bm_set b) \<and> bm_set u = bm_set b - {p}
    \<and> bitmap_isset (Some s) q = (if q = p then Some 1 else bitmap_isset (Some b) q)
    \<and> bitmap_isset (Some u) q = (if q = p then Some 0 else bitmap_isset (Some b) q)"
proof -
  obtain s where s: "bitmap_set (Some b) p = Some (0, Some s)" "bm_wf s" "alloc s = alloc b"
    "bm_set s = insert p (bm_set b)" using bitmap_set_spec [OF assms(1,2)] by auto
  obtain u where u: "bitmap_unset (Some b) p = Some (if p \<in> bm_set b then 1 else 0, Some u)"
    "bm_wf u" "alloc u = alloc b" "bm_set u = bm_set b - {p}"
    using bitmap_unset_spec [OF assms(1,2)] by auto
  have q: "q < bitmap_cardinality (Some s)" "q < bitmap_cardinality (Some u)"
    using assms(3) s(3) u(3) by (simp_all add: bitmap_cardinality_def)
  show ?thesis
    by (rule exI [of _ s], rule exI [of _ u])
      (use s u bitmap_isset_spec [OF s(2) q(1)] bitmap_isset_spec [OF u(2) q(2)]
        bitmap_isset_spec [OF assms(1,3)] in auto)
qed

definition bm_example :: bitmap where
  "bm_example = \<lparr>vector = Some [0x80000001, 4], alloc = 2\<rparr>"

definition bm_small :: bitmap where
  "bm_small = \<lparr>vector = Some [3], alloc = 1\<rparr>"

lemma bm_example_wf: "bm_wf bm_example" "bm_wf bm_small"
  by (simp_all add: bm_example_def bm_small_def bm_wf_def)

theorem bitmap_is_set_witness:
  "\<exists>s u. bitmap_set (Some bm_example) 33 = Some (0, Some s) \<and> bm_wf s
    \<and> bitmap_unset (Some bm_example) 33 = Some (if 33 \<in> bm_set bm_example then 1 else 0, Some u) \<and> bm_wf u
    \<and> bm_set s = insert 33 (bm_set bm_example) \<and> bm_set u = bm_set bm_example - {33}
    \<and> bitmap_isset (Some s) 31 = (if 31 = (33 :: nat) then Some 1 else bitmap_isset (Some bm_example) 31)
    \<and> bitmap_isset (Some u) 31 = (if 31 = (33 :: nat) then Some 0 else bitmap_isset (Some bm_example) 31)"
  by (rule bitmap_is_set [OF bm_example_wf(1)])
    (simp_all add: bitmap_cardinality_def bm_example_def MAPSIZE_def)

text \<open>C40. \<open>bitmap_count_set_bits\<close>, which adds up a table of bits per byte over the four bytes of
  every word, returns the number of positions in the set.\<close>

theorem bitmap_count_is_card:
  assumes "bm_wf b"
  shows "bitmap_count_set_bits (Some b) = Some (card (bm_set b))"
  using assms by (rule bitmap_count_set_bits_spec)

theorem bitmap_count_is_card_witness:
  "bitmap_count_set_bits (Some bm_example) = Some (card (bm_set bm_example))"
  by (rule bitmap_count_is_card) (rule bm_example_wf)

text \<open>\<open>bitmap_intersect\<close> is set intersection and \<open>bitmap_union\<close> is set union on the words both
  maps have: the union of maps of different sizes loses the positions that lie only in the longer
  one.\<close>

theorem bitmap_intersect_union:
  assumes "bm_wf a" "bm_wf b"
  shows "\<exists>i u. bitmap_intersect True (Some junk) a b = Some (Some i) \<and> bm_wf i
    \<and> bm_set i = bm_set a \<inter> bm_set b
    \<and> bitmap_union True (Some junk) (Some a) (Some b) = Some (Some u) \<and> bm_wf u
    \<and> bm_set u = {p \<in> bm_set a \<union> bm_set b. p div 32 < min (alloc a) (alloc b)}"
proof -
  obtain i x y where i: "BITMAP_MATH True (Some junk) (\<lambda>x y. x AND y) a b = Some (Some (i, x, y))" "bm_wf i"
    "bm_set i = {p. p div 32 < min (alloc a) (alloc b) \<and> (p \<in> bm_set a \<and> p \<in> bm_set b)}"
    using w_and.symmetric_result [OF assms] by blast
  obtain u x' y' where u: "BITMAP_MATH True (Some junk) (\<lambda>x y. x OR y) a b = Some (Some (u, x', y'))"
    "bm_wf u" "bm_set u = {p. p div 32 < min (alloc a) (alloc b) \<and> (p \<in> bm_set a \<or> p \<in> bm_set b)}"
    using w_or.symmetric_result [OF assms] by blast
  from i u bm_set_bound [OF assms(1)] bm_set_bound [OF assms(2)] show ?thesis
    by (auto simp: bitmap_intersect_def bitmap_union_def)
qed

theorem bitmap_intersect_union_witness:
  "\<exists>i u. bitmap_intersect True (Some (\<lambda>_. 0)) bm_small bm_example = Some (Some i) \<and> bm_wf i
    \<and> bm_set i = bm_set bm_small \<inter> bm_set bm_example
    \<and> bitmap_union True (Some (\<lambda>_. 0)) (Some bm_small) (Some bm_example) = Some (Some u) \<and> bm_wf u
    \<and> bm_set u = {p \<in> bm_set bm_small \<union> bm_set bm_example.
        p div 32 < min (alloc bm_small) (alloc bm_example)}"
  by (rule bitmap_intersect_union [OF bm_example_wf(2,1)])

text \<open>The differences: with operands of the same size \<open>bitmap_symdiff\<close> is the symmetric
  difference, and with a numerator that is not longer \<open>bitmap_diff\<close> is set difference.  When the
  numerator is longer, respectively the sizes differ, the copy of the overflow words
  leaves the block, because its length is \<open>words * MAPSIZE\<close>, a number of bits: undefined behaviour.\<close>

theorem bitmap_differences:
  assumes "bm_wf a" "bm_wf b"
  shows "(if alloc a \<le> alloc b
      then \<exists>d. bitmap_diff True (Some junk) a b = Some (Some d) \<and> bm_wf d \<and> bm_set d = bm_set a - bm_set b
      else bitmap_diff True (Some junk) a b = None)
    \<and> (if alloc a = alloc b
      then \<exists>d. bitmap_symdiff True (Some junk) a b = Some (Some d) \<and> bm_wf d
        \<and> bm_set d = {p. (p \<in> bm_set a) \<noteq> (p \<in> bm_set b)}
      else bitmap_symdiff True (Some junk) a b = None)"
  using diff_spec [OF assms] symdiff_spec [OF assms] by blast

theorem bitmap_differences_witness:
  "(if alloc bm_example \<le> alloc bm_small
      then \<exists>d. bitmap_diff True (Some (\<lambda>_. 0)) bm_example bm_small = Some (Some d) \<and> bm_wf d
        \<and> bm_set d = bm_set bm_example - bm_set bm_small
      else bitmap_diff True (Some (\<lambda>_. 0)) bm_example bm_small = None)
    \<and> (if alloc bm_example = alloc bm_small
      then \<exists>d. bitmap_symdiff True (Some (\<lambda>_. 0)) bm_example bm_small = Some (Some d) \<and> bm_wf d
        \<and> bm_set d = {p. (p \<in> bm_set bm_example) \<noteq> (p \<in> bm_set bm_small)}
      else bitmap_symdiff True (Some (\<lambda>_. 0)) bm_example bm_small = None)"
  by (rule bitmap_differences [OF bm_example_wf])

end
