(* ===== verification/Prqueue.thy ===== *)
theory Prqueue
  imports Prelude
begin

text \<open>
  The priority queue of \<open>lib/prqueue.c\<close>: a binary heap in an array whose slot 0 is unused.

  Queued elements are pointers (\<open>nat\<close>).  What they point to is a memory of type \<open>'h\<close>
  that the queue only touches through the caller's five callbacks, the record
  \<open>pq_ops\<close>.  Every function is one definition over the queue and that memory;
  an access outside the array, or a callback on an element that is not there, is \<open>None\<close>.
  The locale \<open>pq_callbacks\<close> is the contract the callbacks have to meet; the
  heap invariant \<open>pq_wf\<close> and the correctness of every operation are proved inside it.
\<close>

section \<open>State\<close>

record ('h, 'p) pq_ops =
  cmppri :: "'p \<Rightarrow> 'p \<Rightarrow> bool"
  getpri :: "'h \<Rightarrow> nat \<Rightarrow> 'p ub"
  setpri :: "'h \<Rightarrow> nat \<Rightarrow> 'p \<Rightarrow> 'h ub"
  getpos :: "'h \<Rightarrow> nat \<Rightarrow> nat ub"
  setpos :: "'h \<Rightarrow> nat \<Rightarrow> nat \<Rightarrow> 'h ub"

record prqueue =
  qsize :: nat
  pq_avail :: nat
  pq_step :: nat
  pq_d :: "nat list"

definition left :: "nat \<Rightarrow> nat" where "left i = 2 * i"
definition right :: "nat \<Rightarrow> nat" where "right i = 2 * i + 1"
definition parent :: "nat \<Rightarrow> nat" where "parent i = i div 2"

text \<open>The two allocations of \<open>prqueue_init\<close> succeed or fail; \<open>calloc\<close> fills with NULL, here 0.\<close>

definition prqueue_init :: "bool \<Rightarrow> bool \<Rightarrow> nat \<Rightarrow> prqueue option" where
  "prqueue_init m1 m2 n =
    (if \<not> m1 then None
     else if \<not> m2 then None
     else Some \<lparr>qsize = 1, pq_avail = n + 1, pq_step = n + 1, pq_d = replicate (n + 1) 0\<rparr>)"

definition prqueue_size :: "prqueue \<Rightarrow> nat" where
  "prqueue_size q = qsize q - 1"

section \<open>Sifting\<close>

function bubble_loop ::
  "('h, 'p) pq_ops \<Rightarrow> 'p \<Rightarrow> nat list \<Rightarrow> 'h \<Rightarrow> nat \<Rightarrow> (nat list \<times> 'h \<times> nat) ub" where
  "bubble_loop ops moving_pri ds h i =
    (if i > 1 then do {
       p \<leftarrow> arr_get ds (parent i);
       ppri \<leftarrow> getpri ops h p;
       (if cmppri ops ppri moving_pri then do {
          ds' \<leftarrow> arr_set ds i p;
          h' \<leftarrow> setpos ops h p i;
          bubble_loop ops moving_pri ds' h' (parent i)
        } else Some (ds, h, i))
     } else Some (ds, h, i))"
  by pat_completeness auto
termination
  by (relation "measure (\<lambda>(ops, mp, ds, h, i). i)") (auto simp: parent_def)

definition bubble_up :: "('h, 'p) pq_ops \<Rightarrow> prqueue \<Rightarrow> 'h \<Rightarrow> nat \<Rightarrow> (prqueue \<times> 'h) ub" where
  "bubble_up ops q h i = do {
     moving_node \<leftarrow> arr_get (pq_d q) i;
     moving_pri \<leftarrow> getpri ops h moving_node;
     (ds, h', i') \<leftarrow> bubble_loop ops moving_pri (pq_d q) h i;
     ds' \<leftarrow> arr_set ds i' moving_node;
     h'' \<leftarrow> setpos ops h' moving_node i';
     Some (q\<lparr>pq_d := ds'\<rparr>, h'')
   }"

definition maxchild :: "('h, 'p) pq_ops \<Rightarrow> nat list \<Rightarrow> nat \<Rightarrow> 'h \<Rightarrow> nat \<Rightarrow> nat ub" where
  "maxchild ops ds n h i =
    (let child_node = left i in
     if child_node \<ge> n then Some 0
     else if child_node + 1 < n then do {
       l \<leftarrow> arr_get ds child_node; lp \<leftarrow> getpri ops h l;
       r \<leftarrow> arr_get ds (child_node + 1); rp \<leftarrow> getpri ops h r;
       Some (if cmppri ops lp rp then child_node + 1 else child_node)
     } else Some child_node)"

lemma maxchild_cases:
  "maxchild ops ds n h i = Some c \<Longrightarrow> c = 0 \<or> c < n \<and> (c = left i \<or> c = right i)"
  by (auto simp: maxchild_def Let_def left_def right_def bind_eq_Some_conv split: if_splits)

function percolate_loop ::
  "('h, 'p) pq_ops \<Rightarrow> 'p \<Rightarrow> nat \<Rightarrow> nat list \<Rightarrow> 'h \<Rightarrow> nat \<Rightarrow> (nat list \<times> 'h \<times> nat) ub" where
  "percolate_loop ops moving_pri n ds h i = do {
     child_node \<leftarrow> maxchild ops ds n h i;
     (if child_node \<noteq> 0 then do {
        c \<leftarrow> arr_get ds child_node;
        cpri \<leftarrow> getpri ops h c;
        (if cmppri ops moving_pri cpri then do {
           ds' \<leftarrow> arr_set ds i c;
           h' \<leftarrow> setpos ops h c i;
           percolate_loop ops moving_pri n ds' h' child_node
         } else Some (ds, h, i))
      } else Some (ds, h, i))
   }"
  by pat_completeness auto
termination
proof (relation "measure (\<lambda>(ops, mp, n, ds, h, i). n - i)", goal_cases)
  case (2 ops mp n ds h i c)
  then show ?case by (auto dest!: maxchild_cases simp: left_def right_def)
qed simp

definition percolate_down :: "('h, 'p) pq_ops \<Rightarrow> prqueue \<Rightarrow> 'h \<Rightarrow> nat \<Rightarrow> (prqueue \<times> 'h) ub" where
  "percolate_down ops q h i = do {
     moving_node \<leftarrow> arr_get (pq_d q) i;
     moving_pri \<leftarrow> getpri ops h moving_node;
     (ds, h', i') \<leftarrow> percolate_loop ops moving_pri (qsize q) (pq_d q) h i;
     ds' \<leftarrow> arr_set ds i' moving_node;
     h'' \<leftarrow> setpos ops h' moving_node i';
     Some (q\<lparr>pq_d := ds'\<rparr>, h'')
   }"

declare bubble_loop.simps [simp del] percolate_loop.simps [simp del]

section \<open>Operations\<close>

text \<open>\<open>mem\<close> is the outcome of \<open>realloc\<close>: \<open>Some junk\<close> with the contents of the new slots,
  \<open>None\<close> when it fails.\<close>

definition prqueue_insert ::
  "('h, 'p) pq_ops \<Rightarrow> (nat \<Rightarrow> nat) option \<Rightarrow> prqueue option \<Rightarrow> 'h \<Rightarrow> nat \<Rightarrow> (c_int \<times> prqueue option \<times> 'h) ub" where
  "prqueue_insert ops mem qo h x =
    (case qo of None \<Rightarrow> Some (1, None, h)
     | Some q \<Rightarrow>
       (case (if qsize q \<ge> pq_avail q
              then (let newsize = qsize q + pq_step q in
                case mem of None \<Rightarrow> None
                | Some junk \<Rightarrow> Some (q\<lparr>pq_d := take newsize (pq_d q) @ map junk [length (pq_d q)..<newsize],
                                       pq_avail := newsize\<rparr>))
              else Some q) of
          None \<Rightarrow> Some (1, Some q, h)
        | Some q' \<Rightarrow> do {
            let i = qsize q';
            ds \<leftarrow> arr_set (pq_d q') i x;
            (q'', h') \<leftarrow> bubble_up ops (q'\<lparr>qsize := i + 1, pq_d := ds\<rparr>) h i;
            Some (0, Some q'', h')
          }))"

definition prqueue_change_priority ::
  "('h, 'p) pq_ops \<Rightarrow> prqueue \<Rightarrow> 'h \<Rightarrow> 'p \<Rightarrow> nat \<Rightarrow> (prqueue \<times> 'h) ub" where
  "prqueue_change_priority ops q h new_pri x = do {
     old_pri \<leftarrow> getpri ops h x;
     h' \<leftarrow> setpri ops h x new_pri;
     posn \<leftarrow> getpos ops h' x;
     (if cmppri ops old_pri new_pri then bubble_up ops q h' posn
      else percolate_down ops q h' posn)
   }"

definition prqueue_remove :: "('h, 'p) pq_ops \<Rightarrow> prqueue \<Rightarrow> 'h \<Rightarrow> nat \<Rightarrow> (c_int \<times> prqueue \<times> 'h) ub" where
  "prqueue_remove ops q h x = do {
     posn \<leftarrow> getpos ops h x;
     let n = qsize q - 1;
     y \<leftarrow> arr_get (pq_d q) n;
     ds \<leftarrow> arr_set (pq_d q) posn y;
     let q' = q\<lparr>qsize := n, pq_d := ds\<rparr>;
     xp \<leftarrow> getpri ops h x;
     z \<leftarrow> arr_get ds posn;
     yp \<leftarrow> getpri ops h z;
     (q'', h') \<leftarrow> (if cmppri ops xp yp then bubble_up ops q' h posn else percolate_down ops q' h posn);
     Some (0, q'', h')
   }"

definition prqueue_pop ::
  "('h, 'p) pq_ops \<Rightarrow> prqueue option \<Rightarrow> 'h \<Rightarrow> (nat option \<times> prqueue option \<times> 'h) ub" where
  "prqueue_pop ops qo h =
    (case qo of None \<Rightarrow> Some (None, None, h)
     | Some q \<Rightarrow>
       if qsize q = 1 then Some (None, Some q, h)
       else do {
         head \<leftarrow> arr_get (pq_d q) 1;
         let n = qsize q - 1;
         y \<leftarrow> arr_get (pq_d q) n;
         ds \<leftarrow> arr_set (pq_d q) 1 y;
         (q', h') \<leftarrow> percolate_down ops (q\<lparr>qsize := n, pq_d := ds\<rparr>) h 1;
         Some (Some head, Some q', h')
       })"

definition prqueue_peek :: "prqueue option \<Rightarrow> nat option ub" where
  "prqueue_peek qo =
    (case qo of None \<Rightarrow> Some None
     | Some q \<Rightarrow> if qsize q = 1 then Some None else map_option Some (arr_get (pq_d q) 1))"

text \<open>The recursion of \<open>subtree_is_valid\<close> does not end at position 0, whose left child is 0.\<close>

function subtree_is_valid :: "('h, 'p) pq_ops \<Rightarrow> nat \<Rightarrow> nat list \<Rightarrow> 'h \<Rightarrow> nat \<Rightarrow> bool ub" where
  "subtree_is_valid ops n ds h p =
    (if p = 0 then None
     else do {
       okl \<leftarrow> (if left p < n then do {
          x \<leftarrow> arr_get ds p; xp \<leftarrow> getpri ops h x;
          l \<leftarrow> arr_get ds (left p); lp \<leftarrow> getpri ops h l;
          (if cmppri ops xp lp then Some False else subtree_is_valid ops n ds h (left p))
        } else Some True);
       (if \<not> okl then Some False
        else if right p < n then do {
          x \<leftarrow> arr_get ds p; xp \<leftarrow> getpri ops h x;
          r \<leftarrow> arr_get ds (right p); rp \<leftarrow> getpri ops h r;
          (if cmppri ops xp rp then Some False else subtree_is_valid ops n ds h (right p))
        } else Some True)
     })"
  by pat_completeness auto
termination
  by (relation "measure (\<lambda>(ops, n, ds, h, p). n - p)") (auto simp: left_def right_def)

declare subtree_is_valid.simps [simp del]

definition prqueue_is_valid :: "('h, 'p) pq_ops \<Rightarrow> prqueue \<Rightarrow> 'h \<Rightarrow> bool ub" where
  "prqueue_is_valid ops q h = subtree_is_valid ops (qsize q) (pq_d q) h 1"


section \<open>Heap order\<close>

text \<open>Priorities by position.  \<open>heap_except_up\<close> allows the entry at \<open>i\<close> to be smaller than
  its parent, \<open>heap_except_down\<close> allows it to be larger than its children.\<close>

definition heap_on :: "('p \<Rightarrow> 'p \<Rightarrow> bool) \<Rightarrow> nat \<Rightarrow> (nat \<Rightarrow> 'p) \<Rightarrow> bool" where
  "heap_on le n k \<longleftrightarrow> (\<forall>j. 2 \<le> j \<and> j < n \<longrightarrow> le (k (j div 2)) (k j))"

definition heap_except_up :: "('p \<Rightarrow> 'p \<Rightarrow> bool) \<Rightarrow> nat \<Rightarrow> nat \<Rightarrow> (nat \<Rightarrow> 'p) \<Rightarrow> bool" where
  "heap_except_up le n i k \<longleftrightarrow> (\<forall>j. 2 \<le> j \<and> j < n \<longrightarrow>
     (j \<noteq> i \<longrightarrow> le (k (j div 2)) (k j)) \<and> (j div 2 = i \<and> i > 1 \<longrightarrow> le (k (i div 2)) (k j)))"

definition heap_except_down :: "('p \<Rightarrow> 'p \<Rightarrow> bool) \<Rightarrow> nat \<Rightarrow> nat \<Rightarrow> (nat \<Rightarrow> 'p) \<Rightarrow> bool" where
  "heap_except_down le n i k \<longleftrightarrow> (\<forall>j. 2 \<le> j \<and> j < n \<longrightarrow>
     (j div 2 \<noteq> i \<longrightarrow> le (k (j div 2)) (k j)) \<and> (j div 2 = i \<and> i > 1 \<longrightarrow> le (k (i div 2)) (k j)))"

text \<open>The three predicates look at the positions 1 to \<open>n - 1\<close> only.\<close>

lemma heap_cong:
  assumes "\<And>j. 1 \<le> j \<Longrightarrow> j < n \<Longrightarrow> k j = k' j"
  shows "heap_on le n k \<longleftrightarrow> heap_on le n k'"
    and "heap_except_up le n i k \<longleftrightarrow> heap_except_up le n i k'"
    and "heap_except_down le n i k \<longleftrightarrow> heap_except_down le n i k'"
  using assms by (auto simp: heap_on_def heap_except_up_def heap_except_down_def)

locale pri_order =
  fixes le :: "'p \<Rightarrow> 'p \<Rightarrow> bool"
  assumes le_trans: "le a b \<Longrightarrow> le b c \<Longrightarrow> le a c"
    and le_total: "le a b \<or> le b a"
begin

lemma le_refl: "le a a"
  using le_total by blast

lemma heap_top:
  assumes "heap_on le n k"
  shows "1 \<le> j \<Longrightarrow> j < n \<Longrightarrow> le (k 1) (k j)"
proof (induction j rule: less_induct)
  case (less j)
  show ?case
  proof (cases "j = 1")
    case False
    with less.prems have j: "2 \<le> j" "j div 2 < j" "1 \<le> j div 2" by auto
    with less.prems assms have "le (k (j div 2)) (k j)" by (simp add: heap_on_def)
    with less.IH [OF j(2)] j less.prems show ?thesis by (auto intro: le_trans)
  qed (simp add: le_refl)
qed

lemma heap_up_step:
  assumes h: "heap_except_up le n i k" and i: "1 < i" "i < n" and gt: "\<not> le (k (i div 2)) (k i)"
  shows "heap_except_up le n (i div 2) (k(i := k (i div 2), i div 2 := k i))"
proof -
  define p where "p = i div 2"
  define k' where "k' = k(i := k p, p := k i)"
  have p: "p < i" "1 \<le> p" "p < n" using i by (auto simp: p_def)
  have k': "k' p = k i" "k' i = k p" "j \<noteq> p \<Longrightarrow> j \<noteq> i \<Longrightarrow> k' j = k j" for j
    using p by (auto simp: k'_def)
  have lt: "le (k i) (k p)" using gt le_total by (auto simp: p_def)
  have h1: "2 \<le> j \<Longrightarrow> j < n \<Longrightarrow> j \<noteq> i \<Longrightarrow> le (k (j div 2)) (k j)"
    and h2: "2 \<le> j \<Longrightarrow> j < n \<Longrightarrow> j div 2 = i \<Longrightarrow> le (k p) (k j)" for j
    using h i by (auto simp: heap_except_up_def p_def)
  have h3: "le (k (p div 2)) (k p)" if "p > 1" using h1 [of p] that p by auto
  have A: "le (k' (j div 2)) (k' j)" if j: "2 \<le> j" "j < n" "j \<noteq> p" for j
  proof -
    consider "j = i" | "j \<noteq> i" "j div 2 = p" | "j \<noteq> i" "j div 2 = i" | "j \<noteq> i" "j div 2 \<noteq> p" "j div 2 \<noteq> i"
      by blast
    then show ?thesis
    proof cases
      case 2 with h1 [of j] j lt k' show ?thesis by (auto intro: le_trans)
    qed (use h1 [of j] h2 [of j] j lt k' p_def in auto)
  qed
  have B: "le (k' (p div 2)) (k' j)" if j: "2 \<le> j" "j < n" "j div 2 = p" "p > 1" for j
  proof -
    have "k' (p div 2) = k (p div 2)" "j \<noteq> p" using k'(3) p j by auto
    with h1 [of j] h3 j k' show ?thesis by (cases "j = i") (auto intro: le_trans)
  qed
  from A B show ?thesis by (simp add: heap_except_up_def k'_def p_def)
qed

lemma heap_up_done:
  "heap_except_up le n i k \<Longrightarrow> i \<le> 1 \<or> le (k (i div 2)) (k i) \<Longrightarrow> heap_on le n k"
  by (auto simp: heap_except_up_def heap_on_def)

lemma heap_down_step:
  assumes h: "heap_except_down le n i k" and i: "1 \<le> i" and c: "c div 2 = i" "c < n"
    and gt: "\<not> le (k i) (k c)" and least: "\<And>j. j div 2 = i \<Longrightarrow> j < n \<Longrightarrow> le (k c) (k j)"
  shows "heap_except_down le n c (k(i := k c, c := k i))"
proof -
  define k' where "k' = k(i := k c, c := k i)"
  have ci: "i < c" "2 \<le> c" using c i by auto
  have k': "k' c = k i" "k' i = k c" "j \<noteq> c \<Longrightarrow> j \<noteq> i \<Longrightarrow> k' j = k j" for j
    using ci by (auto simp: k'_def)
  have lt: "le (k c) (k i)" using gt le_total by auto
  have h1: "2 \<le> j \<Longrightarrow> j < n \<Longrightarrow> j div 2 \<noteq> i \<Longrightarrow> le (k (j div 2)) (k j)"
    and h2: "2 \<le> j \<Longrightarrow> j < n \<Longrightarrow> j div 2 = i \<Longrightarrow> i > 1 \<Longrightarrow> le (k (i div 2)) (k j)" for j
    using h by (auto simp: heap_except_down_def)
  have A: "le (k' (j div 2)) (k' j)" if j: "2 \<le> j" "j < n" "j div 2 \<noteq> c" for j
  proof -
    consider "j = c" | "j \<noteq> c" "j div 2 = i" | "j = i" | "j \<noteq> c" "j \<noteq> i" "j div 2 \<noteq> i" by blast
    then show ?thesis
    proof cases
      case 2 with least [of j] j k' ci show ?thesis by (cases "j = i") auto
    next
      case 3
      with h2 [of c] c ci j k' show ?thesis by auto
    qed (use h1 [of j] j lt c k' in auto)
  qed
  have B: "le (k' (c div 2)) (k' j)" if j: "2 \<le> j" "j < n" "j div 2 = c" for j
    using h1 [of j] j ci c k' by auto
  from A B show ?thesis by (simp add: heap_except_down_def k'_def)
qed

lemma heap_down_done:
  "heap_except_down le n i k \<Longrightarrow> (\<And>j. j div 2 = i \<Longrightarrow> 2 \<le> j \<Longrightarrow> j < n \<Longrightarrow> le (k i) (k j)) \<Longrightarrow> heap_on le n k"
  by (auto simp: heap_except_down_def heap_on_def)

text \<open>Replacing one priority of a heap leaves an exception in one of the two directions.\<close>

lemma heap_up_update:
  assumes "heap_on le n k" "1 \<le> i" "i < n" "le x (k i)"
  shows "heap_except_up le n i (k(i := x))"
proof -
  have *: "le (k (j div 2)) (k j)" if "2 \<le> j" "j < n" for j
    using assms(1) that by (simp add: heap_on_def)
  show ?thesis
    unfolding heap_except_up_def
  proof (intro allI impI conjI)
    fix j assume j: "2 \<le> j \<and> j < n" 
    show "le ((k(i := x)) (j div 2)) ((k(i := x)) j)" if "j \<noteq> i"
      using * [of j] j that assms(4) by (auto intro: le_trans)
    assume "j div 2 = i \<and> i > 1"
    then show "le ((k(i := x)) (i div 2)) ((k(i := x)) j)"
      using * [of j] * [of i] j assms(3) by (auto intro: le_trans)
  qed
qed

lemma heap_down_update:
  assumes "heap_on le n k" "1 \<le> i" "i < n" "le (k i) x"
  shows "heap_except_down le n i (k(i := x))"
proof -
  have *: "le (k (j div 2)) (k j)" if "2 \<le> j" "j < n" for j
    using assms(1) that by (simp add: heap_on_def)
  show ?thesis
    unfolding heap_except_down_def
  proof (intro allI impI conjI)
    fix j assume j: "2 \<le> j \<and> j < n"
    show "le ((k(i := x)) (j div 2)) ((k(i := x)) j)" if "j div 2 \<noteq> i"
      using * [of j] j that assms(4) by (auto intro: le_trans)
    assume "j div 2 = i \<and> i > 1"
    then show "le ((k(i := x)) (i div 2)) ((k(i := x)) j)"
      using * [of j] * [of i] j assms(3) by (auto intro: le_trans)
  qed
qed

lemma heap_up_append:
  assumes "heap_on le n k"
  shows "heap_except_up le (Suc n) n (k(n := x))"
  using assms unfolding heap_on_def heap_except_up_def by (auto simp: less_Suc_eq)

lemma heap_on_mono: "heap_on le n k \<Longrightarrow> m \<le> n \<Longrightarrow> heap_on le m k"
  by (simp add: heap_on_def)

end

section \<open>The queued elements\<close>

text \<open>\<open>slots n ds\<close> are the used slots 1 to \<open>n - 1\<close> of an array, \<open>nodes q\<close> those of a queue.\<close>

definition slots :: "nat \<Rightarrow> nat list \<Rightarrow> nat list" where
  "slots n ds = tl (take n ds)"

definition nodes :: "prqueue \<Rightarrow> nat list" where
  "nodes q = slots (qsize q) (pq_d q)"

lemma nth_slots: "Suc j < n \<Longrightarrow> n \<le> length ds \<Longrightarrow> slots n ds ! j = ds ! Suc j"
  by (simp add: slots_def nth_tl)

lemma length_slots [simp]: "n \<le> length ds \<Longrightarrow> length (slots n ds) = n - 1"
  by (simp add: slots_def)

lemma tl_list_update: "tl (xs[Suc i := x]) = (tl xs)[i := x]"
  by (cases xs) simp_all

lemma slots_update: "1 \<le> i \<Longrightarrow> slots n (ds[i := x]) = (slots n ds)[i - 1 := x]"
  using tl_list_update [of "take n ds" "i - 1"] by (simp add: slots_def take_update_swap)

lemma in_slots_iff:
  assumes "n \<le> length ds"
  shows "x \<in> set (slots n ds) \<longleftrightarrow> (\<exists>j. 1 \<le> j \<and> j < n \<and> ds ! j = x)"
proof
  assume "x \<in> set (slots n ds)"
  then obtain j where "j < n - 1" "slots n ds ! j = x" using assms by (auto simp: in_set_conv_nth)
  then show "\<exists>j. 1 \<le> j \<and> j < n \<and> ds ! j = x" using assms
    by (intro exI [of _ "Suc j"]) (simp add: nth_slots)
next
  assume "\<exists>j. 1 \<le> j \<and> j < n \<and> ds ! j = x"
  then obtain j where "1 \<le> j" "j < n" "ds ! j = x" by blast
  then have "j - 1 < length (slots n ds)" "slots n ds ! (j - 1) = x"
    using assms nth_slots [of "j - 1" n ds] by simp_all
  then show "x \<in> set (slots n ds)" by (metis nth_mem)
qed

lemma slots_inj:
  assumes "n \<le> length ds" "distinct (slots n ds)" "1 \<le> i" "i < n" "1 \<le> j" "j < n" "ds ! i = ds ! j"
  shows "i = j"
proof -
  have "slots n ds ! (i - 1) = slots n ds ! (j - 1)"
    using assms nth_slots [of "i - 1" n ds] nth_slots [of "j - 1" n ds] by simp
  with assms have "i - 1 = j - 1" by (subst (asm) nth_eq_iff_index_eq) auto
  with assms show ?thesis by linarith
qed

lemma mset_slots_swap:
  assumes "1 \<le> i" "i < n" "1 \<le> p" "p < n" "n \<le> length ds"
  shows "mset (slots n (ds[i := ds ! p, p := ds ! i])) = mset (slots n ds)"
proof -
  have "slots n (ds[i := ds ! p, p := ds ! i]) =
      (slots n ds)[i - 1 := slots n ds ! (p - 1), p - 1 := slots n ds ! (i - 1)]"
    using assms by (simp add: slots_update nth_slots)
  then show ?thesis using assms by (simp add: mset_swap)
qed


lemma slots_Suc: "1 \<le> n \<Longrightarrow> n < length ds \<Longrightarrow> slots (Suc n) ds = slots n ds @ [ds ! n]"
  by (cases n; cases ds) (simp_all add: slots_def take_Suc_conv_app_nth)

lemma slots_update_ge: "1 \<le> n \<Longrightarrow> n \<le> i \<Longrightarrow> slots n (ds[i := x]) = slots n ds"
  by (simp add: slots_def)

text \<open>Moving the last element into slot \<open>i\<close> and shrinking removes the element of slot \<open>i\<close>.\<close>

lemma mset_slots_remove:
  assumes "1 \<le> i" "i < n" "n \<le> length ds"
  shows "mset (slots n ds) = add_mset (ds ! i) (mset (slots (n - 1) (ds[i := ds ! (n - 1)])))"
proof -
  define k where "k = n - 1"
  with assms have k: "n = Suc k" "1 \<le> k" "k < length ds" "i \<le> k" by auto
  show ?thesis
  proof (cases "i = k")
    case True
    with k show ?thesis by (simp add: slots_Suc slots_update_ge)
  next
    case False
    with k assms have "i - 1 < length (slots k ds)" "slots k ds ! (i - 1) = ds ! i"
      using nth_slots [of "i - 1" k ds] by auto
    moreover from this have "ds ! i \<in># mset (slots k ds)" by (metis nth_mem set_mset_mset)
    ultimately show ?thesis
      using k assms by (simp add: slots_Suc slots_update mset_update)
  qed
qed

section \<open>The contract of the callbacks\<close>

text \<open>
  \<open>key h x\<close> is what the memory says about the element \<open>x\<close>, apart from its position: its
  priority and the rest of it; \<open>None\<close> when \<open>x\<close> is not allocated.  The callbacks of a caller
  have to compare by a total preorder, read and write the priority and the position of an
  allocated element, and leave everything else as it is.
\<close>

definition pri_at :: "('h \<Rightarrow> nat \<Rightarrow> ('p \<times> 'v) option) \<Rightarrow> 'h \<Rightarrow> nat \<Rightarrow> 'p" where
  "pri_at key h x = fst (the (key h x))"

text \<open>The invariant of a queue: the array is large enough, the elements are allocated and
  pairwise different, each knows its position, and they are in heap order.\<close>

definition pq_wf :: "('h, 'p) pq_ops \<Rightarrow> ('h \<Rightarrow> nat \<Rightarrow> ('p \<times> 'v) option) \<Rightarrow> prqueue \<Rightarrow> 'h \<Rightarrow> bool" where
  "pq_wf ops key q h \<longleftrightarrow> 1 \<le> qsize q \<and> qsize q \<le> pq_avail q \<and> pq_avail q = length (pq_d q)
     \<and> 1 \<le> pq_step q \<and> distinct (nodes q) \<and> (\<forall>x \<in> set (nodes q). key h x \<noteq> None)
     \<and> (\<forall>j. 1 \<le> j \<and> j < qsize q \<longrightarrow> getpos ops h (pq_d q ! j) = Some j)
     \<and> heap_on (\<lambda>a b. \<not> cmppri ops a b) (qsize q) (\<lambda>j. pri_at key h (pq_d q ! j))"

text \<open>While an element \<open>m\<close> is sifted, slot \<open>i\<close> is a hole that will take it.\<close>

definition hole ::
  "('h, 'p) pq_ops \<Rightarrow> ('h \<Rightarrow> nat \<Rightarrow> ('p \<times> 'v) option) \<Rightarrow> nat \<Rightarrow> nat \<Rightarrow> nat \<Rightarrow> nat list \<Rightarrow> 'h \<Rightarrow> bool" where
  "hole ops key n i m ds h \<longleftrightarrow> 1 \<le> i \<and> i < n \<and> n \<le> length ds \<and> distinct (slots n (ds[i := m]))
     \<and> (\<forall>x \<in> set (slots n (ds[i := m])). key h x \<noteq> None)
     \<and> (\<forall>j. 1 \<le> j \<and> j < n \<and> j \<noteq> i \<longrightarrow> getpos ops h (ds ! j) = Some j)"

abbreviation hole_pris ::
  "('h \<Rightarrow> nat \<Rightarrow> ('p \<times> 'v) option) \<Rightarrow> nat \<Rightarrow> nat \<Rightarrow> nat list \<Rightarrow> 'h \<Rightarrow> nat \<Rightarrow> 'p" where
  "hole_pris key i m ds h \<equiv> (\<lambda>j. pri_at key h (ds ! j))(i := pri_at key h m)"

lemma hole_member:
  assumes "hole ops key n i m ds h" "1 \<le> j" "j < n"
  shows "key h ((ds[i := m]) ! j) \<noteq> None"
proof -
  from assms have "(ds[i := m]) ! j \<in> set (slots n (ds[i := m]))"
    by (subst in_slots_iff) (auto simp: hole_def)
  with assms(1) show ?thesis by (simp add: hole_def)
qed

locale pq_callbacks = pri_order "\<lambda>a b. \<not> cmppri ops a b"
  for ops :: "('h, 'p) pq_ops" +
  fixes key :: "'h \<Rightarrow> nat \<Rightarrow> ('p \<times> 'v) option"
  assumes getpri_key: "key h x = Some (pr, v) \<Longrightarrow> getpri ops h x = Some pr"
    and getpos_live: "key h x \<noteq> None \<Longrightarrow> \<exists>i. getpos ops h x = Some i"
    and setpos_law: "key h x \<noteq> None \<Longrightarrow> \<exists>h'. setpos ops h x i = Some h' \<and> key h' = key h
      \<and> getpos ops h' = (getpos ops h)(x := Some i)"
    and setpri_law: "key h x = Some (pr, v) \<Longrightarrow> \<exists>h'. setpri ops h x np = Some h'
      \<and> key h' = (key h)(x \<mapsto> (np, v)) \<and> getpos ops h' = getpos ops h"
begin

lemma key_cases:
  assumes "key h x \<noteq> None"
  shows "getpri ops h x = Some (pri_at key h x)" "\<exists>v. key h x = Some (pri_at key h x, v)"
  using assms getpri_key by (auto simp: pri_at_def)

lemma move_into_hole:
  assumes hole: "hole ops key n i m ds h" and p: "1 \<le> p" "p < n" "p \<noteq> i"
  shows "\<exists>h'. setpos ops h (ds ! p) i = Some h' \<and> hole ops key n p m (ds[i := ds ! p]) h' \<and> key h' = key h
    \<and> mset (slots n (ds[i := ds ! p, p := m])) = mset (slots n (ds[i := m]))
    \<and> hole_pris key p m (ds[i := ds ! p]) h' =
        (hole_pris key i m ds h)(i := hole_pris key i m ds h p, p := hole_pris key i m ds h i)"
proof -
  let ?e = "ds[i := m]" and ?e' = "ds[i := ds ! p, p := m]"
  have i: "1 \<le> i" "i < n" "n \<le> length ds" using hole by (auto simp: hole_def)
  have "key h (ds ! p) \<noteq> None" using hole_member [OF hole p(1,2)] p(3) by simp
  then obtain h' where h': "setpos ops h (ds ! p) i = Some h'" "key h' = key h"
    "getpos ops h' = (getpos ops h)(ds ! p := Some i)" using setpos_law by blast
  have e': "?e' = ?e[i := ?e ! p, p := ?e ! i]" using p i by (simp add: list_update_swap)
  have ms: "mset (slots n ?e') = mset (slots n ?e)"
    unfolding e' using p i by (intro mset_slots_swap) auto
  have "ds ! j \<noteq> ds ! p" if "1 \<le> j" "j < n" "j \<noteq> i" "j \<noteq> p" for j
    using slots_inj [of n ?e j p] hole p i that by (auto simp: hole_def)
  then have pos: "getpos ops h' (ds[i := ds ! p] ! j) = Some j" if "1 \<le> j" "j < n" "j \<noteq> p" for j
    using hole that i h'(3) by (cases "j = i") (auto simp: hole_def)
  have "set (slots n ?e') = set (slots n ?e)" "distinct (slots n ?e')"
    using ms mset_eq_setD mset_eq_imp_distinct_iff hole unfolding hole_def by blast+
  then have "hole ops key n p m (ds[i := ds ! p]) h'"
    using hole p i pos h'(2) by (simp add: hole_def)
  moreover have "hole_pris key p m (ds[i := ds ! p]) h' =
      (hole_pris key i m ds h)(i := hole_pris key i m ds h p, p := hole_pris key i m ds h i)"
    using p i h'(2) by (auto simp: fun_eq_iff pri_at_def nth_list_update)
  ultimately show ?thesis using h' ms by blast
qed

lemma fill_hole:
  assumes hole: "hole ops key n i m ds h"
  shows "\<exists>h'. setpos ops h m i = Some h' \<and> key h' = key h
    \<and> (\<forall>j. 1 \<le> j \<and> j < n \<longrightarrow> getpos ops h' (ds[i := m] ! j) = Some j)"
proof -
  have i: "1 \<le> i" "i < n" "n \<le> length ds" using hole by (auto simp: hole_def)
  have "key h m \<noteq> None" using hole_member [OF hole i(1,2)] i by simp
  then obtain h' where h': "setpos ops h m i = Some h'" "key h' = key h"
    "getpos ops h' = (getpos ops h)(m := Some i)" using setpos_law by blast
  have "ds ! j \<noteq> m" if "1 \<le> j" "j < n" "j \<noteq> i" for j
    using slots_inj [of n "ds[i := m]" j i] hole i that by (auto simp: hole_def)
  with hole i h' show ?thesis by (auto simp: hole_def nth_list_update)
qed

lemma bubble_loop_spec:
  assumes "hole ops key n i m ds h" "heap_except_up (\<lambda>a b. \<not> cmppri ops a b) n i (hole_pris key i m ds h)"
  shows "\<exists>ds' h' i'. bubble_loop ops (pri_at key h m) ds h i = Some (ds', h', i')
    \<and> hole ops key n i' m ds' h' \<and> key h' = key h \<and> length ds' = length ds
    \<and> mset (slots n (ds'[i' := m])) = mset (slots n (ds[i := m]))
    \<and> heap_on (\<lambda>a b. \<not> cmppri ops a b) n (hole_pris key i' m ds' h')"
  using assms
proof (induction i arbitrary: ds h rule: less_induct)
  case (less i)
  let ?p = "parent i" and ?K = "hole_pris key i m ds h"
  have i: "1 \<le> i" "i < n" "n \<le> length ds" using less.prems(1) by (auto simp: hole_def)
  show ?case
  proof (cases "i > 1 \<and> cmppri ops (?K ?p) (?K i)")
    case False
    have step: "bubble_loop ops (pri_at key h m) ds h i = Some (ds, h, i)"
    proof (cases "i > 1")
      case True
      then have p: "1 \<le> ?p" "?p < i" by (auto simp: parent_def)
      with hole_member [OF less.prems(1) p(1)] i have "key h (ds ! ?p) \<noteq> None" by simp
      with key_cases(1) [of h "ds ! ?p"] False True p i show ?thesis
        by (simp add: bubble_loop.simps [of _ _ ds h i] arr_get_def)
    qed (simp add: bubble_loop.simps [of _ _ ds h i])
    from False have "i \<le> 1 \<or> \<not> cmppri ops (?K (i div 2)) (?K i)" by (auto simp: parent_def)
    with heap_up_done [OF less.prems(2)] less.prems(1) step show ?thesis by auto
  next
    case True
    then have p: "1 \<le> ?p" "?p < i" "?p < n" "?p \<noteq> i" using i by (auto simp: parent_def)
    have "key h (ds ! ?p) \<noteq> None" using hole_member [OF less.prems(1) p(1,3)] p by simp
    note pri = key_cases(1) [OF this]
    obtain h' where h': "setpos ops h (ds ! ?p) i = Some h'"
      "hole ops key n ?p m (ds[i := ds ! ?p]) h'" "key h' = key h"
      "mset (slots n (ds[i := ds ! ?p, ?p := m])) = mset (slots n (ds[i := m]))"
      "hole_pris key ?p m (ds[i := ds ! ?p]) h' = ?K(i := ?K ?p, ?p := ?K i)"
      using move_into_hole [OF less.prems(1) p(1,3,4)] by blast
    have up: "heap_except_up (\<lambda>a b. \<not> cmppri ops a b) n ?p (hole_pris key ?p m (ds[i := ds ! ?p]) h')"
      unfolding h'(5) using heap_up_step [OF less.prems(2)] True i unfolding parent_def by blast
    have "bubble_loop ops (pri_at key h m) ds h i =
        bubble_loop ops (pri_at key h' m) (ds[i := ds ! ?p]) h' ?p"
      using True p i pri h'(1,3)
      by (simp add: bubble_loop.simps [of _ _ ds h i] arr_get_def arr_set_def pri_at_def)
    with less.IH [OF p(2) h'(2) up] h'(3,4) show ?thesis by auto
  qed
qed

lemma maxchild_spec:
  assumes hole: "hole ops key n i m ds h"
  shows "\<exists>c. maxchild ops ds n h i = Some c
    \<and> (if c = 0 then \<forall>j. j div 2 = i \<longrightarrow> n \<le> j
       else c div 2 = i \<and> c < n
         \<and> (\<forall>j. j div 2 = i \<and> j < n \<longrightarrow> \<not> cmppri ops (hole_pris key i m ds h c) (hole_pris key i m ds h j)))"
proof -
  have i: "1 \<le> i" "i < n" "n \<le> length ds" using hole by (auto simp: hole_def)
  have live: "getpri ops h (ds ! j) = Some (pri_at key h (ds ! j))" if "i < j" "j < n" for j
    using hole_member [OF hole, of j] that i by (intro key_cases) simp
  have children: "j div 2 = i \<longleftrightarrow> j = 2 * i \<or> j = Suc (2 * i)" for j by auto
  consider "n \<le> 2 * i" | "n = Suc (2 * i)" | "Suc (2 * i) < n" by linarith
  then show ?thesis
  proof cases
    case 3
    with i live [of "2 * i"] live [of "Suc (2 * i)"]
      le_total [of "pri_at key h (ds ! (2 * i))" "pri_at key h (ds ! Suc (2 * i))"] le_refl
    show ?thesis
      by (auto simp: maxchild_def left_def Let_def arr_get_def children)
  qed (use i le_refl in \<open>auto simp: maxchild_def left_def Let_def children\<close>)
qed

lemma percolate_loop_spec:
  assumes "hole ops key n i m ds h" "heap_except_down (\<lambda>a b. \<not> cmppri ops a b) n i (hole_pris key i m ds h)"
  shows "\<exists>ds' h' i'. percolate_loop ops (pri_at key h m) n ds h i = Some (ds', h', i')
    \<and> hole ops key n i' m ds' h' \<and> key h' = key h \<and> length ds' = length ds
    \<and> mset (slots n (ds'[i' := m])) = mset (slots n (ds[i := m]))
    \<and> heap_on (\<lambda>a b. \<not> cmppri ops a b) n (hole_pris key i' m ds' h')"
  using assms
proof (induction "n - i" arbitrary: ds h i rule: less_induct)
  case less
  let ?K = "hole_pris key i m ds h"
  have i: "1 \<le> i" "i < n" "n \<le> length ds" using less.prems(1) by (auto simp: hole_def)
  obtain c where c: "maxchild ops ds n h i = Some c"
    "if c = 0 then \<forall>j. j div 2 = i \<longrightarrow> n \<le> j
     else c div 2 = i \<and> c < n \<and> (\<forall>j. j div 2 = i \<and> j < n \<longrightarrow> \<not> cmppri ops (?K c) (?K j))"
    using maxchild_spec [OF less.prems(1)] by blast
  show ?case
  proof (cases "c \<noteq> 0 \<and> cmppri ops (?K i) (?K c)")
    case False
    have step: "percolate_loop ops (pri_at key h m) n ds h i = Some (ds, h, i)"
    proof (cases "c = 0")
      case nz: False
      with c i have c': "i < c" "c < n" by auto
      with hole_member [OF less.prems(1), of c] i have "key h (ds ! c) \<noteq> None" by simp
      with key_cases(1) [of h "ds ! c"] False nz c' c(1) i show ?thesis
        by (simp add: percolate_loop.simps [of _ _ _ ds h i] arr_get_def)
    qed (simp add: percolate_loop.simps [of _ _ _ ds h i] c(1))
    have "\<not> cmppri ops (?K i) (?K j)" if "j div 2 = i" "2 \<le> j" "j < n" for j
      using False c(2) that le_trans [of "?K i" "?K c" "?K j"] by (cases "c = 0") auto
    with heap_down_done [OF less.prems(2)] less.prems(1) step show ?thesis by auto
  next
    case True
    with c i have c': "1 \<le> c" "i < c" "c < n" "c \<noteq> i" "c div 2 = i" by auto
    have "key h (ds ! c) \<noteq> None" using hole_member [OF less.prems(1) c'(1,3)] c' by simp
    note pri = key_cases(1) [OF this]
    obtain h' where h': "setpos ops h (ds ! c) i = Some h'"
      "hole ops key n c m (ds[i := ds ! c]) h'" "key h' = key h"
      "mset (slots n (ds[i := ds ! c, c := m])) = mset (slots n (ds[i := m]))"
      "hole_pris key c m (ds[i := ds ! c]) h' = ?K(i := ?K c, c := ?K i)"
      using move_into_hole [OF less.prems(1) c'(1,3,4)] by blast
    have down: "heap_except_down (\<lambda>a b. \<not> cmppri ops a b) n c (hole_pris key c m (ds[i := ds ! c]) h')"
      unfolding h'(5) using True c' c(2) i by (intro heap_down_step [OF less.prems(2)]) auto
    have "percolate_loop ops (pri_at key h m) n ds h i =
        percolate_loop ops (pri_at key h' m) n (ds[i := ds ! c]) h' c"
      using True c' c(1) i pri h'(1,3)
      by (simp add: percolate_loop.simps [of _ _ _ ds h i] arr_get_def arr_set_def pri_at_def)
    with less.hyps [OF _ h'(2) down] c' h'(3,4) show ?thesis by auto
  qed
qed

text \<open>Both sifts end by filling the hole.\<close>

lemma sift_end:
  assumes hole: "hole ops key (qsize q) i m ds h" and "length ds = pq_avail q" "1 \<le> pq_step q"
    and "heap_on (\<lambda>a b. \<not> cmppri ops a b) (qsize q) (hole_pris key i m ds h)"
  shows "\<exists>h'. setpos ops h m i = Some h' \<and> key h' = key h \<and> arr_set ds i m = Some (ds[i := m])
    \<and> pq_wf ops key (q\<lparr>pq_d := ds[i := m]\<rparr>) h'"
proof -
  obtain h' where h': "setpos ops h m i = Some h'" "key h' = key h"
    "\<And>j. 1 \<le> j \<Longrightarrow> j < qsize q \<Longrightarrow> getpos ops h' (ds[i := m] ! j) = Some j"
    using fill_hole [OF hole] by blast
  have "i < length ds" using hole by (auto simp: hole_def)
  then have "(\<lambda>j. pri_at key h' (ds[i := m] ! j)) = hole_pris key i m ds h"
    using h'(2) by (auto simp: fun_eq_iff pri_at_def nth_list_update)
  with h' assms show ?thesis by (auto simp: pq_wf_def hole_def nodes_def arr_set_def)
qed

lemma sift_start:
  assumes "hole ops key n i (ds ! i) ds h"
  shows "arr_get ds i = Some (ds ! i)" "getpri ops h (ds ! i) = Some (pri_at key h (ds ! i))"
proof -
  have "i < length ds" "1 \<le> i" "i < n" using assms by (auto simp: hole_def)
  with hole_member [OF assms, of i] show "arr_get ds i = Some (ds ! i)"
    "getpri ops h (ds ! i) = Some (pri_at key h (ds ! i))"
    by (auto simp: arr_get_def intro: key_cases)
qed

lemma bubble_up_spec:
  assumes "hole ops key (qsize q) i (pq_d q ! i) (pq_d q) h" "pq_avail q = length (pq_d q)" "1 \<le> pq_step q"
    and "heap_except_up (\<lambda>a b. \<not> cmppri ops a b) (qsize q) i (\<lambda>j. pri_at key h (pq_d q ! j))"
  shows "\<exists>q' h'. bubble_up ops q h i = Some (q', h') \<and> pq_wf ops key q' h' \<and> key h' = key h
    \<and> qsize q' = qsize q \<and> mset (nodes q') = mset (nodes q)"
proof -
  let ?m = "pq_d q ! i"
  have "hole_pris key i ?m (pq_d q) h = (\<lambda>j. pri_at key h (pq_d q ! j))" by auto
  with bubble_loop_spec [OF assms(1)] assms(4) obtain ds' h' i'
    where l: "bubble_loop ops (pri_at key h ?m) (pq_d q) h i = Some (ds', h', i')"
    "hole ops key (qsize q) i' ?m ds' h'" "key h' = key h" "length ds' = length (pq_d q)"
    "mset (slots (qsize q) (ds'[i' := ?m])) = mset (slots (qsize q) (pq_d q))"
    "heap_on (\<lambda>a b. \<not> cmppri ops a b) (qsize q) (hole_pris key i' ?m ds' h')" by auto
  with sift_end [OF l(2)] assms(2,3) sift_start [OF assms(1)] show ?thesis
    by (auto simp: bubble_up_def nodes_def)
qed

lemma percolate_down_spec:
  assumes "hole ops key (qsize q) i (pq_d q ! i) (pq_d q) h" "pq_avail q = length (pq_d q)" "1 \<le> pq_step q"
    and "heap_except_down (\<lambda>a b. \<not> cmppri ops a b) (qsize q) i (\<lambda>j. pri_at key h (pq_d q ! j))"
  shows "\<exists>q' h'. percolate_down ops q h i = Some (q', h') \<and> pq_wf ops key q' h' \<and> key h' = key h
    \<and> qsize q' = qsize q \<and> mset (nodes q') = mset (nodes q)"
proof -
  let ?m = "pq_d q ! i"
  have "hole_pris key i ?m (pq_d q) h = (\<lambda>j. pri_at key h (pq_d q ! j))" by auto
  with percolate_loop_spec [OF assms(1)] assms(4) obtain ds' h' i'
    where l: "percolate_loop ops (pri_at key h ?m) (qsize q) (pq_d q) h i = Some (ds', h', i')"
    "hole ops key (qsize q) i' ?m ds' h'" "key h' = key h" "length ds' = length (pq_d q)"
    "mset (slots (qsize q) (ds'[i' := ?m])) = mset (slots (qsize q) (pq_d q))"
    "heap_on (\<lambda>a b. \<not> cmppri ops a b) (qsize q) (hole_pris key i' ?m ds' h')" by auto
  with sift_end [OF l(2)] assms(2,3) sift_start [OF assms(1)] show ?thesis
    by (auto simp: percolate_down_def nodes_def)
qed

lemma wf_hole:
  assumes "pq_wf ops key q h" "1 \<le> i" "i < qsize q"
  shows "hole ops key (qsize q) i (pq_d q ! i) (pq_d q) h"
  using assms by (auto simp: pq_wf_def hole_def nodes_def)

text \<open>An element of the queue is found in its slot by its position.\<close>

lemma wf_getpos:
  assumes "pq_wf ops key q h" "x \<in> set (nodes q)"
  obtains i where "getpos ops h x = Some i" "1 \<le> i" "i < qsize q" "pq_d q ! i = x" "i < length (pq_d q)"
proof -
  from assms obtain i where "1 \<le> i" "i < qsize q" "pq_d q ! i = x"
    using in_slots_iff [of "qsize q" "pq_d q" x] by (auto simp: nodes_def pq_wf_def)
  with assms(1) that show thesis by (auto simp: pq_wf_def)
qed

lemma wf_live:
  assumes "pq_wf ops key q h" "1 \<le> i" "i < qsize q"
  shows "key h (pq_d q ! i) \<noteq> None" "pq_d q ! i \<in> set (nodes q)"
proof -
  show "pq_d q ! i \<in> set (nodes q)"
    using assms unfolding nodes_def by (subst in_slots_iff) (auto simp: pq_wf_def)
  with assms(1) show "key h (pq_d q ! i) \<noteq> None" by (simp add: pq_wf_def)
qed

lemma wf_top:
  assumes "pq_wf ops key q h" "qsize q > 1"
  shows "pq_d q ! 1 \<in> set (nodes q)"
    and "y \<in> set (nodes q) \<Longrightarrow> \<not> cmppri ops (pri_at key h (pq_d q ! 1)) (pri_at key h y)"
proof -
  show "pq_d q ! 1 \<in> set (nodes q)" using wf_live [OF assms(1), of 1] assms(2) by simp
  assume "y \<in> set (nodes q)"
  then obtain j where "1 \<le> j" "j < qsize q" "pq_d q ! j = y" using wf_getpos [OF assms(1)] by metis
  with heap_top [of "qsize q" "\<lambda>j. pri_at key h (pq_d q ! j)" j] assms
  show "\<not> cmppri ops (pri_at key h (pq_d q ! 1)) (pri_at key h y)" by (auto simp: pq_wf_def)
qed

lemma init_spec:
  assumes "0 < n"
  shows "\<exists>q. prqueue_init True True n = Some q \<and> pq_wf ops key q h \<and> nodes q = []"
  by (auto simp: prqueue_init_def pq_wf_def nodes_def slots_def heap_on_def)

lemma insert_spec:
  assumes wf: "pq_wf ops key q h" and x: "key h x \<noteq> None" "x \<notin> set (nodes q)"
  shows "if pq_avail q \<le> qsize q \<and> mem = None then prqueue_insert ops mem (Some q) h x = Some (1, Some q, h)
    else \<exists>q' h'. prqueue_insert ops mem (Some q) h x = Some (0, Some q', h') \<and> pq_wf ops key q' h'
      \<and> key h' = key h \<and> mset (nodes q') = add_mset x (mset (nodes q))"
proof (cases "pq_avail q \<le> qsize q \<and> mem = None")
  case True
  then show ?thesis by (simp add: prqueue_insert_def)
next
  case False
  let ?n = "qsize q"
  define ds where "ds = (if pq_avail q \<le> ?n
    then take (?n + pq_step q) (pq_d q) @ map (the mem) [length (pq_d q)..<?n + pq_step q] else pq_d q)"
  define av where "av = (if pq_avail q \<le> ?n then ?n + pq_step q else pq_avail q)"
  define q1 where "q1 = q\<lparr>pq_avail := av, qsize := ?n + 1, pq_d := ds[?n := x]\<rparr>"
  have n: "1 \<le> ?n" "?n \<le> length (pq_d q)" "pq_avail q = length (pq_d q)" "1 \<le> pq_step q"
    using wf by (auto simp: pq_wf_def)
  have ds: "length ds = av" "?n < av" using n by (auto simp: ds_def av_def)
  have same: "ds ! j = pq_d q ! j" if "j < ?n" for j using that n by (auto simp: ds_def nth_append)
  have "slots ?n ds = slots ?n (pq_d q)"
    using n same ds by (auto simp: slots_def intro!: arg_cong [of _ _ tl] nth_equalityI)
  then have slots1: "slots (Suc ?n) (ds[?n := x]) = nodes q @ [x]"
    using ds n by (simp add: slots_Suc slots_update_ge nodes_def)
  then have nodes1: "nodes q1 = nodes q @ [x]" by (simp add: nodes_def q1_def)
  have ins: "prqueue_insert ops mem (Some q) h x =
      bubble_up ops q1 h ?n \<bind> (\<lambda>(q'', h'). Some (0, Some q'', h'))"
    using False ds by (cases mem) (auto simp: prqueue_insert_def q1_def ds_def av_def Let_def)
  have hole: "hole ops key (qsize q1) ?n (pq_d q1 ! ?n) (pq_d q1) h"
    using wf n ds same x slots1 by (auto simp: hole_def q1_def pq_wf_def nth_list_update)
  have "heap_except_up (\<lambda>a b. \<not> cmppri ops a b) (Suc ?n) ?n ((\<lambda>j. pri_at key h (pq_d q ! j))(?n := pri_at key h x))"
    using wf by (intro heap_up_append) (simp add: pq_wf_def)
  then have "heap_except_up (\<lambda>a b. \<not> cmppri ops a b) (qsize q1) ?n (\<lambda>j. pri_at key h (pq_d q1 ! j))"
    using ds same by (subst heap_cong(2)) (auto simp: q1_def nth_list_update)
  with bubble_up_spec [OF hole] False ins nodes1 n ds show ?thesis
    by (auto simp: q1_def)
qed

text \<open>Shrinking: the last element goes to the slot \<open>i\<close> of the removed one.\<close>

abbreviation (input) shrink :: "prqueue \<Rightarrow> nat \<Rightarrow> prqueue" where
  "shrink q i \<equiv> q\<lparr>qsize := qsize q - 1, pq_d := (pq_d q)[i := pq_d q ! (qsize q - 1)]\<rparr>"

lemma shrink_mset:
  assumes "pq_wf ops key q h" "1 \<le> i" "i < qsize q"
  shows "mset (nodes q) = add_mset (pq_d q ! i) (mset (nodes (shrink q i)))"
  using mset_slots_remove [OF assms(2,3), of "pq_d q"] assms(1) by (simp add: nodes_def pq_wf_def)

lemma shrink_nodes:
  assumes "pq_wf ops key q h" "1 \<le> i" "i < qsize q"
  shows "distinct (nodes (shrink q i))" "pq_d q ! i \<notin> set (nodes (shrink q i))"
    "set (nodes (shrink q i)) \<subseteq> set (nodes q)"
proof -
  have "distinct (pq_d q ! i # nodes (shrink q i))"
    using shrink_mset [OF assms] assms(1) mset_eq_imp_distinct_iff [of "nodes q" "pq_d q ! i # nodes (shrink q i)"]
    by (simp add: pq_wf_def)
  then show "distinct (nodes (shrink q i))" "pq_d q ! i \<notin> set (nodes (shrink q i))" by simp_all
  show "set (nodes (shrink q i)) \<subseteq> set (nodes q)"
    using arg_cong [OF shrink_mset [OF assms], of set_mset] by auto
qed

lemma shrink_hole:
  assumes "pq_wf ops key q h" "1 \<le> i" "i < qsize q - 1"
  shows "hole ops key (qsize q - 1) i (pq_d q ! (qsize q - 1)) (pq_d (shrink q i)) h"
proof -
  have i: "i < qsize q" using assms(3) by simp
  note nodes = shrink_nodes [OF assms(1,2) i]
  have "\<forall>x \<in> set (nodes (shrink q i)). key h x \<noteq> None"
    using nodes(3) assms(1) unfolding pq_wf_def by blast
  with nodes(1) assms i show ?thesis
    by (auto simp: hole_def pq_wf_def nodes_def nth_list_update)
qed

lemma shrink_last:
  assumes wf: "pq_wf ops key q h" and n: "qsize q = Suc i" "1 \<le> i"
  shows "\<exists>h'. percolate_down ops (shrink q i) h i = Some (shrink q i, h') \<and> key h' = key h
    \<and> pq_wf ops key (shrink q i) h'"
proof -
  let ?x = "pq_d q ! i"
  have i: "i < length (pq_d q)" using wf n by (simp add: pq_wf_def)
  have live: "key h ?x \<noteq> None" using wf_live [OF wf n(2)] n by simp
  obtain h' where h': "setpos ops h ?x i = Some h'" "key h' = key h"
    "getpos ops h' = (getpos ops h)(?x := Some i)" using setpos_law [OF live] by blast
  have shrink: "shrink q i = q\<lparr>qsize := i\<rparr>" using n by simp
  have "percolate_loop ops (pri_at key h ?x) i (pq_d q) h i = Some (pq_d q, h, i)"
    using n by (simp add: percolate_loop.simps [of _ _ _ "pq_d q" h i] maxchild_def left_def Let_def)
  then have pd: "percolate_down ops (shrink q i) h i = Some (shrink q i, h')"
    using i n h' key_cases(1) [OF live] by (simp add: percolate_down_def)
  have "pq_d q ! j \<noteq> ?x" if "1 \<le> j" "j < i" for j
    using slots_inj [of "qsize q" "pq_d q" j i] wf that n by (auto simp: pq_wf_def nodes_def)
  then have "pq_wf ops key (shrink q i) h'"
    using wf n h' shrink_nodes [OF wf n(2)] heap_on_mono [of "qsize q" _ i]
    by (auto simp: pq_wf_def pri_at_def)
  with pd h' show ?thesis by blast
qed

lemma shrink_spec:
  assumes wf: "pq_wf ops key q h" and i: "1 \<le> i" "i < qsize q"
  shows "\<exists>q' h'. (if cmppri ops (pri_at key h (pq_d q ! i)) (pri_at key h (pq_d q ! (qsize q - 1)))
      then bubble_up ops (shrink q i) h i else percolate_down ops (shrink q i) h i) = Some (q', h')
    \<and> pq_wf ops key q' h' \<and> key h' = key h
    \<and> mset (nodes q) = add_mset (pq_d q ! i) (mset (nodes q'))"
proof (cases "qsize q = Suc i")
  case True
  with shrink_last [OF wf True i(1)] shrink_mset [OF wf i] le_refl show ?thesis by auto
next
  case False
  let ?K = "\<lambda>j. pri_at key h (pq_d q ! j)" and ?y = "pq_d q ! (qsize q - 1)" and ?n = "qsize q - 1"
  have i': "i < ?n" using False i by simp
  have len: "qsize q \<le> length (pq_d q)" using wf by (simp add: pq_wf_def)
  have heap: "heap_on (\<lambda>a b. \<not> cmppri ops a b) ?n ?K"
    using wf heap_on_mono by (fastforce simp: pq_wf_def)
  have K: "(\<lambda>j. pri_at key h (pq_d (shrink q i) ! j)) = ?K(i := pri_at key h ?y)"
    using i' len by (auto simp: fun_eq_iff nth_list_update)
  have y: "pq_d (shrink q i) ! i = ?y" using i' len by simp
  have hole: "hole ops key (qsize (shrink q i)) i (pq_d (shrink q i) ! i) (pq_d (shrink q i)) h"
    using shrink_hole [OF wf i(1) i'] unfolding y by simp
  have av: "pq_avail (shrink q i) = length (pq_d (shrink q i))" "1 \<le> pq_step (shrink q i)"
    using wf by (auto simp: pq_wf_def)
  show ?thesis
  proof (cases "cmppri ops (?K i) (pri_at key h ?y)")
    case True
    with le_total have "\<not> cmppri ops (pri_at key h ?y) (?K i)" by blast
    from heap_up_update [OF heap i(1) i' this]
    have "heap_except_up (\<lambda>a b. \<not> cmppri ops a b) (qsize (shrink q i)) i (\<lambda>j. pri_at key h (pq_d (shrink q i) ! j))"
      unfolding K by simp
    from bubble_up_spec [OF hole av this] True shrink_mset [OF wf i] show ?thesis by auto
  next
    case False
    from heap_down_update [OF heap i(1) i' this]
    have "heap_except_down (\<lambda>a b. \<not> cmppri ops a b) (qsize (shrink q i)) i (\<lambda>j. pri_at key h (pq_d (shrink q i) ! j))"
      unfolding K by simp
    from percolate_down_spec [OF hole av this] False shrink_mset [OF wf i] show ?thesis by auto
  qed
qed

lemma remove_spec:
  assumes wf: "pq_wf ops key q h" and x: "x \<in> set (nodes q)"
  shows "\<exists>q' h'. prqueue_remove ops q h x = Some (0, q', h') \<and> pq_wf ops key q' h' \<and> key h' = key h
    \<and> mset (nodes q) = add_mset x (mset (nodes q'))"
proof -
  obtain i where i: "getpos ops h x = Some i" "1 \<le> i" "i < qsize q" "pq_d q ! i = x" "i < length (pq_d q)"
    using wf_getpos [OF wf x] by metis
  have n: "qsize q - 1 < length (pq_d q)" using wf i by (auto simp: pq_wf_def)
  have "key h x \<noteq> None" "key h (pq_d q ! (qsize q - 1)) \<noteq> None"
    using wf_live [OF wf, of i] wf_live [OF wf, of "qsize q - 1"] i by auto
  note pri = this [THEN key_cases(1)]
  show ?thesis
    using shrink_spec [OF wf i(2,3)] i n pri by (auto simp: prqueue_remove_def Let_def)
qed

lemma pop_empty: "nodes q = [] \<Longrightarrow> pq_wf ops key q h \<Longrightarrow> prqueue_pop ops (Some q) h = Some (None, Some q, h)"
  by (auto simp: prqueue_pop_def nodes_def pq_wf_def dest!: arg_cong [of _ _ length])

lemma nodes_size: "pq_wf ops key q h \<Longrightarrow> length (nodes q) = qsize q - 1"
  by (simp add: nodes_def pq_wf_def)

lemma pop_spec:
  assumes wf: "pq_wf ops key q h" and ne: "nodes q \<noteq> []"
  shows "\<exists>x q' h'. prqueue_pop ops (Some q) h = Some (Some x, Some q', h') \<and> prqueue_peek (Some q) = Some (Some x)
    \<and> pq_wf ops key q' h' \<and> key h' = key h \<and> mset (nodes q) = add_mset x (mset (nodes q'))
    \<and> (\<forall>y \<in> set (nodes q). \<not> cmppri ops (pri_at key h x) (pri_at key h y))"
proof -
  have "0 < length (nodes q)" using ne by simp
  then have n: "1 < qsize q" "1 < length (pq_d q)" using nodes_size [OF wf] wf unfolding pq_wf_def by linarith+
  have "\<not> cmppri ops (pri_at key h (pq_d q ! 1)) (pri_at key h (pq_d q ! (qsize q - 1)))"
    using wf_top(2) [OF wf n(1)] wf_live(2) [OF wf, of "qsize q - 1"] n by simp
  with shrink_spec [OF wf _ n(1)] obtain q' h' where
    "percolate_down ops (shrink q 1) h 1 = Some (q', h')" "pq_wf ops key q' h'" "key h' = key h"
    "mset (nodes q) = add_mset (pq_d q ! 1) (mset (nodes q'))" by auto
  moreover have "qsize q - Suc 0 < length (pq_d q)" using wf n by (auto simp: pq_wf_def)
  ultimately show ?thesis
    using n wf_top(2) [OF wf n(1)] by (auto simp: prqueue_pop_def prqueue_peek_def Let_def)
qed

lemma peek_empty: "nodes q = [] \<Longrightarrow> pq_wf ops key q h \<Longrightarrow> prqueue_peek (Some q) = Some None"
  by (auto simp: prqueue_peek_def nodes_def pq_wf_def dest!: arg_cong [of _ _ length])

lemma change_priority_spec:
  assumes wf: "pq_wf ops key q h" and x: "x \<in> set (nodes q)" and kx: "key h x = Some (pr, v)"
  shows "\<exists>q' h'. prqueue_change_priority ops q h np x = Some (q', h') \<and> pq_wf ops key q' h'
    \<and> key h' = (key h)(x \<mapsto> (np, v)) \<and> mset (nodes q') = mset (nodes q)"
proof -
  let ?K = "\<lambda>j. pri_at key h (pq_d q ! j)"
  obtain i where i: "getpos ops h x = Some i" "1 \<le> i" "i < qsize q" "pq_d q ! i = x" "i < length (pq_d q)"
    using wf_getpos [OF wf x] by metis
  obtain h1 where h1: "setpri ops h x np = Some h1" "key h1 = (key h)(x \<mapsto> (np, v))"
    "getpos ops h1 = getpos ops h" using setpri_law [OF kx] by blast
  have other: "pq_d q ! j \<noteq> x" if "1 \<le> j" "j < qsize q" "j \<noteq> i" for j
    using slots_inj [of "qsize q" "pq_d q" j i] wf i that by (auto simp: pq_wf_def nodes_def)
  have K: "pri_at key h1 (pq_d q ! j) = (?K(i := np)) j" if "1 \<le> j" "j < qsize q" for j
    using other [OF that] i h1(2) by (auto simp: pri_at_def)
  have hole: "hole ops key (qsize q) i (pq_d q ! i) (pq_d q) h1"
    using wf_hole [OF wf i(2,3)] h1 by (auto simp: hole_def)
  have av: "pq_avail q = length (pq_d q)" "1 \<le> pq_step q" using wf by (auto simp: pq_wf_def)
  have heap: "heap_on (\<lambda>a b. \<not> cmppri ops a b) (qsize q) ?K" using wf by (simp add: pq_wf_def)
  have pr: "?K i = pr" "getpri ops h x = Some pr" using kx i getpri_key by (auto simp: pri_at_def)
  show ?thesis
  proof (cases "cmppri ops pr np")
    case True
    with le_total have "\<not> cmppri ops np (?K i)" unfolding pr by blast
    from heap_up_update [OF heap i(2,3) this]
    have "heap_except_up (\<lambda>a b. \<not> cmppri ops a b) (qsize q) i (\<lambda>j. pri_at key h1 (pq_d q ! j))"
      by (subst heap_cong(2) [OF K])
    from bubble_up_spec [OF hole av this] True h1 i pr show ?thesis
      by (auto simp: prqueue_change_priority_def)
  next
    case False
    then have "\<not> cmppri ops (?K i) np" unfolding pr .
    from heap_down_update [OF heap i(2,3) this]
    have "heap_except_down (\<lambda>a b. \<not> cmppri ops a b) (qsize q) i (\<lambda>j. pri_at key h1 (pq_d q ! j))"
      by (subst heap_cong(3) [OF K])
    from percolate_down_spec [OF hole av this] False h1 i pr show ?thesis
      by (auto simp: prqueue_change_priority_def)
  qed
qed

text \<open>The self-check: the recursion from a position covers the subtree below it.\<close>

definition valid_below :: "nat \<Rightarrow> (nat \<Rightarrow> 'p) \<Rightarrow> nat \<Rightarrow> bool" where
  "valid_below n k p \<longleftrightarrow> (\<forall>j s. 2 \<le> j \<and> j < n \<and> (j div 2) div 2 ^ s = p \<longrightarrow> \<not> cmppri ops (k (j div 2)) (k j))"

lemma below_le:
  assumes "(j :: nat) div 2 div 2 ^ s = p"
  shows "2 * p \<le> j"
proof -
  have "p \<le> j div 2" using assms div_le_dividend [of "j div 2" "2 ^ s"] by simp
  then show ?thesis by linarith
qed

lemma valid_below_out:
  assumes "n \<le> 2 * p"
  shows "valid_below n k p"
  unfolding valid_below_def
proof (intro allI impI)
  fix j s assume "2 \<le> j \<and> j < n \<and> (j div 2) div 2 ^ s = p"
  with below_le [of j s p] assms show "\<not> cmppri ops (k (j div 2)) (k j)" by linarith
qed

lemma valid_below_split:
  assumes "1 \<le> p"
  shows "valid_below n k p \<longleftrightarrow>
    (left p < n \<longrightarrow> \<not> cmppri ops (k p) (k (left p)) \<and> valid_below n k (left p)) \<and>
    (right p < n \<longrightarrow> \<not> cmppri ops (k p) (k (right p)) \<and> valid_below n k (right p))"
    (is "_ \<longleftrightarrow> ?R")
proof
  assume v: "valid_below n k p"
  have "\<not> cmppri ops (k p) (k c) \<and> valid_below n k c" if c: "c div 2 = p" "c < n" for c
  proof
    from c assms have "2 \<le> c \<and> c < n \<and> (c div 2) div 2 ^ 0 = p" by auto
    with v c show "\<not> cmppri ops (k p) (k c)" unfolding valid_below_def by blast
    have "(j div 2) div 2 ^ Suc s = p" if "(j div 2) div 2 ^ s = c" for j s
      using that c(1) by (metis div_mult2_eq power_Suc2)
    with v show "valid_below n k c" unfolding valid_below_def by blast
  qed
  then show ?R by (simp add: left_def right_def)
next
  assume R: ?R
  show "valid_below n k p"
    unfolding valid_below_def
  proof (intro allI impI)
    fix j s assume j: "2 \<le> j \<and> j < n \<and> (j div 2) div 2 ^ s = p"
    show "\<not> cmppri ops (k (j div 2)) (k j)"
    proof (cases s)
      case 0
      with j have "j = left p \<or> j = right p" by (auto simp: left_def right_def)
      with R j 0 show ?thesis by auto
    next
      case (Suc s')
      define c where "c = (j div 2) div 2 ^ s'"
      have "c div 2 = p" using j Suc by (simp add: c_def flip: div_mult2_eq)
      then have "c = left p \<or> c = right p" by (auto simp: left_def right_def)
      moreover have "c < n" using j below_le [of j s' c] assms \<open>c div 2 = p\<close> by (auto simp: c_def)
      ultimately have "valid_below n k c" using R by auto
      with j show ?thesis unfolding valid_below_def c_def by blast
    qed
  qed
qed

lemma subtree_is_valid_spec:
  assumes live: "\<And>j. 1 \<le> j \<Longrightarrow> j < n \<Longrightarrow> key h (ds ! j) \<noteq> None" and n: "n \<le> length ds"
  shows "1 \<le> p \<Longrightarrow> p < n \<Longrightarrow> subtree_is_valid ops n ds h p = Some (valid_below n (\<lambda>j. pri_at key h (ds ! j)) p)"
proof (induction "n - p" arbitrary: p rule: less_induct)
  case less
  have at: "arr_get ds j = Some (ds ! j)" "getpri ops h (ds ! j) = Some (pri_at key h (ds ! j))"
    if "1 \<le> j" "j < n" for j using that live [OF that] n by (auto intro: key_cases)
  have IH: "subtree_is_valid ops n ds h c = Some (valid_below n (\<lambda>j. pri_at key h (ds ! j)) c)"
    if "p < c" "c < n" for c using less that by auto
  have c: "p < left p" "p < right p" "left p < right p" using less.prems by (auto simp: left_def right_def)
  show ?case
    using less.prems c at [of p] at [of "left p"] at [of "right p"] IH [of "left p"] IH [of "right p"]
      valid_below_split [OF less.prems(1), of n "\<lambda>j. pri_at key h (ds ! j)"]
    by (subst subtree_is_valid.simps) auto
qed

lemma heap_iff_valid_below: "heap_on (\<lambda>a b. \<not> cmppri ops a b) n k \<longleftrightarrow> valid_below n k 1"
proof
  assume "valid_below n k 1"
  moreover have "\<exists>s. (j div 2) div 2 ^ s = 1" if "2 \<le> j" for j :: nat
    using that
  proof (induction j rule: less_induct)
    case (less j)
    show ?case
    proof (cases "j div 2 = 1")
      case True then show ?thesis by (intro exI [of _ 0]) simp
    next
      case False
      with less.prems have "2 \<le> j div 2" "j div 2 < j" by auto
      with less.IH obtain s where "(j div 2 div 2) div 2 ^ s = 1" by blast
      then have "(j div 2) div 2 ^ Suc s = 1" by (metis div_mult2_eq power_Suc)
      then show ?thesis by blast
    qed
  qed
  ultimately show "heap_on (\<lambda>a b. \<not> cmppri ops a b) n k"
    unfolding valid_below_def heap_on_def by blast
qed (auto simp: heap_on_def valid_below_def)

lemma is_valid_spec:
  assumes "1 < qsize q" "qsize q \<le> length (pq_d q)" "\<forall>x \<in> set (nodes q). key h x \<noteq> None"
  shows "prqueue_is_valid ops q h =
    Some (heap_on (\<lambda>a b. \<not> cmppri ops a b) (qsize q) (\<lambda>j. pri_at key h (pq_d q ! j)))"
proof -
  have "key h (pq_d q ! j) \<noteq> None" if "1 \<le> j" "j < qsize q" for j
    using in_slots_iff [OF assms(2)] that assms(3) unfolding nodes_def by blast
  from subtree_is_valid_spec [OF this assms(2), of 1] assms(1) show ?thesis
    by (simp add: prqueue_is_valid_def heap_iff_valid_below)
qed

end

end
