(* ===== verification/Squeue.thy ===== *)
theory Squeue
  imports Prqueue
begin
text \<open>
  The event queue of \<open>lib/squeue.c\<close>, the client of the priority queue.  The memory of the
  queue's elements is a map from pointers to \<open>squeue_event\<close> records; \<open>sq_ops\<close> is the record of
  the five callbacks \<open>squeue_create\<close> passes, and its interpretation of \<open>pq_callbacks\<close> is
  where the contract of the priority queue is discharged.

  \<open>time_t\<close> values are integers; the priority, where the code packs seconds and
  microseconds into 64 bits, is a machine word.  The clock readings of a call are its arguments
  (one reading per call), as are the outcomes of its allocations.
\<close>

section \<open>State\<close>

record timeval =
  tv_sec :: int
  tv_usec :: int

record squeue_event =
  evt_pos :: nat
  evt_pri :: u64
  evt_when :: timeval
  evt_data :: "nat option"

type_synonym sq_mem = "nat \<Rightarrow> squeue_event option"

definition SQ_BITS :: nat where "SQ_BITS = 21"

definition evt_compute_pri :: "timeval \<Rightarrow> u64" where
  "evt_compute_pri tv =
    push_bit SQ_BITS (word_of_int (tv_sec tv)) OR (word_of_int (tv_usec tv) AND (push_bit SQ_BITS 1 - 1))"

section \<open>The callbacks\<close>

definition sq_cmp_pri :: "u64 \<Rightarrow> u64 \<Rightarrow> bool" where
  "sq_cmp_pri nxt cur \<longleftrightarrow> nxt > cur"

definition sq_get_pri :: "sq_mem \<Rightarrow> nat \<Rightarrow> u64 ub" where
  "sq_get_pri h a = map_option evt_pri (h a)"

definition sq_set_pri :: "sq_mem \<Rightarrow> nat \<Rightarrow> u64 \<Rightarrow> sq_mem ub" where
  "sq_set_pri h a p = map_option (\<lambda>e. h(a \<mapsto> e\<lparr>evt_pri := p\<rparr>)) (h a)"

definition sq_get_pos :: "sq_mem \<Rightarrow> nat \<Rightarrow> nat ub" where
  "sq_get_pos h a = map_option evt_pos (h a)"

definition sq_set_pos :: "sq_mem \<Rightarrow> nat \<Rightarrow> nat \<Rightarrow> sq_mem ub" where
  "sq_set_pos h a p = map_option (\<lambda>e. h(a \<mapsto> e\<lparr>evt_pos := p\<rparr>)) (h a)"

definition sq_ops :: "(sq_mem, u64) pq_ops" where
  "sq_ops = \<lparr>cmppri = sq_cmp_pri, getpri = sq_get_pri, setpri = sq_set_pri,
    getpos = sq_get_pos, setpos = sq_set_pos\<rparr>"

section \<open>Operations\<close>

definition squeue_event_runtime :: "sq_mem \<Rightarrow> nat option \<Rightarrow> timeval option ub" where
  "squeue_event_runtime h evt =
    (case evt of None \<Rightarrow> Some None | Some a \<Rightarrow> map_option (\<lambda>e. Some (evt_when e)) (h a))"

definition squeue_event_data :: "sq_mem \<Rightarrow> nat option \<Rightarrow> nat option ub" where
  "squeue_event_data h evt =
    (case evt of None \<Rightarrow> Some None | Some a \<Rightarrow> map_option evt_data (h a))"

definition squeue_create :: "bool \<Rightarrow> bool \<Rightarrow> nat \<Rightarrow> prqueue option" where
  "squeue_create m1 m2 horizon = prqueue_init m1 m2 (if horizon = 0 then 127 else horizon)"

text \<open>\<open>(1ULL << (64 - SQ_BITS)) - 1\<close>, applied to \<open>tv_sec\<close>.\<close>

definition mask_sec :: "int \<Rightarrow> int" where
  "mask_sec s = s mod 2 ^ (64 - SQ_BITS)"

text \<open>\<open>new\<close> is the block \<open>calloc\<close> returns, \<open>mem\<close> the outcome of the \<open>realloc\<close> in
  \<open>prqueue_insert\<close>.  The caller's \<open>tv\<close> is moved to the present when it lies in the past.\<close>

definition squeue_add_tv :: "int \<Rightarrow> nat option \<Rightarrow> (nat \<Rightarrow> nat) option \<Rightarrow> prqueue option \<Rightarrow> sq_mem
    \<Rightarrow> timeval \<Rightarrow> nat option \<Rightarrow> (nat option \<times> timeval \<times> prqueue option \<times> sq_mem) ub" where
  "squeue_add_tv now new mem qo h tv data =
    (if qo = None then Some (None, tv, qo, h)
     else case new of None \<Rightarrow> Some (None, tv, qo, h)
     | Some evt \<Rightarrow>
        (let tv' = (if tv_sec tv < now then tv\<lparr>tv_sec := now\<rparr> else tv);
             w = \<lparr>tv_sec = mask_sec (tv_sec tv'), tv_usec = tv_usec tv'\<rparr>;
             h' = h(evt \<mapsto> \<lparr>evt_pos = 0, evt_pri = evt_compute_pri w, evt_when = w, evt_data = data\<rparr>)
         in do {
           (ret, qo', h'') \<leftarrow> prqueue_insert sq_ops mem qo h' evt;
           Some (if ret = 0 then (Some evt, tv', qo', h'') else (None, tv', qo', h''(evt := None)))
         }))"

definition squeue_add :: "timeval \<Rightarrow> nat option \<Rightarrow> (nat \<Rightarrow> nat) option \<Rightarrow> prqueue option \<Rightarrow> sq_mem
    \<Rightarrow> int \<Rightarrow> nat option \<Rightarrow> (nat option \<times> timeval \<times> prqueue option \<times> sq_mem) ub" where
  "squeue_add today new mem qo h when data =
    squeue_add_tv (tv_sec today) new mem qo h (today\<lparr>tv_sec := when\<rparr>) data"

text \<open>A failing \<open>assert\<close> ends the process: no result.\<close>

definition squeue_add_usec :: "int \<Rightarrow> nat option \<Rightarrow> (nat \<Rightarrow> nat) option \<Rightarrow> prqueue option \<Rightarrow> sq_mem
    \<Rightarrow> int \<Rightarrow> int \<Rightarrow> nat option \<Rightarrow> (nat option \<times> timeval \<times> prqueue option \<times> sq_mem) ub" where
  "squeue_add_usec now new mem qo h when usec data =
    (if usec < 1000000 then squeue_add_tv now new mem qo h \<lparr>tv_sec = when, tv_usec = usec\<rparr> data else None)"

definition squeue_add_msec :: "int \<Rightarrow> nat option \<Rightarrow> (nat \<Rightarrow> nat) option \<Rightarrow> prqueue option \<Rightarrow> sq_mem
    \<Rightarrow> int \<Rightarrow> int \<Rightarrow> nat option \<Rightarrow> (nat option \<times> timeval \<times> prqueue option \<times> sq_mem) ub" where
  "squeue_add_msec now new mem qo h when msec data =
    squeue_add_usec now new mem qo h when (msec * 1000) data"

definition squeue_change_priority_tv ::
  "prqueue option \<Rightarrow> sq_mem \<Rightarrow> nat option \<Rightarrow> timeval option \<Rightarrow> (prqueue option \<times> sq_mem) ub" where
  "squeue_change_priority_tv qo h evt tvo =
    (case (qo, evt, tvo) of
       (Some q, Some a, Some tv) \<Rightarrow> do {
         e \<leftarrow> h a;
         let w = \<lparr>tv_sec = mask_sec (tv_sec tv), tv_usec = tv_usec tv\<rparr>;
         (q', h') \<leftarrow> prqueue_change_priority sq_ops q (h(a \<mapsto> e\<lparr>evt_when := w\<rparr>)) (evt_compute_pri w) a;
         Some (Some q', h')
       }
     | _ \<Rightarrow> Some (qo, h))"

definition squeue_peek :: "prqueue option \<Rightarrow> sq_mem \<Rightarrow> nat option ub" where
  "squeue_peek qo h = do {
     evt \<leftarrow> prqueue_peek qo;
     (case evt of None \<Rightarrow> Some None | Some a \<Rightarrow> map_option evt_data (h a))
   }"

definition squeue_pop :: "prqueue option \<Rightarrow> sq_mem \<Rightarrow> (nat option \<times> prqueue option \<times> sq_mem) ub" where
  "squeue_pop qo h = do {
     (evt, qo', h') \<leftarrow> prqueue_pop sq_ops qo h;
     (case evt of None \<Rightarrow> Some (None, qo', h')
      | Some a \<Rightarrow> do { e \<leftarrow> h' a; Some (evt_data e, qo', h'(a := None)) })
   }"

definition squeue_remove ::
  "prqueue option \<Rightarrow> sq_mem \<Rightarrow> nat option \<Rightarrow> (c_int \<times> prqueue option \<times> sq_mem) ub" where
  "squeue_remove qo h evt =
    (case (qo, evt) of
       (Some q, Some a) \<Rightarrow> do {
         (ret, q', h') \<leftarrow> prqueue_remove sq_ops q h a;
         Some (ret, Some q', h'(a := None))
       }
     | _ \<Rightarrow> Some (- 1, qo, h))"

text \<open>The queue that is left (\<open>None\<close> once freed), the memory of the events and the data freed.\<close>

definition squeue_destroy ::
  "prqueue option \<Rightarrow> sq_mem \<Rightarrow> bool \<Rightarrow> (prqueue option \<times> sq_mem \<times> nat option list) ub" where
  "squeue_destroy qo h free_data =
    (case qo of None \<Rightarrow> Some (None, h, [])
     | Some q \<Rightarrow>
       if prqueue_size q < 1 then Some (Some q, h, [])
       else if length (pq_d q) < qsize q then None
       else (let evts = tl (take (qsize q) (pq_d q)) in
         if \<exists>a \<in> set evts. h a = None then None
         else Some (None, fold (\<lambda>a h. h(a := None)) evts h,
           if free_data then map (\<lambda>a. evt_data (the (h a))) evts else [])))"

definition squeue_size :: "prqueue option \<Rightarrow> nat" where
  "squeue_size qo = (case qo of None \<Rightarrow> 0 | Some q \<Rightarrow> prqueue_size q)"

definition squeue_evt_when_is_after :: "sq_mem \<Rightarrow> nat option \<Rightarrow> timeval \<Rightarrow> c_int ub" where
  "squeue_evt_when_is_after h evt reftime =
    (case evt of None \<Rightarrow> Some (- 1)
     | Some a \<Rightarrow> map_option (\<lambda>e.
         if tv_sec reftime > tv_sec (evt_when e) \<or>
            tv_sec reftime = tv_sec (evt_when e) \<and> tv_usec reftime > tv_usec (evt_when e)
         then 1 else 0) (h a))"

section \<open>The contract discharged\<close>

text \<open>The priority of an allocated event, and what the priority queue leaves alone in it.\<close>

definition sq_key :: "sq_mem \<Rightarrow> nat \<Rightarrow> (u64 \<times> timeval \<times> nat option) option" where
  "sq_key h a = map_option (\<lambda>e. (evt_pri e, evt_when e, evt_data e)) (h a)"

lemma sq_ops_sel [simp]:
  "cmppri sq_ops = sq_cmp_pri" "getpri sq_ops = sq_get_pri" "setpri sq_ops = sq_set_pri"
  "getpos sq_ops = sq_get_pos" "setpos sq_ops = sq_set_pos"
  by (simp_all add: sq_ops_def)

interpretation sq: pq_callbacks sq_ops sq_key
proof unfold_locales
  fix h x i
  assume "sq_key h x \<noteq> None"
  then obtain e where e: "h x = Some e" by (auto simp: sq_key_def)
  show "\<exists>h'. setpos sq_ops h x i = Some h' \<and> sq_key h' = sq_key h
      \<and> getpos sq_ops h' = (getpos sq_ops h)(x := Some i)"
    by (rule exI [of _ "h(x \<mapsto> e\<lparr>evt_pos := i\<rparr>)"])
      (simp add: e sq_key_def sq_set_pos_def sq_get_pos_def fun_eq_iff)
next
  fix h x pr v np
  assume "sq_key h x = Some (pr, v)"
  then obtain e where e: "h x = Some e" "v = (evt_when e, evt_data e)" by (auto simp: sq_key_def)
  show "\<exists>h'. setpri sq_ops h x np = Some h' \<and> sq_key h' = (sq_key h)(x \<mapsto> (np, v))
      \<and> getpos sq_ops h' = getpos sq_ops h"
    by (rule exI [of _ "h(x \<mapsto> e\<lparr>evt_pri := np\<rparr>)"])
      (simp add: e sq_key_def sq_set_pri_def sq_get_pos_def fun_eq_iff)
qed (auto simp: sq_cmp_pri_def sq_key_def sq_get_pri_def sq_get_pos_def)

section \<open>Packed priorities\<close>

definition tv_ok :: "timeval \<Rightarrow> bool" where
  "tv_ok tv \<longleftrightarrow> 0 \<le> tv_sec tv \<and> tv_sec tv < 2 ^ 43 \<and> 0 \<le> tv_usec tv \<and> tv_usec tv < 2 ^ 21"

definition tv_less :: "timeval \<Rightarrow> timeval \<Rightarrow> bool" where
  "tv_less a b \<longleftrightarrow> tv_sec a < tv_sec b \<or> tv_sec a = tv_sec b \<and> tv_usec a < tv_usec b"

lemma evt_compute_pri_value:
  assumes "tv_ok tv"
  shows "uint (evt_compute_pri tv) = tv_sec tv * 2 ^ 21 + tv_usec tv"
proof -
  let ?s = "word_of_int (tv_sec tv) :: u64" and ?u = "word_of_int (tv_usec tv) :: u64"
  have m: "push_bit SQ_BITS 1 - 1 = (mask 21 :: u64)"
    by (simp add: SQ_BITS_def mask_eq_exp_minus_1)
  have "take_bit 21 (tv_usec tv) = tv_usec tv"
    using assms by (simp add: tv_ok_def take_bit_int_eq_self)
  then have u: "?u AND mask 21 = ?u"
    by (simp flip: take_bit_eq_mask add: take_bit_of_int)
  have disj: "\<not> bit (push_bit 21 ?s) n \<or> \<not> bit (?u AND mask 21) n" for n
    by (auto simp: bit_push_bit_iff bit_and_iff bit_mask_iff)
  have "evt_compute_pri tv = push_bit 21 ?s + ?u"
    unfolding evt_compute_pri_def m by (simp add: SQ_BITS_def u disjunctive_add [OF disj, unfolded u])
  also have "\<dots> = word_of_int (tv_sec tv * 2 ^ 21 + tv_usec tv)"
    by (simp add: push_bit_eq_mult)
  finally have "uint (evt_compute_pri tv) = (tv_sec tv * 2 ^ 21 + tv_usec tv) mod 2 ^ 64"
    by (simp only: uint_word_of_int) simp
  then show ?thesis using assms by (simp add: tv_ok_def)
qed

lemma evt_compute_pri_less:
  assumes "tv_ok a" "tv_ok b"
  shows "evt_compute_pri a < evt_compute_pri b \<longleftrightarrow> tv_less a b"
  using assms evt_compute_pri_value [OF assms(1)] evt_compute_pri_value [OF assms(2)]
  by (auto simp: word_less_def tv_ok_def tv_less_def)

section \<open>The queue as a multiset of scheduled items\<close>

text \<open>An item is a time with the data scheduled for it.\<close>

definition item :: "sq_mem \<Rightarrow> nat \<Rightarrow> timeval \<times> nat option" where
  "item h a = snd (the (sq_key h a))"

definition contents :: "prqueue \<Rightarrow> sq_mem \<Rightarrow> (timeval \<times> nat option) multiset" where
  "contents q h = image_mset (item h) (mset (nodes q))"

text \<open>The invariant: a well-formed heap whose priorities are computed from the times.\<close>

definition sq_wf :: "prqueue \<Rightarrow> sq_mem \<Rightarrow> bool" where
  "sq_wf q h \<longleftrightarrow> pq_wf sq_ops sq_key q h
    \<and> (\<forall>a \<in> set (nodes q). \<exists>w dt. sq_key h a = Some (evt_compute_pri w, w, dt) \<and> tv_ok w)"

lemma sq_wf_pq: "sq_wf q h \<Longrightarrow> pq_wf sq_ops sq_key q h"
  by (simp add: sq_wf_def)

lemma sq_wf_item:
  assumes "sq_wf q h" "a \<in> set (nodes q)"
  obtains e where "h a = Some e" "item h a = (evt_when e, evt_data e)" "tv_ok (evt_when e)"
    "pri_at sq_key h a = evt_compute_pri (evt_when e)" "evt_pri e = evt_compute_pri (evt_when e)"
proof -
  obtain w dt where "sq_key h a = Some (evt_compute_pri w, w, dt)" "tv_ok w"
    using assms unfolding sq_wf_def by blast
  with that show thesis by (auto simp: sq_key_def item_def pri_at_def)
qed

lemma dom_sq_key: "dom (sq_key h) = dom h"
  by (auto simp: sq_key_def)

lemma item_key: "sq_key h' = sq_key h \<Longrightarrow> item h' = item h"
  by (rule ext) (simp add: item_def)

text \<open>Memory outside the queue does not matter.\<close>

lemma pq_wf_frame:
  assumes wf: "pq_wf sq_ops sq_key q h" and same: "\<And>a. a \<in> set (nodes q) \<Longrightarrow> h' a = h a"
  shows "pq_wf sq_ops sq_key q h'"
proof -
  have n: "h' (pq_d q ! j) = h (pq_d q ! j)" if "1 \<le> j" "j < qsize q" for j
    using sq.wf_live(2) [OF wf that] same by blast
  have "heap_on (\<lambda>a b. \<not> sq_cmp_pri a b) (qsize q) (\<lambda>j. pri_at sq_key h' (pq_d q ! j))"
    using wf by (subst heap_cong(1) [where k' = "\<lambda>j. pri_at sq_key h (pq_d q ! j)"])
      (auto simp: pri_at_def sq_key_def n pq_wf_def)
  with wf same n show ?thesis by (simp add: pq_wf_def sq_key_def sq_get_pos_def)
qed

lemma sq_wf_frame:
  assumes wf: "sq_wf q h" and same: "\<And>a. a \<in> set (nodes q) \<Longrightarrow> h' a = h a"
  shows "sq_wf q h'" "contents q h' = contents q h"
proof -
  have k: "sq_key h' a = sq_key h a" if "a \<in> set (nodes q)" for a
    using same [OF that] by (simp add: sq_key_def)
  then have it: "item h' a = item h a" if "a \<in> set (nodes q)" for a
    using that by (simp add: item_def)
  show "contents q h' = contents q h"
    unfolding contents_def by (rule image_mset_cong) (simp add: it)
  have "pq_wf sq_ops sq_key q h'"
    by (rule pq_wf_frame [OF sq_wf_pq [OF wf] same])
  then show "sq_wf q h'" using wf k by (simp add: sq_wf_def)
qed

lemma mask_sec_id: "0 \<le> s \<Longrightarrow> s < 2 ^ 43 \<Longrightarrow> mask_sec s = s"
  by (simp add: mask_sec_def SQ_BITS_def)

lemma squeue_add_tv_spec:
  assumes wf: "sq_wf q h" and fresh: "h evt = None"
    and ok: "tv_ok tv" "now < 2 ^ 43"
  shows "\<exists>q' h' tv'. squeue_add_tv now (Some evt) (Some junk) (Some q) h tv data = Some (Some evt, tv', Some q', h')
    \<and> tv' = tv\<lparr>tv_sec := max now (tv_sec tv)\<rparr> \<and> sq_wf q' h'
    \<and> contents q' h' = add_mset (tv', data) (contents q h) \<and> dom h' = insert evt (dom h)"
proof -
  define tv' where "tv' = tv\<lparr>tv_sec := max now (tv_sec tv)\<rparr>"
  define h1 where "h1 = h(evt \<mapsto> \<lparr>evt_pos = 0, evt_pri = evt_compute_pri tv', evt_when = tv', evt_data = data\<rparr>)"
  have ok': "tv_ok tv'" using ok by (auto simp: tv'_def tv_ok_def)
  then have m: "\<lparr>tv_sec = mask_sec (tv_sec tv'), tv_usec = tv_usec tv'\<rparr> = tv'"
    by (cases tv') (simp add: mask_sec_id tv_ok_def)
  have tv': "(if tv_sec tv < now then tv\<lparr>tv_sec := now\<rparr> else tv) = tv'"
    by (cases tv) (simp add: tv'_def max_def)
  have notin: "evt \<notin> set (nodes q)"
  proof
    assume "evt \<in> set (nodes q)"
    then show False by (rule sq_wf_item [OF wf]) (simp add: fresh)
  qed
  have "h1 a = h a" if "a \<in> set (nodes q)" for a using that notin by (auto simp: h1_def)
  note wf1 = sq_wf_frame [OF wf this]
  have k1: "sq_key h1 evt = Some (evt_compute_pri tv', tv', data)" by (simp add: h1_def sq_key_def)
  obtain q' h' where ins: "prqueue_insert sq_ops (Some junk) (Some q) h1 evt = Some (0, Some q', h')"
    "pq_wf sq_ops sq_key q' h'" "sq_key h' = sq_key h1" "mset (nodes q') = add_mset evt (mset (nodes q))"
    using sq.insert_spec [of q h1 evt "Some junk"] wf1(1) k1 notin by (auto simp: sq_wf_def)
  have add: "squeue_add_tv now (Some evt) (Some junk) (Some q) h tv data = Some (Some evt, tv', Some q', h')"
    using ins(1) by (simp add: squeue_add_tv_def tv' m Let_def flip: h1_def)
  have nodes: "set (nodes q') = insert evt (set (nodes q))" using ins(4) by (metis set_mset_add_mset_insert set_mset_mset)
  have it: "item h' = item h1" "item h1 evt = (tv', data)" using item_key [OF ins(3)] k1 by (auto simp: item_def)
  have "sq_wf q' h'" using wf1(1) ins(2,3) nodes it k1 ok' by (auto simp: sq_wf_def)
  moreover have "contents q' h' = add_mset (tv', data) (contents q h)"
    using ins(4) it wf1(2) by (simp add: contents_def)
  moreover have "dom h' = dom h1" using ins(3) dom_sq_key by metis
  then have "dom h' = insert evt (dom h)" by (auto simp: h1_def)
  ultimately show ?thesis using add unfolding tv'_def by blast
qed

lemma squeue_pop_spec:
  assumes wf: "sq_wf q h" and ne: "nodes q \<noteq> []"
  shows "\<exists>w data q' h'. squeue_pop (Some q) h = Some (data, Some q', h') \<and> squeue_peek (Some q) h = Some data
    \<and> sq_wf q' h' \<and> contents q h = add_mset (w, data) (contents q' h')
    \<and> (\<forall>i \<in># contents q h. \<not> tv_less (fst i) w) \<and> length (nodes q) = Suc (length (nodes q'))"
proof -
  have pwf: "pq_wf sq_ops sq_key q h" using wf by (simp add: sq_wf_def)
  obtain a q' h' where p: "prqueue_pop sq_ops (Some q) h = Some (Some a, Some q', h')"
    "prqueue_peek (Some q) = Some (Some a)" "pq_wf sq_ops sq_key q' h'" "sq_key h' = sq_key h"
    "mset (nodes q) = add_mset a (mset (nodes q'))"
    "\<And>b. b \<in> set (nodes q) \<Longrightarrow> \<not> sq_cmp_pri (pri_at sq_key h a) (pri_at sq_key h b)"
    using sq.pop_spec [OF pwf ne] by auto
  have it: "item h' = item h" by (rule item_key [OF p(4)])
  have sub: "set (nodes q) = insert a (set (nodes q'))" using p(5) by (metis set_mset_add_mset_insert set_mset_mset)
  have wf1: "sq_wf q' h'" using wf p(3,4) sub it by (auto simp: sq_wf_def)
  obtain e where e: "h a = Some e" "item h a = (evt_when e, evt_data e)" using sq_wf_item [OF wf] sub by blast
  then obtain e' where e': "h' a = Some e'" "evt_data e' = evt_data e"
    using fun_cong [OF p(4), of a] by (auto simp: sq_key_def)
  have a: "a \<notin> set (nodes q')"
    using pwf p(5) mset_eq_imp_distinct_iff [of "nodes q" "a # nodes q'"] by (auto simp: pq_wf_def)
  have "(h'(a := None)) b = h' b" if "b \<in> set (nodes q')" for b using that a by auto
  from sq_wf_frame [OF wf1, OF this]
  have "sq_wf q' (h'(a := None))" "contents q' (h'(a := None)) = contents q' h'" by blast+
  moreover have "contents q h = add_mset (item h a) (contents q' h')"
    using p(5) it by (simp add: contents_def)
  moreover have "\<not> tv_less (fst (item h b)) (fst (item h a))" if "b \<in> set (nodes q)" for b
    using p(6) [OF that] evt_compute_pri_less sub
    by (rule_tac sq_wf_item [OF wf that]) (rule_tac sq_wf_item [OF wf, of a], auto simp: sq_cmp_pri_def)
  then have "\<forall>i \<in># contents q h. \<not> tv_less (fst i) (evt_when e)"
    using e(2) by (auto simp: contents_def)
  moreover have "length (nodes q) = Suc (length (nodes q'))" using arg_cong [OF p(5), of "size"] by simp
  ultimately show ?thesis
    using p(1,2) e e'
    by (intro exI [of _ "evt_when e"] exI [of _ "evt_data e"] exI [of _ q'] exI [of _ "h'(a := None)"])
      (simp add: squeue_pop_def squeue_peek_def del: fun_upd_apply)
qed

lemma free_node:
  assumes wf: "sq_wf q h" and n: "mset (nodes q) = add_mset a (mset (nodes q'))"
    and p: "pq_wf sq_ops sq_key q' h'" "sq_key h' = sq_key h"
  shows "sq_wf q' (h'(a := None))" "contents q h = add_mset (item h a) (contents q' (h'(a := None)))"
proof -
  have sub: "set (nodes q) = insert a (set (nodes q'))" using n by (metis set_mset_add_mset_insert set_mset_mset)
  have wf1: "sq_wf q' h'" using wf p sub by (auto simp: sq_wf_def)
  have "a \<notin> set (nodes q')"
    using sq_wf_pq [OF wf] n mset_eq_imp_distinct_iff [of "nodes q" "a # nodes q'"] by (auto simp: pq_wf_def)
  then have "(h'(a := None)) b = h' b" if "b \<in> set (nodes q')" for b using that by auto
  from sq_wf_frame [OF wf1, OF this]
  show "sq_wf q' (h'(a := None))" "contents q h = add_mset (item h a) (contents q' (h'(a := None)))"
    using n item_key [OF p(2)] by (simp_all add: contents_def del: fun_upd_apply)
qed

lemma squeue_remove_spec:
  assumes wf: "sq_wf q h" and a: "a \<in> set (nodes q)"
  shows "\<exists>q' h'. squeue_remove (Some q) h (Some a) = Some (0, Some q', h') \<and> sq_wf q' h' \<and> h' a = None
    \<and> contents q h = add_mset (item h a) (contents q' h')"
proof -
  obtain q' h' where r: "prqueue_remove sq_ops q h a = Some (0, q', h')" "pq_wf sq_ops sq_key q' h'"
    "sq_key h' = sq_key h" "mset (nodes q) = add_mset a (mset (nodes q'))"
    using sq.remove_spec [OF sq_wf_pq [OF wf] a] by blast
  from free_node [OF wf r(4,2,3)] r(1) show ?thesis
    by (intro exI [of _ q'] exI [of _ "h'(a := None)"]) (simp add: squeue_remove_def)
qed

lemma squeue_change_priority_spec:
  assumes wf: "sq_wf q h" and a: "a \<in> set (nodes q)" and ok: "tv_ok tv"
  shows "\<exists>q' h'. squeue_change_priority_tv (Some q) h (Some a) (Some tv) = Some (Some q', h') \<and> sq_wf q' h'
    \<and> contents q' h' = add_mset (tv, snd (item h a)) (contents q h - {#item h a#})"
proof -
  obtain e where e: "h a = Some e" "item h a = (evt_when e, evt_data e)"
    "pri_at sq_key h a = evt_compute_pri (evt_when e)" "evt_pri e = evt_compute_pri (evt_when e)"
    by (rule sq_wf_item [OF wf a])
  define h1 where "h1 = h(a \<mapsto> e\<lparr>evt_when := tv\<rparr>)"
  have pwf: "pq_wf sq_ops sq_key q h" by (rule sq_wf_pq [OF wf])
  have key1: "sq_key h1 = (sq_key h)(a \<mapsto> (evt_pri e, tv, evt_data e))"
    by (rule ext) (simp add: h1_def sq_key_def)
  have pri1: "pri_at sq_key h1 = pri_at sq_key h"
    by (rule ext) (simp add: pri_at_def key1, simp add: sq_key_def e)
  have pos1: "sq_get_pos h1 = sq_get_pos h" by (rule ext) (simp add: h1_def sq_get_pos_def e)
  have pwf1: "pq_wf sq_ops sq_key q h1"
    using pwf by (simp add: pq_wf_def pri1 pos1 key1)
  obtain q' h' where c: "prqueue_change_priority sq_ops q h1 (evt_compute_pri tv) a = Some (q', h')"
    "pq_wf sq_ops sq_key q' h'" "sq_key h' = (sq_key h1)(a \<mapsto> (evt_compute_pri tv, tv, evt_data e))"
    "mset (nodes q') = mset (nodes q)"
    using sq.change_priority_spec [OF pwf1 a, of "evt_pri e" "(tv, evt_data e)" "evt_compute_pri tv"] key1 by auto
  have key': "sq_key h' = (sq_key h)(a \<mapsto> (evt_compute_pri tv, tv, evt_data e))" using c(3) key1 by simp
  have set': "set (nodes q') = set (nodes q)" using c(4) by (metis set_mset_mset)
  have m: "\<lparr>tv_sec = mask_sec (tv_sec tv), tv_usec = tv_usec tv\<rparr> = tv"
    using ok by (cases tv) (simp add: mask_sec_id tv_ok_def)
  have run: "squeue_change_priority_tv (Some q) h (Some a) (Some tv) = Some (Some q', h')"
    using e c(1) by (simp add: squeue_change_priority_tv_def m Let_def flip: h1_def)
  have wf': "sq_wf q' h'" using wf c(2) set' ok by (auto simp: sq_wf_def key')
  have it: "item h' = (item h)(a := (tv, evt_data e))" by (rule ext) (simp add: item_def key')
  have "distinct (nodes q)" using pwf by (simp add: pq_wf_def)
  then have r: "mset (nodes q) = add_mset a (mset (remove1 a (nodes q)))" "a \<notin> set (remove1 a (nodes q))"
    using a by simp_all
  have "image_mset (item h') (mset (remove1 a (nodes q))) = image_mset (item h) (mset (remove1 a (nodes q)))"
    by (intro image_mset_cong) (use r(2) in \<open>auto simp: it simp del: mset_remove1\<close>)
  then have "contents q' h' = add_mset (tv, snd (item h a)) (contents q h - {#item h a#})"
    unfolding contents_def c(4) r(1) using e(2) by (simp add: it)
  with run wf' show ?thesis by blast
qed

lemma squeue_create_spec: "\<exists>q. squeue_create True True n = Some q \<and> sq_wf q h \<and> contents q h = {#} \<and> nodes q = []"
  using sq.init_spec [of "if n = 0 then 127 else n" h] by (auto simp: squeue_create_def sq_wf_def contents_def)

text \<open>The dispatcher empties a queue with \<open>n\<close> calls of \<open>squeue_pop\<close>.\<close>

fun sq_drain :: "nat \<Rightarrow> prqueue option \<Rightarrow> sq_mem \<Rightarrow> nat option list ub" where
  "sq_drain 0 qo h = Some []"
| "sq_drain (Suc n) qo h = do {
     (x, qo', h') \<leftarrow> squeue_pop qo h;
     xs \<leftarrow> sq_drain n qo' h';
     Some (x # xs)
   }"

lemma squeue_size_nodes: "sq_wf q h \<Longrightarrow> squeue_size (Some q) = length (nodes q)"
  by (simp add: squeue_size_def prqueue_size_def sq.nodes_size [OF sq_wf_pq])

lemma squeue_drain_spec:
  assumes "sq_wf q h"
  shows "\<exists>items. sq_drain (length (nodes q)) (Some q) h = Some (map snd items) \<and> mset items = contents q h
    \<and> sorted_wrt (\<lambda>i j. \<not> tv_less (fst j) (fst i)) items"
  using assms
proof (induction "length (nodes q)" arbitrary: q h)
  case 0
  then show ?case by (intro exI [of _ "[]"]) (simp add: contents_def)
next
  case (Suc n)
  then have "nodes q \<noteq> []" by auto
  from squeue_pop_spec [OF Suc.prems this] obtain w data q' h'
    where p: "squeue_pop (Some q) h = Some (data, Some q', h')" "sq_wf q' h'"
    "contents q h = add_mset (w, data) (contents q' h')"
    "\<forall>i \<in># contents q h. \<not> tv_less (fst i) w" "length (nodes q) = Suc (length (nodes q'))" by blast
  from p(5) Suc.hyps(2) have n: "n = length (nodes q')" by simp
  from Suc.hyps(1) [OF n p(2)] obtain items where items:
    "sq_drain n (Some q') h' = Some (map snd items)" "mset items = contents q' h'"
    "sorted_wrt (\<lambda>i j. \<not> tv_less (fst j) (fst i)) items" unfolding n by blast
  have "set items = set_mset (contents q' h')" using items(2) by (metis set_mset_mset)
  with p items Suc.hyps(2) [symmetric] show ?case
    by (intro exI [of _ "(w, data) # items"]) simp
qed

section \<open>Properties\<close>

text \<open>C13. Adding to a queue with memory available schedules the data once, at the time asked for
  or, when that lies in the past, now; nothing else of the queue changes and the heap stays
  well-formed.\<close>

theorem squeue_add_schedules:
  assumes "sq_wf q h" "h evt = None" "tv_ok tv" "now < 2 ^ 43"
  shows "\<exists>q' h' tv'. squeue_add_tv now (Some evt) (Some junk) (Some q) h tv data = Some (Some evt, tv', Some q', h')
    \<and> tv' = tv\<lparr>tv_sec := max now (tv_sec tv)\<rparr> \<and> sq_wf q' h'
    \<and> contents q' h' = add_mset (tv', data) (contents q h) \<and> dom h' = insert evt (dom h)"
  using assms by (rule squeue_add_tv_spec)

text \<open>An example queue: three events added to an empty queue of two slots, at time 100.\<close>

definition sq_empty :: prqueue where
  "sq_empty = the (squeue_create True True 2)"

lemma sq_empty_wf: "sq_wf sq_empty Map.empty" "nodes sq_empty = []"
  using squeue_create_spec [of 2 Map.empty] by (auto simp: sq_empty_def)

theorem squeue_add_schedules_witness:
  "\<exists>q' h' tv'. squeue_add_tv 100 (Some 7) (Some (\<lambda>_. 0)) (Some sq_empty) Map.empty \<lparr>tv_sec = 50, tv_usec = 3\<rparr> (Some 1)
      = Some (Some 7, tv', Some q', h')
    \<and> tv' = \<lparr>tv_sec = 50, tv_usec = 3\<rparr>\<lparr>tv_sec := max 100 (tv_sec \<lparr>tv_sec = 50, tv_usec = 3\<rparr>)\<rparr> \<and> sq_wf q' h'
    \<and> contents q' h' = add_mset (tv', Some 1) (contents sq_empty Map.empty) \<and> dom h' = insert 7 (dom (Map.empty :: sq_mem))"
  by (rule squeue_add_schedules [OF sq_empty_wf(1)]) (simp_all add: tv_ok_def)

definition sq_example :: prqueue where
  "sq_example = \<lparr>qsize = 4, pq_avail = 6, pq_step = 3, pq_d = [0, 3, 1, 2, 0, 0]\<rparr>"

definition sq_example_event :: "nat \<Rightarrow> int \<Rightarrow> int \<Rightarrow> nat \<Rightarrow> squeue_event" where
  "sq_example_event p s u dt = \<lparr>evt_pos = p, evt_pri = evt_compute_pri \<lparr>tv_sec = s, tv_usec = u\<rparr>,
     evt_when = \<lparr>tv_sec = s, tv_usec = u\<rparr>, evt_data = Some dt\<rparr>"

definition sq_example_mem :: sq_mem where
  "sq_example_mem = [1 \<mapsto> sq_example_event 2 300 0 10, 2 \<mapsto> sq_example_event 3 200 7 20,
     3 \<mapsto> sq_example_event 1 200 5 30]"

lemma sq_example_sel: "qsize sq_example = 4" "pq_avail sq_example = 6" "pq_step sq_example = 3"
  "pq_d sq_example = [0, 3, 1, 2, 0, 0]"
  by (simp_all add: sq_example_def)

lemma sq_example_nodes: "nodes sq_example = [3, 1, 2]"
  by (simp add: nodes_def slots_def sq_example_def)

lemma sq_example_wf: "sq_wf sq_example sq_example_mem"
proof -
  have "2 \<le> j \<and> j < 4 \<longleftrightarrow> j = 2 \<or> j = 3" "1 \<le> j \<and> j < 4 \<longleftrightarrow> j = 1 \<or> j = 2 \<or> j = 3" for j :: nat
    by auto
  then have j: "(\<forall>j. 2 \<le> j \<and> j < 4 \<longrightarrow> P j) \<longleftrightarrow> P 2 \<and> P 3"
    "(\<forall>j. 1 \<le> j \<and> j < 4 \<longrightarrow> P j) \<longleftrightarrow> P 1 \<and> P 2 \<and> P 3" for P :: "nat \<Rightarrow> bool" by auto
  have ok: "tv_ok \<lparr>tv_sec = 300, tv_usec = 0\<rparr>" "tv_ok \<lparr>tv_sec = 200, tv_usec = 7\<rparr>"
    "tv_ok \<lparr>tv_sec = 200, tv_usec = 5\<rparr>" by (simp_all add: tv_ok_def)
  have "pq_wf sq_ops sq_key sq_example sq_example_mem"
    unfolding pq_wf_def heap_on_def sq_example_sel sq_example_nodes j
    by (simp add: sq_example_mem_def sq_example_event_def sq_key_def pri_at_def sq_get_pos_def
        sq_cmp_pri_def evt_compute_pri_less ok tv_less_def)
  with ok show ?thesis
    by (auto simp: sq_wf_def sq_example_nodes sq_example_mem_def sq_example_event_def sq_key_def)
qed

text \<open>C12. \<open>squeue_pop\<close> on a queue that is not empty returns the data of an item no other
  item is due before, the one \<open>squeue_peek\<close> shows, and removes exactly this item.\<close>

theorem squeue_pop_earliest:
  assumes "sq_wf q h" "nodes q \<noteq> []"
  shows "\<exists>w data q' h'. squeue_pop (Some q) h = Some (data, Some q', h') \<and> squeue_peek (Some q) h = Some data
    \<and> sq_wf q' h' \<and> contents q h = add_mset (w, data) (contents q' h')
    \<and> (\<forall>i \<in># contents q h. \<not> tv_less (fst i) w) \<and> length (nodes q) = Suc (length (nodes q'))"
  using assms by (rule squeue_pop_spec)

theorem squeue_pop_earliest_witness:
  "\<exists>w data q' h'. squeue_pop (Some sq_example) sq_example_mem = Some (data, Some q', h')
    \<and> squeue_peek (Some sq_example) sq_example_mem = Some data
    \<and> sq_wf q' h' \<and> contents sq_example sq_example_mem = add_mset (w, data) (contents q' h')
    \<and> (\<forall>i \<in># contents sq_example sq_example_mem. \<not> tv_less (fst i) w)
    \<and> length (nodes sq_example) = Suc (length (nodes q'))"
  by (rule squeue_pop_earliest [OF sq_example_wf]) (simp add: sq_example_nodes)

text \<open>C15. \<open>squeue_remove\<close> on an event of the queue takes exactly the item of this event out of it,
  wherever it is in the heap, frees the event and returns 0.\<close>

theorem squeue_remove_deletes:
  assumes "sq_wf q h" "a \<in> set (nodes q)"
  shows "\<exists>q' h'. squeue_remove (Some q) h (Some a) = Some (0, Some q', h') \<and> sq_wf q' h' \<and> h' a = None
    \<and> contents q h = add_mset (item h a) (contents q' h')"
  using assms by (rule squeue_remove_spec)

theorem squeue_remove_deletes_witness:
  "\<exists>q' h'. squeue_remove (Some sq_example) sq_example_mem (Some 1) = Some (0, Some q', h') \<and> sq_wf q' h'
    \<and> h' 1 = None \<and> contents sq_example sq_example_mem = add_mset (item sq_example_mem 1) (contents q' h')"
  by (rule squeue_remove_deletes [OF sq_example_wf]) (simp add: sq_example_nodes)

text \<open>\<open>squeue_change_priority_tv\<close> moves the item of an event to the new time, keeps its data
  and every other item, and restores the heap, whether the event becomes due earlier or later.\<close>

theorem squeue_change_priority_moves:
  assumes "sq_wf q h" "a \<in> set (nodes q)" "tv_ok tv"
  shows "\<exists>q' h'. squeue_change_priority_tv (Some q) h (Some a) (Some tv) = Some (Some q', h') \<and> sq_wf q' h'
    \<and> contents q' h' = add_mset (tv, snd (item h a)) (contents q h - {#item h a#})"
  using assms by (rule squeue_change_priority_spec)

theorem squeue_change_priority_moves_witness:
  "\<exists>q' h'. squeue_change_priority_tv (Some sq_example) sq_example_mem (Some 3) (Some \<lparr>tv_sec = 400, tv_usec = 0\<rparr>)
      = Some (Some q', h') \<and> sq_wf q' h'
    \<and> contents q' h' = add_mset (\<lparr>tv_sec = 400, tv_usec = 0\<rparr>, snd (item sq_example_mem 3))
        (contents sq_example sq_example_mem - {#item sq_example_mem 3#})"
  by (rule squeue_change_priority_moves [OF sq_example_wf]) (simp_all add: sq_example_nodes tv_ok_def)

text \<open>C11. Emptying a queue by as many calls of \<open>squeue_pop\<close> as \<open>squeue_size\<close> says succeeds and
  returns the data of all items, each once, in the order of their times.\<close>

theorem squeue_drain_sorted:
  assumes "sq_wf q h"
  shows "\<exists>items. sq_drain (squeue_size (Some q)) (Some q) h = Some (map snd items) \<and> mset items = contents q h
    \<and> sorted_wrt (\<lambda>i j. \<not> tv_less (fst j) (fst i)) items"
  unfolding squeue_size_nodes [OF assms] using assms by (rule squeue_drain_spec)

theorem squeue_drain_sorted_witness:
  "\<exists>items. sq_drain (squeue_size (Some sq_example)) (Some sq_example) sq_example_mem = Some (map snd items)
    \<and> mset items = contents sq_example sq_example_mem
    \<and> sorted_wrt (\<lambda>i j. \<not> tv_less (fst j) (fst i)) items"
  by (rule squeue_drain_sorted [OF sq_example_wf])

text \<open>C30. The packed 64-bit priority of \<open>evt_compute_pri\<close> orders times as pairs of seconds
  and microseconds, for seconds below \<open>2\<^sup>4\<^sup>3\<close> and microseconds below \<open>2\<^sup>2\<^sup>1\<close>.\<close>

theorem evt_pri_lexicographic:
  assumes "tv_ok a" "tv_ok b"
  shows "evt_compute_pri a < evt_compute_pri b \<longleftrightarrow>
    tv_sec a < tv_sec b \<or> tv_sec a = tv_sec b \<and> tv_usec a < tv_usec b"
  using evt_compute_pri_less [OF assms] by (simp add: tv_less_def)

theorem evt_pri_lexicographic_witness:
  "evt_compute_pri \<lparr>tv_sec = 5, tv_usec = 999999\<rparr> < evt_compute_pri \<lparr>tv_sec = 6, tv_usec = 0\<rparr> \<longleftrightarrow>
    tv_sec \<lparr>tv_sec = 5, tv_usec = 999999\<rparr> < tv_sec \<lparr>tv_sec = 6, tv_usec = 0\<rparr> \<or>
    tv_sec \<lparr>tv_sec = 5, tv_usec = 999999\<rparr> = tv_sec \<lparr>tv_sec = 6, tv_usec = 0\<rparr> \<and>
    tv_usec \<lparr>tv_sec = 5, tv_usec = 999999\<rparr> < tv_usec \<lparr>tv_sec = 6, tv_usec = 0\<rparr>"
  by (rule evt_pri_lexicographic) (simp_all add: tv_ok_def)

text \<open>The self-check \<open>prqueue_is_valid\<close> decides the heap order: on a queue of allocated
  events that is not empty it succeeds exactly if no entry has a smaller priority than its parent.\<close>

theorem prqueue_self_check:
  assumes "1 < qsize q" "qsize q \<le> length (pq_d q)" "\<forall>a \<in> set (nodes q). h a \<noteq> None"
  shows "prqueue_is_valid sq_ops q h = Some (\<forall>j. 2 \<le> j \<and> j < qsize q \<longrightarrow>
    evt_pri (the (h (pq_d q ! (j div 2)))) \<le> evt_pri (the (h (pq_d q ! j))))"
proof -
  have pri: "pri_at sq_key h (pq_d q ! j) = evt_pri (the (h (pq_d q ! j)))" if "1 \<le> j" "j < qsize q" for j
  proof -
    have "pq_d q ! j \<in> set (nodes q)"
      using in_slots_iff [OF assms(2)] that unfolding nodes_def by blast
    with assms(3) show ?thesis by (auto simp: pri_at_def sq_key_def)
  qed
  have "\<forall>a \<in> set (nodes q). sq_key h a \<noteq> None" using assms(3) by (simp add: sq_key_def)
  from sq.is_valid_spec [OF assms(1,2) this]
  have "prqueue_is_valid sq_ops q h =
      Some (heap_on (\<lambda>a b. \<not> sq_cmp_pri a b) (qsize q) (\<lambda>j. pri_at sq_key h (pq_d q ! j)))" by simp
  also have "heap_on (\<lambda>a b. \<not> sq_cmp_pri a b) (qsize q) (\<lambda>j. pri_at sq_key h (pq_d q ! j)) =
      heap_on (\<lambda>a b. \<not> sq_cmp_pri a b) (qsize q) (\<lambda>j. evt_pri (the (h (pq_d q ! j))))"
    by (rule heap_cong(1)) (rule pri)
  finally show ?thesis by (simp add: heap_on_def sq_cmp_pri_def not_less)
qed

theorem prqueue_self_check_witness:
  "prqueue_is_valid sq_ops sq_example sq_example_mem = Some (\<forall>j. 2 \<le> j \<and> j < qsize sq_example \<longrightarrow>
    evt_pri (the (sq_example_mem (pq_d sq_example ! (j div 2))))
      \<le> evt_pri (the (sq_example_mem (pq_d sq_example ! j))))"
  by (rule prqueue_self_check) (simp_all add: sq_example_nodes sq_example_sel sq_example_mem_def)

text \<open>Two events added by \<open>squeue_add\<close> for the same future second are popped in the order of
  the microsecond readings of the clock at the two calls, not in the order of the calls: a later
  call wins when the clock has moved into a new second with a smaller reading.\<close>

theorem squeue_add_same_second:
  assumes "sq_wf q h" "nodes q = []" "h e1 = None" "h e2 = None" "e1 \<noteq> e2"
    and "tv_sec t1 \<le> s" "tv_sec t2 \<le> s" "s < 2 ^ 43" "0 \<le> s" "0 \<le> tv_usec t1" "tv_usec t1 < 1000000"
    and "0 \<le> tv_usec t2" "tv_usec t2 < 1000000" "tv_usec t1 \<noteq> tv_usec t2"
  shows "do {
      (_, _, q', h') \<leftarrow> squeue_add t1 (Some e1) (Some j1) (Some q) h s (Some d1);
      (_, _, q'', h'') \<leftarrow> squeue_add t2 (Some e2) (Some j2) q' h' s (Some d2);
      squeue_peek q'' h''
    } = Some (Some (if tv_usec t2 < tv_usec t1 then d2 else d1))"
proof -
  define w1 where "w1 = t1\<lparr>tv_sec := s\<rparr>"
  define w2 where "w2 = t2\<lparr>tv_sec := s\<rparr>"
  have ok: "tv_ok w1" "tv_ok w2" using assms(8-13) by (simp_all add: w1_def w2_def tv_ok_def)
  have now: "tv_sec t1 < 2 ^ 43" "tv_sec t2 < 2 ^ 43" using assms(6-8) by simp_all
  obtain q1 h1 where a1: "squeue_add t1 (Some e1) (Some j1) (Some q) h s (Some d1) = Some (Some e1, w1, Some q1, h1)"
    "sq_wf q1 h1" "contents q1 h1 = {#(w1, Some d1)#}" "dom h1 = insert e1 (dom h)"
    using squeue_add_tv_spec [OF assms(1,3) ok(1) now(1), of j1 "Some d1"] assms(2,6)
    by (auto simp: squeue_add_def w1_def contents_def max_def)
  have f2: "h1 e2 = None" using a1(4) assms(4,5) by (auto simp: domIff [symmetric])
  obtain q2 h2 where a2: "squeue_add t2 (Some e2) (Some j2) (Some q1) h1 s (Some d2) = Some (Some e2, w2, Some q2, h2)"
    "sq_wf q2 h2" "contents q2 h2 = {#(w2, Some d2), (w1, Some d1)#}"
    using squeue_add_tv_spec [OF a1(2) f2 ok(2) now(2), of j2 "Some d2"] assms(7) a1(3)
    by (auto simp: squeue_add_def w2_def max_def)
  have "nodes q2 \<noteq> []" using a2(3) by (auto simp: contents_def)
  from squeue_pop_spec [OF a2(2) this] obtain w data where p: "squeue_peek (Some q2) h2 = Some data"
    "(w, data) \<in># contents q2 h2" "\<forall>i \<in># contents q2 h2. \<not> tv_less (fst i) w" by fastforce
  then have "data = Some (if tv_usec t2 < tv_usec t1 then d2 else d1)"
    using assms(14) unfolding a2(3) by (auto simp: tv_less_def w1_def w2_def split: if_splits)
  with a1(1) a2(1) p(1) show ?thesis by simp
qed

theorem squeue_add_same_second_witness:
  "do {
      (_, _, q', h') \<leftarrow> squeue_add \<lparr>tv_sec = 10, tv_usec = 999999\<rparr> (Some 1) (Some (\<lambda>_. 0)) (Some sq_empty) Map.empty 60 (Some 10);
      (_, _, q'', h'') \<leftarrow> squeue_add \<lparr>tv_sec = 11, tv_usec = 5\<rparr> (Some 2) (Some (\<lambda>_. 0)) q' h' 60 (Some 20);
      squeue_peek q'' h''
    } = Some (Some (if tv_usec \<lparr>tv_sec = 11, tv_usec = 5\<rparr> < tv_usec \<lparr>tv_sec = 10, tv_usec = 999999\<rparr> then 20 else 10))"
  by (rule squeue_add_same_second [OF sq_empty_wf]) simp_all

end
