(* ===== verification/Chains.thy ===== *)
theory Chains
  imports Prelude
begin

text \<open>
  Tables of chains: an array of linked lists, where an entry hangs in the list of the slot its
  key is hashed to.  \<open>lib/dkhash.c\<close> and \<open>lib/fanout.c\<close> are both built this way; the
  locale \<open>chained\<close> is what they share.  A chain is the list of its entries, head first.
\<close>

text \<open>Unlinking the first entry that satisfies \<open>P\<close> from a chain.\<close>

fun unlink :: "('e \<Rightarrow> bool) \<Rightarrow> 'e list \<Rightarrow> ('e \<times> 'e list) option" where
  "unlink P [] = None"
| "unlink P (e # es) =
    (if P e then Some (e, es) else map_option (\<lambda>(x, xs). (x, e # xs)) (unlink P es))"

lemma unlink_None: "unlink P es = None \<longleftrightarrow> filter P es = []"
  by (induction es) auto

lemma unlink_Some:
  "unlink P es = Some (e, es') \<Longrightarrow> P e \<and> filter P es = e # filter P es' \<and> mset es = add_mset e (mset es')
    \<and> (\<forall>Q. (\<forall>x. Q x \<longrightarrow> \<not> P x) \<longrightarrow> filter Q es' = filter Q es)"
  by (induction es arbitrary: es') (auto split: if_splits)

lemma find_filter: "find P xs = (case filter P xs of [] \<Rightarrow> None | x # _ \<Rightarrow> Some x)"
  by (induction xs) auto

lemma mset_concat_update:
  "i < length xss \<Longrightarrow> mset (concat (xss[i := ys])) + mset (xss ! i) = mset (concat xss) + mset ys"
  by (induction xss arbitrary: i) (auto split: nat.splits simp: ac_simps)

locale chained =
  fixes slot :: "nat \<Rightarrow> 'k \<Rightarrow> nat" and key_of :: "'e \<Rightarrow> 'k"
  assumes slot_less: "0 < n \<Longrightarrow> slot n k < n"
begin

text \<open>Every entry is in its slot.\<close>

definition homed :: "'e list list \<Rightarrow> bool" where
  "homed tbl \<longleftrightarrow> (\<forall>i < length tbl. \<forall>e \<in> set (tbl ! i). slot (length tbl) (key_of e) = i)"

definition entries_for :: "'e list list \<Rightarrow> 'k \<Rightarrow> 'e list" where
  "entries_for tbl k = filter (\<lambda>e. key_of e = k) (tbl ! slot (length tbl) k)"

lemma homed_replicate: "homed (replicate n [])"
  by (simp add: homed_def)

lemma entries_for_replicate: "0 < n \<Longrightarrow> entries_for (replicate n []) k = []"
  by (simp add: entries_for_def slot_less)

lemma homed_update:
  assumes "homed tbl" "i < length tbl" "\<forall>e \<in> set es. slot (length tbl) (key_of e) = i"
  shows "homed (tbl[i := es])"
  using assms by (auto simp: homed_def nth_list_update)

lemma entries_for_push:
  assumes "tbl \<noteq> []"
  shows "entries_for (tbl[slot (length tbl) (key_of e) := e # tbl ! slot (length tbl) (key_of e)]) k =
    (if k = key_of e then e # entries_for tbl k else entries_for tbl k)"
  using assms by (auto simp: entries_for_def nth_list_update slot_less)

lemma homed_push:
  assumes "homed tbl" "tbl \<noteq> []"
  shows "homed (tbl[slot (length tbl) (key_of e) := e # tbl ! slot (length tbl) (key_of e)])"
  using assms by (intro homed_update) (auto simp: homed_def slot_less)

lemma entries_for_unlink:
  assumes "tbl \<noteq> []" "unlink (\<lambda>x. key_of x = k) (tbl ! slot (length tbl) k) = Some (e, es)"
  shows "entries_for (tbl[slot (length tbl) k := es]) k' =
    (if k' = k then tl (entries_for tbl k) else entries_for tbl k')"
    and "hd (entries_for tbl k) = e" "entries_for tbl k \<noteq> []" "key_of e = k"
  using unlink_Some [OF assms(2)] assms(1)
  by (auto simp: entries_for_def nth_list_update slot_less)

lemma homed_unlink:
  assumes "homed tbl" "tbl \<noteq> []" "unlink P (tbl ! i) = Some (e, es)" "i < length tbl"
  shows "homed (tbl[i := es])"
proof -
  have "set es \<subseteq> set (tbl ! i)"
    using unlink_Some [OF assms(3)] by (metis set_mset_mset set_mset_add_mset_insert subset_insertI)
  with assms show ?thesis by (intro homed_update) (auto simp: homed_def)
qed

text \<open>Looking into one slot sees everything the table holds for a key.\<close>

lemma entries_for_concat:
  assumes "homed tbl" "tbl \<noteq> []"
  shows "mset (entries_for tbl k) = filter_mset (\<lambda>e. key_of e = k) (mset (concat tbl))"
proof -
  let ?i = "slot (length tbl) k"
  have i: "?i < length tbl" using assms(2) by (simp add: slot_less)
  have "filter (\<lambda>e. key_of e = k) (tbl ! j) = []" if "j < length tbl" "j \<noteq> ?i" for j
    using assms(1) that by (auto simp: homed_def filter_empty_conv)
  then have "\<forall>es \<in> set (tbl[?i := []]). filter (\<lambda>e. key_of e = k) es = []"
    using i by (auto simp: in_set_conv_nth nth_list_update)
  then have "filter_mset (\<lambda>e. key_of e = k) (mset (concat (tbl[?i := []]))) = {#}"
    by (auto simp: filter_empty_conv)
  with arg_cong [OF mset_concat_update [OF i, of "[]"], of "filter_mset (\<lambda>e. key_of e = k)"]
  show ?thesis by (simp add: entries_for_def)
qed

end

end
