(* ===== verification/Fanout.thy ===== *)
theory Fanout
  imports Chains
begin

text \<open>
  The fanout table of \<open>lib/fanout.c\<close>: data pointers filed under integer ids, hashed by
  remainder.  Comments and downtimes are found by id through such tables.
  For every key the table is a stack: adding under a key that is there hides
  the older data, removing brings them back.
\<close>

section \<open>State\<close>

record 'd fanout_entry =
  fo_key :: nat
  fo_data :: 'd

text \<open>\<open>fo_entries\<close> is NULL while \<open>fanout_destroy\<close> calls the destructors.\<close>

record 'd fanout_table =
  fo_alloc :: nat
  fo_entries :: "'d fanout_entry list list option"

section \<open>Operations\<close>

definition fanout_create :: "bool \<Rightarrow> bool \<Rightarrow> nat \<Rightarrow> 'd fanout_table option" where
  "fanout_create m1 m2 sz =
    (if \<not> m1 then None
     else if \<not> m2 then None
     else Some \<lparr>fo_alloc = sz, fo_entries = Some (replicate sz [])\<rparr>)"

text \<open>\<open>!t || !t->entries || !t->alloc\<close>\<close>

definition fo_unusable :: "'d fanout_table option \<Rightarrow> bool" where
  "fo_unusable t \<longleftrightarrow> (case t of None \<Rightarrow> True | Some f \<Rightarrow> fo_entries f = None \<or> fo_alloc f = 0)"

text \<open>The data in the order the destructor is called on them, and whether the table was freed.
  While the destructor runs, \<open>t->entries\<close> is NULL, so a call of \<open>fanout_remove\<close> it makes has no effect.\<close>

definition fanout_destroy :: "'d fanout_table option \<Rightarrow> 'd list \<times> bool" where
  "fanout_destroy t =
    (if fo_unusable t then ([], False)
     else (map fo_data (concat (take (fo_alloc (the t)) (the (fo_entries (the t))))), True))"

definition fanout_add :: "bool \<Rightarrow> 'd fanout_table option \<Rightarrow> nat \<Rightarrow> 'd option \<Rightarrow> (c_int \<times> 'd fanout_table option) ub" where
  "fanout_add m t key data =
    (if fo_unusable t \<or> data = None then Some (- 1, t)
     else if \<not> m then Some (- 1, t)
     else do {
       f \<leftarrow> t; es \<leftarrow> fo_entries f; x \<leftarrow> data;
       chain \<leftarrow> arr_get es (key mod fo_alloc f);
       es' \<leftarrow> arr_set es (key mod fo_alloc f) (\<lparr>fo_key = key, fo_data = x\<rparr> # chain);
       Some (0, Some (f\<lparr>fo_entries := Some es'\<rparr>))
     })"

definition fanout_get :: "'d fanout_table option \<Rightarrow> nat \<Rightarrow> 'd option ub" where
  "fanout_get t key =
    (if fo_unusable t then Some None
     else do {
       f \<leftarrow> t; es \<leftarrow> fo_entries f;
       chain \<leftarrow> arr_get es (key mod fo_alloc f);
       Some (map_option fo_data (find (\<lambda>e. fo_key e = key) chain))
     })"

definition fanout_remove :: "'d fanout_table option \<Rightarrow> nat \<Rightarrow> ('d option \<times> 'd fanout_table option) ub" where
  "fanout_remove t key =
    (if fo_unusable t then Some (None, t)
     else do {
       f \<leftarrow> t; es \<leftarrow> fo_entries f;
       chain \<leftarrow> arr_get es (key mod fo_alloc f);
       (case unlink (\<lambda>e. fo_key e = key) chain of
          None \<Rightarrow> Some (None, t)
        | Some (e, chain') \<Rightarrow> do {
            es' \<leftarrow> arr_set es (key mod fo_alloc f) chain';
            Some (Some (fo_data e), Some (f\<lparr>fo_entries := Some es'\<rparr>))
          })
     })"

section \<open>A stack of data per key\<close>

interpretation fo: chained "\<lambda>n k. k mod n" fo_key
  by unfold_locales simp

definition fo_wf :: "'d fanout_table option \<Rightarrow> bool" where
  "fo_wf t \<longleftrightarrow> (\<exists>f es. t = Some f \<and> fo_entries f = Some es \<and> length es = fo_alloc f \<and> 0 < fo_alloc f \<and> fo.homed es)"

definition fo_stack :: "'d fanout_table option \<Rightarrow> nat \<Rightarrow> 'd list" where
  "fo_stack t k = (case t of None \<Rightarrow> [] | Some f \<Rightarrow>
     (case fo_entries f of None \<Rightarrow> [] | Some es \<Rightarrow> map fo_data (fo.entries_for es k)))"

lemma fo_wfE:
  assumes "fo_wf t"
  obtains f es where "t = Some f" "fo_entries f = Some es" "length es = fo_alloc f" "0 < fo_alloc f"
    "fo.homed es" "\<not> fo_unusable t" "es \<noteq> []" "fo_stack t = (\<lambda>k. map fo_data (fo.entries_for es k))"
proof -
  from assms obtain f es where t: "t = Some f" "fo_entries f = Some es" "length es = fo_alloc f"
    "0 < fo_alloc f" "fo.homed es" unfolding fo_wf_def by blast
  from t(3,4) have "es \<noteq> []" by auto
  with that t show thesis by (simp add: fo_unusable_def fo_stack_def fun_eq_iff)
qed

lemma fanout_create_spec:
  "0 < sz \<Longrightarrow> fo_wf (fanout_create True True sz) \<and> fo_stack (fanout_create True True sz) k = []"
  by (simp add: fanout_create_def fo_wf_def fo_stack_def fo.homed_replicate fo.entries_for_replicate)

lemma fanout_add_spec:
  assumes "fo_wf t"
  shows "\<exists>t'. fanout_add True t key (Some x) = Some (0, t') \<and> fo_wf t'
    \<and> fo_stack t' = (fo_stack t)(key := x # fo_stack t key)"
proof -
  obtain f es where f: "t = Some f" "fo_entries f = Some es" "length es = fo_alloc f" "0 < fo_alloc f"
    "fo.homed es" "\<not> fo_unusable t" "es \<noteq> []" "fo_stack t = (\<lambda>k. map fo_data (fo.entries_for es k))"
    by (rule fo_wfE [OF assms])
  let ?e = "\<lparr>fo_key = key, fo_data = x\<rparr>"
  from f fo.homed_push [OF f(5,7), of ?e] fo.entries_for_push [OF f(7), of ?e] show ?thesis
    by (auto simp: fanout_add_def fo_wf_def fo_stack_def fun_eq_iff)
qed

lemma fanout_get_spec:
  assumes "fo_wf t"
  shows "fanout_get t key = Some (case fo_stack t key of [] \<Rightarrow> None | x # _ \<Rightarrow> Some x)"
proof -
  obtain f es where f: "t = Some f" "fo_entries f = Some es" "length es = fo_alloc f" "0 < fo_alloc f"
    "fo.homed es" "\<not> fo_unusable t" "es \<noteq> []" "fo_stack t = (\<lambda>k. map fo_data (fo.entries_for es k))"
    by (rule fo_wfE [OF assms])
  then show ?thesis
    by (auto simp: fanout_get_def fo.entries_for_def find_filter split: list.splits)
qed

lemma fanout_remove_spec:
  assumes "fo_wf t"
  shows "\<exists>t'. fanout_remove t key = Some (case fo_stack t key of [] \<Rightarrow> None | x # _ \<Rightarrow> Some x, t')
    \<and> fo_wf t' \<and> fo_stack t' = (fo_stack t)(key := tl (fo_stack t key))"
proof -
  obtain f es where f: "t = Some f" "fo_entries f = Some es" "length es = fo_alloc f" "0 < fo_alloc f"
    "fo.homed es" "\<not> fo_unusable t" "es \<noteq> []" "fo_stack t = (\<lambda>k. map fo_data (fo.entries_for es k))"
    by (rule fo_wfE [OF assms])
  have i: "key mod fo_alloc f < length es" using f by simp
  show ?thesis
  proof (cases "unlink (\<lambda>e. fo_key e = key) (es ! (key mod fo_alloc f))")
    case None
    then have "fo.entries_for es key = []" using f(3) by (simp add: unlink_None fo.entries_for_def)
    with None f i assms show ?thesis by (auto simp: fanout_remove_def fun_eq_iff)
  next
    case (Some r)
    obtain e es' where r: "r = (e, es')" by fastforce
    note u = Some [unfolded r]
    have u': "unlink (\<lambda>e. fo_key e = key) (es ! (key mod length es)) = Some (e, es')" using u f(3) by simp
    note tl = fo.entries_for_unlink [OF f(7) u'] and home = fo.homed_unlink [OF f(5,7) u]
    from tl(2,3) have "fo.entries_for es key = e # tl (fo.entries_for es key)" by (cases "fo.entries_for es key") auto
    then have st: "fo_stack t key = fo_data e # map fo_data (tl (fo.entries_for es key))"
      unfolding f(8) by (metis list.simps(9))
    from u f i tl(1) home [OF i] st show ?thesis
      by (auto simp: fanout_remove_def fo_wf_def fo_stack_def fun_eq_iff map_tl)
  qed
qed

section \<open>Properties\<close>

text \<open>C35. A fanout table is a stack of data for every key: \<open>fanout_add\<close> pushes, \<open>fanout_get\<close>
  returns the top or NULL, \<open>fanout_remove\<close> pops and returns it; the other keys keep theirs,
  whatever slots they share.\<close>

theorem fanout_stacks:
  assumes "fo_wf t"
  shows "(\<exists>t'. fanout_add True t key (Some x) = Some (0, t') \<and> fo_wf t'
      \<and> fo_stack t' = (fo_stack t)(key := x # fo_stack t key))
    \<and> fanout_get t key = Some (case fo_stack t key of [] \<Rightarrow> None | y # _ \<Rightarrow> Some y)
    \<and> (\<exists>t'. fanout_remove t key = Some (case fo_stack t key of [] \<Rightarrow> None | y # _ \<Rightarrow> Some y, t')
      \<and> fo_wf t' \<and> fo_stack t' = (fo_stack t)(key := tl (fo_stack t key)))"
  by (intro conjI fanout_add_spec fanout_get_spec fanout_remove_spec assms)

definition fo_example :: "nat fanout_table option" where
  "fo_example = Some \<lparr>fo_alloc = 2, fo_entries =
    Some [[\<lparr>fo_key = 4, fo_data = 40\<rparr>, \<lparr>fo_key = 6, fo_data = 60\<rparr>, \<lparr>fo_key = 4, fo_data = 41\<rparr>], []]\<rparr>"

theorem fanout_stacks_witness:
  "(\<exists>t'. fanout_add True fo_example 4 (Some 42) = Some (0, t') \<and> fo_wf t'
      \<and> fo_stack t' = (fo_stack fo_example)(4 := 42 # fo_stack fo_example 4))
    \<and> fanout_get fo_example 4 = Some (case fo_stack fo_example 4 of [] \<Rightarrow> None | y # _ \<Rightarrow> Some y)
    \<and> (\<exists>t'. fanout_remove fo_example 4 = Some (case fo_stack fo_example 4 of [] \<Rightarrow> None | y # _ \<Rightarrow> Some y, t')
      \<and> fo_wf t' \<and> fo_stack t' = (fo_stack fo_example)(4 := tl (fo_stack fo_example 4)))"
  by (rule fanout_stacks) (auto simp: fo_wf_def fo_example_def fo.homed_def less_2_cases_iff simp flip: numeral_2_eq_2)

end
