(* ===== verification/Dkhash.thy ===== *)
theory Dkhash
  imports Chains
begin

text \<open>
  The double-keyed hash table of \<open>lib/dkhash.c\<close>, in which hosts, services and all other named
  objects are looked up.  A key is a string or a pair of strings; strings are lists of
  \<open>char\<close> without the terminating null.  The hash is 32-bit arithmetic that wraps.
  The number of buckets, rounded up to a power of two by \<open>rup2pof2\<close>, is a machine word
  until it becomes the length of the array.
\<close>

abbreviation (input) DKHASH_OK :: c_int where "DKHASH_OK \<equiv> 0"
abbreviation (input) DKHASH_EDUPE :: c_int where "DKHASH_EDUPE \<equiv> - 1"
abbreviation (input) DKHASH_ENOMEM :: c_int where "DKHASH_ENOMEM \<equiv> - 12"
abbreviation (input) DKHASH_EINVAL :: c_int where "DKHASH_EINVAL \<equiv> - 22"
abbreviation (input) DKHASH_WALK_REMOVE :: c_int where "DKHASH_WALK_REMOVE \<equiv> 1"

section \<open>State\<close>

record 'd dkhash_bucket =
  dk_key :: string
  dk_key2 :: "string option"
  dk_data :: 'd

record 'd dkhash_table =
  buckets :: "'d dkhash_bucket list list"
  num_buckets :: nat
  added :: nat
  removed :: nat
  entries :: nat
  max_entries :: nat
  collisions :: nat

definition dkhash_collisions :: "'d dkhash_table option \<Rightarrow> nat" where
  "dkhash_collisions t = (case t of None \<Rightarrow> 0 | Some h \<Rightarrow> collisions h)"
definition dkhash_num_entries :: "'d dkhash_table option \<Rightarrow> nat" where
  "dkhash_num_entries t = (case t of None \<Rightarrow> 0 | Some h \<Rightarrow> entries h)"
definition dkhash_num_entries_max :: "'d dkhash_table option \<Rightarrow> nat" where
  "dkhash_num_entries_max t = (case t of None \<Rightarrow> 0 | Some h \<Rightarrow> max_entries h)"
definition dkhash_num_entries_added :: "'d dkhash_table option \<Rightarrow> nat" where
  "dkhash_num_entries_added t = (case t of None \<Rightarrow> 0 | Some h \<Rightarrow> added h)"
definition dkhash_num_entries_removed :: "'d dkhash_table option \<Rightarrow> nat" where
  "dkhash_num_entries_removed t = (case t of None \<Rightarrow> 0 | Some h \<Rightarrow> removed h)"
definition dkhash_table_size :: "'d dkhash_table option \<Rightarrow> nat" where
  "dkhash_table_size t = (case t of None \<Rightarrow> 0 | Some h \<Rightarrow> num_buckets h)"

section \<open>Hashing\<close>

definition PRIME :: u32 where "PRIME = 509"

definition hash :: "string \<Rightarrow> u32" where
  "hash k = fold (\<lambda>c h. char_val c + PRIME * h) k 0x123"

definition dkhash_slot :: "nat \<Rightarrow> string \<times> string option \<Rightarrow> nat" where
  "dkhash_slot n k =
    (let h = hash (fst k);
         h = (case snd k of None \<Rightarrow> h | Some k2 \<Rightarrow> h XOR hash k2)
     in unat h mod n)"

definition rup2pof2 :: "u32 \<Rightarrow> u32" where
  "rup2pof2 r0 =
    (let r = r0 - 1 in
     if r = 0 then 2
     else let r = r OR drop_bit 1 r;
              r = r OR drop_bit 2 r;
              r = r OR drop_bit 4 r;
              r = r OR drop_bit 8 r;
              r = r OR drop_bit 16 r
          in r + 1)"

section \<open>Operations\<close>

definition dkhash_get_bucket :: "'d dkhash_table \<Rightarrow> string \<Rightarrow> nat \<Rightarrow> 'd dkhash_bucket option ub" where
  "dkhash_get_bucket t key slot = do {
     chain \<leftarrow> arr_get (buckets t) slot;
     Some (find (\<lambda>b. dk_key b = key) chain)
   }"

definition dkhash_get_bucket2 :: "'d dkhash_table \<Rightarrow> string \<Rightarrow> string \<Rightarrow> nat \<Rightarrow> 'd dkhash_bucket option ub" where
  "dkhash_get_bucket2 t k1 k2 slot = do {
     chain \<leftarrow> arr_get (buckets t) slot;
     Some (find (\<lambda>b. dk_key b = k1 \<and> dk_key2 b = Some k2) chain)
   }"

definition dkhash_find :: "'d dkhash_table \<Rightarrow> string \<Rightarrow> string option \<Rightarrow> 'd dkhash_bucket option ub" where
  "dkhash_find t k1 k2 =
    (let slot = dkhash_slot (num_buckets t) (k1, k2) in
     case k2 of None \<Rightarrow> dkhash_get_bucket t k1 slot
     | Some k \<Rightarrow> dkhash_get_bucket2 t k1 k slot)"

definition dkhash_insert :: "bool \<Rightarrow> 'd dkhash_table option \<Rightarrow> string option \<Rightarrow> string option \<Rightarrow> 'd
    \<Rightarrow> (c_int \<times> 'd dkhash_table option) ub" where
  "dkhash_insert m to k1o k2 data =
    (case (to, k1o) of
       (Some t, Some k1) \<Rightarrow> do {
         bkt \<leftarrow> dkhash_find t k1 k2;
         (if bkt \<noteq> None then Some (DKHASH_EDUPE, to)
          else if \<not> m then Some (DKHASH_ENOMEM, to)
          else do {
            let slot = dkhash_slot (num_buckets t) (k1, k2);
            chain \<leftarrow> arr_get (buckets t) slot;
            bs \<leftarrow> arr_set (buckets t) slot (\<lparr>dk_key = k1, dk_key2 = k2, dk_data = data\<rparr> # chain);
            Some (DKHASH_OK, Some (t\<lparr>buckets := bs,
              collisions := (if chain \<noteq> [] then collisions t + 1 else collisions t),
              added := added t + 1,
              entries := entries t + 1,
              max_entries := (if entries t + 1 > max_entries t then entries t + 1 else max_entries t)\<rparr>))
          })
       }
     | _ \<Rightarrow> Some (DKHASH_EINVAL, to))"

definition dkhash_get :: "'d dkhash_table option \<Rightarrow> string option \<Rightarrow> string option \<Rightarrow> 'd option ub" where
  "dkhash_get to k1o k2 =
    (case (to, k1o) of
       (Some t, Some k1) \<Rightarrow> map_option (map_option dk_data) (dkhash_find t k1 k2)
     | _ \<Rightarrow> Some None)"

text \<open>\<open>(double)sz / (double)size < 1.4\<close> is compared exactly: the quotient is never within
  rounding distance of 1.4, because its numerator is a power of two.\<close>

definition dkhash_create :: "bool \<Rightarrow> bool \<Rightarrow> u32 \<Rightarrow> 'd dkhash_table option" where
  "dkhash_create m1 m2 sz0 =
    (if sz0 = 0 then None
     else if \<not> m1 then None
     else let sz = rup2pof2 sz0;
              sz = (if 10 * unat sz < 14 * unat sz0 then rup2pof2 (sz + 1) else sz)
       in if \<not> m2 then None
          else Some \<lparr>buckets = replicate (unat sz) [], num_buckets = unat sz, added = 0, removed = 0,
                 entries = 0, max_entries = 0, collisions = 0\<rparr>)"

text \<open>The search of \<open>dkhash_remove\<close>: \<open>strcmp\<close> with a null second key is undefined.\<close>

fun remove_search :: "string \<Rightarrow> string option \<Rightarrow> 'd dkhash_bucket list
    \<Rightarrow> ('d dkhash_bucket \<times> 'd dkhash_bucket list) option ub" where
  "remove_search k1 k2 [] = Some None"
| "remove_search k1 k2 (b # bs) =
    (let skip = map_option (map_option (\<lambda>(x, xs). (x, b # xs))) (remove_search k1 k2 bs) in
     if dk_key b \<noteq> k1 then skip
     else case (k2, dk_key2 b) of
       (None, None) \<Rightarrow> Some (Some (b, bs))
     | (Some a, Some c) \<Rightarrow> if a = c then Some (Some (b, bs)) else skip
     | _ \<Rightarrow> None)"

definition dkhash_remove :: "'d dkhash_table option \<Rightarrow> string option \<Rightarrow> string option
    \<Rightarrow> ('d option \<times> 'd dkhash_table option) ub" where
  "dkhash_remove to k1o k2 =
    (case (to, k1o) of
       (Some t, Some k1) \<Rightarrow> do {
         let slot = dkhash_slot (num_buckets t) (k1, k2);
         chain \<leftarrow> arr_get (buckets t) slot;
         r \<leftarrow> remove_search k1 k2 chain;
         (case r of None \<Rightarrow> Some (None, to)
          | Some (b, chain') \<Rightarrow> do {
              bs \<leftarrow> arr_set (buckets t) slot chain';
              Some (Some (dk_data b), Some (t\<lparr>buckets := bs, entries := entries t - 1, removed := removed t + 1\<rparr>))
            })
       }
     | _ \<Rightarrow> Some (None, to))"

text \<open>The walker returns a code and may change the state \<open>'s\<close> of the caller.\<close>

fun walk_chain :: "('s \<Rightarrow> 'd \<Rightarrow> c_int \<times> 's) \<Rightarrow> 's \<Rightarrow> 'd dkhash_bucket list \<Rightarrow> 's \<times> 'd dkhash_bucket list" where
  "walk_chain w s [] = (s, [])"
| "walk_chain w s (b # bs) =
    (let (r, s') = w s (dk_data b); (s'', bs') = walk_chain w s' bs in
     if r \<noteq> DKHASH_WALK_REMOVE then (s'', b # bs') else (s'', bs'))"

fun walk_table :: "('s \<Rightarrow> 'd \<Rightarrow> c_int \<times> 's) \<Rightarrow> 's \<Rightarrow> 'd dkhash_bucket list list \<Rightarrow> 's \<times> 'd dkhash_bucket list list" where
  "walk_table w s [] = (s, [])"
| "walk_table w s (c # cs) =
    (let (s', c') = walk_chain w s c; (s'', cs') = walk_table w s' cs in (s'', c' # cs'))"

definition dkhash_walk_data :: "('s \<Rightarrow> 'd \<Rightarrow> c_int \<times> 's) \<Rightarrow> 's \<Rightarrow> 'd dkhash_table \<Rightarrow> 's \<times> 'd dkhash_table" where
  "dkhash_walk_data w s t =
    (if entries t = 0 then (s, t)
     else let (s', bs) = walk_table w s (buckets t);
              n = length (concat (buckets t)) - length (concat bs)
          in (s', t\<lparr>buckets := bs, removed := removed t + n, entries := entries t - n\<rparr>))"

section \<open>Rounding up to a power of two\<close>

lemma bit_smear: "bit ((x :: u32) OR drop_bit m x) i \<longleftrightarrow> bit x i \<or> bit x (i + m)"
  by (simp add: bit_or_iff bit_drop_bit_eq add.commute)

text \<open>After the five steps a bit is on exactly if it or a higher one was on before.\<close>

lemma smear_all:
  fixes x :: u32
  defines "r1 \<equiv> x OR drop_bit 1 x"
  defines "r2 \<equiv> r1 OR drop_bit 2 r1"
  defines "r4 \<equiv> r2 OR drop_bit 4 r2"
  defines "r8 \<equiv> r4 OR drop_bit 8 r4"
  shows "bit (r8 OR drop_bit 16 r8) i \<longleftrightarrow> (\<exists>j < 32. bit x (i + j))"
proof -
  have step: "(\<exists>j < m. bit x (i + j)) \<or> (\<exists>j < m. bit x (i + m + j)) \<longleftrightarrow> (\<exists>j < m + m. bit x (i + j))" for m i
    by (auto simp: add.assoc) (metis add_less_cancel_left le_Suc_ex not_less trans_less_add2)+
  have b1: "bit r1 i \<longleftrightarrow> (\<exists>j < 2. bit x (i + j))" for i
    unfolding r1_def bit_smear by (auto simp: less_2_cases_iff)
  have b2: "bit r2 i \<longleftrightarrow> (\<exists>j < 4. bit x (i + j))" for i
    unfolding r2_def bit_smear b1 using step [of 2 i] by simp
  have b4: "bit r4 i \<longleftrightarrow> (\<exists>j < 8. bit x (i + j))" for i
    unfolding r4_def bit_smear b2 using step [of 4 i] by simp
  have b8: "bit r8 i \<longleftrightarrow> (\<exists>j < 16. bit x (i + j))" for i
    unfolding r8_def bit_smear b4 using step [of 8 i] by simp
  show ?thesis unfolding bit_smear b8 using step [of 16 i] by simp
qed

lemma drop_bit_zero_iff: "drop_bit i (x :: u32) = 0 \<longleftrightarrow> unat x < 2 ^ i"
proof -
  have "drop_bit i x = 0 \<longleftrightarrow> unat (drop_bit i x) = 0" by (simp only: unat_eq_zero)
  also have "unat (drop_bit i x) = unat x div 2 ^ i"
    using drop_bit_eq_div [of i "unat x"] by (simp only: unat_drop_bit_eq)
  finally show ?thesis by (simp add: div_eq_0_iff)
qed

lemma smear_iff: "(\<exists>j < 32. bit (x :: u32) (i + j)) \<longleftrightarrow> 2 ^ i \<le> unat x"
proof -
  have d: "bit (drop_bit i x) j \<longleftrightarrow> bit x (i + j)" for j by (simp add: bit_drop_bit_eq)
  have "bit x (i + j) \<Longrightarrow> j < 32" for j using bit_imp_le_length [of x "i + j"] by simp
  then have "(\<exists>j < 32. bit x (i + j)) \<longleftrightarrow> (\<exists>j. bit (drop_bit i x) j)" unfolding d by blast
  also have "\<dots> \<longleftrightarrow> drop_bit i x \<noteq> 0"
    using bit_imp_le_length [of "drop_bit i x"] by (auto simp: bit_eq_iff)
  finally show ?thesis by (simp add: drop_bit_zero_iff not_less)
qed

lemma rup2pof2_power:
  assumes "1 < unat r" "unat r \<le> 2 ^ 31"
  shows "\<exists>k \<le> 31. unat (rup2pof2 r) = 2 ^ k \<and> unat r \<le> 2 ^ k \<and> 2 ^ k < 2 * unat r"
proof -
  define x where "x = r - 1"
  have x: "unat x = unat r - 1" using assms by (simp add: x_def unat_sub word_le_nat_alt)
  then have "1 \<le> unat x" using assms(1) by linarith
  from ex_power_ivl1 [OF _ this, of 2] obtain n where n: "2 ^ n \<le> unat x" "unat x < 2 ^ (n + 1)" by auto
  have "(2 :: nat) ^ n < 2 ^ 31" using n(1) x assms by simp
  then have n31: "n < 31" by (simp only: power_strict_increasing_iff)
  have x0: "x \<noteq> 0" using n(1) by (auto simp: x_def)
  define s where "s = rup2pof2 r - 1"
  have s: "bit s i \<longleftrightarrow> 2 ^ i \<le> unat x" for i
    using x0 smear_all [of x i] unfolding smear_iff s_def rup2pof2_def by (simp add: Let_def x_def)
  have "s = mask (n + 1)"
  proof (rule bit_word_eqI)
    fix i assume "i < LENGTH(32)"
    have "2 ^ i \<le> unat x \<longleftrightarrow> i < n + 1"
    proof
      assume "2 ^ i \<le> unat x"
      then have "(2 :: nat) ^ i < 2 ^ (n + 1)" using n(2) by (rule le_less_trans)
      then show "i < n + 1" by (simp only: power_strict_increasing_iff)
    next
      assume "i < n + 1"
      then have "(2 :: nat) ^ i \<le> 2 ^ n" by (intro power_increasing) auto
      with n(1) show "2 ^ i \<le> unat x" by (rule order_trans [rotated])
    qed
    with n31 \<open>i < LENGTH(32)\<close> show "bit s i \<longleftrightarrow> bit (mask (n + 1) :: u32) i"
      by (simp add: s bit_mask_iff)
  qed
  then have "rup2pof2 r = 2 ^ (n + 1)"
    by (simp add: s_def mask_eq_exp_minus_1)
  moreover have "unat (2 ^ (n + 1) :: u32) = 2 ^ (n + 1)"
    using n31 by (intro unat_exp) simp
  ultimately have "unat (rup2pof2 r) = 2 ^ (n + 1)" by simp
  moreover have "unat r \<le> 2 ^ (n + 1)" "2 ^ (n + 1) < 2 * unat r" using n x assms by auto
  ultimately show ?thesis using n31 by (intro exI [of _ "n + 1"]) simp
qed

lemma rup2pof2_one: "rup2pof2 1 = 2"
  by (simp add: rup2pof2_def)

section \<open>A finite map\<close>

interpretation dk: chained dkhash_slot "\<lambda>b. (dk_key b, dk_key2 b)"
  by unfold_locales (simp add: dkhash_slot_def Let_def)

text \<open>All tables of the program are uniform: all their keys are single strings, or all are pairs.\<close>

definition dk_wf :: "bool \<Rightarrow> 'd dkhash_table \<Rightarrow> bool" where
  "dk_wf two t \<longleftrightarrow> length (buckets t) = num_buckets t \<and> 0 < num_buckets t \<and> dk.homed (buckets t)
     \<and> entries t = length (concat (buckets t)) \<and> (\<forall>k. length (dk.entries_for (buckets t) k) \<le> 1)
     \<and> (\<forall>c \<in> set (buckets t). \<forall>b \<in> set c. (dk_key2 b \<noteq> None) = two)"

definition dk_map :: "'d dkhash_table \<Rightarrow> string \<times> string option \<Rightarrow> 'd option" where
  "dk_map t k = map_option dk_data (case dk.entries_for (buckets t) k of [] \<Rightarrow> None | b # _ \<Rightarrow> Some b)"

lemma dkhash_create_spec:
  assumes "0 < sz" "unat sz \<le> 2 ^ 30"
  shows "\<exists>t k. dkhash_create True True sz = Some t \<and> num_buckets t = 2 ^ k \<and> 14 * unat sz \<le> 10 * num_buckets t
    \<and> dk_wf two t \<and> dk_map t = Map.empty"
proof -
  define s1 where "s1 = rup2pof2 sz"
  define s2 where "s2 = (if 10 * unat s1 < 14 * unat sz then rup2pof2 (s1 + 1) else s1)"
  have pos: "0 < unat sz" using assms(1) by (simp add: word_less_nat_alt)
  have p1: "\<exists>k \<le> 31. unat s1 = 2 ^ k \<and> unat sz \<le> 2 ^ k"
  proof (cases "unat sz = 1")
    case True
    then have "sz = 1" by (metis unat_1 word_unat_eq_iff)
    then show ?thesis by (intro exI [of _ 1]) (simp add: s1_def rup2pof2_one)
  next
    case False
    with pos have "1 < unat sz" "unat sz \<le> 2 ^ 31" using assms(2) by simp_all
    from rup2pof2_power [OF this] show ?thesis by (auto simp: s1_def)
  qed
  have p2: "\<exists>k. unat s2 = 2 ^ k \<and> 14 * unat sz \<le> 10 * unat s2"
  proof (cases "10 * unat s1 < 14 * unat sz")
    case True
    then have "unat s1 < 2 ^ 31" using assms(2) by simp
    then have s1: "unat (s1 + 1) = unat s1 + 1" by (simp add: unat_plus_if')
    have "1 < unat (s1 + 1)" "unat (s1 + 1) \<le> 2 ^ 31"
      using p1 pos \<open>unat s1 < 2 ^ 31\<close> unfolding s1 by (auto simp: Suc_le_eq)
    from rup2pof2_power [OF this] obtain k where k: "unat (rup2pof2 (s1 + 1)) = 2 ^ k" "unat s1 + 1 \<le> 2 ^ k"
      unfolding s1 by blast
    obtain k1 where k1: "unat s1 = 2 ^ k1" "unat sz \<le> 2 ^ k1" using p1 by blast
    have "(2 :: nat) ^ k1 < 2 ^ k" using k(2) unfolding k1(1) by (simp only: Suc_eq_plus1 [symmetric] Suc_le_eq)
    then have "k1 < k" by (simp only: power_strict_increasing_iff)
    then have "(2 :: nat) ^ (k1 + 1) \<le> 2 ^ k" by (intro power_increasing) auto
    with k k1 True show ?thesis by (auto simp: s2_def)
  next
    case False
    with p1 show ?thesis by (auto simp: s2_def)
  qed
  then have n: "0 < unat s2" by auto
  have "dkhash_create True True sz = Some \<lparr>buckets = replicate (unat s2) [], num_buckets = unat s2, added = 0,
      removed = 0, entries = 0, max_entries = 0, collisions = 0\<rparr>"
    using assms(1) by (simp add: dkhash_create_def Let_def s1_def s2_def)
  with p2 n show ?thesis
    by (auto simp: dk_wf_def dk_map_def dk.homed_replicate dk.entries_for_replicate fun_eq_iff)
qed

lemma dkhash_find_spec:
  assumes "dk_wf two t" "(k2 \<noteq> None) = two"
  shows "dkhash_find t k1 k2 = Some (case dk.entries_for (buckets t) (k1, k2) of [] \<Rightarrow> None | b # _ \<Rightarrow> Some b)"
proof -
  let ?s = "dkhash_slot (num_buckets t) (k1, k2)"
  have s: "?s < length (buckets t)" using assms dk.slot_less by (auto simp: dk_wf_def)
  have len: "length (buckets t) = num_buckets t" using assms(1) by (simp add: dk_wf_def)
  have u: "b \<in> set (buckets t ! ?s) \<Longrightarrow> (dk_key2 b \<noteq> None) = two" for b
    using assms(1) nth_mem [OF s] by (simp add: dk_wf_def)
  have "filter (\<lambda>b. dk_key b = k1) (buckets t ! ?s) = filter (\<lambda>b. (dk_key b, dk_key2 b) = (k1, k2)) (buckets t ! ?s)"
    if "k2 = None" using u that assms(2) by (intro filter_cong) auto
  then show ?thesis
    using s by (cases k2) (simp_all add: dkhash_find_def dkhash_get_bucket_def dkhash_get_bucket2_def
        find_filter dk.entries_for_def len)
qed

lemma remove_search_unlink:
  assumes "\<forall>b \<in> set bs. (dk_key2 b \<noteq> None) = (k2 \<noteq> None)"
  shows "remove_search k1 k2 bs = Some (unlink (\<lambda>b. (dk_key b, dk_key2 b) = (k1, k2)) bs)"
  using assms by (induction bs) (auto simp: Let_def split: option.splits)

lemma dkhash_get_spec:
  assumes "dk_wf two t" "(k2 \<noteq> None) = two"
  shows "dkhash_get (Some t) (Some k1) k2 = Some (dk_map t (k1, k2))"
  using dkhash_find_spec [OF assms, of k1] by (simp add: dkhash_get_def dk_map_def)

lemma dkhash_insert_spec:
  assumes wf: "dk_wf two t" and k: "(k2 \<noteq> None) = two"
  shows "if dk_map t (k1, k2) \<noteq> None
    then dkhash_insert True (Some t) (Some k1) k2 x = Some (DKHASH_EDUPE, Some t)
    else \<exists>t'. dkhash_insert True (Some t) (Some k1) k2 x = Some (DKHASH_OK, Some t') \<and> dk_wf two t'
      \<and> dk_map t' = (dk_map t)((k1, k2) \<mapsto> x) \<and> entries t' = entries t + 1"
proof (cases "dk.entries_for (buckets t) (k1, k2)")
  case Nil
  let ?e = "\<lparr>dk_key = k1, dk_key2 = k2, dk_data = x\<rparr>" and ?s = "dkhash_slot (num_buckets t) (k1, k2)"
  have n: "length (buckets t) = num_buckets t" "buckets t \<noteq> []" "?s < length (buckets t)" "dk.homed (buckets t)"
    using wf dk.slot_less by (auto simp: dk_wf_def)
  define bs where "bs = (buckets t)[?s := ?e # buckets t ! ?s]"
  have push: "bs = (buckets t)[dkhash_slot (length (buckets t)) (dk_key ?e, dk_key2 ?e) :=
      ?e # buckets t ! dkhash_slot (length (buckets t)) (dk_key ?e, dk_key2 ?e)]" by (simp add: bs_def n)
  have ent: "dk.entries_for bs q = (if q = (k1, k2) then [?e] else dk.entries_for (buckets t) q)" for q
    unfolding push dk.entries_for_push [OF n(2)] using Nil by simp
  have "mset (concat bs) + mset (buckets t ! ?s) = mset (concat (buckets t)) + mset (?e # buckets t ! ?s)"
    unfolding bs_def by (rule mset_concat_update [OF n(3)])
  from arg_cong [OF this, of size] have len: "length (concat bs) = Suc (length (concat (buckets t)))"
    by (simp only: size_union size_mset length_Cons)
  have uni: "\<forall>c \<in> set bs. \<forall>b \<in> set c. (dk_key2 b \<noteq> None) = two"
  proof (intro ballI)
    fix c b assume "c \<in> set bs" "b \<in> set c"
    then have "b = ?e \<or> (\<exists>c \<in> set (buckets t). b \<in> set c)"
      using set_update_subset_insert [of "buckets t"] nth_mem [OF n(3)] by (fastforce simp: bs_def)
    with wf k show "(dk_key2 b \<noteq> None) = two" unfolding dk_wf_def by fastforce
  qed
  have "dk.homed bs" unfolding push by (rule dk.homed_push [OF n(4,2)])
  moreover have "dkhash_find t k1 k2 = Some None" using dkhash_find_spec [OF wf k, of k1] Nil by simp
  ultimately show ?thesis
    using wf n len uni ent Nil length_list_update [of "buckets t" ?s "?e # buckets t ! ?s"]
    by (auto simp: dkhash_insert_def dk_wf_def dk_map_def fun_eq_iff simp flip: bs_def)
next
  case (Cons b bs)
  with dkhash_find_spec [OF wf k, of k1] show ?thesis by (simp add: dkhash_insert_def dk_map_def)
qed

lemma dkhash_remove_spec:
  assumes wf: "dk_wf two t" and k: "(k2 \<noteq> None) = two"
  shows "\<exists>t'. dkhash_remove (Some t) (Some k1) k2 = Some (dk_map t (k1, k2), Some t') \<and> dk_wf two t'
    \<and> dk_map t' = (dk_map t)((k1, k2) := None)
    \<and> entries t = entries t' + (if dk_map t (k1, k2) = None then 0 else 1)"
proof -
  let ?s = "dkhash_slot (num_buckets t) (k1, k2)" and ?P = "\<lambda>b. (dk_key b, dk_key2 b) = (k1, k2)"
  have n: "length (buckets t) = num_buckets t" "buckets t \<noteq> []" "?s < length (buckets t)" "dk.homed (buckets t)"
    using wf dk.slot_less by (auto simp: dk_wf_def)
  have "\<forall>b \<in> set (buckets t ! ?s). (dk_key2 b \<noteq> None) = (k2 \<noteq> None)"
    using wf k nth_mem [OF n(3)] by (simp add: dk_wf_def)
  note rs = remove_search_unlink [OF this, of k1]
  show ?thesis
  proof (cases "unlink ?P (buckets t ! ?s)")
    case None
    then have "dk_map t (k1, k2) = None" by (simp add: unlink_None dk.entries_for_def dk_map_def n(1))
    with None rs n wf show ?thesis
      by (intro exI [of _ t]) (auto simp: dkhash_remove_def fun_eq_iff)
  next
    case (Some r)
    obtain e es where r: "r = (e, es)" by fastforce
    note u = Some [unfolded r]
    then have u': "unlink ?P (buckets t ! dkhash_slot (length (buckets t)) (k1, k2)) = Some (e, es)" by (simp add: n(1))
    define bs where "bs = (buckets t)[?s := es]"
    note un = dk.entries_for_unlink [OF n(2) u']
    have one: "dk.entries_for (buckets t) (k1, k2) = [e]"
    proof -
      have "length (dk.entries_for (buckets t) (k1, k2)) \<le> 1" using wf by (simp add: dk_wf_def)
      with un(2,3) show ?thesis by (cases "dk.entries_for (buckets t) (k1, k2)") auto
    qed
    have ent: "dk.entries_for bs q = (if q = (k1, k2) then [] else dk.entries_for (buckets t) q)" for q
      using un(1) [of q] one by (simp add: bs_def n(1))
    have home: "dk.homed bs" unfolding bs_def by (rule dk.homed_unlink [OF n(4,2) u n(3)])
    have ms: "mset (buckets t ! ?s) = add_mset e (mset es)" using unlink_Some [OF u] by simp
    have "mset (concat bs) + mset (buckets t ! ?s) = mset (concat (buckets t)) + mset es"
      unfolding bs_def by (rule mset_concat_update [OF n(3)])
    from arg_cong [OF this, of size] have len: "length (concat (buckets t)) = Suc (length (concat bs))"
      unfolding ms by (simp only: size_union size_mset size_add_mset)
    have sub: "set es \<subseteq> set (buckets t ! ?s)" using arg_cong [OF ms, of set_mset] by auto
    have uni: "\<forall>c \<in> set bs. \<forall>b \<in> set c. (dk_key2 b \<noteq> None) = two"
    proof (intro ballI)
      fix c b assume "c \<in> set bs" "b \<in> set c"
      then have "\<exists>c \<in> set (buckets t). b \<in> set c"
        using set_update_subset_insert [of "buckets t"] nth_mem [OF n(3)] sub by (fastforce simp: bs_def)
      with wf show "(dk_key2 b \<noteq> None) = two" unfolding dk_wf_def by blast
    qed
    have rem: "dkhash_remove (Some t) (Some k1) k2 = Some (Some (dk_data e),
        Some (t\<lparr>buckets := bs, entries := entries t - 1, removed := removed t + 1\<rparr>))"
      using rs u n(3) by (simp add: dkhash_remove_def bs_def)
    have m: "dk_map t (k1, k2) = Some (dk_data e)" using one by (simp add: dk_map_def)
    show ?thesis
      unfolding rem m using wf n(1) len uni ent home
      by (auto simp: dk_wf_def dk_map_def fun_eq_iff bs_def [symmetric]) (simp add: bs_def)
  qed
qed

text \<open>A walker whose answer depends on the data only filters every chain, and is called once on
  every piece of data, in the order of the table.\<close>

lemma walk_chain_spec:
  assumes "\<And>s x. fst (w s x) = r x"
  shows "walk_chain w s bs = (fold (\<lambda>b s. snd (w s (dk_data b))) bs s, filter (\<lambda>b. r (dk_data b) \<noteq> DKHASH_WALK_REMOVE) bs)"
proof (induction bs arbitrary: s)
  case (Cons b bs)
  with assms [of s "dk_data b"] show ?case by (simp add: split_beta)
qed simp

lemma walk_table_spec:
  assumes "\<And>s x. fst (w s x) = r x"
  shows "walk_table w s cs = (fold (\<lambda>b s. snd (w s (dk_data b))) (concat cs) s,
    map (filter (\<lambda>b. r (dk_data b) \<noteq> DKHASH_WALK_REMOVE)) cs)"
  by (induction cs arbitrary: s) (simp_all add: walk_chain_spec [of w r, OF assms])

lemma dkhash_walk_spec:
  assumes wf: "dk_wf two t" and r: "\<And>s x. fst (w s x) = r x"
  shows "\<exists>t'. dkhash_walk_data w s t = (fold (\<lambda>x s. snd (w s x)) (map dk_data (concat (buckets t))) s, t')
    \<and> dk_wf two t' \<and> dk_map t' = (\<lambda>k. case dk_map t k of None \<Rightarrow> None
        | Some x \<Rightarrow> if r x = DKHASH_WALK_REMOVE then None else Some x)"
proof (cases "entries t = 0")
  case True
  then have all: "concat (buckets t) = []" using wf by (simp add: dk_wf_def)
  have "dk_map t k = None" for k
  proof -
    have "dkhash_slot (length (buckets t)) k < length (buckets t)"
      using wf by (intro dk.slot_less) (simp add: dk_wf_def)
    then have "buckets t ! dkhash_slot (length (buckets t)) k = []" using all by simp
    then show ?thesis by (simp add: dk_map_def dk.entries_for_def)
  qed
  moreover have "fold (\<lambda>x s. snd (w s x)) (map dk_data (concat (buckets t))) s = s" unfolding all by simp
  ultimately show ?thesis using True wf by (simp add: dkhash_walk_data_def fun_eq_iff)
next
  case False
  let ?keep = "\<lambda>b. r (dk_data b) \<noteq> DKHASH_WALK_REMOVE"
  define bs where "bs = map (filter ?keep) (buckets t)"
  have len: "length (concat bs) \<le> length (concat (buckets t))"
    by (simp add: bs_def filter_concat [symmetric])
  have ent: "dk.entries_for bs k = filter ?keep (dk.entries_for (buckets t) k)" for k
  proof -
    have "dkhash_slot (length (buckets t)) k < length (buckets t)"
      using wf by (intro dk.slot_less) (simp add: dk_wf_def)
    then show ?thesis by (simp add: dk.entries_for_def bs_def conj_commute)
  qed
  have run: "dkhash_walk_data w s t = (fold (\<lambda>x s. snd (w s x)) (map dk_data (concat (buckets t))) s,
      t\<lparr>buckets := bs, removed := removed t + (length (concat (buckets t)) - length (concat bs)),
        entries := entries t - (length (concat (buckets t)) - length (concat bs))\<rparr>)"
    using False walk_table_spec [of w r s "buckets t", OF r]
    by (simp add: dkhash_walk_data_def bs_def fold_map o_def Let_def)
  have one: "length (dk.entries_for bs k) \<le> 1" for k
    using wf length_filter_le [of ?keep "dk.entries_for (buckets t) k"] unfolding ent dk_wf_def
    by (meson order_trans)
  have home: "dk.homed bs" using wf by (auto simp: dk_wf_def dk.homed_def bs_def)
  have uni: "\<forall>c \<in> set bs. \<forall>b \<in> set c. (dk_key2 b \<noteq> None) = two"
  proof (intro ballI)
    fix c b assume "c \<in> set bs" "b \<in> set c"
    then have "\<exists>c \<in> set (buckets t). b \<in> set c" by (auto simp: bs_def)
    with wf show "(dk_key2 b \<noteq> None) = two" unfolding dk_wf_def by blast
  qed
  have "map_option dk_data (case dk.entries_for bs k of [] \<Rightarrow> None | b # _ \<Rightarrow> Some b) =
      (case dk_map t k of None \<Rightarrow> None | Some x \<Rightarrow> if r x = DKHASH_WALK_REMOVE then None else Some x)" for k
  proof -
    have "length (dk.entries_for (buckets t) k) \<le> 1" using wf unfolding dk_wf_def by blast
    then show ?thesis
      by (cases "dk.entries_for (buckets t) k") (simp_all add: ent dk_map_def)
  qed
  with wf run one home uni len show ?thesis
    by (auto simp: dk_wf_def dk_map_def fun_eq_iff bs_def [symmetric]) (simp_all add: bs_def)
qed

section \<open>Properties\<close>

text \<open>C33. On a table whose keys are all single strings, or all pairs, \<open>dkhash_get\<close>,
  \<open>dkhash_insert\<close> and \<open>dkhash_remove\<close> are lookup, insertion and removal of a finite map:
  inserting under a key that is there returns \<open>DKHASH_EDUPE\<close> and changes nothing, removing returns
  what was there, no other key is touched, and the entry counter stays exact.\<close>

theorem dkhash_is_map:
  assumes "dk_wf two t" "(k2 \<noteq> None) = two"
  shows "dkhash_get (Some t) (Some k1) k2 = Some (dk_map t (k1, k2))
    \<and> (if dk_map t (k1, k2) \<noteq> None
       then dkhash_insert True (Some t) (Some k1) k2 x = Some (DKHASH_EDUPE, Some t)
       else \<exists>t'. dkhash_insert True (Some t) (Some k1) k2 x = Some (DKHASH_OK, Some t') \<and> dk_wf two t'
         \<and> dk_map t' = (dk_map t)((k1, k2) \<mapsto> x) \<and> entries t' = entries t + 1)
    \<and> (\<exists>t'. dkhash_remove (Some t) (Some k1) k2 = Some (dk_map t (k1, k2), Some t') \<and> dk_wf two t'
         \<and> dk_map t' = (dk_map t)((k1, k2) := None)
         \<and> entries t = entries t' + (if dk_map t (k1, k2) = None then 0 else 1))"
  by (intro conjI dkhash_get_spec [OF assms] dkhash_insert_spec [OF assms] dkhash_remove_spec [OF assms])

definition dk_example :: "nat dkhash_table" where
  "dk_example = the (do {
     (_, t) \<leftarrow> dkhash_insert True (dkhash_create True True 2) (Some ''web'') (Some ''http'') 1;
     (_, t) \<leftarrow> dkhash_insert True t (Some ''web'') (Some ''ping'') 2;
     t
   })"

lemma dk_example_wf: "dk_wf True dk_example"
proof -
  obtain t0 :: "nat dkhash_table" where t0: "dkhash_create True True 2 = Some t0" "dk_wf True t0" "dk_map t0 = Map.empty"
    using dkhash_create_spec [of 2 True] by auto
  with dkhash_insert_spec [OF t0(2), of "Some ''http''" "''web''" 1] obtain t1
    where t1: "dkhash_insert True (Some t0) (Some ''web'') (Some ''http'') 1 = Some (DKHASH_OK, Some t1)"
    "dk_wf True t1" "dk_map t1 (''web'', Some ''ping'') = None" by auto
  with dkhash_insert_spec [OF t1(2), of "Some ''ping''" "''web''" 2] t0(1) show ?thesis
    by (auto simp: dk_example_def)
qed

theorem dkhash_is_map_witness:
  "dkhash_get (Some dk_example) (Some ''web'') (Some ''ping'') = Some (dk_map dk_example (''web'', Some ''ping''))
    \<and> (if dk_map dk_example (''web'', Some ''ping'') \<noteq> None
       then dkhash_insert True (Some dk_example) (Some ''web'') (Some ''ping'') 3 = Some (DKHASH_EDUPE, Some dk_example)
       else \<exists>t'. dkhash_insert True (Some dk_example) (Some ''web'') (Some ''ping'') 3 = Some (DKHASH_OK, Some t')
         \<and> dk_wf True t' \<and> dk_map t' = (dk_map dk_example)((''web'', Some ''ping'') \<mapsto> 3)
         \<and> entries t' = entries dk_example + 1)
    \<and> (\<exists>t'. dkhash_remove (Some dk_example) (Some ''web'') (Some ''ping'')
           = Some (dk_map dk_example (''web'', Some ''ping''), Some t')
         \<and> dk_wf True t' \<and> dk_map t' = (dk_map dk_example)((''web'', Some ''ping'') := None)
         \<and> entries dk_example = entries t' + (if dk_map dk_example (''web'', Some ''ping'') = None then 0 else 1))"
  by (rule dkhash_is_map [OF dk_example_wf]) simp

text \<open>\<open>dkhash_create\<close> for up to \<open>2\<^sup>3\<^sup>0\<close> entries makes an empty table whose number of
  buckets is a power of two and at least 1.4 times the number asked for.\<close>

theorem dkhash_create_sized:
  assumes "0 < sz" "unat sz \<le> 2 ^ 30"
  shows "\<exists>t k. dkhash_create True True sz = Some t \<and> num_buckets t = 2 ^ k \<and> 14 * unat sz \<le> 10 * num_buckets t
    \<and> dk_wf two t \<and> dk_map t = Map.empty"
  using assms by (rule dkhash_create_spec)

theorem dkhash_create_sized_witness:
  "\<exists>t k. (dkhash_create True True 100 :: nat dkhash_table option) = Some t \<and> num_buckets t = 2 ^ k
    \<and> 14 * unat (100 :: u32) \<le> 10 * num_buckets t \<and> dk_wf True t \<and> dk_map t = Map.empty"
  by (rule dkhash_create_sized) simp_all

text \<open>\<open>dkhash_walk_data\<close> calls the walker once on every piece of data of the table and
  removes exactly those it answers \<open>DKHASH_WALK_REMOVE\<close> for; no other answer, \<open>DKHASH_WALK_STOP\<close>
  included, has any effect.\<close>

theorem dkhash_walk_filters:
  assumes "dk_wf two t" "\<And>s x. fst (w s x) = r x"
  shows "\<exists>t'. dkhash_walk_data w s t = (fold (\<lambda>x s. snd (w s x)) (map dk_data (concat (buckets t))) s, t')
    \<and> dk_wf two t' \<and> dk_map t' = (\<lambda>k. case dk_map t k of None \<Rightarrow> None
        | Some x \<Rightarrow> if r x = DKHASH_WALK_REMOVE then None else Some x)"
  using assms by (rule dkhash_walk_spec)

theorem dkhash_walk_filters_witness:
  "\<exists>t'. dkhash_walk_data (\<lambda>s x. (if x = 2 then 1 else 2, x # s)) [] dk_example =
      (fold (\<lambda>x s. snd (if x = 2 then 1 else 2 :: c_int, x # s)) (map dk_data (concat (buckets dk_example))) [], t')
    \<and> dk_wf True t' \<and> dk_map t' = (\<lambda>k. case dk_map dk_example k of None \<Rightarrow> None
        | Some x \<Rightarrow> if (if x = 2 then 1 else 2) = DKHASH_WALK_REMOVE then None else Some x)"
  by (rule dkhash_walk_filters [OF dk_example_wf]) simp

end
