(* ===== verification/Timeperiods.thy ===== *)
theory Timeperiods
  imports Prelude Complex_Main
begin

text \<open>
  Time periods: the functions of \<open>base/utils.c\<close> that decide whether an instant lies in a
  time period and find the next instant that does or does not.

  Times are integers (seconds since the epoch).  The C library's calendar is not under
  \<open>src/\<close>: \<open>localtime\<close> and \<open>mktime\<close> are the parameter \<open>libc\<close>; \<open>utc\<close> is a concrete
  instance, the proleptic Gregorian calendar without daylight saving time, on which
  examples are evaluated.  A time period is the value its configuration resolves to, so
  that the exclusions, pointers to other periods, are its subterms (the configuration check
  rejects circular exclusions).  NULL, no period, is \<open>None\<close>.
\<close>

section \<open>Data\<close>

record tm =
  tm_sec :: int
  tm_min :: int
  tm_hour :: int
  tm_mday :: int
  tm_mon :: int
  tm_year :: int
  tm_wday :: int
  tm_isdst :: int

text \<open>\<open>mktime\<close> returns the time and writes the normalised fields back.\<close>

record libc =
  localtime :: "int \<Rightarrow> tm"
  mktime :: "tm \<Rightarrow> int \<times> tm"

record timerange =
  range_start :: int
  range_end :: int

record daterange =
  syear :: int
  smon :: int
  smday :: int
  swday :: int
  swday_offset :: int
  eyear :: int
  emon :: int
  emday :: int
  ewday :: int
  ewday_offset :: int
  skip_interval :: int
  dr_times :: "timerange list"

text \<open>The days of the week and the five kinds of exceptions are lists indexed from 0.\<close>

datatype timeperiod = Timeperiod
  (tp_name: string) (tp_days: "timerange list list") (tp_exceptions: "daterange list list")
  (tp_exclusions: "timeperiod list")

definition DATERANGE_CALENDAR_DATE :: nat where "DATERANGE_CALENDAR_DATE = 0"
definition DATERANGE_MONTH_DATE :: nat where "DATERANGE_MONTH_DATE = 1"
definition DATERANGE_MONTH_DAY :: nat where "DATERANGE_MONTH_DAY = 2"
definition DATERANGE_MONTH_WEEK_DAY :: nat where "DATERANGE_MONTH_WEEK_DAY = 3"
definition DATERANGE_WEEK_DAY :: nat where "DATERANGE_WEEK_DAY = 4"
definition DATERANGE_TYPES :: nat where "DATERANGE_TYPES = 5"

text \<open>Conversion to \<open>unsigned long\<close>.\<close>

definition ul :: "int \<Rightarrow> int" where "ul x = x mod 2 ^ 64"

section \<open>Calendar functions\<close>

definition is_dst_time :: "libc \<Rightarrow> int \<Rightarrow> int" where
  "is_dst_time lc t = tm_isdst (localtime lc t)"

definition get_dst_shift :: "libc \<Rightarrow> int \<Rightarrow> int \<Rightarrow> int" where
  "get_dst_shift lc s e =
    (let dst_start = is_dst_time lc s; dst_end = is_dst_time lc e in
     if dst_start < dst_end then 3600 else if dst_start > dst_end then - 3600 else 0)"

definition is_daterange_single_day :: "daterange \<Rightarrow> bool" where
  "is_daterange_single_day dr =
    (if syear dr \<noteq> eyear dr then False
     else if smon dr \<noteq> emon dr then False
     else if smday dr \<noteq> emday dr then False
     else if swday dr \<noteq> ewday dr then False
     else if swday_offset dr \<noteq> ewday_offset dr then False
     else True)"

text \<open>A date at midnight, with \<open>tm_isdst = -1\<close>.\<close>

definition date_tm :: "int \<Rightarrow> int \<Rightarrow> int \<Rightarrow> tm" where
  "date_tm year month mday = \<lparr>tm_sec = 0, tm_min = 0, tm_hour = 0, tm_mday = mday, tm_mon = month,
     tm_year = year, tm_wday = 0, tm_isdst = - 1\<rparr>"

text \<open>The loop for the last day of a month tries the days 31, 30, \dots; its first argument is the
  day to try.  Day 1 of a month is always in it, so that the loop ends before the recursion.\<close>

fun last_day_of_month :: "nat \<Rightarrow> libc \<Rightarrow> int \<Rightarrow> int \<Rightarrow> tm" where
  "last_day_of_month d lc year month =
    (let t = snd (mktime lc (date_tm year month (int d))) in
     if tm_mon t \<noteq> month \<and> d > 0 then last_day_of_month (d - 1) lc year month else t)"

declare last_day_of_month.simps [simp del]

definition calculate_time_from_day_of_month :: "libc \<Rightarrow> int \<Rightarrow> int \<Rightarrow> int \<Rightarrow> int" where
  "calculate_time_from_day_of_month lc year month monthday =
    (if monthday > 0 then
       (let (midnight, t) = mktime lc (date_tm year month monthday) in
        if tm_mon t \<noteq> month then 0 else midnight)
     else
       (let t = last_day_of_month 31 lc year month;
            (midnight, t') = mktime lc (t\<lparr>tm_mon := month, tm_year := year,
              tm_mday := tm_mday t + (if monthday < - 30 then - 30 else monthday + 1), tm_isdst := - 1\<rparr>)
        in if tm_mon t' \<noteq> month then 0 else midnight))"

text \<open>The loop for the last such weekday of a month starts with the fifth and goes back a week
  at a time; the first is always in the month.\<close>

fun last_weekday_of_month :: "nat \<Rightarrow> libc \<Rightarrow> int \<Rightarrow> int \<Rightarrow> int \<Rightarrow> tm \<Rightarrow> tm" where
  "last_weekday_of_month w lc year month days t =
    (let t' = snd (mktime lc (t\<lparr>tm_mon := month, tm_year := year, tm_mday := days + 7 * int w + 1,
                                  tm_isdst := - 1\<rparr>)) in
     if tm_mon t' \<noteq> month \<and> w > 0 then last_weekday_of_month (w - 1) lc year month days t' else t')"

declare last_weekday_of_month.simps [simp del]

definition calculate_time_from_weekday_of_month :: "libc \<Rightarrow> int \<Rightarrow> int \<Rightarrow> int \<Rightarrow> int \<Rightarrow> int" where
  "calculate_time_from_weekday_of_month lc year month weekday weekday_offset =
    (let t = snd (mktime lc (date_tm year month 1));
         days = weekday - tm_wday t;
         days = (if days < 0 then days + 7 else days)
     in if weekday_offset > 0 then
          (let weeks = (if weekday_offset > 5 then 5 else weekday_offset);
               (midnight, t') = mktime lc (t\<lparr>tm_mon := month, tm_year := year,
                 tm_mday := days + (weeks - 1) * 7 + 1, tm_isdst := - 1\<rparr>)
           in if tm_mon t' \<noteq> month then 0 else midnight)
        else
          (let t2 = last_weekday_of_month 4 lc year month days t;
               weeks = (if weekday_offset < - 5 then - 5 else weekday_offset);
               (midnight, t') = mktime lc (t2\<lparr>tm_mon := month, tm_year := year,
                 tm_mday := tm_mday t2 + (weeks + 1) * 7, tm_isdst := - 1\<rparr>)
           in if tm_mon t' \<noteq> month then 0 else midnight))"

section \<open>The time ranges of a day\<close>

definition midnight_of :: "libc \<Rightarrow> int \<Rightarrow> int" where
  "midnight_of lc t = fst (mktime lc ((localtime lc t)\<lparr>tm_sec := 0, tm_min := 0, tm_hour := 0\<rparr>))"

text \<open>The start and end of a date range for the day of the test time, with the year the end
  was looked for in.\<close>

definition daterange_start :: "libc \<Rightarrow> tm \<Rightarrow> nat \<Rightarrow> daterange \<Rightarrow> int" where
  "daterange_start lc t ty dr =
    (if ty = DATERANGE_CALENDAR_DATE then fst (mktime lc (date_tm (syear dr - 1900) (smon dr) (smday dr)))
     else if ty = DATERANGE_MONTH_DATE then calculate_time_from_day_of_month lc (tm_year t) (smon dr) (smday dr)
     else if ty = DATERANGE_MONTH_DAY then calculate_time_from_day_of_month lc (tm_year t) (tm_mon t) (smday dr)
     else if ty = DATERANGE_MONTH_WEEK_DAY
       then calculate_time_from_weekday_of_month lc (tm_year t) (smon dr) (swday dr) (swday_offset dr)
     else calculate_time_from_weekday_of_month lc (tm_year t) (tm_mon t) (swday dr) (swday_offset dr))"

definition daterange_end :: "libc \<Rightarrow> tm \<Rightarrow> nat \<Rightarrow> daterange \<Rightarrow> int \<Rightarrow> int \<times> int" where
  "daterange_end lc t ty dr start_time =
    (if ty = DATERANGE_CALENDAR_DATE
       then (fst (mktime lc (date_tm (eyear dr - 1900) (emon dr) (emday dr))), tm_year t)
     else if ty = DATERANGE_MONTH_DATE then
       (let e = calculate_time_from_day_of_month lc (tm_year t) (emon dr) (emday dr) in
        if e < start_time
        then (calculate_time_from_day_of_month lc (tm_year t + 1) (emon dr) (emday dr), tm_year t + 1)
        else (e, tm_year t))
     else if ty = DATERANGE_MONTH_DAY
       then (calculate_time_from_day_of_month lc (tm_year t) (tm_mon t) (emday dr), tm_year t)
     else if ty = DATERANGE_MONTH_WEEK_DAY then
       (let e = calculate_time_from_weekday_of_month lc (tm_year t) (emon dr) (ewday dr) (ewday_offset dr) in
        if e < start_time
        then (calculate_time_from_weekday_of_month lc (tm_year t + 1) (emon dr) (ewday dr) (ewday_offset dr),
              tm_year t + 1)
        else (e, tm_year t))
     else (calculate_time_from_weekday_of_month lc (tm_year t) (tm_mon t) (ewday dr) (ewday_offset dr), tm_year t))"

text \<open>What becomes of an end date that does not exist: \<open>None\<close> skips the date range.\<close>

definition daterange_end_fixed :: "libc \<Rightarrow> tm \<Rightarrow> nat \<Rightarrow> daterange \<Rightarrow> int \<Rightarrow> int \<Rightarrow> int option" where
  "daterange_end_fixed lc t ty dr end_time year =
    (if ul end_time \<noteq> 0 then Some end_time
     else if ty = DATERANGE_CALENDAR_DATE then None
     else if ty = DATERANGE_MONTH_DATE then
       (if emday dr < 0 then None else Some (calculate_time_from_day_of_month lc year (emon dr) (- 1)))
     else if ty = DATERANGE_MONTH_DAY then
       (if emday dr < 0 then None else Some (calculate_time_from_day_of_month lc (tm_year t) (tm_mon t) (- 1)))
     else if ty = DATERANGE_MONTH_WEEK_DAY then
       (if ewday_offset dr < 0 then None else Some (calculate_time_from_day_of_month lc year (tm_mon t) (- 1)))
     else
       (if ewday_offset dr < 0 then None
        else Some (calculate_time_from_day_of_month lc (tm_year t) (tm_mon t) (- 1))))"

definition daterange_matches :: "libc \<Rightarrow> int \<Rightarrow> nat \<Rightarrow> daterange \<Rightarrow> bool" where
  "daterange_matches lc test_time ty dr =
    (let t = localtime lc test_time;
         midnight = midnight_of lc test_time;
         start_time = daterange_start lc t ty dr;
         (end0, year) = daterange_end lc t ty dr start_time
     in if ul start_time = 0 then False
        else case daterange_end_fixed lc t ty dr end0 year of
          None \<Rightarrow> False
        | Some end_time \<Rightarrow>
            (let skipping = skip_interval dr > 1;
                 days = ul (get_dst_shift lc start_time midnight + ul midnight - ul start_time) div (3600 * 24)
             in if skipping \<and> start_time > test_time then False
                else if skipping \<and> days mod skip_interval dr \<noteq> 0 then False
                else
                  (let start_time' = (if skipping then midnight else start_time);
                       end_time' = (if skipping \<and> ty = DATERANGE_CALENDAR_DATE \<and> is_daterange_single_day dr
                                    then midnight else end_time)
                   in (ul (midnight + 84800) \<ge> ul start_time' \<and> (midnight \<le> end_time' \<or> start_time' > end_time'))
                      \<or> (midnight \<le> end_time' \<and> start_time' > end_time'))))"

text \<open>The first matching date range, the kinds in their order, or the ranges of the weekday.\<close>

definition all_dateranges :: "timeperiod \<Rightarrow> (nat \<times> daterange) list" where
  "all_dateranges tp =
    concat (map (\<lambda>(ty, drs). map (Pair ty) drs) (zip [0..<DATERANGE_TYPES] (tp_exceptions tp)))"

definition get_matching_timerange :: "libc \<Rightarrow> int \<Rightarrow> timeperiod option \<Rightarrow> timerange list" where
  "get_matching_timerange lc test_time tperiod =
    (case tperiod of None \<Rightarrow> []
     | Some tp \<Rightarrow>
       (case find (\<lambda>p. daterange_matches lc test_time (fst p) (snd p)) (all_dateranges tp) of
          Some p \<Rightarrow> dr_times (snd p)
        | None \<Rightarrow> tp_days tp ! nat (tm_wday (localtime lc test_time))))"

section \<open>Is a time valid?\<close>

definition in_range :: "int \<Rightarrow> int \<Rightarrow> timerange \<Rightarrow> bool" where
  "in_range midnight test_time r \<longleftrightarrow>
    test_time \<ge> midnight + range_start r \<and> test_time \<le> midnight + range_end r"

fun check_period :: "libc \<Rightarrow> int \<Rightarrow> timeperiod \<Rightarrow> bool" where
  "check_period lc test_time (Timeperiod nm days exc excl) =
    (if \<exists>x \<in> set excl. check_period lc test_time x then False
     else \<exists>r \<in> set (get_matching_timerange lc test_time (Some (Timeperiod nm days exc excl))).
       in_range (midnight_of lc test_time) test_time r)"

definition check_time_against_period :: "libc \<Rightarrow> int \<Rightarrow> timeperiod option \<Rightarrow> c_int" where
  "check_time_against_period lc test_time tperiod =
    (case tperiod of None \<Rightarrow> OK
     | Some tp \<Rightarrow> if check_period lc test_time tp then OK else ERROR)"

section \<open>The next valid and the next invalid time\<close>

text \<open>\<open>max_depth\<close>; the loops return how much of it is left with the time they reached, and a
  search that used it up falls back to the preferred time.\<close>

definition max_depth :: nat where "max_depth = 300"

definition settle :: "int \<Rightarrow> nat \<times> int \<Rightarrow> int" where
  "settle pref_time r = (if fst r = 0 then pref_time else snd r)"

text \<open>One pass over the ranges of a day; ranges with start and end zero are skipped.\<close>

definition zero_range :: "timerange \<Rightarrow> bool" where
  "zero_range r \<longleftrightarrow> range_start r = 0 \<and> range_end r = 0"

definition invalid_pass :: "int \<Rightarrow> timerange list \<Rightarrow> int \<Rightarrow> int" where
  "invalid_pass midnight rs earliest = fold (\<lambda>r earliest_time.
     if zero_range r then earliest_time
     else let s = midnight + range_start r; e = midnight + range_end r;
              potential_time = (if s \<le> earliest_time \<and> e > earliest_time then e + 60 else earliest_time)
          in if potential_time > earliest_time then potential_time else earliest_time) rs earliest"

definition valid_pass :: "int \<Rightarrow> timerange list \<Rightarrow> int \<Rightarrow> bool \<times> int" where
  "valid_pass midnight rs last_earliest = fold (\<lambda>r (have_earliest_time, earliest_time).
     let s = midnight + range_start r; e = midnight + range_end r in
     if zero_range r then (have_earliest_time, earliest_time)
     else if e < last_earliest then (have_earliest_time, earliest_time)
     else let potential_time = (if s \<ge> last_earliest then s else last_earliest)
          in (True, if \<not> have_earliest_time \<or> potential_time < earliest_time
                    then potential_time else earliest_time)) rs (False, last_earliest)"

function (sequential) valid_loop :: "libc \<Rightarrow> timeperiod \<Rightarrow> nat \<Rightarrow> int \<Rightarrow> int \<Rightarrow> nat \<times> int"
  and invalid_loop :: "libc \<Rightarrow> timeperiod \<Rightarrow> nat \<Rightarrow> int \<Rightarrow> int \<Rightarrow> nat \<times> int" where
  "valid_loop lc tp 0 last_earliest earliest = (0, earliest)"
| "valid_loop lc (Timeperiod nm days exc excl) (Suc fuel) last_earliest earliest =
    (if earliest = last_earliest then (Suc fuel, earliest)
     else
       (let midnight = midnight_of lc earliest;
            (have, e1) = valid_pass midnight
              (get_matching_timerange lc earliest (Some (Timeperiod nm days exc excl))) earliest;
            e2 = (if \<not> have then midnight + 86400
                  else fold (\<lambda>x e. settle e (invalid_loop lc x max_depth 0 e)) excl e1)
        in valid_loop lc (Timeperiod nm days exc excl) fuel earliest e2))"
| "invalid_loop lc tp 0 last_earliest earliest = (0, earliest)"
| "invalid_loop lc (Timeperiod nm days exc excl) (Suc fuel) last_earliest earliest =
    (if earliest = last_earliest then (Suc fuel, earliest)
     else
       (let e1 = invalid_pass (midnight_of lc earliest)
              (get_matching_timerange lc earliest (Some (Timeperiod nm days exc excl))) earliest;
            e2 = fold (\<lambda>x e. let potential_time = settle earliest (valid_loop lc x max_depth 0 earliest)
                             in if potential_time + 60 < e then potential_time + 60 else e) excl e1
        in invalid_loop lc (Timeperiod nm days exc excl) fuel earliest e2))"
  by pat_completeness auto
termination by lexicographic_order

definition get_next_valid_time_from :: "libc \<Rightarrow> int \<Rightarrow> timeperiod option \<Rightarrow> int" where
  "get_next_valid_time_from lc pref_time tperiod =
    (case tperiod of None \<Rightarrow> pref_time
     | Some tp \<Rightarrow> settle pref_time (valid_loop lc tp max_depth 0 pref_time))"

definition get_next_invalid_time_from :: "libc \<Rightarrow> int \<Rightarrow> timeperiod option \<Rightarrow> int" where
  "get_next_invalid_time_from lc pref_time tperiod =
    (case tperiod of None \<Rightarrow> pref_time
     | Some tp \<Rightarrow> settle pref_time (invalid_loop lc tp max_depth 0 pref_time))"

definition get_next_valid_time :: "libc \<Rightarrow> int \<Rightarrow> int \<Rightarrow> timeperiod option \<Rightarrow> int" where
  "get_next_valid_time lc current_time pref_time tperiod =
    get_next_valid_time_from lc (if pref_time < current_time then current_time else pref_time) tperiod"

text \<open>\<open>rand\<close> is the value of \<open>rand()\<close>, from 0 to \<open>RAND_MAX = 2\<^sup>3\<^sup>1 - 1\<close>; the product is
  taken exactly instead of in floating point.\<close>

definition ranged_urand :: "nat \<Rightarrow> int \<Rightarrow> int \<Rightarrow> int" where
  "ranged_urand rand low high =
    low mod 2 ^ 32 + (int rand * ((high - low) mod 2 ^ 32)) div 2 ^ 31"

definition reschedule_within_timeperiod :: "libc \<Rightarrow> nat \<Rightarrow> int \<Rightarrow> timeperiod option \<Rightarrow> int \<Rightarrow> int" where
  "reschedule_within_timeperiod lc rand starting_valid_time check_period_ptr check_window =
    (let ending_valid_time = get_next_invalid_time_from lc starting_valid_time check_period_ptr - 60;
         max_nudge = ending_valid_time - starting_valid_time;
         max_nudge = (if max_nudge \<le> 0 \<or> max_nudge > check_window then check_window else max_nudge)
     in starting_valid_time + ranged_urand rand 0 max_nudge)"

section \<open>Laws of a clock without changes of daylight saving time\<close>

text \<open>Every instant lies in a day of 86400 seconds, and the calendar is constant within a day.\<close>

definition day_law :: "libc \<Rightarrow> bool" where
  "day_law lc \<longleftrightarrow> (\<forall>t. midnight_of lc t \<le> t \<and> t < midnight_of lc t + 86400)
     \<and> (\<forall>t u. midnight_of lc t \<le> u \<longrightarrow> u < midnight_of lc t + 86400 \<longrightarrow>
          midnight_of lc u = midnight_of lc t \<and> tm_year (localtime lc u) = tm_year (localtime lc t)
          \<and> tm_mon (localtime lc u) = tm_mon (localtime lc t) \<and> tm_wday (localtime lc u) = tm_wday (localtime lc t))"

lemma day_bounds: "day_law lc \<Longrightarrow> midnight_of lc t \<le> t" "day_law lc \<Longrightarrow> t < midnight_of lc t + 86400"
  by (simp_all add: day_law_def)

lemma same_day:
  assumes "day_law lc" "midnight_of lc t \<le> u" "u < midnight_of lc t + 86400"
  shows "midnight_of lc u = midnight_of lc t" "tm_year (localtime lc u) = tm_year (localtime lc t)"
    "tm_mon (localtime lc u) = tm_mon (localtime lc t)" "tm_wday (localtime lc u) = tm_wday (localtime lc t)"
  using assms unfolding day_law_def by blast+

lemma next_midnight:
  assumes "day_law lc"
  shows "midnight_of lc (midnight_of lc t + 86400) = midnight_of lc t + 86400"
proof (rule ccontr)
  let ?m = "midnight_of lc t" and ?n = "midnight_of lc (midnight_of lc t + 86400)"
  assume "?n \<noteq> ?m + 86400"
  with day_bounds [OF assms, of "?m + 86400"] have n: "?m < ?n" "?n < ?m + 86400" by auto
  then have "midnight_of lc ?n = ?m" by (intro same_day(1) [OF assms]) auto
  moreover have "midnight_of lc ?n = ?n" by (intro same_day(1) [OF assms]) auto
  ultimately show False using n by simp
qed

lemma midnight_mono:
  assumes "day_law lc" "t \<le> u"
  shows "midnight_of lc t \<le> midnight_of lc u"
proof (rule ccontr)
  assume "\<not> midnight_of lc t \<le> midnight_of lc u"
  then have less: "midnight_of lc u < midnight_of lc t" by simp
  with day_bounds [OF assms(1), of t] day_bounds [OF assms(1), of u] assms(2)
  have "midnight_of lc t \<le> u" "u < midnight_of lc t + 86400" by linarith+
  from same_day(1) [OF assms(1) this] less show False by simp
qed

text \<open>Periods without exclusions and skip intervals whose ranges are parts of the day, not
  empty and not \<open>00:00-00:00\<close>.\<close>

definition good_range :: "timerange \<Rightarrow> bool" where
  "good_range r \<longleftrightarrow> 0 \<le> range_start r \<and> range_start r \<le> range_end r \<and> range_end r \<le> 86400 \<and> \<not> zero_range r"

definition plain_period :: "timeperiod \<Rightarrow> bool" where
  "plain_period tp \<longleftrightarrow> tp_exclusions tp = []
     \<and> (\<forall>drs \<in> set (tp_exceptions tp). \<forall>dr \<in> set drs. skip_interval dr \<le> 1 \<and> (\<forall>r \<in> set (dr_times dr). good_range r))
     \<and> length (tp_days tp) = 7 \<and> (\<forall>rs \<in> set (tp_days tp). \<forall>r \<in> set rs. good_range r)"

definition wday_law :: "libc \<Rightarrow> bool" where
  "wday_law lc \<longleftrightarrow> (\<forall>t. 0 \<le> tm_wday (localtime lc t) \<and> tm_wday (localtime lc t) < 7)"

lemma daterange_matches_same_day:
  assumes "day_law lc" "midnight_of lc t \<le> u" "u < midnight_of lc t + 86400" "skip_interval dr \<le> 1"
  shows "daterange_matches lc u ty dr = daterange_matches lc t ty dr"
proof -
  note d = same_day [OF assms(1-3)]
  have s: "daterange_start lc (localtime lc u) ty dr = daterange_start lc (localtime lc t) ty dr"
    by (simp add: daterange_start_def d)
  have e: "daterange_end lc (localtime lc u) ty dr x = daterange_end lc (localtime lc t) ty dr x" for x
    by (simp add: daterange_end_def d Let_def)
  have f: "daterange_end_fixed lc (localtime lc u) ty dr x y = daterange_end_fixed lc (localtime lc t) ty dr x y" for x y
    by (simp add: daterange_end_fixed_def d)
  have k: "(skip_interval dr > 1) = False" using assms(4) by simp
  show ?thesis
    unfolding daterange_matches_def Let_def s e f d(1) k simp_thms if_False ..
qed

lemma find_cong_set: "(\<And>x. x \<in> set xs \<Longrightarrow> P x = Q x) \<Longrightarrow> find P xs = find Q xs"
  by (induction xs) auto

lemma all_dateranges_in:
  "p \<in> set (all_dateranges tp) \<Longrightarrow> \<exists>drs \<in> set (tp_exceptions tp). snd p \<in> set drs"
  by (auto simp: all_dateranges_def dest!: set_zip_rightD)

lemma timeranges_same_day:
  assumes "day_law lc" "plain_period tp" "midnight_of lc t \<le> u" "u < midnight_of lc t + 86400"
  shows "get_matching_timerange lc u (Some tp) = get_matching_timerange lc t (Some tp)"
proof -
  have "skip_interval (snd p) \<le> 1" if "p \<in> set (all_dateranges tp)" for p
    using all_dateranges_in [OF that] assms(2) by (auto simp: plain_period_def)
  then have "find (\<lambda>p. daterange_matches lc u (fst p) (snd p)) (all_dateranges tp) =
      find (\<lambda>p. daterange_matches lc t (fst p) (snd p)) (all_dateranges tp)"
    by (intro find_cong_set) (simp only: daterange_matches_same_day [OF assms(1,3,4)])
  then show ?thesis
    unfolding get_matching_timerange_def same_day(4) [OF assms(1,3,4)] by (simp only: option.case)
qed

lemma timeranges_good:
  assumes "wday_law lc" "plain_period tp" "r \<in> set (get_matching_timerange lc t (Some tp))"
  shows "good_range r"
proof -
  have w: "nat (tm_wday (localtime lc t)) < length (tp_days tp)"
    using assms(1,2) by (simp add: wday_law_def plain_period_def nat_less_iff)
  show ?thesis
  proof (cases "find (\<lambda>p. daterange_matches lc t (fst p) (snd p)) (all_dateranges tp)")
    case None
    then have "r \<in> set (tp_days tp ! nat (tm_wday (localtime lc t)))"
      using assms(3) by (simp add: get_matching_timerange_def)
    with assms(2) nth_mem [OF w] show ?thesis by (auto simp: plain_period_def)
  next
    case (Some p)
    then have "p \<in> set (all_dateranges tp)" by (auto simp: find_Some_iff)
    moreover have "r \<in> set (dr_times (snd p))" using Some assms(3) by (simp add: get_matching_timerange_def)
    ultimately show ?thesis using assms(2) all_dateranges_in [of p tp] by (auto simp: plain_period_def)
  qed
qed

text \<open>One pass over the ranges of a day finds the earliest time from \<open>last\<close> on that lies in one.\<close>

lemma valid_pass_snoc:
  "valid_pass m (rs @ [r]) p =
    (let (hv, e) = valid_pass m rs p in
     if zero_range r then (hv, e)
     else if m + range_end r < p then (hv, e)
     else let c = max (m + range_start r) p in (True, if \<not> hv \<or> c < e then c else e))"
  by (simp add: valid_pass_def Let_def max_def split_beta)

lemma valid_pass_spec:
  assumes "\<forall>r \<in> set rs. \<not> zero_range r" "valid_pass m rs p = (hv, e)"
  shows "(hv \<longrightarrow> (\<exists>r \<in> set rs. p \<le> m + range_end r \<and> e = max (m + range_start r) p))
    \<and> (\<forall>r \<in> set rs. p \<le> m + range_end r \<longrightarrow> hv \<and> e \<le> max (m + range_start r) p)"
  using assms
proof (induction rs arbitrary: hv e rule: rev_induct)
  case Nil
  then show ?case by (simp add: valid_pass_def)
next
  case (snoc r rs)
  obtain h0 e0 where v: "valid_pass m rs p = (h0, e0)" by fastforce
  from snoc.IH [OF _ v] snoc.prems
  have IH: "(h0 \<longrightarrow> (\<exists>r \<in> set rs. p \<le> m + range_end r \<and> e0 = max (m + range_start r) p))"
    "\<forall>r \<in> set rs. p \<le> m + range_end r \<longrightarrow> h0 \<and> e0 \<le> max (m + range_start r) p" by auto
  have step: "(if m + range_end r < p then (h0, e0)
      else (True, if \<not> h0 \<or> max (m + range_start r) p < e0 then max (m + range_start r) p else e0)) = (hv, e)"
    using snoc.prems unfolding valid_pass_snoc v Let_def by simp
  show ?case
  proof (cases "m + range_end r < p")
    case True
    with step IH show ?thesis by auto
  next
    case False
    with step have h: "hv" and e: "e = (if \<not> h0 \<or> max (m + range_start r) p < e0 then max (m + range_start r) p else e0)"
      by auto
    show ?thesis
    proof (cases "\<not> h0 \<or> max (m + range_start r) p < e0")
      case True
      with IH e h False show ?thesis by (auto intro: order.trans [OF less_imp_le])
    next
      case F: False
      with IH e h False show ?thesis by auto
    qed
  qed
qed

definition valid_at :: "libc \<Rightarrow> timeperiod \<Rightarrow> int \<Rightarrow> bool" where
  "valid_at lc tp t \<longleftrightarrow> check_time_against_period lc t (Some tp) = OK"

lemma valid_at_plain:
  assumes "plain_period tp"
  shows "valid_at lc tp t \<longleftrightarrow> (\<exists>r \<in> set (get_matching_timerange lc t (Some tp)). in_range (midnight_of lc t) t r)"
  using assms by (cases tp) (auto simp: valid_at_def check_time_against_period_def plain_period_def)

text \<open>One step of the search: from \<open>e\<close> it finds the first valid time of the day of \<open>e\<close>, or
  goes to the next midnight when there is none.\<close>

lemma search_day:
  assumes law: "day_law lc" "wday_law lc" and tp: "plain_period tp"
    and v: "valid_pass (midnight_of lc e) (get_matching_timerange lc e (Some tp)) e = (hv, e1)"
  defines "e2 \<equiv> (if \<not> hv then midnight_of lc e + 86400 else e1)"
  shows "e \<le> e2" "\<And>u. e \<le> u \<Longrightarrow> u < e2 \<Longrightarrow> \<not> valid_at lc tp u" "e2 = e \<longleftrightarrow> valid_at lc tp e"
    "e2 \<le> midnight_of lc e + 86400" "e2 < midnight_of lc e + 86400 \<Longrightarrow> valid_at lc tp e2"
    "\<And>u. e \<le> u \<Longrightarrow> u < midnight_of lc e + 86400 \<Longrightarrow> valid_at lc tp u \<Longrightarrow> e2 \<le> u"
proof -
  let ?m = "midnight_of lc e" and ?rs = "get_matching_timerange lc e (Some tp)"
  have good: "good_range r" if "r \<in> set ?rs" for r by (rule timeranges_good [OF law(2) tp that])
  then have "\<forall>r \<in> set ?rs. \<not> zero_range r" by (simp add: good_range_def)
  from valid_pass_spec [OF this v]
  have p1: "hv \<Longrightarrow> \<exists>r \<in> set ?rs. e \<le> ?m + range_end r \<and> e1 = max (?m + range_start r) e"
    and p2: "\<And>r. r \<in> set ?rs \<Longrightarrow> e \<le> ?m + range_end r \<Longrightarrow> hv \<and> e1 \<le> max (?m + range_start r) e" by blast+
  have day: "valid_at lc tp u \<longleftrightarrow> (\<exists>r \<in> set ?rs. in_range ?m u r)" if "?m \<le> u" "u < ?m + 86400" for u
    using valid_at_plain [OF tp] timeranges_same_day [OF law(1) tp that] same_day(1) [OF law(1) that] by simp
  note e = day_bounds [OF law(1), of e]
  show le: "e \<le> e2" using p1 e by (auto simp: e2_def)
  show upper: "e2 \<le> ?m + 86400"
  proof (cases hv)
    case True
    from p1 [OF True] obtain r where r: "r \<in> set ?rs" "e1 = max (?m + range_start r) e" by blast
    with good [OF r(1)] e True show ?thesis by (auto simp: e2_def good_range_def)
  qed (simp add: e2_def)
  show none: "\<not> valid_at lc tp u" if u: "e \<le> u" "u < e2" for u
  proof
    assume "valid_at lc tp u"
    moreover have "?m \<le> u" "u < ?m + 86400" using e u upper by linarith+
    ultimately obtain r where r: "r \<in> set ?rs" "in_range ?m u r" using day by blast
    with u p2 [OF r(1)] show False by (auto simp: in_range_def e2_def)
  qed
  show v2: "valid_at lc tp e2" if "e2 < ?m + 86400"
  proof -
    have hv using that by (auto simp: e2_def split: if_splits)
    from p1 [OF this] obtain r where r: "r \<in> set ?rs" "e \<le> ?m + range_end r" "e1 = max (?m + range_start r) e" by blast
    with good [OF r(1)] \<open>hv\<close> have "in_range ?m e2 r" by (auto simp: in_range_def e2_def good_range_def)
    with r(1) day [of e2] e le that show "valid_at lc tp e2" by auto
  qed
  show "e2 = e \<longleftrightarrow> valid_at lc tp e"
    using none [of e] le v2 e by (cases "e2 = e") auto
  show "e2 \<le> u" if u: "e \<le> u" "u < ?m + 86400" "valid_at lc tp u" for u
  proof -
    have "?m \<le> u" using e u by linarith
    with u day obtain r where r: "r \<in> set ?rs" "in_range ?m u r" by blast
    with u p2 [OF r(1)] show ?thesis by (auto simp: in_range_def e2_def)
  qed
qed

lemma valid_loop_plain:
  assumes "plain_period tp" "earliest \<noteq> last_earliest"
    and "valid_pass (midnight_of lc earliest) (get_matching_timerange lc earliest (Some tp)) earliest = (hv, e1)"
  shows "valid_loop lc tp (Suc fuel) last_earliest earliest =
    valid_loop lc tp fuel earliest (if \<not> hv then midnight_of lc earliest + 86400 else e1)"
  using assms by (cases tp) (auto simp: plain_period_def Let_def)

text \<open>The equations of the loops for an amount of fuel that is not zero.\<close>

lemma valid_loop_step:
  "0 < fuel \<Longrightarrow> valid_loop lc (Timeperiod nm days exc excl) fuel last_earliest earliest =
    (if earliest = last_earliest then (fuel, earliest)
     else
       (let midnight = midnight_of lc earliest;
            (have, e1) = valid_pass midnight
              (get_matching_timerange lc earliest (Some (Timeperiod nm days exc excl))) earliest;
            e2 = (if \<not> have then midnight + 86400
                  else fold (\<lambda>x e. settle e (invalid_loop lc x max_depth 0 e)) excl e1)
        in valid_loop lc (Timeperiod nm days exc excl) (fuel - 1) earliest e2))"
  by (cases fuel) simp_all

lemma invalid_loop_step:
  "0 < fuel \<Longrightarrow> invalid_loop lc (Timeperiod nm days exc excl) fuel last_earliest earliest =
    (if earliest = last_earliest then (fuel, earliest)
     else
       (let e1 = invalid_pass (midnight_of lc earliest)
              (get_matching_timerange lc earliest (Some (Timeperiod nm days exc excl))) earliest;
            e2 = fold (\<lambda>x e. let potential_time = settle earliest (valid_loop lc x max_depth 0 earliest)
                             in if potential_time + 60 < e then potential_time + 60 else e) excl e1
        in invalid_loop lc (Timeperiod nm days exc excl) (fuel - 1) earliest e2))"
  by (cases fuel) simp_all

lemma valid_loop_stop: "valid_loop lc tp (Suc fuel) e e = (Suc fuel, e)"
  by (cases tp) simp

text \<open>Started at a time from which a valid one lies at most \<open>k\<close> days ahead, the search needs
  \<open>k + 2\<close> passes, and finds the first valid time.\<close>

lemma valid_loop_finds:
  assumes law: "day_law lc" "wday_law lc" and tp: "plain_period tp"
    and u: "valid_at lc tp u" "e \<le> u" and first: "\<And>v. e \<le> v \<Longrightarrow> v < u \<Longrightarrow> \<not> valid_at lc tp v"
    and days: "midnight_of lc u \<le> midnight_of lc e + 86400 * int k" and "k + 3 \<le> fuel" "e \<noteq> last_e"
  shows "fst (valid_loop lc tp fuel last_e e) \<noteq> 0 \<and> snd (valid_loop lc tp fuel last_e e) = u"
  using u first days assms(8,9)
proof (induction k arbitrary: fuel last_e e rule: less_induct)
  case (less k)
  obtain hv e1 where v: "valid_pass (midnight_of lc e) (get_matching_timerange lc e (Some tp)) e = (hv, e1)"
    by fastforce
  define e2 where "e2 = (if \<not> hv then midnight_of lc e + 86400 else e1)"
  note day = search_day [OF law tp v, folded e2_def]
  define n where "n = fuel - 3"
  then have n: "fuel = Suc (Suc (Suc n))" "k \<le> n" using less.prems(5) by auto
  have pass: "valid_loop lc tp fuel last_e e = valid_loop lc tp (Suc (Suc n)) e e2"
    unfolding n e2_def by (rule valid_loop_plain [OF tp less.prems(6) v])
  show ?case
  proof (cases "u < midnight_of lc e + 86400")
    case True
    have "e2 \<le> u" using day(6) True less.prems(1,2) by blast
    with day(1,5) less.prems(3) True have e2: "e2 = u" by fastforce
    show ?thesis
    proof (cases "e = u")
      case True
      then show ?thesis unfolding pass e2 by (simp add: valid_loop_stop)
    next
      case False
      obtain hv' e1' where v': "valid_pass (midnight_of lc u) (get_matching_timerange lc u (Some tp)) u = (hv', e1')"
        by fastforce
      have "(if \<not> hv' then midnight_of lc u + 86400 else e1') = u"
        using search_day(3) [OF law tp v'] less.prems(1) by blast
      with valid_loop_plain [OF tp _ v', of e "Suc n"] False
      have "valid_loop lc tp (Suc (Suc n)) e u = valid_loop lc tp (Suc n) u u" by simp
      then show ?thesis unfolding pass e2 by (simp add: valid_loop_stop)
    qed
  next
    case False
    have "\<not> valid_at lc tp e2 \<or> e2 = midnight_of lc e + 86400"
      using less.prems(3) day(1,4) False by fastforce
    with day(4,5) have e2: "e2 = midnight_of lc e + 86400" by fastforce
    have m2: "midnight_of lc e2 = e2" using next_midnight [OF law(1), of e] e2 by simp
    have "e2 \<le> midnight_of lc u" using midnight_mono [OF law(1), of e2 u] False e2 m2 by simp
    with less.prems(4) e2 have k: "0 < k" by (cases k) auto
    have "e2 \<noteq> e" "e \<le> e2" using day_bounds [OF law(1), of e] e2 by linarith+
    then show ?thesis
      unfolding pass
      using less.prems(1,3,4) False e2 m2 k n(2) by (intro less.IH [of "k - 1"]) auto
  qed
qed

lemma valid_loop_never:
  assumes law: "day_law lc" "wday_law lc" and tp: "plain_period tp"
    and never: "\<And>u. e \<le> u \<Longrightarrow> \<not> valid_at lc tp u" and "e \<noteq> last_e"
  shows "fst (valid_loop lc tp fuel last_e e) = 0"
  using never assms(5)
proof (induction fuel arbitrary: last_e e)
  case 0
  then show ?case by simp
next
  case (Suc fuel)
  obtain hv e1 where v: "valid_pass (midnight_of lc e) (get_matching_timerange lc e (Some tp)) e = (hv, e1)"
    by fastforce
  define e2 where "e2 = (if \<not> hv then midnight_of lc e + 86400 else e1)"
  note day = search_day [OF law tp v, folded e2_def]
  have "e2 \<noteq> e" using day(3) Suc.prems(1) [of e] by simp
  moreover have "\<not> valid_at lc tp u" if "e2 \<le> u" for u using Suc.prems(1) that day(1) by force
  ultimately have "fst (valid_loop lc tp fuel e e2) = 0" by (intro Suc.IH) auto
  with valid_loop_plain [OF tp Suc.prems(2) v, of fuel] show ?case by (simp add: e2_def)
qed

section \<open>The search for an invalid time\<close>

text \<open>A period that is not interrupted for a minute or less: two valid times 61 seconds apart have only valid ones between
  them.\<close>

definition unbroken :: "libc \<Rightarrow> timeperiod \<Rightarrow> bool" where
  "unbroken lc tp \<longleftrightarrow> (\<forall>t u. valid_at lc tp t \<and> valid_at lc tp (t + 61) \<and> t \<le> u \<and> u \<le> t + 61 \<longrightarrow> valid_at lc tp u)"

text \<open>How far the search for an invalid time has come: the time it reached is the start, or all times from the start to
  a minute before it are valid.\<close>

definition valid_so_far :: "libc \<Rightarrow> timeperiod \<Rightarrow> int \<Rightarrow> int \<Rightarrow> bool" where
  "valid_so_far lc tp start x \<longleftrightarrow> x = start \<or> start + 60 < x \<and> (\<forall>v. start \<le> v \<and> v < x - 60 \<longrightarrow> valid_at lc tp v)"

lemma valid_so_far_jump:
  assumes law: "day_law lc" and tp: "plain_period tp" "unbroken lc tp" and so_far: "valid_so_far lc tp start x"
    and r: "r \<in> set (get_matching_timerange lc p (Some tp))" "good_range r"
    and x: "midnight_of lc p + range_start r \<le> x" "x < midnight_of lc p + range_end r"
  shows "valid_so_far lc tp start (midnight_of lc p + range_end r + 60)"
proof -
  let ?e = "midnight_of lc p + range_end r"
  have inside: "valid_at lc tp v" if "x \<le> v" "v < ?e" for v
  proof -
    have day: "midnight_of lc p \<le> v" "v < midnight_of lc p + 86400" using that x r(2) by (simp_all add: good_range_def)
    show ?thesis
      using that x unfolding valid_at_plain [OF tp(1)] timeranges_same_day [OF law tp(1) day] same_day(1) [OF law day]
      by (intro bexI [OF _ r(1)]) (simp add: in_range_def)
  qed
  have "valid_at lc tp v" if v: "start \<le> v" "v < x" and "x \<noteq> start" for v
  proof (cases "v < x - 60")
    case True
    then show ?thesis using so_far v(1) that(3) by (auto simp: valid_so_far_def)
  next
    case False
    have "valid_at lc tp (x - 61)" using so_far that(3) by (auto simp: valid_so_far_def)
    moreover have "valid_at lc tp (x - 61 + 61)" using inside [of x] x by simp
    moreover have "x - 61 \<le> v" "v \<le> x - 61 + 61" using False v by simp_all
    ultimately show ?thesis using tp(2) unfolding unbroken_def by blast
  qed
  moreover have "start \<le> x" using so_far by (auto simp: valid_so_far_def)
  ultimately show ?thesis using inside x unfolding valid_so_far_def by (auto simp: not_le not_less) (metis not_le)
qed

lemma invalid_pass_cons:
  "invalid_pass m (r # rs) x = invalid_pass m rs
    (if \<not> zero_range r \<and> m + range_start r \<le> x \<and> x < m + range_end r then m + range_end r + 60 else x)"
  by (auto simp: invalid_pass_def Let_def intro!: arg_cong [where f = "fold _ rs"])

lemma invalid_pass_progress:
  "invalid_pass m rs x = x \<or> x + 61 \<le> invalid_pass m rs x"
proof (induction rs arbitrary: x)
  case (Cons r rs)
  from Cons.IH [of x] Cons.IH [of "m + range_end r + 60"] show ?case by (auto simp: invalid_pass_cons)
qed (simp add: invalid_pass_def)

lemma invalid_pass_moves:
  "r \<in> set rs \<Longrightarrow> \<not> zero_range r \<Longrightarrow> m + range_start r \<le> x \<Longrightarrow> x < m + range_end r \<Longrightarrow> x < invalid_pass m rs x"
proof (induction rs)
  case (Cons q rs)
  with invalid_pass_progress [of m rs x] invalid_pass_progress [of m rs "m + range_end q + 60"] show ?case
    by (auto simp: invalid_pass_cons)
qed simp

lemma invalid_pass_so_far:
  assumes law: "day_law lc" "wday_law lc" and tp: "plain_period tp" "unbroken lc tp"
    and "set rs \<subseteq> set (get_matching_timerange lc p (Some tp))" "valid_so_far lc tp start x"
  shows "valid_so_far lc tp start (invalid_pass (midnight_of lc p) rs x)"
  using assms(5,6)
proof (induction rs arbitrary: x)
  case (Cons r rs)
  have "good_range r" using timeranges_good [OF law(2) tp(1)] Cons.prems(1) by auto
  with valid_so_far_jump [OF law(1) tp Cons.prems(2), of r p] Cons show ?case by (auto simp: invalid_pass_cons)
qed (simp add: invalid_pass_def)

lemma invalid_loop_plain:
  assumes "plain_period tp" "x \<noteq> last_x"
  shows "invalid_loop lc tp (Suc n) last_x x =
    invalid_loop lc tp n x (invalid_pass (midnight_of lc x) (get_matching_timerange lc x (Some tp)) x)"
  using assms by (cases tp) (auto simp: plain_period_def Let_def)

lemma invalid_loop_stop: "invalid_loop lc tp (Suc n) x x = (Suc n, x)"
  by (cases tp) simp

text \<open>A search that gives up has found at least 60 valid seconds in each of its passes but the last.\<close>

lemma invalid_loop_so_far:
  assumes law: "day_law lc" "wday_law lc" and tp: "plain_period tp" "unbroken lc tp"
    and "valid_so_far lc tp start x" "x \<noteq> last_x"
  shows "case invalid_loop lc tp n last_x x of (m, y) \<Rightarrow>
    valid_so_far lc tp start y \<and> x \<le> y \<and> (m = 0 \<longrightarrow> x + 60 * (int n - 1) \<le> y)"
  using assms(5,6)
proof (induction n arbitrary: x last_x)
  case (Suc n)
  define q where "q = invalid_pass (midnight_of lc x) (get_matching_timerange lc x (Some tp)) x"
  have q: "valid_so_far lc tp start q" "q = x \<or> x + 61 \<le> q"
    unfolding q_def by (rule invalid_pass_so_far [OF law tp _ Suc.prems(1)], simp, rule invalid_pass_progress)
  show ?case
  proof (cases "q = x")
    case True
    then show ?thesis using q(1) unfolding invalid_loop_plain [OF tp(1) Suc.prems(2)] q_def [symmetric]
      by (cases n) (simp_all add: invalid_loop_stop)
  next
    case False
    with Suc.IH [OF q(1), of x] q(2) show ?thesis unfolding invalid_loop_plain [OF tp(1) Suc.prems(2)] q_def [symmetric]
      by (auto split: prod.splits)
  qed
qed simp

lemma ranged_urand_bounds:
  assumes "rand < 2 ^ 31" "0 < m" "m < 2 ^ 32"
  shows "0 \<le> ranged_urand rand 0 m \<and> ranged_urand rand 0 m < m"
proof -
  have "int rand * m < 2 ^ 31 * m" using assms by (intro mult_strict_right_mono) auto
  then have "int rand * m div 2 ^ 31 < m" by (simp add: div_less_iff_less_mult mult.commute)
  with assms show ?thesis by (simp add: ranged_urand_def pos_imp_zdiv_nonneg_iff)
qed

section \<open>Concrete clocks\<close>

text \<open>The Gregorian calendar in UTC: days are counted from 1 March of the year 0.\<close>

definition days_from_civil :: "int \<Rightarrow> int \<Rightarrow> int \<Rightarrow> int" where
  "days_from_civil y0 m d =
    (let y = (if m \<le> 2 then y0 - 1 else y0);
         yoe = y mod 400;
         doy = (153 * (if m > 2 then m - 3 else m + 9) + 2) div 5 + d - 1
     in (y div 400) * 146097 + yoe * 365 + yoe div 4 - yoe div 100 + doy - 719468)"

definition utc_localtime :: "int \<Rightarrow> tm" where
  "utc_localtime t =
    (let z = t div 86400 + 719468;
         doe = z mod 146097;
         yoe = (doe - doe div 1460 + doe div 36524 - doe div 146096) div 365;
         doy = doe - (365 * yoe + yoe div 4 - yoe div 100);
         mp = (5 * doy + 2) div 153;
         m = (if mp < 10 then mp + 3 else mp - 9);
         y = yoe + (z div 146097) * 400 + (if m \<le> 2 then 1 else 0)
     in \<lparr>tm_sec = t mod 60, tm_min = (t div 60) mod 60, tm_hour = (t div 3600) mod 24,
         tm_mday = doy - (153 * mp + 2) div 5 + 1, tm_mon = m - 1, tm_year = y - 1900,
         tm_wday = (t div 86400 + 4) mod 7, tm_isdst = 0\<rparr>)"

definition utc :: libc where
  "utc = \<lparr>localtime = utc_localtime,
    mktime = (\<lambda>t.
      let r = (days_from_civil (tm_year t + 1900 + tm_mon t div 12) (tm_mon t mod 12 + 1) 1 + tm_mday t - 1) * 86400
              + tm_hour t * 3600 + tm_min t * 60 + tm_sec t
      in (r, utc_localtime r))\<rparr>"

text \<open>The year of an era and the day in it, from the day of the era: centuries and groups of four years are found by
  division.\<close>

lemma era_divisions:
  fixes doe :: int
  assumes "0 \<le> doe" "doe < 146096"
  defines "a \<equiv> doe div 36524" and "b \<equiv> doe div 1460"
  defines "x \<equiv> doe - b + a"
  shows "36500 * a \<le> x" "x < 36500 * a + 36500" "0 \<le> a" "a \<le> 3" "1460 * b - 1460 \<le> x" "x < 1460 * b + 1460"
proof -
  have a: "36524 * a \<le> doe" "doe < 36524 * a + 36524" "0 \<le> a" "a \<le> 3" using assms(1,2) unfolding a_def by linarith+
  have b: "1460 * b \<le> doe" "doe < 1460 * b + 1460" unfolding b_def by linarith+
  show "0 \<le> a" "a \<le> 3" by (rule a)+
  consider "a = 0" | "a = 1" | "a = 2" | "a = 3" using a(3,4) by linarith
  then have "36500 * a \<le> x \<and> x < 36500 * a + 36500 \<and> 1460 * b - 1460 \<le> x \<and> x < 1460 * b + 1460"
  proof cases
    case 1
    show ?thesis using a(1,2) b unfolding x_def 1 by linarith
  next
    case 2
    show ?thesis using a(1,2) b unfolding x_def 2 by linarith
  next
    case 3
    show ?thesis using a(1,2) b unfolding x_def 3 by linarith
  next
    case 4
    show ?thesis using a(1,2) b assms(2) unfolding x_def 4 by linarith
  qed
  then show "36500 * a \<le> x" "x < 36500 * a + 36500" "1460 * b - 1460 \<le> x" "x < 1460 * b + 1460" by simp_all
qed

lemma year_of_era:
  fixes doe :: int
  assumes "0 \<le> doe" "doe < 146097"
  defines "yoe \<equiv> (doe - doe div 1460 + doe div 36524 - doe div 146096) div 365"
  defines "doy \<equiv> doe - (365 * yoe + yoe div 4 - yoe div 100)"
  shows "0 \<le> yoe \<and> yoe < 400 \<and> 0 \<le> doy \<and> doy \<le> 365"
proof (cases "doe = 146096")
  case True
  then show ?thesis by (simp add: yoe_def doy_def)
next
  case False
  then have doe: "doe < 146096" using assms(2) by simp
  define x where "x = doe - doe div 1460 + doe div 36524"
  note d = era_divisions [OF assms(1) doe, folded x_def]
  have "doe div 146096 = 0" using assms(1) doe by simp
  then have yoe: "yoe = x div 365" by (simp add: yoe_def x_def)
  have q: "yoe div 4 = x div 1460" using zdiv_zmult2_eq [of 4 x 365] by (simp add: yoe)
  have p: "yoe div 100 = x div 36500" using zdiv_zmult2_eq [of 100 x 365] by (simp add: yoe)
  have c: "x div 36500 = doe div 36524" using d(1,2) by (intro int_div_pos_eq [of x 36500 _ "x - 36500 * (doe div 36524)"]; linarith)
  have r: "365 * yoe \<le> x" "x < 365 * yoe + 365" unfolding yoe by linarith+
  have b: "doe div 1460 - 1 \<le> x div 1460" "x div 1460 \<le> doe div 1460" using d(5,6) by linarith+
  have doy: "doy = x + doe div 1460 - 365 * yoe - x div 1460" using x_def unfolding doy_def q p c by linarith
  show ?thesis using r b d(1-4) unfolding doy by linarith
qed

lemma utc_midnight: "midnight_of utc t = t div 86400 * 86400"
proof -
  define z where "z = t div 86400 + 719468"
  define doe where "doe = z mod 146097"
  define yoe where "yoe = (doe - doe div 1460 + doe div 36524 - doe div 146096) div 365"
  define doy where "doy = doe - (365 * yoe + yoe div 4 - yoe div 100)"
  define mp where "mp = (5 * doy + 2) div 153"
  define y where "y = yoe + z div 146097 * 400"
  have doe: "0 \<le> doe" "doe < 146097" by (simp_all add: doe_def)
  note p = year_of_era [OF doe, folded yoe_def, folded doy_def]
  then have mp: "0 \<le> mp" "mp \<le> 11" unfolding mp_def by linarith+
  have era: "y div 400 = z div 146097" "y mod 400 = yoe" using p by (simp_all add: y_def)
  define m where "m = (if mp < 10 then mp + 3 else mp - 9)"
  have m: "1 \<le> m" "m \<le> 12" "m \<le> 2 \<longleftrightarrow> \<not> mp < 10" "(if m > 2 then m - 3 else m + 9) = mp" using mp by (auto simp: m_def)
  have split: "z = z div 146097 * 146097 + doe" by (simp add: doe_def)
  define c where "c = (if m \<le> 2 then y + 1 else y)"
  have "(if m \<le> 2 then c - 1 else c) = y" by (simp add: c_def)
  then have days: "days_from_civil c m 1 = z div 146097 * 146097 + yoe * 365 + yoe div 4 - yoe div 100 + (153 * mp + 2) div 5 - 719468"
    by (simp only: days_from_civil_def Let_def era m(4))
  have lt: "utc_localtime t = \<lparr>tm_sec = t mod 60, tm_min = (t div 60) mod 60, tm_hour = (t div 3600) mod 24,
      tm_mday = doy - (153 * mp + 2) div 5 + 1, tm_mon = m - 1, tm_year = c - 1900, tm_wday = (t div 86400 + 4) mod 7, tm_isdst = 0\<rparr>"
    unfolding utc_localtime_def Let_def z_def [symmetric] doe_def [symmetric] yoe_def [symmetric] doy_def [symmetric] mp_def [symmetric]
      m_def [symmetric] by (simp add: c_def y_def)
  have "(m - 1) div 12 = 0" "(m - 1) mod 12 + 1 = m" using m(1,2) by simp_all
  then have "midnight_of utc t = (days_from_civil c m 1 + (doy - (153 * mp + 2) div 5 + 1) - 1) * 86400"
    unfolding midnight_of_def utc_def by (simp add: lt Let_def)
  moreover have "days_from_civil c m 1 + (doy - (153 * mp + 2) div 5 + 1) - 1 = t div 86400"
    using split unfolding days doy_def z_def by linarith
  ultimately show ?thesis by simp
qed

lemma utc_same_day:
  assumes "u div 86400 = t div 86400"
  shows "tm_year (utc_localtime u) = tm_year (utc_localtime t) \<and> tm_mon (utc_localtime u) = tm_mon (utc_localtime t)
    \<and> tm_wday (utc_localtime u) = tm_wday (utc_localtime t)"
  unfolding utc_localtime_def Let_def tm.simps assms by (intro conjI refl)

lemma utc_law: "day_law utc" "wday_law utc"
proof -
  have day: "u div 86400 = t div 86400" if "t div 86400 * 86400 \<le> u" "u < t div 86400 * 86400 + 86400" for t u :: int
    using that by (intro int_div_pos_eq [of u 86400 _ "u - t div 86400 * 86400"]) linarith+
  have "t div 86400 * 86400 \<le> t" "t < t div 86400 * 86400 + 86400" for t :: int by linarith+
  moreover have "localtime utc = utc_localtime" by (simp only: utc_def libc.simps)
  ultimately show "day_law utc" unfolding day_law_def utc_midnight using day utc_same_day by metis
  show "wday_law utc" by (simp only: wday_law_def utc_def utc_localtime_def Let_def libc.simps tm.simps) simp
qed

text \<open>A clock with weekdays whose calendar is a single month without end; it obeys the laws.\<close>

definition flat_clock :: libc where
  "flat_clock = \<lparr>localtime = (\<lambda>t. \<lparr>tm_sec = t mod 86400, tm_min = 0, tm_hour = 0, tm_mday = t div 86400,
      tm_mon = 0, tm_year = 70, tm_wday = (t div 86400 + 4) mod 7, tm_isdst = 0\<rparr>),
    mktime = (\<lambda>t. (tm_mday t * 86400 + tm_sec t, t))\<rparr>"

lemma flat_clock_midnight: "midnight_of flat_clock t = t div 86400 * 86400"
  by (simp add: midnight_of_def flat_clock_def)

lemma flat_clock_law: "day_law flat_clock" "wday_law flat_clock"
proof -
  have b: "t div 86400 * 86400 \<le> t \<and> t < t div 86400 * 86400 + 86400" for t :: int
  proof -
    have "t = t div 86400 * 86400 + t mod 86400" "0 \<le> t mod 86400" "t mod 86400 < 86400" by simp_all
    then show ?thesis by linarith
  qed
  have "u div 86400 = q" if "q * 86400 \<le> u" "u < q * 86400 + 86400" for q u :: int
    by (rule int_div_pos_eq [of u 86400 q "u - q * 86400"]) (use that in linarith)+
  with b show "day_law flat_clock"
    unfolding day_law_def flat_clock_midnight by (auto simp: flat_clock_def)
qed (simp add: wday_law_def flat_clock_def)

section \<open>Properties\<close>

text \<open>C10. On a clock without daylight saving changes, for a \<open>plain\<close> period - without exclusions and without date ranges
  that skip days, whose ranges are parts of a day and not empty - and a preferred time other than zero: if some valid time
  lies at most 296 days after the preferred one, the search of \<open>_get_next_valid_time\<close> ends within its 300 passes
  and returns the first valid time from the preferred time on.\<close>

theorem next_valid_time_is_first:
  assumes law: "day_law lc" "wday_law lc" and tp: "plain_period tp" and "pref \<noteq> 0"
    and u: "check_time_against_period lc u (Some tp) = OK" "pref \<le> u" "u \<le> pref + 296 * 86400"
  shows "\<exists>r. get_next_valid_time_from lc pref (Some tp) = r \<and> check_time_against_period lc r (Some tp) = OK
    \<and> pref \<le> r \<and> r \<le> u \<and> (\<forall>v. pref \<le> v \<and> v < r \<longrightarrow> check_time_against_period lc v (Some tp) \<noteq> OK)"
proof -
  define n where "n = (LEAST n. valid_at lc tp (pref + int n))"
  have "valid_at lc tp (pref + int (nat (u - pref)))" using u by (simp add: valid_at_def)
  then have n: "valid_at lc tp (pref + int n)" "n \<le> nat (u - pref)"
    unfolding n_def by (rule LeastI, rule Least_le)
  have first: "\<not> valid_at lc tp v" if v: "pref \<le> v" "v < pref + int n" for v
  proof
    assume "valid_at lc tp v"
    then have "n \<le> nat (v - pref)" using v unfolding n_def by (intro Least_le) simp
    with v show False by linarith
  qed
  have "midnight_of lc (pref + int n) \<le> midnight_of lc pref + 86400 * int 297"
    using day_bounds [OF law(1), of "pref + int n"] day_bounds [OF law(1), of pref] n(2) u by simp
  from valid_loop_finds [OF law tp n(1) _ first this, of max_depth 0] assms(4)
  have "get_next_valid_time_from lc pref (Some tp) = pref + int n"
    by (simp add: get_next_valid_time_from_def settle_def max_depth_def)
  with n first u show ?thesis unfolding valid_at_def by fastforce
qed

definition workdays :: timeperiod where
  "workdays = Timeperiod ''workhours''
    [[], [\<lparr>range_start = 32400, range_end = 61200\<rparr>], [], [], [], [\<lparr>range_start = 32400, range_end = 61200\<rparr>], []]
    [[], [], [], [], []] []"

lemma workdays_plain: "plain_period workdays"
  by (simp add: plain_period_def workdays_def good_range_def zero_range_def)

lemma workdays_matching:
  "get_matching_timerange lc t (Some workdays) = tp_days workdays ! nat (tm_wday (localtime lc t))"
  by (simp add: get_matching_timerange_def workdays_def all_dateranges_def DATERANGE_TYPES_def upt_conv_Cons)

lemma utc_wday: "tm_wday (localtime utc t) = (t div 86400 + 4) mod 7"
  by (simp only: utc_def utc_localtime_def Let_def libc.simps tm.simps)

lemma workdays_hours: "valid_at utc workdays t \<Longrightarrow> 32400 \<le> t mod 86400 \<and> t mod 86400 \<le> 61200"
proof -
  assume "valid_at utc workdays t"
  then obtain r where r: "r \<in> set (tp_days workdays ! nat ((t div 86400 + 4) mod 7))" "in_range (t div 86400 * 86400) t r"
    unfolding valid_at_plain [OF workdays_plain] workdays_matching utc_midnight utc_wday by blast
  have "nat ((t div 86400 + 4) mod 7) \<in> {0..<7}" by (simp add: nat_less_iff)
  with r(1) have "range_start r = 32400 \<and> range_end r = 61200"
    by (auto simp: workdays_def atLeast0_lessThan_Suc numeral_eq_Suc)
  with r(2) minus_div_mult_eq_mod [of t 86400] show ?thesis by (simp add: in_range_def)
qed

lemma workdays_unbroken: "unbroken utc workdays"
proof -
  have "valid_at utc workdays u" if t: "valid_at utc workdays t" "t \<le> u" "u \<le> t + 61" "valid_at utc workdays (t + 61)" for t u
  proof -
    let ?d = "t div 86400"
    note h = workdays_hours [OF t(1)] workdays_hours [OF t(4)]
    have "t = ?d * 86400 + t mod 86400" by simp
    with h(1) t(2,3) have in_day: "?d * 86400 + 32400 \<le> u" "u < ?d * 86400 + 86400" "t + 61 < ?d * 86400 + 86400" by linarith+
    then have day: "u div 86400 = ?d" "(t + 61) div 86400 = ?d"
      using t(2) by (auto intro!: int_div_pos_eq [of u 86400 _ "u - ?d * 86400"] int_div_pos_eq [of "t + 61" 86400 _ "t + 61 - ?d * 86400"])
    have "t + 61 = ?d * 86400 + (t + 61) mod 86400" using div_mult_mod_eq [of "t + 61" 86400] day(2) by simp
    then have hours: "?d * 86400 + 32400 \<le> u" "u \<le> ?d * 86400 + 61200" using h(2) in_day t(3) by linarith+
    from t(1) obtain r where r: "r \<in> set (tp_days workdays ! nat ((?d + 4) mod 7))"
      unfolding valid_at_plain [OF workdays_plain] workdays_matching utc_wday by blast
    have "nat ((?d + 4) mod 7) \<in> {0..<7}" by (simp add: nat_less_iff)
    with r have "in_range (?d * 86400) u r"
      using hours by (auto simp: workdays_def atLeast0_lessThan_Suc numeral_eq_Suc in_range_def)
    with r show ?thesis unfolding valid_at_plain [OF workdays_plain] workdays_matching utc_midnight utc_wday day by blast
  qed
  then show ?thesis unfolding unbroken_def by blast
qed

lemma utc_friday: "\<lparr>range_start = 32400, range_end = 61200\<rparr> \<in> set (get_matching_timerange utc 1700211600 (Some workdays))"
  "midnight_of utc 1700211600 = 1700179200"
  unfolding workdays_matching utc_midnight utc_wday by (simp_all add: workdays_def)

text \<open>From the night to Wednesday, 15 November 2023: the next valid time is on Friday, at 09:00.\<close>

theorem next_valid_time_is_first_witness:
  "\<exists>r. get_next_valid_time_from utc 1700000000 (Some workdays) = r
    \<and> check_time_against_period utc r (Some workdays) = OK
    \<and> 1700000000 \<le> r \<and> r \<le> 1700211600 \<and> (\<forall>v. 1700000000 \<le> v \<and> v < r \<longrightarrow>
        check_time_against_period utc v (Some workdays) \<noteq> OK)"
proof (rule next_valid_time_is_first [OF utc_law workdays_plain])
  show "check_time_against_period utc 1700211600 (Some workdays) = OK"
    unfolding valid_at_def [symmetric] valid_at_plain [OF workdays_plain]
    by (rule bexI [OF _ utc_friday(1)]) (simp add: in_range_def utc_friday(2))
qed simp_all

text \<open>When no time from the preferred one on is valid, the search gives up after its 300 passes
  and returns the preferred time itself, which the caller cannot tell from a valid one.\<close>

theorem next_valid_time_gives_up:
  assumes "day_law lc" "wday_law lc" "plain_period tp" "pref \<noteq> 0"
    and "\<And>u. pref \<le> u \<Longrightarrow> check_time_against_period lc u (Some tp) \<noteq> OK"
  shows "get_next_valid_time_from lc pref (Some tp) = pref"
  using valid_loop_never [OF assms(1-3), of pref 0 max_depth] assms(4,5)
  by (simp add: get_next_valid_time_from_def settle_def valid_at_def)

definition never :: timeperiod where
  "never = Timeperiod ''never'' [[], [], [], [], [], [], []] [[], [], [], [], []] []"

theorem next_valid_time_gives_up_witness:
  "get_next_valid_time_from flat_clock 100000 (Some never) = 100000"
proof (rule next_valid_time_gives_up [OF flat_clock_law])
  show plain: "plain_period never" by (simp add: plain_period_def never_def)
  have "get_matching_timerange flat_clock u (Some never) = []" for u
  proof -
    have "nat ((u div 86400 + 4) mod 7) \<in> {0..<7}" by (simp add: nat_less_iff)
    then have "[[], [], [], [], [], [], []] ! nat ((u div 86400 + 4) mod 7) = ([] :: timerange list)"
      by (auto simp: atLeast0_lessThan_Suc numeral_eq_Suc)
    then show ?thesis
      by (simp add: get_matching_timerange_def never_def all_dateranges_def DATERANGE_TYPES_def
          upt_conv_Cons flat_clock_def)
  qed
  then show "check_time_against_period flat_clock u (Some never) \<noteq> OK" for u
    using valid_at_plain [OF plain, of flat_clock u] by (simp add: valid_at_def)
qed simp




definition nights :: timeperiod where
  "nights = Timeperiod ''nights'' (replicate 7 [\<lparr>range_start = 0, range_end = 32400\<rparr>]) [[], [], [], [], []] []"

definition days_only :: timeperiod where
  "days_only = Timeperiod ''days'' (replicate 7 [\<lparr>range_start = 0, range_end = 86400\<rparr>]) [[], [], [], [], []] [nights]"

lemma exclusion_example:
  "midnight_of utc 1699952400 = 1699920000"
  "get_matching_timerange utc 1699952400 (Some nights) = [\<lparr>range_start = 0, range_end = 32400\<rparr>]"
  "get_matching_timerange utc 1699952400 (Some days_only) = [\<lparr>range_start = 0, range_end = 86400\<rparr>]"
  by code_simp+

text \<open>At the last second of an excluded range the two functions disagree: for every day but
  the nights from 00:00 to 09:00, the next valid time from 09:00:00 on is 09:00:00, which
  \<open>check_time_against_period\<close> rejects because it counts the end of an excluded range as excluded.\<close>

theorem exclusion_end_disagrees:
  "get_next_valid_time_from utc 1699952400 (Some days_only) = 1699952400
    \<and> check_time_against_period utc 1699952400 (Some days_only) = ERROR"
proof -
  note ex = exclusion_example [unfolded nights_def days_only_def]
  have "invalid_loop utc nights 300 0 1699952400 = (299, 1699952400)"
    unfolding nights_def by (simp add: invalid_loop_step ex invalid_pass_def zero_range_def)
  then have inv: "settle 1699952400 (invalid_loop utc nights max_depth 0 1699952400) = 1699952400"
    by (simp add: settle_def max_depth_def)
  have "valid_loop utc days_only 300 0 1699952400 = (299, 1699952400)"
    unfolding days_only_def
    by (simp add: valid_loop_step ex valid_pass_def zero_range_def inv [unfolded nights_def] nights_def)
  then have "get_next_valid_time_from utc 1699952400 (Some days_only) = 1699952400"
    by (simp add: get_next_valid_time_from_def settle_def max_depth_def)
  moreover have "check_period utc 1699952400 nights"
    unfolding nights_def by (simp add: ex in_range_def)
  ultimately show ?thesis
    by (simp add: check_time_against_period_def days_only_def)
qed

definition jan_to_feb :: "int \<Rightarrow> daterange" where
  "jan_to_feb day = \<lparr>syear = 0, smon = 0, smday = 1, swday = 0, swday_offset = 0, eyear = 0, emon = 1, emday = day,
     ewday = 0, ewday_offset = 0, skip_interval = 0, dr_times = []\<rparr>"

definition october_1 :: int where
  "october_1 = fst (mktime utc (date_tm 123 9 1))"

lemma october_1_value: "october_1 = 1696118400"
  by (simp add: october_1_def utc_def date_tm_def days_from_civil_def)

lemma missing_end_example:
  "calculate_time_from_day_of_month utc 123 0 1 = 1672531200"
  "calculate_time_from_day_of_month utc 123 1 30 = 0"
  "calculate_time_from_day_of_month utc 124 1 30 = 0"
  "calculate_time_from_day_of_month utc 124 1 (- 1) = 1709164800"
  "calculate_time_from_day_of_month utc 123 1 28 = 1677542400"
  "midnight_of utc 1696118400 = 1696118400"
  "tm_year (localtime utc 1696118400) = 123"
  by code_simp+

text \<open>A date range of months and days whose end does not exist in the year runs into the next
  year: \<open>january 1 - february 30\<close> matches on 1 October, although the code sets out to use the last
  day of February of the same year, because the missing end (time 0) first counts as an end
  before the start.  With \<open>february 28\<close> the range ends there.\<close>

theorem missing_end_date_wraps:
  "daterange_matches utc october_1 DATERANGE_MONTH_DATE (jan_to_feb 30)
    \<and> \<not> daterange_matches utc october_1 DATERANGE_MONTH_DATE (jan_to_feb 28)"
  unfolding october_1_value
  by (simp add: daterange_matches_def daterange_start_def daterange_end_def daterange_end_fixed_def
      DATERANGE_MONTH_DATE_def DATERANGE_CALENDAR_DATE_def jan_to_feb_def missing_end_example ul_def)

end
