(* ===== verification/Comments.thy ===== *)
theory Comments
  imports Chains
begin

text \<open>
  Comments on hosts and services: \<open>common/comments.c\<close> with the id assignment of
  \<open>xdata/xcddefault.c\<close>.

  A comment is never changed once it is added, so that a pointer to it is identified with its
  value.  The same comments hang in two structures: the list \<open>comment_list\<close>, in the order of
  their ids, and the chains of \<open>comment_hashlist\<close>, by host name and sorted by it.  A pointer into
  a chain is the rest of the chain from there on.  The invariant \<open>cm_wf\<close> says that the two
  structures hold the same comments, in their orders, with unique ids per kind.

  Times, as arguments, are integers; \<open>m\<close> says whether the allocations of a call succeed.
\<close>

abbreviation (input) HOST_COMMENT :: nat where "HOST_COMMENT \<equiv> 1"
abbreviation (input) SERVICE_COMMENT :: nat where "SERVICE_COMMENT \<equiv> 2"
abbreviation (input) USER_COMMENT :: nat where "USER_COMMENT \<equiv> 1"
abbreviation (input) DOWNTIME_COMMENT :: nat where "DOWNTIME_COMMENT \<equiv> 2"
abbreviation (input) FLAPPING_COMMENT :: nat where "FLAPPING_COMMENT \<equiv> 3"
abbreviation (input) ACKNOWLEDGEMENT_COMMENT :: nat where "ACKNOWLEDGEMENT_COMMENT \<equiv> 4"

definition COMMENT_HASHSLOTS :: nat where "COMMENT_HASHSLOTS = 1024"

section \<open>State\<close>

record nagios_comment =
  c_type :: nat
  c_entry_type :: nat
  c_id :: nat
  c_source :: nat
  c_persistent :: bool
  c_entry_time :: int
  c_expires :: bool
  c_expire_time :: int
  c_host_name :: string
  c_service_description :: "string option"
  c_author :: string
  c_data :: string

record comments_state =
  comment_list :: "nagios_comment list"
  comment_hashlist :: "nagios_comment list list option"
  next_comment_id :: nat
  defer_comment_sorting :: bool

section \<open>Searching\<close>

definition find_comment :: "comments_state \<Rightarrow> nat \<Rightarrow> nat \<Rightarrow> nagios_comment option" where
  "find_comment s cid ty = find (\<lambda>c. c_id c = cid \<and> c_type c = ty) (comment_list s)"

definition find_service_comment :: "comments_state \<Rightarrow> nat \<Rightarrow> nagios_comment option" where
  "find_service_comment s cid = find_comment s cid SERVICE_COMMENT"

definition find_host_comment :: "comments_state \<Rightarrow> nat \<Rightarrow> nagios_comment option" where
  "find_host_comment s cid = find_comment s cid HOST_COMMENT"

definition comment_slot :: "nat \<Rightarrow> string \<Rightarrow> nat" where
  "comment_slot n host = hashfunc (Some host) None n"

definition host_cmp :: "nagios_comment \<Rightarrow> string \<Rightarrow> c_int" where
  "host_cmp c host = compare_hashdata (Some (c_host_name c)) None (Some host) None"

definition get_next_comment_by_host ::
  "comments_state \<Rightarrow> string option \<Rightarrow> nagios_comment list option \<Rightarrow> nagios_comment list" where
  "get_next_comment_by_host s host_name start =
    (case (host_name, comment_hashlist s) of
       (Some host, Some tbl) \<Rightarrow>
         (let temp = (case start of None \<Rightarrow> tbl ! comment_slot COMMENT_HASHSLOTS host | Some p \<Rightarrow> tl p);
              rest = dropWhile (\<lambda>c. host_cmp c host < 0) temp
          in case rest of [] \<Rightarrow> [] | c # _ \<Rightarrow> if host_cmp c host = 0 then rest else [])
     | _ \<Rightarrow> [])"

definition get_first_comment_by_host :: "comments_state \<Rightarrow> string option \<Rightarrow> nagios_comment list" where
  "get_first_comment_by_host s host_name = get_next_comment_by_host s host_name None"

lemma get_next_shorter:
  "length (get_next_comment_by_host s h (Some (c # cs))) \<le> length cs"
  using length_dropWhile_le [of _ cs]
  by (auto simp: get_next_comment_by_host_def Let_def split: option.splits list.splits)

text \<open>The comments a loop over \<open>get_first_comment_by_host\<close> and \<open>get_next_comment_by_host\<close> visits.\<close>

function walk_by_host :: "comments_state \<Rightarrow> string option \<Rightarrow> nagios_comment list \<Rightarrow> nagios_comment list" where
  "walk_by_host s h p =
    (case p of [] \<Rightarrow> [] | c # cs \<Rightarrow> c # walk_by_host s h (get_next_comment_by_host s h (Some (c # cs))))"
  by pat_completeness auto
termination
  by (relation "measure (\<lambda>(s, h, p). length p)") (auto simp: less_Suc_eq_le get_next_shorter)

declare walk_by_host.simps [simp del]

definition comments_by_host :: "comments_state \<Rightarrow> string option \<Rightarrow> nagios_comment list" where
  "comments_by_host s h = walk_by_host s h (get_first_comment_by_host s h)"

definition number_of_host_comments :: "comments_state \<Rightarrow> string option \<Rightarrow> nat" where
  "number_of_host_comments s host_name =
    (if host_name = None then 0
     else length (filter (\<lambda>c. c_type c = HOST_COMMENT) (comments_by_host s host_name)))"

definition number_of_service_comments :: "comments_state \<Rightarrow> string option \<Rightarrow> string option \<Rightarrow> nat" where
  "number_of_service_comments s host_name svc_description =
    (if host_name = None \<or> svc_description = None then 0
     else length (filter (\<lambda>c. c_type c = SERVICE_COMMENT \<and> c_service_description c = svc_description)
       (comments_by_host s host_name)))"

section \<open>Adding\<close>

text \<open>The hash list is created by the first comment.\<close>

definition add_comment_to_hashlist :: "bool \<Rightarrow> comments_state \<Rightarrow> nagios_comment \<Rightarrow> bool \<times> comments_state" where
  "add_comment_to_hashlist m s new =
    (case (case comment_hashlist s of None \<Rightarrow> if m then Some (replicate COMMENT_HASHSLOTS []) else None
           | Some tbl \<Rightarrow> Some tbl) of
       None \<Rightarrow> (False, s)
     | Some tbl \<Rightarrow>
         (let slot = comment_slot COMMENT_HASHSLOTS (c_host_name new);
              before = takeWhile (\<lambda>c. host_cmp c (c_host_name new) < 0) (tbl ! slot);
              after = dropWhile (\<lambda>c. host_cmp c (c_host_name new) < 0) (tbl ! slot)
          in (True, s\<lparr>comment_hashlist := Some (tbl[slot := before @ new # after])\<rparr>)))"

text \<open>The loop over the list stops at the first comment with a greater id.\<close>

definition add_comment :: "bool \<Rightarrow> comments_state \<Rightarrow> nat \<Rightarrow> nat \<Rightarrow> string option \<Rightarrow> string option \<Rightarrow> int
    \<Rightarrow> string option \<Rightarrow> string option \<Rightarrow> nat \<Rightarrow> bool \<Rightarrow> bool \<Rightarrow> int \<Rightarrow> nat \<Rightarrow> c_int \<times> comments_state" where
  "add_comment m s comment_type entry_type host_name svc_description entry_time author comment_data
      comment_id persistent expires expire_time source =
    (case (host_name, author, comment_data) of
       (Some h, Some a, Some dt) \<Rightarrow>
         if comment_type = SERVICE_COMMENT \<and> svc_description = None then (ERROR, s)
         else if \<not> m then (ERROR, s)
         else
           (let new = \<lparr>c_type = comment_type, c_entry_type = entry_type, c_id = comment_id, c_source = source,
                  c_persistent = persistent, c_entry_time = entry_time, c_expires = expires,
                  c_expire_time = expire_time, c_host_name = h,
                  c_service_description = (if comment_type = SERVICE_COMMENT then svc_description else None),
                  c_author = a, c_data = dt\<rparr>;
                (ok, s') = add_comment_to_hashlist m s new
            in if \<not> ok then (ERROR, s')
               else (OK, s'\<lparr>comment_list :=
                 (if defer_comment_sorting s' then new # comment_list s'
                  else takeWhile (\<lambda>c. \<not> comment_id < c_id c) (comment_list s') @ new #
                       dropWhile (\<lambda>c. \<not> comment_id < c_id c) (comment_list s'))\<rparr>))
     | _ \<Rightarrow> (ERROR, s))"

definition add_host_comment :: "bool \<Rightarrow> comments_state \<Rightarrow> nat \<Rightarrow> string option \<Rightarrow> int \<Rightarrow> string option
    \<Rightarrow> string option \<Rightarrow> nat \<Rightarrow> bool \<Rightarrow> bool \<Rightarrow> int \<Rightarrow> nat \<Rightarrow> c_int \<times> comments_state" where
  "add_host_comment m s entry_type host_name entry_time author comment_data comment_id persistent expires
      expire_time source =
    add_comment m s HOST_COMMENT entry_type host_name None entry_time author comment_data comment_id persistent
      expires expire_time source"

definition add_service_comment :: "bool \<Rightarrow> comments_state \<Rightarrow> nat \<Rightarrow> string option \<Rightarrow> string option \<Rightarrow> int
    \<Rightarrow> string option \<Rightarrow> string option \<Rightarrow> nat \<Rightarrow> bool \<Rightarrow> bool \<Rightarrow> int \<Rightarrow> nat \<Rightarrow> c_int \<times> comments_state" where
  "add_service_comment m s entry_type host_name svc_description entry_time author comment_data comment_id
      persistent expires expire_time source =
    add_comment m s SERVICE_COMMENT entry_type host_name svc_description entry_time author comment_data
      comment_id persistent expires expire_time source"

text \<open>The search for a free id; the length of the list bounds the number of ids in use.\<close>

fun free_comment_id :: "nat \<Rightarrow> comments_state \<Rightarrow> nat \<Rightarrow> nat \<Rightarrow> nat" where
  "free_comment_id 0 s ty cid = cid"
| "free_comment_id (Suc fuel) s ty cid =
    (if find_comment s cid ty \<noteq> None then free_comment_id fuel s ty (cid + 1) else cid)"

definition xcddefault_initialize_comment_data :: "comments_state \<Rightarrow> c_int \<times> comments_state" where
  "xcddefault_initialize_comment_data s =
    (let n = (if next_comment_id s = 0
              then fold (\<lambda>c n. if c_id c \<ge> n then c_id c + 1 else n) (comment_list s) 0
              else next_comment_id s)
     in (OK, s\<lparr>next_comment_id := (if n = 0 then 1 else n)\<rparr>))"

text \<open>Both return \<open>OK\<close> and the id they tried, whether the comment could be added or not.\<close>

definition xcddefault_add_new_host_comment :: "bool \<Rightarrow> comments_state \<Rightarrow> nat \<Rightarrow> string option \<Rightarrow> int
    \<Rightarrow> string option \<Rightarrow> string option \<Rightarrow> bool \<Rightarrow> nat \<Rightarrow> bool \<Rightarrow> int \<Rightarrow> c_int \<times> nat \<times> comments_state" where
  "xcddefault_add_new_host_comment m s entry_type host_name entry_time author comment_data persistent source
      expires expire_time =
    (let cid = free_comment_id (length (comment_list s)) s HOST_COMMENT (next_comment_id s);
         (_, s') = add_host_comment m (s\<lparr>next_comment_id := cid\<rparr>) entry_type host_name entry_time author
           comment_data cid persistent expires expire_time source
     in (OK, cid, s'\<lparr>next_comment_id := cid + 1\<rparr>))"

definition xcddefault_add_new_service_comment :: "bool \<Rightarrow> comments_state \<Rightarrow> nat \<Rightarrow> string option
    \<Rightarrow> string option \<Rightarrow> int \<Rightarrow> string option \<Rightarrow> string option \<Rightarrow> bool \<Rightarrow> nat \<Rightarrow> bool \<Rightarrow> int
    \<Rightarrow> c_int \<times> nat \<times> comments_state" where
  "xcddefault_add_new_service_comment m s entry_type host_name svc_description entry_time author comment_data
      persistent source expires expire_time =
    (let cid = free_comment_id (length (comment_list s)) s SERVICE_COMMENT (next_comment_id s);
         (_, s') = add_service_comment m (s\<lparr>next_comment_id := cid\<rparr>) entry_type host_name svc_description
           entry_time author comment_data cid persistent expires expire_time source
     in (OK, cid, s'\<lparr>next_comment_id := cid + 1\<rparr>))"

definition add_new_host_comment :: "bool \<Rightarrow> comments_state \<Rightarrow> nat \<Rightarrow> string option \<Rightarrow> int
    \<Rightarrow> string option \<Rightarrow> string option \<Rightarrow> bool \<Rightarrow> nat \<Rightarrow> bool \<Rightarrow> int \<Rightarrow> c_int \<times> nat \<times> comments_state" where
  "add_new_host_comment m s entry_type host_name entry_time author comment_data persistent source expires
      expire_time =
    xcddefault_add_new_host_comment m s entry_type host_name entry_time author comment_data persistent source
      expires expire_time"

definition add_new_service_comment :: "bool \<Rightarrow> comments_state \<Rightarrow> nat \<Rightarrow> string option
    \<Rightarrow> string option \<Rightarrow> int \<Rightarrow> string option \<Rightarrow> string option \<Rightarrow> bool \<Rightarrow> nat \<Rightarrow> bool \<Rightarrow> int
    \<Rightarrow> c_int \<times> nat \<times> comments_state" where
  "add_new_service_comment m s entry_type host_name svc_description entry_time author comment_data persistent
      source expires expire_time =
    xcddefault_add_new_service_comment m s entry_type host_name svc_description entry_time author comment_data
      persistent source expires expire_time"

text \<open>The last result is the expiry event that is scheduled: its time and the id it is for.\<close>

definition add_new_comment :: "bool \<Rightarrow> comments_state \<Rightarrow> nat \<Rightarrow> nat \<Rightarrow> string option \<Rightarrow> string option \<Rightarrow> int
    \<Rightarrow> string option \<Rightarrow> string option \<Rightarrow> bool \<Rightarrow> nat \<Rightarrow> bool \<Rightarrow> int
    \<Rightarrow> c_int \<times> nat \<times> comments_state \<times> (int \<times> nat) option" where
  "add_new_comment m s ty entry_type host_name svc_description entry_time author comment_data persistent source
      expires expire_time =
    (let (result, cid, s') =
         (if ty = HOST_COMMENT
          then add_new_host_comment m s entry_type host_name entry_time author comment_data persistent source
                 expires expire_time
          else add_new_service_comment m s entry_type host_name svc_description entry_time author comment_data
                 persistent source expires expire_time)
     in (result, cid, s', if expires then Some (expire_time, cid) else None))"

section \<open>Deleting\<close>

text \<open>The comment is unlinked from its chain and from the list.\<close>

definition delete_comment :: "comments_state \<Rightarrow> nat \<Rightarrow> nat \<Rightarrow> (c_int \<times> comments_state) ub" where
  "delete_comment s ty cid =
    (case unlink (\<lambda>c. c_id c = cid \<and> c_type c = ty) (comment_list s) of
       None \<Rightarrow> Some (ERROR, s)
     | Some (c, rest) \<Rightarrow> do {
         tbl \<leftarrow> comment_hashlist s;
         let slot = comment_slot COMMENT_HASHSLOTS (c_host_name c);
         chain \<leftarrow> arr_get tbl slot;
         Some (OK, s\<lparr>comment_hashlist := Some (tbl[slot := remove1 c chain]), comment_list := rest\<rparr>)
       })"

definition delete_host_comment :: "comments_state \<Rightarrow> nat \<Rightarrow> (c_int \<times> comments_state) ub" where
  "delete_host_comment s cid = delete_comment s HOST_COMMENT cid"

definition delete_service_comment :: "comments_state \<Rightarrow> nat \<Rightarrow> (c_int \<times> comments_state) ub" where
  "delete_service_comment s cid = delete_comment s SERVICE_COMMENT cid"

text \<open>A loop that deletes the comments of a list that satisfy a test; the next pointer is
  read before a comment is deleted, so that the visited comments are those of the start.\<close>

fun delete_each :: "(nagios_comment \<Rightarrow> bool) \<Rightarrow> nat \<Rightarrow> nagios_comment list \<Rightarrow> comments_state \<Rightarrow> comments_state ub" where
  "delete_each P ty [] s = Some s"
| "delete_each P ty (c # cs) s =
    (if P c then do { (_, s') \<leftarrow> delete_comment s ty (c_id c); delete_each P ty cs s' }
     else delete_each P ty cs s)"

definition delete_all_host_comments :: "comments_state \<Rightarrow> string option \<Rightarrow> (c_int \<times> comments_state) ub" where
  "delete_all_host_comments s host_name =
    (if host_name = None then Some (ERROR, s)
     else map_option (Pair OK)
       (delete_each (\<lambda>c. c_type c = HOST_COMMENT) HOST_COMMENT (comments_by_host s host_name) s))"

definition delete_all_service_comments ::
  "comments_state \<Rightarrow> string option \<Rightarrow> string option \<Rightarrow> (c_int \<times> comments_state) ub" where
  "delete_all_service_comments s host_name svc_description =
    (if host_name = None \<or> svc_description = None then Some (ERROR, s)
     else map_option (Pair OK)
       (delete_each (\<lambda>c. c_type c = SERVICE_COMMENT \<and> Some (c_host_name c) = host_name
            \<and> c_service_description c = svc_description) SERVICE_COMMENT (comment_list s) s))"

definition delete_all_comments ::
  "comments_state \<Rightarrow> nat \<Rightarrow> string option \<Rightarrow> string option \<Rightarrow> (c_int \<times> comments_state) ub" where
  "delete_all_comments s ty host_name svc_description =
    (if ty = HOST_COMMENT then delete_all_host_comments s host_name
     else delete_all_service_comments s host_name svc_description)"

definition delete_host_acknowledgement_comments :: "comments_state \<Rightarrow> string \<Rightarrow> (c_int \<times> comments_state) ub" where
  "delete_host_acknowledgement_comments s hst_name =
    map_option (Pair OK)
      (delete_each (\<lambda>c. c_type c = HOST_COMMENT \<and> c_entry_type c = ACKNOWLEDGEMENT_COMMENT \<and> \<not> c_persistent c)
         HOST_COMMENT (comments_by_host s (Some hst_name)) s)"

definition delete_service_acknowledgement_comments ::
  "comments_state \<Rightarrow> string \<Rightarrow> string \<Rightarrow> (c_int \<times> comments_state) ub" where
  "delete_service_acknowledgement_comments s svc_host svc_description =
    map_option (Pair OK)
      (delete_each (\<lambda>c. c_type c = SERVICE_COMMENT \<and> c_host_name c = svc_host
            \<and> c_service_description c = Some svc_description
            \<and> c_entry_type c = ACKNOWLEDGEMENT_COMMENT \<and> \<not> c_persistent c)
         SERVICE_COMMENT (comment_list s) s)"

definition check_for_expired_comment :: "int \<Rightarrow> comments_state \<Rightarrow> nat \<Rightarrow> (c_int \<times> comments_state) ub" where
  "check_for_expired_comment now s cid =
    (case find (\<lambda>c. c_id c = cid \<and> c_expires c \<and> c_expire_time c < now) (comment_list s) of
       None \<Rightarrow> Some (OK, s)
     | Some c \<Rightarrow> map_option (\<lambda>(_, s'). (OK, s')) (delete_comment s (c_type c) cid))"

section \<open>Sorting and freeing\<close>

text \<open>The difference of two \<open>unsigned long\<close> ids, cut down to \<open>int\<close>.\<close>

definition comment_compar :: "nagios_comment \<Rightarrow> nagios_comment \<Rightarrow> c_int" where
  "comment_compar c1 c2 = signed_take_bit 31 (int (c_id c1) - int (c_id c2))"

text \<open>Where \<open>malloc\<close> fails the list is left as it is, but counts as sorted from then on.\<close>

definition sort_comments :: "bool \<Rightarrow> comments_state \<Rightarrow> c_int \<times> comments_state" where
  "sort_comments m s =
    (if \<not> defer_comment_sorting s then (OK, s)
     else let s' = s\<lparr>defer_comment_sorting := False\<rparr> in
       if comment_list s' = [] then (OK, s')
       else if \<not> m then (ERROR, s')
       else (OK, s'\<lparr>comment_list := qsort comment_compar (comment_list s')\<rparr>))"

definition free_comment_data :: "comments_state \<Rightarrow> comments_state" where
  "free_comment_data s = s\<lparr>comment_hashlist := None, comment_list := []\<rparr>"

section \<open>Host names in the order of the chains\<close>

lemma host_cmp_strcmp: "host_cmp c h = strcmp (c_host_name c) h"
  by (simp add: host_cmp_def compare_hashdata_def)

definition host_le :: "nagios_comment \<Rightarrow> nagios_comment \<Rightarrow> bool" where
  "host_le a b \<longleftrightarrow> \<not> strcmp (c_host_name b) (c_host_name a) < 0"

lemma strcmp_le_less: "\<not> strcmp b a < 0 \<Longrightarrow> strcmp a h < 0 \<or> a = h \<or> strcmp b h > 0"
  by (metis linorder_less_linear strcmp_eq_0 strcmp_flip strcmp_trans)

lemma strcmp_irrefl [simp]: "strcmp h h = 0"
  by simp

lemma host_le_trans: "host_le a b \<Longrightarrow> host_le b c \<Longrightarrow> host_le a c"
  unfolding host_le_def by (metis linorder_less_linear strcmp_eq_0 strcmp_flip strcmp_trans)

interpretation cm: chained comment_slot c_host_name
  by unfold_locales (simp add: comment_slot_def hashfunc_def Let_def)

text \<open>The rest of a chain from the first comment of a host on.\<close>

lemma sorted_dropWhile_host:
  assumes "sorted_wrt host_le chain"
  shows "filter (\<lambda>c. c_host_name c = h) (dropWhile (\<lambda>c. host_cmp c h < 0) chain)
      = filter (\<lambda>c. c_host_name c = h) chain"
  by (induction chain) (auto simp: host_cmp_strcmp)

lemma sorted_head_host:
  assumes "sorted_wrt host_le (c # cs)" "\<not> host_cmp c h < 0" "host_cmp c h \<noteq> 0"
  shows "filter (\<lambda>c. c_host_name c = h) (c # cs) = []"
proof -
  have "c_host_name b \<noteq> h" if "b \<in> set cs" for b
  proof
    assume "c_host_name b = h"
    with assms that have "\<not> strcmp h (c_host_name c) < 0" "\<not> strcmp (c_host_name c) h < 0"
      "strcmp (c_host_name c) h \<noteq> 0"
      by (auto simp: host_le_def host_cmp_strcmp)
    then show False using strcmp_flip [of h "c_host_name c"] by linarith
  qed
  with assms show ?thesis by (auto simp: host_cmp_strcmp filter_empty_conv)
qed

lemma sorted_wrt_dropWhile: "sorted_wrt R xs \<Longrightarrow> sorted_wrt R (dropWhile P xs)"
  by (induction xs) auto

lemma get_next_eq:
  assumes tbl: "comment_hashlist s = Some tbl"
    and temp: "temp = (case start of None \<Rightarrow> tbl ! comment_slot COMMENT_HASHSLOTS h | Some p \<Rightarrow> tl p)"
    and sorted: "sorted_wrt host_le temp"
  shows "filter (\<lambda>c. c_host_name c = h) (get_next_comment_by_host s (Some h) start)
      = filter (\<lambda>c. c_host_name c = h) temp
    \<and> (get_next_comment_by_host s (Some h) start = []
       \<or> c_host_name (hd (get_next_comment_by_host s (Some h) start)) = h)
    \<and> sorted_wrt host_le (get_next_comment_by_host s (Some h) start)"
proof -
  let ?rest = "dropWhile (\<lambda>c. host_cmp c h < 0) temp"
  have rest: "sorted_wrt host_le ?rest" using sorted by (rule sorted_wrt_dropWhile)
  have eq: "get_next_comment_by_host s (Some h) start =
      (case ?rest of [] \<Rightarrow> [] | c # _ \<Rightarrow> if host_cmp c h = 0 then ?rest else [])"
    unfolding temp by (simp add: get_next_comment_by_host_def tbl Let_def)
  show ?thesis
  proof (cases ?rest)
    case Nil
    with sorted_dropWhile_host [OF sorted, of h] show ?thesis unfolding eq Nil by simp
  next
    case (Cons c cs)
    then have c: "\<not> host_cmp c h < 0" by (simp add: dropWhile_eq_Cons_conv)
    show ?thesis
    proof (cases "host_cmp c h = 0")
      case True
      with Cons sorted_dropWhile_host [OF sorted, of h] rest show ?thesis
        unfolding eq Cons by (simp add: host_cmp_strcmp)
    next
      case False
      with Cons sorted_head_host [of c cs h] c rest sorted_dropWhile_host [OF sorted, of h] show ?thesis
        unfolding eq Cons by simp
    qed
  qed
qed

lemma walk_by_host_filter:
  assumes "comment_hashlist s = Some tbl" "sorted_wrt host_le p" "p = [] \<or> c_host_name (hd p) = h"
  shows "walk_by_host s (Some h) p = filter (\<lambda>c. c_host_name c = h) p"
  using assms(2,3)
proof (induction "length p" arbitrary: p rule: less_induct)
  case less
  show ?case
  proof (cases p)
    case Nil
    then show ?thesis by (simp add: walk_by_host.simps)
  next
    case (Cons c cs)
    let ?next = "get_next_comment_by_host s (Some h) (Some p)"
    from Cons less.prems have sorted: "sorted_wrt host_le cs" by simp
    from get_next_eq [where start = "Some p" and h = h, OF assms(1) refl] sorted Cons
    have nxt: "filter (\<lambda>c. c_host_name c = h) ?next = filter (\<lambda>c. c_host_name c = h) cs"
      "?next = [] \<or> c_host_name (hd ?next) = h" "sorted_wrt host_le ?next" by simp_all
    have len: "length ?next < length p" using get_next_shorter [of s "Some h" c cs] Cons by simp
    have "walk_by_host s (Some h) p = c # walk_by_host s (Some h) ?next"
      by (subst walk_by_host.simps) (simp add: Cons)
    with less.hyps [OF len nxt(3,2)] nxt(1) Cons less.prems(2) show ?thesis by simp
  qed
qed

section \<open>Invariant\<close>

definition cm_key :: "nagios_comment \<Rightarrow> nat \<times> nat" where "cm_key c = (c_type c, c_id c)"

definition cm_wf :: "comments_state \<Rightarrow> bool" where
  "cm_wf s \<longleftrightarrow> distinct (map cm_key (comment_list s))
    \<and> (\<not> defer_comment_sorting s \<longrightarrow> sorted (map c_id (comment_list s)))
    \<and> (\<forall>c \<in> set (comment_list s). c_type c = SERVICE_COMMENT \<longrightarrow> c_service_description c \<noteq> None)
    \<and> (case comment_hashlist s of None \<Rightarrow> comment_list s = []
       | Some tbl \<Rightarrow> length tbl = COMMENT_HASHSLOTS \<and> cm.homed tbl
           \<and> (\<forall>chain \<in> set tbl. sorted_wrt host_le chain)
           \<and> mset (concat tbl) = mset (comment_list s))"

lemma cm_wf_free: "cm_wf (free_comment_data s)"
  by (simp add: cm_wf_def free_comment_data_def)

lemma cm_wf_next_id [simp]: "cm_wf (s\<lparr>next_comment_id := n\<rparr>) = cm_wf s"
  by (simp add: cm_wf_def split: option.split)

lemma slots_pos [simp]: "0 < COMMENT_HASHSLOTS"
  by (simp add: COMMENT_HASHSLOTS_def)

text \<open>The walk along a chain visits the comments of the list that are on the host.\<close>

lemma comments_by_host_mset:
  assumes "cm_wf s"
  shows "mset (comments_by_host s (Some h)) = filter_mset (\<lambda>c. c_host_name c = h) (mset (comment_list s))"
proof (cases "comment_hashlist s")
  case None
  with assms show ?thesis
    by (simp add: comments_by_host_def get_first_comment_by_host_def get_next_comment_by_host_def
        walk_by_host.simps cm_wf_def)
next
  case (Some tbl)
  let ?chain = "tbl ! comment_slot COMMENT_HASHSLOTS h"
  from assms Some have len: "length tbl = COMMENT_HASHSLOTS" and home: "cm.homed tbl"
    and srt: "\<forall>chain \<in> set tbl. sorted_wrt host_le chain"
    and con: "mset (concat tbl) = mset (comment_list s)" by (simp_all add: cm_wf_def)
  have "comment_slot COMMENT_HASHSLOTS h < length tbl" unfolding len by (rule cm.slot_less) simp
  with srt have "sorted_wrt host_le ?chain" by simp
  with get_next_eq [where start = None and h = h, OF Some refl]
  have first: "filter (\<lambda>c. c_host_name c = h) (get_first_comment_by_host s (Some h))
      = filter (\<lambda>c. c_host_name c = h) ?chain"
    "get_first_comment_by_host s (Some h) = [] \<or> c_host_name (hd (get_first_comment_by_host s (Some h))) = h"
    "sorted_wrt host_le (get_first_comment_by_host s (Some h))"
    by (simp_all add: get_first_comment_by_host_def)
  have "comments_by_host s (Some h) = cm.entries_for tbl h"
    using walk_by_host_filter [OF Some first(3,2)] first(1)
    by (simp add: comments_by_host_def cm.entries_for_def len)
  moreover from len slots_pos have "tbl \<noteq> []" by (metis length_0_conv less_numeral_extra(3))
  ultimately show ?thesis using cm.entries_for_concat [OF home, of h] con by simp
qed

lemma comments_by_host_set:
  "cm_wf s \<Longrightarrow> set (comments_by_host s (Some h)) = {c \<in> set (comment_list s). c_host_name c = h}"
  using arg_cong [OF comments_by_host_mset, of s set_mset h] by auto

lemma comments_by_host_distinct: "cm_wf s \<Longrightarrow> distinct (comments_by_host s (Some h))"
  by (metis comments_by_host_mset cm_wf_def distinct_filter distinct_map mset_eq_imp_distinct_iff mset_filter)

section \<open>Adding and deleting keep the invariant\<close>

lemma takeWhile_dropWhile_host:
  assumes "sorted_wrt host_le chain"
  shows "sorted_wrt host_le (takeWhile (\<lambda>c. host_cmp c (c_host_name new) < 0) chain @ new
      # dropWhile (\<lambda>c. host_cmp c (c_host_name new) < 0) chain)"
proof -
  let ?P = "\<lambda>c. host_cmp c (c_host_name new) < 0"
  have before: "host_le c new" if "c \<in> set (takeWhile ?P chain)" for c
    using set_takeWhileD [OF that] strcmp_flip [of "c_host_name new" "c_host_name c"]
      strcmp_flip [of "c_host_name c" "c_host_name new"] by (auto simp: host_le_def host_cmp_strcmp)
  have after: "host_le new c" if "c \<in> set (dropWhile ?P chain)" for c
  proof (cases "dropWhile ?P chain")
    case Nil
    with that show ?thesis by simp
  next
    case (Cons d ds)
    then have "host_le new d" by (auto simp: dropWhile_eq_Cons_conv host_le_def host_cmp_strcmp)
    moreover have "c = d \<or> host_le d c"
      using sorted_wrt_dropWhile [OF assms, of ?P] that Cons by auto
    ultimately show ?thesis using host_le_trans by blast
  qed
  have "sorted_wrt host_le (takeWhile ?P chain @ dropWhile ?P chain)" using assms by simp
  then show ?thesis unfolding sorted_wrt_append using before after by auto
qed

lemma mset_insert_while:
  "mset (takeWhile P xs @ x # dropWhile P xs) = add_mset x (mset xs)"
proof -
  have "mset (takeWhile P xs @ x # dropWhile P xs) = add_mset x (mset (takeWhile P xs @ dropWhile P xs))"
    unfolding mset_append by simp
  then show ?thesis by simp
qed

lemma sorted_insert_while:
  assumes "sorted (map f xs)"
  shows "sorted (map f (takeWhile (\<lambda>y. \<not> f x < f y) xs @ x # dropWhile (\<lambda>y. \<not> f x < f y) xs))"
  using assms
proof (induction xs)
  case (Cons y ys)
  then show ?case by (auto simp: not_less dest: set_takeWhileD set_dropWhileD intro: order_trans less_imp_le)
qed simp

text \<open>A comment that hangs in both structures.\<close>

lemma add_comment_to_hashlist_spec:
  assumes "cm_wf s"
  shows "\<exists>tbl. add_comment_to_hashlist True s new = (True, s\<lparr>comment_hashlist := Some tbl\<rparr>)
    \<and> length tbl = COMMENT_HASHSLOTS \<and> cm.homed tbl \<and> (\<forall>chain \<in> set tbl. sorted_wrt host_le chain)
    \<and> mset (concat tbl) = add_mset new (mset (comment_list s))"
proof -
  define tbl where "tbl = (case comment_hashlist s of None \<Rightarrow> replicate COMMENT_HASHSLOTS [] | Some tbl \<Rightarrow> tbl)"
  let ?i = "comment_slot COMMENT_HASHSLOTS (c_host_name new)"
  let ?P = "\<lambda>c. host_cmp c (c_host_name new) < 0"
  let ?new = "takeWhile ?P (tbl ! ?i) @ new # dropWhile ?P (tbl ! ?i)"
  have len: "length tbl = COMMENT_HASHSLOTS" and home: "cm.homed tbl"
    and srt: "\<forall>chain \<in> set tbl. sorted_wrt host_le chain"
    and con: "mset (concat tbl) = mset (comment_list s)"
    using assms by (auto simp: tbl_def cm_wf_def cm.homed_replicate split: option.splits)
  have i: "?i < length tbl" unfolding len by (rule cm.slot_less) simp
  have "add_comment_to_hashlist True s new = (True, s\<lparr>comment_hashlist := Some (tbl[?i := ?new])\<rparr>)"
    by (simp add: add_comment_to_hashlist_def tbl_def Let_def split: option.splits)
  moreover have "cm.homed (tbl[?i := ?new])"
  proof (rule cm.homed_update [OF home i])
    show "\<forall>e \<in> set ?new. comment_slot (length tbl) (c_host_name e) = ?i"
      using home i len by (auto simp: cm.homed_def dest: set_takeWhileD set_dropWhileD)
  qed
  moreover have "\<forall>chain \<in> set (tbl[?i := ?new]). sorted_wrt host_le chain"
    using srt i takeWhile_dropWhile_host [of "tbl ! ?i" new] by (auto dest!: set_update_subset_insert [THEN subsetD])
  moreover have "mset (concat (tbl[?i := ?new])) = add_mset new (mset (comment_list s))"
    using mset_concat_update [OF i, of ?new] con unfolding mset_insert_while by simp
  ultimately show ?thesis by (intro exI [of _ "tbl[?i := ?new]"]) (simp add: len)
qed

lemma remove1_sorted_wrt: "sorted_wrt R xs \<Longrightarrow> sorted_wrt R (remove1 x xs)"
  by (induction xs) (auto dest: notin_set_remove1)

lemma unlink_subset: "unlink P xs = Some (x, ys) \<Longrightarrow> set ys \<subseteq> set xs \<and> x \<in> set xs"
  by (induction xs arbitrary: ys) (auto split: if_splits)

text \<open>With unique keys, the list that remains is the list without the comment.\<close>

lemma unlink_unique:
  "distinct (map cm_key xs) \<Longrightarrow> unlink (\<lambda>c. c_id c = cid \<and> c_type c = ty) xs = Some (c, ys)
    \<Longrightarrow> ys = filter (\<lambda>c. cm_key c \<noteq> (ty, cid)) xs \<and> cm_key c = (ty, cid)"
proof (induction xs arbitrary: ys)
  case (Cons x xs)
  show ?case
  proof (cases "cm_key x = (ty, cid)")
    case True
    with Cons.prems(1) have "filter (\<lambda>c. cm_key c \<noteq> (ty, cid)) xs = xs"
      by (auto simp: filter_id_conv) (metis image_eqI)
    with Cons.prems(2) True show ?thesis by (simp add: cm_key_def)
  next
    case False
    with Cons.prems(2) obtain zs where zs: "unlink (\<lambda>c. c_id c = cid \<and> c_type c = ty) xs = Some (c, zs)" "ys = x # zs"
      by (auto simp: cm_key_def split: if_splits)
    from Cons.prems(1) have "distinct (map cm_key xs)" by simp
    with Cons.IH [OF _ zs(1)] zs(2) False show ?thesis by simp
  qed
qed simp

lemma delete_comment_spec:
  assumes "cm_wf s"
  shows "if find_comment s cid ty = None then delete_comment s ty cid = Some (ERROR, s)
    else \<exists>s'. delete_comment s ty cid = Some (OK, s') \<and> cm_wf s'
      \<and> comment_list s' = filter (\<lambda>c. cm_key c \<noteq> (ty, cid)) (comment_list s)
      \<and> next_comment_id s' = next_comment_id s \<and> defer_comment_sorting s' = defer_comment_sorting s"
proof (cases "unlink (\<lambda>c. c_id c = cid \<and> c_type c = ty) (comment_list s)")
  case None
  moreover from None have "find_comment s cid ty = None"
    by (simp add: find_comment_def find_filter unlink_None)
  ultimately show ?thesis by (simp add: delete_comment_def)
next
  case (Some r)
  obtain c rest where r: "r = (c, rest)" by (cases r)
  note u = Some [unfolded r]
  from assms have dist: "distinct (map cm_key (comment_list s))" by (simp add: cm_wf_def)
  from unlink_unique [OF dist u] have rest: "rest = filter (\<lambda>c. cm_key c \<noteq> (ty, cid)) (comment_list s)"
    and key: "cm_key c = (ty, cid)" by simp_all
  from unlink_Some [OF u] have ms: "mset (comment_list s) = add_mset c (mset rest)"
    and found: "find_comment s cid ty \<noteq> None" by (auto simp: find_comment_def find_filter)
  have c: "c \<in> set (comment_list s)" using unlink_subset [OF u] by simp
  with assms obtain tbl where tbl: "comment_hashlist s = Some tbl" by (auto simp: cm_wf_def split: option.splits)
  from assms tbl have len: "length tbl = COMMENT_HASHSLOTS" and home: "cm.homed tbl"
    and srt: "\<forall>chain \<in> set tbl. sorted_wrt host_le chain"
    and con: "mset (concat tbl) = mset (comment_list s)" by (simp_all add: cm_wf_def)
  let ?i = "comment_slot COMMENT_HASHSLOTS (c_host_name c)"
  let ?tbl = "tbl[?i := remove1 c (tbl ! ?i)]"
  have i: "?i < length tbl" unfolding len by (rule cm.slot_less) simp
  from con c have "c \<in> set (concat tbl)" by (metis set_mset_mset)
  then obtain chain where "chain \<in> set tbl" "c \<in> set chain" by auto
  then obtain j where "j < length tbl" "c \<in> set (tbl ! j)" by (metis in_set_conv_nth)
  with home len have inn: "c \<in> set (tbl ! ?i)" by (auto simp: cm.homed_def)
  have run: "delete_comment s ty cid =
      Some (OK, s\<lparr>comment_hashlist := Some ?tbl, comment_list := rest\<rparr>)"
    by (simp add: delete_comment_def u tbl arr_get_def i Let_def)
  have "cm.homed ?tbl"
    using home i len by (intro cm.homed_update) (auto simp: cm.homed_def dest: notin_set_remove1)
  moreover have "\<forall>chain \<in> set ?tbl. sorted_wrt host_le chain"
    using srt i by (auto dest!: set_update_subset_insert [THEN subsetD] intro: remove1_sorted_wrt)
  moreover have "mset (concat ?tbl) = mset rest"
    using mset_concat_update [OF i, of "remove1 c (tbl ! ?i)"] con ms inn
    by (simp add: multiset_eq_iff)
  ultimately have "cm_wf (s\<lparr>comment_hashlist := Some ?tbl, comment_list := rest\<rparr>)"
    using assms dist by (auto simp: cm_wf_def len rest distinct_map_filter sorted_filter)
  with found show ?thesis by (simp add: run rest)
qed

text \<open>A loop of deletions deletes the visited comments that it selects.\<close>

lemma delete_each_spec:
  assumes "cm_wf s" "distinct vs" "set vs \<subseteq> set (comment_list s)" "\<forall>c \<in> set vs. P c \<longrightarrow> c_type c = ty"
  shows "\<exists>s'. delete_each P ty vs s = Some s' \<and> cm_wf s'
    \<and> comment_list s' = filter (\<lambda>c. \<not> (P c \<and> c \<in> set vs)) (comment_list s)
    \<and> next_comment_id s' = next_comment_id s \<and> defer_comment_sorting s' = defer_comment_sorting s"
  using assms
proof (induction vs arbitrary: s)
  case (Cons v vs)
  show ?case
  proof (cases "P v")
    case True
    then have "find_comment s (c_id v) ty \<noteq> None"
      using Cons.prems by (auto simp: find_comment_def find_None_iff)
    with delete_comment_spec [OF Cons.prems(1), of "c_id v" ty] obtain s1
      where s1: "delete_comment s ty (c_id v) = Some (OK, s1)" "cm_wf s1"
        "comment_list s1 = filter (\<lambda>c. cm_key c \<noteq> (ty, c_id v)) (comment_list s)"
        "next_comment_id s1 = next_comment_id s" "defer_comment_sorting s1 = defer_comment_sorting s" by auto
    have inj: "inj_on cm_key (set (comment_list s))" using Cons.prems(1) by (simp add: cm_wf_def distinct_map)
    have key: "cm_key v = (ty, c_id v)" using Cons.prems True by (simp add: cm_key_def)
    have list: "comment_list s1 = filter (\<lambda>c. c \<noteq> v) (comment_list s)"
      unfolding s1(3) key [symmetric] using inj Cons.prems(3) by (auto intro!: filter_cong dest: inj_onD)
    then have "set vs \<subseteq> set (comment_list s1)" using Cons.prems(2,3) by auto
    with Cons.IH [OF s1(2)] Cons.prems(2,4) obtain s2 where
      "delete_each P ty vs s1 = Some s2" "cm_wf s2"
      "comment_list s2 = filter (\<lambda>c. \<not> (P c \<and> c \<in> set vs)) (comment_list s1)"
      "next_comment_id s2 = next_comment_id s1" "defer_comment_sorting s2 = defer_comment_sorting s1" by auto
    note s2 = this
    have "comment_list s2 = filter (\<lambda>c. \<not> (P c \<and> c \<in> set (v # vs))) (comment_list s)"
      unfolding s2(3) list filter_filter using True by (intro filter_cong) auto
    with s1(1,4,5) s2(1,2,4,5) True show ?thesis by simp
  next
    case False
    with Cons.IH [OF Cons.prems(1)] Cons.prems(2-4) obtain s2 where
      "delete_each P ty vs s = Some s2" "cm_wf s2"
      "comment_list s2 = filter (\<lambda>c. \<not> (P c \<and> c \<in> set vs)) (comment_list s)"
      "next_comment_id s2 = next_comment_id s" "defer_comment_sorting s2 = defer_comment_sorting s" by auto
    with False show ?thesis by (auto intro!: filter_cong)
  qed
qed simp

lemma comment_list_distinct: "cm_wf s \<Longrightarrow> distinct (comment_list s)"
  by (simp add: cm_wf_def distinct_map)

lemma delete_all_host_spec:
  assumes "cm_wf s"
  shows "\<exists>s'. delete_all_host_comments s (Some h) = Some (OK, s') \<and> cm_wf s'
    \<and> comment_list s' = filter (\<lambda>c. \<not> (c_type c = HOST_COMMENT \<and> c_host_name c = h)) (comment_list s)"
proof -
  from delete_each_spec [OF assms comments_by_host_distinct [OF assms, of h],
      of "\<lambda>c. c_type c = HOST_COMMENT" HOST_COMMENT] comments_by_host_set [OF assms, of h]
  obtain s' where s': "delete_each (\<lambda>c. c_type c = HOST_COMMENT) HOST_COMMENT (comments_by_host s (Some h)) s = Some s'"
    "cm_wf s'" "comment_list s' = filter (\<lambda>c. \<not> (c_type c = HOST_COMMENT \<and> c \<in> set (comments_by_host s (Some h)))) (comment_list s)"
    by auto
  then show ?thesis using comments_by_host_set [OF assms, of h]
    by (auto simp: delete_all_host_comments_def intro!: filter_cong)
qed

lemma delete_host_ack_spec:
  assumes "cm_wf s"
  shows "\<exists>s'. delete_host_acknowledgement_comments s h = Some (OK, s') \<and> cm_wf s'
    \<and> comment_list s' = filter (\<lambda>c. \<not> (c_type c = HOST_COMMENT \<and> c_host_name c = h
        \<and> c_entry_type c = ACKNOWLEDGEMENT_COMMENT \<and> \<not> c_persistent c)) (comment_list s)"
proof -
  let ?P = "\<lambda>c. c_type c = HOST_COMMENT \<and> c_entry_type c = ACKNOWLEDGEMENT_COMMENT \<and> \<not> c_persistent c"
  from delete_each_spec [OF assms comments_by_host_distinct [OF assms, of h], of ?P HOST_COMMENT]
    comments_by_host_set [OF assms, of h]
  obtain s' where s': "delete_each ?P HOST_COMMENT (comments_by_host s (Some h)) s = Some s'"
    "cm_wf s'" "comment_list s' = filter (\<lambda>c. \<not> (?P c \<and> c \<in> set (comments_by_host s (Some h)))) (comment_list s)"
    by auto
  then show ?thesis using comments_by_host_set [OF assms, of h]
    by (auto simp: delete_host_acknowledgement_comments_def intro!: filter_cong)
qed

lemma delete_all_service_spec:
  assumes "cm_wf s"
  shows "\<exists>s'. delete_all_service_comments s (Some h) (Some d) = Some (OK, s') \<and> cm_wf s'
    \<and> comment_list s' = filter (\<lambda>c. \<not> (c_type c = SERVICE_COMMENT \<and> c_host_name c = h
        \<and> c_service_description c = Some d)) (comment_list s)"
proof -
  let ?P = "\<lambda>c. c_type c = SERVICE_COMMENT \<and> Some (c_host_name c) = Some h \<and> c_service_description c = Some d"
  from delete_each_spec [OF assms comment_list_distinct [OF assms], of ?P SERVICE_COMMENT]
  obtain s' where "delete_each ?P SERVICE_COMMENT (comment_list s) s = Some s'"
    "cm_wf s'" "comment_list s' = filter (\<lambda>c. \<not> (?P c \<and> c \<in> set (comment_list s))) (comment_list s)"
    by auto
  then show ?thesis by (auto simp: delete_all_service_comments_def intro!: filter_cong)
qed

lemma delete_service_ack_spec:
  assumes "cm_wf s"
  shows "\<exists>s'. delete_service_acknowledgement_comments s h d = Some (OK, s') \<and> cm_wf s'
    \<and> comment_list s' = filter (\<lambda>c. \<not> (c_type c = SERVICE_COMMENT \<and> c_host_name c = h
        \<and> c_service_description c = Some d \<and> c_entry_type c = ACKNOWLEDGEMENT_COMMENT \<and> \<not> c_persistent c)) (comment_list s)"
proof -
  let ?P = "\<lambda>c. c_type c = SERVICE_COMMENT \<and> c_host_name c = h \<and> c_service_description c = Some d
      \<and> c_entry_type c = ACKNOWLEDGEMENT_COMMENT \<and> \<not> c_persistent c"
  from delete_each_spec [OF assms comment_list_distinct [OF assms], of ?P SERVICE_COMMENT]
  obtain s' where "delete_each ?P SERVICE_COMMENT (comment_list s) s = Some s'"
    "cm_wf s'" "comment_list s' = filter (\<lambda>c. \<not> (?P c \<and> c \<in> set (comment_list s))) (comment_list s)"
    by auto
  then show ?thesis by (auto simp: delete_service_acknowledgement_comments_def intro!: filter_cong)
qed

text \<open>The search for a free id succeeds within the length of the list.\<close>

lemma free_comment_id_ge: "cid \<le> free_comment_id n s ty cid"
  by (induction n arbitrary: cid) (auto intro: Suc_leD)

lemma free_comment_id_stops:
  "find_comment s (free_comment_id n s ty cid) ty \<noteq> None \<Longrightarrow>
    free_comment_id n s ty cid = cid + n \<and> (\<forall>k \<le> n. find_comment s (cid + k) ty \<noteq> None)"
proof (induction n arbitrary: cid)
  case (Suc n)
  then have now: "find_comment s cid ty \<noteq> None" by (auto split: if_splits)
  with Suc.prems have "find_comment s (free_comment_id n s ty (cid + 1)) ty \<noteq> None" by simp
  with Suc.IH [of "cid + 1"] have rest: "free_comment_id n s ty (cid + 1) = cid + 1 + n"
    "\<forall>k \<le> n. find_comment s (cid + 1 + k) ty \<noteq> None" by simp_all
  have "find_comment s (cid + k) ty \<noteq> None" if "k \<le> Suc n" for k
    using now rest(2) that by (cases k) simp_all
  with now rest(1) show ?case by simp
qed simp

lemma find_comment_ids: "find_comment s cid ty \<noteq> None \<longleftrightarrow> cid \<in> c_id ` {c \<in> set (comment_list s). c_type c = ty}"
  by (auto simp: find_comment_def find_None_iff)

lemma free_comment_id_free: "find_comment s (free_comment_id (length (comment_list s)) s ty cid) ty = None"
proof (rule ccontr)
  let ?n = "length (comment_list s)" let ?ids = "c_id ` set (comment_list s)"
  assume "\<not> ?thesis"
  with free_comment_id_stops [of s ?n ty cid] have "\<forall>k \<le> ?n. find_comment s (cid + k) ty \<noteq> None" by blast
  then have "(\<lambda>k. cid + k) ` {..?n} \<subseteq> ?ids"
    unfolding find_comment_ids by (blast intro: subsetI)
  then have "card ((\<lambda>k. cid + k) ` {..?n}) \<le> card ?ids" by (intro card_mono) simp_all
  moreover have "card ?ids \<le> ?n" using card_image_le [of "set (comment_list s)" c_id] card_length [of "comment_list s"] by simp
  ultimately show False by (simp add: card_image inj_on_def)
qed

definition insert_comment :: "nagios_comment \<Rightarrow> comments_state \<Rightarrow> nagios_comment list" where
  "insert_comment new s = (if defer_comment_sorting s then new # comment_list s
     else takeWhile (\<lambda>c. \<not> c_id new < c_id c) (comment_list s) @ new #
       dropWhile (\<lambda>c. \<not> c_id new < c_id c) (comment_list s))"

lemma insert_comment_mset: "mset (insert_comment new s) = add_mset new (mset (comment_list s))"
  by (simp add: insert_comment_def mset_insert_while del: mset_append)

lemma add_comment_spec:
  assumes "cm_wf s" "find_comment s cid ty = None" "ty = SERVICE_COMMENT \<longrightarrow> d \<noteq> None"
    and new: "new = \<lparr>c_type = ty, c_entry_type = et, c_id = cid, c_source = src, c_persistent = per,
    c_entry_time = tm, c_expires = ex, c_expire_time = ext, c_host_name = h,
    c_service_description = (if ty = SERVICE_COMMENT then d else None), c_author = a, c_data = dt\<rparr>"
  shows "\<exists>s'. add_comment True s ty et (Some h) d tm (Some a) (Some dt) cid per ex ext src = (OK, s') \<and> cm_wf s'
    \<and> comment_list s' = insert_comment new s \<and> next_comment_id s' = next_comment_id s
    \<and> defer_comment_sorting s' = defer_comment_sorting s"
proof -
  from add_comment_to_hashlist_spec [OF assms(1), of new] obtain tbl where tbl:
    "add_comment_to_hashlist True s new = (True, s\<lparr>comment_hashlist := Some tbl\<rparr>)"
    "length tbl = COMMENT_HASHSLOTS" "cm.homed tbl" "\<forall>chain \<in> set tbl. sorted_wrt host_le chain"
    "mset (concat tbl) = add_mset new (mset (comment_list s))" by blast
  let ?s = "s\<lparr>comment_hashlist := Some tbl, comment_list := insert_comment new s\<rparr>"
  have "add_comment True s ty et (Some h) d tm (Some a) (Some dt) cid per ex ext src = (OK, ?s)"
    using assms(3) tbl(1) by (simp add: add_comment_def Let_def new insert_comment_def)
  moreover have "distinct (map cm_key (insert_comment new s))"
  proof -
    have "cm_key new \<notin> cm_key ` set (comment_list s)"
      using assms(2) by (auto simp: find_comment_def find_None_iff cm_key_def new)
    with assms(1) have "distinct (map cm_key (new # comment_list s))" by (simp add: cm_wf_def)
    moreover have "mset (map cm_key (insert_comment new s)) = mset (map cm_key (new # comment_list s))"
      by (simp add: insert_comment_mset)
    ultimately show ?thesis by (metis mset_eq_imp_distinct_iff)
  qed
  moreover have "\<not> defer_comment_sorting s \<longrightarrow> sorted (map c_id (insert_comment new s))"
    using assms(1) sorted_insert_while [of c_id "comment_list s" new]
    by (auto simp: insert_comment_def cm_wf_def simp del: map_append)
  moreover have "set (insert_comment new s) = insert new (set (comment_list s))"
    using arg_cong [OF insert_comment_mset, of set_mset] by simp
  ultimately show ?thesis using assms(1,3) tbl
    by (auto simp: cm_wf_def insert_comment_mset new)
qed

text \<open>Adding through the front door.\<close>

lemma add_new_comment_spec:
  assumes "cm_wf s" "ty = HOST_COMMENT \<or> ty = SERVICE_COMMENT" "ty = SERVICE_COMMENT \<longrightarrow> d \<noteq> None"
  shows "\<exists>cid s' new. add_new_comment True s ty et (Some h) d tm (Some a) (Some dt) per src ex ext
        = (OK, cid, s', if ex then Some (ext, cid) else None)
    \<and> find_comment s cid ty = None \<and> next_comment_id s \<le> cid \<and> next_comment_id s' = cid + 1
    \<and> cm_wf s' \<and> mset (comment_list s') = add_mset new (mset (comment_list s))
    \<and> find_comment s' cid ty = Some new \<and> c_host_name new = h \<and> c_data new = dt
    \<and> c_persistent new = per \<and> c_entry_type new = et \<and> c_expires new = ex
    \<and> c_service_description new = (if ty = SERVICE_COMMENT then d else None)"
proof -
  define cid where "cid = free_comment_id (length (comment_list s)) s ty (next_comment_id s)"
  define new where "new = \<lparr>c_type = ty, c_entry_type = et, c_id = cid, c_source = src, c_persistent = per,
    c_entry_time = tm, c_expires = ex, c_expire_time = ext, c_host_name = h,
    c_service_description = (if ty = SERVICE_COMMENT then d else None), c_author = a, c_data = dt\<rparr>"
  let ?s = "s\<lparr>next_comment_id := cid\<rparr>"
  have free: "find_comment s cid ty = None" unfolding cid_def by (rule free_comment_id_free)
  moreover have "cm_wf ?s" using assms(1) by simp
  moreover from free have "find_comment ?s cid ty = None" by (simp add: find_comment_def)
  ultimately obtain s1 where s1: "add_comment True ?s ty et (Some h) d tm (Some a) (Some dt) cid per ex ext src = (OK, s1)"
    "cm_wf s1" "comment_list s1 = insert_comment new ?s"
    using add_comment_spec [OF _ _ assms(3) new_def] by blast
  let ?s' = "s1\<lparr>next_comment_id := cid + 1\<rparr>"
  have run: "add_new_comment True s ty et (Some h) d tm (Some a) (Some dt) per src ex ext
        = (OK, cid, ?s', if ex then Some (ext, cid) else None)"
    using assms(2)
  proof
    assume ty: "ty = HOST_COMMENT"
    have "add_comment True ?s ty et (Some h) None tm (Some a) (Some dt) cid per ex ext src
        = add_comment True ?s ty et (Some h) d tm (Some a) (Some dt) cid per ex ext src"
      by (simp add: add_comment_def ty)
    with s1(1) show ?thesis unfolding cid_def ty add_new_comment_def add_new_host_comment_def
      xcddefault_add_new_host_comment_def add_host_comment_def Let_def by simp
  next
    assume ty: "ty = SERVICE_COMMENT"
    with s1(1) show ?thesis unfolding cid_def ty add_new_comment_def add_new_service_comment_def
      xcddefault_add_new_service_comment_def add_service_comment_def Let_def by simp
  qed
  have ms: "mset (comment_list ?s') = add_mset new (mset (comment_list s))"
    by (simp add: s1(3) insert_comment_mset)
  have wf': "cm_wf ?s'" using s1(2) by simp
  have in_list: "new \<in> set (comment_list ?s')" using arg_cong [OF ms, of set_mset] by simp
  have "find_comment ?s' cid ty \<noteq> None"
    unfolding find_comment_ids
    by (rule image_eqI [of _ _ new]) (use in_list in \<open>simp_all add: new_def\<close>)
  then obtain c where c: "find_comment ?s' cid ty = Some c" by auto
  then have "c \<in> set (comment_list ?s')" "cm_key c = cm_key new"
    by (auto simp: find_comment_def find_Some_iff cm_key_def new_def)
  with in_list wf' have "c = new" by (auto simp: cm_wf_def distinct_map dest: inj_onD)
  with c run ms wf' free free_comment_id_ge [of "next_comment_id s" "length (comment_list s)" s ty] show ?thesis
    by (intro exI [of _ cid] exI [of _ ?s'] exI [of _ new]) (simp add: new_def cid_def [symmetric])
qed

section \<open>Properties\<close>

text \<open>C21. A new comment of either kind gets an id that no comment of its kind has, at least the
  next id of the daemon; it is added to both structures and nothing else changes.  The expiry event
  is scheduled exactly for a comment that expires.\<close>

theorem add_new_comment_fresh:
  assumes "cm_wf s" "ty = HOST_COMMENT \<or> ty = SERVICE_COMMENT" "ty = SERVICE_COMMENT \<longrightarrow> d \<noteq> None"
  shows "\<exists>cid s' new. add_new_comment True s ty et (Some h) d tm (Some a) (Some dt) per src ex ext
        = (OK, cid, s', if ex then Some (ext, cid) else None)
    \<and> find_comment s cid ty = None \<and> next_comment_id s \<le> cid \<and> next_comment_id s' = cid + 1
    \<and> cm_wf s' \<and> mset (comment_list s') = add_mset new (mset (comment_list s))
    \<and> find_comment s' cid ty = Some new \<and> c_host_name new = h \<and> c_data new = dt
    \<and> c_persistent new = per \<and> c_entry_type new = et \<and> c_expires new = ex
    \<and> c_service_description new = (if ty = SERVICE_COMMENT then d else None)"
  by (rule add_new_comment_spec [OF assms])

definition no_comments :: comments_state where
  "no_comments = \<lparr>comment_list = [], comment_hashlist = None, next_comment_id = 1, defer_comment_sorting = False\<rparr>"

lemma no_comments_wf: "cm_wf no_comments"
  by (simp add: cm_wf_def no_comments_def)

theorem add_new_comment_fresh_witness:
  "\<exists>cid s' new. add_new_comment True no_comments HOST_COMMENT USER_COMMENT (Some ''web'') None 7 (Some ''me'')
        (Some ''disk swapped'') True 0 False 0 = (OK, cid, s', if False then Some (0, cid) else None)
    \<and> find_comment no_comments cid HOST_COMMENT = None \<and> next_comment_id no_comments \<le> cid
    \<and> next_comment_id s' = cid + 1
    \<and> cm_wf s' \<and> mset (comment_list s') = add_mset new (mset (comment_list no_comments))
    \<and> find_comment s' cid HOST_COMMENT = Some new \<and> c_host_name new = ''web'' \<and> c_data new = ''disk swapped''
    \<and> c_persistent new = True \<and> c_entry_type new = USER_COMMENT \<and> c_expires new = False
    \<and> c_service_description new = (if HOST_COMMENT = SERVICE_COMMENT then None else None)"
  by (rule add_new_comment_fresh [OF no_comments_wf]) simp_all

text \<open>A comment that cannot be added, for a missing author or a failed allocation, is reported
  as added all the same: the caller gets \<open>OK\<close> and an id that belongs to no comment.\<close>

theorem failed_comment_reported_ok:
  assumes "\<not> m \<or> a = None"
  shows "\<exists>cid s'. add_new_comment m s HOST_COMMENT et h d tm a dt per src ex ext
        = (OK, cid, s', if ex then Some (ext, cid) else None)
    \<and> comment_list s' = comment_list s \<and> find_comment s' cid HOST_COMMENT = None"
proof -
  let ?cid = "free_comment_id (length (comment_list s)) s HOST_COMMENT (next_comment_id s)"
  from assms have "add_comment m (s\<lparr>next_comment_id := ?cid\<rparr>) HOST_COMMENT et h None tm a dt ?cid per ex ext src
      = (ERROR, s\<lparr>next_comment_id := ?cid\<rparr>)"
    by (auto simp: add_comment_def split: option.splits)
  moreover from free_comment_id_free [of s "HOST_COMMENT" "next_comment_id s"]
  have "find_comment (s\<lparr>next_comment_id := ?cid + 1\<rparr>) ?cid HOST_COMMENT = None"
    by (simp add: find_comment_def)
  moreover have "add_new_comment m s HOST_COMMENT et h d tm a dt per src ex ext =
      (OK, ?cid, s\<lparr>next_comment_id := ?cid + 1\<rparr>, if ex then Some (ext, ?cid) else None)"
    using calculation(1) unfolding add_new_comment_def add_new_host_comment_def
      xcddefault_add_new_host_comment_def add_host_comment_def Let_def by simp
  ultimately show ?thesis by (intro exI [of _ ?cid] exI [of _ "s\<lparr>next_comment_id := ?cid + 1\<rparr>"]) simp
qed

theorem failed_comment_reported_ok_witness:
  "\<exists>cid s'. add_new_comment True no_comments HOST_COMMENT USER_COMMENT (Some ''web'') None 7 None
        (Some ''disk swapped'') True 0 False 0 = (OK, cid, s', if False then Some (0, cid) else None)
    \<and> comment_list s' = comment_list no_comments \<and> find_comment s' cid HOST_COMMENT = None"
  by (rule failed_comment_reported_ok) simp

text \<open>C22. The deletion of a comment by its kind and id removes that comment and no other from both
  structures, and returns \<open>ERROR\<close>, with the state unchanged, exactly if there is none.\<close>

theorem delete_comment_exact:
  assumes "cm_wf s"
  shows "if find_comment s cid ty = None then delete_comment s ty cid = Some (ERROR, s)
    else \<exists>s'. delete_comment s ty cid = Some (OK, s') \<and> cm_wf s'
      \<and> comment_list s' = filter (\<lambda>c. (c_type c, c_id c) \<noteq> (ty, cid)) (comment_list s)"
  using delete_comment_spec [OF assms, of cid ty] unfolding cm_key_def by auto

definition a_comment :: "nat \<Rightarrow> string \<Rightarrow> nagios_comment" where
  "a_comment cid h = \<lparr>c_type = HOST_COMMENT, c_entry_type = ACKNOWLEDGEMENT_COMMENT, c_id = cid, c_source = 0,
    c_persistent = False, c_entry_time = 7, c_expires = True, c_expire_time = 90, c_host_name = h,
    c_service_description = None, c_author = ''me'', c_data = ''on it''\<rparr>"

definition some_comments :: comments_state where
  "some_comments = snd (add_comment_to_hashlist True (snd (add_comment_to_hashlist True
     \<lparr>comment_list = [a_comment 1 ''web'', a_comment 2 ''db''], comment_hashlist = None,
      next_comment_id = 3, defer_comment_sorting = False\<rparr> (a_comment 1 ''web''))) (a_comment 2 ''db''))"

lemma some_comments_wf: "cm_wf some_comments"
proof -
  let ?s0 = "no_comments\<lparr>next_comment_id := 3\<rparr>"
  have wf0: "cm_wf ?s0" by (simp add: cm_wf_def no_comments_def)
  from add_comment_to_hashlist_spec [OF wf0, of "a_comment 1 ''web''"] obtain t1 where t1:
    "add_comment_to_hashlist True ?s0 (a_comment 1 ''web'') = (True, ?s0\<lparr>comment_hashlist := Some t1\<rparr>)"
    "length t1 = COMMENT_HASHSLOTS" "cm.homed t1" "\<forall>chain \<in> set t1. sorted_wrt host_le chain"
    "mset (concat t1) = {#a_comment 1 ''web''#}" by (auto simp: no_comments_def)
  let ?s1 = "?s0\<lparr>comment_list := [a_comment 1 ''web''], comment_hashlist := Some t1\<rparr>"
  from t1 have wf1: "cm_wf ?s1" by (simp add: cm_wf_def a_comment_def)
  from add_comment_to_hashlist_spec [OF wf1, of "a_comment 2 ''db''"] obtain t2 where t2:
    "add_comment_to_hashlist True ?s1 (a_comment 2 ''db'') = (True, ?s1\<lparr>comment_hashlist := Some t2\<rparr>)"
    "length t2 = COMMENT_HASHSLOTS" "cm.homed t2" "\<forall>chain \<in> set t2. sorted_wrt host_le chain"
    "mset (concat t2) = {#a_comment 2 ''db'', a_comment 1 ''web''#}" by (auto simp: add_mset_commute)
  have indep: "\<exists>t. add_comment_to_hashlist True s c = (True, s\<lparr>comment_hashlist := Some t\<rparr>)
      \<and> add_comment_to_hashlist True (s\<lparr>comment_list := xs\<rparr>) c
        = (True, s\<lparr>comment_list := xs, comment_hashlist := Some t\<rparr>)" for s c xs
    by (cases "comment_hashlist s") (auto simp: add_comment_to_hashlist_def Let_def)
  have "some_comments = ?s1\<lparr>comment_list := [a_comment 1 ''web'', a_comment 2 ''db''], comment_hashlist := Some t2\<rparr>"
    using t1(1) t2(1) indep [of ?s0 "a_comment 1 ''web''" "[a_comment 1 ''web'', a_comment 2 ''db'']"]
      indep [of ?s1 "a_comment 2 ''db''" "[a_comment 1 ''web'', a_comment 2 ''db'']"]
    by (auto simp: some_comments_def no_comments_def)
  moreover have "cm_wf \<dots>"
    using t2(2-5) by (simp add: cm_wf_def a_comment_def add_mset_commute no_comments_def cm_key_def)
  ultimately show ?thesis by simp
qed

lemma some_comments_list: "comment_list some_comments = [a_comment 1 ''web'', a_comment 2 ''db'']"
  by (simp add: some_comments_def add_comment_to_hashlist_def Let_def split: option.splits)

theorem delete_comment_exact_witness:
  "if find_comment some_comments 2 HOST_COMMENT = None then delete_comment some_comments HOST_COMMENT 2 = Some (ERROR, some_comments)
    else \<exists>s'. delete_comment some_comments HOST_COMMENT 2 = Some (OK, s') \<and> cm_wf s'
      \<and> comment_list s' = filter (\<lambda>c. (c_type c, c_id c) \<noteq> (HOST_COMMENT, 2)) (comment_list some_comments)"
  by (rule delete_comment_exact [OF some_comments_wf])

text \<open>C23. Walking the chain of a host counts the comments of the whole list that are on the host,
  or on its service.\<close>

theorem comment_counts:
  assumes "cm_wf s"
  shows "number_of_host_comments s (Some h)
      = length (filter (\<lambda>c. c_type c = HOST_COMMENT \<and> c_host_name c = h) (comment_list s))
    \<and> number_of_service_comments s (Some h) (Some d)
      = length (filter (\<lambda>c. c_type c = SERVICE_COMMENT \<and> c_host_name c = h \<and> c_service_description c = Some d) (comment_list s))"
proof -
  have count: "length (filter P (comments_by_host s (Some h)))
      = length (filter (\<lambda>c. P c \<and> c_host_name c = h) (comment_list s))" for P
  proof -
    have "mset (filter P (comments_by_host s (Some h)))
        = mset (filter (\<lambda>c. P c \<and> c_host_name c = h) (comment_list s))"
      by (simp add: comments_by_host_mset [OF assms] filter_filter_mset conj_commute)
    then show ?thesis by (rule mset_eq_length)
  qed
  show ?thesis unfolding number_of_host_comments_def number_of_service_comments_def
    by (simp add: count conj_ac)
qed

theorem comment_counts_witness:
  "number_of_host_comments some_comments (Some ''web'')
      = length (filter (\<lambda>c. c_type c = HOST_COMMENT \<and> c_host_name c = ''web'') (comment_list some_comments))
    \<and> number_of_service_comments some_comments (Some ''web'') (Some ''http'')
      = length (filter (\<lambda>c. c_type c = SERVICE_COMMENT \<and> c_host_name c = ''web''
          \<and> c_service_description c = Some ''http'') (comment_list some_comments))"
  by (rule comment_counts [OF some_comments_wf])

text \<open>C24. The loops that delete while they walk, over a chain for a host and over the list for a
  service, remove exactly the comments they are for, the acknowledgement loops only those that are not
  persistent, and keep the invariant.\<close>

theorem delete_loops_exact:
  assumes "cm_wf s"
  shows "(\<exists>s'. delete_all_comments s HOST_COMMENT (Some h) d = Some (OK, s') \<and> cm_wf s'
      \<and> comment_list s' = filter (\<lambda>c. \<not> (c_type c = HOST_COMMENT \<and> c_host_name c = h)) (comment_list s))
    \<and> (\<exists>s'. delete_all_comments s SERVICE_COMMENT (Some h) (Some e) = Some (OK, s') \<and> cm_wf s'
      \<and> comment_list s' = filter (\<lambda>c. \<not> (c_type c = SERVICE_COMMENT \<and> c_host_name c = h
          \<and> c_service_description c = Some e)) (comment_list s))
    \<and> (\<exists>s'. delete_host_acknowledgement_comments s h = Some (OK, s') \<and> cm_wf s'
      \<and> comment_list s' = filter (\<lambda>c. \<not> (c_type c = HOST_COMMENT \<and> c_host_name c = h
          \<and> c_entry_type c = ACKNOWLEDGEMENT_COMMENT \<and> \<not> c_persistent c)) (comment_list s))
    \<and> (\<exists>s'. delete_service_acknowledgement_comments s h e = Some (OK, s') \<and> cm_wf s'
      \<and> comment_list s' = filter (\<lambda>c. \<not> (c_type c = SERVICE_COMMENT \<and> c_host_name c = h
          \<and> c_service_description c = Some e \<and> c_entry_type c = ACKNOWLEDGEMENT_COMMENT \<and> \<not> c_persistent c)) (comment_list s))"
proof -
  have eq: "delete_all_comments s HOST_COMMENT (Some h) d = delete_all_host_comments s (Some h)"
    "delete_all_comments s SERVICE_COMMENT (Some h) (Some e) = delete_all_service_comments s (Some h) (Some e)"
    by (simp_all add: delete_all_comments_def)
  show ?thesis unfolding eq
    using delete_all_host_spec [OF assms, of h] delete_all_service_spec [OF assms, of h e]
      delete_host_ack_spec [OF assms, of h] delete_service_ack_spec [OF assms, of h e] by blast
qed

theorem delete_loops_exact_witness:
  "(\<exists>s'. delete_all_comments some_comments HOST_COMMENT (Some ''web'') None = Some (OK, s') \<and> cm_wf s'
      \<and> comment_list s' = filter (\<lambda>c. \<not> (c_type c = HOST_COMMENT \<and> c_host_name c = ''web'')) (comment_list some_comments))
    \<and> (\<exists>s'. delete_all_comments some_comments SERVICE_COMMENT (Some ''web'') (Some ''http'') = Some (OK, s') \<and> cm_wf s'
      \<and> comment_list s' = filter (\<lambda>c. \<not> (c_type c = SERVICE_COMMENT \<and> c_host_name c = ''web''
          \<and> c_service_description c = Some ''http'')) (comment_list some_comments))
    \<and> (\<exists>s'. delete_host_acknowledgement_comments some_comments ''web'' = Some (OK, s') \<and> cm_wf s'
      \<and> comment_list s' = filter (\<lambda>c. \<not> (c_type c = HOST_COMMENT \<and> c_host_name c = ''web''
          \<and> c_entry_type c = ACKNOWLEDGEMENT_COMMENT \<and> \<not> c_persistent c)) (comment_list some_comments))
    \<and> (\<exists>s'. delete_service_acknowledgement_comments some_comments ''web'' ''http'' = Some (OK, s') \<and> cm_wf s'
      \<and> comment_list s' = filter (\<lambda>c. \<not> (c_type c = SERVICE_COMMENT \<and> c_host_name c = ''web''
          \<and> c_service_description c = Some ''http'' \<and> c_entry_type c = ACKNOWLEDGEMENT_COMMENT \<and> \<not> c_persistent c))
          (comment_list some_comments))"
  by (rule delete_loops_exact [OF some_comments_wf])

text \<open>An expiry event deletes its comment exactly when the comment expires and its expire time
  has passed; a comment that expires at this very second stays.\<close>

theorem comment_expiry:
  assumes "cm_wf s" "\<forall>c \<in> set (comment_list s). c_id c = cid \<longrightarrow> c_type c = ty"
  shows "\<exists>s'. check_for_expired_comment now s cid = Some (OK, s') \<and> cm_wf s'
    \<and> comment_list s' = filter (\<lambda>c. \<not> (c_id c = cid \<and> c_expires c \<and> c_expire_time c < now)) (comment_list s)"
proof (cases "find (\<lambda>c. c_id c = cid \<and> c_expires c \<and> c_expire_time c < now) (comment_list s)")
  case None
  then have "filter (\<lambda>c. \<not> (c_id c = cid \<and> c_expires c \<and> c_expire_time c < now)) (comment_list s) = comment_list s"
    by (auto simp: find_None_iff filter_id_conv)
  with None assms show ?thesis by (simp add: check_for_expired_comment_def)
next
  case (Some c)
  then have c: "c \<in> set (comment_list s)" "c_id c = cid" "c_expires c" "c_expire_time c < now"
    by (auto simp: find_Some_iff)
  with assms have ty: "c_type c = ty" by simp
  with c have "find_comment s cid ty \<noteq> None" unfolding find_comment_ids by auto
  with delete_comment_spec [OF assms(1), of cid ty] obtain s' where s':
    "delete_comment s ty cid = Some (OK, s')" "cm_wf s'"
    "comment_list s' = filter (\<lambda>c. cm_key c \<noteq> (ty, cid)) (comment_list s)" by auto
  have "inj_on cm_key (set (comment_list s))" using assms(1) by (simp add: cm_wf_def distinct_map)
  then have only: "x = c" if x: "x \<in> set (comment_list s)" "c_id x = cid" for x
  proof (rule inj_onD)
    show "cm_key x = cm_key c" using x assms(2) c(2) ty by (simp add: cm_key_def)
  qed (use x c in simp_all)
  have same: "cm_key x = (ty, cid) \<longleftrightarrow> c_id x = cid \<and> c_expires x \<and> c_expire_time x < now"
    if x: "x \<in> set (comment_list s)" for x
  proof (cases "c_id x = cid")
    case True
    from only [OF x True] c ty show ?thesis by (simp add: cm_key_def)
  qed (simp add: cm_key_def)
  have "comment_list s' = filter (\<lambda>c. \<not> (c_id c = cid \<and> c_expires c \<and> c_expire_time c < now)) (comment_list s)"
    unfolding s'(3) by (rule filter_cong [OF refl]) (simp only: same)
  with Some s' ty show ?thesis by (simp add: check_for_expired_comment_def)
qed

theorem comment_expiry_witness:
  "\<exists>s'. check_for_expired_comment 91 some_comments 2 = Some (OK, s') \<and> cm_wf s'
    \<and> comment_list s' = filter (\<lambda>c. \<not> (c_id c = 2 \<and> c_expires c \<and> c_expire_time c < 91)) (comment_list some_comments)"
proof (rule comment_expiry [OF some_comments_wf])
  show "\<forall>c \<in> set (comment_list some_comments). c_id c = 2 \<longrightarrow> c_type c = HOST_COMMENT"
    unfolding some_comments_list by (simp add: a_comment_def)
qed

text \<open>Comments that were added unsorted, from the retention file, are sorted by their ids
  afterwards, so that the full invariant holds: as long as the ids differ by less than \<open>2\<^sup>3\<^sup>1\<close>.\<close>

theorem sort_comments_restores:
  assumes "cm_wf s" "\<forall>c \<in> set (comment_list s). c_id c < 2 ^ 31"
  shows "\<exists>s'. sort_comments True s = (OK, s') \<and> cm_wf s' \<and> \<not> defer_comment_sorting s'
    \<and> sorted (map c_id (comment_list s')) \<and> mset (comment_list s') = mset (comment_list s)"
proof -
  let ?xs = "qsort comment_compar (comment_list s)"
  have compar: "comment_compar x y \<le> 0 \<longleftrightarrow> c_id x \<le> c_id y" if "c_id x < 2 ^ 31" "c_id y < 2 ^ 31" for x y
  proof -
    from that have "int (c_id x) < 2 ^ 31" "int (c_id y) < 2 ^ 31" by (metis of_nat_less_numeral_power_cancel_iff)+
    then have "comment_compar x y = int (c_id x) - int (c_id y)"
      unfolding comment_compar_def by (intro signed_take_bit_int_eq_self) simp_all
    then show ?thesis by simp
  qed
  have "sorted_wrt (\<lambda>x y. comment_compar x y \<le> 0) ?xs"
    by (rule qsort_sorted_wrt [where A = "{c. c_id c < 2 ^ 31}"]) (use assms(2) in \<open>auto simp: compar\<close>)
  then have "sorted_wrt (\<lambda>x y. c_id x \<le> c_id y) ?xs"
    by (rule sorted_wrt_mono_rel [rotated]) (use assms(2) in \<open>simp add: compar\<close>)
  then have srt: "sorted (map c_id ?xs)" by (simp add: sorted_map)
  have dist: "distinct (map cm_key ?xs) = distinct (map cm_key (comment_list s))"
    by (rule mset_eq_imp_distinct_iff) simp
  have empty: "?xs = [] \<longleftrightarrow> comment_list s = []" by (metis qsort_mset mset_zero_iff)
  have wf: "cm_wf (s\<lparr>defer_comment_sorting := False, comment_list := ?xs\<rparr>)"
    using assms(1) srt dist empty by (simp add: cm_wf_def split: option.splits)
  show ?thesis
  proof (cases "defer_comment_sorting s \<and> comment_list s \<noteq> []")
    case True
    with wf srt show ?thesis by (simp add: sort_comments_def Let_def)
  next
    case False
    have "cm_wf (s\<lparr>defer_comment_sorting := False\<rparr>)" if "comment_list s = []"
      using assms(1) that by (simp add: cm_wf_def split: option.splits)
    moreover have "sorted (map c_id (comment_list s))" using False assms(1) by (auto simp: cm_wf_def)
    ultimately show ?thesis using False assms(1) by (cases "defer_comment_sorting s") (simp_all add: sort_comments_def Let_def)
  qed
qed

theorem sort_comments_restores_witness:
  "\<exists>s'. sort_comments True some_comments = (OK, s') \<and> cm_wf s' \<and> \<not> defer_comment_sorting s'
    \<and> sorted (map c_id (comment_list s')) \<and> mset (comment_list s') = mset (comment_list some_comments)"
proof (rule sort_comments_restores [OF some_comments_wf])
  show "\<forall>c \<in> set (comment_list some_comments). c_id c < 2 ^ 31"
    unfolding some_comments_list by (simp add: a_comment_def)
qed

end
