(* ===== verification/Objects.thy ===== *)
theory Objects
  imports Comments Timeperiods Fanout
begin

text \<open>
  The objects of the daemon and its global state: \<open>include/objects.h\<close>, the globals of
  \<open>base/utils.c\<close> and \<open>base/nagios.c\<close> and the queue of timed events of \<open>base/events.c\<close>.

  \<^item> Hosts, services and contacts live in arrays (\<open>host_ary\<close> etc.), indexed by their \<open>id\<close>; a
    pointer to one is its index.  Member lists hold pointers that may be NULL.
  \<^item> The hash tables of objects by name are maps, as Dkhash proves them to be.
  \<^item> \<open>clock\<close> is what \<open>time(NULL)\<close> returns: an operation runs at one instant.
  \<^item> A \<open>double\<close> is an exact rational number, a flag an \<open>int\<close> of the code is used as is a \<open>bool\<close>.
  \<^item> What an operation sends out is appended to \<open>output\<close>: the notification commands that are handed
    to the workers.  Log lines and macros are not modelled.
  \<^item> The daemon is built without \<open>USE_EVENT_BROKER\<close>: calls of event broker modules are compiled
    out, and with them \<open>update_host_status\<close> and the like do nothing.  Allocations succeed.
  \<^item> A handler whose code may dereference NULL, or may not return, is in \<open>ub\<close>: \<open>None\<close> for both.
\<close>

section \<open>Constants\<close>

abbreviation (input) STATE_OK :: nat where "STATE_OK \<equiv> 0"
abbreviation (input) STATE_WARNING :: nat where "STATE_WARNING \<equiv> 1"
abbreviation (input) STATE_CRITICAL :: nat where "STATE_CRITICAL \<equiv> 2"
abbreviation (input) STATE_UNKNOWN :: nat where "STATE_UNKNOWN \<equiv> 3"
abbreviation (input) HOST_UP :: nat where "HOST_UP \<equiv> 0"
abbreviation (input) HOST_DOWN :: nat where "HOST_DOWN \<equiv> 1"
abbreviation (input) HOST_UNREACHABLE :: nat where "HOST_UNREACHABLE \<equiv> 2"
abbreviation (input) SOFT_STATE :: nat where "SOFT_STATE \<equiv> 0"
abbreviation (input) HARD_STATE :: nat where "HARD_STATE \<equiv> 1"

definition OPT_RECOVERY :: u32 where "OPT_RECOVERY = 1"
definition OPT_FLAPPING :: u32 where "OPT_FLAPPING = push_bit 11 1"
definition OPT_DOWNTIME :: u32 where "OPT_DOWNTIME = push_bit 12 1"
definition MODATTR_FLAP_DETECTION_ENABLED :: u64 where "MODATTR_FLAP_DETECTION_ENABLED = 16"
definition MAX_STATE_HISTORY_ENTRIES :: nat where "MAX_STATE_HISTORY_ENTRIES = 21"

abbreviation (input) EVENT_SERVICE_CHECK :: nat where "EVENT_SERVICE_CHECK \<equiv> 0"
abbreviation (input) EVENT_HOST_CHECK :: nat where "EVENT_HOST_CHECK \<equiv> 12"
abbreviation (input) EVENT_EXPIRE_DOWNTIME :: nat where "EVENT_EXPIRE_DOWNTIME \<equiv> 11"
abbreviation (input) EVENT_EXPIRE_COMMENT :: nat where "EVENT_EXPIRE_COMMENT \<equiv> 15"
abbreviation (input) EVENT_SCHEDULED_DOWNTIME_START :: nat where "EVENT_SCHEDULED_DOWNTIME_START \<equiv> 17"
abbreviation (input) EVENT_SCHEDULED_DOWNTIME_END :: nat where "EVENT_SCHEDULED_DOWNTIME_END \<equiv> 18"

section \<open>Flags\<close>

definition flag_isset :: "u32 \<Rightarrow> u32 \<Rightarrow> bool" where
  "flag_isset c flag \<longleftrightarrow> c AND flag = flag"

text \<open>The flag of a state, \<open>1 << state\<close>.\<close>

definition state_flag :: "nat \<Rightarrow> u32" where "state_flag state = push_bit state 1"

lemma flag_isset_state: "state < 32 \<Longrightarrow> flag_isset c (state_flag state) \<longleftrightarrow> bit c state"
  unfolding flag_isset_def state_flag_def bit_eq_iff [where 'a = "32 word"] bit_and_iff bit_push_bit_one by auto

lemma and_state_flag: "(c AND state_flag state \<noteq> 0) \<longleftrightarrow> bit c state"
  unfolding state_flag_def by (rule and_push_bit_one_nonzero)

lemma bit_or_state_flag: "state < 32 \<Longrightarrow> bit (c OR state_flag state) n \<longleftrightarrow> bit c n \<or> n = state"
  by (auto simp: state_flag_def bit_simps bit_push_bit_one)

text \<open>Conversion of a \<open>double\<close> to an integer type cuts off towards zero.\<close>

definition trunc :: "rat \<Rightarrow> int" where "trunc x = (if x < 0 then \<lceil>x\<rceil> else \<lfloor>x\<rfloor>)"

section \<open>Objects\<close>

type_synonym contactsmembers = "nat option list"
type_synonym contactgroupsmembers = "contactsmembers option list"

record command = cmd_name :: string cmd_line :: string

text \<open>A member of a command list: the command as configured, with its arguments, and the pointer.\<close>

record commandsmember = cm_command :: string cm_command_ptr :: "command option"

text \<open>A custom variable of an object.\<close>

record customvariablesmember =
  cv_name :: string
  cv_value :: string
  cv_has_been_modified :: bool

record contact =
  ct_name :: string
  ct_alias :: string
  ct_host_notification_commands :: "commandsmember list"
  ct_service_notification_commands :: "commandsmember list"
  ct_host_notification_options :: u32
  ct_service_notification_options :: u32
  ct_minimum_value :: nat
  ct_host_notification_period :: "timeperiod option"
  ct_service_notification_period :: "timeperiod option"
  ct_host_notifications_enabled :: bool
  ct_service_notifications_enabled :: bool
  ct_last_host_notification :: int
  ct_last_service_notification :: int
  ct_modified_attributes :: u64
  ct_modified_host_attributes :: u64
  ct_modified_service_attributes :: u64
  ct_custom_variables :: "customvariablesmember list"

text \<open>\<open>serviceescalation\<close> and \<open>hostescalation\<close>, \<open>servicedependency\<close> and \<open>hostdependency\<close> have the
  same fields, but for the names.\<close>

record escalation =
  e_object :: "nat option"
  e_first_notification :: int
  e_last_notification :: int
  e_notification_interval :: rat
  e_escalation_period :: "timeperiod option"
  e_escalation_options :: u32
  e_contact_groups :: contactgroupsmembers
  e_contacts :: contactsmembers

record dependency =
  d_dependent :: "nat option"
  d_master :: "nat option"
  d_dependency_period :: "timeperiod option"
  d_inherits_parent :: bool
  d_failure_options :: u32

record host =
  h_name :: string
  h_address :: string
  h_parent_hosts :: "nat list"
  h_child_hosts :: "nat list"
  h_services :: "nat list"
  h_initial_state :: nat
  h_check_command :: "string option"
  h_check_command_ptr :: "command option"
  h_check_interval :: rat
  h_retry_interval :: rat
  h_max_attempts :: int
  h_contact_groups :: contactgroupsmembers
  h_contacts :: contactsmembers
  h_notification_interval :: rat
  h_first_notification_delay :: rat
  h_notification_options :: u32
  h_hourly_value :: nat
  h_notification_period :: "timeperiod option"
  h_check_period :: "timeperiod option"
  h_event_handler_period :: "timeperiod option"
  h_flap_detection_enabled :: bool
  h_low_flap_threshold :: rat
  h_high_flap_threshold :: rat
  h_flap_detection_options :: u32
  h_stalking_options :: u32
  h_check_freshness :: bool
  h_freshness_threshold :: int
  h_checks_enabled :: bool
  h_accept_passive_checks :: bool
  h_event_handler_enabled :: bool
  h_obsess :: bool
  h_problem_has_been_acknowledged :: bool
  h_acknowledgement_type :: nat
  h_check_type :: nat
  h_current_state :: nat
  h_last_state :: nat
  h_last_hard_state :: nat
  h_plugin_output :: "string option"
  h_long_plugin_output :: "string option"
  h_perf_data :: "string option"
  h_state_type :: nat
  h_current_attempt :: int
  h_current_event_id :: nat
  h_last_event_id :: nat
  h_current_problem_id :: nat
  h_last_problem_id :: nat
  h_latency :: rat
  h_execution_time :: rat
  h_is_executing :: bool
  h_check_options :: u32
  h_notifications_enabled :: bool
  h_last_notification :: int
  h_next_notification :: int
  h_next_check :: int
  h_should_be_scheduled :: bool
  h_last_check :: int
  h_last_state_change :: int
  h_last_hard_state_change :: int
  h_last_time_up :: int
  h_last_time_down :: int
  h_last_time_unreachable :: int
  h_has_been_checked :: bool
  h_is_being_freshened :: bool
  h_notified_on :: u32
  h_current_notification_number :: int
  h_no_more_notifications :: bool
  h_current_notification_id :: nat
  h_check_flapping_recovery_notification :: bool
  h_scheduled_downtime_depth :: int
  h_pending_flex_downtime :: int
  h_state_history :: "nat list"
  h_state_history_index :: nat
  h_last_state_history_update :: int
  h_is_flapping :: bool
  h_flapping_comment_id :: nat
  h_percent_state_change :: rat
  h_total_services :: nat
  h_total_service_check_interval :: nat
  h_modified_attributes :: u64
  h_exec_deps :: "dependency list"
  h_notify_deps :: "dependency list"
  h_escalation_list :: "escalation list"
  h_custom_variables :: "customvariablesmember list"
  h_next_check_event :: "nat option"

record service =
  s_host_name :: string
  s_description :: string
  s_parents :: "nat option list"
  s_children :: "nat list"
  s_initial_state :: nat
  s_check_command_ptr :: "command option"
  s_check_interval :: rat
  s_retry_interval :: rat
  s_max_attempts :: int
  s_contact_groups :: contactgroupsmembers
  s_contacts :: contactsmembers
  s_notification_interval :: rat
  s_first_notification_delay :: rat
  s_notification_options :: u32
  s_stalking_options :: u32
  s_hourly_value :: nat
  s_is_volatile :: bool
  s_notification_period :: "timeperiod option"
  s_check_period :: "timeperiod option"
  s_event_handler_period :: "timeperiod option"
  s_flap_detection_enabled :: bool
  s_low_flap_threshold :: rat
  s_high_flap_threshold :: rat
  s_flap_detection_options :: u32
  s_check_freshness :: bool
  s_freshness_threshold :: int
  s_accept_passive_checks :: bool
  s_event_handler_enabled :: bool
  s_checks_enabled :: bool
  s_notifications_enabled :: bool
  s_obsess :: bool
  s_problem_has_been_acknowledged :: bool
  s_acknowledgement_type :: nat
  s_host_problem_at_last_check :: bool
  s_check_type :: nat
  s_current_state :: nat
  s_last_state :: nat
  s_last_hard_state :: nat
  s_plugin_output :: "string option"
  s_long_plugin_output :: "string option"
  s_perf_data :: "string option"
  s_state_type :: nat
  s_next_check :: int
  s_should_be_scheduled :: bool
  s_last_check :: int
  s_current_attempt :: int
  s_current_event_id :: nat
  s_last_event_id :: nat
  s_current_problem_id :: nat
  s_last_problem_id :: nat
  s_last_notification :: int
  s_next_notification :: int
  s_no_more_notifications :: bool
  s_check_flapping_recovery_notification :: bool
  s_last_state_change :: int
  s_last_hard_state_change :: int
  s_last_time_ok :: int
  s_last_time_warning :: int
  s_last_time_unknown :: int
  s_last_time_critical :: int
  s_has_been_checked :: bool
  s_is_being_freshened :: bool
  s_notified_on :: u32
  s_current_notification_number :: int
  s_current_notification_id :: nat
  s_latency :: rat
  s_execution_time :: rat
  s_is_executing :: bool
  s_check_options :: u32
  s_scheduled_downtime_depth :: int
  s_pending_flex_downtime :: int
  s_state_history :: "nat list"
  s_state_history_index :: nat
  s_is_flapping :: bool
  s_flapping_comment_id :: nat
  s_percent_state_change :: rat
  s_modified_attributes :: u64
  s_host :: "nat option"
  s_exec_deps :: "dependency list"
  s_notify_deps :: "dependency list"
  s_escalation_list :: "escalation list"
  s_custom_variables :: "customvariablesmember list"
  s_next_check_event :: "nat option"

section \<open>Downtime entries\<close>

abbreviation (input) SERVICE_DOWNTIME :: nat where "SERVICE_DOWNTIME \<equiv> 1"
abbreviation (input) HOST_DOWNTIME :: nat where "HOST_DOWNTIME \<equiv> 2"
abbreviation (input) ANY_DOWNTIME :: nat where "ANY_DOWNTIME \<equiv> 3"

record scheduled_downtime =
  dt_type :: nat
  dt_host_name :: "string option"
  dt_service_description :: "string option"
  dt_entry_time :: int
  dt_start_time :: int
  dt_flex_downtime_start :: int
  dt_end_time :: int
  dt_fixed :: bool
  dt_triggered_by :: nat
  dt_duration :: nat
  dt_id :: nat
  dt_is_in_effect :: bool
  dt_start_notification_sent :: bool
  dt_author :: "string option"
  dt_comment :: "string option"
  dt_comment_id :: nat
  dt_incremented_pending_downtime :: bool
  dt_start_event :: "nat option"
  dt_stop_event :: "nat option"

section \<open>State of the daemon\<close>

text \<open>A timed event and what it is for.  Its handle stands for the pointer to it; of a function that computes
  the next time, only its presence is kept.\<close>

datatype event_data = No_data | Host_ref nat | Service_ref nat | Downtime_id nat | Comment_id nat

record timed_event =
  ev_type :: nat
  ev_priority :: nat
  ev_run_time :: int
  ev_recurring :: bool
  ev_interval :: nat
  ev_timing_func :: bool
  ev_compensate :: bool
  ev_data :: event_data
  ev_options :: u32
  ev_when :: "int \<times> int"

text \<open>A notification command handed to a worker: for which contact, host and service, the command as
  configured, and the type of the notification.\<close>

record outgoing =
  no_contact :: string
  no_host :: string
  no_service :: "string option"
  no_command :: string
  no_type :: nat

text \<open>The result of a check, and what was asked for.  A \<open>timeval\<close> is its seconds and microseconds.  The
  object it belongs to, the output file and the resource usage are left out.\<close>

record check_result =
  cr_check_type :: nat
  cr_check_options :: u32
  cr_scheduled_check :: bool
  cr_reschedule_check :: bool
  cr_latency :: rat
  cr_start_time :: "int \<times> int"
  cr_finish_time :: "int \<times> int"
  cr_early_timeout :: bool
  cr_exited_ok :: bool
  cr_return_code :: c_int
  cr_output :: "string option"

text \<open>What a check leads to outside of the daemon's objects: a log entry and an event handler with the
  state, state type and attempt they report, the obsessive command, performance data, and a check
  given to the workers, with what its result starts from.\<close>

datatype action =
    Log_service_event nat nat nat int
  | Handle_service_event nat nat nat int
  | Obsess_service nat
  | Service_perfdata nat
  | Run_service_check nat check_result
  | Log_host_event nat nat nat int
  | Handle_host_event nat nat nat int
  | Obsess_host nat
  | Host_perfdata nat
  | Run_host_check nat check_result
  | Rotate_log int
  | Reap_results
  | Save_retention bool
  | Save_status
  | Check_updates
  | Reap_job

record globals =
  enable_notifications :: bool
  enable_flap_detection :: bool
  enable_event_handlers :: bool
  process_performance_data :: bool
  soft_state_dependencies :: bool
  interval_length :: int
  program_start :: int
  event_start :: int
  last_program_stop :: int
  date_format :: nat
  execute_service_checks :: bool
  execute_host_checks :: bool
  accept_passive_service_checks :: bool
  accept_passive_host_checks :: bool
  obsess_over_services :: bool
  obsess_over_hosts :: bool
  cached_service_check_horizon :: nat
  cached_host_check_horizon :: nat
  service_check_timeout :: int
  host_check_timeout :: int
  service_check_timeout_state :: nat
  check_reaper_interval :: int
  use_aggressive_host_checking :: bool
  passive_host_checks_are_soft :: bool
  translate_passive_host_checks :: bool
  enable_predictive_service_dependency_checks :: bool
  enable_predictive_host_dependency_checks :: bool
  check_service_freshness :: bool
  check_host_freshness :: bool
  additional_freshness_latency :: int
  max_service_check_spread :: int
  max_host_check_spread :: int
  service_skip_check_dependency_status :: int
  service_skip_check_parent_status :: int
  service_skip_check_host_down_status :: int
  host_skip_check_dependency_status :: int
  host_down_disable_service_checks :: bool
  log_host_retries :: bool
  low_service_flap_threshold :: rat
  high_service_flap_threshold :: rat
  low_host_flap_threshold :: rat
  high_host_flap_threshold :: rat
  max_parallel_service_checks :: nat
  check_orphaned_hosts :: bool
  check_orphaned_services :: bool
  time_change_threshold :: int
  auto_rescheduling_window :: int
  service_inter_check_delay :: rat
  modified_host_process_attributes :: u64
  modified_service_process_attributes :: u64
  log_rotation_method :: nat

text \<open>The entries of the downtime list are shared with the fanout table by id: both hold their
  addresses in \<open>dt_heap\<close>.  The clock has seconds, and the microseconds \<open>gettimeofday\<close> gives with them.\<close>

record daemon =
  clock :: int
  clock_usec :: int
  clib :: libc
  globs :: globals
  hosts :: "nat \<Rightarrow> host"
  svcs :: "nat \<Rightarrow> service"
  contacts :: "nat \<Rightarrow> contact"
  num_hosts :: nat
  num_services :: nat
  num_contacts :: nat
  host_table :: "string \<rightharpoonup> nat"
  service_table :: "string \<times> string \<rightharpoonup> nat"
  contact_table :: "string \<rightharpoonup> nat"
  timeperiod_table :: "string \<rightharpoonup> timeperiod"
  hostgroup_table :: "string \<rightharpoonup> (string \<times> nat option) list"
  servicegroup_table :: "string \<rightharpoonup> (string \<times> string) list"
  contactgroup_table :: "string \<rightharpoonup> contactsmembers"
  sigshutdown :: bool
  sigrestart :: bool
  next_notification_id :: nat
  comments :: comments_state
  dt_heap :: "nat \<Rightarrow> scheduled_downtime"
  next_dt_addr :: nat
  scheduled_downtime_list :: "nat list"
  dt_fanout :: "nat fanout_table option"
  next_downtime_id :: nat
  defer_downtime_sorting :: bool
  event_queue :: "(nat \<times> timed_event) list"
  next_event_handle :: nat
  outputs :: "outgoing list"
  actions :: "action list"
  next_event_id :: nat
  next_problem_id :: nat
  currently_running_service_checks :: nat
  currently_running_host_checks :: nat
  rands :: "nat \<Rightarrow> nat"

definition find_host :: "daemon \<Rightarrow> string option \<Rightarrow> nat option" where
  "find_host s name = (case name of None \<Rightarrow> None | Some n \<Rightarrow> host_table s n)"

definition find_service :: "daemon \<Rightarrow> string option \<Rightarrow> string option \<Rightarrow> nat option" where
  "find_service s name desc =
    (case (name, desc) of (Some n, Some d) \<Rightarrow> service_table s (n, d) | _ \<Rightarrow> None)"

text \<open>Assignments through pointers.\<close>

definition upd_host :: "nat \<Rightarrow> (host \<Rightarrow> host) \<Rightarrow> daemon \<Rightarrow> daemon" where
  "upd_host i f s = s\<lparr>hosts := (hosts s)(i := f (hosts s i))\<rparr>"

definition upd_svc :: "nat \<Rightarrow> (service \<Rightarrow> service) \<Rightarrow> daemon \<Rightarrow> daemon" where
  "upd_svc i f s = s\<lparr>svcs := (svcs s)(i := f (svcs s i))\<rparr>"

definition upd_contact :: "nat \<Rightarrow> (contact \<Rightarrow> contact) \<Rightarrow> daemon \<Rightarrow> daemon" where
  "upd_contact i f s = s\<lparr>contacts := (contacts s)(i := f (contacts s i))\<rparr>"

definition upd_dt :: "nat \<Rightarrow> (scheduled_downtime \<Rightarrow> scheduled_downtime) \<Rightarrow> daemon \<Rightarrow> daemon" where
  "upd_dt a f s = s\<lparr>dt_heap := (dt_heap s)(a := f (dt_heap s a))\<rparr>"

definition emit :: "outgoing list \<Rightarrow> daemon \<Rightarrow> daemon" where
  "emit out s = s\<lparr>outputs := outputs s @ out\<rparr>"

definition act :: "action list \<Rightarrow> daemon \<Rightarrow> daemon" where
  "act as s = s\<lparr>actions := actions s @ as\<rparr>"

section \<open>Timed events\<close>

text \<open>The queue holds the pending events with their handles, the newest first; the order in which they
  run is that of the event queue (theory Squeue).  The events that handlers schedule through
  this function neither recur nor are shifted when the clock jumps.  A handle is used once, so an event
  that has run is not found again through it.\<close>

text \<open>The time at which an event is due: never in the past, and at as many microseconds as its priority, less one, or for
  an event without priority at the microseconds of the clock.\<close>

definition enqueued :: "int \<Rightarrow> int \<Rightarrow> timed_event \<Rightarrow> timed_event" where
  "enqueued now usec ev =
    ev\<lparr>ev_when := (max (ev_run_time ev) now mod 2 ^ 43, if ev_priority ev > 0 then int (ev_priority ev - 1) else usec)\<rparr>"

definition add_event :: "nat \<Rightarrow> timed_event \<Rightarrow> daemon \<Rightarrow> daemon" where
  "add_event h ev s = s\<lparr>event_queue := (h, enqueued (clock s) (clock_usec s) ev) # event_queue s\<rparr>"

lemma enqueued_fields [simp]:
  "ev_type (enqueued now usec ev) = ev_type ev" "ev_priority (enqueued now usec ev) = ev_priority ev" "ev_run_time (enqueued now usec ev) = ev_run_time ev"
  "ev_recurring (enqueued now usec ev) = ev_recurring ev" "ev_interval (enqueued now usec ev) = ev_interval ev"
  "ev_timing_func (enqueued now usec ev) = ev_timing_func ev" "ev_compensate (enqueued now usec ev) = ev_compensate ev"
  "ev_data (enqueued now usec ev) = ev_data ev" "ev_options (enqueued now usec ev) = ev_options ev"
  by (simp_all add: enqueued_def)

definition schedule_new_event :: "nat \<Rightarrow> nat \<Rightarrow> int \<Rightarrow> event_data \<Rightarrow> u32 \<Rightarrow> daemon \<Rightarrow> nat \<times> daemon" where
  "schedule_new_event ty high_priority run_time data options s =
    (let h = next_event_handle s in
     (h, add_event h \<lparr>ev_type = ty, ev_priority = high_priority, ev_run_time = run_time,
           ev_recurring = False, ev_interval = 0, ev_timing_func = False, ev_compensate = False, ev_data = data, ev_options = options, ev_when = (0, 0)\<rparr> (s\<lparr>next_event_handle := h + 1\<rparr>)))"

definition remove_event :: "nat option \<Rightarrow> daemon \<Rightarrow> daemon" where
  "remove_event ev s = (case ev of None \<Rightarrow> s
     | Some h \<Rightarrow> s\<lparr>event_queue := filter (\<lambda>(h', _). h' \<noteq> h) (event_queue s)\<rparr>)"

lemma find_host_frame: "host_table s' = host_table s \<Longrightarrow> find_host s' = find_host s"
  unfolding find_host_def by (intro ext) (simp cong: option.case_cong)

lemma find_service_frame: "service_table s' = service_table s \<Longrightarrow> find_service s' = find_service s"
  unfolding find_service_def by (intro ext) (simp split: option.split)

section \<open>Values of object lists\<close>

definition host_services_value :: "daemon \<Rightarrow> nat \<Rightarrow> nat" where
  "host_services_value s h =
    fold (\<lambda>m ret. (ret + s_hourly_value (svcs s m)) mod 2 ^ 32) (h_services (hosts s h)) 0"

section \<open>Simplification of assignments\<close>

lemma upd_host_simps [simp]:
  "hosts (upd_host i f s) = (hosts s)(i := f (hosts s i))"
  "svcs (upd_host i f s) = svcs s" "contacts (upd_host i f s) = contacts s" "clock (upd_host i f s) = clock s" "clock_usec (upd_host i f s) = clock_usec s"
  "clib (upd_host i f s) = clib s" "globs (upd_host i f s) = globs s" "num_hosts (upd_host i f s) = num_hosts s"
  "num_services (upd_host i f s) = num_services s" "num_contacts (upd_host i f s) = num_contacts s"
  "host_table (upd_host i f s) = host_table s" "service_table (upd_host i f s) = service_table s"
  "contact_table (upd_host i f s) = contact_table s"
  "next_notification_id (upd_host i f s) = next_notification_id s" "comments (upd_host i f s) = comments s"
  "scheduled_downtime_list (upd_host i f s) = scheduled_downtime_list s"
  "dt_heap (upd_host i f s) = dt_heap s" "next_dt_addr (upd_host i f s) = next_dt_addr s"
  "dt_fanout (upd_host i f s) = dt_fanout s" "next_downtime_id (upd_host i f s) = next_downtime_id s"
  "defer_downtime_sorting (upd_host i f s) = defer_downtime_sorting s"
  "event_queue (upd_host i f s) = event_queue s" "next_event_handle (upd_host i f s) = next_event_handle s"
  "outputs (upd_host i f s) = outputs s"
  by (simp_all add: upd_host_def)

lemma upd_host_simps2 [simp]:
  "actions (upd_host i f s) = actions s"
  "next_event_id (upd_host i f s) = next_event_id s"
  "next_problem_id (upd_host i f s) = next_problem_id s"
  "currently_running_service_checks (upd_host i f s) = currently_running_service_checks s"
  "currently_running_host_checks (upd_host i f s) = currently_running_host_checks s"
  "rands (upd_host i f s) = rands s"
  by (simp_all add: upd_host_def)

lemma upd_svc_simps [simp]:
  "svcs (upd_svc i f s) = (svcs s)(i := f (svcs s i))"
  "hosts (upd_svc i f s) = hosts s" "contacts (upd_svc i f s) = contacts s" "clock (upd_svc i f s) = clock s" "clock_usec (upd_svc i f s) = clock_usec s"
  "clib (upd_svc i f s) = clib s" "globs (upd_svc i f s) = globs s" "num_hosts (upd_svc i f s) = num_hosts s"
  "num_services (upd_svc i f s) = num_services s" "num_contacts (upd_svc i f s) = num_contacts s"
  "host_table (upd_svc i f s) = host_table s" "service_table (upd_svc i f s) = service_table s"
  "contact_table (upd_svc i f s) = contact_table s"
  "next_notification_id (upd_svc i f s) = next_notification_id s" "comments (upd_svc i f s) = comments s"
  "scheduled_downtime_list (upd_svc i f s) = scheduled_downtime_list s"
  "dt_heap (upd_svc i f s) = dt_heap s" "next_dt_addr (upd_svc i f s) = next_dt_addr s"
  "dt_fanout (upd_svc i f s) = dt_fanout s" "next_downtime_id (upd_svc i f s) = next_downtime_id s"
  "defer_downtime_sorting (upd_svc i f s) = defer_downtime_sorting s"
  "event_queue (upd_svc i f s) = event_queue s" "next_event_handle (upd_svc i f s) = next_event_handle s"
  "outputs (upd_svc i f s) = outputs s"
  by (simp_all add: upd_svc_def)

lemma upd_svc_simps2 [simp]:
  "actions (upd_svc i f s) = actions s"
  "next_event_id (upd_svc i f s) = next_event_id s"
  "next_problem_id (upd_svc i f s) = next_problem_id s"
  "currently_running_service_checks (upd_svc i f s) = currently_running_service_checks s"
  "currently_running_host_checks (upd_svc i f s) = currently_running_host_checks s"
  "rands (upd_svc i f s) = rands s"
  by (simp_all add: upd_svc_def)

lemma upd_contact_simps [simp]:
  "contacts (upd_contact i f s) = (contacts s)(i := f (contacts s i))"
  "hosts (upd_contact i f s) = hosts s" "svcs (upd_contact i f s) = svcs s" "clock (upd_contact i f s) = clock s" "clock_usec (upd_contact i f s) = clock_usec s"
  "clib (upd_contact i f s) = clib s" "globs (upd_contact i f s) = globs s"
  "comments (upd_contact i f s) = comments s"
  "scheduled_downtime_list (upd_contact i f s) = scheduled_downtime_list s"
  "dt_heap (upd_contact i f s) = dt_heap s" "next_dt_addr (upd_contact i f s) = next_dt_addr s"
  "dt_fanout (upd_contact i f s) = dt_fanout s" "next_downtime_id (upd_contact i f s) = next_downtime_id s"
  "defer_downtime_sorting (upd_contact i f s) = defer_downtime_sorting s"
  "host_table (upd_contact i f s) = host_table s" "service_table (upd_contact i f s) = service_table s"
  "next_notification_id (upd_contact i f s) = next_notification_id s"
  "event_queue (upd_contact i f s) = event_queue s" "next_event_handle (upd_contact i f s) = next_event_handle s"
  "outputs (upd_contact i f s) = outputs s"
  by (simp_all add: upd_contact_def)

lemma upd_contact_simps2 [simp]:
  "actions (upd_contact i f s) = actions s"
  "next_event_id (upd_contact i f s) = next_event_id s"
  "next_problem_id (upd_contact i f s) = next_problem_id s"
  "currently_running_service_checks (upd_contact i f s) = currently_running_service_checks s"
  "currently_running_host_checks (upd_contact i f s) = currently_running_host_checks s"
  "rands (upd_contact i f s) = rands s"
  "num_hosts (upd_contact i f s) = num_hosts s"
  "num_services (upd_contact i f s) = num_services s"
  "num_contacts (upd_contact i f s) = num_contacts s"
  "contact_table (upd_contact i f s) = contact_table s"
  by (simp_all add: upd_contact_def)

lemma upd_dt_simps [simp]:
  "dt_heap (upd_dt i f s) = (dt_heap s)(i := f (dt_heap s i))"
  "hosts (upd_dt i f s) = hosts s" "svcs (upd_dt i f s) = svcs s" "contacts (upd_dt i f s) = contacts s"
  "clock (upd_dt i f s) = clock s" "clock_usec (upd_dt i f s) = clock_usec s" "clib (upd_dt i f s) = clib s" "globs (upd_dt i f s) = globs s"
  "host_table (upd_dt i f s) = host_table s" "service_table (upd_dt i f s) = service_table s"
  "comments (upd_dt i f s) = comments s" "next_notification_id (upd_dt i f s) = next_notification_id s"
  "next_dt_addr (upd_dt i f s) = next_dt_addr s" "dt_fanout (upd_dt i f s) = dt_fanout s"
  "scheduled_downtime_list (upd_dt i f s) = scheduled_downtime_list s"
  "next_downtime_id (upd_dt i f s) = next_downtime_id s"
  "defer_downtime_sorting (upd_dt i f s) = defer_downtime_sorting s"
  "event_queue (upd_dt i f s) = event_queue s" "next_event_handle (upd_dt i f s) = next_event_handle s"
  "outputs (upd_dt i f s) = outputs s"
  by (simp_all add: upd_dt_def)

lemma upd_dt_simps2 [simp]:
  "actions (upd_dt i f s) = actions s"
  "next_event_id (upd_dt i f s) = next_event_id s"
  "next_problem_id (upd_dt i f s) = next_problem_id s"
  "currently_running_service_checks (upd_dt i f s) = currently_running_service_checks s"
  "currently_running_host_checks (upd_dt i f s) = currently_running_host_checks s"
  "rands (upd_dt i f s) = rands s"
  "num_hosts (upd_dt i f s) = num_hosts s"
  "num_services (upd_dt i f s) = num_services s"
  "num_contacts (upd_dt i f s) = num_contacts s"
  "contact_table (upd_dt i f s) = contact_table s"
  by (simp_all add: upd_dt_def)

lemma emit_simps [simp]:
  "outputs (emit out s) = outputs s @ out"
  "hosts (emit out s) = hosts s" "svcs (emit out s) = svcs s" "contacts (emit out s) = contacts s"
  "clock (emit out s) = clock s" "clock_usec (emit out s) = clock_usec s" "clib (emit out s) = clib s" "globs (emit out s) = globs s"
  "comments (emit out s) = comments s" "scheduled_downtime_list (emit out s) = scheduled_downtime_list s"
  "dt_heap (emit out s) = dt_heap s" "next_dt_addr (emit out s) = next_dt_addr s" "dt_fanout (emit out s) = dt_fanout s"
  "next_downtime_id (emit out s) = next_downtime_id s" "defer_downtime_sorting (emit out s) = defer_downtime_sorting s"
  "host_table (emit out s) = host_table s" "service_table (emit out s) = service_table s"
  "next_notification_id (emit out s) = next_notification_id s"
  "event_queue (emit out s) = event_queue s" "next_event_handle (emit out s) = next_event_handle s"
  by (simp_all add: emit_def)

lemma emit_simps2 [simp]:
  "actions (emit out s) = actions s"
  "next_event_id (emit out s) = next_event_id s"
  "next_problem_id (emit out s) = next_problem_id s"
  "currently_running_service_checks (emit out s) = currently_running_service_checks s"
  "currently_running_host_checks (emit out s) = currently_running_host_checks s"
  "rands (emit out s) = rands s"
  "num_hosts (emit out s) = num_hosts s"
  "num_services (emit out s) = num_services s"
  "num_contacts (emit out s) = num_contacts s"
  "contact_table (emit out s) = contact_table s"
  by (simp_all add: emit_def)

lemma act_simps [simp]:
  "clock (act as s) = clock s"
  "clock_usec (act as s) = clock_usec s"
  "clib (act as s) = clib s"
  "globs (act as s) = globs s"
  "hosts (act as s) = hosts s"
  "svcs (act as s) = svcs s"
  "contacts (act as s) = contacts s"
  "num_hosts (act as s) = num_hosts s"
  "num_services (act as s) = num_services s"
  "num_contacts (act as s) = num_contacts s"
  "host_table (act as s) = host_table s"
  "service_table (act as s) = service_table s"
  "contact_table (act as s) = contact_table s"
  "next_notification_id (act as s) = next_notification_id s"
  "comments (act as s) = comments s"
  "dt_heap (act as s) = dt_heap s"
  "next_dt_addr (act as s) = next_dt_addr s"
  "scheduled_downtime_list (act as s) = scheduled_downtime_list s"
  "dt_fanout (act as s) = dt_fanout s"
  "next_downtime_id (act as s) = next_downtime_id s"
  "defer_downtime_sorting (act as s) = defer_downtime_sorting s"
  "event_queue (act as s) = event_queue s"
  "next_event_handle (act as s) = next_event_handle s"
  "outputs (act as s) = outputs s"
  "next_event_id (act as s) = next_event_id s"
  "next_problem_id (act as s) = next_problem_id s"
  "currently_running_service_checks (act as s) = currently_running_service_checks s"
  "currently_running_host_checks (act as s) = currently_running_host_checks s"
  "rands (act as s) = rands s"
  by (simp_all add: act_def)

lemma remove_event_simps [simp]:
  "clock (remove_event ev s) = clock s"
  "clock_usec (remove_event ev s) = clock_usec s"
  "clib (remove_event ev s) = clib s"
  "globs (remove_event ev s) = globs s"
  "hosts (remove_event ev s) = hosts s"
  "svcs (remove_event ev s) = svcs s"
  "contacts (remove_event ev s) = contacts s"
  "num_hosts (remove_event ev s) = num_hosts s"
  "num_services (remove_event ev s) = num_services s"
  "num_contacts (remove_event ev s) = num_contacts s"
  "host_table (remove_event ev s) = host_table s"
  "service_table (remove_event ev s) = service_table s"
  "contact_table (remove_event ev s) = contact_table s"
  "next_notification_id (remove_event ev s) = next_notification_id s"
  "comments (remove_event ev s) = comments s"
  "dt_heap (remove_event ev s) = dt_heap s"
  "next_dt_addr (remove_event ev s) = next_dt_addr s"
  "scheduled_downtime_list (remove_event ev s) = scheduled_downtime_list s"
  "dt_fanout (remove_event ev s) = dt_fanout s"
  "next_downtime_id (remove_event ev s) = next_downtime_id s"
  "defer_downtime_sorting (remove_event ev s) = defer_downtime_sorting s"
  "next_event_handle (remove_event ev s) = next_event_handle s"
  "outputs (remove_event ev s) = outputs s"
  "actions (remove_event ev s) = actions s"
  "next_event_id (remove_event ev s) = next_event_id s"
  "next_problem_id (remove_event ev s) = next_problem_id s"
  "currently_running_service_checks (remove_event ev s) = currently_running_service_checks s"
  "currently_running_host_checks (remove_event ev s) = currently_running_host_checks s"
  "rands (remove_event ev s) = rands s"
  by (simp_all add: remove_event_def split: option.split)

lemma add_event_simps [simp]:
  "clock (add_event h ev s) = clock s"
  "clock_usec (add_event h ev s) = clock_usec s"
  "clib (add_event h ev s) = clib s"
  "globs (add_event h ev s) = globs s"
  "hosts (add_event h ev s) = hosts s"
  "svcs (add_event h ev s) = svcs s"
  "contacts (add_event h ev s) = contacts s"
  "num_hosts (add_event h ev s) = num_hosts s"
  "num_services (add_event h ev s) = num_services s"
  "num_contacts (add_event h ev s) = num_contacts s"
  "host_table (add_event h ev s) = host_table s"
  "service_table (add_event h ev s) = service_table s"
  "contact_table (add_event h ev s) = contact_table s"
  "next_notification_id (add_event h ev s) = next_notification_id s"
  "comments (add_event h ev s) = comments s"
  "dt_heap (add_event h ev s) = dt_heap s"
  "next_dt_addr (add_event h ev s) = next_dt_addr s"
  "scheduled_downtime_list (add_event h ev s) = scheduled_downtime_list s"
  "dt_fanout (add_event h ev s) = dt_fanout s"
  "next_downtime_id (add_event h ev s) = next_downtime_id s"
  "defer_downtime_sorting (add_event h ev s) = defer_downtime_sorting s"
  "next_event_handle (add_event h ev s) = next_event_handle s"
  "outputs (add_event h ev s) = outputs s"
  "actions (add_event h ev s) = actions s"
  "next_event_id (add_event h ev s) = next_event_id s"
  "next_problem_id (add_event h ev s) = next_problem_id s"
  "currently_running_service_checks (add_event h ev s) = currently_running_service_checks s"
  "currently_running_host_checks (add_event h ev s) = currently_running_host_checks s"
  "rands (add_event h ev s) = rands s"
  by (simp_all add: add_event_def)

lemma schedule_new_event_simps [simp]:
  "clock (snd (schedule_new_event ty pr t data opts s)) = clock s"
  "clock_usec (snd (schedule_new_event ty pr t data opts s)) = clock_usec s"
  "clib (snd (schedule_new_event ty pr t data opts s)) = clib s"
  "globs (snd (schedule_new_event ty pr t data opts s)) = globs s"
  "hosts (snd (schedule_new_event ty pr t data opts s)) = hosts s"
  "svcs (snd (schedule_new_event ty pr t data opts s)) = svcs s"
  "contacts (snd (schedule_new_event ty pr t data opts s)) = contacts s"
  "num_hosts (snd (schedule_new_event ty pr t data opts s)) = num_hosts s"
  "num_services (snd (schedule_new_event ty pr t data opts s)) = num_services s"
  "num_contacts (snd (schedule_new_event ty pr t data opts s)) = num_contacts s"
  "host_table (snd (schedule_new_event ty pr t data opts s)) = host_table s"
  "service_table (snd (schedule_new_event ty pr t data opts s)) = service_table s"
  "contact_table (snd (schedule_new_event ty pr t data opts s)) = contact_table s"
  "next_notification_id (snd (schedule_new_event ty pr t data opts s)) = next_notification_id s"
  "comments (snd (schedule_new_event ty pr t data opts s)) = comments s"
  "dt_heap (snd (schedule_new_event ty pr t data opts s)) = dt_heap s"
  "next_dt_addr (snd (schedule_new_event ty pr t data opts s)) = next_dt_addr s"
  "scheduled_downtime_list (snd (schedule_new_event ty pr t data opts s)) = scheduled_downtime_list s"
  "dt_fanout (snd (schedule_new_event ty pr t data opts s)) = dt_fanout s"
  "next_downtime_id (snd (schedule_new_event ty pr t data opts s)) = next_downtime_id s"
  "defer_downtime_sorting (snd (schedule_new_event ty pr t data opts s)) = defer_downtime_sorting s"
  "outputs (snd (schedule_new_event ty pr t data opts s)) = outputs s"
  "actions (snd (schedule_new_event ty pr t data opts s)) = actions s"
  "next_event_id (snd (schedule_new_event ty pr t data opts s)) = next_event_id s"
  "next_problem_id (snd (schedule_new_event ty pr t data opts s)) = next_problem_id s"
  "currently_running_service_checks (snd (schedule_new_event ty pr t data opts s)) = currently_running_service_checks s"
  "currently_running_host_checks (snd (schedule_new_event ty pr t data opts s)) = currently_running_host_checks s"
  "rands (snd (schedule_new_event ty pr t data opts s)) = rands s"
  by (simp_all add: schedule_new_event_def Let_def)

lemma upd_host_tables [simp]:
  "timeperiod_table (upd_host i f s) = timeperiod_table s"
  "hostgroup_table (upd_host i f s) = hostgroup_table s"
  "servicegroup_table (upd_host i f s) = servicegroup_table s"
  "contactgroup_table (upd_host i f s) = contactgroup_table s"
  "sigshutdown (upd_host i f s) = sigshutdown s"
  "sigrestart (upd_host i f s) = sigrestart s"
  by (simp_all add: upd_host_def)

lemma upd_svc_tables [simp]:
  "timeperiod_table (upd_svc i f s) = timeperiod_table s"
  "hostgroup_table (upd_svc i f s) = hostgroup_table s"
  "servicegroup_table (upd_svc i f s) = servicegroup_table s"
  "contactgroup_table (upd_svc i f s) = contactgroup_table s"
  "sigshutdown (upd_svc i f s) = sigshutdown s"
  "sigrestart (upd_svc i f s) = sigrestart s"
  by (simp_all add: upd_svc_def)

lemma upd_contact_tables [simp]:
  "timeperiod_table (upd_contact i f s) = timeperiod_table s"
  "hostgroup_table (upd_contact i f s) = hostgroup_table s"
  "servicegroup_table (upd_contact i f s) = servicegroup_table s"
  "contactgroup_table (upd_contact i f s) = contactgroup_table s"
  "sigshutdown (upd_contact i f s) = sigshutdown s"
  "sigrestart (upd_contact i f s) = sigrestart s"
  by (simp_all add: upd_contact_def)

lemma upd_dt_tables [simp]:
  "timeperiod_table (upd_dt i f s) = timeperiod_table s"
  "hostgroup_table (upd_dt i f s) = hostgroup_table s"
  "servicegroup_table (upd_dt i f s) = servicegroup_table s"
  "contactgroup_table (upd_dt i f s) = contactgroup_table s"
  "sigshutdown (upd_dt i f s) = sigshutdown s"
  "sigrestart (upd_dt i f s) = sigrestart s"
  by (simp_all add: upd_dt_def)

lemma emit_tables [simp]:
  "timeperiod_table (emit out s) = timeperiod_table s"
  "hostgroup_table (emit out s) = hostgroup_table s"
  "servicegroup_table (emit out s) = servicegroup_table s"
  "contactgroup_table (emit out s) = contactgroup_table s"
  "sigshutdown (emit out s) = sigshutdown s"
  "sigrestart (emit out s) = sigrestart s"
  by (simp_all add: emit_def)

lemma act_tables [simp]:
  "timeperiod_table (act as s) = timeperiod_table s"
  "hostgroup_table (act as s) = hostgroup_table s"
  "servicegroup_table (act as s) = servicegroup_table s"
  "contactgroup_table (act as s) = contactgroup_table s"
  "sigshutdown (act as s) = sigshutdown s"
  "sigrestart (act as s) = sigrestart s"
  by (simp_all add: act_def)

lemma remove_event_tables [simp]:
  "timeperiod_table (remove_event ev s) = timeperiod_table s"
  "hostgroup_table (remove_event ev s) = hostgroup_table s"
  "servicegroup_table (remove_event ev s) = servicegroup_table s"
  "contactgroup_table (remove_event ev s) = contactgroup_table s"
  "sigshutdown (remove_event ev s) = sigshutdown s"
  "sigrestart (remove_event ev s) = sigrestart s"
  by (simp_all add: remove_event_def split: option.split)

lemma add_event_tables [simp]:
  "timeperiod_table (add_event h ev s) = timeperiod_table s"
  "hostgroup_table (add_event h ev s) = hostgroup_table s"
  "servicegroup_table (add_event h ev s) = servicegroup_table s"
  "contactgroup_table (add_event h ev s) = contactgroup_table s"
  "sigshutdown (add_event h ev s) = sigshutdown s"
  "sigrestart (add_event h ev s) = sigrestart s"
  by (simp_all add: add_event_def)

lemma schedule_new_event_tables [simp]:
  "timeperiod_table (snd (schedule_new_event ty pr t data opts s)) = timeperiod_table s"
  "hostgroup_table (snd (schedule_new_event ty pr t data opts s)) = hostgroup_table s"
  "servicegroup_table (snd (schedule_new_event ty pr t data opts s)) = servicegroup_table s"
  "contactgroup_table (snd (schedule_new_event ty pr t data opts s)) = contactgroup_table s"
  "sigshutdown (snd (schedule_new_event ty pr t data opts s)) = sigshutdown s"
  "sigrestart (snd (schedule_new_event ty pr t data opts s)) = sigrestart s"
  by (simp_all add: schedule_new_event_def Let_def)

section \<open>Blank objects\<close>

text \<open>Objects as \<open>calloc\<close> leaves them, from which the examples are built.\<close>

definition blank_host :: host where
  "blank_host = \<lparr>h_name = '''', h_address = '''', h_parent_hosts = [], h_child_hosts = [], h_services
    = [], h_initial_state = 0, h_check_command = None, h_check_command_ptr = None, h_check_interval = 0,
    h_retry_interval = 0, h_max_attempts = 0, h_contact_groups = [], h_contacts = [],
    h_notification_interval = 0, h_first_notification_delay = 0, h_notification_options = 0, h_hourly_value
    = 0, h_notification_period = None, h_check_period = None, h_event_handler_period = None,
    h_flap_detection_enabled = False, h_low_flap_threshold = 0, h_high_flap_threshold = 0,
    h_flap_detection_options = 0, h_stalking_options = 0, h_check_freshness = False, h_freshness_threshold =
    0, h_checks_enabled = False, h_accept_passive_checks = False, h_event_handler_enabled = False, h_obsess
    = False, h_problem_has_been_acknowledged = False, h_acknowledgement_type = 0, h_check_type = 0,
    h_current_state = 0, h_last_state = 0, h_last_hard_state = 0, h_plugin_output = None,
    h_long_plugin_output = None, h_perf_data = None, h_state_type = 0, h_current_attempt = 0,
    h_current_event_id = 0, h_last_event_id = 0, h_current_problem_id = 0, h_last_problem_id = 0, h_latency
    = 0, h_execution_time = 0, h_is_executing = False, h_check_options = 0, h_notifications_enabled = False,
    h_last_notification = 0, h_next_notification = 0, h_next_check = 0, h_should_be_scheduled = False,
    h_last_check = 0, h_last_state_change = 0, h_last_hard_state_change = 0, h_last_time_up = 0,
    h_last_time_down = 0, h_last_time_unreachable = 0, h_has_been_checked = False, h_is_being_freshened =
    False, h_notified_on = 0, h_current_notification_number = 0, h_no_more_notifications = False,
    h_current_notification_id = 0, h_check_flapping_recovery_notification = False,
    h_scheduled_downtime_depth = 0, h_pending_flex_downtime = 0, h_state_history = replicate
    MAX_STATE_HISTORY_ENTRIES 0, h_state_history_index = 0, h_last_state_history_update = 0, h_is_flapping =
    False, h_flapping_comment_id = 0, h_percent_state_change = 0, h_total_services = 0,
    h_total_service_check_interval = 0, h_modified_attributes = 0, h_exec_deps = [], h_notify_deps = [],
    h_escalation_list = [], h_custom_variables = [], h_next_check_event = None\<rparr>"

definition blank_service :: service where
  "blank_service = \<lparr>s_host_name = '''', s_description = '''', s_parents = [], s_children = [],
    s_initial_state = 0, s_check_command_ptr = None, s_check_interval = 0, s_retry_interval = 0,
    s_max_attempts = 0, s_contact_groups = [], s_contacts = [], s_notification_interval = 0,
    s_first_notification_delay = 0, s_notification_options = 0, s_stalking_options = 0, s_hourly_value = 0,
    s_is_volatile = False, s_notification_period = None, s_check_period = None, s_event_handler_period =
    None, s_flap_detection_enabled = False, s_low_flap_threshold = 0, s_high_flap_threshold = 0,
    s_flap_detection_options = 0, s_check_freshness = False, s_freshness_threshold = 0,
    s_accept_passive_checks = False, s_event_handler_enabled = False, s_checks_enabled = False,
    s_notifications_enabled = False, s_obsess = False, s_problem_has_been_acknowledged = False,
    s_acknowledgement_type = 0, s_host_problem_at_last_check = False, s_check_type = 0, s_current_state = 0,
    s_last_state = 0, s_last_hard_state = 0, s_plugin_output = None, s_long_plugin_output = None,
    s_perf_data = None, s_state_type = 0, s_next_check = 0, s_should_be_scheduled = False, s_last_check = 0,
    s_current_attempt = 0, s_current_event_id = 0, s_last_event_id = 0, s_current_problem_id = 0,
    s_last_problem_id = 0, s_last_notification = 0, s_next_notification = 0, s_no_more_notifications =
    False, s_check_flapping_recovery_notification = False, s_last_state_change = 0, s_last_hard_state_change
    = 0, s_last_time_ok = 0, s_last_time_warning = 0, s_last_time_unknown = 0, s_last_time_critical = 0,
    s_has_been_checked = False, s_is_being_freshened = False, s_notified_on = 0,
    s_current_notification_number = 0, s_current_notification_id = 0, s_latency = 0, s_execution_time = 0,
    s_is_executing = False, s_check_options = 0, s_scheduled_downtime_depth = 0, s_pending_flex_downtime =
    0, s_state_history = replicate MAX_STATE_HISTORY_ENTRIES 0, s_state_history_index = 0, s_is_flapping =
    False, s_flapping_comment_id = 0, s_percent_state_change = 0, s_modified_attributes = 0, s_host = None,
    s_exec_deps = [], s_notify_deps = [], s_escalation_list = [], s_custom_variables = [],
    s_next_check_event = None\<rparr>"

definition blank_contact :: contact where
  "blank_contact = \<lparr>ct_name = '''', ct_alias = '''', ct_host_notification_commands = [],
    ct_service_notification_commands = [], ct_host_notification_options = 0, ct_service_notification_options
    = 0, ct_minimum_value = 0, ct_host_notification_period = None, ct_service_notification_period = None,
    ct_host_notifications_enabled = False, ct_service_notifications_enabled = False,
    ct_last_host_notification = 0, ct_last_service_notification = 0, ct_modified_attributes = 0,
    ct_modified_host_attributes = 0, ct_modified_service_attributes = 0, ct_custom_variables = []\<rparr>"

definition blank_downtime :: scheduled_downtime where
  "blank_downtime = \<lparr>dt_type = 0, dt_host_name = None, dt_service_description = None, dt_entry_time =
    0, dt_start_time = 0, dt_flex_downtime_start = 0, dt_end_time = 0, dt_fixed = False, dt_triggered_by =
    0, dt_duration = 0, dt_id = 0, dt_is_in_effect = False, dt_start_notification_sent = False, dt_author =
    None, dt_comment = None, dt_comment_id = 0, dt_incremented_pending_downtime = False, dt_start_event =
    None, dt_stop_event = None\<rparr>"

definition blank_globals :: globals where
  "blank_globals = \<lparr>enable_notifications = False, enable_flap_detection = False,
    enable_event_handlers = False, process_performance_data = False, soft_state_dependencies = False,
    interval_length = 0, program_start = 0, event_start = 0, last_program_stop = 0, date_format = 0,
    execute_service_checks = False, execute_host_checks = False, accept_passive_service_checks = False,
    accept_passive_host_checks = False, obsess_over_services = False, obsess_over_hosts = False,
    cached_service_check_horizon = 0, cached_host_check_horizon = 0, service_check_timeout = 0,
    host_check_timeout = 0, service_check_timeout_state = 0, check_reaper_interval = 0,
    use_aggressive_host_checking = False, passive_host_checks_are_soft = False,
    translate_passive_host_checks = False, enable_predictive_service_dependency_checks = False,
    enable_predictive_host_dependency_checks = False, check_service_freshness = False, check_host_freshness
    = False, additional_freshness_latency = 0, max_service_check_spread = 0, max_host_check_spread = 0,
    service_skip_check_dependency_status = 0, service_skip_check_parent_status = 0,
    service_skip_check_host_down_status = 0, host_skip_check_dependency_status = 0,
    host_down_disable_service_checks = False, log_host_retries = False, low_service_flap_threshold = 0,
    high_service_flap_threshold = 0, low_host_flap_threshold = 0, high_host_flap_threshold = 0,
    max_parallel_service_checks = 0, check_orphaned_hosts = False, check_orphaned_services = False,
    time_change_threshold = 0, auto_rescheduling_window = 0, service_inter_check_delay = 0,
    modified_host_process_attributes = 0, modified_service_process_attributes = 0,
    log_rotation_method = 0\<rparr>"

definition blank_daemon :: daemon where
  "blank_daemon = \<lparr>clock = 0, clock_usec = 0, clib = flat_clock, globs = blank_globals, hosts = (\<lambda>i.
    blank_host), svcs = (\<lambda>i. blank_service), contacts = (\<lambda>i. blank_contact), num_hosts = 0,
    num_services = 0, num_contacts = 0, host_table = Map.empty, service_table = Map.empty, contact_table =
    Map.empty, timeperiod_table = Map.empty, hostgroup_table = Map.empty, servicegroup_table = Map.empty,
    contactgroup_table = Map.empty, sigshutdown = False, sigrestart = False, next_notification_id = 1,
    comments = no_comments, dt_heap = (\<lambda>a. blank_downtime), next_dt_addr = 0,
    scheduled_downtime_list = [], dt_fanout = fanout_create True True 16384, next_downtime_id = 1,
    defer_downtime_sorting = False, event_queue = [], next_event_handle = 1, outputs = [], actions = [],
    next_event_id = 1, next_problem_id = 1, currently_running_service_checks = 0,
    currently_running_host_checks = 0, rands = (\<lambda>n. 0)\<rparr>"

end
