(* ===== verification/Dependencies.thy ===== *)
theory Dependencies
  imports Objects
begin

text \<open>
  Dependencies between services and between hosts: \<open>check_service_dependencies\<close>,
  \<open>check_host_dependencies\<close> and \<open>check_service_parents\<close> of \<open>base/checks.c\<close>.  They recurse along
  the configured links, so that on cyclic links they may not return: \<open>None\<close>.
  The abstract reading of a dependency list is \<open>dep_fails\<close>.
\<close>

abbreviation (input) NOTIFICATION_DEPENDENCY :: nat where "NOTIFICATION_DEPENDENCY \<equiv> 1"
abbreviation (input) EXECUTION_DEPENDENCY :: nat where "EXECUTION_DEPENDENCY \<equiv> 2"
abbreviation (input) DEPENDENCIES_OK :: c_int where "DEPENDENCIES_OK \<equiv> 0"
abbreviation (input) DEPENDENCIES_FAILED :: c_int where "DEPENDENCIES_FAILED \<equiv> 1"

section \<open>Operations\<close>

definition out_of_period :: "daemon \<Rightarrow> dependency \<Rightarrow> bool" where
  "out_of_period s d \<longleftrightarrow> d_dependency_period d \<noteq> None
    \<and> check_time_against_period (clib s) (clock s) (d_dependency_period d) = ERROR"

text \<open>The loop both functions have, over a view of the objects: \<open>v_state\<close> is the state to use of
  an object, \<open>v_deps\<close> its list.\<close>

record dep_view =
  v_daemon :: daemon
  v_state :: "nat \<Rightarrow> nat"
  v_deps :: "nat \<Rightarrow> dependency list"

partial_function (option) walk_dependencies :: "dep_view \<Rightarrow> dependency list \<Rightarrow> c_int option" where
  "walk_dependencies v ds =
    (case ds of [] \<Rightarrow> Some DEPENDENCIES_OK
     | d # rest \<Rightarrow>
       (case d_master d of None \<Rightarrow> walk_dependencies v rest
        | Some m \<Rightarrow>
          if out_of_period (v_daemon v) d then Some DEPENDENCIES_OK
          else if flag_isset (d_failure_options d) (state_flag (v_state v m)) then Some DEPENDENCIES_FAILED
          else if d_inherits_parent d then
            (walk_dependencies v (v_deps v m) \<bind>
              (\<lambda>r. if r \<noteq> DEPENDENCIES_OK then Some DEPENDENCIES_FAILED else walk_dependencies v rest))
          else walk_dependencies v rest))"

definition service_state_to_use :: "daemon \<Rightarrow> nat \<Rightarrow> nat" where
  "service_state_to_use s i =
    (if s_state_type (svcs s i) = SOFT_STATE \<and> \<not> soft_state_dependencies (globs s)
     then s_last_hard_state (svcs s i) else s_current_state (svcs s i))"

definition service_deps :: "daemon \<Rightarrow> nat \<Rightarrow> nat \<Rightarrow> dependency list" where
  "service_deps s ty i = (if ty = NOTIFICATION_DEPENDENCY then s_notify_deps (svcs s i) else s_exec_deps (svcs s i))"

definition check_service_dependencies :: "daemon \<Rightarrow> nat \<Rightarrow> nat \<Rightarrow> c_int ub" where
  "check_service_dependencies s i ty =
    walk_dependencies \<lparr>v_daemon = s, v_state = service_state_to_use s, v_deps = service_deps s ty\<rparr> (service_deps s ty i)"

definition host_state_to_use :: "daemon \<Rightarrow> nat \<Rightarrow> nat" where
  "host_state_to_use s i =
    (if h_state_type (hosts s i) = SOFT_STATE \<and> \<not> soft_state_dependencies (globs s)
     then h_last_hard_state (hosts s i) else h_current_state (hosts s i))"

definition host_deps :: "daemon \<Rightarrow> nat \<Rightarrow> nat \<Rightarrow> dependency list" where
  "host_deps s ty i = (if ty = NOTIFICATION_DEPENDENCY then h_notify_deps (hosts s i) else h_exec_deps (hosts s i))"

definition check_host_dependencies :: "daemon \<Rightarrow> nat \<Rightarrow> nat \<Rightarrow> c_int ub" where
  "check_host_dependencies s i ty =
    walk_dependencies \<lparr>v_daemon = s, v_state = host_state_to_use s, v_deps = host_deps s ty\<rparr> (host_deps s ty i)"

partial_function (option) walk_parents :: "daemon \<Rightarrow> nat option list \<Rightarrow> c_int option" where
  "walk_parents s ps =
    (case ps of [] \<Rightarrow> Some DEPENDENCIES_OK
     | p # rest \<Rightarrow>
       (case p of None \<Rightarrow> walk_parents s rest
        | Some i \<Rightarrow>
          if s_last_hard_state (svcs s i) = STATE_CRITICAL \<or> s_last_hard_state (svcs s i) = STATE_UNKNOWN
          then Some DEPENDENCIES_FAILED
          else (walk_parents s (s_parents (svcs s i)) \<bind>
            (\<lambda>r. if r \<noteq> DEPENDENCIES_OK then Some DEPENDENCIES_FAILED else walk_parents s rest))))"

definition check_service_parents :: "daemon \<Rightarrow> nat \<Rightarrow> c_int ub" where
  "check_service_parents s i = walk_parents s (s_parents (svcs s i))"

section \<open>What a dependency list says\<close>

text \<open>A list fails if one of its dependencies is on an object whose state is among the failure
  options, or inherits from an object whose own list fails.\<close>

inductive dep_fails :: "(nat \<Rightarrow> nat) \<Rightarrow> (nat \<Rightarrow> dependency list) \<Rightarrow> dependency list \<Rightarrow> bool"
  for state :: "nat \<Rightarrow> nat" and deps :: "nat \<Rightarrow> dependency list" where
  direct: "d \<in> set ds \<Longrightarrow> d_master d = Some m \<Longrightarrow> flag_isset (d_failure_options d) (state_flag (state m))
    \<Longrightarrow> dep_fails state deps ds"
| inherited: "d \<in> set ds \<Longrightarrow> d_master d = Some m \<Longrightarrow> d_inherits_parent d \<Longrightarrow> dep_fails state deps (deps m)
    \<Longrightarrow> dep_fails state deps ds"

inductive_cases dep_fails_Nil: "dep_fails state deps []"

lemma not_dep_fails_Nil [simp]: "\<not> dep_fails state deps []"
  by (auto elim: dep_fails_Nil)

lemma dep_fails_iff: "dep_fails state deps ds \<longleftrightarrow>
  (\<exists>d \<in> set ds. \<exists>m. d_master d = Some m \<and> (flag_isset (d_failure_options d) (state_flag (state m))
    \<or> d_inherits_parent d \<and> dep_fails state deps (deps m)))"
  by (subst dep_fails.simps) blast

lemma dep_fails_Cons: "dep_fails state deps (d # ds) \<longleftrightarrow>
  (case d_master d of None \<Rightarrow> False | Some m \<Rightarrow> flag_isset (d_failure_options d) (state_flag (state m))
    \<or> d_inherits_parent d \<and> dep_fails state deps (deps m)) \<or> dep_fails state deps ds"
  using dep_fails_iff [of state deps "d # ds"] dep_fails_iff [of state deps ds] by (auto split: option.splits)

definition inheritance :: "(nat \<Rightarrow> dependency list) \<Rightarrow> (nat \<times> nat) set" where
  "inheritance deps = {(m, n). \<exists>d \<in> set (deps n). d_master d = Some m \<and> d_inherits_parent d}"

lemma walk_dependencies_correct:
  assumes "wf (inheritance (v_deps v))" "\<forall>n. \<forall>d \<in> set (v_deps v n). \<not> out_of_period (v_daemon v) d"
  shows "walk_dependencies v (v_deps v n) =
    Some (if dep_fails (v_state v) (v_deps v) (v_deps v n) then DEPENDENCIES_FAILED else DEPENDENCIES_OK)"
  using assms(1)
proof (induction n rule: wf_induct_rule)
  case (less n)
  have "walk_dependencies v ds =
      Some (if dep_fails (v_state v) (v_deps v) ds then DEPENDENCIES_FAILED else DEPENDENCIES_OK)"
    if "set ds \<subseteq> set (v_deps v n)" for ds
    using that
  proof (induction ds)
    case Nil
    show ?case by (subst walk_dependencies.simps) simp
  next
    case (Cons d ds)
    then have rest: "walk_dependencies v ds =
        Some (if dep_fails (v_state v) (v_deps v) ds then DEPENDENCIES_FAILED else DEPENDENCIES_OK)" by simp
    have ok: "\<not> out_of_period (v_daemon v) d" using assms(2) Cons.prems by auto
    have inh: "walk_dependencies v (v_deps v m) =
        Some (if dep_fails (v_state v) (v_deps v) (v_deps v m) then DEPENDENCIES_FAILED else DEPENDENCIES_OK)"
      if "d_master d = Some m" "d_inherits_parent d" for m
      using Cons.prems that by (intro less.IH) (auto simp: inheritance_def)
    show ?case
      by (subst walk_dependencies.simps) (auto simp: dep_fails_Cons rest ok inh split: option.splits)
  qed
  then show ?case by simp
qed

section \<open>Properties\<close>

text \<open>C29. With every dependency in its period and no cycle of inheritance, both checks return, and
  fail exactly if some dependency fails: directly, on the state of the object depended upon, or
  through a chain of inheriting dependencies.\<close>

theorem dependencies_checked:
  assumes "wf (inheritance (service_deps s ty))" "\<forall>n. \<forall>d \<in> set (service_deps s ty n). \<not> out_of_period s d"
    and "wf (inheritance (host_deps s ty))" "\<forall>n. \<forall>d \<in> set (host_deps s ty n). \<not> out_of_period s d"
  shows "check_service_dependencies s i ty =
      Some (if dep_fails (service_state_to_use s) (service_deps s ty) (service_deps s ty i)
        then DEPENDENCIES_FAILED else DEPENDENCIES_OK)
    \<and> check_host_dependencies s i ty =
      Some (if dep_fails (host_state_to_use s) (host_deps s ty) (host_deps s ty i)
        then DEPENDENCIES_FAILED else DEPENDENCIES_OK)"
  unfolding check_service_dependencies_def check_host_dependencies_def
  using walk_dependencies_correct [of "\<lparr>v_daemon = s, v_state = service_state_to_use s, v_deps = service_deps s ty\<rparr>" i]
    walk_dependencies_correct [of "\<lparr>v_daemon = s, v_state = host_state_to_use s, v_deps = host_deps s ty\<rparr>" i] assms
  by simp

definition down_dep :: dependency where
  "down_dep = \<lparr>d_dependent = Some 0, d_master = Some 1, d_dependency_period = None, d_inherits_parent = True, d_failure_options = state_flag STATE_CRITICAL\<rparr>"

definition never :: timeperiod where
  "never = Timeperiod ''never'' (replicate 7 []) (replicate 5 []) []"

definition two_services :: "dependency list \<Rightarrow> daemon" where
  "two_services ds = blank_daemon\<lparr>svcs := (\<lambda>i. blank_service)
     (0 := blank_service\<lparr>s_parents := [Some 1], s_exec_deps := ds\<rparr>,
      1 := blank_service\<lparr>s_current_state := STATE_CRITICAL, s_last_hard_state := STATE_CRITICAL, s_state_type := HARD_STATE\<rparr>)\<rparr>"

theorem dependencies_checked_witness:
  "check_service_dependencies (two_services [down_dep]) 0 EXECUTION_DEPENDENCY =
      Some (if dep_fails (service_state_to_use (two_services [down_dep]))
          (service_deps (two_services [down_dep]) EXECUTION_DEPENDENCY) (service_deps (two_services [down_dep]) EXECUTION_DEPENDENCY 0)
        then DEPENDENCIES_FAILED else DEPENDENCIES_OK)
    \<and> check_host_dependencies (two_services [down_dep]) 0 EXECUTION_DEPENDENCY =
      Some (if dep_fails (host_state_to_use (two_services [down_dep]))
          (host_deps (two_services [down_dep]) EXECUTION_DEPENDENCY) (host_deps (two_services [down_dep]) EXECUTION_DEPENDENCY 0)
        then DEPENDENCIES_FAILED else DEPENDENCIES_OK)"
proof (rule dependencies_checked)
  have "inheritance (service_deps (two_services [down_dep]) EXECUTION_DEPENDENCY) = {(1, 0)}"
    by (auto simp: inheritance_def service_deps_def two_services_def down_dep_def blank_service_def split: if_splits)
  then show "wf (inheritance (service_deps (two_services [down_dep]) EXECUTION_DEPENDENCY))"
    by (simp add: wf_insert)
  have "inheritance (host_deps (two_services [down_dep]) EXECUTION_DEPENDENCY) = {}"
    by (auto simp: inheritance_def host_deps_def two_services_def blank_daemon_def blank_host_def)
  then show "wf (inheritance (host_deps (two_services [down_dep]) EXECUTION_DEPENDENCY))"
    by simp
qed (auto simp: service_deps_def host_deps_def two_services_def out_of_period_def down_dep_def blank_service_def
    blank_host_def blank_daemon_def split: if_splits)

definition parent_rel :: "daemon \<Rightarrow> (nat \<times> nat) set" where
  "parent_rel s = {(p, i). Some p \<in> set (s_parents (svcs s i))}"

definition bad_parent :: "daemon \<Rightarrow> nat \<Rightarrow> bool" where
  "bad_parent s p \<longleftrightarrow> s_last_hard_state (svcs s p) = STATE_CRITICAL \<or> s_last_hard_state (svcs s p) = STATE_UNKNOWN"

lemma ancestor_step: "(\<exists>p. (p, i) \<in> (parent_rel s)\<^sup>+ \<and> B p) \<longleftrightarrow>
  (\<exists>q. Some q \<in> set (s_parents (svcs s i)) \<and> (B q \<or> (\<exists>p. (p, q) \<in> (parent_rel s)\<^sup>+ \<and> B p)))"
proof -
  have "(p, i) \<in> (parent_rel s)\<^sup>+ \<longleftrightarrow>
      (\<exists>q. Some q \<in> set (s_parents (svcs s i)) \<and> (p = q \<or> (p, q) \<in> (parent_rel s)\<^sup>+))" for p
    by (subst trancl_unfold) (auto simp: parent_rel_def)
  then show ?thesis by blast
qed

lemma check_service_parents_spec:
  assumes "wf (parent_rel s)"
  shows "check_service_parents s i =
    Some (if \<exists>p. (p, i) \<in> (parent_rel s)\<^sup>+ \<and> bad_parent s p then DEPENDENCIES_FAILED else DEPENDENCIES_OK)"
  using assms
proof (induction i rule: wf_induct_rule)
  case (less i)
  let ?bad = "\<lambda>q. bad_parent s q \<or> (\<exists>p. (p, q) \<in> (parent_rel s)\<^sup>+ \<and> bad_parent s p)"
  have "walk_parents s ps = Some (if \<exists>q. Some q \<in> set ps \<and> ?bad q then DEPENDENCIES_FAILED else DEPENDENCIES_OK)"
    if "set ps \<subseteq> set (s_parents (svcs s i))" for ps
    using that
  proof (induction ps)
    case Nil
    show ?case by (subst walk_parents.simps) simp
  next
    case (Cons p ps)
    then have rest: "walk_parents s ps =
        Some (if \<exists>q. Some q \<in> set ps \<and> ?bad q then DEPENDENCIES_FAILED else DEPENDENCIES_OK)" by simp
    show ?case
    proof (cases p)
      case None
      then show ?thesis by (subst walk_parents.simps) (simp add: rest)
    next
      case (Some q)
      with Cons.prems have "(q, i) \<in> parent_rel s" by (auto simp: parent_rel_def)
      from less.IH [OF this] have up: "walk_parents s (s_parents (svcs s q)) =
          Some (if \<exists>p. (p, q) \<in> (parent_rel s)\<^sup>+ \<and> bad_parent s p then DEPENDENCIES_FAILED else DEPENDENCIES_OK)"
        by (simp add: check_service_parents_def)
      have "walk_parents s (p # ps) = Some (if ?bad q \<or> (\<exists>q. Some q \<in> set ps \<and> ?bad q)
          then DEPENDENCIES_FAILED else DEPENDENCIES_OK)"
        by (subst walk_parents.simps) (auto simp: Some up rest bad_parent_def)
      moreover have "(\<exists>r. Some r \<in> set (p # ps) \<and> ?bad r) \<longleftrightarrow> ?bad q \<or> (\<exists>r. Some r \<in> set ps \<and> ?bad r)"
        using Some by auto
      ultimately show ?thesis by presburger
    qed
  qed
  then have "walk_parents s (s_parents (svcs s i)) = Some (if \<exists>q. Some q \<in> set (s_parents (svcs s i)) \<and> ?bad q
      then DEPENDENCIES_FAILED else DEPENDENCIES_OK)" by blast
  then show ?case unfolding check_service_parents_def ancestor_step [of i s "bad_parent s"] .
qed

text \<open>C31. Without a cycle among the parents of services, the check of the parents returns, and fails
  exactly if some ancestor, direct or not, was last in a hard CRITICAL or UNKNOWN state.\<close>

theorem parents_checked:
  assumes "wf (parent_rel s)"
  shows "check_service_parents s i =
    Some (if \<exists>p. (p, i) \<in> (parent_rel s)\<^sup>+ \<and> bad_parent s p then DEPENDENCIES_FAILED else DEPENDENCIES_OK)"
  by (rule check_service_parents_spec [OF assms])

theorem parents_checked_witness:
  "check_service_parents (two_services []) 0 = Some (if \<exists>p. (p, 0) \<in> (parent_rel (two_services []))\<^sup>+
      \<and> bad_parent (two_services []) p then DEPENDENCIES_FAILED else DEPENDENCIES_OK)"
proof (rule parents_checked)
  have "parent_rel (two_services []) = {(1, 0)}"
    by (auto simp: parent_rel_def two_services_def blank_service_def split: if_splits)
  then show "wf (parent_rel (two_services []))" by (simp add: wf_insert)
qed

section \<open>Links that let every walk return\<close>

text \<open>The links between objects, which come from the configuration; nothing the daemon does while it
  runs changes them.\<close>

definition links :: "daemon \<Rightarrow> (nat \<Rightarrow> nat option list \<times> dependency list \<times> dependency list)
    \<times> (nat \<Rightarrow> dependency list \<times> dependency list)" where
  "links s = (\<lambda>i. (s_parents (svcs s i), s_exec_deps (svcs s i), s_notify_deps (svcs s i)),
     \<lambda>h. (h_exec_deps (hosts s h), h_notify_deps (hosts s h)))"

definition acyclic_links :: "daemon \<Rightarrow> bool" where
  "acyclic_links s \<longleftrightarrow> (\<forall>i. None \<notin> set (s_parents (svcs s i))) \<and> wf (parent_rel s)
    \<and> (\<forall>ty. wf (inheritance (service_deps s ty)) \<and> wf (inheritance (host_deps s ty)))"

lemma acyclic_links_frame: "links s' = links s \<Longrightarrow> acyclic_links s' = acyclic_links s"
proof -
  assume l: "links s' = links s"
  then have "s_parents (svcs s' i) = s_parents (svcs s i)" for i by (simp add: links_def fun_eq_iff)
  moreover have "service_deps s' = service_deps s" "host_deps s' = host_deps s"
    using l by (simp_all add: links_def fun_eq_iff service_deps_def host_deps_def)
  ultimately show ?thesis by (simp add: acyclic_links_def parent_rel_def)
qed

lemma acyclic_links_blank: "acyclic_links blank_daemon"
proof -
  have "inheritance (service_deps blank_daemon ty) = {}" "inheritance (host_deps blank_daemon ty) = {}"
    "parent_rel blank_daemon = {}" for ty
    by (auto simp: inheritance_def service_deps_def host_deps_def parent_rel_def blank_daemon_def blank_service_def blank_host_def)
  then show ?thesis by (simp add: acyclic_links_def) (simp add: blank_daemon_def blank_service_def)
qed

lemma walk_dependencies_total:
  assumes "wf (inheritance (v_deps v))"
  shows "\<exists>r. walk_dependencies v (v_deps v n) = Some r"
  using assms
proof (induction n rule: wf_induct_rule)
  case (less n)
  have "\<exists>r. walk_dependencies v ds = Some r" if "set ds \<subseteq> set (v_deps v n)" for ds
    using that
  proof (induction ds)
    case Nil
    show ?case by (subst walk_dependencies.simps) simp
  next
    case (Cons d ds)
    then obtain r where rest: "walk_dependencies v ds = Some r" by auto
    have inh: "\<exists>r. walk_dependencies v (v_deps v m) = Some r" if "d_master d = Some m" "d_inherits_parent d" for m
      using Cons.prems that by (intro less.IH) (auto simp: inheritance_def)
    show ?case
      by (subst walk_dependencies.simps) (use rest inh in \<open>fastforce split: option.splits\<close>)
  qed
  then show ?case by simp
qed

lemma check_dependencies_total:
  assumes "acyclic_links s"
  shows "\<exists>r. check_service_dependencies s i ty = Some r" "\<exists>r. check_host_dependencies s i ty = Some r"
  using walk_dependencies_total [of "\<lparr>v_daemon = s, v_state = service_state_to_use s, v_deps = service_deps s ty\<rparr>" i]
    walk_dependencies_total [of "\<lparr>v_daemon = s, v_state = host_state_to_use s, v_deps = host_deps s ty\<rparr>" i] assms
  by (simp_all add: acyclic_links_def check_service_dependencies_def check_host_dependencies_def)

end
