(* ===== verification/Downtimes.thy ===== *)
theory Downtimes
  imports Objects
begin

text \<open>
  The list of scheduled downtimes of \<open>common/downtime.c\<close>: adding, finding, sorting and deleting
  entries.  An entry is a cell of \<open>dt_heap\<close>; the list, sorted by start time, and the fanout table
  by id hold its address.  The invariant \<open>dl_wf\<close> ties the two together.  What happens when a
  downtime starts and ends is in the theory DowntimeEvents.
\<close>

abbreviation (input) DT_ENULL :: c_int where "DT_ENULL \<equiv> - 1"
abbreviation (input) DT_EHOST :: c_int where "DT_EHOST \<equiv> - 2"
abbreviation (input) DT_ESERVICE :: c_int where "DT_ESERVICE \<equiv> - 3"
abbreviation (input) DT_ETYPE :: c_int where "DT_ETYPE \<equiv> - 4"
abbreviation (input) DT_ETRIGGER :: c_int where "DT_ETRIGGER \<equiv> - 5"
abbreviation (input) DT_ETIME :: c_int where "DT_ETIME \<equiv> - 6"
abbreviation (input) ENOMEM :: c_int where "ENOMEM \<equiv> 12"

section \<open>Searching\<close>

definition find_downtime :: "daemon \<Rightarrow> nat \<Rightarrow> nat \<Rightarrow> nat option ub" where
  "find_downtime s ty downtime_id = do {
     dt \<leftarrow> fanout_get (dt_fanout s) downtime_id;
     Some (case dt of None \<Rightarrow> None
       | Some a \<Rightarrow> if ty = ANY_DOWNTIME \<or> ty = dt_type (dt_heap s a) then Some a else None)
   }"

definition find_host_downtime :: "daemon \<Rightarrow> nat \<Rightarrow> nat option ub" where
  "find_host_downtime s downtime_id = find_downtime s HOST_DOWNTIME downtime_id"

definition find_service_downtime :: "daemon \<Rightarrow> nat \<Rightarrow> nat option ub" where
  "find_service_downtime s downtime_id = find_downtime s SERVICE_DOWNTIME downtime_id"

definition is_host_in_pending_flex_downtime :: "daemon \<Rightarrow> nat \<Rightarrow> bool" where
  "is_host_in_pending_flex_downtime s h =
    (let now = clock s in
     list_ex (\<lambda>a. let d = dt_heap s a in
         dt_type d = HOST_DOWNTIME \<and> \<not> dt_fixed d \<and> \<not> dt_is_in_effect d \<and> dt_triggered_by d = 0
         \<and> find_host s (dt_host_name d) = Some h
         \<and> dt_start_time d \<le> now \<and> now \<le> dt_end_time d)
       (scheduled_downtime_list s))"

definition is_service_in_pending_flex_downtime :: "daemon \<Rightarrow> nat \<Rightarrow> bool" where
  "is_service_in_pending_flex_downtime s i =
    (let now = clock s in
     list_ex (\<lambda>a. let d = dt_heap s a in
         dt_type d = SERVICE_DOWNTIME \<and> \<not> dt_fixed d \<and> \<not> dt_is_in_effect d \<and> dt_triggered_by d = 0
         \<and> find_service s (dt_host_name d) (dt_service_description d) = Some i
         \<and> dt_start_time d \<le> now \<and> now \<le> dt_end_time d)
       (scheduled_downtime_list s))"

section \<open>Adding and removing\<close>

text \<open>The difference of the two \<open>time_t\<close> is cut down to \<open>int\<close>.\<close>

definition downtime_compar :: "scheduled_downtime \<Rightarrow> scheduled_downtime \<Rightarrow> c_int" where
  "downtime_compar d1 d2 =
    (if dt_start_time d1 = dt_start_time d2 \<and> (dt_triggered_by d1 = 0) \<noteq> (dt_triggered_by d2 = 0)
     then (if dt_triggered_by d1 = 0 then - 1 else 1)
     else if dt_start_time d1 < dt_start_time d2 then - 1
     else signed_take_bit 31 (dt_start_time d1 - dt_start_time d2))"

text \<open>The checks of an entry that is to be added, and its linking into both structures.\<close>

definition downtime_check :: "daemon \<Rightarrow> nat \<Rightarrow> c_int ub" where
  "downtime_check s a =
    (let d = dt_heap s a in
     if dt_host_name d = None then Some DT_EHOST
     else if (dt_type d = HOST_DOWNTIME) \<noteq> (dt_service_description d = None) then Some DT_ETYPE
     else if dt_type d \<noteq> SERVICE_DOWNTIME \<and> dt_type d \<noteq> HOST_DOWNTIME then Some DT_ETYPE
     else do {
       trigger \<leftarrow> (if dt_triggered_by d = 0 then Some None else find_downtime s ANY_DOWNTIME (dt_triggered_by d));
       Some
        (if dt_triggered_by d \<noteq> 0 \<and> trigger = None then DT_ETRIGGER
         else if trigger = None \<and> dt_start_time d \<ge> dt_end_time d then DT_ETIME
         else if \<not> dt_fixed d \<and> dt_duration d = 0 then DT_ETIME
         else if dt_service_description d = None
           then (if find_host s (dt_host_name d) = None then DT_EHOST else OK)
         else if find_service s (dt_host_name d) (dt_service_description d) = None then DT_ESERVICE
         else OK)
     })"

definition downtime_link :: "daemon \<Rightarrow> nat \<Rightarrow> (c_int \<times> daemon) ub" where
  "downtime_link s a =
    (let given = dt_id (dt_heap s a);
         cid = (if given = 0 then next_downtime_id s else given);
         nid = (if given = 0 then next_downtime_id s + 1
                else if given \<ge> next_downtime_id s then given + 1 else next_downtime_id s);
         s = upd_dt a (\<lambda>d. d\<lparr>dt_id := cid\<rparr>) s
     in do {
       (r, fo) \<leftarrow> fanout_add True (dt_fanout s) cid (Some a);
       (if r < 0 then Some (ENOMEM, s)
        else Some (OK, s\<lparr>dt_fanout := fo, next_downtime_id := nid, scheduled_downtime_list :=
             (if defer_downtime_sorting s then a # scheduled_downtime_list s
              else takeWhile (\<lambda>c. \<not> downtime_compar (dt_heap s a) (dt_heap s c) < 0) (scheduled_downtime_list s) @ a #
                   dropWhile (\<lambda>c. \<not> downtime_compar (dt_heap s a) (dt_heap s c) < 0) (scheduled_downtime_list s))\<rparr>))
     })"

definition downtime_add :: "daemon \<Rightarrow> nat \<Rightarrow> (c_int \<times> daemon) ub" where
  "downtime_add s a = do {
     r \<leftarrow> downtime_check s a;
     (if r \<noteq> OK then Some (r, s) else downtime_link s a)
   }"

definition downtime_remove :: "daemon \<Rightarrow> nat \<Rightarrow> daemon ub" where
  "downtime_remove s a = do {
     (_, fo) \<leftarrow> fanout_remove (dt_fanout s) (dt_id (dt_heap s a));
     Some (s\<lparr>scheduled_downtime_list := remove1 a (scheduled_downtime_list s), dt_fanout := fo\<rparr>)
   }"

text \<open>The entry lives in a new cell, which is freed again when it cannot be added.\<close>

definition add_downtime :: "daemon \<Rightarrow> nat \<Rightarrow> string option \<Rightarrow> string option \<Rightarrow> int \<Rightarrow> string option
    \<Rightarrow> string option \<Rightarrow> int \<Rightarrow> int \<Rightarrow> int \<Rightarrow> bool \<Rightarrow> nat \<Rightarrow> nat \<Rightarrow> nat \<Rightarrow> bool \<Rightarrow> bool
    \<Rightarrow> (c_int \<times> daemon) ub" where
  "add_downtime s downtime_type host_name svc_description entry_time author comment_data start_time
      flex_downtime_start end_time fixed triggered_by duration downtime_id is_in_effect start_notification_sent =
    (if host_name = None \<or> downtime_type = SERVICE_DOWNTIME \<and> svc_description = None then Some (ERROR, s)
     else do {
       let a = next_dt_addr s;
       let d = \<lparr>dt_type = downtime_type, dt_host_name = host_name,
         dt_service_description = (if downtime_type = SERVICE_DOWNTIME then svc_description else None),
         dt_entry_time = entry_time, dt_start_time = start_time, dt_flex_downtime_start = flex_downtime_start,
         dt_end_time = end_time, dt_fixed = fixed, dt_triggered_by = triggered_by, dt_duration = duration,
         dt_id = downtime_id, dt_is_in_effect = is_in_effect, dt_start_notification_sent = start_notification_sent,
         dt_author = author, dt_comment = comment_data, dt_comment_id = 0,
         dt_incremented_pending_downtime = False, dt_start_event = None, dt_stop_event = None\<rparr>;
       (r, s') \<leftarrow> downtime_add (s\<lparr>dt_heap := (dt_heap s)(a := d), next_dt_addr := a + 1\<rparr>) a;
       Some (if r \<noteq> 0 then ERROR else OK, s')
     })"

definition add_host_downtime :: "daemon \<Rightarrow> string option \<Rightarrow> int \<Rightarrow> string option \<Rightarrow> string option \<Rightarrow> int \<Rightarrow> int
    \<Rightarrow> int \<Rightarrow> bool \<Rightarrow> nat \<Rightarrow> nat \<Rightarrow> nat \<Rightarrow> bool \<Rightarrow> bool \<Rightarrow> (c_int \<times> daemon) ub" where
  "add_host_downtime s host_name entry_time author comment_data start_time flex_downtime_start end_time fixed
      triggered_by duration downtime_id is_in_effect start_notification_sent =
    add_downtime s HOST_DOWNTIME host_name None entry_time author comment_data start_time flex_downtime_start
      end_time fixed triggered_by duration downtime_id is_in_effect start_notification_sent"

definition add_service_downtime :: "daemon \<Rightarrow> string option \<Rightarrow> string option \<Rightarrow> int \<Rightarrow> string option \<Rightarrow> string option
    \<Rightarrow> int \<Rightarrow> int \<Rightarrow> int \<Rightarrow> bool \<Rightarrow> nat \<Rightarrow> nat \<Rightarrow> nat \<Rightarrow> bool \<Rightarrow> bool \<Rightarrow> (c_int \<times> daemon) ub" where
  "add_service_downtime s host_name svc_description entry_time author comment_data start_time flex_downtime_start
      end_time fixed triggered_by duration downtime_id is_in_effect start_notification_sent =
    add_downtime s SERVICE_DOWNTIME host_name svc_description entry_time author comment_data start_time
      flex_downtime_start end_time fixed triggered_by duration downtime_id is_in_effect start_notification_sent"

partial_function (option) get_next_downtime_id :: "daemon \<Rightarrow> (nat \<times> daemon) option" where
  "get_next_downtime_id s =
    (find_downtime (s\<lparr>next_downtime_id := next_downtime_id s + 1\<rparr>) ANY_DOWNTIME (next_downtime_id s) \<bind>
      (\<lambda>r. if r = None then Some (next_downtime_id s, s\<lparr>next_downtime_id := next_downtime_id s + 1\<rparr>)
           else get_next_downtime_id (s\<lparr>next_downtime_id := next_downtime_id s + 1\<rparr>)))"

text \<open>The id is reported, in the second result, whether the entry could be added or not; it is 0 where
  the function returns before it takes one.\<close>

definition add_new_host_downtime :: "daemon \<Rightarrow> string option \<Rightarrow> int \<Rightarrow> string option \<Rightarrow> string option \<Rightarrow> int
    \<Rightarrow> int \<Rightarrow> bool \<Rightarrow> nat \<Rightarrow> nat \<Rightarrow> bool \<Rightarrow> bool \<Rightarrow> (c_int \<times> nat \<times> daemon) ub" where
  "add_new_host_downtime s host_name entry_time author comment_data start_time end_time fixed triggered_by
      duration is_in_effect start_notification_sent =
    (if host_name = None then Some (ERROR, 0, s)
     else do {
       (nid, s) \<leftarrow> get_next_downtime_id s;
       (r, s) \<leftarrow> add_host_downtime s host_name entry_time author comment_data start_time 0 end_time fixed
         triggered_by duration nid is_in_effect start_notification_sent;
       Some (r, nid, s)
     })"

definition add_new_service_downtime :: "daemon \<Rightarrow> string option \<Rightarrow> string option \<Rightarrow> int \<Rightarrow> string option
    \<Rightarrow> string option \<Rightarrow> int \<Rightarrow> int \<Rightarrow> bool \<Rightarrow> nat \<Rightarrow> nat \<Rightarrow> bool \<Rightarrow> bool \<Rightarrow> (c_int \<times> nat \<times> daemon) ub" where
  "add_new_service_downtime s host_name service_description entry_time author comment_data start_time end_time
      fixed triggered_by duration is_in_effect start_notification_sent =
    (if host_name = None \<or> service_description = None then Some (ERROR, 0, s)
     else do {
       (nid, s) \<leftarrow> get_next_downtime_id s;
       (r, s) \<leftarrow> add_service_downtime s host_name service_description entry_time author comment_data start_time 0
         end_time fixed triggered_by duration nid is_in_effect start_notification_sent;
       Some (r, nid, s)
     })"

definition add_new_downtime :: "daemon \<Rightarrow> nat \<Rightarrow> string option \<Rightarrow> string option \<Rightarrow> int \<Rightarrow> string option
    \<Rightarrow> string option \<Rightarrow> int \<Rightarrow> int \<Rightarrow> bool \<Rightarrow> nat \<Rightarrow> nat \<Rightarrow> bool \<Rightarrow> bool \<Rightarrow> (c_int \<times> nat \<times> daemon) ub" where
  "add_new_downtime s ty host_name service_description entry_time author comment_data start_time end_time fixed
      triggered_by duration is_in_effect start_notification_sent =
    (if ty = HOST_DOWNTIME
     then add_new_host_downtime s host_name entry_time author comment_data start_time end_time fixed triggered_by
       duration is_in_effect start_notification_sent
     else add_new_service_downtime s host_name service_description entry_time author comment_data start_time
       end_time fixed triggered_by duration is_in_effect start_notification_sent)"

definition delete_downtime :: "daemon \<Rightarrow> nat \<Rightarrow> nat \<Rightarrow> (c_int \<times> daemon) ub" where
  "delete_downtime s ty downtime_id = do {
     r \<leftarrow> find_downtime s ty downtime_id;
     (case r of None \<Rightarrow> Some (ERROR, s)
      | Some a \<Rightarrow> do {
          s' \<leftarrow> downtime_remove s a;
          (_, c) \<leftarrow> (if dt_type (dt_heap s a) = HOST_DOWNTIME
            then delete_host_comment (comments s') (dt_comment_id (dt_heap s a))
            else delete_service_comment (comments s') (dt_comment_id (dt_heap s a)));
          Some (OK, s'\<lparr>comments := c\<rparr>)
        })
   }"

definition delete_host_downtime :: "daemon \<Rightarrow> nat \<Rightarrow> (c_int \<times> daemon) ub" where
  "delete_host_downtime s downtime_id = delete_downtime s HOST_DOWNTIME downtime_id"

definition delete_service_downtime :: "daemon \<Rightarrow> nat \<Rightarrow> (c_int \<times> daemon) ub" where
  "delete_service_downtime s downtime_id = delete_downtime s SERVICE_DOWNTIME downtime_id"

section \<open>Sorting, initialisation and cleanup\<close>

definition sort_downtime :: "daemon \<Rightarrow> c_int \<times> daemon" where
  "sort_downtime s =
    (if \<not> defer_downtime_sorting s then (OK, s)
     else let s' = s\<lparr>defer_downtime_sorting := False\<rparr> in
       if scheduled_downtime_list s' = [] then (OK, s')
       else (OK, s'\<lparr>scheduled_downtime_list :=
         qsort (\<lambda>a b. downtime_compar (dt_heap s a) (dt_heap s b)) (scheduled_downtime_list s')\<rparr>))"

definition initialize_downtime_data :: "bool \<Rightarrow> daemon \<Rightarrow> c_int \<times> daemon" where
  "initialize_downtime_data m s =
    (let s' = s\<lparr>dt_fanout := fanout_create m m 16384, next_downtime_id := 1\<rparr>
     in (if dt_fanout s' \<noteq> None then OK else ERROR, s'))"

text \<open>The code leaves \<open>dt_fanout\<close> pointing to the freed table.\<close>

definition free_downtime_data :: "daemon \<Rightarrow> daemon" where
  "free_downtime_data s = s\<lparr>scheduled_downtime_list := [], dt_fanout := None\<rparr>"

definition cleanup_downtime_data :: "daemon \<Rightarrow> c_int \<times> daemon" where
  "cleanup_downtime_data s = (OK, free_downtime_data s)"

section \<open>Invariant\<close>

text \<open>What the order compares: the start time, and among equal start times whether the downtime is
  triggered by another.\<close>

definition dt_key :: "scheduled_downtime \<Rightarrow> int" where
  "dt_key d = 2 * dt_start_time d + (if dt_triggered_by d = 0 then 0 else 1)"

definition sane_start :: "scheduled_downtime \<Rightarrow> bool" where
  "sane_start d \<longleftrightarrow> 0 \<le> dt_start_time d \<and> dt_start_time d < 2 ^ 31"

lemma downtime_compar_key:
  assumes "sane_start d1" "sane_start d2"
  shows "downtime_compar d1 d2 < 0 \<longleftrightarrow> dt_key d1 < dt_key d2" "downtime_compar d1 d2 \<le> 0 \<longleftrightarrow> dt_key d1 \<le> dt_key d2"
proof -
  have "signed_take_bit 31 (dt_start_time d1 - dt_start_time d2) = dt_start_time d1 - dt_start_time d2"
    using assms by (intro signed_take_bit_int_eq_self) (simp_all add: sane_start_def)
  then show "downtime_compar d1 d2 < 0 \<longleftrightarrow> dt_key d1 < dt_key d2"
    "downtime_compar d1 d2 \<le> 0 \<longleftrightarrow> dt_key d1 \<le> dt_key d2"
    by (auto simp: downtime_compar_def dt_key_def)
qed

definition dl_entry_ok :: "daemon \<Rightarrow> nat \<Rightarrow> bool" where
  "dl_entry_ok s a \<longleftrightarrow> (let d = dt_heap s a in
     a < next_dt_addr s \<and> 0 < dt_id d \<and> dt_id d < next_downtime_id s \<and> dt_triggered_by d < dt_id d \<and> sane_start d
     \<and> (if dt_type d = HOST_DOWNTIME then find_host s (dt_host_name d) \<noteq> None
        else dt_type d = SERVICE_DOWNTIME
          \<and> find_service s (dt_host_name d) (dt_service_description d) \<noteq> None))"

definition dl_wf :: "daemon \<Rightarrow> bool" where
  "dl_wf s \<longleftrightarrow> fo_wf (dt_fanout s) \<and> 0 < next_downtime_id s
    \<and> distinct (map (\<lambda>a. dt_id (dt_heap s a)) (scheduled_downtime_list s))
    \<and> (\<forall>a \<in> set (scheduled_downtime_list s). dl_entry_ok s a)
    \<and> (\<forall>i. fo_stack (dt_fanout s) i = filter (\<lambda>a. dt_id (dt_heap s a) = i) (scheduled_downtime_list s))
    \<and> (\<not> defer_downtime_sorting s \<longrightarrow> sorted (map (\<lambda>a. dt_key (dt_heap s a)) (scheduled_downtime_list s)))"

lemma dl_wfD:
  assumes "dl_wf s"
  shows "fo_wf (dt_fanout s)" "distinct (scheduled_downtime_list s)"
    "\<And>a. a \<in> set (scheduled_downtime_list s) \<Longrightarrow> dl_entry_ok s a"
    "inj_on (\<lambda>a. dt_id (dt_heap s a)) (set (scheduled_downtime_list s))"
    "fo_stack (dt_fanout s) i = filter (\<lambda>a. dt_id (dt_heap s a) = i) (scheduled_downtime_list s)"
  using assms by (simp_all add: dl_wf_def distinct_map)

lemma filter_unique:
  "distinct (map f xs) \<Longrightarrow> a \<in> set xs \<Longrightarrow> filter (\<lambda>x. f x = f a) xs = [a]"
  by (induction xs) (auto simp: filter_empty_conv image_iff)

lemma fanout_lookup:
  assumes "dl_wf s" "a \<in> set (scheduled_downtime_list s)"
  shows "fo_stack (dt_fanout s) (dt_id (dt_heap s a)) = [a]"
  using assms filter_unique [of "\<lambda>a. dt_id (dt_heap s a)" "scheduled_downtime_list s" a]
  by (simp add: dl_wf_def)

text \<open>A downtime is found by its id and type exactly if it is on the list.\<close>

lemma find_downtime_listed:
  assumes "dl_wf s" "a \<in> set (scheduled_downtime_list s)"
  shows "find_downtime s ty (dt_id (dt_heap s a)) =
    Some (if ty = ANY_DOWNTIME \<or> ty = dt_type (dt_heap s a) then Some a else None)"
  using fanout_lookup [OF assms] fanout_get_spec [OF dl_wfD(1) [OF assms(1)], of "dt_id (dt_heap s a)"]
  by (simp add: find_downtime_def)

lemma find_downtime_absent:
  assumes "dl_wf s" "\<forall>a \<in> set (scheduled_downtime_list s). dt_id (dt_heap s a) \<noteq> i"
  shows "find_downtime s ty i = Some None"
proof -
  from assms have "fo_stack (dt_fanout s) i = []" by (simp add: dl_wfD(5) filter_empty_conv)
  then show ?thesis using fanout_get_spec [OF dl_wfD(1) [OF assms(1)], of i] by (simp add: find_downtime_def)
qed

lemma find_downtime_cases:
  assumes "dl_wf s"
  obtains (found) a where "a \<in> set (scheduled_downtime_list s)" "dt_id (dt_heap s a) = i"
      "find_downtime s ty i = Some (if ty = ANY_DOWNTIME \<or> ty = dt_type (dt_heap s a) then Some a else None)"
  | (absent) "\<forall>a \<in> set (scheduled_downtime_list s). dt_id (dt_heap s a) \<noteq> i" "find_downtime s ty i = Some None"
proof (cases "\<exists>a \<in> set (scheduled_downtime_list s). dt_id (dt_heap s a) = i")
  case True
  then obtain a where "a \<in> set (scheduled_downtime_list s)" "dt_id (dt_heap s a) = i" by blast
  with find_downtime_listed [OF assms, of a ty] found [of a] show ?thesis by simp
next
  case False
  then show ?thesis using find_downtime_absent [OF assms, of i ty] absent by blast
qed

lemma find_downtime_total: "dl_wf s \<Longrightarrow> \<exists>r. find_downtime s ty i = Some r"
  by (rule find_downtime_cases [of s i ty]) auto

lemma find_downtime_next_id [simp]: "find_downtime (s\<lparr>next_downtime_id := n\<rparr>) = find_downtime s"
  by (simp add: fun_eq_iff find_downtime_def cong: option.case_cong)

text \<open>The next id of a well-formed list is free.\<close>

lemma get_next_downtime_id_spec:
  assumes "dl_wf s"
  shows "get_next_downtime_id s = Some (next_downtime_id s, s\<lparr>next_downtime_id := next_downtime_id s + 1\<rparr>)"
proof -
  have "\<forall>a \<in> set (scheduled_downtime_list s). dt_id (dt_heap s a) \<noteq> next_downtime_id s"
    using dl_wfD(3) [OF assms] by (fastforce simp: dl_entry_ok_def Let_def)
  from find_downtime_absent [OF assms this] show ?thesis
    by (subst get_next_downtime_id.simps) simp
qed

section \<open>Adding keeps the invariant\<close>

text \<open>The conditions an entry is checked for, and the answer to each.\<close>

definition add_error :: "daemon \<Rightarrow> scheduled_downtime \<Rightarrow> c_int" where
  "add_error s d =
    (let trigger = (\<exists>b \<in> set (scheduled_downtime_list s). dt_id (dt_heap s b) = dt_triggered_by d) in
     if dt_host_name d = None then DT_EHOST
     else if (dt_type d = HOST_DOWNTIME) \<noteq> (dt_service_description d = None) then DT_ETYPE
     else if dt_type d \<noteq> SERVICE_DOWNTIME \<and> dt_type d \<noteq> HOST_DOWNTIME then DT_ETYPE
     else if dt_triggered_by d \<noteq> 0 \<and> \<not> trigger then DT_ETRIGGER
     else if dt_triggered_by d = 0 \<and> dt_start_time d \<ge> dt_end_time d then DT_ETIME
     else if \<not> dt_fixed d \<and> dt_duration d = 0 then DT_ETIME
     else if dt_service_description d = None
       then (if find_host s (dt_host_name d) = None then DT_EHOST else OK)
     else if find_service s (dt_host_name d) (dt_service_description d) = None then DT_ESERVICE
     else OK)"

definition insert_downtime :: "daemon \<Rightarrow> nat \<Rightarrow> nat list" where
  "insert_downtime s a =
    (if defer_downtime_sorting s then a # scheduled_downtime_list s
     else takeWhile (\<lambda>c. \<not> dt_key (dt_heap s a) < dt_key (dt_heap s c)) (scheduled_downtime_list s) @ a #
          dropWhile (\<lambda>c. \<not> dt_key (dt_heap s a) < dt_key (dt_heap s c)) (scheduled_downtime_list s))"

lemma insert_downtime_mset: "mset (insert_downtime s a) = add_mset a (mset (scheduled_downtime_list s))"
  unfolding insert_downtime_def by (auto simp del: mset_append simp: mset_insert_while)

lemma insert_downtime_set [simp]: "set (insert_downtime s a) = insert a (set (scheduled_downtime_list s))"
  using arg_cong [OF insert_downtime_mset, of set_mset s a] by simp

lemma takeWhile_dropWhile_cong:
  assumes "\<And>x. x \<in> set xs \<Longrightarrow> P x = Q x"
  shows "takeWhile P xs @ a # dropWhile P xs = takeWhile Q xs @ a # dropWhile Q xs"
  using takeWhile_cong [of xs xs P Q] dropWhile_cong [of xs xs P Q] assms by simp

text \<open>An address that is not on the list, holding an entry with a fresh id.\<close>

definition dl_fresh :: "daemon \<Rightarrow> nat \<Rightarrow> bool" where
  "dl_fresh s a \<longleftrightarrow> (let d = dt_heap s a in
     a < next_dt_addr s \<and> a \<notin> set (scheduled_downtime_list s) \<and> sane_start d
     \<and> (dt_id d \<noteq> 0 \<longrightarrow> dt_triggered_by d < dt_id d
         \<and> (\<forall>b \<in> set (scheduled_downtime_list s). dt_id (dt_heap s b) \<noteq> dt_id d)))"

lemma downtime_check_spec:
  assumes "dl_wf s"
  shows "downtime_check s a = Some (add_error s (dt_heap s a))"
proof -
  let ?d = "dt_heap s a"
  obtain trigger where "find_downtime s ANY_DOWNTIME (dt_triggered_by ?d) = Some trigger"
    "trigger = None \<longleftrightarrow> \<not> (\<exists>b \<in> set (scheduled_downtime_list s). dt_id (dt_heap s b) = dt_triggered_by ?d)"
    by (rule find_downtime_cases [OF assms, of "dt_triggered_by ?d" ANY_DOWNTIME]) auto
  then show ?thesis
    unfolding downtime_check_def add_error_def Let_def by (simp split del: if_split) (auto split: if_splits)
qed

lemma dl_entry_ok_frame:
  assumes "dl_entry_ok s b" "dt_heap s' b = dt_heap s b" "next_dt_addr s \<le> next_dt_addr s'"
    "next_downtime_id s \<le> next_downtime_id s'" "host_table s' = host_table s" "service_table s' = service_table s"
  shows "dl_entry_ok s' b"
  using assms(1-4) unfolding dl_entry_ok_def find_host_frame [OF assms(5)] find_service_frame [OF assms(6)]
  by (auto simp: Let_def)

lemma downtime_link_spec:
  assumes "dl_wf s" "dl_fresh s a" "add_error s (dt_heap s a) = OK"
  defines "cid \<equiv> (if dt_id (dt_heap s a) = 0 then next_downtime_id s else dt_id (dt_heap s a))"
  shows "\<exists>s'. downtime_link s a = Some (OK, s') \<and> dl_wf s'
    \<and> dt_heap s' = (dt_heap s)(a := (dt_heap s a)\<lparr>dt_id := cid\<rparr>)
    \<and> mset (scheduled_downtime_list s') = add_mset a (mset (scheduled_downtime_list s))
    \<and> next_downtime_id s' = max (next_downtime_id s) (cid + 1)
    \<and> (\<exists>fo ls. s' = s\<lparr>dt_heap := (dt_heap s)(a := (dt_heap s a)\<lparr>dt_id := cid\<rparr>), dt_fanout := fo,
         next_downtime_id := max (next_downtime_id s) (cid + 1), scheduled_downtime_list := ls\<rparr>)"
proof -
  let ?s = "upd_dt a (\<lambda>d. d\<lparr>dt_id := cid\<rparr>) s" and ?L = "scheduled_downtime_list s"
  note wf = dl_wfD [OF assms(1)]
  from fanout_add_spec [OF wf(1), of cid a] obtain fo where fo: "fanout_add True (dt_fanout s) cid (Some a) = Some (0, fo)"
    "fo_wf fo" "fo_stack fo = (fo_stack (dt_fanout s))(cid := a # fo_stack (dt_fanout s) cid)" by blast
  have a: "a \<notin> set ?L" "a < next_dt_addr s" using assms(2) by (simp_all add: dl_fresh_def Let_def)
  have old: "dl_entry_ok s b" if "b \<in> set ?L" for b using wf(3) that .
  have id: "0 < cid" using assms(1) by (auto simp: cid_def dl_wf_def)
  have fresh: "dt_id (dt_heap s b) \<noteq> cid" if "b \<in> set ?L" for b
    using old [OF that] that assms(2) by (auto simp: cid_def dl_fresh_def dl_entry_ok_def Let_def)
  have trig: "dt_triggered_by (dt_heap s a) < cid"
  proof (cases "dt_id (dt_heap s a) = 0")
    case True
    from assms(3) have "dt_triggered_by (dt_heap s a) = 0 \<or>
        (\<exists>b \<in> set ?L. dt_id (dt_heap s b) = dt_triggered_by (dt_heap s a))"
      by (auto simp: add_error_def Let_def split: if_splits)
    moreover have "dt_id (dt_heap s b) < next_downtime_id s" if "b \<in> set ?L" for b
      using old [OF that] by (simp add: dl_entry_ok_def Let_def)
    ultimately have "dt_triggered_by (dt_heap s a) < next_downtime_id s" using id True by (metis cid_def)
    with True show ?thesis by (simp add: cid_def)
  next
    case False
    with assms(2) show ?thesis by (simp add: dl_fresh_def cid_def Let_def)
  qed
  have sane: "sane_start (dt_heap s a)" "\<And>b. b \<in> set ?L \<Longrightarrow> sane_start (dt_heap s b)"
    using assms(2) old by (auto simp: dl_fresh_def dl_entry_ok_def Let_def)
  define ls where "ls = insert_downtime ?s a"
  let ?s' = "?s\<lparr>dt_fanout := fo, next_downtime_id := max (next_downtime_id s) (cid + 1), scheduled_downtime_list := ls\<rparr>"
  have compar: "downtime_compar (dt_heap ?s a) (dt_heap ?s c) < 0 \<longleftrightarrow> dt_key (dt_heap ?s a) < dt_key (dt_heap ?s c)"
    if "c \<in> set ?L" for c
    using downtime_compar_key(1) [of "dt_heap ?s a" "dt_heap ?s c"] sane that a(1)
    by (auto simp: sane_start_def)
  have ls: "ls = (if defer_downtime_sorting ?s then a # scheduled_downtime_list ?s
      else takeWhile (\<lambda>c. \<not> downtime_compar (dt_heap ?s a) (dt_heap ?s c) < 0) (scheduled_downtime_list ?s) @ a #
           dropWhile (\<lambda>c. \<not> downtime_compar (dt_heap ?s a) (dt_heap ?s c) < 0) (scheduled_downtime_list ?s))"
    unfolding ls_def insert_downtime_def
    by (intro if_cong refl takeWhile_dropWhile_cong) (use compar in \<open>simp only: upd_dt_simps\<close>)
  have run: "downtime_link s a = Some (OK, ?s')"
    unfolding downtime_link_def Let_def cid_def [symmetric] ls using fo(1)
    by (auto simp: max_def cid_def)
  have ms: "mset ls = add_mset a (mset ?L)" by (simp add: ls_def insert_downtime_mset)
  have set_ls: "set ls = insert a (set ?L)" using arg_cong [OF ms, of set_mset] by simp
  have heap: "dt_heap ?s' b = dt_heap s b" if "b \<in> set ?L" for b using that a(1) by auto
  have "distinct (map (\<lambda>b. dt_id (dt_heap ?s' b)) ls)"
  proof -
    define f where "f b = dt_id (dt_heap ?s' b)" for b
    have "f a = cid" by (simp add: f_def)
    moreover have "map f ?L = map (\<lambda>b. dt_id (dt_heap s b)) ?L"
      by (rule map_cong [OF refl]) (simp only: f_def heap)
    ultimately have "mset (map f ls) = mset (cid # map (\<lambda>b. dt_id (dt_heap s b)) ?L)"
      unfolding mset_map ms by (metis image_mset_add_mset mset.simps(2) mset_map)
    then have "mset (map (\<lambda>b. dt_id (dt_heap ?s' b)) ls) = mset (cid # map (\<lambda>b. dt_id (dt_heap s b)) ?L)"
      unfolding f_def .
    moreover have "distinct (cid # map (\<lambda>b. dt_id (dt_heap s b)) ?L)"
      using fresh assms(1) by (auto simp: dl_wf_def)
    ultimately show ?thesis by (metis mset_eq_imp_distinct_iff)
  qed
  moreover have "dl_entry_ok ?s' b" if "b \<in> set ls" for b
  proof (cases "b = a")
    case True
    have "if dt_type (dt_heap s a) = HOST_DOWNTIME then find_host s (dt_host_name (dt_heap s a)) \<noteq> None
        else dt_type (dt_heap s a) = SERVICE_DOWNTIME
          \<and> find_service s (dt_host_name (dt_heap s a)) (dt_service_description (dt_heap s a)) \<noteq> None"
      using assms(3) by (auto simp: add_error_def Let_def split: if_splits)
    moreover have "find_host ?s' = find_host s" "find_service ?s' = find_service s"
      by (rule find_host_frame find_service_frame; simp)+
    ultimately show ?thesis using True a id trig sane(1)
      unfolding dl_entry_ok_def Let_def
      by (simp add: sane_start_def less_max_iff_disj split: if_splits)
  next
    case False
    with that set_ls have b: "b \<in> set ?L" by simp
    show ?thesis by (rule dl_entry_ok_frame [OF old [OF b]]) (use False in simp_all)
  qed
  moreover have "fo_stack fo i = filter (\<lambda>b. dt_id (dt_heap ?s' b) = i) ls" for i
  proof -
    have L: "fo_stack (dt_fanout s) i = filter (\<lambda>b. dt_id (dt_heap ?s' b) = i) ?L"
      unfolding wf(5) by (rule filter_cong [OF refl]) (simp only: heap)
    have new: "dt_id (dt_heap ?s' a) = cid" by simp
    show ?thesis
    proof (cases "i = cid")
      case True
      then have empty: "fo_stack (dt_fanout s) i = []" using fresh by (simp add: wf(5) filter_empty_conv)
      have "mset (filter (\<lambda>b. dt_id (dt_heap ?s' b) = i) ls) = {#a#}"
      proof -
        have "filter_mset (\<lambda>b. dt_id (dt_heap ?s' b) = i) (mset ?L) = {#}"
          using L empty by (metis mset.simps(1) mset_filter)
        with new True show ?thesis unfolding mset_filter ms by simp
      qed
      then have "filter (\<lambda>b. dt_id (dt_heap ?s' b) = i) ls = [a]" unfolding mset_single_iff .
      then show ?thesis using True empty fo(3) by (simp only: fun_upd_same)
    next
      case False
      have "filter (\<lambda>b. dt_id (dt_heap ?s' b) = i) ls = filter (\<lambda>b. dt_id (dt_heap ?s' b) = i) ?L"
      proof -
        have "filter P (takeWhile Q ?L @ a # dropWhile Q ?L) = filter P ?L" if "\<not> P a" for P Q
          using that by (metis filter.simps(2) filter_append takeWhile_dropWhile_id)
        then show ?thesis using False new by (simp add: ls_def insert_downtime_def)
      qed
      then show ?thesis using False fo(3) L by simp
    qed
  qed
  moreover have "sorted (map (\<lambda>b. dt_key (dt_heap ?s' b)) ls)" if "\<not> defer_downtime_sorting s"
  proof -
    have "sorted (map (\<lambda>b. dt_key (dt_heap ?s b)) ?L)"
      using assms(1) that heap by (simp add: dl_wf_def cong: map_cong)
    from sorted_insert_while [OF this, of a] that show ?thesis
      unfolding ls_def insert_downtime_def by (simp del: map_append)
  qed
  ultimately have "dl_wf ?s'" unfolding dl_wf_def using fo(2) by simp
  with run ms show ?thesis by (intro exI [of _ ?s']) (auto simp: upd_dt_def)
qed

lemma downtime_add_spec:
  assumes "dl_wf s" "dl_fresh s a"
  defines "cid \<equiv> (if dt_id (dt_heap s a) = 0 then next_downtime_id s else dt_id (dt_heap s a))"
  shows "if add_error s (dt_heap s a) \<noteq> OK then downtime_add s a = Some (add_error s (dt_heap s a), s)
    else \<exists>s' fo ls. downtime_add s a = Some (OK, s') \<and> dl_wf s'
      \<and> s' = s\<lparr>dt_heap := (dt_heap s)(a := (dt_heap s a)\<lparr>dt_id := cid\<rparr>), dt_fanout := fo,
         next_downtime_id := max (next_downtime_id s) (cid + 1), scheduled_downtime_list := ls\<rparr>
      \<and> mset ls = add_mset a (mset (scheduled_downtime_list s))"
  using downtime_link_spec [OF assms(1,2)] downtime_check_spec [OF assms(1), of a]
  by (fastforce simp: downtime_add_def cid_def)

section \<open>Changes the invariant does not see\<close>

definition same_entry :: "scheduled_downtime \<Rightarrow> scheduled_downtime \<Rightarrow> bool" where
  "same_entry d d' \<longleftrightarrow> dt_type d = dt_type d' \<and> dt_host_name d = dt_host_name d'
    \<and> dt_service_description d = dt_service_description d' \<and> dt_start_time d = dt_start_time d'
    \<and> dt_triggered_by d = dt_triggered_by d' \<and> dt_id d = dt_id d'"

lemma same_entry_refl [simp]: "same_entry d d"
  by (simp add: same_entry_def)

lemma dl_wf_frame:
  assumes "dl_wf s" "dt_fanout s' = dt_fanout s" "scheduled_downtime_list s' = scheduled_downtime_list s"
    "next_downtime_id s' = next_downtime_id s" "next_dt_addr s' = next_dt_addr s"
    "defer_downtime_sorting s' = defer_downtime_sorting s" "host_table s' = host_table s"
    "service_table s' = service_table s"
    "\<forall>a \<in> set (scheduled_downtime_list s). same_entry (dt_heap s' a) (dt_heap s a)"
  shows "dl_wf s'"
proof -
  let ?L = "scheduled_downtime_list s"
  have id: "dt_id (dt_heap s' a) = dt_id (dt_heap s a)" "dt_key (dt_heap s' a) = dt_key (dt_heap s a)"
    if "a \<in> set ?L" for a using assms(9) that by (auto simp: same_entry_def dt_key_def)
  have entry: "dl_entry_ok s' a" if a: "a \<in> set ?L" for a
    using dl_wfD(3) [OF assms(1) a] bspec [OF assms(9) a] assms(4,5)
    unfolding dl_entry_ok_def find_host_frame [OF assms(7)] find_service_frame [OF assms(8)]
    by (simp add: Let_def same_entry_def sane_start_def split: if_splits)
  have ids: "map (\<lambda>a. dt_id (dt_heap s' a)) ?L = map (\<lambda>a. dt_id (dt_heap s a)) ?L"
    "map (\<lambda>a. dt_key (dt_heap s' a)) ?L = map (\<lambda>a. dt_key (dt_heap s a)) ?L"
    by (rule map_cong [OF refl]; simp only: id)+
  have flt: "filter (\<lambda>a. dt_id (dt_heap s' a) = i) ?L = filter (\<lambda>a. dt_id (dt_heap s a) = i) ?L" for i
    by (rule filter_cong [OF refl]) (simp only: id)
  show ?thesis using assms(1) entry unfolding dl_wf_def assms(2-6) ids flt by simp
qed

section \<open>Deleting keeps the invariant\<close>

lemma downtime_remove_spec:
  assumes "dl_wf s" "a \<in> set (scheduled_downtime_list s)"
  shows "\<exists>fo. downtime_remove s a = Some (s\<lparr>scheduled_downtime_list := filter (\<lambda>b. b \<noteq> a) (scheduled_downtime_list s),
      dt_fanout := fo\<rparr>)
    \<and> dl_wf (s\<lparr>scheduled_downtime_list := filter (\<lambda>b. b \<noteq> a) (scheduled_downtime_list s), dt_fanout := fo\<rparr>)"
proof -
  let ?L = "scheduled_downtime_list s" and ?L' = "filter (\<lambda>b. b \<noteq> a) (scheduled_downtime_list s)"
  note wf = dl_wfD [OF assms(1)]
  from fanout_remove_spec [OF wf(1), of "dt_id (dt_heap s a)"] fanout_lookup [OF assms] obtain fo where
    fo: "fanout_remove (dt_fanout s) (dt_id (dt_heap s a)) = Some (Some a, fo)" "fo_wf fo"
      "fo_stack fo = (fo_stack (dt_fanout s))(dt_id (dt_heap s a) := [])" by auto
  let ?s' = "s\<lparr>scheduled_downtime_list := ?L', dt_fanout := fo\<rparr>"
  have "remove1 a ?L = ?L'" using wf(2) by (simp add: distinct_remove1_removeAll removeAll_filter_not_eq eq_commute)
  then have run: "downtime_remove s a = Some ?s'" by (simp add: downtime_remove_def fo(1))
  have "dl_entry_ok ?s' b" if "b \<in> set ?L'" for b
    by (rule dl_entry_ok_frame [OF wf(3) [of b]]) (use that in simp_all)
  moreover have "fo_stack fo i = filter (\<lambda>b. dt_id (dt_heap s b) = i) ?L'" for i
  proof (cases "i = dt_id (dt_heap s a)")
    case True
    have "b = a" if "b \<in> set ?L" "dt_id (dt_heap s b) = dt_id (dt_heap s a)" for b
      using inj_onD [OF wf(4) that(2) that(1) assms(2)] .
    then have "filter (\<lambda>b. dt_id (dt_heap s b) = i) ?L' = []" using True by (auto simp: filter_empty_conv)
    then show ?thesis using True fo(3) by (simp only: fun_upd_same)
  next
    case False
    then show ?thesis using fo(3) by (auto simp: wf(5) intro: filter_cong)
  qed
  moreover have "sorted (map (\<lambda>b. dt_key (dt_heap s b)) ?L)" if "\<not> defer_downtime_sorting s"
    using assms(1) that by (simp add: dl_wf_def)
  moreover have "distinct (map (\<lambda>b. dt_id (dt_heap s b)) ?L')"
    using assms(1) by (simp add: dl_wf_def distinct_map_filter)
  ultimately have "dl_wf ?s'" using assms(1) fo(2) by (simp add: dl_wf_def sorted_filter)
  with run show ?thesis by blast
qed

text \<open>The kind of the comment that belongs to a downtime.\<close>

definition dt_comment_key :: "scheduled_downtime \<Rightarrow> nat \<times> nat" where
  "dt_comment_key d = (if dt_type d = HOST_DOWNTIME then HOST_COMMENT else SERVICE_COMMENT, dt_comment_id d)"

lemma delete_comment_total:
  assumes "cm_wf c"
  shows "\<exists>r c'. delete_comment c ty i = Some (r, c') \<and> cm_wf c'
    \<and> comment_list c' = filter (\<lambda>x. cm_key x \<noteq> (ty, i)) (comment_list c)"
proof (cases "find_comment c i ty")
  case None
  then have "filter (\<lambda>x. cm_key x \<noteq> (ty, i)) (comment_list c) = comment_list c"
    by (auto simp: filter_id_conv find_comment_def find_None_iff cm_key_def)
  with delete_comment_spec [OF assms, of i ty] None assms show ?thesis by auto
next
  case (Some x)
  with delete_comment_spec [OF assms, of i ty] show ?thesis by auto
qed

lemma delete_downtime_spec:
  assumes "dl_wf s" "cm_wf (comments s)" "a \<in> set (scheduled_downtime_list s)"
    "ty = ANY_DOWNTIME \<or> ty = dt_type (dt_heap s a)"
  shows "\<exists>fo c s'. delete_downtime s ty (dt_id (dt_heap s a)) = Some (OK, s')
    \<and> s' = s\<lparr>scheduled_downtime_list := filter (\<lambda>b. b \<noteq> a) (scheduled_downtime_list s), dt_fanout := fo, comments := c\<rparr>
    \<and> dl_wf s' \<and> cm_wf c
    \<and> comment_list c = filter (\<lambda>x. cm_key x \<noteq> dt_comment_key (dt_heap s a)) (comment_list (comments s))"
proof -
  from downtime_remove_spec [OF assms(1,3)] obtain fo where fo:
    "downtime_remove s a = Some (s\<lparr>scheduled_downtime_list := filter (\<lambda>b. b \<noteq> a) (scheduled_downtime_list s), dt_fanout := fo\<rparr>)"
    "dl_wf (s\<lparr>scheduled_downtime_list := filter (\<lambda>b. b \<noteq> a) (scheduled_downtime_list s), dt_fanout := fo\<rparr>)" by blast
  let ?s1 = "s\<lparr>scheduled_downtime_list := filter (\<lambda>b. b \<noteq> a) (scheduled_downtime_list s), dt_fanout := fo\<rparr>"
  obtain k i where k: "dt_comment_key (dt_heap s a) = (k, i)" by fastforce
  from delete_comment_total [OF assms(2), of k i] obtain r c where c: "delete_comment (comments s) k i = Some (r, c)"
    "cm_wf c" "comment_list c = filter (\<lambda>x. cm_key x \<noteq> (k, i)) (comment_list (comments s))" by blast
  have "dl_wf (?s1\<lparr>comments := c\<rparr>)" by (rule dl_wf_frame [OF fo(2)]) simp_all
  moreover have "delete_downtime s ty (dt_id (dt_heap s a)) = Some (OK, ?s1\<lparr>comments := c\<rparr>)"
    using find_downtime_listed [OF assms(1,3), of ty] assms(4) fo(1) c(1) k
    by (auto simp: delete_downtime_def delete_host_comment_def delete_service_comment_def dt_comment_key_def)
  ultimately show ?thesis using c k by fastforce
qed

lemma delete_downtime_absent:
  "dl_wf s \<Longrightarrow> find_downtime s ty i = Some None \<Longrightarrow> delete_downtime s ty i = Some (ERROR, s)"
  by (simp add: delete_downtime_def)

section \<open>Properties\<close>

definition entry :: "nat \<Rightarrow> string \<Rightarrow> string option \<Rightarrow> int \<Rightarrow> string option \<Rightarrow> string option \<Rightarrow> int \<Rightarrow> int \<Rightarrow> int
    \<Rightarrow> bool \<Rightarrow> nat \<Rightarrow> nat \<Rightarrow> nat \<Rightarrow> bool \<Rightarrow> bool \<Rightarrow> scheduled_downtime" where
  "entry ty h d et au co st fs en fx tr du i eff sent = \<lparr>dt_type = ty, dt_host_name = Some h,
     dt_service_description = (if ty = SERVICE_DOWNTIME then d else None), dt_entry_time = et, dt_start_time = st,
     dt_flex_downtime_start = fs, dt_end_time = en, dt_fixed = fx, dt_triggered_by = tr, dt_duration = du,
     dt_id = i, dt_is_in_effect = eff, dt_start_notification_sent = sent, dt_author = au, dt_comment = co,
     dt_comment_id = 0, dt_incremented_pending_downtime = False, dt_start_event = None, dt_stop_event = None\<rparr>"

text \<open>The state with an entry in a new cell, which the structures do not refer to yet.\<close>

definition new_cell :: "scheduled_downtime \<Rightarrow> daemon \<Rightarrow> daemon" where
  "new_cell e s = s\<lparr>dt_heap := (dt_heap s)(next_dt_addr s := e), next_dt_addr := next_dt_addr s + 1\<rparr>"

lemma next_dt_addr_unused: "dl_wf s \<Longrightarrow> b \<in> set (scheduled_downtime_list s) \<Longrightarrow> b \<noteq> next_dt_addr s"
  using dl_wfD(3) [of s b] by (auto simp: dl_entry_ok_def Let_def)

lemma new_cell_wf:
  assumes "dl_wf s"
  shows "dl_wf (new_cell e s)" "add_error (new_cell e s) d = add_error s d"
proof -
  note old = next_dt_addr_unused [OF assms]
  have heap: "dt_heap (new_cell e s) b = dt_heap s b" if "b \<in> set (scheduled_downtime_list s)" for b
    using old [OF that] by (simp add: new_cell_def)
  have "dl_wf (new_cell e s\<lparr>next_dt_addr := next_dt_addr s\<rparr>)"
    by (rule dl_wf_frame [OF assms]) (use heap in \<open>simp_all add: new_cell_def\<close>)
  then show "dl_wf (new_cell e s)"
    by (auto simp: dl_wf_def new_cell_def intro: dl_entry_ok_frame [of "new_cell e s\<lparr>next_dt_addr := next_dt_addr s\<rparr>"])
  have "(\<exists>b \<in> set (scheduled_downtime_list s). dt_id (dt_heap (new_cell e s) b) = j)
      = (\<exists>b \<in> set (scheduled_downtime_list s). dt_id (dt_heap s b) = j)" for j
    using heap by auto
  moreover have "find_host (new_cell e s) = find_host s" "find_service (new_cell e s) = find_service s"
    by (rule find_host_frame find_service_frame; simp add: new_cell_def)+
  ultimately show "add_error (new_cell e s) d = add_error s d" by (simp add: add_error_def new_cell_def)
qed

lemma add_downtime_run:
  assumes "ty = SERVICE_DOWNTIME \<longrightarrow> d \<noteq> None"
  shows "add_downtime s ty (Some h) d et au co st fs en fx tr du i eff sent =
    (downtime_add (new_cell (entry ty h d et au co st fs en fx tr du i eff sent) s) (next_dt_addr s) \<bind>
      (\<lambda>(r, s'). Some (if r \<noteq> 0 then ERROR else OK, s')))"
  using assms by (auto simp: add_downtime_def Let_def entry_def new_cell_def)

lemma new_cell_fresh:
  assumes "dl_wf s" "sane_start e"
    "dt_id e \<noteq> 0 \<longrightarrow> dt_triggered_by e < dt_id e \<and> (\<forall>b \<in> set (scheduled_downtime_list s). dt_id (dt_heap s b) \<noteq> dt_id e)"
  shows "dl_fresh (new_cell e s) (next_dt_addr s)"
  using assms(2,3) next_dt_addr_unused [OF assms(1)] by (auto simp: dl_fresh_def Let_def new_cell_def)

text \<open>C25. A downtime is added to the list and to the table exactly if it passes the checks: host and
  service exist, the kind matches, the triggering downtime exists, the times make sense.  It is then
  found under its id, a new one where none was given, and the list stays in order; otherwise the
  answer is \<open>ERROR\<close> and the list is as it was.\<close>

theorem add_downtime_checked:
  assumes "dl_wf s" "0 \<le> st" "st < 2 ^ 31" "ty = SERVICE_DOWNTIME \<longrightarrow> d \<noteq> None"
    and "i \<noteq> 0 \<longrightarrow> tr < i \<and> (\<forall>b \<in> set (scheduled_downtime_list s). dt_id (dt_heap s b) \<noteq> i)"
  shows "\<exists>s'. add_downtime s ty (Some h) d et au co st fs en fx tr du i eff sent =
      Some (if add_error s (entry ty h d et au co st fs en fx tr du i eff sent) = OK then OK else ERROR, s')
    \<and> dl_wf s'
    \<and> (if add_error s (entry ty h d et au co st fs en fx tr du i eff sent) = OK
       then \<exists>a. let cid = (if i = 0 then next_downtime_id s else i) in
         mset (scheduled_downtime_list s') = add_mset a (mset (scheduled_downtime_list s))
         \<and> dt_heap s' a = entry ty h d et au co st fs en fx tr du cid eff sent
         \<and> find_downtime s' ANY_DOWNTIME cid = Some (Some a)
       else scheduled_downtime_list s' = scheduled_downtime_list s)"
proof -
  define e where "e = entry ty h d et au co st fs en fx tr du i eff sent"
  define a where "a = next_dt_addr s"
  let ?s = "new_cell e s"
  define cid where "cid = (if i = 0 then next_downtime_id s else i)"
  have wf: "dl_wf ?s" and err: "add_error ?s e = add_error s e" using new_cell_wf [OF assms(1)] by simp_all
  have fresh: "dl_fresh ?s a"
    unfolding a_def by (rule new_cell_fresh [OF assms(1)]) (use assms(2-5) in \<open>simp_all add: e_def entry_def sane_start_def\<close>)
  have run: "add_downtime s ty (Some h) d et au co st fs en fx tr du i eff sent =
      (downtime_add ?s a \<bind> (\<lambda>(r, s'). Some (if r \<noteq> 0 then ERROR else OK, s')))"
    unfolding a_def e_def by (rule add_downtime_run [OF assms(4)])
  have e_a: "dt_heap ?s a = e" "dt_id e = i" "next_downtime_id ?s = next_downtime_id s"
    "scheduled_downtime_list ?s = scheduled_downtime_list s"
    "(dt_heap ?s)(a := x) = (dt_heap s)(a := x)" for x by (simp_all add: e_def entry_def new_cell_def a_def)
  from downtime_add_spec [OF wf fresh, unfolded e_a err, folded cid_def] have spec: "if add_error s e \<noteq> OK then downtime_add ?s a = Some (add_error s e, ?s)
    else \<exists>s' fo ls. downtime_add ?s a = Some (OK, s') \<and> dl_wf s'
      \<and> s' = ?s\<lparr>dt_heap := (dt_heap s)(a := e\<lparr>dt_id := cid\<rparr>), dt_fanout := fo,
         next_downtime_id := max (next_downtime_id s) (cid + 1), scheduled_downtime_list := ls\<rparr>
      \<and> mset ls = add_mset a (mset (scheduled_downtime_list s))"
    .
  show ?thesis
  proof (cases "add_error s e = OK")
    case False
    with spec run wf show ?thesis by (auto simp: e_a(4) simp flip: e_def)
  next
    case True
    with spec obtain s' fo ls where s': "downtime_add ?s a = Some (OK, s')" "dl_wf s'"
      "s' = ?s\<lparr>dt_heap := (dt_heap s)(a := e\<lparr>dt_id := cid\<rparr>), dt_fanout := fo,
         next_downtime_id := max (next_downtime_id s) (cid + 1), scheduled_downtime_list := ls\<rparr>"
      "mset ls = add_mset a (mset (scheduled_downtime_list s))" by auto
    have e: "dt_heap s' a = entry ty h d et au co st fs en fx tr du cid eff sent"
      by (simp add: s'(3) e_def entry_def)
    have "a \<in> set (scheduled_downtime_list s')" using arg_cong [OF s'(4), of set_mset] by (simp add: s'(3))
    from find_downtime_listed [OF s'(2) this, of ANY_DOWNTIME] e
    have "find_downtime s' ANY_DOWNTIME cid = Some (Some a)" by (simp add: entry_def)
    with s'(2,4) e run s'(1) True show ?thesis
      by (intro exI [of _ s']) (auto simp: s'(3) Let_def simp flip: e_def cid_def intro!: exI [of _ a])
  qed
qed

definition one_host :: daemon where
  "one_host = blank_daemon\<lparr>host_table := [''web'' \<mapsto> 0], num_hosts := 1\<rparr>"

lemma one_host_wf: "dl_wf one_host"
proof -
  have "fo_wf (fanout_create True True 16384 :: nat fanout_table option)"
    by (simp add: fanout_create_def fo_wf_def fo.homed_replicate)
  moreover have "fo_stack (fanout_create True True 16384 :: nat fanout_table option) i = []" for i
    by (simp add: fanout_create_def fo_stack_def fo.entries_for_replicate)
  ultimately show ?thesis by (simp add: dl_wf_def one_host_def blank_daemon_def)
qed

theorem add_downtime_checked_witness:
  "\<exists>s'. add_downtime one_host HOST_DOWNTIME (Some ''web'') None 5 None None 100 0 200 True 0 0 0 False False =
      Some (if add_error one_host (entry HOST_DOWNTIME ''web'' None 5 None None 100 0 200 True 0 0 0 False False) = OK then OK else ERROR, s')
    \<and> dl_wf s'
    \<and> (if add_error one_host (entry HOST_DOWNTIME ''web'' None 5 None None 100 0 200 True 0 0 0 False False) = OK
       then \<exists>a. let cid = (if (0 :: nat) = 0 then next_downtime_id one_host else 0) in
         mset (scheduled_downtime_list s') = add_mset a (mset (scheduled_downtime_list one_host))
         \<and> dt_heap s' a = entry HOST_DOWNTIME ''web'' None 5 None None 100 0 200 True 0 0 cid False False
         \<and> find_downtime s' ANY_DOWNTIME cid = Some (Some a)
       else scheduled_downtime_list s' = scheduled_downtime_list one_host)"
  by (rule add_downtime_checked [OF one_host_wf]) simp_all

end
