(* ===== verification/Notifications.thy ===== *)
theory Notifications
  imports Dependencies Downtimes
begin

text \<open>
  Notifications about services and hosts: \<open>base/notifications.c\<close>.  A notification passes the
  filters of the object (\<open>check_service_notification_viability\<close>), then the contacts to notify
  are collected, from escalations or from the object, each passing its own filters, and each is
  sent its notification commands.  The notification list is the list of contacts, the last added
  first.  Author and comment text of a notification only feed macros and are left out.
\<close>

abbreviation (input) NOTIFICATION_NORMAL :: nat where "NOTIFICATION_NORMAL \<equiv> 0"
abbreviation (input) NOTIFICATION_ACKNOWLEDGEMENT :: nat where "NOTIFICATION_ACKNOWLEDGEMENT \<equiv> 1"
abbreviation (input) NOTIFICATION_FLAPPINGSTART :: nat where "NOTIFICATION_FLAPPINGSTART \<equiv> 2"
abbreviation (input) NOTIFICATION_FLAPPINGSTOP :: nat where "NOTIFICATION_FLAPPINGSTOP \<equiv> 3"
abbreviation (input) NOTIFICATION_FLAPPINGDISABLED :: nat where "NOTIFICATION_FLAPPINGDISABLED \<equiv> 4"
abbreviation (input) NOTIFICATION_DOWNTIMESTART :: nat where "NOTIFICATION_DOWNTIMESTART \<equiv> 5"
abbreviation (input) NOTIFICATION_DOWNTIMEEND :: nat where "NOTIFICATION_DOWNTIMEEND \<equiv> 6"
abbreviation (input) NOTIFICATION_DOWNTIMECANCELLED :: nat where "NOTIFICATION_DOWNTIMECANCELLED \<equiv> 7"
abbreviation (input) NOTIFICATION_CUSTOM :: nat where "NOTIFICATION_CUSTOM \<equiv> 8"
abbreviation (input) NOTIFICATION_RECOVERY :: nat where "NOTIFICATION_RECOVERY \<equiv> 9"

abbreviation (input) NOTIFICATION_OPTION_NONE :: u32 where "NOTIFICATION_OPTION_NONE \<equiv> 0"
abbreviation (input) NOTIFICATION_OPTION_BROADCAST :: u32 where "NOTIFICATION_OPTION_BROADCAST \<equiv> 1"
abbreviation (input) NOTIFICATION_OPTION_FORCED :: u32 where "NOTIFICATION_OPTION_FORCED \<equiv> 2"
abbreviation (input) NOTIFICATION_OPTION_INCREMENT :: u32 where "NOTIFICATION_OPTION_INCREMENT \<equiv> 4"

definition flapping_type :: "nat \<Rightarrow> bool" where
  "flapping_type ty \<longleftrightarrow> ty = NOTIFICATION_FLAPPINGSTART \<or> ty = NOTIFICATION_FLAPPINGSTOP
    \<or> ty = NOTIFICATION_FLAPPINGDISABLED"

definition downtime_type :: "nat \<Rightarrow> bool" where
  "downtime_type ty \<longleftrightarrow> ty = NOTIFICATION_DOWNTIMESTART \<or> ty = NOTIFICATION_DOWNTIMEEND
    \<or> ty = NOTIFICATION_DOWNTIMECANCELLED"

definition one_year :: int where "one_year = 60 * 60 * 24 * 365"

section \<open>Filters of a service\<close>

text \<open>Whether all parents are bad, as the code counts them.\<close>

definition count_bad_parents :: "daemon \<Rightarrow> nat option list \<Rightarrow> nat ub" where
  "count_bad_parents s ps =
    fold (\<lambda>p bad. do {
        n \<leftarrow> bad; i \<leftarrow> p;
        Some (if s_current_state (svcs s i) = STATE_OK
              then n + (if s_current_state (svcs s i) \<noteq> 0 then 1 else 0) else n)
      }) ps (Some 0)"

definition count_bad_host_parents :: "daemon \<Rightarrow> nat list \<Rightarrow> nat" where
  "count_bad_host_parents s hs =
    fold (\<lambda>h n. if h_current_state (hosts s h) \<noteq> HOST_UP
        then n + (if h_current_state (hosts s h) \<noteq> 0 then 1 else 0) else n) hs 0"

definition first_notification_due :: "daemon \<Rightarrow> int \<Rightarrow> rat \<Rightarrow> bool" where
  "first_notification_due s last_hard_state_change delay \<longleftrightarrow>
    (let last_problem_time = (if last_hard_state_change > 0 then last_hard_state_change else program_start (globs s))
     in \<not> clock s < last_problem_time + trunc (delay * of_int (interval_length (globs s))))"

text \<open>The filters of problem and recovery notifications, from the soft state on.\<close>

definition normal_service_viability :: "daemon \<Rightarrow> nat \<Rightarrow> nat \<Rightarrow> nat \<Rightarrow> c_int ub" where
  "normal_service_viability s i h ty =
    (let svc = svcs s i; hst = hosts s h in
     if s_state_type svc = SOFT_STATE then Some ERROR
     else if s_problem_has_been_acknowledged svc then Some ERROR
     else do {
       sd \<leftarrow> check_service_dependencies s i NOTIFICATION_DEPENDENCY;
       (if sd = DEPENDENCIES_FAILED then Some ERROR
        else do {
          hd \<leftarrow> check_host_dependencies s h NOTIFICATION_DEPENDENCY;
          Some
           (if hd = DEPENDENCIES_FAILED then ERROR
            else if \<not> flag_isset (s_notification_options svc) (state_flag (s_current_state svc)) then ERROR
            else if s_current_state svc = STATE_OK \<and> s_notified_on svc = 0 then ERROR
            else if ty = NOTIFICATION_NORMAL \<and> s_first_notification_delay svc > 0
              \<and> s_current_notification_number svc = 0 \<and> s_current_state svc \<noteq> STATE_OK
              \<and> \<not> first_notification_due s (s_last_hard_state_change svc) (s_first_notification_delay svc) then ERROR
            else if s_is_flapping svc then ERROR
            else if s_scheduled_downtime_depth svc > 0 then ERROR
            else if h_scheduled_downtime_depth hst > 0 then ERROR
            else if s_pending_flex_downtime svc > 0 \<and> is_service_in_pending_flex_downtime s i then ERROR
            else if h_pending_flex_downtime hst > 0 \<and> is_host_in_pending_flex_downtime s h then ERROR
            else if s_no_more_notifications svc then ERROR
            else if h_current_state hst \<noteq> HOST_UP \<and> h_state_type hst = HARD_STATE then ERROR
            else if h_parent_hosts hst \<noteq> []
              \<and> count_bad_host_parents s (h_parent_hosts hst) = length (h_parent_hosts hst) then ERROR
            else if clock s < s_next_notification svc \<and> \<not> s_is_volatile svc then ERROR
            else OK)
        })
     })"

definition check_service_notification_viability :: "daemon \<Rightarrow> nat \<Rightarrow> nat \<Rightarrow> u32 \<Rightarrow> (c_int \<times> daemon) ub" where
  "check_service_notification_viability s i ty options =
    (let svc = svcs s i in
     if options AND NOTIFICATION_OPTION_FORCED \<noteq> 0 then Some (OK, s)
     else if \<not> enable_notifications (globs s) then Some (ERROR, s)
     else case s_host svc of None \<Rightarrow> Some (ERROR, s)
     | Some h \<Rightarrow> do {
         bad \<leftarrow> count_bad_parents s (s_parents svc);
         let temp_period = (if s_notification_period svc = None then h_notification_period (hosts s h)
           else s_notification_period svc);
         (if s_parents svc \<noteq> [] \<and> bad = length (s_parents svc) then Some (ERROR, s)
          else if check_time_against_period (clib s) (clock s) temp_period = ERROR then
            Some (ERROR,
              if ty = NOTIFICATION_NORMAL
              then (let timeperiod_start = get_next_valid_time (clib s) (clock s) (clock s) (s_notification_period svc)
                    in upd_svc i (\<lambda>v. v\<lparr>s_next_notification :=
                      (if timeperiod_start = 0 then clock s + one_year else timeperiod_start)\<rparr>) s)
              else s)
          else if \<not> s_notifications_enabled svc then Some (ERROR, s)
          else if ty = NOTIFICATION_CUSTOM then
            Some (if s_scheduled_downtime_depth svc > 0 \<or> h_scheduled_downtime_depth (hosts s h) > 0 then ERROR else OK, s)
          else if ty = NOTIFICATION_ACKNOWLEDGEMENT then
            Some (if s_current_state svc = STATE_OK then ERROR else OK, s)
          else if flapping_type ty then
            Some (if \<not> flag_isset (s_notification_options svc) OPT_FLAPPING then ERROR
                  else if s_scheduled_downtime_depth svc > 0 \<or> h_scheduled_downtime_depth (hosts s h) > 0 then ERROR
                  else OK, s)
          else if downtime_type ty then
            Some (if \<not> flag_isset (s_notification_options svc) OPT_DOWNTIME then ERROR
                  else if s_scheduled_downtime_depth svc > 0 then ERROR
                  else OK, s)
          else do { r \<leftarrow> normal_service_viability s i h ty; Some (r, s) })
       })"

section \<open>Filters of a contact\<close>

definition check_contact_service_notification_viability :: "daemon \<Rightarrow> nat \<Rightarrow> nat \<Rightarrow> nat \<Rightarrow> u32 \<Rightarrow> c_int" where
  "check_contact_service_notification_viability s c i ty options =
    (let cntct = contacts s c; svc = svcs s i in
     if options AND NOTIFICATION_OPTION_FORCED \<noteq> 0 then OK
     else if ct_minimum_value cntct > s_hourly_value svc then ERROR
     else if \<not> ct_service_notifications_enabled cntct then ERROR
     else if check_time_against_period (clib s) (clock s) (ct_service_notification_period cntct) = ERROR then ERROR
     else if ty = NOTIFICATION_CUSTOM then OK
     else if flapping_type ty then
       (if ct_service_notification_options cntct AND OPT_FLAPPING = 0 then ERROR else OK)
     else if downtime_type ty then
       (if ct_service_notification_options cntct AND OPT_DOWNTIME = 0 then ERROR else OK)
     else if ct_service_notification_options cntct AND state_flag (s_current_state svc) = 0 then ERROR
     else if s_current_state svc = STATE_OK then
       (if ct_service_notification_options cntct AND OPT_RECOVERY = 0 then ERROR
        else if s_notified_on svc AND ct_service_notification_options cntct = 0 then ERROR else OK)
     else OK)"

definition check_contact_host_notification_viability :: "daemon \<Rightarrow> nat \<Rightarrow> nat \<Rightarrow> nat \<Rightarrow> u32 \<Rightarrow> c_int" where
  "check_contact_host_notification_viability s c h ty options =
    (let cntct = contacts s c; hst = hosts s h in
     if options AND NOTIFICATION_OPTION_FORCED \<noteq> 0 then OK
     else if \<not> ct_host_notifications_enabled cntct then ERROR
     else if ct_minimum_value cntct > (h_hourly_value hst + host_services_value s h) mod 2 ^ 32 then ERROR
     else if check_time_against_period (clib s) (clock s) (ct_host_notification_period cntct) = ERROR then ERROR
     else if ty = NOTIFICATION_CUSTOM then OK
     else if flapping_type ty then
       (if ct_host_notification_options cntct AND OPT_FLAPPING = 0 then ERROR else OK)
     else if downtime_type ty then
       (if \<not> flag_isset (ct_host_notification_options cntct) OPT_DOWNTIME then ERROR else OK)
     else if \<not> flag_isset (ct_host_notification_options cntct) (state_flag (h_current_state hst)) then ERROR
     else if h_current_state hst = HOST_UP \<and> h_notified_on hst = 0 then ERROR
     else OK)"

section \<open>Filters of a host\<close>

definition normal_host_viability :: "daemon \<Rightarrow> nat \<Rightarrow> nat \<Rightarrow> c_int ub" where
  "normal_host_viability s h ty =
    (let hst = hosts s h in
     if h_state_type hst = SOFT_STATE then Some ERROR
     else if h_problem_has_been_acknowledged hst then Some ERROR
     else do {
       hd \<leftarrow> check_host_dependencies s h NOTIFICATION_DEPENDENCY;
       Some
        (if hd = DEPENDENCIES_FAILED then ERROR
         else if \<not> flag_isset (h_notification_options hst) (state_flag (h_current_state hst)) then ERROR
         else if h_current_state hst = HOST_UP \<and> h_notified_on hst = 0 then ERROR
         else if ty = NOTIFICATION_NORMAL \<and> h_first_notification_delay hst > 0
           \<and> h_current_notification_number hst = 0 \<and> h_current_state hst \<noteq> HOST_UP
           \<and> \<not> first_notification_due s (h_last_hard_state_change hst) (h_first_notification_delay hst) then ERROR
         else if h_is_flapping hst then ERROR
         else if h_scheduled_downtime_depth hst > 0 then ERROR
         else if h_no_more_notifications hst then ERROR
         else if clock s < h_next_notification hst then ERROR
         else OK)
     })"

definition check_host_notification_viability :: "daemon \<Rightarrow> nat \<Rightarrow> nat \<Rightarrow> u32 \<Rightarrow> (c_int \<times> daemon) ub" where
  "check_host_notification_viability s h ty options =
    (let hst = hosts s h in
     if options AND NOTIFICATION_OPTION_FORCED \<noteq> 0 then Some (OK, s)
     else if \<not> enable_notifications (globs s) then Some (ERROR, s)
     else if check_time_against_period (clib s) (clock s) (h_notification_period hst) = ERROR then
       Some (ERROR,
         if ty = NOTIFICATION_NORMAL
         then (let timeperiod_start = get_next_valid_time (clib s) (clock s) (clock s) (h_notification_period hst)
               in upd_host h (\<lambda>v. v\<lparr>h_next_notification :=
                 (if timeperiod_start = 0 then clock s + one_year else timeperiod_start)\<rparr>) s)
         else s)
     else if \<not> h_notifications_enabled hst then Some (ERROR, s)
     else if ty = NOTIFICATION_CUSTOM then Some (if h_scheduled_downtime_depth hst > 0 then ERROR else OK, s)
     else if ty = NOTIFICATION_ACKNOWLEDGEMENT then Some (if h_current_state hst = HOST_UP then ERROR else OK, s)
     else if flapping_type ty then
       Some (if h_notification_options hst AND OPT_FLAPPING = 0 then ERROR
             else if h_scheduled_downtime_depth hst > 0 then ERROR else OK, s)
     else if downtime_type ty then
       Some (if h_notification_options hst AND OPT_DOWNTIME = 0 then ERROR
             else if h_scheduled_downtime_depth hst > 0 then ERROR else OK, s)
     else do { r \<leftarrow> normal_host_viability s h ty; Some (r, s) })"

section \<open>The notification list\<close>

definition add_notification :: "nat \<Rightarrow> nat list \<Rightarrow> nat list" where
  "add_notification c list = (if c \<in> set list then list else c # list)"

text \<open>The contacts of a list of members, and of a list of groups, that pass the test.\<close>

definition add_members :: "(nat \<Rightarrow> c_int) \<Rightarrow> contactsmembers \<Rightarrow> nat list \<Rightarrow> nat list" where
  "add_members viable ms list =
    fold (\<lambda>m l. case m of None \<Rightarrow> l | Some c \<Rightarrow> if viable c = OK then add_notification c l else l) ms list"

definition add_groups :: "(nat \<Rightarrow> c_int) \<Rightarrow> contactgroupsmembers \<Rightarrow> nat list \<Rightarrow> nat list" where
  "add_groups viable gs list = fold (\<lambda>g l. case g of None \<Rightarrow> l | Some ms \<Rightarrow> add_members viable ms l) gs list"

text \<open>Whether an escalation of object number \<open>i\<close> applies to notification \<open>number\<close> in \<open>state\<close>.\<close>

definition escalation_applies :: "daemon \<Rightarrow> nat \<Rightarrow> nat \<Rightarrow> int \<Rightarrow> escalation \<Rightarrow> u32 \<Rightarrow> bool" where
  "escalation_applies s i state current_number e options =
    (let notification_number = (if state = 0 then current_number - 1 else current_number) in
     if e_object e \<noteq> Some i then False
     else if options AND NOTIFICATION_OPTION_BROADCAST \<noteq> 0 then True
     else if e_first_notification e > notification_number then False
     else if e_last_notification e \<noteq> 0 \<and> e_last_notification e < notification_number then False
     else if \<not> flag_isset (e_escalation_options e) (state_flag state) then False
     else if e_escalation_period e \<noteq> None
       \<and> check_time_against_period (clib s) (clock s) (e_escalation_period e) = ERROR then False
     else True)"

definition is_valid_escalation_for_service_notification :: "daemon \<Rightarrow> nat \<Rightarrow> escalation \<Rightarrow> u32 \<Rightarrow> bool" where
  "is_valid_escalation_for_service_notification s i e options =
    escalation_applies s i (s_current_state (svcs s i)) (s_current_notification_number (svcs s i)) e options"

definition is_valid_escalation_for_host_notification :: "daemon \<Rightarrow> nat \<Rightarrow> escalation \<Rightarrow> u32 \<Rightarrow> bool" where
  "is_valid_escalation_for_host_notification s h e options =
    escalation_applies s h (h_current_state (hosts s h)) (h_current_notification_number (hosts s h)) e options"

definition should_service_notification_be_escalated :: "daemon \<Rightarrow> nat \<Rightarrow> bool" where
  "should_service_notification_be_escalated s i =
    list_ex (\<lambda>e. is_valid_escalation_for_service_notification s i e NOTIFICATION_OPTION_NONE) (s_escalation_list (svcs s i))"

definition should_host_notification_be_escalated :: "daemon \<Rightarrow> nat \<Rightarrow> bool" where
  "should_host_notification_be_escalated s h =
    list_ex (\<lambda>e. is_valid_escalation_for_host_notification s h e NOTIFICATION_OPTION_NONE) (h_escalation_list (hosts s h))"

definition create_notification_list_from_service :: "daemon \<Rightarrow> nat \<Rightarrow> u32 \<Rightarrow> nat \<Rightarrow> nat list" where
  "create_notification_list_from_service s i options ty =
    (let escalate_notification = should_service_notification_be_escalated s i;
         viable = (\<lambda>c. check_contact_service_notification_viability s c i ty options);
         broadcast = (options AND NOTIFICATION_OPTION_BROADCAST \<noteq> 0);
         list = (if escalate_notification \<or> broadcast
           then fold (\<lambda>e l. if \<not> is_valid_escalation_for_service_notification s i e options then l
                else add_groups viable (e_contact_groups e) (add_members viable (e_contacts e) l))
             (s_escalation_list (svcs s i)) []
           else [])
     in if \<not> escalate_notification \<or> broadcast
        then add_groups viable (s_contact_groups (svcs s i)) (add_members viable (s_contacts (svcs s i)) list)
        else list)"

definition create_notification_list_from_host :: "daemon \<Rightarrow> nat \<Rightarrow> u32 \<Rightarrow> nat \<Rightarrow> nat list" where
  "create_notification_list_from_host s h options ty =
    (let escalate_notification = should_host_notification_be_escalated s h;
         viable = (\<lambda>c. check_contact_host_notification_viability s c h ty options);
         broadcast = (options AND NOTIFICATION_OPTION_BROADCAST \<noteq> 0);
         list = (if escalate_notification \<or> broadcast
           then fold (\<lambda>e l. if \<not> is_valid_escalation_for_host_notification s h e options then l
                else add_groups viable (e_contact_groups e) (add_members viable (e_contacts e) l))
             (h_escalation_list (hosts s h)) []
           else [])
     in if \<not> escalate_notification \<or> broadcast
        then add_groups viable (h_contact_groups (hosts s h)) (add_members viable (h_contacts (hosts s h)) list)
        else list)"

section \<open>Sending\<close>

text \<open>A command whose object is missing has no command line and is skipped.\<close>

definition notify_contact_of_service :: "nat \<Rightarrow> nat \<Rightarrow> nat \<Rightarrow> daemon \<Rightarrow> c_int \<times> daemon" where
  "notify_contact_of_service c i ty s =
    (let cntct = contacts s c; svc = svcs s i;
         out = map (\<lambda>m. \<lparr>no_contact = ct_name cntct, no_host = s_host_name svc,
             no_service = Some (s_description svc), no_command = cm_command m, no_type = ty\<rparr>)
           (filter (\<lambda>m. cm_command_ptr m \<noteq> None) (ct_service_notification_commands cntct))
     in (OK, upd_contact c (\<lambda>v. v\<lparr>ct_last_service_notification := clock s\<rparr>) (emit out s)))"

definition notify_contact_of_host :: "nat \<Rightarrow> nat \<Rightarrow> nat \<Rightarrow> daemon \<Rightarrow> c_int \<times> daemon" where
  "notify_contact_of_host c h ty s =
    (let cntct = contacts s c; hst = hosts s h;
         out = map (\<lambda>m. \<lparr>no_contact = ct_name cntct, no_host = h_name hst,
             no_service = None, no_command = cm_command m, no_type = ty\<rparr>)
           (filter (\<lambda>m. cm_command_ptr m \<noteq> None) (ct_host_notification_commands cntct))
     in (OK, upd_contact c (\<lambda>v. v\<lparr>ct_last_host_notification := clock s\<rparr>) (emit out s)))"

text \<open>The shortest interval of the escalations that apply, or else the default.\<close>

fun escalated_interval :: "(escalation \<Rightarrow> bool) \<Rightarrow> escalation list \<Rightarrow> bool \<Rightarrow> rat \<Rightarrow> rat" where
  "escalated_interval valid [] have_escalated interval = interval"
| "escalated_interval valid (e # es) have_escalated interval =
    (if e_notification_interval e < 0 \<or> \<not> valid e then escalated_interval valid es have_escalated interval
     else if \<not> have_escalated then escalated_interval valid es True (e_notification_interval e)
     else escalated_interval valid es True
       (if e_notification_interval e < interval then e_notification_interval e else interval))"

definition interval_to_use :: "(escalation \<Rightarrow> bool) \<Rightarrow> escalation list \<Rightarrow> rat \<Rightarrow> rat" where
  "interval_to_use valid es interval = escalated_interval valid es False interval"

definition get_next_service_notification_time :: "daemon \<Rightarrow> nat \<Rightarrow> int \<Rightarrow> int \<times> daemon" where
  "get_next_service_notification_time s i offset =
    (let svc = svcs s i;
         interval = interval_to_use (\<lambda>e. is_valid_escalation_for_service_notification s i e NOTIFICATION_OPTION_NONE)
           (s_escalation_list svc) (s_notification_interval svc)
     in (trunc (of_int offset + interval * of_int (interval_length (globs s))),
         upd_svc i (\<lambda>v. v\<lparr>s_no_more_notifications := (interval = 0 \<and> \<not> s_is_volatile v)\<rparr>) s))"

definition get_next_host_notification_time :: "daemon \<Rightarrow> nat \<Rightarrow> int \<Rightarrow> int \<times> daemon" where
  "get_next_host_notification_time s h offset =
    (let hst = hosts s h;
         interval = interval_to_use (\<lambda>e. is_valid_escalation_for_host_notification s h e NOTIFICATION_OPTION_NONE)
           (h_escalation_list hst) (h_notification_interval hst)
     in (trunc (of_int offset + interval * of_int (interval_length (globs s))),
         upd_host h (\<lambda>v. v\<lparr>h_no_more_notifications := (interval = 0)\<rparr>) s))"

text \<open>The loop over the notification list: the number of contacts notified and the state.\<close>

definition notify_all :: "(nat \<Rightarrow> daemon \<Rightarrow> c_int \<times> daemon) \<Rightarrow> nat list \<Rightarrow> daemon \<Rightarrow> nat \<times> daemon" where
  "notify_all notify list s =
    fold (\<lambda>c (n, s). let (r, s') = notify c s in (if r = OK then n + 1 else n, s')) list (0, s)"

section \<open>Notifications\<close>

definition service_notification_failed :: "nat \<Rightarrow> nat \<Rightarrow> nat \<Rightarrow> daemon \<Rightarrow> daemon" where
  "service_notification_failed i h ty s =
    (let s = (if ty = NOTIFICATION_RECOVERY \<and> \<not> flag_isset (s_notification_options (svcs s i)) OPT_RECOVERY
           then upd_svc i (\<lambda>v. v\<lparr>s_notified_on := 0, s_current_notification_number := 0\<rparr>) s else s)
     in if s_notification_interval (svcs s i) = 0
          \<and> (h_scheduled_downtime_depth (hosts s h) > 0 \<or> s_scheduled_downtime_depth (svcs s i) > 0)
        then upd_svc i (\<lambda>v. v\<lparr>s_next_notification := clock s\<rparr>) s else s)"

definition number_service_notification :: "nat \<Rightarrow> bool \<Rightarrow> daemon \<Rightarrow> daemon" where
  "number_service_notification i increment s =
    (let s = (if increment then upd_svc i (\<lambda>v. v\<lparr>s_current_notification_number := s_current_notification_number v + 1\<rparr>) s
              else s);
         nid = next_notification_id s
     in upd_svc i (\<lambda>v. v\<lparr>s_current_notification_id := nid\<rparr>) s\<lparr>next_notification_id := nid + 1\<rparr>)"

definition uncount_service_notification :: "nat \<Rightarrow> bool \<Rightarrow> daemon \<Rightarrow> daemon" where
  "uncount_service_notification i increment s =
    (if increment then upd_svc i (\<lambda>v. v\<lparr>s_current_notification_number := s_current_notification_number v - 1\<rparr>) s
     else s)"

definition service_contacts_notified :: "nat \<Rightarrow> nat \<Rightarrow> daemon \<Rightarrow> daemon" where
  "service_contacts_notified i ty s =
    (let (next, s) = get_next_service_notification_time s i (clock s);
         s = upd_svc i (\<lambda>v. v\<lparr>s_next_notification := next, s_last_notification := clock s\<rparr>) s
     in if ty = NOTIFICATION_NORMAL
        then upd_svc i (\<lambda>v. v\<lparr>s_notified_on := s_notified_on v OR state_flag (s_current_state v)\<rparr>) s
        else upd_svc i (\<lambda>v. v\<lparr>s_notified_on := 0, s_current_notification_number := 0\<rparr>) s)"

definition send_service_notification :: "nat \<Rightarrow> nat \<Rightarrow> u32 \<Rightarrow> daemon \<Rightarrow> daemon" where
  "send_service_notification i ty options s =
    (let increment = (ty = NOTIFICATION_NORMAL \<or> options AND NOTIFICATION_OPTION_INCREMENT \<noteq> 0);
         s = number_service_notification i increment s;
         list = create_notification_list_from_service s i options ty
     in if list \<noteq> [] then
          (let (contacts_notified, s) = notify_all (\<lambda>c. notify_contact_of_service c i ty) list s in
           if ty = NOTIFICATION_NORMAL \<or> ty = NOTIFICATION_RECOVERY then
             (if contacts_notified > 0 then service_contacts_notified i ty s
              else uncount_service_notification i increment s)
           else s)
        else uncount_service_notification i increment s)"

definition service_notification :: "nat \<Rightarrow> nat \<Rightarrow> u32 \<Rightarrow> daemon \<Rightarrow> (c_int \<times> daemon) ub" where
  "service_notification i ty options s =
    (case s_host (svcs s i) of None \<Rightarrow> Some (ERROR, s)
     | Some h \<Rightarrow> do {
         (viable, s) \<leftarrow> check_service_notification_viability s i ty options;
         (if viable = ERROR then Some (ERROR, service_notification_failed i h ty s)
          else Some (OK, send_service_notification i ty options s))
       })"

definition host_notification_failed :: "nat \<Rightarrow> nat \<Rightarrow> daemon \<Rightarrow> daemon" where
  "host_notification_failed h ty s =
    (if ty = NOTIFICATION_RECOVERY \<and> \<not> flag_isset (h_notification_options (hosts s h)) OPT_RECOVERY
     then upd_host h (\<lambda>v. v\<lparr>h_notified_on := 0, h_current_notification_number := 0\<rparr>) s else s)"

definition number_host_notification :: "nat \<Rightarrow> bool \<Rightarrow> daemon \<Rightarrow> daemon" where
  "number_host_notification h increment s =
    (let s = (if increment then upd_host h (\<lambda>v. v\<lparr>h_current_notification_number := h_current_notification_number v + 1\<rparr>) s
              else s);
         nid = next_notification_id s
     in upd_host h (\<lambda>v. v\<lparr>h_current_notification_id := nid\<rparr>) s\<lparr>next_notification_id := nid + 1\<rparr>)"

definition uncount_host_notification :: "nat \<Rightarrow> bool \<Rightarrow> daemon \<Rightarrow> daemon" where
  "uncount_host_notification h increment s =
    (if increment then upd_host h (\<lambda>v. v\<lparr>h_current_notification_number := h_current_notification_number v - 1\<rparr>) s
     else s)"

definition host_contacts_notified :: "nat \<Rightarrow> nat \<Rightarrow> daemon \<Rightarrow> daemon" where
  "host_contacts_notified h ty s =
    (let (next, s) = get_next_host_notification_time s h (clock s);
         s = upd_host h (\<lambda>v. v\<lparr>h_next_notification := next, h_last_notification := clock s\<rparr>) s
     in if ty = NOTIFICATION_NORMAL
        then upd_host h (\<lambda>v. v\<lparr>h_notified_on := h_notified_on v OR state_flag (h_current_state v)\<rparr>) s
        else upd_host h (\<lambda>v. v\<lparr>h_notified_on := 0, h_current_notification_number := 0\<rparr>) s)"

definition send_host_notification :: "nat \<Rightarrow> nat \<Rightarrow> u32 \<Rightarrow> daemon \<Rightarrow> daemon" where
  "send_host_notification h ty options s =
    (let increment = (ty = NOTIFICATION_NORMAL \<or> options AND NOTIFICATION_OPTION_INCREMENT \<noteq> 0);
         s = number_host_notification h increment s;
         list = create_notification_list_from_host s h options ty
     in if list \<noteq> [] then
          (let (contacts_notified, s) = notify_all (\<lambda>c. notify_contact_of_host c h ty) list s in
           if ty = NOTIFICATION_NORMAL \<or> ty = NOTIFICATION_RECOVERY then
             (if contacts_notified > 0 then host_contacts_notified h ty s
              else uncount_host_notification h increment s)
           else s)
        else uncount_host_notification h increment s)"

definition host_notification :: "nat \<Rightarrow> nat \<Rightarrow> u32 \<Rightarrow> daemon \<Rightarrow> (c_int \<times> daemon) ub" where
  "host_notification h ty options s = do {
     (viable, s) \<leftarrow> check_host_notification_viability s h ty options;
     (if viable = ERROR then Some (ERROR, host_notification_failed h ty s)
      else Some (OK, send_host_notification h ty options s))
   }"

section \<open>What a notification leaves alone\<close>

text \<open>All a notification changes: the notification fields of services and hosts, the time of the
  last notification of contacts, the next notification id, and what is sent out.\<close>

definition svc_core :: "service \<Rightarrow> service" where
  "svc_core v = v\<lparr>s_next_notification := 0, s_last_notification := 0, s_no_more_notifications := False,
     s_notified_on := 0, s_current_notification_number := 0, s_current_notification_id := 0\<rparr>"

definition host_core :: "host \<Rightarrow> host" where
  "host_core v = v\<lparr>h_next_notification := 0, h_last_notification := 0, h_no_more_notifications := False,
     h_notified_on := 0, h_current_notification_number := 0, h_current_notification_id := 0\<rparr>"

definition contact_core :: "contact \<Rightarrow> contact" where
  "contact_core v = v\<lparr>ct_last_host_notification := 0, ct_last_service_notification := 0\<rparr>"

definition notif_core :: "daemon \<Rightarrow> daemon" where
  "notif_core s = s\<lparr>hosts := host_core \<circ> hosts s, svcs := svc_core \<circ> svcs s, contacts := contact_core \<circ> contacts s,
     next_notification_id := 0, outputs := []\<rparr>"

named_theorems notif_frame \<open>updates that a notification may make\<close>

lemma notif_core_svc [notif_frame]:
  "(\<And>v. svc_core (f v) = svc_core v) \<Longrightarrow> notif_core (upd_svc i f s) = notif_core s"
  by (simp add: notif_core_def upd_svc_def fun_eq_iff)

lemma notif_core_host [notif_frame]:
  "(\<And>v. host_core (f v) = host_core v) \<Longrightarrow> notif_core (upd_host i f s) = notif_core s"
  by (simp add: notif_core_def upd_host_def fun_eq_iff)

lemma notif_core_contact [notif_frame]:
  "(\<And>v. contact_core (f v) = contact_core v) \<Longrightarrow> notif_core (upd_contact i f s) = notif_core s"
  by (simp add: notif_core_def upd_contact_def fun_eq_iff)

lemma notif_core_emit [notif_frame]: "notif_core (emit out s) = notif_core s"
  by (simp add: notif_core_def emit_def)

lemma notif_core_next_id [notif_frame]: "notif_core (s\<lparr>next_notification_id := n\<rparr>) = notif_core s"
  by (simp add: notif_core_def)

lemma notify_all_frame:
  assumes "\<And>c s. notif_core (snd (notify c s)) = notif_core s"
  shows "notif_core (snd (notify_all notify list s)) = notif_core s"
proof -
  have "notif_core (snd (fold (\<lambda>c (n, s). let (r, s') = notify c s in (if r = OK then n + 1 else n, s')) list (k, s)))
      = notif_core s" for k
    using assms by (induction list arbitrary: k s) (simp_all add: Let_def case_prod_beta)
  then show ?thesis by (simp add: notify_all_def)
qed

lemma notify_contact_frame:
  "notif_core (snd (notify_contact_of_service c i ty s)) = notif_core s"
  "notif_core (snd (notify_contact_of_host c h ty s)) = notif_core s"
  by (simp_all add: notify_contact_of_service_def notify_contact_of_host_def Let_def notif_frame contact_core_def)

lemma next_time_frame:
  "notif_core (snd (get_next_service_notification_time s i t)) = notif_core s"
  "notif_core (snd (get_next_host_notification_time s h t)) = notif_core s"
  by (simp_all add: get_next_service_notification_time_def get_next_host_notification_time_def Let_def notif_frame
      svc_core_def host_core_def)

lemma number_frame:
  "notif_core (number_service_notification i inc s) = notif_core s"
  "notif_core (number_host_notification h inc s) = notif_core s"
  "notif_core (uncount_service_notification i inc s) = notif_core s"
  "notif_core (uncount_host_notification h inc s) = notif_core s"
  by (simp_all add: number_service_notification_def number_host_notification_def uncount_service_notification_def
      uncount_host_notification_def Let_def notif_frame svc_core_def host_core_def)

lemma svc_core_updates [notif_frame]:
  "svc_core (v\<lparr>s_next_notification := a, s_last_notification := b\<rparr>) = svc_core v"
  "svc_core (v\<lparr>s_notified_on := n\<rparr>) = svc_core v"
  "svc_core (v\<lparr>s_notified_on := n, s_current_notification_number := m\<rparr>) = svc_core v"
  by (simp_all add: svc_core_def)

lemma host_core_updates [notif_frame]:
  "host_core (w\<lparr>h_next_notification := a, h_last_notification := b\<rparr>) = host_core w"
  "host_core (w\<lparr>h_notified_on := n\<rparr>) = host_core w"
  "host_core (w\<lparr>h_notified_on := n, h_current_notification_number := m\<rparr>) = host_core w"
  by (simp_all add: host_core_def)

lemma contacts_notified_frame:
  "notif_core (service_contacts_notified i ty s) = notif_core s"
  "notif_core (host_contacts_notified h ty s) = notif_core s"
proof -
  obtain t s1 where t: "get_next_service_notification_time s i (clock s) = (t, s1)" by fastforce
  with next_time_frame(1) [of s i "clock s"] have "notif_core s1 = notif_core s" by simp
  then show "notif_core (service_contacts_notified i ty s) = notif_core s"
    by (simp add: service_contacts_notified_def t Let_def notif_frame)
  obtain t' s2 where t': "get_next_host_notification_time s h (clock s) = (t', s2)" by fastforce
  with next_time_frame(2) [of s h "clock s"] have "notif_core s2 = notif_core s" by simp
  then show "notif_core (host_contacts_notified h ty s) = notif_core s"
    by (simp add: host_contacts_notified_def t' Let_def notif_frame)
qed

lemma send_service_frame: "notif_core (send_service_notification i ty options s) = notif_core s"
proof -
  define inc where "inc = (ty = NOTIFICATION_NORMAL \<or> options AND NOTIFICATION_OPTION_INCREMENT \<noteq> 0)"
  define s1 where "s1 = number_service_notification i inc s"
  obtain n s2 where s2: "notify_all (\<lambda>c. notify_contact_of_service c i ty)
      (create_notification_list_from_service s1 i options ty) s1 = (n, s2)" by fastforce
  have "notif_core s2 = notif_core s1"
    using notify_all_frame [of "\<lambda>c. notify_contact_of_service c i ty" _ s1] notify_contact_frame(1) s2 by (metis snd_conv)
  moreover have "notif_core s1 = notif_core s" by (simp add: s1_def number_frame)
  ultimately show ?thesis
    by (simp add: send_service_notification_def Let_def s2 number_frame contacts_notified_frame
        flip: inc_def s1_def)
qed

lemma send_host_frame: "notif_core (send_host_notification h ty options s) = notif_core s"
proof -
  define inc where "inc = (ty = NOTIFICATION_NORMAL \<or> options AND NOTIFICATION_OPTION_INCREMENT \<noteq> 0)"
  define s1 where "s1 = number_host_notification h inc s"
  obtain n s2 where s2: "notify_all (\<lambda>c. notify_contact_of_host c h ty)
      (create_notification_list_from_host s1 h options ty) s1 = (n, s2)" by fastforce
  have "notif_core s2 = notif_core s1"
    using notify_all_frame [of "\<lambda>c. notify_contact_of_host c h ty" _ s1] notify_contact_frame(2) s2 by (metis snd_conv)
  moreover have "notif_core s1 = notif_core s" by (simp add: s1_def number_frame)
  ultimately show ?thesis
    by (simp add: send_host_notification_def Let_def s2 number_frame contacts_notified_frame
        flip: inc_def s1_def)
qed

lemma service_viability_frame:
  "check_service_notification_viability s i ty options = Some (r, s') \<Longrightarrow> notif_core s' = notif_core s"
  unfolding check_service_notification_viability_def Let_def
  by (auto simp: notif_frame svc_core_def split: if_splits option.splits Option.bind_splits)

lemma host_viability_frame:
  "check_host_notification_viability s h ty options = Some (r, s') \<Longrightarrow> notif_core s' = notif_core s"
  unfolding check_host_notification_viability_def Let_def
  by (auto simp: notif_frame host_core_def split: if_splits Option.bind_splits)

lemma service_notification_frame:
  assumes "service_notification i ty options s = Some (r, s')"
  shows "notif_core s' = notif_core s"
proof (cases "s_host (svcs s i)")
  case None
  with assms show ?thesis by (simp add: service_notification_def)
next
  case (Some h)
  with assms obtain v s1 where v: "check_service_notification_viability s i ty options = Some (v, s1)"
    "s' = (if v = ERROR then service_notification_failed i h ty s1 else send_service_notification i ty options s1)"
    by (auto simp: service_notification_def split: Option.bind_splits if_splits)
  have "notif_core (service_notification_failed i h ty s1) = notif_core s1"
    by (simp add: service_notification_failed_def Let_def notif_frame svc_core_def)
  with v service_viability_frame [OF v(1)] send_service_frame show ?thesis by simp
qed

lemma host_notification_frame:
  assumes "host_notification h ty options s = Some (r, s')"
  shows "notif_core s' = notif_core s"
proof -
  from assms obtain v s1 where v: "check_host_notification_viability s h ty options = Some (v, s1)"
    "s' = (if v = ERROR then host_notification_failed h ty s1 else send_host_notification h ty options s1)"
    by (auto simp: host_notification_def split: Option.bind_splits if_splits)
  have "notif_core (host_notification_failed h ty s1) = notif_core s1"
    by (simp add: host_notification_failed_def notif_frame host_core_def)
  with v host_viability_frame [OF v(1)] send_host_frame show ?thesis by simp
qed

text \<open>The fields that stay, read off the core.\<close>

lemma notif_coreD:
  assumes "notif_core s' = notif_core s"
  shows "clock s' = clock s" "clib s' = clib s" "globs s' = globs s" "num_hosts s' = num_hosts s"
    "num_services s' = num_services s" "host_table s' = host_table s" "service_table s' = service_table s"
    "comments s' = comments s" "dt_heap s' = dt_heap s" "next_dt_addr s' = next_dt_addr s"
    "scheduled_downtime_list s' = scheduled_downtime_list s" "dt_fanout s' = dt_fanout s"
    "next_downtime_id s' = next_downtime_id s" "defer_downtime_sorting s' = defer_downtime_sorting s"
    "event_queue s' = event_queue s" "next_event_handle s' = next_event_handle s"
    "svc_core (svcs s' i) = svc_core (svcs s i)" "host_core (hosts s' h) = host_core (hosts s h)"
proof -
  show "clock s' = clock s" using arg_cong [OF assms, of clock] by (simp add: notif_core_def)
  show "clib s' = clib s" using arg_cong [OF assms, of clib] by (simp add: notif_core_def)
  show "globs s' = globs s" using arg_cong [OF assms, of globs] by (simp add: notif_core_def)
  show "num_hosts s' = num_hosts s" using arg_cong [OF assms, of num_hosts] by (simp add: notif_core_def)
  show "num_services s' = num_services s" using arg_cong [OF assms, of num_services] by (simp add: notif_core_def)
  show "host_table s' = host_table s" using arg_cong [OF assms, of host_table] by (simp add: notif_core_def)
  show "service_table s' = service_table s" using arg_cong [OF assms, of service_table] by (simp add: notif_core_def)
  show "comments s' = comments s" using arg_cong [OF assms, of comments] by (simp add: notif_core_def)
  show "dt_heap s' = dt_heap s" using arg_cong [OF assms, of dt_heap] by (simp add: notif_core_def)
  show "next_dt_addr s' = next_dt_addr s" using arg_cong [OF assms, of next_dt_addr] by (simp add: notif_core_def)
  show "scheduled_downtime_list s' = scheduled_downtime_list s"
    using arg_cong [OF assms, of scheduled_downtime_list] by (simp add: notif_core_def)
  show "dt_fanout s' = dt_fanout s" using arg_cong [OF assms, of dt_fanout] by (simp add: notif_core_def)
  show "next_downtime_id s' = next_downtime_id s" using arg_cong [OF assms, of next_downtime_id] by (simp add: notif_core_def)
  show "defer_downtime_sorting s' = defer_downtime_sorting s"
    using arg_cong [OF assms, of defer_downtime_sorting] by (simp add: notif_core_def)
  show "event_queue s' = event_queue s" using arg_cong [OF assms, of event_queue] by (simp add: notif_core_def)
  show "next_event_handle s' = next_event_handle s"
    using arg_cong [OF assms, of next_event_handle] by (simp add: notif_core_def)
  show "svc_core (svcs s' i) = svc_core (svcs s i)"
    using fun_cong [OF arg_cong [OF assms, of svcs], of i] by (simp add: notif_core_def)
  show "host_core (hosts s' h) = host_core (hosts s h)"
    using fun_cong [OF arg_cong [OF assms, of hosts], of h] by (simp add: notif_core_def)
qed

section \<open>Notifications return\<close>

lemma count_bad_parents_total: "None \<notin> set ps \<Longrightarrow> count_bad_parents s ps = Some 0"
proof -
  have "fold (\<lambda>p bad. do {
        n \<leftarrow> bad; i \<leftarrow> p;
        Some (if s_current_state (svcs s i) = STATE_OK
              then n + (if s_current_state (svcs s i) \<noteq> 0 then 1 else 0) else n)
      }) ps (Some (0 :: nat)) = Some 0" if "None \<notin> set ps"
    using that
  proof (induction ps)
    case (Cons p ps)
    then show ?case by (cases p) simp_all
  qed simp
  then show "None \<notin> set ps \<Longrightarrow> ?thesis" by (simp add: count_bad_parents_def)
qed

lemma notif_core_links:
  assumes "notif_core s' = notif_core s"
  shows "links s' = links s"
proof -
  note same = notif_coreD [OF assms]
  have "s_parents (svcs s' i) = s_parents (svcs s i)" "s_exec_deps (svcs s' i) = s_exec_deps (svcs s i)"
    "s_notify_deps (svcs s' i) = s_notify_deps (svcs s i)" for i
    using arg_cong [OF same(17), of s_parents i] arg_cong [OF same(17), of s_exec_deps i]
      arg_cong [OF same(17), of s_notify_deps i] by (simp_all add: svc_core_def)
  moreover have "h_exec_deps (hosts s' h) = h_exec_deps (hosts s h)" "h_notify_deps (hosts s' h) = h_notify_deps (hosts s h)" for h
    using arg_cong [OF same(18), of h_exec_deps h] arg_cong [OF same(18), of h_notify_deps h] by (simp_all add: host_core_def)
  ultimately show ?thesis by (simp add: links_def)
qed

lemma normal_viability_total:
  assumes "acyclic_links s"
  shows "\<exists>r. normal_service_viability s i h ty = Some r" "\<exists>r. normal_host_viability s h ty = Some r"
proof -
  obtain r1 r2 where r: "check_service_dependencies s i NOTIFICATION_DEPENDENCY = Some r1"
    "check_host_dependencies s h NOTIFICATION_DEPENDENCY = Some r2"
    using check_dependencies_total [OF assms] by metis
  show "\<exists>r. normal_service_viability s i h ty = Some r"
    unfolding normal_service_viability_def Let_def by (intro returns returns_bind [OF r(1)] returns_bind [OF r(2)])
  show "\<exists>r. normal_host_viability s h ty = Some r"
    unfolding normal_host_viability_def Let_def by (intro returns returns_bind [OF r(2)])
qed

lemma service_notification_total:
  assumes "acyclic_links s"
  shows "\<exists>r s'. service_notification i ty options s = Some (r, s') \<and> notif_core s' = notif_core s"
proof -
  have bad: "count_bad_parents s (s_parents (svcs s i)) = Some 0"
    using assms by (intro count_bad_parents_total) (auto simp: acyclic_links_def)
  have "\<exists>r. check_service_notification_viability s i ty options = Some r"
  proof (cases "s_host (svcs s i)")
    case None
    then show ?thesis by (simp add: check_service_notification_viability_def Let_def)
  next
    case (Some h)
    obtain r where r: "normal_service_viability s i h ty = Some r" using normal_viability_total [OF assms] by blast
    then show ?thesis unfolding check_service_notification_viability_def Let_def Some option.case
      by (intro returns returns_bind [OF bad] returns_bind [OF r])
  qed
  then have "service_notification i ty options s \<noteq> None"
    by (auto simp: service_notification_def split: option.split)
  then obtain r s' where "service_notification i ty options s = Some (r, s')" by auto
  with service_notification_frame show ?thesis by blast
qed

lemma host_notification_total:
  assumes "acyclic_links s"
  shows "\<exists>r s'. host_notification h ty options s = Some (r, s') \<and> notif_core s' = notif_core s"
proof -
  obtain r where r: "normal_host_viability s h ty = Some r" using normal_viability_total [OF assms] by blast
  then have "\<exists>r. check_host_notification_viability s h ty options = Some r"
    unfolding check_host_notification_viability_def Let_def by (intro returns returns_bind [OF r])
  then have "host_notification h ty options s \<noteq> None" by (auto simp: host_notification_def)
  then obtain r s' where "host_notification h ty options s = Some (r, s')" by auto
  with host_notification_frame show ?thesis by blast
qed

section \<open>Recipients\<close>

definition members_of :: "contactsmembers \<Rightarrow> contactgroupsmembers \<Rightarrow> nat set" where
  "members_of ms gs = {c. Some c \<in> set ms \<or> (\<exists>g. Some g \<in> set gs \<and> Some c \<in> set g)}"

lemma add_notification_set [simp]: "set (add_notification c l) = insert c (set l)"
  by (auto simp: add_notification_def)

lemma add_notification_distinct [simp]: "distinct (add_notification c l) = distinct l"
  by (simp add: add_notification_def)

lemma add_members_set: "set (add_members v ms l) = set l \<union> {c. Some c \<in> set ms \<and> v c = OK}"
  unfolding add_members_def by (induction ms arbitrary: l) (auto split: option.splits)

lemma add_members_distinct: "distinct l \<Longrightarrow> distinct (add_members v ms l)"
  unfolding add_members_def by (induction ms arbitrary: l) (auto split: option.splits)

lemma add_groups_set: "set (add_groups v gs l) = set l \<union> {c. \<exists>g. Some g \<in> set gs \<and> Some c \<in> set g \<and> v c = OK}"
  unfolding add_groups_def by (induction gs arbitrary: l) (auto simp: add_members_set split: option.splits)

lemma add_groups_distinct: "distinct l \<Longrightarrow> distinct (add_groups v gs l)"
  unfolding add_groups_def by (induction gs arbitrary: l) (auto simp: add_members_distinct split: option.splits)

lemma add_all_set:
  "set (add_groups v gs (add_members v ms l)) = set l \<union> {c \<in> members_of ms gs. v c = OK}"
  by (auto simp: add_groups_set add_members_set members_of_def)

definition add_escalations :: "(escalation \<Rightarrow> bool) \<Rightarrow> (nat \<Rightarrow> c_int) \<Rightarrow> escalation list \<Rightarrow> nat list \<Rightarrow> nat list" where
  "add_escalations valid v es l =
    fold (\<lambda>e l. if \<not> valid e then l else add_groups v (e_contact_groups e) (add_members v (e_contacts e) l)) es l"

lemma add_escalations_set:
  "set (add_escalations valid v es l) =
    set l \<union> {c. v c = OK \<and> (\<exists>e \<in> set es. valid e \<and> c \<in> members_of (e_contacts e) (e_contact_groups e))}"
  unfolding add_escalations_def by (induction es arbitrary: l) (auto simp: add_all_set)

lemma add_escalations_distinct: "distinct l \<Longrightarrow> distinct (add_escalations valid v es l)"
  unfolding add_escalations_def
  by (induction es arbitrary: l) (auto simp: add_members_distinct add_groups_distinct)

section \<open>Properties\<close>

text \<open>A chain of filters lets through what passes each of them.\<close>

lemma filter_passes: "(if b then ERROR else x) \<noteq> ERROR \<longleftrightarrow> \<not> b \<and> x \<noteq> ERROR" for x :: c_int
  by simp

lemma some_if: "(if b then Some x else Some y) = Some (if b then x else y)"
  by simp

lemma normal_viability_iff:
  assumes "check_service_dependencies s i NOTIFICATION_DEPENDENCY = Some sdep" "check_host_dependencies s h NOTIFICATION_DEPENDENCY = Some hdep"
  shows "\<exists>r. normal_service_viability s i h ty = Some r \<and> (r \<noteq> ERROR \<longleftrightarrow>
      s_state_type (svcs s i) \<noteq> SOFT_STATE \<and> \<not> s_problem_has_been_acknowledged (svcs s i)
    \<and> sdep \<noteq> DEPENDENCIES_FAILED \<and> hdep \<noteq> DEPENDENCIES_FAILED
    \<and> flag_isset (s_notification_options (svcs s i)) (state_flag (s_current_state (svcs s i)))
    \<and> \<not> (s_current_state (svcs s i) = STATE_OK \<and> s_notified_on (svcs s i) = 0)
    \<and> \<not> (ty = NOTIFICATION_NORMAL \<and> s_first_notification_delay (svcs s i) > 0 \<and> s_current_notification_number (svcs s i) = 0
        \<and> s_current_state (svcs s i) \<noteq> STATE_OK
        \<and> \<not> first_notification_due s (s_last_hard_state_change (svcs s i)) (s_first_notification_delay (svcs s i)))
    \<and> \<not> s_is_flapping (svcs s i) \<and> \<not> s_scheduled_downtime_depth (svcs s i) > 0 \<and> \<not> h_scheduled_downtime_depth (hosts s h) > 0
    \<and> \<not> (s_pending_flex_downtime (svcs s i) > 0 \<and> is_service_in_pending_flex_downtime s i)
    \<and> \<not> (h_pending_flex_downtime (hosts s h) > 0 \<and> is_host_in_pending_flex_downtime s h)
    \<and> \<not> s_no_more_notifications (svcs s i)
    \<and> \<not> (h_current_state (hosts s h) \<noteq> HOST_UP \<and> h_state_type (hosts s h) = HARD_STATE)
    \<and> \<not> (h_parent_hosts (hosts s h) \<noteq> [] \<and> count_bad_host_parents s (h_parent_hosts (hosts s h)) = length (h_parent_hosts (hosts s h)))
    \<and> \<not> (clock s < s_next_notification (svcs s i) \<and> \<not> s_is_volatile (svcs s i)))"
proof -
  have ok: "OK \<noteq> (ERROR :: c_int)" by simp
  show ?thesis
    unfolding normal_service_viability_def Let_def assms bind.bind_lunit some_if
    by (intro exI conjI, rule refl) (simp only: filter_passes ok not_not simp_thms)
qed

lemma viability_iff:
  assumes "options AND NOTIFICATION_OPTION_FORCED = 0" "ty = NOTIFICATION_NORMAL \<or> ty = NOTIFICATION_RECOVERY"
    and "s_host (svcs s i) = Some h" "count_bad_parents s (s_parents (svcs s i)) = Some bad" "normal_service_viability s i h ty = Some r"
  shows "\<exists>v s'. check_service_notification_viability s i ty options = Some (v, s') \<and> (v \<noteq> ERROR \<longleftrightarrow>
      enable_notifications (globs s) \<and> \<not> (s_parents (svcs s i) \<noteq> [] \<and> bad = length (s_parents (svcs s i)))
    \<and> check_time_against_period (clib s) (clock s) (if s_notification_period (svcs s i) = None
        then h_notification_period (hosts s h) else s_notification_period (svcs s i)) \<noteq> ERROR
    \<and> s_notifications_enabled (svcs s i) \<and> r \<noteq> ERROR)"
proof -
  have special: "ty \<noteq> NOTIFICATION_CUSTOM" "ty \<noteq> NOTIFICATION_ACKNOWLEDGEMENT" "\<not> flapping_type ty" "\<not> downtime_type ty"
    using assms(2) by (auto simp: flapping_type_def downtime_type_def)
  show ?thesis
    using assms(1,3-5) special unfolding check_service_notification_viability_def Let_def by simp
qed


definition mail_command :: commandsmember where
  "mail_command = \<lparr>cm_command = ''notify-by-mail'', cm_command_ptr = Some \<lparr>cmd_name = ''notify-by-mail'', cmd_line = ''mail''\<rparr>\<rparr>"

definition on_call :: contact where
  "on_call = blank_contact\<lparr>ct_name := ''ann'', ct_service_notification_commands := [mail_command],
     ct_service_notification_options := 15, ct_service_notifications_enabled := True\<rparr>"

definition critical_service :: service where
  "critical_service = blank_service\<lparr>s_host_name := ''web'', s_description := ''http'', s_contacts := [Some 0, None, Some 0],
     s_notification_options := 15, s_notifications_enabled := True, s_current_state := STATE_CRITICAL,
     s_state_type := HARD_STATE, s_host := Some 0\<rparr>"

definition alerting :: daemon where
  "alerting = blank_daemon\<lparr>clock := 100, globs := blank_globals\<lparr>enable_notifications := True\<rparr>,
     svcs := (\<lambda>i. blank_service)(0 := critical_service), contacts := (\<lambda>c. blank_contact)(0 := on_call)\<rparr>"

lemma no_dependencies:
  "walk_dependencies v [] = Some DEPENDENCIES_OK"
  by (subst walk_dependencies.simps) simp

lemma alerting_fields:
  "svcs alerting 0 = critical_service" "hosts alerting h = blank_host" "contacts alerting 0 = on_call"
  "clock alerting = 100" "enable_notifications (globs alerting)"
  by (simp_all add: alerting_def blank_daemon_def)

lemma alerting_viable:
  "check_service_notification_viability alerting 0 NOTIFICATION_NORMAL 0 = Some (OK, alerting)"
  by (simp add: check_service_notification_viability_def normal_service_viability_def alerting_fields Let_def
      critical_service_def blank_service_def blank_host_def count_bad_parents_def check_time_against_period_def
      flapping_type_def downtime_type_def check_service_dependencies_def check_host_dependencies_def
      service_deps_def host_deps_def no_dependencies flag_isset_def state_flag_def)


text \<open>Who a notification is for: the members of the escalations that apply, when one does or it is a
  broadcast, and the members of the object itself, when none does or it is a broadcast.\<close>

definition audience :: "bool \<Rightarrow> bool \<Rightarrow> (escalation \<Rightarrow> bool) \<Rightarrow> escalation list \<Rightarrow> contactsmembers
    \<Rightarrow> contactgroupsmembers \<Rightarrow> nat set" where
  "audience escalated broadcast valid es ms gs =
    (if escalated \<or> broadcast
     then \<Union> ((\<lambda>e. members_of (e_contacts e) (e_contact_groups e)) ` {e \<in> set es. valid e}) else {})
    \<union> (if escalated \<and> \<not> broadcast then {} else members_of ms gs)"

text \<open>C26. The notification lists hold, each once, the contacts that pass their own filters among the
  contacts and group members of the escalations that apply, when there is one, and of the object
  itself when there is none; a broadcast goes to both.\<close>

theorem notification_recipients:
  "distinct (create_notification_list_from_service s i options ty)
    \<and> set (create_notification_list_from_service s i options ty) =
      {c \<in> audience (should_service_notification_be_escalated s i) (options AND NOTIFICATION_OPTION_BROADCAST \<noteq> 0)
          (\<lambda>e. is_valid_escalation_for_service_notification s i e options) (s_escalation_list (svcs s i))
          (s_contacts (svcs s i)) (s_contact_groups (svcs s i)).
        check_contact_service_notification_viability s c i ty options = OK}
    \<and> distinct (create_notification_list_from_host s h options ty)
    \<and> set (create_notification_list_from_host s h options ty) =
      {c \<in> audience (should_host_notification_be_escalated s h) (options AND NOTIFICATION_OPTION_BROADCAST \<noteq> 0)
          (\<lambda>e. is_valid_escalation_for_host_notification s h e options) (h_escalation_list (hosts s h))
          (h_contacts (hosts s h)) (h_contact_groups (hosts s h)).
        check_contact_host_notification_viability s c h ty options = OK}"
  unfolding create_notification_list_from_service_def create_notification_list_from_host_def Let_def
    add_escalations_def [symmetric] audience_def
  by (intro conjI)
    (auto simp: add_all_set add_escalations_set intro!: add_groups_distinct add_members_distinct add_escalations_distinct
      split: if_splits)

section \<open>Bookkeeping of a problem notification\<close>

definition service_messages :: "daemon \<Rightarrow> nat \<Rightarrow> nat \<Rightarrow> nat \<Rightarrow> outgoing list" where
  "service_messages s i ty c =
    map (\<lambda>m. \<lparr>no_contact = ct_name (contacts s c), no_host = s_host_name (svcs s i),
        no_service = Some (s_description (svcs s i)), no_command = cm_command m, no_type = ty\<rparr>)
      (filter (\<lambda>m. cm_command_ptr m \<noteq> None) (ct_service_notification_commands (contacts s c)))"

lemma notify_contact_outputs:
  "fst (notify_contact_of_service c i ty s) = OK"
  "outputs (snd (notify_contact_of_service c i ty s)) = outputs s @ service_messages s i ty c"
  "svcs (snd (notify_contact_of_service c i ty s)) = svcs s"
  "service_messages (snd (notify_contact_of_service c i ty s)) i ty = service_messages s i ty"
  by (simp_all add: notify_contact_of_service_def Let_def service_messages_def fun_eq_iff)

lemma notify_all_service:
  "fst (notify_all (\<lambda>c. notify_contact_of_service c i ty) l s) = length l
    \<and> svcs (snd (notify_all (\<lambda>c. notify_contact_of_service c i ty) l s)) = svcs s
    \<and> outputs (snd (notify_all (\<lambda>c. notify_contact_of_service c i ty) l s)) =
       outputs s @ concat (map (service_messages s i ty) l)"
proof -
  have "fst (fold (\<lambda>c (n, s). let (r, s') = notify_contact_of_service c i ty s in (if r = OK then n + 1 else n, s')) l (k, s))
        = k + length l
      \<and> svcs (snd (fold (\<lambda>c (n, s). let (r, s') = notify_contact_of_service c i ty s in (if r = OK then n + 1 else n, s')) l (k, s)))
        = svcs s
      \<and> outputs (snd (fold (\<lambda>c (n, s). let (r, s') = notify_contact_of_service c i ty s in (if r = OK then n + 1 else n, s')) l (k, s)))
        = outputs s @ concat (map (service_messages s i ty) l)" for k
    by (induction l arbitrary: k s) (simp_all add: Let_def case_prod_beta notify_contact_outputs)
  from this [of 0] show ?thesis by (simp add: notify_all_def)
qed


lemma alerting_list:
  "create_notification_list_from_service (number_service_notification 0 True alerting) 0 0 NOTIFICATION_NORMAL = [0]"
  by (simp add: create_notification_list_from_service_def should_service_notification_be_escalated_def number_service_notification_def
    add_members_def add_groups_def add_notification_def check_contact_service_notification_viability_def alerting_fields critical_service_def
    blank_service_def on_call_def blank_contact_def check_time_against_period_def flapping_type_def downtime_type_def state_flag_def Let_def)


end
