(* ===== verification/DowntimeOps.thy ===== *)
theory DowntimeOps
  imports Notifications
begin

text \<open>
  The life of a scheduled downtime, the second half of \<open>common/downtime.c\<close>: scheduling and
  registering, its start and end with the downtimes it triggers, cancelling, expiry, and the flexible
  downtimes that start with a problem.

  \<^item> A downtime belongs to a host or a service: of the two pointers \<open>hst\<close> and \<open>svc\<close> of the code one
    is set.  \<open>dt_target\<close> says which, and an access through the other is \<open>None\<close>.
  \<^item> The loops that restart at the head of the list after every change, and call the function they
    are part of, are \<open>partial_function\<close>s: \<open>None\<close> also stands for a loop that never ends.
  \<^item> An entry that is deleted is freed; the model forgets its address instead.
\<close>

section \<open>Texts\<close>

fun decimal :: "nat \<Rightarrow> string" where
  "decimal n = (if n < 10 then [char_of (48 + n)] else decimal (n div 10) @ [char_of (48 + n mod 10)])"

text \<open>\<open>printf\<close> with \<open>%0<w>d\<close>.\<close>

definition padded :: "nat \<Rightarrow> int \<Rightarrow> string" where
  "padded w x =
    (let sign = (if x < 0 then ''-'' else ''''); ds = decimal (nat \<bar>x\<bar>)
     in sign @ replicate (w - length sign - length ds) (CHR ''0'') @ ds)"

abbreviation (input) DATE_FORMAT_US :: nat where "DATE_FORMAT_US \<equiv> 0"
abbreviation (input) DATE_FORMAT_EURO :: nat where "DATE_FORMAT_EURO \<equiv> 1"
abbreviation (input) DATE_FORMAT_ISO8601 :: nat where "DATE_FORMAT_ISO8601 \<equiv> 2"
abbreviation (input) DATE_FORMAT_STRICT_ISO8601 :: nat where "DATE_FORMAT_STRICT_ISO8601 \<equiv> 3"

text \<open>\<open>get_datetime_string\<close> for \<open>SHORT_DATE_TIME\<close>.\<close>

definition short_date_time :: "daemon \<Rightarrow> int \<Rightarrow> string" where
  "short_date_time s t =
    (let tm = localtime (clib s) t; format = date_format (globs s);
         hms = padded 2 (tm_hour tm) @ '':'' @ padded 2 (tm_min tm) @ '':'' @ padded 2 (tm_sec tm);
         day = padded 2 (tm_mday tm); month = padded 2 (tm_mon tm + 1); year = padded 4 (tm_year tm + 1900)
     in if format = DATE_FORMAT_EURO then day @ ''-'' @ month @ ''-'' @ year @ '' '' @ hms
        else if format = DATE_FORMAT_ISO8601 \<or> format = DATE_FORMAT_STRICT_ISO8601 then
          year @ ''-'' @ month @ ''-'' @ day @ (if format = DATE_FORMAT_STRICT_ISO8601 then ''T'' else '' '') @ hms
        else month @ ''-'' @ day @ ''-'' @ year @ '' '' @ hms)"

text \<open>The text of the comment.  Hours and minutes are \<open>int\<close>: the seconds of the hours of a duration
  of \<open>2 ^ 31\<close> seconds or more overflow.\<close>

definition downtime_text :: "daemon \<Rightarrow> scheduled_downtime \<Rightarrow> string ub" where
  "downtime_text s d =
    (let hours = signed_take_bit 31 (int (dt_duration d) div 3600);
         kind = (if dt_type d = HOST_DOWNTIME then ''host'' else ''service'');
         from = short_date_time s (dt_start_time d); til = short_date_time s (dt_end_time d);
         rest = ''  Notifications for the '' @ kind @ '' will not be sent out during that time period.''
     in if hours * 3600 < - (2 ^ 31) \<or> hours * 3600 \<ge> 2 ^ 31 then None
        else let minutes = signed_take_bit 31 ((int (dt_duration d) - hours * 3600) div 60) in
          Some (''This '' @ kind @
           (if dt_fixed d then '' has been scheduled for fixed downtime from '' @ from @ '' to '' @ til @ ''.'' @ rest
            else '' has been scheduled for flexible downtime starting between '' @ from @ '' and '' @ til
              @ '' and lasting for a period of '' @ padded 0 hours @ '' hours and '' @ padded 0 minutes
              @ '' minutes.'' @ rest)))"

section \<open>The object of a downtime\<close>

datatype dt_target = At_host nat | At_service nat

definition downtime_target :: "daemon \<Rightarrow> scheduled_downtime \<Rightarrow> dt_target option" where
  "downtime_target s d =
    (if dt_type d = HOST_DOWNTIME then map_option At_host (find_host s (dt_host_name d))
     else map_option At_service (find_service s (dt_host_name d) (dt_service_description d)))"

fun target_depth :: "dt_target \<Rightarrow> daemon \<Rightarrow> int" where
  "target_depth (At_host h) s = h_scheduled_downtime_depth (hosts s h)"
| "target_depth (At_service i) s = s_scheduled_downtime_depth (svcs s i)"

fun set_depth :: "dt_target \<Rightarrow> int \<Rightarrow> daemon \<Rightarrow> daemon" where
  "set_depth (At_host h) n s = upd_host h (\<lambda>v. v\<lparr>h_scheduled_downtime_depth := n\<rparr>) s"
| "set_depth (At_service i) n s = upd_svc i (\<lambda>v. v\<lparr>s_scheduled_downtime_depth := n\<rparr>) s"

fun target_pending :: "dt_target \<Rightarrow> daemon \<Rightarrow> int" where
  "target_pending (At_host h) s = h_pending_flex_downtime (hosts s h)"
| "target_pending (At_service i) s = s_pending_flex_downtime (svcs s i)"

fun set_pending :: "dt_target \<Rightarrow> int \<Rightarrow> daemon \<Rightarrow> daemon" where
  "set_pending (At_host h) n s = upd_host h (\<lambda>v. v\<lparr>h_pending_flex_downtime := n\<rparr>) s"
| "set_pending (At_service i) n s = upd_svc i (\<lambda>v. v\<lparr>s_pending_flex_downtime := n\<rparr>) s"

fun target_problem :: "dt_target \<Rightarrow> daemon \<Rightarrow> bool" where
  "target_problem (At_host h) s = (h_current_state (hosts s h) \<noteq> HOST_UP)"
| "target_problem (At_service i) s = (s_current_state (svcs s i) \<noteq> STATE_OK)"

fun notify_target :: "dt_target \<Rightarrow> nat \<Rightarrow> daemon \<Rightarrow> daemon ub" where
  "notify_target (At_host h) ty s = map_option snd (host_notification h ty NOTIFICATION_OPTION_NONE s)"
| "notify_target (At_service i) ty s = map_option snd (service_notification i ty NOTIFICATION_OPTION_NONE s)"

fun target_names :: "dt_target \<Rightarrow> daemon \<Rightarrow> string \<times> string option" where
  "target_names (At_host h) s = (h_name (hosts s h), None)"
| "target_names (At_service i) s = (s_host_name (svcs s i), Some (s_description (svcs s i)))"

text \<open>When a flexible downtime begins, unless that is known already; and when a downtime that starts ends.\<close>

definition effective_start :: "daemon \<Rightarrow> scheduled_downtime \<Rightarrow> int" where
  "effective_start s d =
    (if \<not> dt_fixed d \<and> dt_flex_downtime_start d = 0 then clock s else dt_flex_downtime_start d)"

definition end_event_time :: "scheduled_downtime \<Rightarrow> int \<Rightarrow> int" where
  "end_event_time d flex_start =
    (if dt_fixed d then dt_end_time d else signed_take_bit 63 (flex_start + int (dt_duration d)))"

text \<open>Deleting a downtime by its own type.\<close>

definition delete_own :: "daemon \<Rightarrow> nat \<Rightarrow> nat \<Rightarrow> daemon ub" where
  "delete_own s ty i =
    map_option snd (if ty = HOST_DOWNTIME then delete_host_downtime s i else delete_service_downtime s i)"

section \<open>Cancelling\<close>

definition cancel_effect :: "dt_target \<Rightarrow> daemon \<Rightarrow> daemon ub" where
  "cancel_effect t s =
    (let s = (if target_depth t s > 0 then set_depth t (target_depth t s - 1) s else s)
     in if target_depth t s = 0 then notify_target t NOTIFICATION_DOWNTIMECANCELLED s else Some s)"

text \<open>The function up to its loop over the triggered downtimes.\<close>

definition unschedule_one :: "daemon \<Rightarrow> nat \<Rightarrow> nat \<Rightarrow> (c_int \<times> daemon) ub" where
  "unschedule_one s ty downtime_id = do {
     r \<leftarrow> find_downtime s ty downtime_id;
     (case r of None \<Rightarrow> Some (ERROR, s)
      | Some a \<Rightarrow>
        let d = dt_heap s a in
        (case downtime_target s d of None \<Rightarrow> Some (ERROR, s)
         | Some t \<Rightarrow> do {
             let s = (if \<not> dt_fixed d \<and> dt_incremented_pending_downtime d
               then set_pending t (target_pending t s - 1) s else s);
             s \<leftarrow> (if dt_is_in_effect d then cancel_effect t s else Some s);
             let s = remove_event (dt_stop_event d) (remove_event (dt_start_event d) s);
             s \<leftarrow> delete_own s (dt_type d) downtime_id;
             Some (OK, s)
           }))
   }"

partial_function (option) unschedule_triggered :: "daemon \<Rightarrow> nat \<Rightarrow> daemon option" where
  "unschedule_triggered s downtime_id =
    (case find (\<lambda>a. dt_triggered_by (dt_heap s a) = downtime_id) (scheduled_downtime_list s) of
       None \<Rightarrow> Some s
     | Some a \<Rightarrow>
        (unschedule_one s ANY_DOWNTIME (dt_id (dt_heap s a)) \<bind> (\<lambda>(r, s').
          (if r \<noteq> OK then Some s' else unschedule_triggered s' (dt_id (dt_heap s a))) \<bind> (\<lambda>s''.
          unschedule_triggered s'' downtime_id))))"

definition unschedule_downtime :: "daemon \<Rightarrow> nat \<Rightarrow> nat \<Rightarrow> (c_int \<times> daemon) ub" where
  "unschedule_downtime s ty downtime_id = do {
     (r, s) \<leftarrow> unschedule_one s ty downtime_id;
     (if r \<noteq> OK then Some (r, s) else do {
        s \<leftarrow> unschedule_triggered s downtime_id;
        Some (OK, s)
      })
   }"

section \<open>Registering and scheduling\<close>

text \<open>The comment about the downtime, and its entry marked as not in effect.\<close>

definition register_comment :: "dt_target \<Rightarrow> nat \<Rightarrow> string \<Rightarrow> daemon \<Rightarrow> daemon" where
  "register_comment t a txt s =
    (let d = dt_heap s a;
         (host_name, description) = target_names t s;
         author = (case dt_author d of None \<Rightarrow> ''(Nagios Process)'' | Some au \<Rightarrow> au);
         (_, cid, cm, _) = add_new_comment True (comments s)
           (if dt_type d = SERVICE_DOWNTIME then SERVICE_COMMENT else HOST_COMMENT) DOWNTIME_COMMENT
           (Some host_name) description (dt_entry_time d) (Some author) (Some txt) False 0 False 0
     in upd_dt a (\<lambda>d. d\<lparr>dt_comment_id := cid, dt_is_in_effect := False\<rparr>) (s\<lparr>comments := cm\<rparr>))"

text \<open>A flexible downtime that may never start is counted and gets an event that expires it.\<close>

definition register_flexible :: "dt_target \<Rightarrow> nat \<Rightarrow> daemon \<Rightarrow> daemon" where
  "register_flexible t a s =
    (let (ev, s) = schedule_new_event EVENT_EXPIRE_DOWNTIME 1 (dt_end_time (dt_heap s a) + 1) No_data 0
           (set_pending t (target_pending t s + 1) s)
     in upd_dt a (\<lambda>d. d\<lparr>dt_incremented_pending_downtime := True, dt_stop_event := Some ev\<rparr>) s)"

definition register_start_event :: "nat \<Rightarrow> daemon \<Rightarrow> daemon" where
  "register_start_event a s =
    (let d = dt_heap s a; flex_start = effective_start s d;
         (ev, s) = schedule_new_event EVENT_SCHEDULED_DOWNTIME_START 1
           (if dt_fixed d then dt_start_time d else flex_start) (Downtime_id (dt_id d)) 0 s
     in upd_dt a (\<lambda>d. d\<lparr>dt_flex_downtime_start := flex_start, dt_start_event := Some ev\<rparr>) s)"

definition register_downtime :: "daemon \<Rightarrow> nat \<Rightarrow> nat \<Rightarrow> (c_int \<times> daemon) ub" where
  "register_downtime s ty downtime_id = do {
     r \<leftarrow> find_downtime s ty downtime_id;
     (case r of None \<Rightarrow> Some (ERROR, s)
      | Some a \<Rightarrow>
        let d = dt_heap s a in
        (case downtime_target s d of None \<Rightarrow> Some (ERROR, s)
         | Some t \<Rightarrow> do {
             txt \<leftarrow> downtime_text s d;
             let s = register_comment t a txt s;
             let s = (if \<not> dt_fixed d \<and> \<not> dt_is_in_effect d then register_flexible t a s else s);
             trigger \<leftarrow> (if dt_triggered_by d \<noteq> 0 \<and> \<not> dt_is_in_effect d
               then find_downtime s ANY_DOWNTIME (dt_triggered_by d) else Some None);
             let schedule_event = (dt_is_in_effect d \<or> dt_triggered_by d = 0 \<and> dt_fixed d
               \<or> \<not> dt_fixed d \<and> dt_start_time d \<le> clock s \<and> clock s \<le> dt_end_time d \<and> target_problem t s
               \<or> (case trigger of None \<Rightarrow> False | Some b \<Rightarrow> dt_is_in_effect (dt_heap s b)));
             Some (OK, if schedule_event then register_start_event a s else s)
           }))
   }"

text \<open>The result of adding the entry is ignored: the id stays 0 when it could not be added.\<close>

definition schedule_downtime :: "daemon \<Rightarrow> nat \<Rightarrow> string option \<Rightarrow> string option \<Rightarrow> int \<Rightarrow> string option
    \<Rightarrow> string option \<Rightarrow> int \<Rightarrow> int \<Rightarrow> bool \<Rightarrow> nat \<Rightarrow> nat \<Rightarrow> (c_int \<times> nat \<times> daemon) ub" where
  "schedule_downtime s ty host_name service_description entry_time author comment_data start_time end_time fixed
      triggered_by duration =
    (if start_time \<ge> end_time \<or> end_time \<le> clock s then Some (ERROR, 0, s)
     else do {
       (_, downtime_id, s) \<leftarrow> add_new_downtime s ty host_name service_description entry_time author comment_data
         start_time end_time fixed triggered_by duration False False;
       (_, s) \<leftarrow> register_downtime s ty downtime_id;
       Some (OK, downtime_id, s)
     })"

section \<open>Start\<close>

text \<open>The function up to its loop over the triggered downtimes: whether it reaches the loop, and if
  not, what it returns.\<close>

definition start_one :: "daemon \<Rightarrow> nat \<Rightarrow> (bool \<times> c_int \<times> daemon) ub" where
  "start_one s a =
    (let d = dt_heap s a in
     if dt_is_in_effect d then Some (False, OK, s)
     else (case downtime_target s d of None \<Rightarrow> Some (False, ERROR, s)
       | Some t \<Rightarrow> do {
           s \<leftarrow> (if target_depth t s = 0 \<and> \<not> dt_start_notification_sent d
             then map_option (upd_dt a (\<lambda>d. d\<lparr>dt_start_notification_sent := True\<rparr>))
               (notify_target t NOTIFICATION_DOWNTIMESTART s)
             else Some s);
           let s = set_depth t (target_depth t s + 1) s;
           let flex_start = effective_start s d;
           let (ev, s) = schedule_new_event EVENT_SCHEDULED_DOWNTIME_END 1 (end_event_time d flex_start)
             (Downtime_id (dt_id d)) 0 s;
           Some (True, OK, upd_dt a (\<lambda>d. d\<lparr>dt_is_in_effect := True, dt_flex_downtime_start := flex_start,
             dt_stop_event := Some ev\<rparr>) s)
         }))"

text \<open>The loop, with the id of the downtime and the rest of the list to look at.\<close>

partial_function (option) start_triggered :: "daemon \<Rightarrow> nat \<times> nat list \<Rightarrow> daemon option" where
  "start_triggered s loop =
    (case snd loop of [] \<Rightarrow> Some s
     | a # rest \<Rightarrow>
        if dt_triggered_by (dt_heap s a) = fst loop then
          (start_one s a \<bind> (\<lambda>(started, _, s').
            (if started then start_triggered s' (dt_id (dt_heap s' a), scheduled_downtime_list s') else Some s')
            \<bind> (\<lambda>s''. start_triggered s'' (fst loop, rest))))
        else start_triggered s (fst loop, rest))"

definition handle_scheduled_downtime_start :: "daemon \<Rightarrow> nat \<Rightarrow> (c_int \<times> daemon) ub" where
  "handle_scheduled_downtime_start s a = do {
     (started, r, s) \<leftarrow> start_one s a;
     (if started then do {
        s \<leftarrow> start_triggered s (dt_id (dt_heap s a), scheduled_downtime_list s);
        Some (OK, s)
      } else Some (r, s))
   }"

definition handle_scheduled_downtime_start_by_id :: "daemon \<Rightarrow> nat \<Rightarrow> (c_int \<times> daemon) ub" where
  "handle_scheduled_downtime_start_by_id s downtime_id = do {
     r \<leftarrow> find_downtime s ANY_DOWNTIME downtime_id;
     (case r of None \<Rightarrow> Some (ERROR, s)
      | Some a \<Rightarrow> handle_scheduled_downtime_start (upd_dt a (\<lambda>d. d\<lparr>dt_start_event := None\<rparr>) s) a)
   }"

section \<open>End\<close>

text \<open>For a host the second condition of the code reads the depth of the service, which is NULL,
  when the depth of the host is not positive.\<close>

fun leave_effect :: "dt_target \<Rightarrow> daemon \<Rightarrow> daemon ub" where
  "leave_effect (At_host h) s =
    (if target_depth (At_host h) s > 0 then Some (set_depth (At_host h) (target_depth (At_host h) s - 1) s) else None)"
| "leave_effect (At_service i) s =
    Some (if target_depth (At_service i) s > 0
      then set_depth (At_service i) (target_depth (At_service i) s - 1) s else s)"

text \<open>The function up to its loop over the triggered downtimes.\<close>

definition end_one :: "daemon \<Rightarrow> nat \<Rightarrow> (c_int \<times> daemon) ub" where
  "end_one s a =
    (let d = dt_heap s a in
     (case downtime_target s d of None \<Rightarrow> Some (ERROR, s)
      | Some t \<Rightarrow> do {
          s \<leftarrow> (if dt_is_in_effect d then do {
              s \<leftarrow> leave_effect t s;
              (if target_depth t s = 0 then notify_target t NOTIFICATION_DOWNTIMEEND s else Some s)
            } else Some s);
          Some (OK, if \<not> dt_fixed d \<and> dt_incremented_pending_downtime d \<and> target_pending t s > 0
            then set_pending t (target_pending t s - 1) s else s)
        }))"

partial_function (option) end_triggered :: "daemon \<Rightarrow> nat \<Rightarrow> daemon option" where
  "end_triggered s downtime_id =
    (case find (\<lambda>a. dt_triggered_by (dt_heap s a) = downtime_id) (scheduled_downtime_list s) of
       None \<Rightarrow> Some s
     | Some a \<Rightarrow>
        (end_one s a \<bind> (\<lambda>(r, s').
          (if r \<noteq> OK then Some s'
           else end_triggered s' (dt_id (dt_heap s' a)) \<bind> (\<lambda>s''.
             delete_own s'' (dt_type (dt_heap s'' a)) (dt_id (dt_heap s'' a)))) \<bind> (\<lambda>s''.
          end_triggered s'' downtime_id))))"

definition handle_scheduled_downtime_end :: "daemon \<Rightarrow> nat \<Rightarrow> (c_int \<times> daemon) ub" where
  "handle_scheduled_downtime_end s a = do {
     (r, s) \<leftarrow> end_one s a;
     (if r \<noteq> OK then Some (r, s) else do {
        s \<leftarrow> end_triggered s (dt_id (dt_heap s a));
        s \<leftarrow> delete_own s (dt_type (dt_heap s a)) (dt_id (dt_heap s a));
        Some (OK, s)
      })
   }"

definition handle_scheduled_downtime_end_by_id :: "daemon \<Rightarrow> nat \<Rightarrow> (c_int \<times> daemon) ub" where
  "handle_scheduled_downtime_end_by_id s downtime_id = do {
     r \<leftarrow> find_downtime s ANY_DOWNTIME downtime_id;
     (case r of None \<Rightarrow> Some (ERROR, s) | Some a \<Rightarrow> handle_scheduled_downtime_end s a)
   }"

section \<open>Flexible downtimes\<close>

fun start_flexible :: "dt_target \<Rightarrow> nat list \<Rightarrow> daemon \<Rightarrow> daemon ub" where
  "start_flexible t [] s = Some s"
| "start_flexible t (a # rest) s =
    (let d = dt_heap s a in
     if dt_type d = (case t of At_host _ \<Rightarrow> HOST_DOWNTIME | At_service _ \<Rightarrow> SERVICE_DOWNTIME)
       \<and> \<not> dt_fixed d \<and> \<not> dt_is_in_effect d \<and> downtime_target s d = Some t
       \<and> dt_start_time d \<le> clock s \<and> clock s \<le> dt_end_time d
     then do {
       (_, s) \<leftarrow> handle_scheduled_downtime_start (upd_dt a (\<lambda>d. d\<lparr>dt_flex_downtime_start := clock s\<rparr>) s) a;
       start_flexible t rest s
     } else start_flexible t rest s)"

definition check_pending_flex_host_downtime :: "daemon \<Rightarrow> nat \<Rightarrow> (c_int \<times> daemon) ub" where
  "check_pending_flex_host_downtime s h =
    (if h_current_state (hosts s h) = HOST_UP then Some (OK, s)
     else do {
       s \<leftarrow> start_flexible (At_host h) (scheduled_downtime_list s) s;
       Some (OK, s)
     })"

definition check_pending_flex_service_downtime :: "daemon \<Rightarrow> nat \<Rightarrow> (c_int \<times> daemon) ub" where
  "check_pending_flex_service_downtime s i =
    (if s_current_state (svcs s i) = STATE_OK then Some (OK, s)
     else do {
       s \<leftarrow> start_flexible (At_service i) (scheduled_downtime_list s) s;
       Some (OK, s)
     })"

section \<open>Expiry\<close>

fun expire_each :: "nat list \<Rightarrow> daemon \<Rightarrow> (c_int \<times> daemon) ub" where
  "expire_each [] s = Some (OK, s)"
| "expire_each (a # rest) s =
    (let d = dt_heap s a in
     if \<not> dt_is_in_effect d \<and> dt_end_time d \<le> clock s then
       (case downtime_target s d of None \<Rightarrow> Some (ERROR, s)
        | Some t \<Rightarrow> do {
            s \<leftarrow> notify_target t NOTIFICATION_DOWNTIMEEND s;
            s \<leftarrow> delete_own s (dt_type d) (dt_id d);
            expire_each rest s
          })
     else expire_each rest s)"

definition check_for_expired_downtime :: "daemon \<Rightarrow> (c_int \<times> daemon) ub" where
  "check_for_expired_downtime s = expire_each (scheduled_downtime_list s) s"

section \<open>Cancelling by a filter\<close>

definition downtime_matches :: "string option \<Rightarrow> string option \<Rightarrow> int \<Rightarrow> string option \<Rightarrow> scheduled_downtime
    \<Rightarrow> bool ub" where
  "downtime_matches hostname service_description start_time cmnt d =
    (let differs = (\<lambda>filter_arg field. case (filter_arg, field) of (None, _) \<Rightarrow> Some False
         | (Some _, None) \<Rightarrow> None | (Some x, Some y) \<Rightarrow> Some (strcmp y x \<noteq> 0)) in
     if start_time \<noteq> 0 \<and> dt_start_time d \<noteq> start_time then Some False
     else do {
       c \<leftarrow> differs cmnt (dt_comment d);
       (if c then Some False
        else if dt_type d = HOST_DOWNTIME then
          (if service_description \<noteq> None then Some False
           else map_option Not (differs hostname (dt_host_name d)))
        else if dt_type d = SERVICE_DOWNTIME then do {
          h \<leftarrow> differs hostname (dt_host_name d);
          (if h then Some False else map_option Not (differs service_description (dt_service_description d)))
        } else Some True)
     })"

text \<open>The types and ids of the matches, the last first.\<close>

fun collect_matches :: "(scheduled_downtime \<Rightarrow> bool ub) \<Rightarrow> scheduled_downtime list \<Rightarrow> (nat \<times> nat) list
    \<Rightarrow> (nat \<times> nat) list ub" where
  "collect_matches m [] acc = Some acc"
| "collect_matches m (d # ds) acc = do {
     b \<leftarrow> m d;
     collect_matches m ds (if b then (dt_type d, dt_id d) # acc else acc)
   }"

fun unschedule_each :: "(nat \<times> nat) list \<Rightarrow> daemon \<Rightarrow> daemon ub" where
  "unschedule_each [] s = Some s"
| "unschedule_each ((ty, i) # rest) s = do {
     (_, s) \<leftarrow> unschedule_downtime s ty i;
     unschedule_each rest s
   }"

definition delete_downtime_by_hostname_service_description_start_time_comment ::
  "daemon \<Rightarrow> string option \<Rightarrow> string option \<Rightarrow> int \<Rightarrow> string option \<Rightarrow> (nat \<times> daemon) ub" where
  "delete_downtime_by_hostname_service_description_start_time_comment s hostname service_description start_time cmnt =
    (if hostname = None \<and> service_description = None \<and> start_time = 0 \<and> cmnt = None then Some (0, s)
     else do {
       ms \<leftarrow> collect_matches (downtime_matches hostname service_description start_time cmnt)
         (map (dt_heap s) (scheduled_downtime_list s)) [];
       s \<leftarrow> unschedule_each ms s;
       Some (length ms, s)
     })"

section \<open>Sequences of operations\<close>

text \<open>What the daemon does to downtimes: external commands that schedule and cancel, the timed
  events, and check results that change the state of an object and look for flexible downtimes.\<close>

datatype downtime_op =
    Schedule nat "string option" "string option" int "string option" "string option" int int bool nat nat
  | Unschedule nat nat
  | Delete_by "string option" "string option" int "string option"
  | Start_event nat
  | End_event nat
  | Expire_event
  | Host_state nat nat
  | Service_state nat nat
  | Elapse nat

fun run_op :: "downtime_op \<Rightarrow> daemon \<Rightarrow> daemon ub" where
  "run_op (Schedule ty hn sd et au co st en fx tr du) s =
    map_option (snd \<circ> snd) (schedule_downtime s ty hn sd et au co st en fx tr du)"
| "run_op (Unschedule ty i) s = map_option snd (unschedule_downtime s ty i)"
| "run_op (Delete_by hn sd st co) s =
    map_option snd (delete_downtime_by_hostname_service_description_start_time_comment s hn sd st co)"
| "run_op (Start_event i) s = map_option snd (handle_scheduled_downtime_start_by_id s i)"
| "run_op (End_event i) s = map_option snd (handle_scheduled_downtime_end_by_id s i)"
| "run_op Expire_event s = map_option snd (check_for_expired_downtime s)"
| "run_op (Host_state h st) s =
    map_option snd (check_pending_flex_host_downtime (upd_host h (\<lambda>v. v\<lparr>h_current_state := st\<rparr>) s) h)"
| "run_op (Service_state i st) s =
    map_option snd (check_pending_flex_service_downtime (upd_svc i (\<lambda>v. v\<lparr>s_current_state := st\<rparr>) s) i)"
| "run_op (Elapse n) s = Some (s\<lparr>clock := clock s + int n\<rparr>)"

end
