(* ===== verification/DowntimeSafety.thy ===== *)
theory DowntimeSafety
  imports DowntimeOps
begin

text \<open>
  The invariant of scheduled downtimes and what their handlers do.  The depth of an object counts its
  downtimes in effect (\<open>depth_ok\<close>); every handler returns without undefined behaviour, keeps the
  invariant, and acts on a downtime and those it triggers.
\<close>

section \<open>The invariant\<close>

definition in_effect_at :: "daemon \<Rightarrow> dt_target \<Rightarrow> nat set" where
  "in_effect_at s t = {a \<in> set (scheduled_downtime_list s).
     dt_is_in_effect (dt_heap s a) \<and> downtime_target s (dt_heap s a) = Some t}"

text \<open>The depths are right but for the downtimes in \<open>X\<close>, whose end is being handled.\<close>

definition depth_ok :: "nat set \<Rightarrow> daemon \<Rightarrow> bool" where
  "depth_ok X s \<longleftrightarrow> (\<forall>t. target_depth t s = int (card (in_effect_at s t - X)))"

definition parents_set :: "daemon \<Rightarrow> bool" where
  "parents_set s \<longleftrightarrow> (\<forall>i. None \<notin> set (s_parents (svcs s i)))"

definition dt_inv :: "nat set \<Rightarrow> daemon \<Rightarrow> bool" where
  "dt_inv X s \<longleftrightarrow> dl_wf s \<and> cm_wf (comments s) \<and> parents_set s \<and> depth_ok X s"

lemma dt_invD:
  assumes "dt_inv X s"
  shows "dl_wf s" "cm_wf (comments s)" "parents_set s" "depth_ok X s"
  using assms by (simp_all add: dt_inv_def)

section \<open>Changes\<close>

text \<open>What the handlers never change.\<close>

definition dt_keeps :: "daemon \<Rightarrow> daemon \<Rightarrow> bool" where
  "dt_keeps s s' \<longleftrightarrow> next_downtime_id s' = next_downtime_id s \<and> next_dt_addr s' = next_dt_addr s
    \<and> defer_downtime_sorting s' = defer_downtime_sorting s \<and> host_table s' = host_table s
    \<and> service_table s' = service_table s \<and> clock s' = clock s \<and> clib s' = clib s \<and> globs s' = globs s
    \<and> (\<forall>i. s_parents (svcs s' i) = s_parents (svcs s i))"

text \<open>Changes the invariant does not see at all.\<close>

definition quiet :: "daemon \<Rightarrow> daemon \<Rightarrow> bool" where
  "quiet s s' \<longleftrightarrow> dt_keeps s s' \<and> scheduled_downtime_list s' = scheduled_downtime_list s
    \<and> dt_fanout s' = dt_fanout s \<and> comments s' = comments s \<and> dt_heap s' = dt_heap s
    \<and> (\<forall>t. target_depth t s' = target_depth t s)"

named_theorems quiet_intros \<open>quiet changes\<close>

lemma dt_keeps_refl [simp]: "dt_keeps s s"
  by (simp add: dt_keeps_def)

lemma dt_keeps_trans: "dt_keeps s s' \<Longrightarrow> dt_keeps s' s'' \<Longrightarrow> dt_keeps s s''"
  by (simp add: dt_keeps_def)

lemma quiet_refl [simp, quiet_intros]: "quiet s s"
  by (simp add: quiet_def)

lemma quiet_trans: "quiet s s' \<Longrightarrow> quiet s' s'' \<Longrightarrow> quiet s s''"
  by (simp add: quiet_def dt_keeps_def)

lemma quiet_keeps: "quiet s s' \<Longrightarrow> dt_keeps s s'"
  by (simp add: quiet_def)

lemma downtime_target_frame:
  assumes "dt_keeps s s'"
  shows "downtime_target s' = downtime_target s"
proof -
  have "find_host s' = find_host s" "find_service s' = find_service s"
    by (rule find_host_frame find_service_frame; use assms in \<open>simp add: dt_keeps_def\<close>)+
  then show ?thesis by (simp add: fun_eq_iff downtime_target_def)
qed

lemma notif_core_quiet:
  assumes "notif_core s' = notif_core s"
  shows "quiet s s'"
proof -
  note same = notif_coreD [OF assms]
  have svc: "s_parents (svcs s' i) = s_parents (svcs s i)"
    "s_scheduled_downtime_depth (svcs s' i) = s_scheduled_downtime_depth (svcs s i)" for i
    using arg_cong [OF same(17), of s_parents i] arg_cong [OF same(17), of s_scheduled_downtime_depth i]
    by (simp_all add: svc_core_def)
  have hst: "h_scheduled_downtime_depth (hosts s' h) = h_scheduled_downtime_depth (hosts s h)" for h
    using arg_cong [OF same(18), of h_scheduled_downtime_depth h] by (simp add: host_core_def)
  have "target_depth t s' = target_depth t s" for t by (cases t) (simp_all add: svc hst)
  then show ?thesis by (simp add: quiet_def dt_keeps_def same svc)
qed

lemma set_pending_quiet [quiet_intros]: "quiet s (set_pending t n s)"
proof -
  have "target_depth u (set_pending t n s) = target_depth u s" for u by (cases t; cases u) simp_all
  then show ?thesis by (cases t) (simp_all add: quiet_def dt_keeps_def)
qed

lemma remove_event_quiet [quiet_intros]: "quiet s (remove_event ev s)"
proof -
  have "target_depth u (remove_event ev s) = target_depth u s" for u by (cases u) simp_all
  then show ?thesis by (simp add: quiet_def dt_keeps_def)
qed

lemma schedule_new_event_quiet [quiet_intros]: "quiet s (snd (schedule_new_event ty p t data opts s))"
proof -
  have "target_depth u (snd (schedule_new_event ty p t data opts s)) = target_depth u s" for u by (cases u) simp_all
  then show ?thesis by (simp add: quiet_def dt_keeps_def)
qed

lemma set_depth_simps [simp]:
  "target_depth u (set_depth t n s) = (if u = t then n else target_depth u s)"
  "scheduled_downtime_list (set_depth t n s) = scheduled_downtime_list s" "dt_fanout (set_depth t n s) = dt_fanout s"
  "dt_heap (set_depth t n s) = dt_heap s" "comments (set_depth t n s) = comments s"
  "dt_keeps s (set_depth t n s)"
  by (cases t; cases u; simp add: dt_keeps_def)+

text \<open>A notification about a downtime always returns.\<close>

lemma notify_target_quiet:
  assumes "parents_set s" "downtime_type ty"
  shows "\<exists>s'. notify_target t ty s = Some s' \<and> quiet s s'"
proof (cases t)
  case (At_host h)
  have "\<exists>r. check_host_notification_viability s h ty NOTIFICATION_OPTION_NONE = Some r"
    using assms(2) by (auto simp: check_host_notification_viability_def Let_def downtime_type_def flapping_type_def)
  then have "host_notification h ty NOTIFICATION_OPTION_NONE s \<noteq> None"
    by (auto simp: host_notification_def)
  then obtain r s' where "host_notification h ty NOTIFICATION_OPTION_NONE s = Some (r, s')" by auto
  with At_host show ?thesis using notif_core_quiet [OF host_notification_frame] by auto
next
  case (At_service i)
  have "count_bad_parents s (s_parents (svcs s i)) = Some 0"
    using assms(1) by (intro count_bad_parents_total) (auto simp: parents_set_def)
  then have "\<exists>r. check_service_notification_viability s i ty NOTIFICATION_OPTION_NONE = Some r"
    using assms(2)
    by (auto simp: check_service_notification_viability_def Let_def downtime_type_def flapping_type_def split: option.split)
  then have "service_notification i ty NOTIFICATION_OPTION_NONE s \<noteq> None"
    by (auto simp: service_notification_def split: option.split)
  then obtain r s' where "service_notification i ty NOTIFICATION_OPTION_NONE s = Some (r, s')" by auto
  with At_service show ?thesis using notif_core_quiet [OF service_notification_frame] by auto
qed

lemma dt_inv_quiet:
  assumes "dt_inv X s" "quiet s s'"
  shows "dt_inv X s'"
proof -
  note q = assms(2) [unfolded quiet_def] and target = downtime_target_frame [OF quiet_keeps [OF assms(2)]]
  have "dl_wf s'" by (rule dl_wf_frame [OF dt_invD(1) [OF assms(1)]]) (use q in \<open>simp_all add: dt_keeps_def\<close>)
  moreover have "in_effect_at s' = in_effect_at s" using q target by (simp add: fun_eq_iff in_effect_at_def)
  ultimately show ?thesis using assms(1) q by (simp add: dt_inv_def depth_ok_def parents_set_def dt_keeps_def)
qed

lemma dt_inv_notify:
  assumes "dt_inv X s" "downtime_type ty"
  shows "\<exists>s'. notify_target t ty s = Some s' \<and> dt_inv X s' \<and> quiet s s'"
  using notify_target_quiet [OF dt_invD(3) [OF assms(1)] assms(2)] dt_inv_quiet [OF assms(1)] by blast

lemma dt_inv_set_depth:
  assumes "dt_inv X s" "depth_ok Y (set_depth t n s)"
  shows "dt_inv Y (set_depth t n s)"
proof -
  have "dl_wf (set_depth t n s)"
    by (rule dl_wf_frame [OF dt_invD(1) [OF assms(1)]]; cases t; simp)
  moreover have "parents_set (set_depth t n s)"
    using dt_invD(3) [OF assms(1)] set_depth_simps(6) [of s t n] by (simp add: parents_set_def dt_keeps_def)
  ultimately show ?thesis using assms by (simp add: dt_inv_def)
qed

section \<open>Single downtimes\<close>

lemma downtime_target_some:
  assumes "dl_wf s" "a \<in> set (scheduled_downtime_list s)"
  shows "\<exists>t. downtime_target s (dt_heap s a) = Some t"
  using dl_wfD(3) [OF assms] by (auto simp: dl_entry_ok_def downtime_target_def Let_def)

text \<open>An effective downtime can be taken out of the count of its object.\<close>

lemma depth_leave:
  assumes "dt_inv X s" "a \<in> set (scheduled_downtime_list s)" "a \<notin> X" "dt_is_in_effect (dt_heap s a)"
    "downtime_target s (dt_heap s a) = Some t"
  shows "0 < target_depth t s" "dt_inv (insert a X) (set_depth t (target_depth t s - 1) s)"
proof -
  have a: "a \<in> in_effect_at s t - X" using assms by (simp add: in_effect_at_def)
  have fin: "finite (in_effect_at s u - X)" for u by (simp add: in_effect_at_def)
  from a fin have card: "0 < card (in_effect_at s t - X)" using card_gt_0_iff by blast
  then show pos: "0 < target_depth t s" using dt_invD(4) [OF assms(1)] by (simp add: depth_ok_def)
  have eff: "in_effect_at (set_depth t n s) u = in_effect_at s u" for n u
    by (simp add: in_effect_at_def downtime_target_frame [OF set_depth_simps(6)])
  have "in_effect_at s u - insert a X = in_effect_at s u - X" if "u \<noteq> t" for u
    using assms(5) that by (auto simp: in_effect_at_def)
  moreover have "card (in_effect_at s t - insert a X) = card (in_effect_at s t - X) - 1"
    unfolding Diff_insert [of "in_effect_at s t" a X] by (rule card_Diff_singleton [OF a])
  ultimately have "depth_ok (insert a X) (set_depth t (target_depth t s - 1) s)"
    using dt_invD(4) [OF assms(1)] card by (auto simp: depth_ok_def eff of_nat_diff)
  then show "dt_inv (insert a X) (set_depth t (target_depth t s - 1) s)"
    by (rule dt_inv_set_depth [OF assms(1)])
qed

lemma dt_inv_idle:
  assumes "dt_inv X s" "\<not> dt_is_in_effect (dt_heap s a)"
  shows "dt_inv (insert a X) s"
proof -
  have "in_effect_at s t - insert a X = in_effect_at s t - X" for t using assms(2) by (auto simp: in_effect_at_def)
  with assms(1) show ?thesis by (simp add: dt_inv_def depth_ok_def)
qed

lemma delete_own_spec:
  assumes "dt_inv (insert a X) s" "a \<in> set (scheduled_downtime_list s)"
  shows "\<exists>s'. delete_own s (dt_type (dt_heap s a)) (dt_id (dt_heap s a)) = Some s' \<and> dt_inv X s' \<and> dt_keeps s s'
    \<and> scheduled_downtime_list s' = filter (\<lambda>b. b \<noteq> a) (scheduled_downtime_list s) \<and> dt_heap s' = dt_heap s"
proof -
  note inv = dt_invD [OF assms(1)]
  have ty: "dt_type (dt_heap s a) = HOST_DOWNTIME \<or> dt_type (dt_heap s a) = SERVICE_DOWNTIME"
    using dl_wfD(3) [OF inv(1) assms(2)] by (auto simp: dl_entry_ok_def Let_def split: if_splits)
  from delete_downtime_spec [OF inv(1,2) assms(2), of "dt_type (dt_heap s a)"] obtain fo c s' where d:
    "delete_downtime s (dt_type (dt_heap s a)) (dt_id (dt_heap s a)) = Some (OK, s')"
    "s' = s\<lparr>scheduled_downtime_list := filter (\<lambda>b. b \<noteq> a) (scheduled_downtime_list s), dt_fanout := fo, comments := c\<rparr>"
    "dl_wf s'" "cm_wf c" by blast
  have keeps: "dt_keeps s s'" by (simp add: d(2) dt_keeps_def)
  have depth: "target_depth t s' = target_depth t s" for t by (cases t) (simp_all add: d(2))
  have "in_effect_at s' t - X = in_effect_at s t - insert a X" for t
    using downtime_target_frame [OF keeps] by (auto simp: in_effect_at_def d(2))
  then have "depth_ok X s'" using inv(4) by (simp add: depth_ok_def depth)
  moreover have "parents_set s'" using inv(3) by (simp add: parents_set_def d(2))
  ultimately have "dt_inv X s'" using d(2-4) by (simp add: dt_inv_def)
  moreover have "delete_own s (dt_type (dt_heap s a)) (dt_id (dt_heap s a)) = Some s'"
    using ty d(1) by (auto simp: delete_own_def delete_host_downtime_def delete_service_downtime_def)
  ultimately show ?thesis using keeps d(2) by auto
qed

section \<open>Triggered downtimes\<close>

text \<open>The listed downtimes that are triggered by downtime \<open>i\<close>, directly or through others.\<close>

inductive below :: "daemon \<Rightarrow> nat \<Rightarrow> nat \<Rightarrow> bool" for s i where
  direct: "a \<in> set (scheduled_downtime_list s) \<Longrightarrow> dt_triggered_by (dt_heap s a) = i \<Longrightarrow> below s i a"
| through: "below s i a \<Longrightarrow> b \<in> set (scheduled_downtime_list s)
    \<Longrightarrow> dt_triggered_by (dt_heap s b) = dt_id (dt_heap s a) \<Longrightarrow> below s i b"

lemma below_listed: "below s i a \<Longrightarrow> a \<in> set (scheduled_downtime_list s)"
  by (induction rule: below.induct)

lemma triggered_by_less:
  "dl_wf s \<Longrightarrow> a \<in> set (scheduled_downtime_list s) \<Longrightarrow> dt_triggered_by (dt_heap s a) < dt_id (dt_heap s a)"
  using dl_wfD(3) [of s a] by (simp add: dl_entry_ok_def Let_def)

lemma below_id: "below s i a \<Longrightarrow> dl_wf s \<Longrightarrow> i < dt_id (dt_heap s a)"
  by (induction rule: below.induct) (use triggered_by_less in fastforce)+

lemma below_mono:
  assumes "below s' i a" "dt_heap s' = dt_heap s" "set (scheduled_downtime_list s') \<subseteq> set (scheduled_downtime_list s)"
  shows "below s i a"
  using assms by (induction rule: below.induct) (auto intro: below.intros)

lemma below_same:
  assumes "dt_heap s' = dt_heap s" "scheduled_downtime_list s' = scheduled_downtime_list s"
  shows "below s' i a \<longleftrightarrow> below s i a"
  by (rule iffI; erule below_mono) (simp_all add: assms)

lemma not_below_self: "dl_wf s \<Longrightarrow> \<not> below s (dt_id (dt_heap s a)) a"
  using below_id by blast

lemma below_from: "below s i a \<Longrightarrow> below s (dt_id (dt_heap s a)) b \<Longrightarrow> below s i b"
  by (rotate_tac, induction rule: below.induct) (auto intro: below.through)

text \<open>Removing a set of downtimes together with all those they trigger.\<close>

lemma below_removed:
  assumes heap: "dt_heap s' = dt_heap s"
    and ls: "scheduled_downtime_list s' = filter (\<lambda>a. a \<notin> D) (scheduled_downtime_list s)"
    and closed: "\<And>b c. b \<in> D \<Longrightarrow> c \<in> set (scheduled_downtime_list s)
      \<Longrightarrow> dt_triggered_by (dt_heap s c) = dt_id (dt_heap s b) \<Longrightarrow> c \<in> D"
  shows "below s' i c \<longleftrightarrow> below s i c \<and> c \<notin> D"
proof
  assume "below s' i c"
  then show "below s i c \<and> c \<notin> D"
    using below_mono [OF _ heap] below_listed [of s' i c] ls by auto
next
  assume "below s i c \<and> c \<notin> D"
  then have "below s i c" "c \<notin> D" by simp_all
  then show "below s' i c"
  proof (induction rule: below.induct)
    case (direct a)
    then show ?case using heap ls by (auto intro: below.direct)
  next
    case (through a b)
    have "a \<notin> D" using closed [of a b] through by blast
    with through show ?case using heap ls by (auto intro: below.through)
  qed
qed

text \<open>One round of the loops that restart: a downtime that is triggered by \<open>i\<close> is dealt with together
  with those below it, then the loop goes on.\<close>

lemma below_round:
  assumes wf: "dl_wf s" and a: "a \<in> set (scheduled_downtime_list s)" "dt_triggered_by (dt_heap s a) = i"
    and heap: "dt_heap s2 = dt_heap s"
    and ls: "scheduled_downtime_list s2 =
      filter (\<lambda>b. b \<noteq> a \<and> \<not> below s (dt_id (dt_heap s a)) b) (scheduled_downtime_list s)"
  shows "filter (\<lambda>b. \<not> below s2 i b) (scheduled_downtime_list s2) =
    filter (\<lambda>b. \<not> below s i b) (scheduled_downtime_list s)"
proof -
  let ?D = "{b. b = a \<or> below s (dt_id (dt_heap s a)) b}"
  have round: "below s2 i c \<longleftrightarrow> below s i c \<and> c \<notin> ?D" for c
    by (rule below_removed [OF heap]) (use ls in \<open>auto intro: below.intros\<close>)
  have sub: "below s i b" if "b \<in> ?D" for b
    using that below.direct [OF a] below_from [OF below.direct [OF a]] by auto
  have "((b \<noteq> a \<and> \<not> below s (dt_id (dt_heap s a)) b) \<and> \<not> below s2 i b) = (\<not> below s i b)" for b
    using sub [of b] round [of b] by blast
  then show ?thesis unfolding ls by (simp add: filter_filter conj_commute)
qed

lemma below_without:
  assumes wf: "dl_wf s" and a: "a \<in> set (scheduled_downtime_list s)" and heap: "dt_heap s1 = dt_heap s"
    and ls: "scheduled_downtime_list s1 = filter (\<lambda>b. b \<noteq> a) (scheduled_downtime_list s)"
  shows "below s1 (dt_id (dt_heap s a)) b \<longleftrightarrow> below s (dt_id (dt_heap s a)) b"
proof
  assume "below s1 (dt_id (dt_heap s a)) b"
  then show "below s (dt_id (dt_heap s a)) b" by (rule below_mono [OF _ heap]) (auto simp: ls)
next
  have other: "c \<noteq> a" if "below s (dt_id (dt_heap s a)) c" for c using below_id [OF that wf] by auto
  assume "below s (dt_id (dt_heap s a)) b"
  then show "below s1 (dt_id (dt_heap s a)) b"
  proof (induction rule: below.induct)
    case (direct c)
    then show ?case using other [OF below.direct] heap ls by (auto intro: below.direct)
  next
    case (through c d)
    then show ?case using other [OF below.through [OF through(1)]] heap ls by (auto intro: below.through)
  qed
qed

text \<open>The measure of the loops: how many listed downtimes have an id above \<open>i\<close>.\<close>

definition above :: "daemon \<Rightarrow> nat \<Rightarrow> nat" where
  "above s i = card {a \<in> set (scheduled_downtime_list s). i < dt_id (dt_heap s a)}"

lemma above_less:
  assumes "dt_heap s' = dt_heap s" "set (scheduled_downtime_list s') \<subseteq> set (scheduled_downtime_list s)"
    "a \<in> set (scheduled_downtime_list s)" "i < dt_id (dt_heap s a)"
    and "a \<notin> set (scheduled_downtime_list s') \<or> dt_id (dt_heap s a) \<le> j" "i \<le> j"
  shows "above s' j < above s i"
  unfolding above_def
proof (rule psubset_card_mono)
  show "finite {a \<in> set (scheduled_downtime_list s). i < dt_id (dt_heap s a)}" by simp
  have "a \<notin> {a \<in> set (scheduled_downtime_list s'). j < dt_id (dt_heap s' a)}" using assms by auto
  then show "{a \<in> set (scheduled_downtime_list s'). j < dt_id (dt_heap s' a)}
      \<subset> {a \<in> set (scheduled_downtime_list s). i < dt_id (dt_heap s a)}"
    using assms by auto
qed

section \<open>Cancelling\<close>

lemma remove_events_inv: "dt_inv X s \<Longrightarrow> dt_inv X (remove_event e (remove_event e' s))"
  using dt_inv_quiet quiet_trans remove_event_quiet by metis

lemma quiet_list: "quiet s s' \<Longrightarrow> scheduled_downtime_list s' = scheduled_downtime_list s" "quiet s s' \<Longrightarrow> dt_heap s' = dt_heap s"
  by (simp_all add: quiet_def)

lemma cancel_effect_spec:
  assumes "dt_inv X s" "a \<in> set (scheduled_downtime_list s)" "a \<notin> X" "dt_is_in_effect (dt_heap s a)"
    "downtime_target s (dt_heap s a) = Some t"
  shows "\<exists>s'. cancel_effect t s = Some s' \<and> dt_inv (insert a X) s' \<and> dt_keeps s s'
    \<and> scheduled_downtime_list s' = scheduled_downtime_list s \<and> dt_heap s' = dt_heap s"
proof -
  note leave = depth_leave [OF assms]
  let ?s = "set_depth t (target_depth t s - 1) s"
  have "downtime_type NOTIFICATION_DOWNTIMECANCELLED" by (simp add: downtime_type_def)
  from dt_inv_notify [OF leave(2) this, of t] obtain s' where
    "notify_target t NOTIFICATION_DOWNTIMECANCELLED ?s = Some s'" "dt_inv (insert a X) s'" "quiet ?s s'" by blast
  with leave show ?thesis
    by (auto simp: cancel_effect_def Let_def quiet_list intro: dt_keeps_trans [OF set_depth_simps(6) quiet_keeps])
qed

lemma unschedule_one_spec:
  assumes "dt_inv X s" "a \<in> set (scheduled_downtime_list s)" "a \<notin> X" "ty = ANY_DOWNTIME \<or> ty = dt_type (dt_heap s a)"
  shows "\<exists>s'. unschedule_one s ty (dt_id (dt_heap s a)) = Some (OK, s') \<and> dt_inv X s' \<and> dt_keeps s s'
    \<and> scheduled_downtime_list s' = filter (\<lambda>b. b \<noteq> a) (scheduled_downtime_list s) \<and> dt_heap s' = dt_heap s"
proof -
  let ?d = "dt_heap s a"
  obtain t where t: "downtime_target s ?d = Some t" using downtime_target_some [OF dt_invD(1) [OF assms(1)] assms(2)] by blast
  define s1 where "s1 = (if \<not> dt_fixed ?d \<and> dt_incremented_pending_downtime ?d
    then set_pending t (target_pending t s - 1) s else s)"
  have q: "quiet s s1" by (simp add: s1_def quiet_intros)
  note s1 = dt_inv_quiet [OF assms(1) q] quiet_list [OF q] downtime_target_frame [OF quiet_keeps [OF q]]
  obtain s2 where s2: "(if dt_is_in_effect ?d then cancel_effect t s1 else Some s1) = Some s2" "dt_inv (insert a X) s2"
    "dt_keeps s1 s2" "scheduled_downtime_list s2 = scheduled_downtime_list s" "dt_heap s2 = dt_heap s"
    using cancel_effect_spec [OF s1(1), of a t] dt_inv_idle [OF s1(1), of a] assms(2,3) t s1 by (cases "dt_is_in_effect ?d") auto
  define s3 where "s3 = remove_event (dt_stop_event ?d) (remove_event (dt_start_event ?d) s2)"
  have q3: "quiet s2 s3" unfolding s3_def by (rule quiet_trans [OF remove_event_quiet remove_event_quiet])
  from delete_own_spec [OF dt_inv_quiet [OF s2(2) q3], of] assms(2) obtain s' where s':
    "delete_own s3 (dt_type ?d) (dt_id ?d) = Some s'" "dt_inv X s'" "dt_keeps s3 s'"
    "scheduled_downtime_list s' = filter (\<lambda>b. b \<noteq> a) (scheduled_downtime_list s)" "dt_heap s' = dt_heap s"
    using s2(4,5) quiet_list [OF q3] by auto
  have "unschedule_one s ty (dt_id ?d) = Some (OK, s')"
    using find_downtime_listed [OF dt_invD(1) [OF assms(1)] assms(2), of ty] assms(4) t s2(1) s'(1)
    by (simp add: unschedule_one_def flip: s1_def s3_def)
  moreover have "dt_keeps s s'"
    using quiet_keeps [OF q] s2(3) quiet_keeps [OF q3] s'(3) by (blast intro: dt_keeps_trans)
  ultimately show ?thesis using s' by blast
qed

lemma find_cases:
  obtains (none) "find P xs = None" "\<forall>x \<in> set xs. \<not> P x" | (some) x where "find P xs = Some x" "x \<in> set xs" "P x"
  by (cases "find P xs") (auto simp: find_None_iff find_Some_iff)

lemma no_trigger_below: "\<forall>x \<in> set (scheduled_downtime_list s). dt_triggered_by (dt_heap s x) \<noteq> i \<Longrightarrow> \<not> below s i b"
proof
  assume none: "\<forall>x \<in> set (scheduled_downtime_list s). dt_triggered_by (dt_heap s x) \<noteq> i"
  assume "below s i b"
  then show False by (induction rule: below.induct) (use none in auto)
qed

lemma unschedule_triggered_spec:
  assumes "dt_inv X s" "\<forall>a \<in> X. a \<notin> set (scheduled_downtime_list s)"
  shows "\<exists>s'. unschedule_triggered s i = Some s' \<and> dt_inv X s' \<and> dt_keeps s s' \<and> dt_heap s' = dt_heap s
    \<and> scheduled_downtime_list s' = filter (\<lambda>b. \<not> below s i b) (scheduled_downtime_list s)"
  using assms
proof (induction "above s i" arbitrary: s i rule: less_induct)
  case less
  note wf = dt_invD(1) [OF less.prems(1)]
  show ?case
  proof (cases rule: find_cases [of "\<lambda>a. dt_triggered_by (dt_heap s a) = i" "scheduled_downtime_list s"])
    case none
    then have "filter (\<lambda>b. \<not> below s i b) (scheduled_downtime_list s) = scheduled_downtime_list s"
      using no_trigger_below [of s i] by (simp add: filter_id_conv)
    then show ?thesis using none less.prems by (subst unschedule_triggered.simps) simp
  next
    case (some a)
    let ?j = "dt_id (dt_heap s a)"
    have ij: "i < ?j" using triggered_by_less [OF wf some(2)] some(3) by simp
    have "a \<notin> X" using less.prems(2) some(2) by blast
    from unschedule_one_spec [OF less.prems(1) some(2) this, of ANY_DOWNTIME] obtain s1 where
      s1: "unschedule_one s ANY_DOWNTIME ?j = Some (OK, s1)" "dt_inv X s1" "dt_keeps s s1"
      "scheduled_downtime_list s1 = filter (\<lambda>b. b \<noteq> a) (scheduled_downtime_list s)" "dt_heap s1 = dt_heap s" by auto
    have "above s1 ?j < above s i" by (rule above_less [OF s1(5) _ some(2) ij]) (use s1(4) ij in auto)
    from less.hyps [OF this s1(2)] less.prems(2) s1(4) obtain s2 where
      s2: "unschedule_triggered s1 ?j = Some s2" "dt_inv X s2" "dt_keeps s1 s2" "dt_heap s2 = dt_heap s1"
      "scheduled_downtime_list s2 = filter (\<lambda>b. \<not> below s1 ?j b) (scheduled_downtime_list s1)" by auto
    have heap2: "dt_heap s2 = dt_heap s" using s2(4) s1(5) by simp
    have ls2: "scheduled_downtime_list s2 = filter (\<lambda>b. b \<noteq> a \<and> \<not> below s ?j b) (scheduled_downtime_list s)"
      unfolding s2(5) s1(4) below_without [OF wf some(2) s1(5,4)] by (simp add: filter_filter conj_commute)
    have "above s2 i < above s i" by (rule above_less [OF heap2 _ some(2) ij]) (use ls2 ij in auto)
    from less.hyps [OF this s2(2)] less.prems(2) ls2 obtain s3 where
      s3: "unschedule_triggered s2 i = Some s3" "dt_inv X s3" "dt_keeps s2 s3" "dt_heap s3 = dt_heap s2"
      "scheduled_downtime_list s3 = filter (\<lambda>b. \<not> below s2 i b) (scheduled_downtime_list s2)" by auto
    have "unschedule_triggered s i = Some s3"
      using some(1) s1(1) s2(1) s3(1) by (subst unschedule_triggered.simps) simp
    moreover have "scheduled_downtime_list s3 = filter (\<lambda>b. \<not> below s i b) (scheduled_downtime_list s)"
      unfolding s3(5) by (rule below_round [OF wf some(2,3) heap2 ls2])
    ultimately show ?thesis using s1(3) s2(3) s3(2-4) heap2 by (auto intro: dt_keeps_trans)
  qed
qed

section \<open>End\<close>

lemma leave_effect_spec: "0 < target_depth t s \<Longrightarrow> leave_effect t s = Some (set_depth t (target_depth t s - 1) s)"
  by (cases t) simp_all

lemma end_one_spec:
  assumes "dt_inv X s" "a \<in> set (scheduled_downtime_list s)" "a \<notin> X"
  shows "\<exists>s'. end_one s a = Some (OK, s') \<and> dt_inv (insert a X) s' \<and> dt_keeps s s'
    \<and> scheduled_downtime_list s' = scheduled_downtime_list s \<and> dt_heap s' = dt_heap s"
proof -
  let ?d = "dt_heap s a"
  obtain t where t: "downtime_target s ?d = Some t" using downtime_target_some [OF dt_invD(1) [OF assms(1)] assms(2)] by blast
  define leave where "leave = (if dt_is_in_effect ?d then do {
      s \<leftarrow> leave_effect t s;
      (if target_depth t s = 0 then notify_target t NOTIFICATION_DOWNTIMEEND s else Some s)
    } else Some s)"
  have "\<exists>s1. leave = Some s1 \<and> dt_inv (insert a X) s1 \<and> dt_keeps s s1
    \<and> scheduled_downtime_list s1 = scheduled_downtime_list s \<and> dt_heap s1 = dt_heap s"
  proof (cases "dt_is_in_effect ?d")
    case True
    note dl = depth_leave [OF assms True t]
    let ?s = "set_depth t (target_depth t s - 1) s"
    have "downtime_type NOTIFICATION_DOWNTIMEEND" by (simp add: downtime_type_def)
    from dt_inv_notify [OF dl(2) this, of t] obtain s1 where
      "notify_target t NOTIFICATION_DOWNTIMEEND ?s = Some s1" "dt_inv (insert a X) s1" "quiet ?s s1" by blast
    with True dl leave_effect_spec [OF dl(1)] show ?thesis
      by (auto simp: leave_def quiet_list intro: dt_keeps_trans [OF set_depth_simps(6) quiet_keeps])
  next
    case False
    with dt_inv_idle [OF assms(1) False] show ?thesis by (simp add: leave_def)
  qed
  then obtain s1 where s1: "leave = Some s1" "dt_inv (insert a X) s1" "dt_keeps s s1"
    "scheduled_downtime_list s1 = scheduled_downtime_list s" "dt_heap s1 = dt_heap s" by blast
  define s2 where "s2 = (if \<not> dt_fixed ?d \<and> dt_incremented_pending_downtime ?d \<and> target_pending t s1 > 0
    then set_pending t (target_pending t s1 - 1) s1 else s1)"
  have q: "quiet s1 s2" by (simp add: s2_def quiet_intros)
  have "end_one s a = Some (OK, s2)" using t s1(1) by (simp add: end_one_def s2_def Let_def flip: leave_def)
  moreover have "dt_keeps s s2" by (rule dt_keeps_trans [OF s1(3) quiet_keeps [OF q]])
  ultimately show ?thesis using dt_inv_quiet [OF s1(2) q] quiet_list [OF q] s1(4,5) by auto
qed

lemma end_triggered_spec:
  assumes "dt_inv X s" "\<forall>a \<in> X. dt_id (dt_heap s a) \<le> i"
  shows "\<exists>s'. end_triggered s i = Some s' \<and> dt_inv X s' \<and> dt_keeps s s' \<and> dt_heap s' = dt_heap s
    \<and> scheduled_downtime_list s' = filter (\<lambda>b. \<not> below s i b) (scheduled_downtime_list s)"
  using assms
proof (induction "above s i" arbitrary: s i X rule: less_induct)
  case less
  note wf = dt_invD(1) [OF less.prems(1)]
  show ?case
  proof (cases rule: find_cases [of "\<lambda>a. dt_triggered_by (dt_heap s a) = i" "scheduled_downtime_list s"])
    case none
    then have "filter (\<lambda>b. \<not> below s i b) (scheduled_downtime_list s) = scheduled_downtime_list s"
      using no_trigger_below [of s i] by (simp add: filter_id_conv)
    then show ?thesis using none less.prems by (subst end_triggered.simps) simp
  next
    case (some a)
    let ?j = "dt_id (dt_heap s a)"
    have ij: "i < ?j" using triggered_by_less [OF wf some(2)] some(3) by simp
    then have "a \<notin> X" using less.prems(2) by auto
    from end_one_spec [OF less.prems(1) some(2) this] obtain s1 where
      s1: "end_one s a = Some (OK, s1)" "dt_inv (insert a X) s1" "dt_keeps s s1"
      "scheduled_downtime_list s1 = scheduled_downtime_list s" "dt_heap s1 = dt_heap s" by blast
    have "above s1 ?j < above s i" by (rule above_less [OF s1(5) _ some(2) ij]) (use s1(4) ij in auto)
    from less.hyps [OF this s1(2)] less.prems(2) ij s1(5) obtain s2 where
      s2: "end_triggered s1 ?j = Some s2" "dt_inv (insert a X) s2" "dt_keeps s1 s2" "dt_heap s2 = dt_heap s1"
      "scheduled_downtime_list s2 = filter (\<lambda>b. \<not> below s1 ?j b) (scheduled_downtime_list s1)" by fastforce
    have heap2: "dt_heap s2 = dt_heap s" using s2(4) s1(5) by simp
    note same = below_same [OF s1(5,4)]
    note self = not_below_self [OF wf, of a]
    have "a \<in> set (scheduled_downtime_list s2)" using self some(2) by (simp add: s2(5) s1(4) same)
    from delete_own_spec [OF s2(2) this] obtain s3 where
      s3: "delete_own s2 (dt_type (dt_heap s2 a)) (dt_id (dt_heap s2 a)) = Some s3" "dt_inv X s3" "dt_keeps s2 s3"
      "scheduled_downtime_list s3 = filter (\<lambda>b. b \<noteq> a) (scheduled_downtime_list s2)" "dt_heap s3 = dt_heap s2" by blast
    have heap3: "dt_heap s3 = dt_heap s" using s3(5) heap2 by simp
    have ls3: "scheduled_downtime_list s3 = filter (\<lambda>b. b \<noteq> a \<and> \<not> below s ?j b) (scheduled_downtime_list s)"
      unfolding s3(4) s2(5) s1(4) same by (simp add: filter_filter conj_commute)
    have "above s3 i < above s i" by (rule above_less [OF heap3 _ some(2) ij]) (use ls3 ij in auto)
    from less.hyps [OF this s3(2)] less.prems(2) heap3 obtain s4 where
      s4: "end_triggered s3 i = Some s4" "dt_inv X s4" "dt_keeps s3 s4" "dt_heap s4 = dt_heap s3"
      "scheduled_downtime_list s4 = filter (\<lambda>b. \<not> below s3 i b) (scheduled_downtime_list s3)" by auto
    have "end_triggered s i = Some s4"
      using some(1) s1(1) s2(1) s3(1) s4(1) heap2 s1(5) by (subst end_triggered.simps) simp
    moreover have "scheduled_downtime_list s4 = filter (\<lambda>b. \<not> below s i b) (scheduled_downtime_list s)"
      unfolding s4(5) by (rule below_round [OF wf some(2,3) heap3 ls3])
    moreover have "dt_keeps s s4" using s1(3) s2(3) s3(3) s4(3) by (blast intro: dt_keeps_trans)
    ultimately show ?thesis using s4(2,4) heap3 by auto
  qed
qed

lemma handle_end_spec:
  assumes "dt_inv {} s" "a \<in> set (scheduled_downtime_list s)"
  shows "\<exists>s'. handle_scheduled_downtime_end s a = Some (OK, s') \<and> dt_inv {} s' \<and> dt_keeps s s' \<and> dt_heap s' = dt_heap s
    \<and> scheduled_downtime_list s' =
      filter (\<lambda>b. b \<noteq> a \<and> \<not> below s (dt_id (dt_heap s a)) b) (scheduled_downtime_list s)"
proof -
  let ?j = "dt_id (dt_heap s a)"
  note wf = dt_invD(1) [OF assms(1)]
  from end_one_spec [OF assms] obtain s1 where
    s1: "end_one s a = Some (OK, s1)" "dt_inv {a} s1" "dt_keeps s s1"
    "scheduled_downtime_list s1 = scheduled_downtime_list s" "dt_heap s1 = dt_heap s" by auto
  from end_triggered_spec [OF s1(2), of ?j] s1(5) obtain s2 where
    s2: "end_triggered s1 ?j = Some s2" "dt_inv {a} s2" "dt_keeps s1 s2" "dt_heap s2 = dt_heap s1"
    "scheduled_downtime_list s2 = filter (\<lambda>b. \<not> below s1 ?j b) (scheduled_downtime_list s1)" by auto
  note same = below_same [OF s1(5,4)]
  note self = not_below_self [OF wf, of a]
  have "a \<in> set (scheduled_downtime_list s2)" using self assms(2) by (simp add: s2(5) s1(4) same)
  from delete_own_spec [OF s2(2) this] obtain s3 where
    s3: "delete_own s2 (dt_type (dt_heap s2 a)) (dt_id (dt_heap s2 a)) = Some s3" "dt_inv {} s3" "dt_keeps s2 s3"
    "scheduled_downtime_list s3 = filter (\<lambda>b. b \<noteq> a) (scheduled_downtime_list s2)" "dt_heap s3 = dt_heap s2" by blast
  have "handle_scheduled_downtime_end s a = Some (OK, s3)"
    using s1(1,5) s2(1,4) s3(1) by (simp add: handle_scheduled_downtime_end_def)
  moreover have "dt_keeps s s3" using s1(3) s2(3) s3(3) by (blast intro: dt_keeps_trans)
  moreover have "scheduled_downtime_list s3 = filter (\<lambda>b. b \<noteq> a \<and> \<not> below s ?j b) (scheduled_downtime_list s)"
    unfolding s3(4) s2(5) s1(4) same by (simp add: filter_filter conj_commute)
  ultimately show ?thesis using s1(5) s2(4) s3(2,5) by auto
qed

section \<open>Start\<close>

text \<open>A start changes entries, but not what the structures go by, and only brings downtimes into effect.\<close>

definition starts :: "daemon \<Rightarrow> daemon \<Rightarrow> bool" where
  "starts s s' \<longleftrightarrow> dt_keeps s s' \<and> scheduled_downtime_list s' = scheduled_downtime_list s
    \<and> dt_fanout s' = dt_fanout s \<and> comments s' = comments s
    \<and> (\<forall>b. same_entry (dt_heap s' b) (dt_heap s b)
        \<and> (dt_is_in_effect (dt_heap s b) \<longrightarrow> dt_is_in_effect (dt_heap s' b)))"

lemma starts_refl [simp]: "starts s s"
  by (simp add: starts_def)

lemma starts_trans: "starts s s' \<Longrightarrow> starts s' s'' \<Longrightarrow> starts s s''"
  by (auto simp: starts_def same_entry_def intro: dt_keeps_trans)

lemma quiet_starts: "quiet s s' \<Longrightarrow> starts s s'"
  by (simp add: quiet_def starts_def)

lemma startsD:
  assumes "starts s s'"
  shows "dt_keeps s s'" "scheduled_downtime_list s' = scheduled_downtime_list s"
    "dt_id (dt_heap s' b) = dt_id (dt_heap s b)" "dt_triggered_by (dt_heap s' b) = dt_triggered_by (dt_heap s b)"
    "dt_is_in_effect (dt_heap s b) \<Longrightarrow> dt_is_in_effect (dt_heap s' b)"
    "downtime_target s' (dt_heap s' b) = downtime_target s (dt_heap s b)"
  using assms downtime_target_frame [of s s'] by (simp_all add: starts_def same_entry_def downtime_target_def)

lemma starts_wf:
  assumes "dl_wf s" "starts s s'"
  shows "dl_wf s'"
  by (rule dl_wf_frame [OF assms(1)]) (use assms(2) in \<open>simp_all add: starts_def dt_keeps_def\<close>)

lemma starts_below: "starts s s' \<Longrightarrow> below s' i b \<longleftrightarrow> below s i b"
proof -
  assume st: "starts s s'"
  have "below s i b \<Longrightarrow> below s' i b"
    by (induction rule: below.induct) (auto intro: below.intros simp: startsD(2-4) [OF st])
  moreover have "below s' i b \<Longrightarrow> below s i b"
    by (induction rule: below.induct) (auto intro: below.intros simp: startsD(2-4) [OF st])
  ultimately show ?thesis by blast
qed

lemma starts_above: "starts s s' \<Longrightarrow> above s' i = above s i"
  by (simp add: above_def startsD(2,3))

lemma upd_dt_starts:
  assumes "\<And>d. same_entry (f d) d" "\<And>d. dt_is_in_effect d \<Longrightarrow> dt_is_in_effect (f d)"
  shows "starts s (upd_dt a f s)"
  using assms by (simp add: starts_def dt_keeps_def)

lemma target_depth_upd_dt [simp]: "target_depth u (upd_dt a f s) = target_depth u s"
  by (cases u) simp_all

lemma start_one_spec:
  assumes "dt_inv {} s" "a \<in> set (scheduled_downtime_list s)" "\<not> dt_is_in_effect (dt_heap s a)"
  shows "\<exists>s'. start_one s a = Some (True, OK, s') \<and> dt_inv {} s' \<and> starts s s'
    \<and> (\<forall>b. dt_is_in_effect (dt_heap s' b) \<longleftrightarrow> dt_is_in_effect (dt_heap s b) \<or> b = a)"
proof -
  let ?d = "dt_heap s a"
  note inv = dt_invD [OF assms(1)]
  obtain t where t: "downtime_target s ?d = Some t" using downtime_target_some [OF inv(1) assms(2)] by blast
  define note_start where "note_start = (if target_depth t s = 0 \<and> \<not> dt_start_notification_sent ?d
    then map_option (upd_dt a (\<lambda>d. d\<lparr>dt_start_notification_sent := True\<rparr>)) (notify_target t NOTIFICATION_DOWNTIMESTART s)
    else Some s)"
  have "\<exists>s1. note_start = Some s1 \<and> starts s s1 \<and> (\<forall>u. target_depth u s1 = target_depth u s)
    \<and> (\<forall>b. dt_is_in_effect (dt_heap s1 b) = dt_is_in_effect (dt_heap s b))"
  proof (cases "target_depth t s = 0 \<and> \<not> dt_start_notification_sent ?d")
    case True
    have "downtime_type NOTIFICATION_DOWNTIMESTART" by (simp add: downtime_type_def)
    from notify_target_quiet [OF inv(3) this, of t] obtain s0 where
      s0: "notify_target t NOTIFICATION_DOWNTIMESTART s = Some s0" "quiet s s0" by blast
    have "starts s0 (upd_dt a (\<lambda>d. d\<lparr>dt_start_notification_sent := True\<rparr>) s0)"
      by (rule upd_dt_starts) (simp_all add: same_entry_def)
    with starts_trans [OF quiet_starts [OF s0(2)]] True s0 show ?thesis by (simp add: note_start_def quiet_def)
  next
    case False
    then show ?thesis by (auto simp: note_start_def)
  qed
  then obtain s1 where s1: "note_start = Some s1" "starts s s1" "\<And>u. target_depth u s1 = target_depth u s"
    "\<And>b. dt_is_in_effect (dt_heap s1 b) = dt_is_in_effect (dt_heap s b)" by blast
  define s2 where "s2 = set_depth t (target_depth t s1 + 1) s1"
  obtain ev s3 where s3: "schedule_new_event EVENT_SCHEDULED_DOWNTIME_END 1 (end_event_time ?d (effective_start s2 ?d))
      (Downtime_id (dt_id ?d)) 0 s2 = (ev, s3)" by fastforce
  then have q3: "quiet s2 s3" using schedule_new_event_quiet [of s2] by (metis snd_conv)
  define s4 where "s4 = upd_dt a (\<lambda>d. d\<lparr>dt_is_in_effect := True, dt_flex_downtime_start := effective_start s2 ?d,
    dt_stop_event := Some ev\<rparr>) s3"
  have run: "start_one s a = Some (True, OK, s4)"
    using assms(3) t s1(1) s3
    by (simp add: start_one_def Let_def s4_def flip: note_start_def s2_def)
  have "starts s1 s2" by (simp add: s2_def starts_def)
  moreover have "starts s3 s4" unfolding s4_def by (rule upd_dt_starts) (simp_all add: same_entry_def)
  ultimately have st: "starts s s4" using s1(2) quiet_starts [OF q3] by (blast intro: starts_trans)
  have eff: "dt_is_in_effect (dt_heap s4 b) \<longleftrightarrow> dt_is_in_effect (dt_heap s b) \<or> b = a" for b
    using s1(4) [of b] quiet_list(2) [OF q3] by (simp add: s4_def s2_def)
  have depth: "target_depth u s4 = target_depth u s + (if u = t then 1 else 0)" for u
    using q3 by (simp add: s4_def quiet_def s2_def s1(3))
  have at: "in_effect_at s4 u = in_effect_at s u \<union> (if u = t then {a} else {})" for u
    using eff assms(2) t by (auto simp: in_effect_at_def startsD [OF st])
  have "a \<notin> in_effect_at s u" "finite (in_effect_at s u)" for u
    using assms(3) by (simp_all add: in_effect_at_def)
  then have "depth_ok {} s4" using inv(4) by (simp add: depth_ok_def depth at)
  moreover have "parents_set s4" using inv(3) startsD(1) [OF st] by (simp add: parents_set_def dt_keeps_def)
  moreover have "cm_wf (comments s4)" using inv(2) st by (simp add: starts_def)
  ultimately have "dt_inv {} s4" using starts_wf [OF inv(1) st] by (simp add: dt_inv_def)
  with run st eff show ?thesis by blast
qed

text \<open>The downtimes that come into effect, and that all they trigger is in effect.\<close>

definition woken :: "daemon \<Rightarrow> daemon \<Rightarrow> nat \<Rightarrow> bool" where
  "woken s s' b \<longleftrightarrow> dt_is_in_effect (dt_heap s' b) \<and> \<not> dt_is_in_effect (dt_heap s b)"

definition wakes_all :: "daemon \<Rightarrow> nat \<Rightarrow> bool" where
  "wakes_all s i \<longleftrightarrow> (\<forall>c \<in> set (scheduled_downtime_list s). dt_triggered_by (dt_heap s c) = i
    \<longrightarrow> dt_is_in_effect (dt_heap s c))"

lemma wakes_all_starts: "wakes_all s i \<Longrightarrow> starts s s' \<Longrightarrow> wakes_all s' i"
  using startsD by (fastforce simp: wakes_all_def)

lemma woken_trans: "woken s s'' b \<Longrightarrow> woken s s' b \<or> woken s' s'' b"
  by (auto simp: woken_def)

definition start_done :: "daemon \<Rightarrow> nat \<Rightarrow> nat list \<Rightarrow> daemon \<Rightarrow> bool" where
  "start_done s i todo s' \<longleftrightarrow> dt_inv {} s' \<and> starts s s'
    \<and> (\<forall>b. woken s s' b \<longrightarrow> below s i b \<and> wakes_all s' (dt_id (dt_heap s b)))
    \<and> (\<forall>b \<in> set todo. dt_triggered_by (dt_heap s b) = i \<longrightarrow> dt_is_in_effect (dt_heap s' b))"

lemma start_done_wakes:
  assumes "start_done s i (scheduled_downtime_list s) s'"
  shows "wakes_all s' i"
proof -
  have "starts s s'" using assms by (simp add: start_done_def)
  from startsD(2,4) [OF this] assms show ?thesis by (simp add: start_done_def wakes_all_def)
qed

text \<open>One member of the list: the part above it has been started to the end in \<open>s2\<close>.\<close>

lemma start_done_Cons:
  assumes "starts s s1" "\<And>b. woken s s1 b \<Longrightarrow> b = a" "starts s1 s2"
    and "\<And>b. woken s1 s2 b \<Longrightarrow> below s1 (dt_id (dt_heap s a)) b \<and> wakes_all s2 (dt_id (dt_heap s1 b))"
    and "wakes_all s2 (dt_id (dt_heap s a))" "dt_is_in_effect (dt_heap s2 a)"
    and "a \<in> set (scheduled_downtime_list s)" "dt_triggered_by (dt_heap s a) = i"
    and "start_done s2 i rest s3"
  shows "start_done s i (a # rest) s3"
proof -
  have st: "starts s s2" using assms(1,3) by (rule starts_trans)
  have st3: "starts s2 s3" using assms(9) by (simp add: start_done_def)
  have "below s i b \<and> wakes_all s3 (dt_id (dt_heap s b))" if w: "woken s s3 b" for b
  proof -
    consider "b = a" | "woken s1 s2 b" | "woken s2 s3 b"
      using woken_trans [OF w, of s2] woken_trans [of s s2 b s1] assms(2) by blast
    then show ?thesis
    proof cases
      case 1
      then show ?thesis using wakes_all_starts [OF assms(5) st3] below.direct [OF assms(7,8)] by simp
    next
      case 2
      with assms(4) [OF 2] show ?thesis
        using wakes_all_starts [OF _ st3] below_from [OF below.direct [OF assms(7,8)]]
        by (simp add: starts_below [OF assms(1)] startsD(3) [OF assms(1)])
    next
      case 3
      with assms(9) show ?thesis by (auto simp: start_done_def starts_below [OF st] startsD(3) [OF st])
    qed
  qed
  moreover have "dt_is_in_effect (dt_heap s3 a)" by (rule startsD(5) [OF st3 assms(6)])
  ultimately show ?thesis
    using assms(9) starts_trans [OF st st3] by (auto simp: start_done_def startsD(4) [OF st])
qed

lemma start_triggered_spec:
  assumes "dt_inv {} s" "set todo \<subseteq> set (scheduled_downtime_list s)"
  shows "\<exists>s'. start_triggered s (i, todo) = Some s' \<and> start_done s i todo s'"
  using assms
proof (induction "above s i" arbitrary: s i todo rule: less_induct)
  case (less s i todo)
  have "\<exists>s'. start_triggered t (i, todo) = Some s' \<and> start_done t i todo s'"
    if "dt_inv {} t" "set todo \<subseteq> set (scheduled_downtime_list t)" "above t i = above s i" for t todo
    using that
  proof (induction todo arbitrary: t)
    case Nil
    then show ?case by (subst start_triggered.simps) (simp add: start_done_def woken_def)
  next
    case (Cons a rest)
    then have a: "a \<in> set (scheduled_downtime_list t)" by simp
    show ?case
    proof (cases "dt_triggered_by (dt_heap t a) = i")
      case False
      with Cons show ?thesis by (subst start_triggered.simps) (simp add: start_done_def)
    next
      case trig: True
      let ?j = "dt_id (dt_heap t a)"
      show ?thesis
      proof (cases "dt_is_in_effect (dt_heap t a)")
        case True
        from Cons obtain s' where s': "start_triggered t (i, rest) = Some s'" "start_done t i rest s'" by auto
        then have "dt_is_in_effect (dt_heap s' a)" using startsD(5) [of t s' a] True by (simp add: start_done_def)
        with s' trig True show ?thesis
          by (subst start_triggered.simps) (simp add: start_one_def start_done_def)
      next
        case False
        from start_one_spec [OF Cons.prems(1) a False] obtain t1 where
          t1: "start_one t a = Some (True, OK, t1)" "dt_inv {} t1" "starts t t1"
            "\<And>b. dt_is_in_effect (dt_heap t1 b) \<longleftrightarrow> dt_is_in_effect (dt_heap t b) \<or> b = a" by blast
        have ij: "i < ?j" using triggered_by_less [OF dt_invD(1) [OF Cons.prems(1)] a] trig by simp
        have "above t ?j < above t i" by (rule above_less [OF refl _ a ij]) (use ij in auto)
        then have "above t1 ?j < above s i" using Cons.prems(3) by (simp add: starts_above [OF t1(3)])
        from less.hyps [OF this t1(2) order_refl] obtain t2 where
          t2: "start_triggered t1 (?j, scheduled_downtime_list t1) = Some t2"
            "start_done t1 ?j (scheduled_downtime_list t1) t2" by blast
        have t2': "dt_inv {} t2" "starts t1 t2" "wakes_all t2 ?j"
          "\<And>b. woken t1 t2 b \<Longrightarrow> below t1 ?j b \<and> wakes_all t2 (dt_id (dt_heap t1 b))"
          using t2(2) start_done_wakes [OF t2(2)] by (simp_all add: start_done_def)
        have st: "starts t t2" by (rule starts_trans [OF t1(3) t2'(2)])
        from Cons.IH [OF t2'(1)] Cons.prems obtain t3 where
          t3: "start_triggered t2 (i, rest) = Some t3" "start_done t2 i rest t3"
          by (auto simp: startsD(2) [OF st] starts_above [OF st])
        have "start_done t i (a # rest) t3"
          by (rule start_done_Cons [OF t1(3) _ t2'(2,4,3) _ a trig t3(2)])
            (use t1(4) startsD(5) [OF t2'(2)] in \<open>auto simp: woken_def\<close>)
        moreover have "start_triggered t (i, a # rest) = Some t3"
          using trig t1(1) t2(1) t3(1) startsD(3) [OF t1(3)] by (subst start_triggered.simps) simp
        ultimately show ?thesis by blast
      qed
    qed
  qed
  from this [OF less.prems refl] show ?case .
qed

lemma handle_start_spec:
  assumes "dt_inv {} s" "a \<in> set (scheduled_downtime_list s)" "\<not> dt_is_in_effect (dt_heap s a)"
  shows "\<exists>s'. handle_scheduled_downtime_start s a = Some (OK, s') \<and> dt_inv {} s' \<and> starts s s'
    \<and> dt_is_in_effect (dt_heap s' a)
    \<and> (\<forall>b. woken s s' b \<longrightarrow> (b = a \<or> below s (dt_id (dt_heap s a)) b) \<and> wakes_all s' (dt_id (dt_heap s b)))"
proof -
  let ?j = "dt_id (dt_heap s a)"
  from start_one_spec [OF assms] obtain t1 where
    t1: "start_one s a = Some (True, OK, t1)" "dt_inv {} t1" "starts s t1"
      "\<And>b. dt_is_in_effect (dt_heap t1 b) \<longleftrightarrow> dt_is_in_effect (dt_heap s b) \<or> b = a" by blast
  from start_triggered_spec [OF t1(2) order_refl, of ?j] obtain t2 where
    t2: "start_triggered t1 (?j, scheduled_downtime_list t1) = Some t2"
      "start_done t1 ?j (scheduled_downtime_list t1) t2" by blast
  have t2': "dt_inv {} t2" "starts t1 t2" "wakes_all t2 ?j"
    "\<And>b. woken t1 t2 b \<Longrightarrow> below s ?j b \<and> wakes_all t2 (dt_id (dt_heap s b))"
    using t2(2) start_done_wakes [OF t2(2)] by (simp_all add: start_done_def starts_below [OF t1(3)] startsD(3) [OF t1(3)])
  have "handle_scheduled_downtime_start s a = Some (OK, t2)"
    using t1(1) t2(1) startsD(3) [OF t1(3)] by (simp add: handle_scheduled_downtime_start_def)
  moreover have "(b = a \<or> below s ?j b) \<and> wakes_all t2 (dt_id (dt_heap s b))" if "woken s t2 b" for b
    using woken_trans [OF that, of t1] t2'(3,4) t1(4) [of b] by (auto simp: woken_def)
  moreover have "dt_is_in_effect (dt_heap t2 a)" using startsD(5) [OF t2'(2)] t1(4) by blast
  ultimately show ?thesis using t2'(1) starts_trans [OF t1(3) t2'(2)] by blast
qed

section \<open>Flexible downtimes and expiry\<close>

lemma dt_inv_upd_dt:
  assumes "dt_inv X s" "same_entry (f (dt_heap s a)) (dt_heap s a)"
    "dt_is_in_effect (f (dt_heap s a)) = dt_is_in_effect (dt_heap s a)"
  shows "dt_inv X (upd_dt a f s)" "dt_keeps s (upd_dt a f s)"
proof -
  let ?s = "upd_dt a f s"
  show keeps: "dt_keeps s ?s" by (simp add: dt_keeps_def)
  have same: "same_entry (dt_heap ?s b) (dt_heap s b)" for b using assms(2) by simp
  have "dl_wf ?s" by (rule dl_wf_frame [OF dt_invD(1) [OF assms(1)]]) (use same in simp_all)
  moreover have "in_effect_at ?s u = in_effect_at s u" for u
    using assms(2,3) downtime_target_frame [OF keeps] by (auto simp: in_effect_at_def downtime_target_def same_entry_def)
  ultimately show "dt_inv X ?s" using assms(1) by (simp add: dt_inv_def depth_ok_def parents_set_def)
qed

lemma handle_start_total:
  assumes "dt_inv {} s" "a \<in> set (scheduled_downtime_list s)"
  shows "\<exists>r s'. handle_scheduled_downtime_start s a = Some (r, s') \<and> dt_inv {} s' \<and> starts s s'"
proof (cases "dt_is_in_effect (dt_heap s a)")
  case True
  then have "handle_scheduled_downtime_start s a = Some (OK, s)"
    by (simp add: handle_scheduled_downtime_start_def start_one_def)
  with assms show ?thesis by auto
next
  case False
  from handle_start_spec [OF assms this] show ?thesis by auto
qed

lemma start_flexible_spec:
  assumes "dt_inv {} s" "set todo \<subseteq> set (scheduled_downtime_list s)"
  shows "\<exists>s'. start_flexible t todo s = Some s' \<and> dt_inv {} s' \<and> starts s s'"
  using assms
proof (induction todo arbitrary: s)
  case (Cons a rest)
  let ?s = "upd_dt a (\<lambda>d. d\<lparr>dt_flex_downtime_start := clock s\<rparr>) s"
  have inv: "dt_inv {} ?s"
    by (rule dt_inv_upd_dt [OF Cons.prems(1)]) (simp_all add: same_entry_def)
  have st: "starts s ?s" by (rule upd_dt_starts) (simp_all add: same_entry_def)
  have "a \<in> set (scheduled_downtime_list ?s)" using Cons.prems(2) by simp
  from handle_start_total [OF inv this] obtain r s1 where
    s1: "handle_scheduled_downtime_start ?s a = Some (r, s1)" "dt_inv {} s1" "starts ?s s1" by blast
  have st1: "starts s s1" by (rule starts_trans [OF st s1(3)])
  from Cons.IH [OF s1(2)] Cons.prems(2) startsD(2) [OF st1] obtain s2 where
    "start_flexible t rest s1 = Some s2" "dt_inv {} s2" "starts s1 s2" by auto
  moreover from Cons.IH [OF Cons.prems(1)] Cons.prems(2) obtain s3 where
    "start_flexible t rest s = Some s3" "dt_inv {} s3" "starts s s3" by auto
  ultimately show ?case using s1(1) starts_trans [OF st1] by (simp add: Let_def)
qed simp

definition expired :: "daemon \<Rightarrow> nat \<Rightarrow> bool" where
  "expired s a \<longleftrightarrow> \<not> dt_is_in_effect (dt_heap s a) \<and> dt_end_time (dt_heap s a) \<le> clock s"

lemma expire_each_spec:
  assumes "dt_inv {} s" "set todo \<subseteq> set (scheduled_downtime_list s)" "distinct todo"
  shows "\<exists>s'. expire_each todo s = Some (OK, s') \<and> dt_inv {} s' \<and> dt_keeps s s' \<and> dt_heap s' = dt_heap s
    \<and> scheduled_downtime_list s' = filter (\<lambda>b. \<not> (b \<in> set todo \<and> expired s b)) (scheduled_downtime_list s)"
  using assms
proof (induction todo arbitrary: s)
  case (Cons a rest)
  let ?d = "dt_heap s a"
  show ?case
  proof (cases "expired s a")
    case False
    with Cons.IH [OF Cons.prems(1)] Cons.prems obtain s' where
      s': "expire_each rest s = Some (OK, s')" "dt_inv {} s'" "dt_keeps s s'" "dt_heap s' = dt_heap s"
      "scheduled_downtime_list s' = filter (\<lambda>b. \<not> (b \<in> set rest \<and> expired s b)) (scheduled_downtime_list s)" by auto
    have "(\<not> (b \<in> set (a # rest) \<and> expired s b)) = (\<not> (b \<in> set rest \<and> expired s b))" for b
      using False by auto
    with s' False show ?thesis by (auto simp: Let_def expired_def)
  next
    case True
    have a: "a \<in> set (scheduled_downtime_list s)" using Cons.prems(2) by simp
    obtain t where t: "downtime_target s ?d = Some t" using downtime_target_some [OF dt_invD(1) [OF Cons.prems(1)] a] by blast
    have "downtime_type NOTIFICATION_DOWNTIMEEND" by (simp add: downtime_type_def)
    from dt_inv_notify [OF Cons.prems(1) this, of t] obtain s1 where
      s1: "notify_target t NOTIFICATION_DOWNTIMEEND s = Some s1" "dt_inv {} s1" "quiet s s1" by blast
    note q = quiet_list [OF s1(3)]
    have "dt_inv {a} s1" using dt_inv_idle [OF s1(2), of a] True q by (simp add: expired_def)
    from delete_own_spec [OF this] a q obtain s2 where
      s2: "delete_own s1 (dt_type ?d) (dt_id ?d) = Some s2" "dt_inv {} s2" "dt_keeps s1 s2"
      "scheduled_downtime_list s2 = filter (\<lambda>b. b \<noteq> a) (scheduled_downtime_list s)" "dt_heap s2 = dt_heap s" by auto
    have keeps: "dt_keeps s s2" by (rule dt_keeps_trans [OF quiet_keeps [OF s1(3)] s2(3)])
    then have exp: "expired s2 b = expired s b" for b by (simp add: expired_def s2(5) dt_keeps_def)
    from Cons.IH [OF s2(2)] Cons.prems s2(4) obtain s3 where
      s3: "expire_each rest s2 = Some (OK, s3)" "dt_inv {} s3" "dt_keeps s2 s3" "dt_heap s3 = dt_heap s2"
      "scheduled_downtime_list s3 = filter (\<lambda>b. \<not> (b \<in> set rest \<and> expired s b)) (scheduled_downtime_list s2)"
      by (auto simp: exp)
    have "expire_each (a # rest) s = Some (OK, s3)"
      using True t s1(1) s2(1) s3(1) by (simp add: Let_def expired_def)
    moreover have "(b \<noteq> a \<and> \<not> (b \<in> set rest \<and> expired s b)) = (\<not> (b \<in> set (a # rest) \<and> expired s b))" for b
      using True by auto
    then have "scheduled_downtime_list s3 =
        filter (\<lambda>b. \<not> (b \<in> set (a # rest) \<and> expired s b)) (scheduled_downtime_list s)"
      unfolding s3(5) s2(4) filter_filter by simp
    ultimately show ?thesis using s3(2-4) s2(5) dt_keeps_trans [OF keeps s3(3)] by auto
  qed
qed simp

lemma unschedule_downtime_spec:
  assumes "dt_inv {} s" "a \<in> set (scheduled_downtime_list s)" "ty = ANY_DOWNTIME \<or> ty = dt_type (dt_heap s a)"
  shows "\<exists>s'. unschedule_downtime s ty (dt_id (dt_heap s a)) = Some (OK, s') \<and> dt_inv {} s' \<and> dt_keeps s s'
    \<and> dt_heap s' = dt_heap s \<and> scheduled_downtime_list s' =
      filter (\<lambda>b. b \<noteq> a \<and> \<not> below s (dt_id (dt_heap s a)) b) (scheduled_downtime_list s)"
proof -
  let ?j = "dt_id (dt_heap s a)"
  from unschedule_one_spec [OF assms(1,2) _ assms(3)] obtain s1 where
    s1: "unschedule_one s ty ?j = Some (OK, s1)" "dt_inv {} s1" "dt_keeps s s1"
    "scheduled_downtime_list s1 = filter (\<lambda>b. b \<noteq> a) (scheduled_downtime_list s)" "dt_heap s1 = dt_heap s" by auto
  from unschedule_triggered_spec [OF s1(2), of ?j] obtain s2 where
    s2: "unschedule_triggered s1 ?j = Some s2" "dt_inv {} s2" "dt_keeps s1 s2" "dt_heap s2 = dt_heap s1"
    "scheduled_downtime_list s2 = filter (\<lambda>b. \<not> below s1 ?j b) (scheduled_downtime_list s1)" by auto
  have "scheduled_downtime_list s2 = filter (\<lambda>b. b \<noteq> a \<and> \<not> below s ?j b) (scheduled_downtime_list s)"
    unfolding s2(5) s1(4) below_without [OF dt_invD(1) [OF assms(1)] assms(2) s1(5,4)]
    by (simp add: filter_filter conj_commute)
  with s1 s2 show ?thesis by (auto simp: unschedule_downtime_def intro: dt_keeps_trans)
qed

lemma unschedule_downtime_total:
  assumes "dt_inv {} s"
  shows "\<exists>r s'. unschedule_downtime s ty i = Some (r, s') \<and> dt_inv {} s'"
proof (cases rule: find_downtime_cases [OF dt_invD(1) [OF assms], of i ty, case_names found absent])
  case (found a)
  show ?thesis
  proof (cases "ty = ANY_DOWNTIME \<or> ty = dt_type (dt_heap s a)")
    case True
    from unschedule_downtime_spec [OF assms found(1) True] found(2) show ?thesis by auto
  next
    case False
    with found(3) assms show ?thesis by (simp add: unschedule_downtime_def unschedule_one_def)
  qed
next
  case absent
  with assms show ?thesis by (simp add: unschedule_downtime_def unschedule_one_def)
qed

lemma unschedule_each_total: "dt_inv {} s \<Longrightarrow> \<exists>s'. unschedule_each ms s = Some s' \<and> dt_inv {} s'"
proof (induction ms arbitrary: s)
  case (Cons m ms)
  obtain ty i where m: "m = (ty, i)" by fastforce
  from unschedule_downtime_total [OF Cons.prems, of ty i] obtain r s1 where
    "unschedule_downtime s ty i = Some (r, s1)" "dt_inv {} s1" by blast
  with Cons.IH [of s1] show ?case by (simp add: m)
qed simp

end
