(* ===== verification/DowntimeRuns.thy ===== *)
theory DowntimeRuns
  imports DowntimeSafety
begin

text \<open>
  Scheduling keeps the invariant of downtimes, so every operation on them does, whatever the order in
  which commands, events and check results come; and the properties of the single handlers.
\<close>

section \<open>Registering\<close>

lemma dt_inv_starts:
  assumes "dt_inv X s" "starts s s'" "\<And>t. target_depth t s' = target_depth t s"
    "\<And>b. dt_is_in_effect (dt_heap s' b) = dt_is_in_effect (dt_heap s b)"
  shows "dt_inv X s'"
proof -
  have "in_effect_at s' t = in_effect_at s t" for t
    by (auto simp: in_effect_at_def startsD(2,6) [OF assms(2)] assms(4))
  then have "depth_ok X s'" using dt_invD(4) [OF assms(1)] by (simp add: depth_ok_def assms(3))
  with starts_wf [OF dt_invD(1) [OF assms(1)] assms(2)] dt_invD [OF assms(1)] assms(2) show ?thesis
    by (simp add: dt_inv_def parents_set_def starts_def dt_keeps_def)
qed

text \<open>What registering leaves of the list: the entries but for their bookkeeping.\<close>

definition registers :: "daemon \<Rightarrow> daemon \<Rightarrow> bool" where
  "registers s s' \<longleftrightarrow> dt_keeps s s' \<and> scheduled_downtime_list s' = scheduled_downtime_list s
    \<and> dt_inv {} s' \<and> (\<forall>b. same_entry (dt_heap s' b) (dt_heap s b)
      \<and> dt_is_in_effect (dt_heap s' b) = dt_is_in_effect (dt_heap s b))"

lemma registers_trans: "registers s s' \<Longrightarrow> registers s' s'' \<Longrightarrow> registers s s''"
  by (auto simp: registers_def same_entry_def intro: dt_keeps_trans)

lemma registers_quiet: "dt_inv {} s \<Longrightarrow> quiet s s' \<Longrightarrow> registers s s'"
  using dt_inv_quiet by (auto simp: registers_def quiet_def)

lemma registers_upd_dt:
  assumes "dt_inv {} s" "same_entry (f (dt_heap s a)) (dt_heap s a)"
    "dt_is_in_effect (f (dt_heap s a)) = dt_is_in_effect (dt_heap s a)"
  shows "registers s (upd_dt a f s)"
  using dt_inv_upd_dt [where f = f and a = a and s = s and X = "{}", OF assms] assms(2,3)
  by (auto simp: registers_def same_entry_def)

lemma register_event:
  assumes "dt_inv {} s" "quiet s s1"
    "\<And>ev d. same_entry (f ev d) d" "\<And>ev d. dt_is_in_effect (f ev d) = dt_is_in_effect d"
  shows "registers s (case schedule_new_event ty p tm data opts s1 of (ev, s2) \<Rightarrow> upd_dt a (f ev) s2)"
proof -
  obtain ev s2 where s2: "schedule_new_event ty p tm data opts s1 = (ev, s2)" by fastforce
  then have q: "quiet s s2" using quiet_trans [OF assms(2) schedule_new_event_quiet] by (metis snd_conv)
  have "registers s2 (upd_dt a (f ev) s2)"
    by (rule registers_upd_dt [OF dt_inv_quiet [OF assms(1) q]]) (simp_all add: assms(3,4))
  with registers_quiet [OF assms(1) q] s2 show ?thesis by (auto intro: registers_trans)
qed

lemma register_flexible_registers: "dt_inv {} s \<Longrightarrow> registers s (register_flexible t a s)"
  unfolding register_flexible_def Let_def
  by (rule register_event [where f = "\<lambda>ev d. d\<lparr>dt_incremented_pending_downtime := True, dt_stop_event := Some ev\<rparr>"])
    (simp_all add: quiet_intros same_entry_def)

lemma register_start_event_registers: "dt_inv {} s \<Longrightarrow> registers s (register_start_event a s)"
  unfolding register_start_event_def Let_def
  by (rule register_event [where f = "\<lambda>ev d. d\<lparr>dt_flex_downtime_start := effective_start s (dt_heap s a), dt_start_event := Some ev\<rparr>"])
    (simp_all add: same_entry_def)

lemma register_comment_registers:
  assumes "dt_inv {} s" "\<not> dt_is_in_effect (dt_heap s a)" "downtime_target s (dt_heap s a) = Some t"
    "dt_type (dt_heap s a) = HOST_DOWNTIME \<or> dt_type (dt_heap s a) = SERVICE_DOWNTIME"
  shows "registers s (register_comment t a words s)"
proof -
  let ?d = "dt_heap s a"
  define kind where "kind = (if dt_type ?d = SERVICE_DOWNTIME then SERVICE_COMMENT else HOST_COMMENT)"
  obtain hn desc where names: "target_names t s = (hn, desc)" by fastforce
  have kind: "kind = HOST_COMMENT \<or> kind = SERVICE_COMMENT" "kind = SERVICE_COMMENT \<longrightarrow> desc \<noteq> None"
    using assms(3) names by (cases t; auto simp: kind_def downtime_target_def split: if_splits)+
  define author where "author = (case dt_author ?d of None \<Rightarrow> ''(Nagios Process)'' | Some au \<Rightarrow> au)"
  obtain cid cm where
    cm: "add_new_comment True (comments s) kind DOWNTIME_COMMENT (Some hn) desc (dt_entry_time ?d) (Some author)
      (Some words) False 0 False 0 = (OK, cid, cm, None)" "cm_wf cm"
    using add_new_comment_spec [OF dt_invD(2) [OF assms(1)] kind, of DOWNTIME_COMMENT hn "dt_entry_time ?d" author words False 0 False 0]
    by (simp only: if_False) blast
  let ?s1 = "s\<lparr>comments := cm\<rparr>"
  have depth: "target_depth u ?s1 = target_depth u s" for u by (cases u) simp_all
  have keeps: "dt_keeps s ?s1" by (simp add: dt_keeps_def)
  have "dl_wf ?s1" by (rule dl_wf_frame [OF dt_invD(1) [OF assms(1)]]) simp_all
  moreover have "in_effect_at ?s1 = in_effect_at s"
    by (simp add: fun_eq_iff in_effect_at_def downtime_target_frame [OF keeps])
  ultimately have inv: "dt_inv {} ?s1"
    using assms(1) cm(2) depth by (simp add: dt_inv_def depth_ok_def parents_set_def)
  have "registers ?s1 (upd_dt a (\<lambda>d. d\<lparr>dt_comment_id := cid, dt_is_in_effect := False\<rparr>) ?s1)"
    by (rule registers_upd_dt [OF inv]) (use assms(2) in \<open>simp_all add: same_entry_def\<close>)
  moreover have "registers s ?s1" using inv keeps by (simp add: registers_def)
  moreover have "register_comment t a words s = upd_dt a (\<lambda>d. d\<lparr>dt_comment_id := cid, dt_is_in_effect := False\<rparr>) ?s1"
    using names cm(1) unfolding register_comment_def Let_def kind_def [symmetric] author_def [symmetric] by simp
  ultimately show ?thesis by (auto intro: registers_trans)
qed

lemma downtime_text_some: "dt_duration d < 2 ^ 31 \<Longrightarrow> \<exists>txt. downtime_text s d = Some txt"
proof -
  assume d: "dt_duration d < 2 ^ 31"
  then have "int (dt_duration d) < 2 ^ 31" by simp
  then have bound: "0 \<le> int (dt_duration d) div 3600" "int (dt_duration d) div 3600 * 3600 < 2 ^ 31"
    by (simp, linarith)
  then have "signed_take_bit 31 (int (dt_duration d) div 3600) = int (dt_duration d) div 3600"
    by (intro signed_take_bit_int_eq_self) linarith+
  with bound show ?thesis by (simp add: downtime_text_def Let_def)
qed

lemma register_downtime_spec:
  assumes "dt_inv {} s" "a \<in> set (scheduled_downtime_list s)" "ty = ANY_DOWNTIME \<or> ty = dt_type (dt_heap s a)"
    "\<not> dt_is_in_effect (dt_heap s a)" "dt_duration (dt_heap s a) < 2 ^ 31"
  shows "\<exists>s'. register_downtime s ty (dt_id (dt_heap s a)) = Some (OK, s') \<and> registers s s'"
proof -
  let ?d = "dt_heap s a"
  note wf = dt_invD(1) [OF assms(1)]
  obtain t where t: "downtime_target s ?d = Some t" using downtime_target_some [OF wf assms(2)] by blast
  obtain words where words: "downtime_text s ?d = Some words" using downtime_text_some [OF assms(5)] by blast
  have kind: "dt_type ?d = HOST_DOWNTIME \<or> dt_type ?d = SERVICE_DOWNTIME"
    using dl_wfD(3) [OF wf assms(2)] by (auto simp: dl_entry_ok_def Let_def split: if_splits)
  define s1 where "s1 = register_comment t a words s"
  define s2 where "s2 = (if \<not> dt_fixed ?d then register_flexible t a s1 else s1)"
  have s1: "registers s s1" unfolding s1_def by (rule register_comment_registers [OF assms(1,4) t kind])
  then have inv1: "dt_inv {} s1" by (simp add: registers_def)
  have s2: "registers s s2"
    using s1 registers_trans [OF s1 register_flexible_registers [OF inv1]] by (simp add: s2_def)
  then have inv2: "dt_inv {} s2" by (simp add: registers_def)
  obtain trigger where trigger:
    "(if dt_triggered_by ?d \<noteq> 0 then find_downtime s2 ANY_DOWNTIME (dt_triggered_by ?d) else Some None) = Some trigger"
    using find_downtime_total [OF dt_invD(1) [OF inv2], of ANY_DOWNTIME "dt_triggered_by ?d"] by fastforce
  have found: "find_downtime s ty (dt_id ?d) = Some (Some a)" using find_downtime_listed [OF wf assms(2)] assms(3) by auto
  have idle: "(\<not> dt_fixed ?d \<and> \<not> dt_is_in_effect ?d) = (\<not> dt_fixed ?d)"
    "(dt_triggered_by ?d \<noteq> 0 \<and> \<not> dt_is_in_effect ?d) = (dt_triggered_by ?d \<noteq> 0)" using assms(4) by simp_all
  obtain E where "register_downtime s ty (dt_id ?d) =
      ((if dt_triggered_by ?d \<noteq> 0 then find_downtime s2 ANY_DOWNTIME (dt_triggered_by ?d) else Some None) \<bind>
        (\<lambda>trigger. Some (OK, if E trigger then register_start_event a s2 else s2)))"
    by (rule that, unfold register_downtime_def found t words bind.bind_lunit option.case Let_def idle s2_def s1_def, rule refl)
  then have "register_downtime s ty (dt_id ?d) = Some (OK, if E trigger then register_start_event a s2 else s2)"
    by (simp only: trigger bind.bind_lunit)
  with s2 registers_trans [OF s2 register_start_event_registers [OF inv2]] show ?thesis by (cases "E trigger") simp_all
qed

section \<open>Adding\<close>

lemma dt_inv_add:
  assumes "dt_inv {} s" "dl_wf s'" "comments s' = comments s" "hosts s' = hosts s" "svcs s' = svcs s"
    "host_table s' = host_table s" "service_table s' = service_table s"
    and heap: "\<And>b. b \<in> set (scheduled_downtime_list s) \<Longrightarrow> dt_heap s' b = dt_heap s b"
    and ls: "\<And>b. b \<in> set (scheduled_downtime_list s') \<and> dt_is_in_effect (dt_heap s' b)
      \<longleftrightarrow> b \<in> set (scheduled_downtime_list s) \<and> dt_is_in_effect (dt_heap s b)"
  shows "dt_inv {} s'"
proof -
  have "find_host s' = find_host s" "find_service s' = find_service s"
    by (rule find_host_frame find_service_frame; use assms(6,7) in simp)+
  then have "downtime_target s' = downtime_target s" by (simp add: fun_eq_iff downtime_target_def)
  then have "b \<in> in_effect_at s' t \<longleftrightarrow> b \<in> in_effect_at s t" for b t
    using heap [of b] ls [of b] by (auto simp: in_effect_at_def)
  then have "in_effect_at s' = in_effect_at s" by (simp add: fun_eq_iff set_eq_iff)
  moreover have "target_depth t s' = target_depth t s" for t by (cases t) (simp_all add: assms(4,5))
  ultimately show ?thesis using assms(1,2,3,5) by (simp add: dt_inv_def depth_ok_def parents_set_def)
qed

lemma dl_wf_next_id: "dl_wf s \<Longrightarrow> next_downtime_id s \<le> n \<Longrightarrow> dl_wf (s\<lparr>next_downtime_id := n\<rparr>)"
  by (auto simp: dl_wf_def intro: dl_entry_ok_frame)

lemma add_downtime_spec:
  assumes "dt_inv {} s" "0 \<le> st" "st < 2 ^ 31" "ty = SERVICE_DOWNTIME \<longrightarrow> d \<noteq> None"
    and "0 < i" "\<forall>b \<in> set (scheduled_downtime_list s). dt_id (dt_heap s b) < i"
  shows "\<exists>s'. add_downtime s ty (Some h) d et au co st fs en fx tr du i False sent =
      Some (if add_error s (entry ty h d et au co st fs en fx tr du i False sent) = OK then OK else ERROR, s')
    \<and> dt_inv {} s' \<and> clock s' = clock s
    \<and> (if add_error s (entry ty h d et au co st fs en fx tr du i False sent) = OK
       then \<exists>a. mset (scheduled_downtime_list s') = add_mset a (mset (scheduled_downtime_list s))
         \<and> dt_heap s' a = entry ty h d et au co st fs en fx tr du i False sent
       else scheduled_downtime_list s' = scheduled_downtime_list s)
    \<and> (\<forall>b \<in> set (scheduled_downtime_list s). dt_heap s' b = dt_heap s b)"
proof -
  define e where "e = entry ty h d et au co st fs en fx tr du i False sent"
  define a where "a = next_dt_addr s"
  note old = next_dt_addr_unused [OF dt_invD(1) [OF assms(1)]]
  let ?s = "new_cell e s"
  have wf: "dl_wf ?s" and err: "add_error ?s e = add_error s e" using new_cell_wf [OF dt_invD(1) [OF assms(1)]] by simp_all
  have run: "add_downtime s ty (Some h) d et au co st fs en fx tr du i False sent =
      (downtime_add ?s a \<bind> (\<lambda>(r, s'). Some (if r \<noteq> 0 then ERROR else OK, s')))"
    unfolding a_def e_def by (rule add_downtime_run [OF assms(4)])
  have cell: "dt_heap ?s a = e" "dt_id e = i" by (simp_all add: new_cell_def e_def entry_def a_def)
  have heap: "dt_heap ?s b = dt_heap s b" if "b \<in> set (scheduled_downtime_list s)" for b
    using old [OF that] by (simp add: new_cell_def)
  show ?thesis
  proof (cases "add_error s e = OK")
    case False
    have "downtime_add ?s a = Some (add_error s e, ?s)"
      using downtime_check_spec [OF wf, of a] False by (simp add: downtime_add_def cell err)
    moreover have "dt_inv {} ?s"
      by (rule dt_inv_add [OF assms(1) wf]) (use heap old [of "next_dt_addr s"] in \<open>auto simp: new_cell_def\<close>)
    ultimately show ?thesis using run False heap by (auto simp: new_cell_def simp flip: e_def)
  next
    case True
    then have "dt_triggered_by e = 0 \<or> (\<exists>b \<in> set (scheduled_downtime_list s). dt_id (dt_heap s b) = dt_triggered_by e)"
      by (auto simp: add_error_def Let_def split: if_splits)
    then have "dt_triggered_by e < i" using assms(5,6) by fastforce
    then have fresh: "dl_fresh ?s a" unfolding a_def
      by (intro new_cell_fresh [OF dt_invD(1) [OF assms(1)]])
        (use assms(2,3,6) cell(2) in \<open>auto simp: e_def entry_def sane_start_def\<close>)
    from downtime_add_spec [OF wf fresh, unfolded cell err] True assms(5) obtain s' fo ls where
      s': "downtime_add ?s a = Some (OK, s')" "dl_wf s'"
      "s' = ?s\<lparr>dt_heap := (dt_heap ?s)(a := e\<lparr>dt_id := i\<rparr>), dt_fanout := fo,
         next_downtime_id := max (next_downtime_id ?s) (i + 1), scheduled_downtime_list := ls\<rparr>"
      "mset ls = add_mset a (mset (scheduled_downtime_list ?s))" by auto
    have e: "dt_heap s' a = e" by (simp add: s'(3) e_def entry_def)
    have heap': "dt_heap s' b = dt_heap s b" if "b \<in> set (scheduled_downtime_list s)" for b
      using old [OF that] by (simp add: s'(3) heap [OF that] a_def)
    have "scheduled_downtime_list s' = ls" by (simp add: s'(3))
    moreover from s'(4) have list': "mset ls = add_mset a (mset (scheduled_downtime_list s))"
      by (simp add: new_cell_def)
    ultimately have set': "set (scheduled_downtime_list s') = insert a (set (scheduled_downtime_list s))"
      by (metis set_mset_add_mset_insert set_mset_mset)
    have "dt_inv {} s'"
    proof (rule dt_inv_add [OF assms(1) s'(2) _ _ _ _ _ heap'])
      show "b \<in> set (scheduled_downtime_list s') \<and> dt_is_in_effect (dt_heap s' b)
        \<longleftrightarrow> b \<in> set (scheduled_downtime_list s) \<and> dt_is_in_effect (dt_heap s b)" for b
        using heap' [of b] e by (auto simp: set' e_def entry_def)
    qed (simp_all add: s'(3) new_cell_def)
    moreover have "clock s' = clock s" by (simp add: s'(3) new_cell_def)
    moreover have "add_downtime s ty (Some h) d et au co st fs en fx tr du i False sent = Some (OK, s')"
      using run s'(1) by simp
    ultimately show ?thesis unfolding e_def [symmetric] using True e heap' list' \<open>scheduled_downtime_list s' = ls\<close>
      by (intro exI [of _ s']) auto
  qed
qed

section \<open>Scheduling\<close>

text \<open>The entry that is added for a downtime.\<close>

definition new_entry :: "daemon \<Rightarrow> nat \<Rightarrow> string \<Rightarrow> string option \<Rightarrow> int \<Rightarrow> string option \<Rightarrow> string option
    \<Rightarrow> int \<Rightarrow> int \<Rightarrow> bool \<Rightarrow> nat \<Rightarrow> nat \<Rightarrow> scheduled_downtime" where
  "new_entry s ty h d et au co st en fx tr du =
    entry ty h d et au co st 0 en fx tr du (next_downtime_id s) False False"

lemma dl_wf_ids: "dl_wf s \<Longrightarrow> 0 < next_downtime_id s"
  "dl_wf s \<Longrightarrow> b \<in> set (scheduled_downtime_list s) \<Longrightarrow> 0 < dt_id (dt_heap s b) \<and> dt_id (dt_heap s b) < next_downtime_id s"
  using dl_wfD(3) [of s b] by (simp_all add: dl_wf_def dl_entry_ok_def Let_def)

lemma add_error_next_id: "add_error (s\<lparr>next_downtime_id := n\<rparr>) e = add_error s e"
proof -
  have "find_host (s\<lparr>next_downtime_id := n\<rparr>) = find_host s" "find_service (s\<lparr>next_downtime_id := n\<rparr>) = find_service s"
    by (rule find_host_frame find_service_frame; simp)+
  then show ?thesis by (simp add: add_error_def)
qed

lemma add_new_downtime_spec:
  assumes "dt_inv {} s" "0 \<le> st" "st < 2 ^ 31" "ty = HOST_DOWNTIME \<or> ty = SERVICE_DOWNTIME \<and> d \<noteq> None"
  shows "\<exists>s'. add_new_downtime s ty (Some h) d et au co st en fx tr du False False =
      Some (if add_error s (new_entry s ty h d et au co st en fx tr du) = OK then OK else ERROR, next_downtime_id s, s')
    \<and> dt_inv {} s' \<and> clock s' = clock s
    \<and> (if add_error s (new_entry s ty h d et au co st en fx tr du) = OK
       then \<exists>a. mset (scheduled_downtime_list s') = add_mset a (mset (scheduled_downtime_list s))
         \<and> dt_heap s' a = new_entry s ty h d et au co st en fx tr du
       else scheduled_downtime_list s' = scheduled_downtime_list s)
    \<and> (\<forall>b \<in> set (scheduled_downtime_list s). dt_heap s' b = dt_heap s b)"
proof -
  let ?s = "s\<lparr>next_downtime_id := Suc (next_downtime_id s)\<rparr>" and ?i = "next_downtime_id s"
  note wf = dt_invD(1) [OF assms(1)]
  have same: "scheduled_downtime_list ?s = scheduled_downtime_list s" "dt_heap ?s = dt_heap s" "clock ?s = clock s"
    by simp_all
  have inv: "dt_inv {} ?s"
    by (rule dt_inv_add [OF assms(1) dl_wf_next_id [OF wf]]) simp_all
  define d' where "d' = (if ty = HOST_DOWNTIME then None else d)"
  have entry': "entry ty h d' = entry ty h d" by (auto simp: fun_eq_iff entry_def d'_def)
  have run: "add_new_downtime s ty (Some h) d et au co st en fx tr du False False =
      (add_downtime ?s ty (Some h) d' et au co st 0 en fx tr du ?i False False \<bind> (\<lambda>(r, s'). Some (r, ?i, s')))"
    using assms(4) get_next_downtime_id_spec [OF wf]
    by (auto simp: d'_def add_new_downtime_def add_new_host_downtime_def add_new_service_downtime_def
      add_host_downtime_def add_service_downtime_def)
  have "ty = SERVICE_DOWNTIME \<longrightarrow> d' \<noteq> None" "0 < ?i" "\<forall>b \<in> set (scheduled_downtime_list ?s). dt_id (dt_heap ?s b) < ?i"
    using assms(4) dl_wf_ids [OF wf] by (auto simp: d'_def)
  from add_downtime_spec [OF inv assms(2,3) this, of h et au co 0 en fx tr du False,
      unfolded entry' add_error_next_id same, folded new_entry_def]
  obtain s' where "add_downtime ?s ty (Some h) d' et au co st 0 en fx tr du ?i False False =
      Some (if add_error s (new_entry s ty h d et au co st en fx tr du) = OK then OK else ERROR, s')"
    and rest: "dt_inv {} s'" "clock s' = clock s"
      "if add_error s (new_entry s ty h d et au co st en fx tr du) = OK
       then \<exists>a. mset (scheduled_downtime_list s') = add_mset a (mset (scheduled_downtime_list s))
         \<and> dt_heap s' a = new_entry s ty h d et au co st en fx tr du
       else scheduled_downtime_list s' = scheduled_downtime_list s"
      "\<forall>b \<in> set (scheduled_downtime_list s). dt_heap s' b = dt_heap s b" by blast
  then have "add_new_downtime s ty (Some h) d et au co st en fx tr du False False =
      Some (if add_error s (new_entry s ty h d et au co st en fx tr du) = OK then OK else ERROR, ?i, s')"
    by (simp add: run)
  with rest show ?thesis by blast
qed

lemma register_downtime_total:
  assumes "dt_inv {} s" "\<And>b. b \<in> set (scheduled_downtime_list s) \<Longrightarrow> dt_id (dt_heap s b) = i
    \<Longrightarrow> \<not> dt_is_in_effect (dt_heap s b) \<and> dt_duration (dt_heap s b) < 2 ^ 31"
  shows "\<exists>r s'. register_downtime s ty i = Some (r, s') \<and> registers s s'"
proof (cases rule: find_downtime_cases [OF dt_invD(1) [OF assms(1)], of i ty, case_names found absent])
  case (found a)
  show ?thesis
  proof (cases "ty = ANY_DOWNTIME \<or> ty = dt_type (dt_heap s a)")
    case True
    from register_downtime_spec [OF assms(1) found(1) True] assms(2) [OF found(1,2)] found(2) show ?thesis by auto
  next
    case False
    with found(3) registers_quiet [OF assms(1) quiet_refl] show ?thesis by (simp add: register_downtime_def)
  qed
next
  case absent
  with registers_quiet [OF assms(1) quiet_refl] show ?thesis by (simp add: register_downtime_def)
qed

text \<open>The entry that was added is not in effect yet.\<close>

lemma add_new_downtime_idle:
  assumes "dt_inv {} s" "0 \<le> st" "st < 2 ^ 31" "ty = HOST_DOWNTIME \<or> ty = SERVICE_DOWNTIME \<and> d \<noteq> None" "du < 2 ^ 31"
  shows "\<exists>s1. add_new_downtime s ty (Some h) d et au co st en fx tr du False False =
      Some (if add_error s (new_entry s ty h d et au co st en fx tr du) = OK then OK else ERROR, next_downtime_id s, s1)
    \<and> dt_inv {} s1
    \<and> (if add_error s (new_entry s ty h d et au co st en fx tr du) = OK
       then \<exists>a. mset (scheduled_downtime_list s1) = add_mset a (mset (scheduled_downtime_list s))
         \<and> dt_heap s1 a = new_entry s ty h d et au co st en fx tr du
       else scheduled_downtime_list s1 = scheduled_downtime_list s)
    \<and> (\<forall>b \<in> set (scheduled_downtime_list s1). dt_id (dt_heap s1 b) = next_downtime_id s
       \<longrightarrow> \<not> dt_is_in_effect (dt_heap s1 b) \<and> dt_duration (dt_heap s1 b) < 2 ^ 31)"
proof -
  define e where "e = new_entry s ty h d et au co st en fx tr du"
  from add_new_downtime_spec [OF assms(1-4), of h et au co en fx tr du] obtain s1 where
    s1: "add_new_downtime s ty (Some h) d et au co st en fx tr du False False =
      Some (if add_error s e = OK then OK else ERROR, next_downtime_id s, s1)" "dt_inv {} s1"
    and added: "if add_error s e = OK then \<exists>a. mset (scheduled_downtime_list s1) = add_mset a (mset (scheduled_downtime_list s))
         \<and> dt_heap s1 a = e else scheduled_downtime_list s1 = scheduled_downtime_list s"
    and heap: "\<forall>b \<in> set (scheduled_downtime_list s). dt_heap s1 b = dt_heap s b"
    unfolding e_def by blast
  note old = dl_wf_ids(2) [OF dt_invD(1) [OF assms(1)]]
  have "\<not> dt_is_in_effect (dt_heap s1 b) \<and> dt_duration (dt_heap s1 b) < 2 ^ 31"
    if b: "b \<in> set (scheduled_downtime_list s1)" "dt_id (dt_heap s1 b) = next_downtime_id s" for b
  proof -
    have new: "b \<notin> set (scheduled_downtime_list s)" using old [of b] heap b(2) by auto
    with added b(1) obtain a where a: "mset (scheduled_downtime_list s1) = add_mset a (mset (scheduled_downtime_list s))"
      "dt_heap s1 a = e" by (auto split: if_splits)
    have "b = a" using arg_cong [OF a(1), of set_mset] b(1) new by auto
    with a(2) assms(5) show ?thesis by (simp add: e_def new_entry_def entry_def)
  qed
  with s1 added show ?thesis unfolding e_def by blast
qed

text \<open>With the names a command gives.\<close>

lemma schedule_downtime_spec:
  assumes "dt_inv {} s" "0 \<le> st" "st < 2 ^ 31" "ty = HOST_DOWNTIME \<or> ty = SERVICE_DOWNTIME \<and> d \<noteq> None" "du < 2 ^ 31"
    and "st < en" "clock s < en"
  shows "\<exists>s'. schedule_downtime s ty (Some h) d et au co st en fx tr du = Some (OK, next_downtime_id s, s') \<and> dt_inv {} s'
    \<and> (if add_error s (new_entry s ty h d et au co st en fx tr du) = OK
       then \<exists>a. mset (scheduled_downtime_list s') = add_mset a (mset (scheduled_downtime_list s))
         \<and> same_entry (dt_heap s' a) (new_entry s ty h d et au co st en fx tr du)
         \<and> \<not> dt_is_in_effect (dt_heap s' a)
       else scheduled_downtime_list s' = scheduled_downtime_list s)"
proof -
  define e where "e = new_entry s ty h d et au co st en fx tr du"
  from add_new_downtime_idle [OF assms(1-5), of h et au co en fx tr] obtain s1 where
    s1: "add_new_downtime s ty (Some h) d et au co st en fx tr du False False =
      Some (if add_error s e = OK then OK else ERROR, next_downtime_id s, s1)" "dt_inv {} s1"
    and added: "if add_error s e = OK then \<exists>a. mset (scheduled_downtime_list s1) = add_mset a (mset (scheduled_downtime_list s))
         \<and> dt_heap s1 a = e else scheduled_downtime_list s1 = scheduled_downtime_list s"
    and idle: "\<forall>b \<in> set (scheduled_downtime_list s1). dt_id (dt_heap s1 b) = next_downtime_id s
       \<longrightarrow> \<not> dt_is_in_effect (dt_heap s1 b) \<and> dt_duration (dt_heap s1 b) < 2 ^ 31"
    unfolding e_def by blast
  from register_downtime_total [OF s1(2), of "next_downtime_id s" ty] idle obtain r s' where
    s': "register_downtime s1 ty (next_downtime_id s) = Some (r, s')" "registers s1 s'" by blast
  then have "scheduled_downtime_list s' = scheduled_downtime_list s1" "\<And>b. same_entry (dt_heap s' b) (dt_heap s1 b)" "dt_inv {} s'"
    "\<And>b. dt_is_in_effect (dt_heap s' b) = dt_is_in_effect (dt_heap s1 b)"
    by (simp_all add: registers_def)
  moreover have "\<not> dt_is_in_effect e" by (simp add: e_def new_entry_def entry_def)
  moreover have "schedule_downtime s ty (Some h) d et au co st en fx tr du = Some (OK, next_downtime_id s, s')"
    using s1(1) s'(1) assms(6,7) by (simp add: schedule_downtime_def)
  ultimately show ?thesis unfolding e_def [symmetric] using added by (intro exI [of _ s']) (auto split: if_splits; metis)
qed

text \<open>With any arguments: a type the code does not know counts as a service until it is registered.\<close>

lemma schedule_downtime_total:
  assumes "dt_inv {} s" "0 \<le> st" "st < 2 ^ 31" "du < 2 ^ 31"
  shows "\<exists>r i s'. schedule_downtime s ty hn d et au co st en fx tr du = Some (r, i, s') \<and> dt_inv {} s'"
proof (cases "st \<ge> en \<or> en \<le> clock s")
  case True
  with assms(1) show ?thesis by (simp add: schedule_downtime_def)
next
  case False
  have added: "\<exists>r i s1. add_new_downtime s ty hn d et au co st en fx tr du False False = Some (r, i, s1) \<and> dt_inv {} s1
    \<and> (\<forall>b \<in> set (scheduled_downtime_list s1). dt_id (dt_heap s1 b) = i
       \<longrightarrow> \<not> dt_is_in_effect (dt_heap s1 b) \<and> dt_duration (dt_heap s1 b) < 2 ^ 31)"
  proof (cases "hn = None \<or> ty \<noteq> HOST_DOWNTIME \<and> d = None")
    case True
    then have "add_new_downtime s ty hn d et au co st en fx tr du False False = Some (ERROR, 0, s)"
      by (auto simp: add_new_downtime_def add_new_host_downtime_def add_new_service_downtime_def)
    with assms(1) dl_wf_ids(2) [OF dt_invD(1) [OF assms(1)]] show ?thesis by fastforce
  next
    case False
    then obtain h where h: "hn = Some h" by auto
    define kind where "kind = (if ty = HOST_DOWNTIME then HOST_DOWNTIME else SERVICE_DOWNTIME)"
    have "kind = HOST_DOWNTIME \<or> kind = SERVICE_DOWNTIME \<and> d \<noteq> None" using False by (auto simp: kind_def)
    from add_new_downtime_idle [OF assms(1-3) this assms(4), of h et au co en fx tr]
    obtain r i s1 where "add_new_downtime s kind hn d et au co st en fx tr du False False = Some (r, i, s1)" "dt_inv {} s1"
      "\<forall>b \<in> set (scheduled_downtime_list s1). dt_id (dt_heap s1 b) = i
       \<longrightarrow> \<not> dt_is_in_effect (dt_heap s1 b) \<and> dt_duration (dt_heap s1 b) < 2 ^ 31" unfolding h by blast
    moreover have "add_new_downtime s kind = add_new_downtime s ty" by (simp add: fun_eq_iff add_new_downtime_def kind_def)
    ultimately show ?thesis by metis
  qed
  then obtain r i s1 where s1: "add_new_downtime s ty hn d et au co st en fx tr du False False = Some (r, i, s1)" "dt_inv {} s1"
    "\<forall>b \<in> set (scheduled_downtime_list s1). dt_id (dt_heap s1 b) = i
       \<longrightarrow> \<not> dt_is_in_effect (dt_heap s1 b) \<and> dt_duration (dt_heap s1 b) < 2 ^ 31" by blast
  from register_downtime_total [OF s1(2), of i ty] s1(3) obtain r' s' where
    "register_downtime s1 ty i = Some (r', s')" "registers s1 s'" by blast
  with s1(1) False show ?thesis by (auto simp: schedule_downtime_def registers_def)
qed

section \<open>Sequences of operations\<close>

text \<open>The operations that are safe in a state: a downtime is scheduled with a start and a duration below \<open>2 ^ 31\<close>
  seconds, and downtimes are looked for by their comment only when all have one.  Otherwise the code compares with NULL,
  and the model has no result.\<close>

definition commented :: "daemon \<Rightarrow> bool" where
  "commented s \<longleftrightarrow> (\<forall>a \<in> set (scheduled_downtime_list s). dt_comment (dt_heap s a) \<noteq> None)"

fun op_ok :: "daemon \<Rightarrow> downtime_op \<Rightarrow> bool" where
  "op_ok s (Schedule ty hn sd et au co st en fx tr du) = (0 \<le> st \<and> st < 2 ^ 31 \<and> du < 2 ^ 31)"
| "op_ok s (Delete_by hn sd st co) = (co = None \<or> commented s)"
| "op_ok s _ = True"

lemma by_id_total:
  assumes "dt_inv {} s" "\<And>a. a \<in> set (scheduled_downtime_list s) \<Longrightarrow> \<exists>r s'. f a = Some (r, s') \<and> dt_inv {} s'"
  shows "\<exists>r s'. (find_downtime s ANY_DOWNTIME i \<bind> (\<lambda>x. case x of None \<Rightarrow> Some (ERROR, s) | Some a \<Rightarrow> f a)) = Some (r, s')
    \<and> dt_inv {} s'"
proof (cases rule: find_downtime_cases [OF dt_invD(1) [OF assms(1)], of i ANY_DOWNTIME, case_names found absent])
  case (found a)
  with assms(2) [OF found(1)] show ?thesis by simp
next
  case absent
  with assms(1) show ?thesis by simp
qed

lemma start_by_id_total:
  assumes "dt_inv {} s"
  shows "\<exists>r s'. handle_scheduled_downtime_start_by_id s i = Some (r, s') \<and> dt_inv {} s'"
  unfolding handle_scheduled_downtime_start_by_id_def
proof (rule by_id_total [OF assms])
  fix a assume a: "a \<in> set (scheduled_downtime_list s)"
  let ?s = "upd_dt a (\<lambda>d. d\<lparr>dt_start_event := None\<rparr>) s"
  have "dt_inv {} ?s" by (rule dt_inv_upd_dt [OF assms]) (simp_all add: same_entry_def)
  from handle_start_total [OF this, of a] a
  show "\<exists>r s'. handle_scheduled_downtime_start ?s a = Some (r, s') \<and> dt_inv {} s'" by auto
qed

lemma end_by_id_total:
  assumes "dt_inv {} s"
  shows "\<exists>r s'. handle_scheduled_downtime_end_by_id s i = Some (r, s') \<and> dt_inv {} s'"
  unfolding handle_scheduled_downtime_end_by_id_def
  by (rule by_id_total [OF assms]) (use handle_end_spec [OF assms] in blast)

lemma downtime_matches_total:
  assumes "dl_wf s" "a \<in> set (scheduled_downtime_list s)" "co = None \<or> commented s"
  shows "\<exists>b. downtime_matches hn sd st co (dt_heap s a) = Some b"
proof -
  let ?d = "dt_heap s a"
  have "find_host s x \<noteq> None \<Longrightarrow> x \<noteq> None" "find_service s x y \<noteq> None \<Longrightarrow> x \<noteq> None \<and> y \<noteq> None" for x y
    by (auto simp: find_host_def find_service_def split: option.splits)
  with dl_wfD(3) [OF assms(1,2)] have "dt_host_name ?d \<noteq> None" "dt_type ?d \<noteq> HOST_DOWNTIME \<Longrightarrow> dt_service_description ?d \<noteq> None"
    unfolding dl_entry_ok_def Let_def by metis+
  moreover have "co = None \<or> dt_comment ?d \<noteq> None" using assms(2,3) by (auto simp: commented_def)
  ultimately show ?thesis by (auto simp: downtime_matches_def Let_def split: option.splits)
qed

lemma collect_matches_total:
  "\<forall>d \<in> set ds. \<exists>b. m d = Some b \<Longrightarrow> \<exists>ms. collect_matches m ds acc = Some ms"
  by (induction ds arbitrary: acc) fastforce+

lemma delete_by_total:
  assumes "dt_inv {} s" "co = None \<or> commented s"
  shows "\<exists>n s'. delete_downtime_by_hostname_service_description_start_time_comment s hn sd st co = Some (n, s') \<and> dt_inv {} s'"
proof -
  have "\<forall>d \<in> set (map (dt_heap s) (scheduled_downtime_list s)). \<exists>b. downtime_matches hn sd st co d = Some b"
    using downtime_matches_total [OF dt_invD(1) [OF assms(1)] _ assms(2)] by auto
  from collect_matches_total [OF this] obtain ms where
    "collect_matches (downtime_matches hn sd st co) (map (dt_heap s) (scheduled_downtime_list s)) [] = Some ms" by blast
  moreover from unschedule_each_total [OF assms(1)] obtain s' where "unschedule_each ms s = Some s'" "dt_inv {} s'" by blast
  ultimately show ?thesis
    using assms(1) by (auto simp: delete_downtime_by_hostname_service_description_start_time_comment_def)
qed

lemma upd_state_quiet:
  "quiet s (upd_host h (\<lambda>v. v\<lparr>h_current_state := st\<rparr>) s)" "quiet s (upd_svc i (\<lambda>v. v\<lparr>s_current_state := st\<rparr>) s)"
proof -
  have "target_depth u (upd_host h (\<lambda>v. v\<lparr>h_current_state := st\<rparr>) s) = target_depth u s"
    "target_depth u (upd_svc i (\<lambda>v. v\<lparr>s_current_state := st\<rparr>) s) = target_depth u s" for u by (cases u; simp)+
  then show "quiet s (upd_host h (\<lambda>v. v\<lparr>h_current_state := st\<rparr>) s)" "quiet s (upd_svc i (\<lambda>v. v\<lparr>s_current_state := st\<rparr>) s)"
    by (simp_all add: quiet_def dt_keeps_def)
qed

lemma run_op_total:
  assumes "dt_inv {} s" "op_ok s op"
  shows "\<exists>s'. run_op op s = Some s' \<and> dt_inv {} s'"
proof (cases op)
  case (Schedule ty hn sd et au co st en fx tr du)
  with schedule_downtime_total [OF assms(1), of st du ty hn sd et au co en fx tr] assms(2) show ?thesis by auto
next
  case (Unschedule ty i)
  with unschedule_downtime_total [OF assms(1), of ty i] show ?thesis by auto
next
  case (Delete_by hn sd st co)
  with delete_by_total [OF assms(1), of co hn sd st] assms(2) show ?thesis by auto
next
  case (Start_event i)
  with start_by_id_total [OF assms(1), of i] show ?thesis by auto
next
  case (End_event i)
  with end_by_id_total [OF assms(1), of i] show ?thesis by auto
next
  case Expire_event
  with expire_each_spec [OF assms(1) subset_refl dl_wfD(2) [OF dt_invD(1) [OF assms(1)]]] show ?thesis
    by (auto simp: check_for_expired_downtime_def)
next
  case (Host_state h st)
  let ?s = "upd_host h (\<lambda>v. v\<lparr>h_current_state := st\<rparr>) s"
  have "dt_inv {} ?s" by (rule dt_inv_quiet [OF assms(1) upd_state_quiet(1)])
  from start_flexible_spec [OF this subset_refl, of "At_host h"] this Host_state show ?thesis
    by (auto simp: check_pending_flex_host_downtime_def)
next
  case (Service_state i st)
  let ?s = "upd_svc i (\<lambda>v. v\<lparr>s_current_state := st\<rparr>) s"
  have "dt_inv {} ?s" by (rule dt_inv_quiet [OF assms(1) upd_state_quiet(2)])
  from start_flexible_spec [OF this subset_refl, of "At_service i"] this Service_state show ?thesis
    by (auto simp: check_pending_flex_service_downtime_def)
next
  case (Elapse n)
  have "dl_wf (s\<lparr>clock := clock s + int n\<rparr>)" by (rule dl_wf_frame [OF dt_invD(1) [OF assms(1)]]) simp_all
  then have "dt_inv {} (s\<lparr>clock := clock s + int n\<rparr>)" by (rule dt_inv_add [OF assms(1)]) simp_all
  with Elapse show ?thesis by simp
qed

text \<open>The states the operations lead to.\<close>

inductive downtime_reach :: "daemon \<Rightarrow> daemon \<Rightarrow> bool" for s0 where
  start: "downtime_reach s0 s0"
| step: "downtime_reach s0 s \<Longrightarrow> op_ok s op \<Longrightarrow> run_op op s = Some s' \<Longrightarrow> downtime_reach s0 s'"

lemma downtime_reach_inv: "downtime_reach s0 s \<Longrightarrow> dt_inv {} s0 \<Longrightarrow> dt_inv {} s"
  by (induction rule: downtime_reach.induct) (use run_op_total in fastforce)+

section \<open>Properties\<close>

lemma one_host_inv: "dt_inv {} one_host"
proof -
  have "in_effect_at one_host t = {}" "target_depth t one_host = 0" for t
    by (cases t; simp add: in_effect_at_def one_host_def blank_daemon_def blank_host_def blank_service_def)+
  moreover have "cm_wf no_comments" by (rule no_comments_wf)
  ultimately show ?thesis
    using one_host_wf
    by (simp add: dt_inv_def depth_ok_def parents_set_def one_host_def blank_daemon_def blank_service_def)
qed

lemma one_host_clock: "clock one_host = 0"
  by (simp add: one_host_def blank_daemon_def)

text \<open>The host with a downtime that has not started.\<close>

definition waiting :: "daemon \<Rightarrow> nat \<Rightarrow> bool" where
  "waiting s a \<longleftrightarrow> schedule_downtime one_host HOST_DOWNTIME (Some ''web'') None 5 None None 100 200 True 0 0 = Some (OK, 1, s)
    \<and> a \<in> set (scheduled_downtime_list s)"

lemma one_waiting: "\<exists>s a. waiting s a \<and> dt_inv {} s \<and> \<not> dt_is_in_effect (dt_heap s a) \<and> dt_id (dt_heap s a) = 1"
proof -
  have "add_error one_host (new_entry one_host HOST_DOWNTIME ''web'' None 5 None None 100 200 True 0 0) = OK"
    by (simp add: add_error_def new_entry_def entry_def one_host_def blank_daemon_def find_host_def)
  moreover have "next_downtime_id one_host = 1" "clock one_host = 0" by (simp_all add: one_host_def blank_daemon_def)
  ultimately obtain s a where
    "schedule_downtime one_host HOST_DOWNTIME (Some ''web'') None 5 None None 100 200 True 0 0 = Some (OK, 1, s)" "dt_inv {} s"
    "mset (scheduled_downtime_list s) = add_mset a (mset (scheduled_downtime_list one_host))"
    "same_entry (dt_heap s a) (new_entry one_host HOST_DOWNTIME ''web'' None 5 None None 100 200 True 0 0)"
    "\<not> dt_is_in_effect (dt_heap s a)"
    using schedule_downtime_spec [OF one_host_inv, of 100 HOST_DOWNTIME None 0 200 "''web''" 5 None None True 0] by auto
  moreover from this have "a \<in> set (scheduled_downtime_list s)" by (metis set_mset_mset union_single_eq_member)
  moreover have "dt_id (dt_heap s a) = 1"
    using \<open>same_entry _ _\<close> \<open>next_downtime_id one_host = 1\<close> by (simp add: same_entry_def new_entry_def entry_def)
  ultimately show ?thesis unfolding waiting_def by blast
qed

text \<open>The same host once the downtime has started.\<close>

lemma one_started: "\<exists>s t. downtime_reach one_host s \<and> in_effect_at s t \<noteq> {}"
proof -
  let ?op = "Schedule HOST_DOWNTIME (Some ''web'') None 5 None None 100 200 True 0 0"
  from one_waiting obtain s a where s: "waiting s a" "dt_inv {} s" "\<not> dt_is_in_effect (dt_heap s a)" "dt_id (dt_heap s a) = 1"
    by blast
  let ?s = "upd_dt a (\<lambda>d. d\<lparr>dt_start_event := None\<rparr>) s"
  have a: "a \<in> set (scheduled_downtime_list s)" using s(1) by (simp add: waiting_def)
  then obtain t where t: "downtime_target s (dt_heap s a) = Some t" using downtime_target_some [OF dt_invD(1) [OF s(2)]] by blast
  have "downtime_reach one_host s"
    by (rule downtime_reach.step [OF downtime_reach.start, of _ ?op]) (use s(1) in \<open>simp_all add: waiting_def\<close>)
  moreover have "dt_inv {} ?s" by (rule dt_inv_upd_dt [OF s(2)]) (simp_all add: same_entry_def)
  from handle_start_spec [OF this, of a] a s(3) obtain s' where s': "handle_scheduled_downtime_start ?s a = Some (OK, s')"
    "starts ?s s'" "dt_is_in_effect (dt_heap s' a)" by auto
  then have "run_op (Start_event 1) s = Some s'"
    using find_downtime_listed [OF dt_invD(1) [OF s(2)] a, of ANY_DOWNTIME] s(4) by (simp add: handle_scheduled_downtime_start_by_id_def)
  moreover have "downtime_target ?s = downtime_target s" by (rule downtime_target_frame) (simp add: dt_keeps_def)
  moreover have "downtime_target s (dt_heap ?s a) = downtime_target s (dt_heap s a)" unfolding downtime_target_def by simp
  ultimately have target: "downtime_target s' (dt_heap s' a) = Some t" and run: "run_op (Start_event 1) s = Some s'"
    and reach: "downtime_reach one_host s" using startsD(6) [OF s'(2), of a] t by simp_all
  then have "a \<in> in_effect_at s' t" using a s'(3) startsD(2) [OF s'(2)] by (simp add: in_effect_at_def)
  with downtime_reach.step [OF reach _ run] show ?thesis by auto
qed

text \<open>C3. Scheduling, cancelling, the start and the end of downtimes, their expiry, the deletion of all that match and
  changes of state that start flexible ones, in whatever order: the depth of each host and service is the number of downtimes in
  effect for it, and the next operation returns.  The operations are those that \<open>op_ok\<close> admits: a downtime is
  scheduled with a start that is not negative and a start and a duration below 2 to the 31 seconds, and downtimes are deleted by
  their comment only when all on the list have one.\<close>

theorem downtimes_consistent:
  assumes "downtime_reach s0 s" "dt_inv {} s0"
  shows "target_depth t s = int (card (in_effect_at s t)) \<and> (op_ok s op \<longrightarrow> run_op op s \<noteq> None)"
proof -
  have inv: "dt_inv {} s" by (rule downtime_reach_inv [OF assms])
  with dt_invD(4) [OF inv] run_op_total [OF inv, of op] show ?thesis by (auto simp: depth_ok_def)
qed

text \<open>A downtime of the host has been scheduled and started: the depth is positive, and the end of the downtime is handled.\<close>

theorem downtimes_consistent_witness:
  "\<exists>s t. downtime_reach one_host s \<and> target_depth t s = int (card (in_effect_at s t)) \<and> 0 < target_depth t s
    \<and> run_op (End_event 1) s \<noteq> None"
proof -
  from one_started obtain s t where s: "downtime_reach one_host s" "in_effect_at s t \<noteq> {}" by blast
  moreover have "finite (in_effect_at s t)" by (simp add: in_effect_at_def)
  ultimately have "0 < card (in_effect_at s t)" by (simp add: card_gt_0_iff)
  with downtimes_consistent [OF s(1) one_host_inv, of t "End_event 1"] s(1) show ?thesis by (intro exI [of _ s] exI [of _ t]) simp
qed

text \<open>C27. A downtime that is scheduled with sane times returns OK and the next id, also when its entry was
  refused: it is on the list exactly if the host or service, the triggering downtime and the duration
  pass the checks, and the list is unchanged otherwise.\<close>

theorem schedule_downtime_outcome:
  assumes "dt_inv {} s" "0 \<le> st" "st < 2 ^ 31" "ty = HOST_DOWNTIME \<or> ty = SERVICE_DOWNTIME \<and> d \<noteq> None" "du < 2 ^ 31"
    and "st < en" "clock s < en"
  shows "\<exists>s'. schedule_downtime s ty (Some h) d et au co st en fx tr du = Some (OK, next_downtime_id s, s')
    \<and> (if add_error s (new_entry s ty h d et au co st en fx tr du) = OK
       then \<exists>a. mset (scheduled_downtime_list s') = add_mset a (mset (scheduled_downtime_list s))
         \<and> same_entry (dt_heap s' a) (new_entry s ty h d et au co st en fx tr du)
         \<and> \<not> dt_is_in_effect (dt_heap s' a)
       else scheduled_downtime_list s' = scheduled_downtime_list s)"
  using schedule_downtime_spec [OF assms, of h et au co fx tr] by blast

theorem schedule_downtime_outcome_witness:
  "\<exists>s'. schedule_downtime one_host HOST_DOWNTIME (Some ''web'') None 5 None None 100 200 True 77 0
      = Some (OK, next_downtime_id one_host, s')
    \<and> (if add_error one_host (new_entry one_host HOST_DOWNTIME ''web'' None 5 None None 100 200 True 77 0) = OK
       then \<exists>a. mset (scheduled_downtime_list s') = add_mset a (mset (scheduled_downtime_list one_host))
         \<and> same_entry (dt_heap s' a) (new_entry one_host HOST_DOWNTIME ''web'' None 5 None None 100 200 True 77 0)
         \<and> \<not> dt_is_in_effect (dt_heap s' a)
       else scheduled_downtime_list s' = scheduled_downtime_list one_host)"
  by (rule schedule_downtime_outcome [OF one_host_inv, of 100 HOST_DOWNTIME None 0 200 "''web''" 5 None None True 77])
    (simp_all add: one_host_clock)

text \<open>C14. Cancelling a downtime takes exactly it and the downtimes it triggers, directly or through others,
  off the list.\<close>

theorem unschedule_exact:
  assumes "dt_inv {} s" "a \<in> set (scheduled_downtime_list s)" "ty = ANY_DOWNTIME \<or> ty = dt_type (dt_heap s a)"
  shows "\<exists>s'. unschedule_downtime s ty (dt_id (dt_heap s a)) = Some (OK, s')
    \<and> scheduled_downtime_list s' =
      filter (\<lambda>b. b \<noteq> a \<and> \<not> below s (dt_id (dt_heap s a)) b) (scheduled_downtime_list s)"
  using unschedule_downtime_spec [OF assms] by blast

theorem unschedule_exact_witness:
  "\<exists>s a. waiting s a \<and> (\<exists>s'. unschedule_downtime s ANY_DOWNTIME (dt_id (dt_heap s a)) = Some (OK, s')
    \<and> scheduled_downtime_list s' =
      filter (\<lambda>b. b \<noteq> a \<and> \<not> below s (dt_id (dt_heap s a)) b) (scheduled_downtime_list s))"
  using one_waiting unschedule_exact [of _ _ ANY_DOWNTIME] unfolding waiting_def by blast

text \<open>C16. A downtime that starts is in effect afterwards, with every downtime it triggers, those these
  trigger, and so on; no downtime that is not triggered in this way starts.\<close>

theorem downtime_start_triggers:
  assumes "dt_inv {} s" "a \<in> set (scheduled_downtime_list s)" "\<not> dt_is_in_effect (dt_heap s a)"
  shows "\<exists>s'. handle_scheduled_downtime_start s a = Some (OK, s') \<and> dt_is_in_effect (dt_heap s' a)
    \<and> (\<forall>b. woken s s' b \<longrightarrow> (b = a \<or> below s (dt_id (dt_heap s a)) b) \<and> wakes_all s' (dt_id (dt_heap s b)))"
  using handle_start_spec [OF assms] by blast

theorem downtime_start_triggers_witness:
  "\<exists>s a. waiting s a \<and> (\<exists>s'. handle_scheduled_downtime_start s a = Some (OK, s') \<and> dt_is_in_effect (dt_heap s' a)
    \<and> (\<forall>b. woken s s' b \<longrightarrow> (b = a \<or> below s (dt_id (dt_heap s a)) b) \<and> wakes_all s' (dt_id (dt_heap s b))))"
  using one_waiting downtime_start_triggers unfolding waiting_def by blast

text \<open>C28. Looking for expired downtimes takes exactly those off the list that are over and never started.\<close>

theorem expiry_exact:
  assumes "dt_inv {} s"
  shows "\<exists>s'. check_for_expired_downtime s = Some (OK, s')
    \<and> scheduled_downtime_list s' = filter (\<lambda>b. \<not> expired s b) (scheduled_downtime_list s)"
proof -
  have "filter (\<lambda>b. \<not> (b \<in> set (scheduled_downtime_list s) \<and> expired s b)) (scheduled_downtime_list s)
      = filter (\<lambda>b. \<not> expired s b) (scheduled_downtime_list s)" by (rule filter_cong) simp_all
  with expire_each_spec [OF assms subset_refl dl_wfD(2) [OF dt_invD(1) [OF assms]]] show ?thesis
    by (auto simp: check_for_expired_downtime_def)
qed

theorem expiry_exact_witness:
  "\<exists>s a. waiting s a \<and> (\<exists>s'. check_for_expired_downtime s = Some (OK, s')
    \<and> scheduled_downtime_list s' = filter (\<lambda>b. \<not> expired s b) (scheduled_downtime_list s))"
  using one_waiting expiry_exact by blast

text \<open>The end of a downtime of a host whose depth is not positive reads the depth of the service, which
  is NULL.\<close>

lemma end_without_depth_undefined:
  assumes "dt_is_in_effect (dt_heap s a)" "downtime_target s (dt_heap s a) = Some (At_host h)"
    "h_scheduled_downtime_depth (hosts s h) \<le> 0"
  shows "handle_scheduled_downtime_end s a = None"
  using assms by (simp add: handle_scheduled_downtime_end_def end_one_def Let_def)

end
