(* ===== verification/Flapping.thy ===== *)
theory Flapping
  imports DowntimeSafety
begin

text \<open>
  Detection of flapping, \<open>base/flapping.c\<close>: hosts and services keep the states of their last checks
  in a ring, the changes between them are weighted by age, and the percentage sets and clears the
  flapping flag, with a comment and notifications.

  \<^item> An index of the ring out of its bounds is undefined.
  \<^item> Percentages are exact rationals where the code computes with \<open>double\<close>.
\<close>

section \<open>The ring of states\<close>

definition next_slot :: "nat \<Rightarrow> nat" where
  "next_slot y = (if y + 1 \<ge> MAX_STATE_HISTORY_ENTRIES then 0 else y + 1)"

definition curve_weight :: "nat \<Rightarrow> rat" where
  "curve_weight x = of_nat (x - 1) * (5/4 - 3/4) / of_nat (MAX_STATE_HISTORY_ENTRIES - 2) + 3/4"

text \<open>One turn of the loop over the ring: the slot to look at, the state before it, the changes so far.\<close>

definition curve_step :: "nat list \<Rightarrow> nat \<Rightarrow> nat \<times> nat \<times> rat \<Rightarrow> nat \<times> nat \<times> rat" where
  "curve_step hist x = (\<lambda>(y, before, changes).
     if x = 0 then (next_slot y, hist ! y, changes)
     else (next_slot y, hist ! y, if before \<noteq> hist ! y then changes + curve_weight x else changes))"

definition curved_percent_change :: "nat list \<Rightarrow> nat \<Rightarrow> rat" where
  "curved_percent_change hist index =
    snd (snd (fold (curve_step hist) [0..<MAX_STATE_HISTORY_ENTRIES] (index, 0, 0))) * 100
      / of_nat (MAX_STATE_HISTORY_ENTRIES - 1)"

section \<open>The text of the comment\<close>

text \<open>\<open>printf\<close> with \<open>%2.1f\<close>.\<close>

definition one_decimal :: "rat \<Rightarrow> string" where
  "one_decimal x =
    (let tenths = \<bar>x\<bar> * 10; below = \<lfloor>tenths\<rfloor>;
         n = nat (if tenths - of_int below < 1/2 then below else if tenths - of_int below > 1/2 then below + 1
           else if even below then below else below + 1)
     in (if x < 0 then ''-'' else '''') @ decimal (n div 10) @ ''.'' @ decimal (n mod 10))"

definition flapping_text :: "string \<Rightarrow> string \<Rightarrow> rat \<Rightarrow> rat \<Rightarrow> string" where
  "flapping_text kind relation percent_change high_threshold =
    ''Notifications for this '' @ kind @ '' are being suppressed because it was detected as having been flapping between different states (''
    @ one_decimal percent_change @ ''% change '' @ relation @ '' '' @ one_decimal high_threshold
    @ ''% threshold).  When the '' @ kind
    @ '' state stabilizes and the flapping stops, notifications will be re-enabled.''"

section \<open>Services\<close>

definition set_service_flap :: "nat \<Rightarrow> rat \<Rightarrow> rat \<Rightarrow> bool \<Rightarrow> daemon \<Rightarrow> daemon ub" where
  "set_service_flap i percent_change high_threshold allow_flapstart_notification s =
    (let svc = svcs s i;
         s = (if s_flapping_comment_id svc = 0
           then (case add_new_service_comment True (comments s) FLAPPING_COMMENT (Some (s_host_name svc))
               (Some (s_description svc)) (clock s) (Some ''(Nagios Process)'')
               (Some (flapping_text ''service'' ''>='' percent_change high_threshold)) False 0 False 0 of
             (_, cid, c) \<Rightarrow> upd_svc i (\<lambda>v. v\<lparr>s_flapping_comment_id := cid\<rparr>) (s\<lparr>comments := c\<rparr>))
           else s);
         s = upd_svc i (\<lambda>v. v\<lparr>s_is_flapping := True,
           s_check_flapping_recovery_notification := (s_current_notification_number v > 0)\<rparr>) s
     in if allow_flapstart_notification then notify_target (At_service i) NOTIFICATION_FLAPPINGSTART s else Some s)"

definition forget_service_flap :: "nat \<Rightarrow> daemon \<Rightarrow> daemon ub" where
  "forget_service_flap i s = do {
     c \<leftarrow> (if s_flapping_comment_id (svcs s i) \<noteq> 0
       then map_option snd (delete_service_comment (comments s) (s_flapping_comment_id (svcs s i)))
       else Some (comments s));
     Some (upd_svc i (\<lambda>v. v\<lparr>s_flapping_comment_id := 0, s_is_flapping := False\<rparr>) (s\<lparr>comments := c\<rparr>))
   }"

definition flapping_over_service :: "nat \<Rightarrow> nat \<Rightarrow> daemon \<Rightarrow> daemon ub" where
  "flapping_over_service i ty s = do {
     s \<leftarrow> notify_target (At_service i) ty s;
     (if s_check_flapping_recovery_notification (svcs s i) \<and> s_current_state (svcs s i) = STATE_OK
      then notify_target (At_service i) NOTIFICATION_RECOVERY s else Some s)
   }"

definition clear_service_flap :: "nat \<Rightarrow> bool \<Rightarrow> daemon \<Rightarrow> daemon ub" where
  "clear_service_flap i is_disabled s = do {
     s \<leftarrow> forget_service_flap i s;
     s \<leftarrow> (if \<not> is_disabled then flapping_over_service i NOTIFICATION_FLAPPINGSTOP s else Some s);
     Some (upd_svc i (\<lambda>v. v\<lparr>s_check_flapping_recovery_notification := False\<rparr>) s)
   }"

definition record_service_state :: "nat \<Rightarrow> bool \<Rightarrow> daemon \<Rightarrow> daemon" where
  "record_service_state i update s =
    (let svc = svcs s i in
     upd_svc i (\<lambda>v. v\<lparr>s_percent_state_change := curved_percent_change (s_state_history v) (s_state_history_index v)\<rparr>)
      (if update \<and> flag_isset (s_flap_detection_options svc) (state_flag (s_current_state svc))
       then upd_svc i (\<lambda>v. v\<lparr>s_state_history := (s_state_history v)[s_state_history_index v := s_current_state v],
         s_state_history_index := next_slot (s_state_history_index v)\<rparr>) s
       else s))"

definition service_low_threshold :: "daemon \<Rightarrow> nat \<Rightarrow> rat" where
  "service_low_threshold s i = (if s_low_flap_threshold (svcs s i) \<le> 0 then low_service_flap_threshold (globs s)
    else s_low_flap_threshold (svcs s i))"

definition service_high_threshold :: "daemon \<Rightarrow> nat \<Rightarrow> rat" where
  "service_high_threshold s i = (if s_high_flap_threshold (svcs s i) \<le> 0 then high_service_flap_threshold (globs s)
    else s_high_flap_threshold (svcs s i))"

definition check_for_service_flapping :: "nat \<Rightarrow> bool \<Rightarrow> bool \<Rightarrow> daemon \<Rightarrow> daemon ub" where
  "check_for_service_flapping i update allow_flapstart_notification s =
    (let svc = svcs s i in
     if s_state_type svc = SOFT_STATE \<and> s_current_state svc \<noteq> STATE_OK then Some s
     else if s_state_history_index svc \<ge> MAX_STATE_HISTORY_ENTRIES then None
     else
      let low = service_low_threshold s i; high = service_high_threshold s i;
          s = record_service_state i update s;
          percent = s_percent_state_change (svcs s i); was = s_is_flapping svc in
      if \<not> enable_flap_detection (globs s) \<or> \<not> s_flap_detection_enabled svc then
        (if was then clear_service_flap i True s else Some s)
      else if percent > low \<and> percent < high then Some s
      else
       let is_flapping = (if percent \<le> low then False else percent \<ge> high) in
       if is_flapping \<and> \<not> was then set_service_flap i percent high allow_flapstart_notification s
       else if \<not> is_flapping \<and> was then clear_service_flap i False s
       else Some s)"

section \<open>Hosts\<close>

definition set_host_flap :: "nat \<Rightarrow> rat \<Rightarrow> rat \<Rightarrow> bool \<Rightarrow> daemon \<Rightarrow> daemon ub" where
  "set_host_flap h percent_change high_threshold allow_flapstart_notification s =
    (let hst = hosts s h;
         s = (if h_flapping_comment_id hst = 0
           then (case add_new_host_comment True (comments s) FLAPPING_COMMENT (Some (h_name hst)) (clock s)
               (Some ''(Nagios Process)'') (Some (flapping_text ''host'' ''>'' percent_change high_threshold)) False 0 False 0 of
             (_, cid, c) \<Rightarrow> upd_host h (\<lambda>v. v\<lparr>h_flapping_comment_id := cid\<rparr>) (s\<lparr>comments := c\<rparr>))
           else s);
         s = upd_host h (\<lambda>v. v\<lparr>h_is_flapping := True,
           h_check_flapping_recovery_notification := (h_current_notification_number v > 0)\<rparr>) s
     in if allow_flapstart_notification then notify_target (At_host h) NOTIFICATION_FLAPPINGSTART s else Some s)"

definition forget_host_flap :: "nat \<Rightarrow> daemon \<Rightarrow> daemon ub" where
  "forget_host_flap h s = do {
     c \<leftarrow> (if h_flapping_comment_id (hosts s h) \<noteq> 0
       then map_option snd (delete_host_comment (comments s) (h_flapping_comment_id (hosts s h)))
       else Some (comments s));
     Some (upd_host h (\<lambda>v. v\<lparr>h_flapping_comment_id := 0, h_is_flapping := False\<rparr>) (s\<lparr>comments := c\<rparr>))
   }"

definition flapping_over_host :: "nat \<Rightarrow> nat \<Rightarrow> daemon \<Rightarrow> daemon ub" where
  "flapping_over_host h ty s = do {
     s \<leftarrow> notify_target (At_host h) ty s;
     (if h_check_flapping_recovery_notification (hosts s h) \<and> h_current_state (hosts s h) = HOST_UP
      then notify_target (At_host h) NOTIFICATION_RECOVERY s else Some s)
   }"

definition clear_host_flap :: "nat \<Rightarrow> bool \<Rightarrow> daemon \<Rightarrow> daemon ub" where
  "clear_host_flap h is_disabled s = do {
     s \<leftarrow> forget_host_flap h s;
     s \<leftarrow> (if \<not> is_disabled then flapping_over_host h NOTIFICATION_FLAPPINGSTOP s else Some s);
     Some (upd_host h (\<lambda>v. v\<lparr>h_check_flapping_recovery_notification := False\<rparr>) s)
   }"

text \<open>How long to wait before a state without an actual check is recorded, an \<open>unsigned long\<close>; the
  time since the last record is converted to one for the comparison.\<close>

definition flap_wait_threshold :: "daemon \<Rightarrow> nat \<Rightarrow> int" where
  "flap_wait_threshold s h =
    (let hst = hosts s h in
     if h_total_services hst = 0 then trunc (h_notification_interval hst * of_int (interval_length (globs s))) mod 2 ^ 64
     else (int (h_total_service_check_interval hst) * interval_length (globs s)) mod 2 ^ 64 div int (h_total_services hst))"

definition record_host_state :: "nat \<Rightarrow> bool \<Rightarrow> bool \<Rightarrow> daemon \<Rightarrow> daemon" where
  "record_host_state h update actual_check s =
    (let hst = hosts s h in
     upd_host h (\<lambda>v. v\<lparr>h_percent_state_change := curved_percent_change (h_state_history v) (h_state_history_index v)\<rparr>)
      (if update \<and> h_flap_detection_options hst AND state_flag (h_current_state hst) \<noteq> 0
         \<and> \<not> (\<not> actual_check \<and> (clock s - h_last_state_history_update hst) mod 2 ^ 64 < flap_wait_threshold s h)
       then upd_host h (\<lambda>v. v\<lparr>h_last_state_history_update := clock s,
         h_state_history := (h_state_history v)[h_state_history_index v := h_current_state v],
         h_state_history_index := next_slot (h_state_history_index v)\<rparr>) s
       else s))"

definition host_low_threshold :: "daemon \<Rightarrow> nat \<Rightarrow> rat" where
  "host_low_threshold s h = (if h_low_flap_threshold (hosts s h) \<le> 0 then low_host_flap_threshold (globs s)
    else h_low_flap_threshold (hosts s h))"

definition host_high_threshold :: "daemon \<Rightarrow> nat \<Rightarrow> rat" where
  "host_high_threshold s h = (if h_high_flap_threshold (hosts s h) \<le> 0 then high_host_flap_threshold (globs s)
    else h_high_flap_threshold (hosts s h))"

definition check_for_host_flapping :: "nat \<Rightarrow> bool \<Rightarrow> bool \<Rightarrow> bool \<Rightarrow> daemon \<Rightarrow> daemon ub" where
  "check_for_host_flapping h update actual_check allow_flapstart_notification s =
    (let hst = hosts s h in
     if h_state_history_index hst \<ge> MAX_STATE_HISTORY_ENTRIES then None
     else
      let low = host_low_threshold s h; high = host_high_threshold s h;
          s = record_host_state h update actual_check s;
          percent = h_percent_state_change (hosts s h); was = h_is_flapping hst in
      if \<not> enable_flap_detection (globs s) \<or> \<not> h_flap_detection_enabled hst then
        (if was then clear_host_flap h True s else Some s)
      else if percent > low \<and> percent < high then Some s
      else
       let is_flapping = (if percent \<le> low then False else percent \<ge> high) in
       if is_flapping \<and> \<not> was then set_host_flap h percent high allow_flapstart_notification s
       else if \<not> is_flapping \<and> was then clear_host_flap h False s
       else Some s)"

section \<open>Enabling and disabling\<close>

definition handle_service_flap_detection_disabled :: "nat \<Rightarrow> daemon \<Rightarrow> daemon ub" where
  "handle_service_flap_detection_disabled i s =
    (if s_is_flapping (svcs s i) then do {
       s \<leftarrow> forget_service_flap i s;
       s \<leftarrow> flapping_over_service i NOTIFICATION_FLAPPINGDISABLED s;
       Some (upd_svc i (\<lambda>v. v\<lparr>s_check_flapping_recovery_notification := False\<rparr>) s)
     } else Some s)"

definition handle_host_flap_detection_disabled :: "nat \<Rightarrow> daemon \<Rightarrow> daemon ub" where
  "handle_host_flap_detection_disabled h s =
    (if h_is_flapping (hosts s h) then do {
       s \<leftarrow> forget_host_flap h s;
       s \<leftarrow> flapping_over_host h NOTIFICATION_FLAPPINGDISABLED s;
       Some (upd_host h (\<lambda>v. v\<lparr>h_check_flapping_recovery_notification := False\<rparr>) s)
     } else Some s)"

definition enable_service_flap_detection :: "nat \<Rightarrow> daemon \<Rightarrow> daemon ub" where
  "enable_service_flap_detection i s =
    (if s_flap_detection_enabled (svcs s i) then Some s
     else check_for_service_flapping i False True (upd_svc i (\<lambda>v. v\<lparr>s_flap_detection_enabled := True,
       s_modified_attributes := s_modified_attributes v OR MODATTR_FLAP_DETECTION_ENABLED\<rparr>) s))"

definition disable_service_flap_detection :: "nat \<Rightarrow> daemon \<Rightarrow> daemon ub" where
  "disable_service_flap_detection i s =
    (if \<not> s_flap_detection_enabled (svcs s i) then Some s
     else handle_service_flap_detection_disabled i (upd_svc i (\<lambda>v. v\<lparr>s_flap_detection_enabled := False,
       s_modified_attributes := s_modified_attributes v OR MODATTR_FLAP_DETECTION_ENABLED\<rparr>) s))"

definition enable_host_flap_detection :: "nat \<Rightarrow> daemon \<Rightarrow> daemon ub" where
  "enable_host_flap_detection h s =
    (if h_flap_detection_enabled (hosts s h) then Some s
     else check_for_host_flapping h False False True (upd_host h (\<lambda>v. v\<lparr>h_flap_detection_enabled := True,
       h_modified_attributes := h_modified_attributes v OR MODATTR_FLAP_DETECTION_ENABLED\<rparr>) s))"

definition disable_host_flap_detection :: "nat \<Rightarrow> daemon \<Rightarrow> daemon ub" where
  "disable_host_flap_detection h s =
    (if \<not> h_flap_detection_enabled (hosts s h) then Some s
     else handle_host_flap_detection_disabled h (upd_host h (\<lambda>v. v\<lparr>h_flap_detection_enabled := False,
       h_modified_attributes := h_modified_attributes v OR MODATTR_FLAP_DETECTION_ENABLED\<rparr>) s))"

text \<open>A loop over the objects of an array.\<close>

definition for_each :: "(nat \<Rightarrow> daemon \<Rightarrow> daemon ub) \<Rightarrow> nat \<Rightarrow> daemon \<Rightarrow> daemon ub" where
  "for_each f n s = fold (\<lambda>i r. r \<bind> f i) [0..<n] (Some s)"

definition switch_flap_detection :: "bool \<Rightarrow> daemon \<Rightarrow> daemon" where
  "switch_flap_detection b s = s\<lparr>globs := (globs s)\<lparr>enable_flap_detection := b,
     modified_host_process_attributes := modified_host_process_attributes (globs s) OR MODATTR_FLAP_DETECTION_ENABLED,
     modified_service_process_attributes := modified_service_process_attributes (globs s) OR MODATTR_FLAP_DETECTION_ENABLED\<rparr>\<rparr>"

definition enable_flap_detection_routines :: "daemon \<Rightarrow> daemon ub" where
  "enable_flap_detection_routines s =
    (if enable_flap_detection (globs s) then Some s
     else do {
       s \<leftarrow> for_each (\<lambda>h. check_for_host_flapping h False False True) (num_hosts s) (switch_flap_detection True s);
       for_each (\<lambda>i. check_for_service_flapping i False True) (num_services s) s
     })"

definition disable_flap_detection_routines :: "daemon \<Rightarrow> daemon ub" where
  "disable_flap_detection_routines s =
    (if \<not> enable_flap_detection (globs s) then Some s
     else do {
       s \<leftarrow> for_each handle_host_flap_detection_disabled (num_hosts s) (switch_flap_detection False s);
       for_each handle_service_flap_detection_disabled (num_services s) s
     })"

section \<open>The percentage\<close>

text \<open>The states of the ring from the oldest to the newest.\<close>

definition ring :: "nat list \<Rightarrow> nat \<Rightarrow> nat \<Rightarrow> nat" where
  "ring hist index k = hist ! ((index + k) mod MAX_STATE_HISTORY_ENTRIES)"

lemma next_slot_mod: "next_slot (y mod MAX_STATE_HISTORY_ENTRIES) = (y + 1) mod MAX_STATE_HISTORY_ENTRIES"
proof -
  have "y mod 21 < 21" by simp
  then show ?thesis unfolding next_slot_def MAX_STATE_HISTORY_ENTRIES_def by (auto simp: mod_Suc)
qed

definition change_at :: "nat list \<Rightarrow> nat \<Rightarrow> nat \<Rightarrow> rat" where
  "change_at hist index k = (if ring hist index k \<noteq> ring hist index (k + 1) then 3/4 + of_nat k / 38 else 0)"

lemma curve_loop:
  assumes "index < MAX_STATE_HISTORY_ENTRIES"
  shows "fold (curve_step hist) [0..<Suc n] (index, 0, 0) =
    ((index + Suc n) mod MAX_STATE_HISTORY_ENTRIES, ring hist index n, \<Sum>k<n. change_at hist index k)"
proof (induction n)
  case 0
  have "next_slot index = (index + 1) mod MAX_STATE_HISTORY_ENTRIES"
    using next_slot_mod [of index] assms by simp
  with assms show ?case by (simp add: curve_step_def ring_def)
next
  case (Suc n)
  have "curve_weight (Suc n) = 3/4 + of_nat n / 38"
    by (simp add: curve_weight_def MAX_STATE_HISTORY_ENTRIES_def)
  then show ?case
    using Suc next_slot_mod [of "index + Suc n"]
    by (auto simp: curve_step_def ring_def change_at_def)
qed

lemma percent_sum:
  assumes "index < MAX_STATE_HISTORY_ENTRIES"
  shows "curved_percent_change hist index = 5 * (\<Sum>k<20. change_at hist index k)"
  unfolding curved_percent_change_def
  using curve_loop [OF assms, of hist 20] by (simp add: MAX_STATE_HISTORY_ENTRIES_def)

lemma change_at_bounds: "0 \<le> change_at hist index k" "change_at hist index k \<le> 3/4 + of_nat k / 38"
  "change_at hist index k = 0 \<longleftrightarrow> ring hist index k = ring hist index (k + 1)"
proof -
  have "0 \<le> of_nat k / (38 :: rat)" by simp
  then have "0 < 3/4 + of_nat k / (38 :: rat)" by linarith
  then show "0 \<le> change_at hist index k" "change_at hist index k \<le> 3/4 + of_nat k / 38"
    "change_at hist index k = 0 \<longleftrightarrow> ring hist index k = ring hist index (k + 1)"
    by (auto simp: change_at_def)
qed

lemma weights_sum: "(\<Sum>k<20. 3/4 + of_nat k / (38 :: rat)) = 20"
  by (simp add: lessThan_Suc eval_nat_numeral)

section \<open>What detection leaves alone\<close>

definition svc_flap_core :: "service \<Rightarrow> service" where
  "svc_flap_core v = (svc_core v)\<lparr>s_is_flapping := False, s_flapping_comment_id := 0,
     s_check_flapping_recovery_notification := False, s_state_history := [], s_state_history_index := 0,
     s_percent_state_change := 0\<rparr>"

definition host_flap_core :: "host \<Rightarrow> host" where
  "host_flap_core v = (host_core v)\<lparr>h_is_flapping := False, h_flapping_comment_id := 0,
     h_check_flapping_recovery_notification := False, h_state_history := [], h_state_history_index := 0,
     h_last_state_history_update := 0, h_percent_state_change := 0\<rparr>"

definition flap_core :: "daemon \<Rightarrow> daemon" where
  "flap_core s = s\<lparr>hosts := host_flap_core \<circ> hosts s, svcs := svc_flap_core \<circ> svcs s,
     contacts := contact_core \<circ> contacts s, next_notification_id := 0, outputs := [], comments := no_comments\<rparr>"

named_theorems flap_frame \<open>updates that flap detection may make\<close>

lemma flap_core_svc [flap_frame]:
  "(\<And>v. svc_flap_core (f v) = svc_flap_core v) \<Longrightarrow> flap_core (upd_svc i f s) = flap_core s"
  by (simp add: flap_core_def upd_svc_def fun_eq_iff)

lemma flap_core_host [flap_frame]:
  "(\<And>v. host_flap_core (f v) = host_flap_core v) \<Longrightarrow> flap_core (upd_host h f s) = flap_core s"
  by (simp add: flap_core_def upd_host_def fun_eq_iff)

lemma flap_core_comments [flap_frame]: "flap_core (s\<lparr>comments := c\<rparr>) = flap_core s"
  by (simp add: flap_core_def)

lemma flap_core_notif:
  assumes "notif_core s' = notif_core s"
  shows "flap_core s' = flap_core s"
proof -
  have "flap_core (notif_core t) = flap_core t" for t
    by (simp add: flap_core_def notif_core_def fun_eq_iff svc_flap_core_def host_flap_core_def svc_core_def
      host_core_def contact_core_def)
  then show ?thesis using arg_cong [OF assms, of flap_core] by simp
qed

lemma flap_coreD:
  assumes "flap_core s' = flap_core s"
  shows "clock s' = clock s" "globs s' = globs s" "links s' = links s"
    "svc_flap_core (svcs s' i) = svc_flap_core (svcs s i)" "host_flap_core (hosts s' h) = host_flap_core (hosts s h)"
proof -
  show "clock s' = clock s" using arg_cong [OF assms, of clock] by (simp add: flap_core_def)
  show "globs s' = globs s" using arg_cong [OF assms, of globs] by (simp add: flap_core_def)
  show svc: "svc_flap_core (svcs s' i) = svc_flap_core (svcs s i)" for i
    using fun_cong [OF arg_cong [OF assms, of svcs], of i] by (simp add: flap_core_def)
  show hst: "host_flap_core (hosts s' h) = host_flap_core (hosts s h)" for h
    using fun_cong [OF arg_cong [OF assms, of hosts], of h] by (simp add: flap_core_def)
  have "s_parents (svcs s' i) = s_parents (svcs s i)" "s_exec_deps (svcs s' i) = s_exec_deps (svcs s i)"
    "s_notify_deps (svcs s' i) = s_notify_deps (svcs s i)" for i
    using arg_cong [OF svc, of s_parents i] arg_cong [OF svc, of s_exec_deps i] arg_cong [OF svc, of s_notify_deps i]
    by (simp_all add: svc_flap_core_def svc_core_def)
  moreover have "h_exec_deps (hosts s' h) = h_exec_deps (hosts s h)" "h_notify_deps (hosts s' h) = h_notify_deps (hosts s h)" for h
    using arg_cong [OF hst, of h_exec_deps h] arg_cong [OF hst, of h_notify_deps h]
    by (simp_all add: host_flap_core_def host_core_def)
  ultimately show "links s' = links s" by (simp add: links_def)
qed

section \<open>Setting and clearing the flag\<close>

definition comments_ok :: "comments_state \<Rightarrow> bool" where
  "comments_ok c \<longleftrightarrow> cm_wf c \<and> 0 < next_comment_id c"

definition rings :: "daemon \<Rightarrow> (nat \<Rightarrow> nat) \<times> (nat \<Rightarrow> nat)" where
  "rings s = (\<lambda>i. s_state_history_index (svcs s i), \<lambda>h. h_state_history_index (hosts s h))"

lemma rings_svc [flap_frame]:
  "(\<And>v. s_state_history_index (f v) = s_state_history_index v) \<Longrightarrow> rings (upd_svc i f s) = rings s"
  by (simp add: rings_def fun_eq_iff)

lemma rings_host [flap_frame]:
  "(\<And>v. h_state_history_index (f v) = h_state_history_index v) \<Longrightarrow> rings (upd_host h f s) = rings s"
  by (simp add: rings_def fun_eq_iff)

lemma rings_comments [flap_frame]: "rings (s\<lparr>comments := c\<rparr>) = rings s"
  by (simp add: rings_def)

text \<open>What the operations may rely on.\<close>

definition flap_ready :: "daemon \<Rightarrow> bool" where
  "flap_ready s \<longleftrightarrow> acyclic_links s \<and> comments_ok (comments s)
    \<and> (\<forall>i. fst (rings s) i < MAX_STATE_HISTORY_ENTRIES) \<and> (\<forall>h. snd (rings s) h < MAX_STATE_HISTORY_ENTRIES)"

lemma flap_ready_frame:
  assumes "flap_ready s" "flap_core s' = flap_core s" "rings s' = rings s" "comments_ok (comments s')"
  shows "flap_ready s'"
  using acyclic_links_frame [OF flap_coreD(3) [OF assms(2)]] assms(1,3,4) by (simp add: flap_ready_def)

text \<open>The flag, the id of the comment, the percentage and whether a recovery is owed.\<close>

definition svc_flap :: "service \<Rightarrow> bool \<times> nat \<times> rat" where
  "svc_flap v = (s_is_flapping v, s_flapping_comment_id v, s_percent_state_change v)"

definition host_flap :: "host \<Rightarrow> bool \<times> nat \<times> rat" where
  "host_flap v = (h_is_flapping v, h_flapping_comment_id v, h_percent_state_change v)"

lemma notify_target_spec:
  assumes "flap_ready s"
  shows "\<exists>s'. notify_target t ty s = Some s' \<and> flap_ready s' \<and> flap_core s' = flap_core s \<and> comments s' = comments s
    \<and> (\<forall>i. svc_flap (svcs s' i) = svc_flap (svcs s i)) \<and> (\<forall>h. host_flap (hosts s' h) = host_flap (hosts s h))"
proof -
  have "acyclic_links s" using assms by (simp add: flap_ready_def)
  then obtain s' where s': "notify_target t ty s = Some s'" "notif_core s' = notif_core s"
    using service_notification_total host_notification_total by (cases t) (simp; metis option.simps(9) snd_conv)+
  note same = notif_coreD [OF s'(2)]
  have "flap_core s' = flap_core s" by (rule flap_core_notif [OF s'(2)])
  moreover have "rings s' = rings s"
  proof -
    have "s_state_history_index (svcs s' i) = s_state_history_index (svcs s i)" for i
      using arg_cong [OF same(17) [of i], of s_state_history_index] by (simp add: svc_core_def)
    moreover have "h_state_history_index (hosts s' h) = h_state_history_index (hosts s h)" for h
      using arg_cong [OF same(18) [of h], of h_state_history_index] by (simp add: host_core_def)
    ultimately show ?thesis by (simp add: rings_def)
  qed
  moreover have "comments_ok (comments s')" using assms same(8) by (simp add: flap_ready_def)
  ultimately have "flap_core s' = flap_core s" "flap_ready s'" using flap_ready_frame [OF assms] by simp_all
  moreover have "svc_flap (svcs s' i) = svc_flap (svcs s i)" for i
    using arg_cong [OF same(17) [of i], of svc_flap] by (simp add: svc_flap_def svc_core_def)
  moreover have "host_flap (hosts s' h) = host_flap (hosts s h)" for h
    using arg_cong [OF same(18) [of h], of host_flap] by (simp add: host_flap_def host_core_def)
  ultimately show ?thesis using s'(1) same(8) by blast
qed

lemma add_service_comment_ok:
  assumes "comments_ok c"
  obtains cid c' where "add_new_service_comment True c et (Some h) (Some d) tm (Some a) (Some t) False 0 False 0 = (OK, cid, c')"
    "comments_ok c'" "cid \<noteq> 0" "find_comment c' cid SERVICE_COMMENT \<noteq> None"
proof -
  from assms obtain cid c' new where c': "add_new_comment True c SERVICE_COMMENT et (Some h) (Some d) tm (Some a) (Some t) False 0 False 0
      = (OK, cid, c', None)" "next_comment_id c \<le> cid" "next_comment_id c' = cid + 1" "cm_wf c'"
      "find_comment c' cid SERVICE_COMMENT = Some new"
    using add_new_comment_spec [of c SERVICE_COMMENT "Some d" et h tm a t False 0 False 0]
    by (auto simp: comments_ok_def)
  then show ?thesis using that [of cid c'] assms by (simp add: comments_ok_def add_new_comment_def split: prod.splits)
qed

lemma add_host_comment_ok:
  assumes "comments_ok c"
  obtains cid c' where "add_new_host_comment True c et (Some h) tm (Some a) (Some t) False 0 False 0 = (OK, cid, c')"
    "comments_ok c'" "cid \<noteq> 0" "find_comment c' cid HOST_COMMENT \<noteq> None"
proof -
  from assms obtain cid c' new where c': "add_new_comment True c HOST_COMMENT et (Some h) None tm (Some a) (Some t) False 0 False 0
      = (OK, cid, c', None)" "next_comment_id c \<le> cid" "next_comment_id c' = cid + 1" "cm_wf c'"
      "find_comment c' cid HOST_COMMENT = Some new"
    using add_new_comment_spec [of c HOST_COMMENT None et h tm a t False 0 False 0]
    by (auto simp: comments_ok_def)
  then show ?thesis using that [of cid c'] assms by (simp add: comments_ok_def add_new_comment_def split: prod.splits)
qed

lemma delete_comment_ok:
  assumes "comments_ok c"
  obtains r c' where "delete_comment c ty i = Some (r, c')" "comments_ok c'" "find_comment c' i ty = None"
proof -
  from assms delete_comment_total [of c ty i] obtain r c' where
    c': "delete_comment c ty i = Some (r, c')" "cm_wf c'"
    "comment_list c' = filter (\<lambda>x. cm_key x \<noteq> (ty, i)) (comment_list c)" by (auto simp: comments_ok_def)
  then have "next_comment_id c' = next_comment_id c"
    by (auto simp: delete_comment_def Let_def split: option.splits Option.bind_splits)
  with c' assms that show ?thesis by (auto simp: comments_ok_def find_comment_def find_None_iff cm_key_def)
qed

lemma set_service_flap_spec:
  assumes "flap_ready s"
  shows "\<exists>s'. set_service_flap i percent high allow s = Some s' \<and> flap_ready s' \<and> flap_core s' = flap_core s
    \<and> s_is_flapping (svcs s' i) \<and> s_percent_state_change (svcs s' i) = s_percent_state_change (svcs s i)
    \<and> s_flapping_comment_id (svcs s' i) \<noteq> 0
    \<and> (s_flapping_comment_id (svcs s i) = 0
       \<longrightarrow> find_comment (comments s') (s_flapping_comment_id (svcs s' i)) SERVICE_COMMENT \<noteq> None)"
proof -
  let ?svc = "svcs s i"
  have ok: "comments_ok (comments s)" using assms by (simp add: flap_ready_def)
  obtain cid c' where c': "add_new_service_comment True (comments s) FLAPPING_COMMENT (Some (s_host_name ?svc))
      (Some (s_description ?svc)) (clock s) (Some ''(Nagios Process)'')
      (Some (flapping_text ''service'' ''>='' percent high)) False 0 False 0 = (OK, cid, c')"
    "comments_ok c'" "cid \<noteq> 0" "find_comment c' cid SERVICE_COMMENT \<noteq> None"
    by (rule add_service_comment_ok [OF ok])
  define s1 where "s1 = (if s_flapping_comment_id ?svc = 0
    then upd_svc i (\<lambda>v. v\<lparr>s_flapping_comment_id := cid\<rparr>) (s\<lparr>comments := c'\<rparr>) else s)"
  define s2 where "s2 = upd_svc i (\<lambda>v. v\<lparr>s_is_flapping := True,
    s_check_flapping_recovery_notification := (s_current_notification_number v > 0)\<rparr>) s1"
  have core: "flap_core s2 = flap_core s"
    by (simp add: s2_def s1_def flap_frame svc_flap_core_def svc_core_def)
  have facts: "svc_flap (svcs s2 i) = (True, s_flapping_comment_id (svcs s2 i), s_percent_state_change ?svc)"
    "s_flapping_comment_id (svcs s2 i) \<noteq> 0" "comments_ok (comments s2)"
    "s_flapping_comment_id ?svc = 0 \<Longrightarrow> find_comment (comments s2) (s_flapping_comment_id (svcs s2 i)) SERVICE_COMMENT \<noteq> None"
    using c'(2-4) assms by (simp_all add: s2_def s1_def svc_flap_def flap_ready_def)
  have "rings s2 = rings s" by (simp add: s2_def s1_def flap_frame)
  from flap_ready_frame [OF assms core this facts(3)] have ready: "flap_ready s2" .
  have run: "set_service_flap i percent high allow s =
      (if allow then notify_target (At_service i) NOTIFICATION_FLAPPINGSTART s2 else Some s2)"
    by (simp add: set_service_flap_def Let_def c'(1) s2_def s1_def)
  from notify_target_spec [OF ready, of "At_service i" NOTIFICATION_FLAPPINGSTART] obtain s3 where
    s3: "notify_target (At_service i) NOTIFICATION_FLAPPINGSTART s2 = Some s3" "flap_ready s3" "flap_core s3 = flap_core s2"
    "comments s3 = comments s2" "svc_flap (svcs s3 i) = svc_flap (svcs s2 i)" by blast
  show ?thesis
  proof (cases allow)
    case True
    with run s3 core facts show ?thesis by (intro exI [of _ s3]) (auto simp: svc_flap_def)
  next
    case False
    with run ready core facts show ?thesis by (intro exI [of _ s2]) (auto simp: svc_flap_def)
  qed
qed

lemma forget_service_flap_spec:
  assumes "flap_ready s"
  shows "\<exists>s'. forget_service_flap i s = Some s' \<and> flap_ready s' \<and> flap_core s' = flap_core s
    \<and> svc_flap (svcs s' i) = (False, 0, s_percent_state_change (svcs s i))
    \<and> (s_flapping_comment_id (svcs s i) \<noteq> 0
       \<longrightarrow> find_comment (comments s') (s_flapping_comment_id (svcs s i)) SERVICE_COMMENT = None)"
proof -
  let ?id = "s_flapping_comment_id (svcs s i)"
  have ok: "comments_ok (comments s)" using assms by (simp add: flap_ready_def)
  obtain r c' where c': "delete_comment (comments s) SERVICE_COMMENT ?id = Some (r, c')" "comments_ok c'"
    "find_comment c' ?id SERVICE_COMMENT = None" by (rule delete_comment_ok [OF ok])
  let ?s = "upd_svc i (\<lambda>v. v\<lparr>s_flapping_comment_id := 0, s_is_flapping := False\<rparr>)
    (s\<lparr>comments := if ?id \<noteq> 0 then c' else comments s\<rparr>)"
  have "forget_service_flap i s = Some ?s"
    using c'(1) by (simp add: forget_service_flap_def delete_service_comment_def)
  moreover have core: "flap_core ?s = flap_core s" by (simp add: flap_frame svc_flap_core_def svc_core_def)
  moreover have "flap_ready ?s" by (rule flap_ready_frame [OF assms core]) (use ok c'(2) in \<open>simp_all add: flap_frame\<close>)
  ultimately show ?thesis using c'(3) by (intro exI [of _ ?s]) (simp add: svc_flap_def)
qed

lemma flapping_over_service_spec:
  assumes "flap_ready s"
  shows "\<exists>s'. flapping_over_service i ty s = Some s' \<and> flap_ready s' \<and> flap_core s' = flap_core s
    \<and> svc_flap (svcs s' i) = svc_flap (svcs s i) \<and> comments s' = comments s"
proof -
  from notify_target_spec [OF assms, of "At_service i" ty] obtain s1 where
    s1: "notify_target (At_service i) ty s = Some s1" "flap_ready s1" "flap_core s1 = flap_core s"
    "comments s1 = comments s" "svc_flap (svcs s1 i) = svc_flap (svcs s i)" by blast
  from notify_target_spec [OF s1(2), of "At_service i" NOTIFICATION_RECOVERY] obtain s2 where
    s2: "notify_target (At_service i) NOTIFICATION_RECOVERY s1 = Some s2" "flap_ready s2" "flap_core s2 = flap_core s1"
    "comments s2 = comments s1" "svc_flap (svcs s2 i) = svc_flap (svcs s1 i)" by blast
  show ?thesis using s1 s2
    by (cases "s_check_flapping_recovery_notification (svcs s1 i) \<and> s_current_state (svcs s1 i) = STATE_OK")
      (auto simp: flapping_over_service_def)
qed

lemma upd_recovery_flag:
  fixes i :: nat
  assumes "flap_ready s"
  defines "s' \<equiv> upd_svc i (\<lambda>v. v\<lparr>s_check_flapping_recovery_notification := False\<rparr>) s"
  shows "flap_ready s'" "flap_core s' = flap_core s" "svc_flap (svcs s' i) = svc_flap (svcs s i)" "comments s' = comments s"
proof -
  show core: "flap_core s' = flap_core s" by (simp add: s'_def flap_frame svc_flap_core_def svc_core_def)
  show "flap_ready s'" by (rule flap_ready_frame [OF assms(1) core]) (use assms(1) in \<open>simp_all add: s'_def flap_ready_def flap_frame\<close>)
qed (simp_all add: s'_def svc_flap_def)

lemma clear_service_flap_spec:
  assumes "flap_ready s"
  shows "\<exists>s'. clear_service_flap i dis s = Some s' \<and> flap_ready s' \<and> flap_core s' = flap_core s
    \<and> svc_flap (svcs s' i) = (False, 0, s_percent_state_change (svcs s i))
    \<and> (s_flapping_comment_id (svcs s i) \<noteq> 0
       \<longrightarrow> find_comment (comments s') (s_flapping_comment_id (svcs s i)) SERVICE_COMMENT = None)"
proof -
  from forget_service_flap_spec [OF assms, of i] obtain s1 where
    s1: "forget_service_flap i s = Some s1" "flap_ready s1" "flap_core s1 = flap_core s"
    "svc_flap (svcs s1 i) = (False, 0, s_percent_state_change (svcs s i))"
    "s_flapping_comment_id (svcs s i) \<noteq> 0
       \<longrightarrow> find_comment (comments s1) (s_flapping_comment_id (svcs s i)) SERVICE_COMMENT = None" by blast
  from flapping_over_service_spec [OF s1(2), of i NOTIFICATION_FLAPPINGSTOP] obtain s2 where
    s2: "flapping_over_service i NOTIFICATION_FLAPPINGSTOP s1 = Some s2" "flap_ready s2" "flap_core s2 = flap_core s1"
    "svc_flap (svcs s2 i) = svc_flap (svcs s1 i)" "comments s2 = comments s1" by blast
  show ?thesis using s1 s2 upd_recovery_flag [OF s1(2), of i] upd_recovery_flag [OF s2(2), of i]
    by (cases dis) (auto simp: clear_service_flap_def)
qed

section \<open>Detection\<close>

lemma record_service_state_spec:
  fixes i :: nat and update :: bool
  assumes "flap_ready s"
  defines "s' \<equiv> record_service_state i update s"
  shows "flap_ready s'" "flap_core s' = flap_core s" "s_is_flapping (svcs s' i) = s_is_flapping (svcs s i)"
    "s_flapping_comment_id (svcs s' i) = s_flapping_comment_id (svcs s i)" "comments s' = comments s"
proof -
  have idx: "s_state_history_index (svcs s j) < MAX_STATE_HISTORY_ENTRIES" for j
    using assms(1) by (simp add: flap_ready_def rings_def)
  have "next_slot j < MAX_STATE_HISTORY_ENTRIES" for j
    by (simp add: next_slot_def MAX_STATE_HISTORY_ENTRIES_def)
  then have ring: "\<forall>j. fst (rings s') j < MAX_STATE_HISTORY_ENTRIES" "snd (rings s') = snd (rings s)"
    using idx by (auto simp: s'_def record_service_state_def rings_def Let_def)
  show core: "flap_core s' = flap_core s"
    by (auto simp: s'_def record_service_state_def Let_def flap_frame svc_flap_core_def svc_core_def)
  show cm: "comments s' = comments s" by (simp add: s'_def record_service_state_def Let_def)
  show "flap_ready s'"
    using assms(1) ring cm acyclic_links_frame [OF flap_coreD(3) [OF core]] by (simp add: flap_ready_def)
  show "s_is_flapping (svcs s' i) = s_is_flapping (svcs s i)"
    "s_flapping_comment_id (svcs s' i) = s_flapping_comment_id (svcs s i)"
    by (simp_all add: s'_def record_service_state_def Let_def)
qed

text \<open>The percentage a check computes, after it has recorded the state, and what becomes of the flag.\<close>

definition service_percent :: "nat \<Rightarrow> bool \<Rightarrow> daemon \<Rightarrow> rat" where
  "service_percent i update s = s_percent_state_change (svcs (record_service_state i update s) i)"

definition service_flaps :: "nat \<Rightarrow> bool \<Rightarrow> daemon \<Rightarrow> bool" where
  "service_flaps i update s \<longleftrightarrow> enable_flap_detection (globs s) \<and> s_flap_detection_enabled (svcs s i)
    \<and> (if service_percent i update s \<le> service_low_threshold s i then False
       else if service_percent i update s \<ge> service_high_threshold s i then True
       else s_is_flapping (svcs s i))"

lemma check_for_service_flapping_spec:
  assumes "flap_ready s" "s_state_type (svcs s i) \<noteq> SOFT_STATE \<or> s_current_state (svcs s i) = STATE_OK"
  shows "\<exists>s'. check_for_service_flapping i update allow s = Some s' \<and> flap_ready s' \<and> flap_core s' = flap_core s
    \<and> s_percent_state_change (svcs s' i) = service_percent i update s
    \<and> s_is_flapping (svcs s' i) = service_flaps i update s
    \<and> (let was = s_is_flapping (svcs s i); is = service_flaps i update s; old = s_flapping_comment_id (svcs s i);
           new = s_flapping_comment_id (svcs s' i) in
       if \<not> was \<and> is then new \<noteq> 0 \<and> (old = 0 \<longrightarrow> find_comment (comments s') new SERVICE_COMMENT \<noteq> None)
       else if was \<and> \<not> is then new = 0 \<and> (old \<noteq> 0 \<longrightarrow> find_comment (comments s') old SERVICE_COMMENT = None)
       else new = old \<and> comments s' = comments s)"
proof -
  let ?s = "record_service_state i update s" and ?p = "service_percent i update s"
  note rec = record_service_state_spec [OF assms(1), of i update]
  have globs: "globs ?s = globs s" by (rule flap_coreD(2) [OF rec(2)])
  have p: "s_percent_state_change (svcs ?s i) = ?p" by (simp add: service_percent_def)
  have idx: "\<not> s_state_history_index (svcs s i) \<ge> MAX_STATE_HISTORY_ENTRIES"
    using assms(1) by (simp add: flap_ready_def rings_def not_le)
  note clear = clear_service_flap_spec [OF rec(1), of i, unfolded svc_flap_def p rec(2-4)]
  note set = set_service_flap_spec [OF rec(1), of i ?p "service_high_threshold s i" allow, unfolded p rec(2-4)]
  have run: "check_for_service_flapping i update allow s =
      (if \<not> enable_flap_detection (globs s) \<or> \<not> s_flap_detection_enabled (svcs s i) then
        (if s_is_flapping (svcs s i) then clear_service_flap i True ?s else Some ?s)
      else if ?p > service_low_threshold s i \<and> ?p < service_high_threshold s i then Some ?s
      else
       let is_flapping = (if ?p \<le> service_low_threshold s i then False else ?p \<ge> service_high_threshold s i) in
       if is_flapping \<and> \<not> s_is_flapping (svcs s i) then set_service_flap i ?p (service_high_threshold s i) allow ?s
       else if \<not> is_flapping \<and> s_is_flapping (svcs s i) then clear_service_flap i False ?s
       else Some ?s)"
    using assms(2) idx by (auto simp: check_for_service_flapping_def Let_def p globs)
  consider (start) "\<not> s_is_flapping (svcs s i)" "service_flaps i update s"
    | (stop) "s_is_flapping (svcs s i)" "\<not> service_flaps i update s"
    | (same) "s_is_flapping (svcs s i) = service_flaps i update s" by blast
  then show ?thesis
  proof cases
    case start
    then have "check_for_service_flapping i update allow s = set_service_flap i ?p (service_high_threshold s i) allow ?s"
      by (auto simp: run service_flaps_def Let_def split: if_splits)
    with set start show ?thesis by (auto simp: Let_def)
  next
    case stop
    then have "\<exists>dis. check_for_service_flapping i update allow s = clear_service_flap i dis ?s"
      by (auto simp: run service_flaps_def Let_def split: if_splits)
    with clear stop show ?thesis by (fastforce simp: Let_def)
  next
    case same
    then have "check_for_service_flapping i update allow s = Some ?s"
      by (auto simp: run service_flaps_def Let_def split: if_splits)
    with rec p same show ?thesis by (intro exI [of _ ?s]) (simp add: Let_def)
  qed
qed

lemma check_for_service_flapping_total:
  assumes "flap_ready s"
  shows "\<exists>s'. check_for_service_flapping i update allow s = Some s' \<and> flap_ready s' \<and> flap_core s' = flap_core s"
proof (cases "s_state_type (svcs s i) \<noteq> SOFT_STATE \<or> s_current_state (svcs s i) = STATE_OK")
  case True
  from check_for_service_flapping_spec [OF assms True, of update allow] show ?thesis by blast
next
  case False
  with assms show ?thesis by (simp add: check_for_service_flapping_def)
qed

text \<open>The same for hosts.\<close>

lemma set_host_flap_spec:
  assumes "flap_ready s"
  shows "\<exists>s'. set_host_flap h percent high allow s = Some s' \<and> flap_ready s' \<and> flap_core s' = flap_core s
    \<and> h_is_flapping (hosts s' h) \<and> h_percent_state_change (hosts s' h) = h_percent_state_change (hosts s h)
    \<and> h_flapping_comment_id (hosts s' h) \<noteq> 0
    \<and> (h_flapping_comment_id (hosts s h) = 0
       \<longrightarrow> find_comment (comments s') (h_flapping_comment_id (hosts s' h)) HOST_COMMENT \<noteq> None)"
proof -
  let ?hst = "hosts s h"
  have ok: "comments_ok (comments s)" using assms by (simp add: flap_ready_def)
  obtain cid c' where c': "add_new_host_comment True (comments s) FLAPPING_COMMENT (Some (h_name ?hst))
      (clock s) (Some ''(Nagios Process)'')
      (Some (flapping_text ''host'' ''>'' percent high)) False 0 False 0 = (OK, cid, c')"
    "comments_ok c'" "cid \<noteq> 0" "find_comment c' cid HOST_COMMENT \<noteq> None"
    by (rule add_host_comment_ok [OF ok])
  define s1 where "s1 = (if h_flapping_comment_id ?hst = 0
    then upd_host h (\<lambda>v. v\<lparr>h_flapping_comment_id := cid\<rparr>) (s\<lparr>comments := c'\<rparr>) else s)"
  define s2 where "s2 = upd_host h (\<lambda>v. v\<lparr>h_is_flapping := True,
    h_check_flapping_recovery_notification := (h_current_notification_number v > 0)\<rparr>) s1"
  have core: "flap_core s2 = flap_core s"
    by (simp add: s2_def s1_def flap_frame host_flap_core_def host_core_def)
  have facts: "host_flap (hosts s2 h) = (True, h_flapping_comment_id (hosts s2 h), h_percent_state_change ?hst)"
    "h_flapping_comment_id (hosts s2 h) \<noteq> 0" "comments_ok (comments s2)"
    "h_flapping_comment_id ?hst = 0 \<Longrightarrow> find_comment (comments s2) (h_flapping_comment_id (hosts s2 h)) HOST_COMMENT \<noteq> None"
    using c'(2-4) assms by (simp_all add: s2_def s1_def host_flap_def flap_ready_def)
  have "rings s2 = rings s" by (simp add: s2_def s1_def flap_frame)
  from flap_ready_frame [OF assms core this facts(3)] have ready: "flap_ready s2" .
  have run: "set_host_flap h percent high allow s =
      (if allow then notify_target (At_host h) NOTIFICATION_FLAPPINGSTART s2 else Some s2)"
    by (simp add: set_host_flap_def Let_def c'(1) s2_def s1_def)
  from notify_target_spec [OF ready, of "At_host h" NOTIFICATION_FLAPPINGSTART] obtain s3 where
    s3: "notify_target (At_host h) NOTIFICATION_FLAPPINGSTART s2 = Some s3" "flap_ready s3" "flap_core s3 = flap_core s2"
    "comments s3 = comments s2" "host_flap (hosts s3 h) = host_flap (hosts s2 h)" by blast
  show ?thesis
  proof (cases allow)
    case True
    with run s3 core facts show ?thesis by (intro exI [of _ s3]) (auto simp: host_flap_def)
  next
    case False
    with run ready core facts show ?thesis by (intro exI [of _ s2]) (auto simp: host_flap_def)
  qed
qed

lemma forget_host_flap_spec:
  assumes "flap_ready s"
  shows "\<exists>s'. forget_host_flap h s = Some s' \<and> flap_ready s' \<and> flap_core s' = flap_core s
    \<and> host_flap (hosts s' h) = (False, 0, h_percent_state_change (hosts s h))
    \<and> (h_flapping_comment_id (hosts s h) \<noteq> 0
       \<longrightarrow> find_comment (comments s') (h_flapping_comment_id (hosts s h)) HOST_COMMENT = None)"
proof -
  let ?id = "h_flapping_comment_id (hosts s h)"
  have ok: "comments_ok (comments s)" using assms by (simp add: flap_ready_def)
  obtain r c' where c': "delete_comment (comments s) HOST_COMMENT ?id = Some (r, c')" "comments_ok c'"
    "find_comment c' ?id HOST_COMMENT = None" by (rule delete_comment_ok [OF ok])
  let ?s = "upd_host h (\<lambda>v. v\<lparr>h_flapping_comment_id := 0, h_is_flapping := False\<rparr>)
    (s\<lparr>comments := if ?id \<noteq> 0 then c' else comments s\<rparr>)"
  have "forget_host_flap h s = Some ?s"
    using c'(1) by (simp add: forget_host_flap_def delete_host_comment_def)
  moreover have core: "flap_core ?s = flap_core s" by (simp add: flap_frame host_flap_core_def host_core_def)
  moreover have "flap_ready ?s" by (rule flap_ready_frame [OF assms core]) (use ok c'(2) in \<open>simp_all add: flap_frame\<close>)
  ultimately show ?thesis using c'(3) by (intro exI [of _ ?s]) (simp add: host_flap_def)
qed

lemma flapping_over_host_spec:
  assumes "flap_ready s"
  shows "\<exists>s'. flapping_over_host h ty s = Some s' \<and> flap_ready s' \<and> flap_core s' = flap_core s
    \<and> host_flap (hosts s' h) = host_flap (hosts s h) \<and> comments s' = comments s"
proof -
  from notify_target_spec [OF assms, of "At_host h" ty] obtain s1 where
    s1: "notify_target (At_host h) ty s = Some s1" "flap_ready s1" "flap_core s1 = flap_core s"
    "comments s1 = comments s" "host_flap (hosts s1 h) = host_flap (hosts s h)" by blast
  from notify_target_spec [OF s1(2), of "At_host h" NOTIFICATION_RECOVERY] obtain s2 where
    s2: "notify_target (At_host h) NOTIFICATION_RECOVERY s1 = Some s2" "flap_ready s2" "flap_core s2 = flap_core s1"
    "comments s2 = comments s1" "host_flap (hosts s2 h) = host_flap (hosts s1 h)" by blast
  show ?thesis using s1 s2
    by (cases "h_check_flapping_recovery_notification (hosts s1 h) \<and> h_current_state (hosts s1 h) = STATE_OK")
      (auto simp: flapping_over_host_def)
qed

lemma upd_host_recovery_flag:
  fixes h :: nat
  assumes "flap_ready s"
  defines "s' \<equiv> upd_host h (\<lambda>v. v\<lparr>h_check_flapping_recovery_notification := False\<rparr>) s"
  shows "flap_ready s'" "flap_core s' = flap_core s" "host_flap (hosts s' h) = host_flap (hosts s h)" "comments s' = comments s"
proof -
  show core: "flap_core s' = flap_core s" by (simp add: s'_def flap_frame host_flap_core_def host_core_def)
  show "flap_ready s'" by (rule flap_ready_frame [OF assms(1) core]) (use assms(1) in \<open>simp_all add: s'_def flap_ready_def flap_frame\<close>)
qed (simp_all add: s'_def host_flap_def)

lemma clear_host_flap_spec:
  assumes "flap_ready s"
  shows "\<exists>s'. clear_host_flap h dis s = Some s' \<and> flap_ready s' \<and> flap_core s' = flap_core s
    \<and> host_flap (hosts s' h) = (False, 0, h_percent_state_change (hosts s h))
    \<and> (h_flapping_comment_id (hosts s h) \<noteq> 0
       \<longrightarrow> find_comment (comments s') (h_flapping_comment_id (hosts s h)) HOST_COMMENT = None)"
proof -
  from forget_host_flap_spec [OF assms, of h] obtain s1 where
    s1: "forget_host_flap h s = Some s1" "flap_ready s1" "flap_core s1 = flap_core s"
    "host_flap (hosts s1 h) = (False, 0, h_percent_state_change (hosts s h))"
    "h_flapping_comment_id (hosts s h) \<noteq> 0
       \<longrightarrow> find_comment (comments s1) (h_flapping_comment_id (hosts s h)) HOST_COMMENT = None" by blast
  from flapping_over_host_spec [OF s1(2), of h NOTIFICATION_FLAPPINGSTOP] obtain s2 where
    s2: "flapping_over_host h NOTIFICATION_FLAPPINGSTOP s1 = Some s2" "flap_ready s2" "flap_core s2 = flap_core s1"
    "host_flap (hosts s2 h) = host_flap (hosts s1 h)" "comments s2 = comments s1" by blast
  show ?thesis using s1 s2 upd_host_recovery_flag [OF s1(2), of h] upd_host_recovery_flag [OF s2(2), of h]
    by (cases dis) (auto simp: clear_host_flap_def)
qed

lemma record_host_state_spec:
  fixes h :: nat and update actual :: bool
  assumes "flap_ready s"
  defines "s' \<equiv> record_host_state h update actual s"
  shows "flap_ready s'" "flap_core s' = flap_core s" "h_is_flapping (hosts s' h) = h_is_flapping (hosts s h)"
    "h_flapping_comment_id (hosts s' h) = h_flapping_comment_id (hosts s h)" "comments s' = comments s"
proof -
  have idx: "h_state_history_index (hosts s j) < MAX_STATE_HISTORY_ENTRIES" for j
    using assms(1) by (simp add: flap_ready_def rings_def)
  have "next_slot j < MAX_STATE_HISTORY_ENTRIES" for j
    by (simp add: next_slot_def MAX_STATE_HISTORY_ENTRIES_def)
  then have ring: "\<forall>j. snd (rings s') j < MAX_STATE_HISTORY_ENTRIES" "fst (rings s') = fst (rings s)"
    using idx by (auto simp: s'_def record_host_state_def rings_def Let_def)
  show core: "flap_core s' = flap_core s"
    by (auto simp: s'_def record_host_state_def Let_def flap_frame host_flap_core_def host_core_def)
  show cm: "comments s' = comments s" by (simp add: s'_def record_host_state_def Let_def)
  show "flap_ready s'"
    using assms(1) ring cm acyclic_links_frame [OF flap_coreD(3) [OF core]] by (simp add: flap_ready_def)
  show "h_is_flapping (hosts s' h) = h_is_flapping (hosts s h)"
    "h_flapping_comment_id (hosts s' h) = h_flapping_comment_id (hosts s h)"
    by (simp_all add: s'_def record_host_state_def Let_def)
qed

text \<open>The percentage a check computes, after it has recorded the state, and what becomes of the flag.\<close>

definition host_percent :: "nat \<Rightarrow> bool \<Rightarrow> bool \<Rightarrow> daemon \<Rightarrow> rat" where
  "host_percent h update actual s = h_percent_state_change (hosts (record_host_state h update actual s) h)"

definition host_flaps :: "nat \<Rightarrow> bool \<Rightarrow> bool \<Rightarrow> daemon \<Rightarrow> bool" where
  "host_flaps h update actual s \<longleftrightarrow> enable_flap_detection (globs s) \<and> h_flap_detection_enabled (hosts s h)
    \<and> (if host_percent h update actual s \<le> host_low_threshold s h then False
       else if host_percent h update actual s \<ge> host_high_threshold s h then True
       else h_is_flapping (hosts s h))"

lemma check_for_host_flapping_spec:
  assumes "flap_ready s"
  shows "\<exists>s'. check_for_host_flapping h update actual allow s = Some s' \<and> flap_ready s' \<and> flap_core s' = flap_core s
    \<and> h_percent_state_change (hosts s' h) = host_percent h update actual s
    \<and> h_is_flapping (hosts s' h) = host_flaps h update actual s
    \<and> (let was = h_is_flapping (hosts s h); is = host_flaps h update actual s; old = h_flapping_comment_id (hosts s h);
           new = h_flapping_comment_id (hosts s' h) in
       if \<not> was \<and> is then new \<noteq> 0 \<and> (old = 0 \<longrightarrow> find_comment (comments s') new HOST_COMMENT \<noteq> None)
       else if was \<and> \<not> is then new = 0 \<and> (old \<noteq> 0 \<longrightarrow> find_comment (comments s') old HOST_COMMENT = None)
       else new = old \<and> comments s' = comments s)"
proof -
  let ?s = "record_host_state h update actual s" and ?p = "host_percent h update actual s"
  note rec = record_host_state_spec [OF assms(1), of h update actual]
  have globs: "globs ?s = globs s" by (rule flap_coreD(2) [OF rec(2)])
  have p: "h_percent_state_change (hosts ?s h) = ?p" by (simp add: host_percent_def)
  have idx: "\<not> h_state_history_index (hosts s h) \<ge> MAX_STATE_HISTORY_ENTRIES"
    using assms(1) by (simp add: flap_ready_def rings_def not_le)
  note clear = clear_host_flap_spec [OF rec(1), of h, unfolded host_flap_def p rec(2-4)]
  note set = set_host_flap_spec [OF rec(1), of h ?p "host_high_threshold s h" allow, unfolded p rec(2-4)]
  have run: "check_for_host_flapping h update actual allow s =
      (if \<not> enable_flap_detection (globs s) \<or> \<not> h_flap_detection_enabled (hosts s h) then
        (if h_is_flapping (hosts s h) then clear_host_flap h True ?s else Some ?s)
      else if ?p > host_low_threshold s h \<and> ?p < host_high_threshold s h then Some ?s
      else
       let is_flapping = (if ?p \<le> host_low_threshold s h then False else ?p \<ge> host_high_threshold s h) in
       if is_flapping \<and> \<not> h_is_flapping (hosts s h) then set_host_flap h ?p (host_high_threshold s h) allow ?s
       else if \<not> is_flapping \<and> h_is_flapping (hosts s h) then clear_host_flap h False ?s
       else Some ?s)"
    using idx by (auto simp: check_for_host_flapping_def Let_def p globs)
  consider (start) "\<not> h_is_flapping (hosts s h)" "host_flaps h update actual s"
    | (stop) "h_is_flapping (hosts s h)" "\<not> host_flaps h update actual s"
    | (same) "h_is_flapping (hosts s h) = host_flaps h update actual s" by blast
  then show ?thesis
  proof cases
    case start
    then have "check_for_host_flapping h update actual allow s = set_host_flap h ?p (host_high_threshold s h) allow ?s"
      by (auto simp: run host_flaps_def Let_def split: if_splits)
    with set start show ?thesis by (auto simp: Let_def)
  next
    case stop
    then have "\<exists>dis. check_for_host_flapping h update actual allow s = clear_host_flap h dis ?s"
      by (auto simp: run host_flaps_def Let_def split: if_splits)
    with clear stop show ?thesis by (fastforce simp: Let_def)
  next
    case same
    then have "check_for_host_flapping h update actual allow s = Some ?s"
      by (auto simp: run host_flaps_def Let_def split: if_splits)
    with rec p same show ?thesis by (intro exI [of _ ?s]) (simp add: Let_def)
  qed
qed

section \<open>Properties\<close>

text \<open>C19. The percentage is five times the sum of the weights of the twenty changes in the ring, from 0.75 for
  the oldest to 1.25 for the newest: it lies between 0 and 100, and is 0 exactly if no state changed.\<close>

theorem flap_percent_bounds:
  assumes "index < MAX_STATE_HISTORY_ENTRIES"
  shows "curved_percent_change hist index = 5 * (\<Sum>k<20. change_at hist index k)
    \<and> 0 \<le> curved_percent_change hist index \<and> curved_percent_change hist index \<le> 100
    \<and> (curved_percent_change hist index = 0 \<longleftrightarrow> (\<forall>k<20. ring hist index k = ring hist index (k + 1)))"
proof (intro conjI)
  note sum = percent_sum [OF assms, of hist]
  show "curved_percent_change hist index = 5 * (\<Sum>k<20. change_at hist index k)" by (rule sum)
  have pos: "0 \<le> (\<Sum>k<20. change_at hist index k)" by (intro sum_nonneg change_at_bounds(1))
  with sum show "0 \<le> curved_percent_change hist index" by simp
  have "(\<Sum>k<20. change_at hist index k) \<le> (\<Sum>k<20. 3/4 + of_nat k / 38)"
    by (intro sum_mono change_at_bounds(2))
  with sum weights_sum show "curved_percent_change hist index \<le> 100" by simp
  have "(\<Sum>k<20. change_at hist index k) = 0 \<longleftrightarrow> (\<forall>k \<in> {..<20}. change_at hist index k = 0)"
    by (intro sum_nonneg_eq_0_iff) (simp_all add: change_at_bounds(1))
  with sum show "curved_percent_change hist index = 0 \<longleftrightarrow> (\<forall>k<20. ring hist index k = ring hist index (k + 1))"
    by (auto simp: change_at_bounds(3))
qed

theorem flap_percent_bounds_witness:
  "curved_percent_change [0, 2, 0, 0, 0, 0, 0, 0, 0, 0, 0, 0, 0, 0, 0, 0, 0, 0, 0, 0, 1] 20
      = 5 * (\<Sum>k<20. change_at [0, 2, 0, 0, 0, 0, 0, 0, 0, 0, 0, 0, 0, 0, 0, 0, 0, 0, 0, 0, 1] 20 k)"
  using flap_percent_bounds [of 20 "[0, 2, 0, 0, 0, 0, 0, 0, 0, 0, 0, 0, 0, 0, 0, 0, 0, 0, 0, 0, 1]"]
  by (simp add: MAX_STATE_HISTORY_ENTRIES_def)

text \<open>C17. A check of a service for flapping returns.  It sets the flag at or above the high threshold, clears
  it at or below the low one, keeps it in between, and clears it where detection is off; a service that
  starts to flap has a comment that says so, and when it stops the comment is gone.\<close>

theorem service_flapping_detected:
  assumes "flap_ready s" "s_state_type (svcs s i) \<noteq> SOFT_STATE \<or> s_current_state (svcs s i) = STATE_OK"
  shows "\<exists>s'. check_for_service_flapping i update allow s = Some s'
    \<and> s_percent_state_change (svcs s' i) = service_percent i update s
    \<and> s_is_flapping (svcs s' i) = service_flaps i update s
    \<and> (let was = s_is_flapping (svcs s i); is = service_flaps i update s; old = s_flapping_comment_id (svcs s i);
           new = s_flapping_comment_id (svcs s' i) in
       if \<not> was \<and> is then new \<noteq> 0 \<and> (old = 0 \<longrightarrow> find_comment (comments s') new SERVICE_COMMENT \<noteq> None)
       else if was \<and> \<not> is then new = 0 \<and> (old \<noteq> 0 \<longrightarrow> find_comment (comments s') old SERVICE_COMMENT = None)
       else new = old \<and> comments s' = comments s)"
  using check_for_service_flapping_spec [OF assms, of update allow] by blast

definition restless :: daemon where
  "restless = blank_daemon\<lparr>globs := blank_globals\<lparr>enable_flap_detection := True\<rparr>, svcs := (\<lambda>i.
     blank_service\<lparr>s_flap_detection_enabled := True, s_low_flap_threshold := 20, s_high_flap_threshold := 30,
       s_state_history := [0, 2, 0, 2, 0, 2, 0, 2, 0, 2, 0, 2, 0, 2, 0, 2, 0, 2, 0, 2, 0]\<rparr>)\<rparr>"

lemma restless_ready: "flap_ready restless"
proof -
  have "links restless = links blank_daemon"
    by (simp add: links_def restless_def blank_daemon_def blank_service_def)
  then have "acyclic_links restless" using acyclic_links_frame acyclic_links_blank by blast
  then show ?thesis
    by (simp add: flap_ready_def comments_ok_def no_comments_wf rings_def restless_def blank_daemon_def no_comments_def
      blank_service_def blank_host_def MAX_STATE_HISTORY_ENTRIES_def cm_wf_def)
qed

theorem service_flapping_detected_witness:
  "\<exists>s'. check_for_service_flapping 0 False True restless = Some s' \<and> s_is_flapping (svcs s' 0)"
proof -
  have "service_percent 0 False restless = curved_percent_change (s_state_history (svcs restless 0)) 0"
    by (simp add: service_percent_def record_service_state_def Let_def restless_def blank_service_def)
  also have "\<dots> = 100" unfolding restless_def by code_simp
  finally have "service_flaps 0 False restless"
    by (simp add: service_flaps_def service_low_threshold_def service_high_threshold_def restless_def)
  moreover have "s_state_type (svcs restless 0) \<noteq> SOFT_STATE \<or> s_current_state (svcs restless 0) = STATE_OK"
    by (simp add: restless_def blank_service_def)
  ultimately show ?thesis using service_flapping_detected [OF restless_ready, of 0 False True] by blast
qed

end
