(* ===== verification/PluginOutput.thy ===== *)
theory PluginOutput
  imports Prelude
begin

text \<open>
  The output of a plugin: \<open>parse_check_output\<close> of \<open>base/checks.c\<close> splits it into the short output, the
  long output and performance data; \<open>base/utils.c\<close> escapes newlines in the long output and undoes that;
  \<open>common/shared.c\<close> has the tokenizer and the trimming.

  A string has no NUL characters; a buffer that is written to in place is the string it holds afterwards.
\<close>

section \<open>Characters\<close>

definition newline :: char where "newline = CHR 0x0A"
definition backslash :: char where "backslash = CHR 0x5C"
definition pipe :: char where "pipe = CHR 0x7C"

lemma special_chars [simp]: "newline \<noteq> backslash" "backslash \<noteq> newline" "backslash \<noteq> CHR ''n''" "newline \<noteq> pipe"
  "pipe \<noteq> newline" "CHR ''n'' \<noteq> newline" "newline \<noteq> CHR ''n''"
  "CHR ''n'' \<noteq> backslash"
  by (simp_all add: newline_def backslash_def pipe_def)

definition is_blank :: "char \<Rightarrow> bool" where
  "is_blank c \<longleftrightarrow> c \<in> {CHR '' '', CHR 0x0A, CHR 0x0D, CHR 0x09}"

text \<open>The loop from the end of the string, then the one from its start.\<close>

definition strip :: "string \<Rightarrow> string" where
  "strip buffer = (let stripped = rev (dropWhile is_blank (rev buffer)) in dropWhile is_blank stripped)"

definition replace_semicolons :: "string \<Rightarrow> string" where
  "replace_semicolons s = map (\<lambda>c. if c = CHR '';'' then CHR '':'' else c) s"

text \<open>The next token and what is left for the call after it.\<close>

definition my_strtok_with_free :: "string \<Rightarrow> char \<Rightarrow> (string \<times> string) option" where
  "my_strtok_with_free buffer token =
    (if buffer = [] then None
     else Some (takeWhile (\<lambda>c. c \<noteq> token) buffer, drop 1 (dropWhile (\<lambda>c. c \<noteq> token) buffer)))"

section \<open>Escapes\<close>

fun escape_chars :: "string \<Rightarrow> string" where
  "escape_chars [] = []"
| "escape_chars (c # cs) =
    (if c = backslash then backslash # backslash # escape_chars cs
     else if c = newline then backslash # CHR ''n'' # escape_chars cs
     else c # escape_chars cs)"

definition escape_newlines :: "string option \<Rightarrow> string option" where
  "escape_newlines rawbuf = map_option escape_chars rawbuf"

fun unescape_chars :: "string \<Rightarrow> string" where
  "unescape_chars (c # d # cs) =
    (if c = backslash \<and> d = backslash then backslash # unescape_chars cs
     else if c = backslash \<and> d = CHR ''n'' then newline # unescape_chars cs
     else c # unescape_chars (d # cs))"
| "unescape_chars cs = cs"

definition unescape_check_result_output :: "string option \<Rightarrow> string option" where
  "unescape_check_result_output rawbuf = map_option unescape_chars rawbuf"

section \<open>Parsing\<close>

text \<open>The lines the loop handles: a newline at the very end starts no further line.\<close>

function output_lines :: "string \<Rightarrow> string list" where
  "output_lines [] = []"
| "output_lines (c # cs) = takeWhile (\<lambda>x. x \<noteq> newline) (c # cs)
    # output_lines (drop 1 (dropWhile (\<lambda>x. x \<noteq> newline) (c # cs)))"
  by pat_completeness auto
termination
proof (relation "measure length")
  fix c cs
  have "length (dropWhile (\<lambda>x. x \<noteq> newline) (c # cs)) \<le> length (c # cs)" by (rule length_dropWhile_le)
  then show "(drop 1 (dropWhile (\<lambda>x. x \<noteq> newline) (c # cs)), c # cs) \<in> measure length" by auto
qed simp

record parsed =
  short_text :: "string option"
  long_text :: string
  perf_text :: string
  in_perf_data :: bool

definition add_perf :: "string \<Rightarrow> parsed \<Rightarrow> parsed" where
  "add_perf t p = p\<lparr>perf_text := perf_text p @ (if perf_text p \<noteq> '''' then '' '' else '''') @ t\<rparr>"

definition add_long :: "nat \<Rightarrow> string \<Rightarrow> parsed \<Rightarrow> parsed" where
  "add_long current_line t p = p\<lparr>long_text := long_text p @ (if current_line > 2 then [newline] else []) @ t\<rparr>"

definition parse_line :: "nat \<Rightarrow> string \<Rightarrow> parsed \<Rightarrow> parsed" where
  "parse_line current_line buf p =
    (if current_line = 1 then
       (case my_strtok_with_free buf pipe of None \<Rightarrow> p
        | Some (ptr, rest) \<Rightarrow>
           let p = p\<lparr>short_text := Some (strip ptr)\<rparr> in
           (case my_strtok_with_free rest newline of None \<Rightarrow> p
            | Some (perf, _) \<Rightarrow> p\<lparr>perf_text := perf_text p @ perf\<rparr>))
     else if in_perf_data p then add_perf buf p
     else if pipe \<in> set buf then
       let p = p\<lparr>in_perf_data := True\<rparr> in
       (case my_strtok_with_free buf pipe of None \<Rightarrow> p
        | Some (ptr, rest) \<Rightarrow>
           let p = add_long current_line ptr p in
           (case my_strtok_with_free rest newline of None \<Rightarrow> p
            | Some (perf, _) \<Rightarrow> add_perf perf p))
     else add_long current_line buf p)"

fun parse_lines :: "nat \<Rightarrow> string list \<Rightarrow> parsed \<Rightarrow> parsed" where
  "parse_lines n [] p = p"
| "parse_lines n (l # ls) p = parse_lines (n + 1) ls (parse_line n l p)"

definition parse_check_output :: "string option \<Rightarrow> bool \<Rightarrow> bool \<Rightarrow> string option \<times> string option \<times> string option" where
  "parse_check_output buf escape_newlines_please newlines_are_escaped =
    (case buf of None \<Rightarrow> (None, None, None)
     | Some text \<Rightarrow>
        if text = '''' then (None, None, None)
        else
         let text = (if newlines_are_escaped then unescape_chars text else text);
             p = parse_lines 1 (output_lines text)
               \<lparr>short_text = None, long_text = '''', perf_text = '''', in_perf_data = False\<rparr>
         in (short_text p,
             if long_text p = '''' then None
             else if escape_newlines_please then escape_newlines (Some (long_text p)) else Some (long_text p),
             if perf_text p = '''' then None else Some (strip (perf_text p))))"

section \<open>Lemmas\<close>

lemma unescape_escape: "unescape_chars (escape_chars s) = s"
proof (induction s)
  case (Cons c cs)
  show ?case
  proof (cases "c = backslash \<or> c = newline")
    case True
    with Cons show ?thesis by auto
  next
    case False
    with Cons show ?thesis by (cases "escape_chars cs") auto
  qed
qed simp

lemma escape_no_newline: "newline \<notin> set (escape_chars s)"
  by (induction s) auto

lemma strip_id:
  assumes "s = [] \<or> \<not> is_blank (hd s) \<and> \<not> is_blank (last s)"
  shows "strip s = s"
proof -
  have id: "dropWhile is_blank xs = xs" if "xs = [] \<or> \<not> is_blank (hd xs)" for xs
    using that by (cases xs) auto
  have "dropWhile is_blank (rev s) = rev s" by (rule id) (use assms in \<open>auto simp: hd_rev\<close>)
  then show ?thesis using id [of s] assms by (auto simp: strip_def)
qed

text \<open>Lines written one after the other.\<close>

definition write_lines :: "string list \<Rightarrow> string" where
  "write_lines ls = concat (map (\<lambda>l. l @ [newline]) ls)"

lemma output_lines_write: "\<forall>l \<in> set ls. newline \<notin> set l \<Longrightarrow> output_lines (write_lines ls) = ls"
proof (induction ls)
  case Nil
  show ?case by (simp add: write_lines_def)
next
  case (Cons l ls)
  have split: "takeWhile (\<lambda>x. x \<noteq> newline) (l @ newline # t) = l" "dropWhile (\<lambda>x. x \<noteq> newline) (l @ newline # t) = newline # t" for t
    using Cons.prems by (auto simp: takeWhile_append dropWhile_append)
  obtain c cs where c: "write_lines (l # ls) = c # cs" by (cases l) (auto simp: write_lines_def)
  have "write_lines (l # ls) = l @ newline # write_lines ls" by (simp add: write_lines_def)
  then have "output_lines (write_lines (l # ls)) = l # output_lines (write_lines ls)"
    using split [of "write_lines ls"] c by (metis One_nat_def drop0 drop_Suc_Cons output_lines.simps(2))
  with Cons show ?case by simp
qed

lemma strtok_absent: "t \<notin> set s \<Longrightarrow> s \<noteq> [] \<Longrightarrow> my_strtok_with_free s t = Some (s, [])"
proof -
  assume a: "t \<notin> set s" "s \<noteq> []"
  then have "\<forall>x \<in> set s. x \<noteq> t" by auto
  then have "takeWhile (\<lambda>c. c \<noteq> t) s = s" and d: "dropWhile (\<lambda>c. c \<noteq> t) s = []"
    by (simp_all only: takeWhile_eq_all_conv dropWhile_eq_Nil_conv)
  with a(2) show ?thesis unfolding my_strtok_with_free_def d by simp
qed

lemma strtok_found: "t \<notin> set s \<Longrightarrow> my_strtok_with_free (s @ t # r) t = Some (s, r)"
  by (auto simp add: my_strtok_with_free_def takeWhile_append dropWhile_append)

lemma strtok_nil [simp]: "my_strtok_with_free [] t = None"
  by (simp add: my_strtok_with_free_def)

text \<open>The first line: the short output, and performance data after a bar.\<close>

lemma parse_first:
  assumes "pipe \<notin> set short" "newline \<notin> set perf"
  shows "parse_line 1 (short @ pipe # perf) p = p\<lparr>short_text := Some (strip short), perf_text := perf_text p @ perf\<rparr>"
  using assms(2) by (cases "perf = []") (simp_all add: parse_line_def strtok_found assms(1) strtok_absent Let_def)

lemma parse_first_plain:
  assumes "pipe \<notin> set short" "short \<noteq> []"
  shows "parse_line 1 short p = p\<lparr>short_text := Some (strip short)\<rparr>"
  using assms by (simp add: parse_line_def strtok_absent Let_def)

text \<open>The lines of long output, joined by newlines.\<close>

fun join_lines :: "string list \<Rightarrow> string" where
  "join_lines [] = []"
| "join_lines [l] = l"
| "join_lines (l # ls) = l @ newline # join_lines ls"

lemma parse_more_long:
  assumes "\<forall>l \<in> set ls. pipe \<notin> set l" "\<not> in_perf_data p" "2 < n"
  shows "parse_lines n ls p = p\<lparr>long_text := long_text p @ concat (map (\<lambda>l. newline # l) ls)\<rparr>"
  using assms
proof (induction ls arbitrary: n p)
  case (Cons l ls)
  have "parse_line n l p = p\<lparr>long_text := long_text p @ newline # l\<rparr>" using Cons.prems by (auto simp: parse_line_def add_long_def)
  with Cons show ?case by simp
qed simp

lemma join_lines_concat: "join_lines (l # ls) = l @ concat (map (\<lambda>l. newline # l) ls)"
  by (induction ls arbitrary: l) auto

lemma parse_long:
  assumes "\<forall>l \<in> set ls. pipe \<notin> set l" "\<not> in_perf_data p" "long_text p = []"
  shows "parse_lines 2 ls p = p\<lparr>long_text := join_lines ls\<rparr>"
proof (cases ls)
  case Nil
  with assms(3) show ?thesis by (cases p) simp
next
  case (Cons l r)
  have "parse_line 2 l p = p\<lparr>long_text := l\<rparr>" using assms Cons by (auto simp: parse_line_def add_long_def)
  with assms Cons show ?thesis using parse_more_long [of r "p\<lparr>long_text := l\<rparr>" 3] by (simp add: join_lines_concat)
qed

text \<open>C32. What a plugin prints is what the core reads, also through the file of results, where newlines are escaped: a first line
  \<open>short|perf\<close> and lines of long output without bars give the short output and the performance data, trimmed, and the
  long output, escaped when asked for.\<close>

theorem parse_check_output_reads:
  assumes "pipe \<notin> set short" "newline \<notin> set short" "newline \<notin> set perf" "perf \<noteq> []"
    "\<forall>l \<in> set ls. pipe \<notin> set l \<and> newline \<notin> set l" "join_lines ls \<noteq> []"
  shows "parse_check_output (Some (if esc then escape_chars (write_lines ((short @ pipe # perf) # ls))
      else write_lines ((short @ pipe # perf) # ls))) please esc
    = (Some (strip short), Some (if please then escape_chars (join_lines ls) else join_lines ls), Some (strip perf))"
proof -
  let ?t = "write_lines ((short @ pipe # perf) # ls)"
  have ne: "?t \<noteq> []" by (simp add: write_lines_def)
  then have "escape_chars ?t \<noteq> []" by (cases ?t) auto
  moreover have "output_lines ?t = (short @ pipe # perf) # ls" by (rule output_lines_write) (use assms in auto)
  moreover have "parse_lines 1 ((short @ pipe # perf) # ls) \<lparr>short_text = None, long_text = [], perf_text = [], in_perf_data = False\<rparr>
      = \<lparr>short_text = Some (strip short), long_text = join_lines ls, perf_text = perf, in_perf_data = False\<rparr>"
    using assms by (simp add: parse_first [unfolded One_nat_def] parse_long [unfolded numeral_2_eq_2])
  ultimately show ?thesis using assms ne
    by (simp add: parse_check_output_def Let_def unescape_escape escape_newlines_def del: parse_lines.simps)
qed

theorem parse_check_output_reads_witness:
  "parse_check_output (Some (if True then escape_chars (write_lines ((''OK '' @ pipe # ''a=1'') # [''x'', ''y'']))
      else write_lines ((''OK '' @ pipe # ''a=1'') # [''x'', ''y'']))) True True
    = (Some (strip ''OK ''), Some (if True then escape_chars (join_lines [''x'', ''y'']) else join_lines [''x'', ''y'']),
       Some (strip ''a=1''))"
  by (rule parse_check_output_reads) (simp_all add: pipe_def newline_def)

text \<open>C38. Escaping is undone exactly: text that is escaped for a file of one line per entry holds no newline, and reading it back gives
  the text.\<close>

theorem escape_newlines_roundtrip:
  "unescape_check_result_output (escape_newlines rawbuf) = rawbuf
   \<and> (case escape_newlines rawbuf of None \<Rightarrow> rawbuf = None | Some s \<Rightarrow> newline \<notin> set s)"
  by (cases rawbuf) (simp_all add: escape_newlines_def unescape_check_result_output_def unescape_escape escape_no_newline)

end
