(* ===== verification/Checks.thy ===== *)
theory Checks
  imports Flapping PluginOutput
begin

text \<open>
  Checks of services and hosts, from \<open>base/checks.c\<close>: when a check may run, how it is started and put
  back when it cannot run, the choice between an event that is scheduled already and a new one, the
  freshness of results and the checks that were lost.  The handling of results is in CheckResults.

  \<^item> \<open>next_check_event\<close> points to an event of the queue; a dangling pointer is \<open>None\<close>.
  \<^item> The expansion of macros and the workers are outside: what they report is an argument of the
    functions that start a check.
  \<^item> Check statistics are not kept.
\<close>

section \<open>Options\<close>

definition CHECK_OPTION_NONE :: u32 where "CHECK_OPTION_NONE = 0"
definition CHECK_OPTION_FORCE_EXECUTION :: u32 where "CHECK_OPTION_FORCE_EXECUTION = 1"
definition CHECK_OPTION_FRESHNESS_CHECK :: u32 where "CHECK_OPTION_FRESHNESS_CHECK = 2"
definition CHECK_OPTION_ORPHAN_CHECK :: u32 where "CHECK_OPTION_ORPHAN_CHECK = 4"
definition CHECK_OPTION_DEPENDENCY_CHECK :: u32 where "CHECK_OPTION_DEPENDENCY_CHECK = 8"

abbreviation (input) CHECK_TYPE_ACTIVE :: nat where "CHECK_TYPE_ACTIVE \<equiv> 0"
abbreviation (input) CHECK_TYPE_PASSIVE :: nat where "CHECK_TYPE_PASSIVE \<equiv> 1"

definition forced :: "u32 \<Rightarrow> bool" where
  "forced options \<longleftrightarrow> options AND CHECK_OPTION_FORCE_EXECUTION \<noteq> 0"

text \<open>Seconds of an interval in time units, as a time.\<close>

definition interval_seconds :: "daemon \<Rightarrow> rat \<Rightarrow> int" where
  "interval_seconds s interval = trunc (interval * of_int (interval_length (globs s)))"

definition service_check_window :: "daemon \<Rightarrow> nat \<Rightarrow> int" where
  "service_check_window s i =
    (if s_current_state (svcs s i) \<noteq> 0 \<and> s_state_type (svcs s i) = SOFT_STATE
     then interval_seconds s (s_retry_interval (svcs s i)) else interval_seconds s (s_check_interval (svcs s i)))"

definition host_check_window :: "daemon \<Rightarrow> nat \<Rightarrow> int" where
  "host_check_window s h =
    (if h_current_state (hosts s h) \<noteq> 0 \<and> h_state_type (hosts s h) = SOFT_STATE
     then interval_seconds s (h_retry_interval (hosts s h)) else interval_seconds s (h_check_interval (hosts s h)))"

text \<open>A time plus an interval, computed as a \<open>double\<close> and cut off.\<close>

definition time_plus :: "daemon \<Rightarrow> int \<Rightarrow> rat \<Rightarrow> int" where
  "time_plus s t interval = trunc (of_int t + interval * of_int (interval_length (globs s)))"

section \<open>Random numbers\<close>

text \<open>The next value of \<open>rand()\<close>.\<close>

definition next_rand :: "daemon \<Rightarrow> nat \<times> daemon" where
  "next_rand s = (rands s 0, s\<lparr>rands := \<lambda>n. rands s (n + 1)\<rparr>)"

section \<open>Scheduling\<close>

definition queued_event :: "daemon \<Rightarrow> nat option \<Rightarrow> (nat \<times> timed_event) option ub" where
  "queued_event s ev = (case ev of None \<Rightarrow> Some None
     | Some h \<Rightarrow> map_option (\<lambda>e. Some (h, e)) (map_of (event_queue s) h))"

definition use_original_event :: "(nat \<times> timed_event) option \<Rightarrow> int \<Rightarrow> u32 \<Rightarrow> bool" where
  "use_original_event temp_event check_time options =
    (case temp_event of None \<Rightarrow> False
     | Some (_, e) \<Rightarrow>
        if forced (ev_options e) then \<not> (forced options \<and> check_time < ev_run_time e)
        else if forced options then False
        else \<not> check_time < ev_run_time e)"

text \<open>The event is taken out of the queue and used again, or a new one is allocated; only its priority stays.
  It is shifted when the clock jumps.\<close>

definition check_event :: "nat \<Rightarrow> nat \<Rightarrow> event_data \<Rightarrow> int \<Rightarrow> u32 \<Rightarrow> timed_event" where
  "check_event priority ty data check_time options =
    \<lparr>ev_type = ty, ev_priority = priority, ev_run_time = check_time, ev_recurring = False, ev_interval = 0,
      ev_timing_func = False, ev_compensate = True, ev_data = data, ev_options = options, ev_when = (0, 0)\<rparr>"

definition place_event :: "(nat \<times> timed_event) option \<Rightarrow> nat \<Rightarrow> event_data \<Rightarrow> int \<Rightarrow> u32 \<Rightarrow> daemon \<Rightarrow> nat \<times> daemon" where
  "place_event temp_event ty data check_time options s =
    (case temp_event of
       None \<Rightarrow> (let h = next_event_handle s
         in (h, add_event h (check_event 0 ty data check_time options) (s\<lparr>next_event_handle := h + 1\<rparr>)))
     | Some (h, e) \<Rightarrow> (h, add_event h (check_event (ev_priority e) ty data check_time options) (remove_event (Some h) s)))"

definition schedule_service_check :: "nat \<Rightarrow> int \<Rightarrow> u32 \<Rightarrow> daemon \<Rightarrow> daemon ub" where
  "schedule_service_check i check_time options s =
    (if \<not> s_checks_enabled (svcs s i) \<and> \<not> forced options then Some s
     else if options = CHECK_OPTION_DEPENDENCY_CHECK \<and> s_last_check (svcs s i) \<le> clock s
       \<and> s_last_check (svcs s i) + int (cached_service_check_horizon (globs s)) > check_time then Some s
     else do {
       temp_event \<leftarrow> queued_event s (s_next_check_event (svcs s i));
       Some (if use_original_event temp_event check_time options
         then (case temp_event of None \<Rightarrow> s
           | Some (_, e) \<Rightarrow> upd_svc i (\<lambda>v. v\<lparr>s_next_check := ev_run_time e\<rparr>) s)
         else (case place_event temp_event EVENT_SERVICE_CHECK (Service_ref i) check_time options s of
           (h, s) \<Rightarrow> upd_svc i (\<lambda>v. v\<lparr>s_next_check_event := Some h, s_next_check := check_time,
             s_check_options := options\<rparr>) s))
     })"

definition schedule_host_check :: "nat \<Rightarrow> int \<Rightarrow> u32 \<Rightarrow> daemon \<Rightarrow> daemon ub" where
  "schedule_host_check h check_time options s =
    (if \<not> h_checks_enabled (hosts s h) \<and> \<not> forced options then Some s
     else if options = CHECK_OPTION_DEPENDENCY_CHECK
       \<and> h_last_check (hosts s h) + int (cached_host_check_horizon (globs s)) > check_time then Some s
     else do {
       temp_event \<leftarrow> queued_event s (h_next_check_event (hosts s h));
       Some (if use_original_event temp_event check_time options
         then (case temp_event of None \<Rightarrow> s
           | Some (_, e) \<Rightarrow> upd_host h (\<lambda>v. v\<lparr>h_next_check := ev_run_time e\<rparr>) s)
         else (case place_event temp_event EVENT_HOST_CHECK (Host_ref h) check_time options s of
           (ev, s) \<Rightarrow> upd_host h (\<lambda>v. v\<lparr>h_next_check_event := Some ev, h_next_check := check_time,
             h_check_options := options\<rparr>) s))
     })"

section \<open>Viability\<close>

text \<open>The result, whether the time is valid (if it was before), the next time to try, and the state, which
  may get the configured status of a skipped check.\<close>

definition skip_status :: "int \<Rightarrow> nat \<Rightarrow> nat" where
  "skip_status status current_state = (if status \<ge> 0 then nat status else current_state)"

definition check_service_check_viability :: "nat \<Rightarrow> u32 \<Rightarrow> bool \<Rightarrow> int \<Rightarrow> daemon \<Rightarrow> (c_int \<times> bool \<times> int \<times> daemon) ub" where
  "check_service_check_viability i check_options time_is_valid new_time s = do {
     let check_interval = (if s_state_type (svcs s i) = SOFT_STATE \<and> s_current_state (svcs s i) \<noteq> STATE_OK
       then interval_seconds s (s_retry_interval (svcs s i)) else interval_seconds s (s_check_interval (svcs s i)));
     (perform_check, time_is_valid, preferred_time, s) \<leftarrow>
       (if \<not> forced check_options then do {
          let (perform_check, preferred_time) = (if \<not> s_checks_enabled (svcs s i) then (False, clock s + check_interval) else (True, clock s));
          let (perform_check, preferred_time, time_is_valid) =
            (if check_time_against_period (clib s) (clock s) (s_check_period (svcs s i)) = ERROR
             then (False, clock s, False) else (perform_check, preferred_time, time_is_valid));
          failed \<leftarrow> check_service_dependencies s i EXECUTION_DEPENDENCY;
          (if failed = DEPENDENCIES_FAILED
           then Some (False, time_is_valid, clock s + check_interval,
             upd_svc i (\<lambda>v. v\<lparr>s_current_state := skip_status (service_skip_check_dependency_status (globs s)) (s_current_state v)\<rparr>) s)
           else Some (perform_check, time_is_valid, preferred_time, s))
        } else Some (True, time_is_valid, clock s, s));
     bad_parents \<leftarrow> check_service_parents s i;
     let (perform_check, preferred_time, s) = (if bad_parents = DEPENDENCIES_FAILED
       then (False, clock s + check_interval,
         upd_svc i (\<lambda>v. v\<lparr>s_current_state := skip_status (service_skip_check_parent_status (globs s)) (s_current_state v)\<rparr>) s)
       else (perform_check, preferred_time, s));
     (if host_down_disable_service_checks (globs s) then
        (case s_host (svcs s i) of None \<Rightarrow> Some (ERROR, time_is_valid, new_time, s)
         | Some h \<Rightarrow>
            let (perform_check, s) = (if h_current_state (hosts s h) \<noteq> HOST_UP
              then (False, upd_svc i (\<lambda>v. v\<lparr>s_current_state :=
                skip_status (service_skip_check_host_down_status (globs s)) (s_current_state v)\<rparr>) s)
              else (perform_check, s))
            in Some (if perform_check then OK else ERROR, time_is_valid, preferred_time, s))
      else Some (if perform_check then OK else ERROR, time_is_valid, preferred_time, s))
   }"

definition check_host_check_viability :: "nat \<Rightarrow> u32 \<Rightarrow> bool \<Rightarrow> daemon \<Rightarrow> (c_int \<times> bool \<times> int \<times> daemon) ub" where
  "check_host_check_viability h check_options time_is_valid s = do {
     let check_interval = (if h_state_type (hosts s h) = SOFT_STATE \<and> h_current_state (hosts s h) \<noteq> HOST_UP
       then interval_seconds s (h_retry_interval (hosts s h)) else interval_seconds s (h_check_interval (hosts s h)));
     let check_interval = (if check_interval \<le> 0 then 300 else check_interval);
     (perform_check, time_is_valid, preferred_time, s) \<leftarrow>
       (if \<not> forced check_options then do {
          let (perform_check, preferred_time) = (if \<not> h_checks_enabled (hosts s h) then (False, clock s + check_interval) else (True, clock s));
          let (perform_check, preferred_time, time_is_valid) =
            (if check_time_against_period (clib s) (clock s) (h_check_period (hosts s h)) = ERROR
             then (False, clock s, False) else (perform_check, preferred_time, time_is_valid));
          failed \<leftarrow> check_host_dependencies s h EXECUTION_DEPENDENCY;
          (if failed = DEPENDENCIES_FAILED
           then Some (False, time_is_valid, clock s + check_interval,
             upd_host h (\<lambda>v. v\<lparr>h_current_state := skip_status (host_skip_check_dependency_status (globs s)) (h_current_state v)\<rparr>) s)
           else Some (perform_check, time_is_valid, preferred_time, s))
        } else Some (True, time_is_valid, clock s, s));
     Some (if perform_check then OK else ERROR, time_is_valid, preferred_time, s)
   }"

section \<open>Starting a check\<close>

text \<open>What is outside of the model when a check starts: whether the command line and its expansion are there,
  the microseconds of the clock, and what the workers answer.\<close>

record launch =
  raw_command :: bool
  processed_command :: bool
  start_usec :: int
  run_check_result :: c_int

definition new_check_result :: "u32 \<Rightarrow> bool \<Rightarrow> bool \<Rightarrow> rat \<Rightarrow> int \<times> int \<Rightarrow> check_result" where
  "new_check_result check_options scheduled_check reschedule_check latency start_time =
    \<lparr>cr_check_type = CHECK_TYPE_ACTIVE, cr_check_options = check_options, cr_scheduled_check = scheduled_check,
     cr_reschedule_check = reschedule_check, cr_latency = latency, cr_start_time = start_time, cr_finish_time = start_time,
     cr_early_timeout = False, cr_exited_ok = True, cr_return_code = int STATE_OK, cr_output = None\<rparr>"

definition run_async_service_check :: "launch \<Rightarrow> nat \<Rightarrow> u32 \<Rightarrow> rat \<Rightarrow> bool \<Rightarrow> bool \<Rightarrow> bool \<Rightarrow> int \<Rightarrow> daemon
    \<Rightarrow> (c_int \<times> bool \<times> int \<times> daemon) ub" where
  "run_async_service_check l i check_options latency scheduled_check reschedule_check time_is_valid preferred_time s = do {
     (viable, time_is_valid, preferred_time, s) \<leftarrow> check_service_check_viability i check_options time_is_valid preferred_time s;
     (if viable = ERROR \<or> s_host (svcs s i) = None then Some (ERROR, time_is_valid, preferred_time, s)
      else
       let s = (if scheduled_check then upd_svc i (\<lambda>v. v\<lparr>s_check_options := CHECK_OPTION_NONE\<rparr>) s else s) in
       if \<not> raw_command l \<or> \<not> processed_command l then
         Some (ERROR, time_is_valid, time_plus s preferred_time (s_check_interval (svcs s i)), s)
       else
        let cr = new_check_result check_options scheduled_check reschedule_check latency (clock s, start_usec l) in
        if run_check_result l = ERROR then Some (ERROR, time_is_valid, preferred_time, s)
        else Some (run_check_result l, time_is_valid, preferred_time,
          upd_svc i (\<lambda>v. v\<lparr>s_is_executing := True\<rparr>)
            (act [Run_service_check i cr] (s\<lparr>currently_running_service_checks := currently_running_service_checks s + 1\<rparr>))))
   }"

text \<open>When a check could not run: the time of the next try, and whether a valid one was found.\<close>

definition retry_time :: "daemon \<Rightarrow> int \<Rightarrow> rat \<Rightarrow> int" where
  "retry_time s preferred_time check_interval =
    (if clock s \<ge> preferred_time
     then (if check_interval \<le> 0 then clock s + 300 else time_plus s (clock s) check_interval) else preferred_time)"

definition reschedule_failed_service_check :: "nat \<Rightarrow> bool \<Rightarrow> int \<Rightarrow> daemon \<Rightarrow> daemon" where
  "reschedule_failed_service_check i time_is_valid preferred_time s =
    (let preferred_time = retry_time s preferred_time (s_check_interval (svcs s i));
         period = s_check_period (svcs s i);
         next_valid_time = get_next_valid_time (clib s) (clock s) preferred_time period in
     if \<not> time_is_valid \<and> check_time_against_period (clib s) next_valid_time period = ERROR then
       (case next_rand s of (r, s) \<Rightarrow>
          upd_svc i (\<lambda>v. v\<lparr>s_next_check := preferred_time + ranged_urand r 0 (service_check_window s i)\<rparr>) s)
     else
      (let s = (if next_valid_time > preferred_time then
           (case next_rand s of (r, s) \<Rightarrow> upd_svc i (\<lambda>v. v\<lparr>s_next_check :=
              reschedule_within_timeperiod (clib s) r next_valid_time period (service_check_window s i)\<rparr>) s)
         else upd_svc i (\<lambda>v. v\<lparr>s_next_check := next_valid_time\<rparr>) s)
       in upd_svc i (\<lambda>v. v\<lparr>s_should_be_scheduled := True\<rparr>) s))"

definition run_scheduled_service_check :: "launch \<Rightarrow> nat \<Rightarrow> u32 \<Rightarrow> rat \<Rightarrow> daemon \<Rightarrow> (c_int \<times> daemon) ub" where
  "run_scheduled_service_check l i check_options latency s = do {
     let s = upd_svc i (\<lambda>v. v\<lparr>s_next_check_event := None\<rparr>) s;
     (result, time_is_valid, preferred_time, s) \<leftarrow> run_async_service_check l i check_options latency True True True 0 s;
     (if result = ERROR then do {
        let s = (if s_should_be_scheduled (svcs s i) then reschedule_failed_service_check i time_is_valid preferred_time s else s);
        s \<leftarrow> (if s_should_be_scheduled (svcs s i) then schedule_service_check i (s_next_check (svcs s i)) check_options s else Some s);
        Some (ERROR, s)
      } else Some (OK, s))
   }"

definition run_async_host_check :: "launch \<Rightarrow> nat \<Rightarrow> u32 \<Rightarrow> rat \<Rightarrow> bool \<Rightarrow> bool \<Rightarrow> bool \<Rightarrow> int \<Rightarrow> daemon
    \<Rightarrow> (c_int \<times> bool \<times> int \<times> daemon) ub" where
  "run_async_host_check l h check_options latency scheduled_check reschedule_check time_is_valid preferred_time s =
    (if \<not> forced check_options \<and> h_is_executing (hosts s h) then Some (ERROR, time_is_valid, preferred_time, s)
     else if \<not> forced check_options \<and> h_last_check (hosts s h) \<le> clock s
       \<and> h_last_check (hosts s h) + int (cached_host_check_horizon (globs s)) > clock s then Some (ERROR, time_is_valid, preferred_time, s)
     else do {
       (viable, time_is_valid, preferred_time, s) \<leftarrow> check_host_check_viability h check_options time_is_valid s;
       (if viable = ERROR then Some (ERROR, time_is_valid, preferred_time, s)
        else
         let s = (if scheduled_check then upd_host h (\<lambda>v. v\<lparr>h_check_options := CHECK_OPTION_NONE\<rparr>) s else s) in
         if \<not> raw_command l \<or> \<not> processed_command l then
           Some (ERROR, time_is_valid, preferred_time, upd_host h (\<lambda>v. v\<lparr>h_latency := latency\<rparr>) s)
         else
          let cr = new_check_result check_options scheduled_check reschedule_check latency (clock s, start_usec l) in
          if run_check_result l = ERROR then Some (ERROR, time_is_valid, preferred_time, s)
          else Some (run_check_result l, time_is_valid, preferred_time,
            upd_host h (\<lambda>v. v\<lparr>h_is_executing := True\<rparr>)
              (act [Run_host_check h cr] (s\<lparr>currently_running_host_checks := currently_running_host_checks s + 1\<rparr>))))
     })"

definition reschedule_failed_host_check :: "nat \<Rightarrow> bool \<Rightarrow> int \<Rightarrow> daemon \<Rightarrow> daemon" where
  "reschedule_failed_host_check h time_is_valid preferred_time s =
    (let preferred_time = retry_time s preferred_time (h_check_interval (hosts s h));
         period = h_check_period (hosts s h);
         next_valid_time = get_next_valid_time (clib s) (clock s) preferred_time period in
     if \<not> time_is_valid \<and> check_time_against_period (clib s) next_valid_time period = ERROR then
       (case next_rand s of (r, s) \<Rightarrow> upd_host h (\<lambda>v. v\<lparr>h_next_check :=
          reschedule_within_timeperiod (clib s) r next_valid_time period (host_check_window s h)\<rparr>) s)
     else
      (let s = (if next_valid_time > preferred_time then
           (case next_rand s of (r, s) \<Rightarrow> upd_host h (\<lambda>v. v\<lparr>h_next_check :=
              reschedule_within_timeperiod (clib s) r next_valid_time period (host_check_window s h)\<rparr>) s)
         else upd_host h (\<lambda>v. v\<lparr>h_next_check := next_valid_time\<rparr>) s)
       in upd_host h (\<lambda>v. v\<lparr>h_should_be_scheduled := True\<rparr>) s))"

definition run_scheduled_host_check :: "launch \<Rightarrow> nat \<Rightarrow> u32 \<Rightarrow> rat \<Rightarrow> daemon \<Rightarrow> (c_int \<times> daemon) ub" where
  "run_scheduled_host_check l h check_options latency s = do {
     let s = upd_host h (\<lambda>v. v\<lparr>h_next_check_event := None\<rparr>) s;
     (result, time_is_valid, preferred_time, s) \<leftarrow> run_async_host_check l h check_options latency True True True 0 s;
     (if result = ERROR then do {
        let s = (if h_should_be_scheduled (hosts s h) then reschedule_failed_host_check h time_is_valid preferred_time s else s);
        s \<leftarrow> (if h_should_be_scheduled (hosts s h) then schedule_host_check h (h_next_check (hosts s h)) check_options s else Some s);
        Some (ERROR, s)
      } else Some (OK, s))
   }"

section \<open>Lost checks\<close>

text \<open>The loops over all services and all hosts, in the order of their ids.\<close>

definition is_orphaned_service :: "daemon \<Rightarrow> nat \<Rightarrow> bool" where
  "is_orphaned_service s i \<longleftrightarrow> s_is_executing (svcs s i)
    \<and> trunc (of_int (s_next_check (svcs s i)) + s_latency (svcs s i) + of_int (service_check_timeout (globs s))
        + of_int (check_reaper_interval (globs s)) + 600) < clock s"

definition check_for_orphaned_services :: "daemon \<Rightarrow> daemon ub" where
  "check_for_orphaned_services s = for_each (\<lambda>i s.
     if is_orphaned_service s i then
       schedule_service_check i (clock s) CHECK_OPTION_ORPHAN_CHECK
         (upd_svc i (\<lambda>v. v\<lparr>s_is_executing := False\<rparr>)
           (s\<lparr>currently_running_service_checks := currently_running_service_checks s - 1\<rparr>))
     else Some s) (num_services s) s"

definition is_orphaned_host :: "daemon \<Rightarrow> nat \<Rightarrow> bool" where
  "is_orphaned_host s h \<longleftrightarrow> h_next_check (hosts s h) \<noteq> 0 \<and> h_is_executing (hosts s h)
    \<and> trunc (of_int (h_next_check (hosts s h)) + h_latency (hosts s h) + of_int (host_check_timeout (globs s))
        + of_int (check_reaper_interval (globs s)) + 600) < clock s"

definition check_for_orphaned_hosts :: "daemon \<Rightarrow> daemon ub" where
  "check_for_orphaned_hosts s = for_each (\<lambda>h s.
     if is_orphaned_host s h then
       schedule_host_check h (clock s) CHECK_OPTION_ORPHAN_CHECK
         (upd_host h (\<lambda>v. v\<lparr>h_is_executing := False\<rparr>)
           (s\<lparr>currently_running_host_checks := currently_running_host_checks s - 1\<rparr>))
     else Some s) (num_hosts s) s"

section \<open>Freshness\<close>

text \<open>The threshold is an \<open>int\<close>: fractions are cut off.\<close>

definition service_freshness_threshold :: "daemon \<Rightarrow> nat \<Rightarrow> int" where
  "service_freshness_threshold s i =
    (let v = svcs s i;
         interval = (if s_state_type v = HARD_STATE \<or> s_current_state v = STATE_OK then s_check_interval v else s_retry_interval v) in
     if s_freshness_threshold v = 0
     then trunc (interval * of_int (interval_length (globs s)) + s_latency v + of_int (additional_freshness_latency (globs s)))
     else s_freshness_threshold v)"

definition is_service_result_fresh :: "daemon \<Rightarrow> nat \<Rightarrow> bool" where
  "is_service_result_fresh s i =
    (let v = svcs s i; freshness_threshold = service_freshness_threshold s i;
         expiration_time =
           (if \<not> s_has_been_checked v then event_start (globs s) + freshness_threshold
            else if s_checks_enabled v \<and> event_start (globs s) > s_last_check v \<and> s_freshness_threshold v = 0
            then event_start (globs s) + freshness_threshold + max_service_check_spread (globs s) * interval_length (globs s)
            else s_last_check v + freshness_threshold);
         expiration_time =
           (if s_check_type v = CHECK_TYPE_PASSIVE \<and> s_last_check v < event_start (globs s)
              \<and> of_int (event_start (globs s) - last_program_stop (globs s)) > of_int freshness_threshold * (618 / 1000 :: rat)
            then event_start (globs s) + freshness_threshold else expiration_time)
     in \<not> expiration_time < clock s)"

definition check_service_result_freshness :: "daemon \<Rightarrow> daemon ub" where
  "check_service_result_freshness s =
    (if \<not> check_service_freshness (globs s) then Some s
     else for_each (\<lambda>i s. let v = svcs s i in
       if s_check_freshness v \<and> \<not> s_is_executing v \<and> (s_checks_enabled v \<or> s_accept_passive_checks v)
         \<and> \<not> s_is_being_freshened v \<and> check_time_against_period (clib s) (clock s) (s_check_period v) \<noteq> ERROR
         \<and> \<not> (s_check_interval v = 0 \<and> s_freshness_threshold v = 0) \<and> \<not> is_service_result_fresh s i
       then schedule_service_check i (clock s) (CHECK_OPTION_FORCE_EXECUTION OR CHECK_OPTION_FRESHNESS_CHECK)
         (upd_svc i (\<lambda>v. v\<lparr>s_is_being_freshened := True\<rparr>) s)
       else Some s) (num_services s) s)"

definition host_freshness_threshold :: "daemon \<Rightarrow> nat \<Rightarrow> int" where
  "host_freshness_threshold s h =
    (let v = hosts s h;
         interval = (if h_state_type v = HARD_STATE \<or> h_current_state v = STATE_OK then h_check_interval v else h_retry_interval v) in
     if h_freshness_threshold v = 0
     then trunc (interval * of_int (interval_length (globs s)) + h_latency v + of_int (additional_freshness_latency (globs s)))
     else h_freshness_threshold v)"

definition is_host_result_fresh :: "daemon \<Rightarrow> nat \<Rightarrow> bool" where
  "is_host_result_fresh s h =
    (let v = hosts s h; freshness_threshold = host_freshness_threshold s h;
         expiration_time =
           (if \<not> h_has_been_checked v then event_start (globs s) + freshness_threshold
            else if h_checks_enabled v \<and> event_start (globs s) > h_last_check v \<and> h_freshness_threshold v = 0
            then event_start (globs s) + freshness_threshold + max_host_check_spread (globs s) * interval_length (globs s)
            else h_last_check v + freshness_threshold);
         expiration_time =
           (if h_check_type v = CHECK_TYPE_PASSIVE \<and> h_last_check v < event_start (globs s)
              \<and> of_int (event_start (globs s) - last_program_stop (globs s)) > of_int freshness_threshold * (618 / 1000 :: rat)
            then event_start (globs s) + freshness_threshold else expiration_time)
     in \<not> expiration_time < clock s)"

definition check_host_result_freshness :: "daemon \<Rightarrow> daemon ub" where
  "check_host_result_freshness s =
    (if \<not> check_host_freshness (globs s) then Some s
     else for_each (\<lambda>h s. let v = hosts s h in
       if h_check_freshness v \<and> (h_checks_enabled v \<or> h_accept_passive_checks v) \<and> \<not> h_is_executing v
         \<and> \<not> h_is_being_freshened v \<and> check_time_against_period (clib s) (clock s) (h_check_period v) \<noteq> ERROR
         \<and> \<not> is_host_result_fresh s h
       then schedule_host_check h (clock s) (CHECK_OPTION_FORCE_EXECUTION OR CHECK_OPTION_FRESHNESS_CHECK)
         (upd_host h (\<lambda>v. v\<lparr>h_is_being_freshened := True\<rparr>) s)
       else Some s) (num_hosts s) s)"

section \<open>One pending check per object\<close>

fun pending :: "event_data \<Rightarrow> daemon \<Rightarrow> nat option" where
  "pending (Service_ref i) s = s_next_check_event (svcs s i)"
| "pending (Host_ref h) s = h_next_check_event (hosts s h)"
| "pending _ s = None"

fun check_event_type :: "event_data \<Rightarrow> nat option" where
  "check_event_type (Service_ref i) = Some EVENT_SERVICE_CHECK"
| "check_event_type (Host_ref h) = Some EVENT_HOST_CHECK"
| "check_event_type _ = None"

text \<open>The data of an event is what the handler of its type takes it for.  The events in \<open>X\<close> are those that are being run: they stay in the queue while the object has let go of
  them already.\<close>

definition event_fits :: "nat \<Rightarrow> event_data \<Rightarrow> bool" where
  "event_fits ty d \<longleftrightarrow>
    (if ty = EVENT_SERVICE_CHECK \<or> ty = EVENT_HOST_CHECK then check_event_type d = Some ty
     else if ty = EVENT_SCHEDULED_DOWNTIME_START \<or> ty = EVENT_SCHEDULED_DOWNTIME_END
     then d = No_data \<or> (\<exists>i. d = Downtime_id i)
     else if ty = EVENT_EXPIRE_COMMENT then (\<exists>i. d = Comment_id i)
     else d = No_data)"

text \<open>No event of a check recurs.\<close>

definition event_ok :: "timed_event \<Rightarrow> bool" where
  "event_ok e \<longleftrightarrow> event_fits (ev_type e) (ev_data e) \<and> (ev_recurring e \<longrightarrow> check_event_type (ev_data e) = None)"

definition sched_ok :: "nat set \<Rightarrow> daemon \<Rightarrow> bool" where
  "sched_ok X s \<longleftrightarrow> distinct (map fst (event_queue s)) \<and> (\<forall>(h, e) \<in> set (event_queue s). h < next_event_handle s)
    \<and> (\<forall>d h. pending d s = Some h \<longrightarrow> h \<notin> X
        \<and> (\<exists>e. (h, e) \<in> set (event_queue s) \<and> ev_data e = d \<and> check_event_type d = Some (ev_type e)))
    \<and> (\<forall>(h, e) \<in> set (event_queue s). h \<notin> X \<and> check_event_type (ev_data e) \<noteq> None \<longrightarrow> pending (ev_data e) s = Some h)
    \<and> X \<subseteq> fst ` set (event_queue s)
    \<and> (\<forall>(h, e) \<in> set (event_queue s). event_ok e)"

definition pending_event :: "event_data \<Rightarrow> daemon \<Rightarrow> timed_event option" where
  "pending_event d s = (case pending d s of None \<Rightarrow> None | Some h \<Rightarrow> map_of (event_queue s) h)"

lemma sched_okD:
  assumes "sched_ok X s"
  shows "distinct (map fst (event_queue s))" "(h, e) \<in> set (event_queue s) \<Longrightarrow> h < next_event_handle s"
    "pending d s = Some h \<Longrightarrow> \<exists>e. (h, e) \<in> set (event_queue s) \<and> ev_data e = d \<and> check_event_type d = Some (ev_type e)"
    "pending d s = Some h \<Longrightarrow> h \<notin> X"
    "(h, e) \<in> set (event_queue s) \<Longrightarrow> h \<notin> X \<Longrightarrow> check_event_type (ev_data e) \<noteq> None \<Longrightarrow> pending (ev_data e) s = Some h"
    "x \<in> X \<Longrightarrow> \<exists>e. (x, e) \<in> set (event_queue s)" "(h, e) \<in> set (event_queue s) \<Longrightarrow> event_ok e"
    "x \<in> X \<Longrightarrow> x < next_event_handle s"
proof -
  have X: "X \<subseteq> fst ` set (event_queue s)" using assms unfolding sched_ok_def by (elim conjE)
  have low: "\<forall>(h, e) \<in> set (event_queue s). h < next_event_handle s" using assms unfolding sched_ok_def by (elim conjE)
  show *: "x \<in> X \<Longrightarrow> \<exists>e. (x, e) \<in> set (event_queue s)" using subsetD [OF X, of x] by auto
  show "x \<in> X \<Longrightarrow> x < next_event_handle s" using * low by blast
qed (insert assms, unfold sched_ok_def, blast+)

lemma check_event_ok: "check_event_type (ev_data e) = Some (ev_type e) \<Longrightarrow> \<not> ev_recurring e \<Longrightarrow> event_ok e"
  by (cases "ev_data e") (simp_all add: event_ok_def event_fits_def)

lemma queued_event_ok:
  assumes "sched_ok X s"
  shows "queued_event s (pending d s) = Some (case pending d s of None \<Rightarrow> None | Some h \<Rightarrow> Some (h, the (pending_event d s)))"
    "pending d s = Some h \<Longrightarrow> (h, the (pending_event d s)) \<in> set (event_queue s)"
    "pending d s = Some h \<Longrightarrow> ev_data (the (pending_event d s)) = d"
    "pending d s = Some h \<Longrightarrow> pending_event d s \<noteq> None"
    "pending d s = Some h \<Longrightarrow> check_event_type d = Some (ev_type (the (pending_event d s)))"
proof -
  have e: "\<exists>e. map_of (event_queue s) h = Some e \<and> (h, e) \<in> set (event_queue s) \<and> ev_data e = d \<and> check_event_type d = Some (ev_type e)"
    if "pending d s = Some h" for h
    using sched_okD(3) [OF assms that] map_of_is_SomeI [OF sched_okD(1) [OF assms]] by blast
  then show "queued_event s (pending d s) = Some (case pending d s of None \<Rightarrow> None | Some h \<Rightarrow> Some (h, the (pending_event d s)))"
    by (fastforce simp: queued_event_def pending_event_def split: option.splits)
  assume "pending d s = Some h"
  with e show "(h, the (pending_event d s)) \<in> set (event_queue s)" "ev_data (the (pending_event d s)) = d"
    "pending_event d s \<noteq> None" "check_event_type d = Some (ev_type (the (pending_event d s)))"
    by (fastforce simp: pending_event_def)+
qed

text \<open>Steps that leave the queue and the pointers alone.\<close>

lemma sched_ok_frame:
  assumes "event_queue s' = event_queue s" "next_event_handle s' = next_event_handle s" "\<And>d. pending d s' = pending d s"
  shows "sched_ok X s' = sched_ok X s" "pending_event d s' = pending_event d s"
  using assms by (simp_all add: sched_ok_def pending_event_def cong: option.case_cong)

lemma pending_upd [simp]:
  "pending d (upd_svc i f s) = (if d = Service_ref i then s_next_check_event (f (svcs s i)) else pending d s)"
  "pending d (upd_host h g s) = (if d = Host_ref h then h_next_check_event (g (hosts s h)) else pending d s)"
  by (cases d; simp)+

lemma pending_cong: "hosts s' = hosts s \<Longrightarrow> svcs s' = svcs s \<Longrightarrow> pending d s' = pending d s"
  by (cases d) simp_all

lemma add_event_queue [simp]: "event_queue (add_event h e s) = (h, enqueued (clock s) (clock_usec s) e) # event_queue s"
  by (simp add: add_event_def)

lemma remove_event_queue [simp]: "event_queue (remove_event (Some h) s) = filter (\<lambda>(h', _). h' \<noteq> h) (event_queue s)"
  by (simp add: remove_event_def)

lemma schedule_new_event_queue:
  "schedule_new_event ty p t d o' s = (h, s') \<longleftrightarrow> h = next_event_handle s \<and> s' = add_event h
     \<lparr>ev_type = ty, ev_priority = p, ev_run_time = t, ev_recurring = False, ev_interval = 0,
       ev_timing_func = False, ev_compensate = False, ev_data = d, ev_options = o', ev_when = (0, 0)\<rparr> (s\<lparr>next_event_handle := h + 1\<rparr>)"
  by (auto simp: schedule_new_event_def Let_def)

text \<open>The new queue of a placed event.\<close>

lemma place_event_queue:
  assumes "place_event old ty d t opts s = (h, s')"
  shows "h = (case old of None \<Rightarrow> next_event_handle s | Some (h, _) \<Rightarrow> h)"
    "\<exists>e. event_queue s' = (h, e) # (case old of None \<Rightarrow> event_queue s | Some (h, _) \<Rightarrow> filter (\<lambda>(h', _). h' \<noteq> h) (event_queue s))
      \<and> e = enqueued (clock s) (clock_usec s) (check_event (case old of None \<Rightarrow> 0 | Some (_, e) \<Rightarrow> ev_priority e) ty d t opts)"
    "next_event_handle s' = (case old of None \<Rightarrow> next_event_handle s + 1 | Some _ \<Rightarrow> next_event_handle s)"
    "hosts s' = hosts s" "svcs s' = svcs s"
proof -
  show "h = (case old of None \<Rightarrow> next_event_handle s | Some (h, _) \<Rightarrow> h)"
    using assms by (auto simp: place_event_def Let_def split: option.splits)
  show "\<exists>e. event_queue s' = (h, e) # (case old of None \<Rightarrow> event_queue s | Some (h, _) \<Rightarrow> filter (\<lambda>(h', _). h' \<noteq> h) (event_queue s))
      \<and> e = enqueued (clock s) (clock_usec s) (check_event (case old of None \<Rightarrow> 0 | Some (_, e) \<Rightarrow> ev_priority e) ty d t opts)"
    using assms by (auto simp: place_event_def Let_def split: option.splits)
  show "next_event_handle s' = (case old of None \<Rightarrow> next_event_handle s + 1 | Some _ \<Rightarrow> next_event_handle s)"
    "hosts s' = hosts s" "svcs s' = svcs s"
    using assms by (auto simp: place_event_def Let_def split: option.splits)
qed

lemma sched_ok_replace:
  assumes ok: "sched_ok X s" and d: "check_event_type d = Some (ev_type e)" "ev_data e = d" "\<not> ev_recurring e"
    and h: "h = (case pending d s of None \<Rightarrow> next_event_handle s | Some h \<Rightarrow> h)"
    and queue: "event_queue s' = (h, e) # (case pending d s of None \<Rightarrow> event_queue s | Some h \<Rightarrow> filter (\<lambda>(h', _). h' \<noteq> h) (event_queue s))"
    and handle: "next_event_handle s' = (case pending d s of None \<Rightarrow> next_event_handle s + 1 | Some _ \<Rightarrow> next_event_handle s)"
    and pend: "\<And>d'. pending d' s' = (if d' = d then Some h else pending d' s)"
  shows "sched_ok X s'" "pending_event d s' = Some e" "d' \<noteq> d \<Longrightarrow> pending_event d' s' = pending_event d' s"
proof -
  note okD = sched_okD [OF ok]
  have mem: "(h', e') \<in> set (event_queue s') \<longleftrightarrow> (h', e') = (h, e) \<or> h' \<noteq> h \<and> (h', e') \<in> set (event_queue s)" for h' e'
    using okD(2) [of h' e'] by (auto simp: queue h split: option.splits)
  have low: "h < next_event_handle s'"
    using okD(2,3) by (fastforce simp: h handle split: option.splits)
  have "distinct (map fst (event_queue s'))"
  proof (cases "pending d s")
    case None
    then show ?thesis using okD(1) okD(2) by (fastforce simp: queue h)
  next
    case (Some k)
    have "distinct (map fst (filter P q))" if "distinct (map fst q)" for P and q :: "(nat \<times> timed_event) list"
      using that by (induction q) auto
    with Some okD(1) show ?thesis by (auto simp: queue h)
  qed
  moreover have "h' < next_event_handle s'" if "(h', e') \<in> set (event_queue s')" for h' e'
    using that low okD(2) [of h' e'] by (auto simp: mem handle split: option.splits)
  moreover have other: "h' \<noteq> h \<and> (\<exists>e'. (h', e') \<in> set (event_queue s) \<and> ev_data e' = d' \<and> check_event_type d' = Some (ev_type e'))"
    if ne: "d' \<noteq> d" and pd: "pending d' s = Some h'" for d' h'
  proof -
    obtain e' where e': "(h', e') \<in> set (event_queue s)" "ev_data e' = d'" "check_event_type d' = Some (ev_type e')"
      using okD(3) [OF pd] by blast
    have "h' \<noteq> h"
    proof
      assume same: "h' = h"
      show False
      proof (cases "pending d s")
        case None
        then show False using same okD(2) [OF e'(1)] by (simp add: h)
      next
        case (Some k)
        obtain e'' where "(h', e'') \<in> set (event_queue s)" "ev_data e'' = d" using okD(3) [OF Some] same Some by (auto simp: h)
        then show False using e'(1,2) ne okD(1) by (metis eq_key_imp_eq_value)
      qed
    qed
    with e' show ?thesis by blast
  qed
  moreover have "h \<notin> X"
    using okD(4,8) by (fastforce simp: h split: option.splits)
  moreover have "h' \<notin> X \<and> (\<exists>e'. (h', e') \<in> set (event_queue s') \<and> ev_data e' = d' \<and> check_event_type d' = Some (ev_type e'))"
    if "pending d' s' = Some h'" for d' h'
  proof (cases "d' = d")
    case True
    then have "h' = h" using that by (simp add: pend)
    with True d \<open>h \<notin> X\<close> show ?thesis by (auto simp: mem)
  next
    case False
    then have "pending d' s = Some h'" using that by (simp add: pend)
    with other [OF False this] okD(4) [OF this] show ?thesis by (auto simp: mem)
  qed
  moreover have "pending (ev_data e') s' = Some h'"
    if "(h', e') \<in> set (event_queue s')" "h' \<notin> X" "check_event_type (ev_data e') \<noteq> None" for h' e'
  proof (cases "(h', e') = (h, e)")
    case False
    then have q: "h' \<noteq> h" "(h', e') \<in> set (event_queue s)" using that by (auto simp: mem)
    from okD(5) [OF q(2) that(2,3)] have "pending (ev_data e') s = Some h'" .
    with q show ?thesis by (cases "ev_data e' = d") (auto simp: pend h)
  qed (simp add: pend d)
  moreover have "X \<subseteq> fst ` set (event_queue s')"
  proof
    fix x assume "x \<in> X"
    with \<open>h \<notin> X\<close> okD(6) [of x] obtain e' where "x \<noteq> h" "(x, e') \<in> set (event_queue s)" by blast
    then show "x \<in> fst ` set (event_queue s')" using mem by force
  qed
  moreover have "event_ok e'" if "(h', e') \<in> set (event_queue s')" for h' e'
    using that okD(7) [of h' e'] check_event_ok [of e] d by (auto simp: mem)
  ultimately show "sched_ok X s'" unfolding sched_ok_def by fast
  show "pending_event d s' = Some e" by (simp add: pending_event_def pend queue)
  show "pending_event d' s' = pending_event d' s" if "d' \<noteq> d"
  proof (cases "pending d' s")
    case None
    then show ?thesis using that by (simp add: pending_event_def pend)
  next
    case (Some h')
    have "h' \<noteq> h" using other [OF that Some] by blast
    moreover have "map_of (filter (\<lambda>(x, _). x \<noteq> h) q) h' = map_of q h'" if "h' \<noteq> h" for q :: "(nat \<times> timed_event) list"
      using that by (induction q) auto
    ultimately show ?thesis using that Some by (auto simp: pending_event_def pend queue h split: option.splits)
  qed
qed

section \<open>The event that stays\<close>

text \<open>A forced check goes before an unforced one, and of two alike the earlier one.\<close>

definition no_worse :: "timed_event \<Rightarrow> u32 \<Rightarrow> int \<Rightarrow> bool" where
  "no_worse e options t \<longleftrightarrow> forced (ev_options e) \<and> \<not> forced options
     \<or> forced (ev_options e) = forced options \<and> ev_run_time e \<le> t"

lemma use_original_no_worse: "use_original_event (Some (h, e)) t opts \<longleftrightarrow> no_worse e opts t"
  by (auto simp: use_original_event_def no_worse_def)

lemma new_no_worse: "\<not> no_worse e opts t \<Longrightarrow> ev_options e' = opts \<Longrightarrow> ev_run_time e' = t \<Longrightarrow> no_worse e' (ev_options e) (ev_run_time e)"
  by (auto simp: no_worse_def)

text \<open>What scheduling of a check of \<open>d\<close> at \<open>t\<close> achieves.\<close>

definition scheduled :: "nat set \<Rightarrow> event_data \<Rightarrow> int \<Rightarrow> u32 \<Rightarrow> daemon \<Rightarrow> daemon \<Rightarrow> timed_event \<Rightarrow> bool" where
  "scheduled X d t opts s s' e \<longleftrightarrow> sched_ok X s' \<and> pending_event d s' = Some e
    \<and> (pending_event d s = Some e \<or> ev_run_time e = t \<and> ev_options e = opts)
    \<and> no_worse e opts t \<and> (\<forall>old. pending_event d s = Some old \<longrightarrow> no_worse e (ev_options old) (ev_run_time old))
    \<and> (\<forall>d'. d' \<noteq> d \<longrightarrow> pending_event d' s' = pending_event d' s)"

lemma scheduled_new:
  assumes ok: "sched_ok X s" and ty: "check_event_type d = Some ty"
    and old: "old = (case pending d s of None \<Rightarrow> None | Some h \<Rightarrow> Some (h, the (pending_event d s)))"
    and new: "\<not> use_original_event old t opts" "place_event old ty d t opts s = (h, s1)"
    and s': "event_queue s' = event_queue s1" "next_event_handle s' = next_event_handle s1"
      "\<And>d'. pending d' s' = (if d' = d then Some h else pending d' s)"
  shows "\<exists>e. scheduled X d t opts s s' e \<and> ev_run_time e = t"
proof -
  note place = place_event_queue [OF new(2)]
  obtain e where e: "event_queue s1 = (h, e) # (case old of None \<Rightarrow> event_queue s | Some (h, _) \<Rightarrow> filter (\<lambda>(h', _). h' \<noteq> h) (event_queue s))"
    "ev_type e = ty" "ev_data e = d" "ev_run_time e = t" "ev_options e = opts" "\<not> ev_recurring e"
    using place(2) by (auto simp: check_event_def)
  have rep: "sched_ok X s'" "pending_event d s' = Some e" "\<And>d'. d' \<noteq> d \<Longrightarrow> pending_event d' s' = pending_event d' s"
    by (rule sched_ok_replace [OF ok, of d e h];
        use ty e place(1,3) s' in \<open>simp add: old split: option.splits\<close>)+
  have "no_worse e (ev_options o') (ev_run_time o')" if po: "pending_event d s = Some o'" for o'
  proof -
    obtain k where "pending d s = Some k" using po by (auto simp: pending_event_def split: option.splits)
    with new(1) po have "\<not> no_worse o' opts t" by (simp add: old use_original_no_worse)
    then show ?thesis using e by (intro new_no_worse)
  qed
  with rep e show ?thesis by (auto simp: scheduled_def no_worse_def)
qed

lemma scheduled_keep:
  assumes ok: "sched_ok X s" and p: "pending d s = Some h" "no_worse (the (pending_event d s)) opts t"
    and s': "event_queue s' = event_queue s" "next_event_handle s' = next_event_handle s" "\<And>d. pending d s' = pending d s"
  shows "scheduled X d t opts s s' (the (pending_event d s))"
  using queued_event_ok(4) [OF ok p(1)] ok p sched_ok_frame [OF s'] by (auto simp: scheduled_def) (auto simp: no_worse_def)

lemma schedule_service_check_spec:
  assumes ok: "sched_ok X s" and acc: "s_checks_enabled (svcs s i) \<or> forced opts"
    "\<not> (opts = CHECK_OPTION_DEPENDENCY_CHECK \<and> s_last_check (svcs s i) \<le> clock s
      \<and> s_last_check (svcs s i) + int (cached_service_check_horizon (globs s)) > t)"
  shows "\<exists>s' e. schedule_service_check i t opts s = Some s' \<and> scheduled X (Service_ref i) t opts s s' e
    \<and> s_next_check (svcs s' i) = ev_run_time e"
proof -
  let ?d = "Service_ref i"
  define old where "old = (case pending ?d s of None \<Rightarrow> None | Some h \<Rightarrow> Some (h, the (pending_event ?d s)))"
  have q: "queued_event s (s_next_check_event (svcs s i)) = Some old"
    using queued_event_ok(1) [OF ok, of ?d] by (simp add: old_def)
  show ?thesis
  proof (cases "use_original_event old t opts")
    case True
    then obtain h where h: "pending ?d s = Some h" "old = Some (h, the (pending_event ?d s))"
      by (auto simp: old_def use_original_event_def split: option.splits)
    let ?s = "upd_svc i (\<lambda>v. v\<lparr>s_next_check := ev_run_time (the (pending_event ?d s))\<rparr>) s"
    have "schedule_service_check i t opts s = Some ?s"
      using acc q True h(2) by (auto simp: schedule_service_check_def)
    moreover have "scheduled X ?d t opts s ?s (the (pending_event ?d s))"
      using True h by (intro scheduled_keep [OF ok h(1)]) (auto simp: use_original_no_worse)
    ultimately show ?thesis by auto
  next
    case False
    obtain h s1 where p: "place_event old EVENT_SERVICE_CHECK ?d t opts s = (h, s1)" by fastforce
    let ?s = "upd_svc i (\<lambda>v. v\<lparr>s_next_check_event := Some h, s_next_check := t, s_check_options := opts\<rparr>) s1"
    have "schedule_service_check i t opts s = Some ?s"
      using acc q False p by (auto simp: schedule_service_check_def)
    moreover have "\<exists>e. scheduled X ?d t opts s ?s e \<and> ev_run_time e = t"
      by (rule scheduled_new [OF ok _ old_def False p]) (use place_event_queue(4,5) [OF p] in \<open>simp_all add: pending_cong [of s1 s]\<close>)
    ultimately show ?thesis by auto
  qed
qed

lemma schedule_host_check_spec:
  assumes ok: "sched_ok X s" and acc: "h_checks_enabled (hosts s i) \<or> forced opts"
    "\<not> (opts = CHECK_OPTION_DEPENDENCY_CHECK \<and> h_last_check (hosts s i) + int (cached_host_check_horizon (globs s)) > t)"
  shows "\<exists>s' e. schedule_host_check i t opts s = Some s' \<and> scheduled X (Host_ref i) t opts s s' e
    \<and> h_next_check (hosts s' i) = ev_run_time e"
proof -
  let ?d = "Host_ref i"
  define old where "old = (case pending ?d s of None \<Rightarrow> None | Some h \<Rightarrow> Some (h, the (pending_event ?d s)))"
  have q: "queued_event s (h_next_check_event (hosts s i)) = Some old"
    using queued_event_ok(1) [OF ok, of ?d] by (simp add: old_def)
  show ?thesis
  proof (cases "use_original_event old t opts")
    case True
    then obtain h where h: "pending ?d s = Some h" "old = Some (h, the (pending_event ?d s))"
      by (auto simp: old_def use_original_event_def split: option.splits)
    let ?s = "upd_host i (\<lambda>v. v\<lparr>h_next_check := ev_run_time (the (pending_event ?d s))\<rparr>) s"
    have "schedule_host_check i t opts s = Some ?s"
      using acc q True h(2) by (auto simp: schedule_host_check_def)
    moreover have "scheduled X ?d t opts s ?s (the (pending_event ?d s))"
      using True h by (intro scheduled_keep [OF ok h(1)]) (auto simp: use_original_no_worse)
    ultimately show ?thesis by auto
  next
    case False
    obtain h s1 where p: "place_event old EVENT_HOST_CHECK ?d t opts s = (h, s1)" by fastforce
    let ?s = "upd_host i (\<lambda>v. v\<lparr>h_next_check_event := Some h, h_next_check := t, h_check_options := opts\<rparr>) s1"
    have "schedule_host_check i t opts s = Some ?s"
      using acc q False p by (auto simp: schedule_host_check_def)
    moreover have "\<exists>e. scheduled X ?d t opts s ?s e \<and> ev_run_time e = t"
      by (rule scheduled_new [OF ok _ old_def False p]) (use place_event_queue(4,5) [OF p] in \<open>simp_all add: pending_cong [of s1 s]\<close>)
    ultimately show ?thesis by auto
  qed
qed

end
