(* ===== verification/CheckFrames.thy ===== *)
theory CheckFrames
  imports Checks
begin

text \<open>
  What the operations that the handling of a check result calls leave alone: notifications, flap detection,
  the start of flexible downtimes, comments and scheduling change none of the fields that the state of an
  object is computed from (\<open>chk_core\<close>), and keep the invariants of downtimes, flap detection and scheduling.
\<close>

section \<open>The core\<close>

definition svc_chk_core :: "service \<Rightarrow> service" where
  "svc_chk_core v = (svc_flap_core v)\<lparr>s_scheduled_downtime_depth := 0, s_pending_flex_downtime := 0,
     s_next_check_event := None, s_next_check := 0, s_check_options := 0\<rparr>"

definition host_chk_core :: "host \<Rightarrow> host" where
  "host_chk_core v = (host_flap_core v)\<lparr>h_scheduled_downtime_depth := 0, h_pending_flex_downtime := 0,
     h_next_check_event := None, h_next_check := 0, h_check_options := 0\<rparr>"

definition chk_core :: "daemon \<Rightarrow> daemon" where
  "chk_core s = s\<lparr>hosts := host_chk_core \<circ> hosts s, svcs := svc_chk_core \<circ> svcs s,
     contacts := contact_core \<circ> contacts s, next_notification_id := 0, outputs := [], comments := no_comments,
     dt_heap := \<lambda>a. blank_downtime, event_queue := [], next_event_handle := 0, rands := \<lambda>n. 0\<rparr>"

named_theorems chk_frame \<open>updates outside of the core\<close>

lemma chk_core_svc [chk_frame]:
  "(\<And>v. svc_chk_core (f v) = svc_chk_core v) \<Longrightarrow> chk_core (upd_svc i f s) = chk_core s"
  by (simp add: chk_core_def upd_svc_def fun_eq_iff)

lemma chk_core_host [chk_frame]:
  "(\<And>v. host_chk_core (f v) = host_chk_core v) \<Longrightarrow> chk_core (upd_host h f s) = chk_core s"
  by (simp add: chk_core_def upd_host_def fun_eq_iff)

lemma chk_core_fields [chk_frame]:
  "chk_core (s\<lparr>comments := c\<rparr>) = chk_core s" "chk_core (s\<lparr>rands := r\<rparr>) = chk_core s"
  "chk_core (upd_dt a f s) = chk_core s" "chk_core (add_event h e s) = chk_core s"
  "chk_core (remove_event (Some h) s) = chk_core s" "chk_core (s\<lparr>next_event_handle := h\<rparr>) = chk_core s"
  by (simp_all add: chk_core_def upd_dt_def add_event_def remove_event_def)

lemma chk_core_flap:
  assumes "flap_core s' = flap_core s"
  shows "chk_core s' = chk_core s"
proof -
  have "chk_core (flap_core t) = chk_core t" for t
    by (simp add: chk_core_def flap_core_def fun_eq_iff svc_chk_core_def host_chk_core_def svc_flap_core_def
      host_flap_core_def svc_core_def host_core_def contact_core_def)
  then show ?thesis using arg_cong [OF assms, of chk_core] by simp
qed

lemma chk_core_notif: "notif_core s' = notif_core s \<Longrightarrow> chk_core s' = chk_core s"
  by (intro chk_core_flap flap_core_notif)

lemma chk_coreD:
  assumes "chk_core s' = chk_core s"
  shows "clock s' = clock s" "globs s' = globs s" "clib s' = clib s" "num_hosts s' = num_hosts s" "num_services s' = num_services s"
    "scheduled_downtime_list s' = scheduled_downtime_list s" "next_event_id s' = next_event_id s"
    "next_problem_id s' = next_problem_id s" "actions s' = actions s"
    "currently_running_service_checks s' = currently_running_service_checks s"
    "currently_running_host_checks s' = currently_running_host_checks s"
    "svc_chk_core (svcs s' i) = svc_chk_core (svcs s i)" "host_chk_core (hosts s' h) = host_chk_core (hosts s h)"
proof -
  show "clock s' = clock s" using arg_cong [OF assms, of clock] by (simp add: chk_core_def)
  show "globs s' = globs s" using arg_cong [OF assms, of globs] by (simp add: chk_core_def)
  show "clib s' = clib s" using arg_cong [OF assms, of clib] by (simp add: chk_core_def)
  show "num_hosts s' = num_hosts s" using arg_cong [OF assms, of num_hosts] by (simp add: chk_core_def)
  show "num_services s' = num_services s" using arg_cong [OF assms, of num_services] by (simp add: chk_core_def)
  show "scheduled_downtime_list s' = scheduled_downtime_list s"
    using arg_cong [OF assms, of scheduled_downtime_list] by (simp add: chk_core_def)
  show "next_event_id s' = next_event_id s" using arg_cong [OF assms, of next_event_id] by (simp add: chk_core_def)
  show "next_problem_id s' = next_problem_id s" using arg_cong [OF assms, of next_problem_id] by (simp add: chk_core_def)
  show "actions s' = actions s" using arg_cong [OF assms, of actions] by (simp add: chk_core_def)
  show "currently_running_service_checks s' = currently_running_service_checks s"
    using arg_cong [OF assms, of currently_running_service_checks] by (simp add: chk_core_def)
  show "currently_running_host_checks s' = currently_running_host_checks s"
    using arg_cong [OF assms, of currently_running_host_checks] by (simp add: chk_core_def)
  show "svc_chk_core (svcs s' i) = svc_chk_core (svcs s i)"
    using fun_cong [OF arg_cong [OF assms, of svcs], of i] by (simp add: chk_core_def)
  show "host_chk_core (hosts s' h) = host_chk_core (hosts s h)"
    using fun_cong [OF arg_cong [OF assms, of hosts], of h] by (simp add: chk_core_def)
qed

lemma chk_core_links: 
  assumes "chk_core s' = chk_core s"
  shows "links s' = links s"
proof -
  note same = chk_coreD(12,13) [OF assms]
  have "s_parents (svcs s' i) = s_parents (svcs s i)" "s_exec_deps (svcs s' i) = s_exec_deps (svcs s i)"
    "s_notify_deps (svcs s' i) = s_notify_deps (svcs s i)" for i
    using arg_cong [OF same(1), of s_parents i] arg_cong [OF same(1), of s_exec_deps i] arg_cong [OF same(1), of s_notify_deps i]
    by (simp_all add: svc_chk_core_def svc_flap_core_def svc_core_def)
  moreover have "h_exec_deps (hosts s' h) = h_exec_deps (hosts s h)" "h_notify_deps (hosts s' h) = h_notify_deps (hosts s h)" for h
    using arg_cong [OF same(2), of h_exec_deps h] arg_cong [OF same(2), of h_notify_deps h]
    by (simp_all add: host_chk_core_def host_flap_core_def host_core_def)
  ultimately show ?thesis by (simp add: links_def)
qed

section \<open>The queue\<close>

text \<open>Only events that are not checks may be added.\<close>

definition adds_events :: "daemon \<Rightarrow> daemon \<Rightarrow> bool" where
  "adds_events s s' \<longleftrightarrow> (\<forall>X. sched_ok X s \<longrightarrow> sched_ok X s') \<and> (\<forall>d. pending d s' = pending d s)
    \<and> (\<forall>h. h < next_event_handle s \<longrightarrow> map_of (event_queue s') h = map_of (event_queue s) h)
    \<and> next_event_handle s \<le> next_event_handle s'"

lemma adds_events_refl [simp]: "adds_events s s"
  by (simp add: adds_events_def)

lemma adds_events_trans: "adds_events s s' \<Longrightarrow> adds_events s' s'' \<Longrightarrow> adds_events s s''"
  by (auto simp: adds_events_def)

lemma adds_events_same:
  assumes "event_queue s' = event_queue s" "next_event_handle s' = next_event_handle s" "\<And>d. pending d s' = pending d s"
  shows "adds_events s s'"
  using assms sched_ok_frame [OF assms] by (simp add: adds_events_def)

definition new_event :: "timed_event \<Rightarrow> daemon \<Rightarrow> daemon" where
  "new_event e s = add_event (next_event_handle s) e (s\<lparr>next_event_handle := next_event_handle s + 1\<rparr>)"

lemma new_event_fields [simp]:
  "event_queue (new_event e s) = (next_event_handle s, enqueued (clock s) (clock_usec s) e) # event_queue s"
  "next_event_handle (new_event e s) = next_event_handle s + 1" "hosts (new_event e s) = hosts s" "svcs (new_event e s) = svcs s"
  "dt_heap (new_event e s) = dt_heap s" "comments (new_event e s) = comments s"
  by (simp_all add: new_event_def)

lemma schedule_new_event_new: "\<exists>e. snd (schedule_new_event ty p t d opts s) = new_event e s \<and> ev_type e = ty \<and> ev_data e = d \<and> \<not> ev_recurring e"
  unfolding schedule_new_event_def Let_def new_event_def snd_conv by (rule exI, intro conjI, rule refl) simp_all

lemma adds_events_new:
  assumes "check_event_type (ev_data e) = None" "event_fits (ev_type e) (ev_data e)"
  shows "adds_events s (new_event e s)"
proof -
  let ?s = "new_event e s" and ?h = "next_event_handle s"
  have pend: "pending d' ?s = pending d' s" for d' by (rule pending_cong) simp_all
  have "sched_ok X ?s" if ok: "sched_ok X s" for X
    unfolding sched_ok_def pend
  proof (intro conjI)
    show "distinct (map fst (event_queue ?s))" using sched_okD(1,2) [OF ok] by fastforce
    show "\<forall>(h', e) \<in> set (event_queue ?s). h' < next_event_handle ?s"
      using sched_okD(2) [OF ok] by (auto intro: less_SucI)
    show "\<forall>d h. pending d s = Some h \<longrightarrow> h \<notin> X \<and> (\<exists>e. (h, e) \<in> set (event_queue ?s) \<and> ev_data e = d \<and> check_event_type d = Some (ev_type e))"
      using sched_okD(3,4) [OF ok] unfolding new_event_fields(1) by (metis list.set_intros(2))
    show "\<forall>(h, e) \<in> set (event_queue ?s). h \<notin> X \<and> check_event_type (ev_data e) \<noteq> None \<longrightarrow> pending (ev_data e) s = Some h"
      using sched_okD(5) [OF ok] assms by auto
    show "X \<subseteq> fst ` set (event_queue ?s)" using sched_okD(6) [OF ok] by force
    show "\<forall>(h', e) \<in> set (event_queue ?s). event_ok e"
      using sched_okD(7) [OF ok] assms by (auto simp: event_ok_def)
  qed
  then show ?thesis by (simp add: adds_events_def pend)
qed

lemma adds_events_pending:
  assumes "adds_events s s'" "sched_ok X s"
  shows "sched_ok X s'" "pending_event d s' = pending_event d s"
proof -
  show "sched_ok X s'" using assms by (simp add: adds_events_def)
  have "h < next_event_handle s" if "pending d s = Some h" for h
    using sched_okD(2,3) [OF assms(2)] that by blast
  then show "pending_event d s' = pending_event d s"
    using assms(1) by (auto simp: adds_events_def pending_event_def split: option.split)
qed

section \<open>The events of downtimes\<close>

text \<open>The events that downtimes point to are never the check an object waits for.\<close>

definition dt_handles :: "daemon \<Rightarrow> nat set" where
  "dt_handles s = {h. \<exists>a. dt_start_event (dt_heap s a) = Some h \<or> dt_stop_event (dt_heap s a) = Some h}"

definition dt_events_ok :: "daemon \<Rightarrow> bool" where
  "dt_events_ok s \<longleftrightarrow> (\<forall>h \<in> dt_handles s. h < next_event_handle s \<and> (\<forall>d. pending d s \<noteq> Some h))"

definition keeps_dt_events :: "daemon \<Rightarrow> daemon \<Rightarrow> bool" where
  "keeps_dt_events s s' \<longleftrightarrow> (\<forall>X. sched_ok X s \<longrightarrow> dt_events_ok s \<longrightarrow> dt_events_ok s')"

lemma dt_events_ok_mono:
  assumes "dt_events_ok s" "dt_handles s' \<subseteq> dt_handles s" "next_event_handle s \<le> next_event_handle s'"
    and "\<And>d h. pending d s' = Some h \<Longrightarrow> pending d s = Some h \<or> next_event_handle s \<le> h"
  shows "dt_events_ok s'"
  unfolding dt_events_ok_def
proof (intro ballI conjI allI)
  fix h assume "h \<in> dt_handles s'"
  then have h: "h \<in> dt_handles s" using assms(2) by blast
  with assms(1) have old: "h < next_event_handle s" "\<forall>d. pending d s \<noteq> Some h" by (simp_all add: dt_events_ok_def)
  show "h < next_event_handle s'" using old(1) assms(3) by simp
  show "pending d s' \<noteq> Some h" for d using assms(4) [of d h] old by auto
qed

lemma dt_handles_upd_dt:
  "dt_handles (upd_dt a f s) \<subseteq> dt_handles s
    \<union> set_option (dt_start_event (f (dt_heap s a))) \<union> set_option (dt_stop_event (f (dt_heap s a)))"
  by (auto simp: dt_handles_def split: if_splits)

lemma dt_handles_frame: "dt_heap s' = dt_heap s \<Longrightarrow> dt_handles s' = dt_handles s"
  by (simp add: dt_handles_def)

lemma dt_handlesI:
  "dt_start_event (dt_heap s a) = Some h \<Longrightarrow> h \<in> dt_handles s" "dt_stop_event (dt_heap s a) = Some h \<Longrightarrow> h \<in> dt_handles s"
  by (auto simp: dt_handles_def)

lemma dt_events_ok_frame:
  assumes "dt_heap s' = dt_heap s" "next_event_handle s \<le> next_event_handle s'" "\<And>d. pending d s' = pending d s" "dt_events_ok s"
  shows "dt_events_ok s'"
proof (rule dt_events_ok_mono [OF assms(4) _ assms(2)])
  show "dt_handles s' \<subseteq> dt_handles s" by (simp add: dt_handles_frame [OF assms(1)])
  show "pending d s' = Some h \<Longrightarrow> pending d s = Some h \<or> next_event_handle s \<le> h" for d h by (simp add: assms(3))
qed

text \<open>An entry may get an event that is not that of a check.\<close>

lemma dt_events_ok_upd_dt:
  assumes "dt_events_ok s"
    and "\<And>h. dt_start_event (f (dt_heap s a)) = Some h \<Longrightarrow> h \<in> dt_handles s \<or> h < next_event_handle s \<and> (\<forall>d. pending d s \<noteq> Some h)"
    and "\<And>h. dt_stop_event (f (dt_heap s a)) = Some h \<Longrightarrow> h \<in> dt_handles s \<or> h < next_event_handle s \<and> (\<forall>d. pending d s \<noteq> Some h)"
  shows "dt_events_ok (upd_dt a f s)"
  unfolding dt_events_ok_def
proof
  fix h assume "h \<in> dt_handles (upd_dt a f s)"
  then have "h \<in> dt_handles s \<or> dt_start_event (f (dt_heap s a)) = Some h \<or> dt_stop_event (f (dt_heap s a)) = Some h"
    using dt_handles_upd_dt by fastforce
  then have "h < next_event_handle s \<and> (\<forall>d. pending d s \<noteq> Some h)" using assms by (auto simp: dt_events_ok_def)
  moreover have "pending d (upd_dt a f s) = pending d s" for d by (rule pending_cong) simp_all
  ultimately show "h < next_event_handle (upd_dt a f s) \<and> (\<forall>d. pending d (upd_dt a f s) \<noteq> Some h)" by simp
qed

lemma new_event_not_pending:
  assumes "sched_ok X s" "schedule_new_event ty p t d opts s = (h, s')"
  shows "h < next_event_handle s'" "pending d' s' \<noteq> Some h"
proof -
  from assms(2) have h: "h = next_event_handle s" "next_event_handle s' = h + 1" by (simp_all add: schedule_new_event_queue)
  then show "h < next_event_handle s'" by simp
  have "pending d' s' = pending d' s" by (rule pending_cong; use assms(2) in \<open>simp add: schedule_new_event_queue\<close>)
  moreover have "pending d' s \<noteq> Some h"
  proof
    assume "pending d' s = Some h"
    then obtain e where "(h, e) \<in> set (event_queue s)" using sched_okD(3) [OF assms(1)] by blast
    then show False using sched_okD(2) [OF assms(1)] h(1) by blast
  qed
  ultimately show "pending d' s' \<noteq> Some h" by simp
qed

lemma dt_events_ok_new_event:
  assumes "dt_events_ok s"
  shows "dt_events_ok (new_event e s)"
  by (rule dt_events_ok_frame [OF _ _ pending_cong assms]) simp_all

section \<open>Calm steps\<close>

definition calm :: "daemon \<Rightarrow> daemon \<Rightarrow> bool" where
  "calm s s' \<longleftrightarrow> chk_core s' = chk_core s \<and> rings s' = rings s \<and> adds_events s s' \<and> keeps_dt_events s s'"

lemma calm_refl [simp]: "calm s s"
  by (simp add: calm_def keeps_dt_events_def)

lemma calm_trans: "calm s s' \<Longrightarrow> calm s' s'' \<Longrightarrow> calm s s''"
  unfolding calm_def keeps_dt_events_def using adds_events_trans adds_events_def by (metis (no_types, lifting))

lemma keeps_dt_events_frame:
  "dt_heap s' = dt_heap s \<Longrightarrow> next_event_handle s \<le> next_event_handle s' \<Longrightarrow> (\<And>d. pending d s' = pending d s) \<Longrightarrow> keeps_dt_events s s'"
  using dt_events_ok_frame by (simp add: keeps_dt_events_def)

lemma pending_flap:
  assumes "flap_core s' = flap_core s"
  shows "pending d s' = pending d s" "event_queue s' = event_queue s" "next_event_handle s' = next_event_handle s"
proof -
  have "s_next_check_event (svcs s' i) = s_next_check_event (svcs s i)" "h_next_check_event (hosts s' h) = h_next_check_event (hosts s h)" for i h
    using arg_cong [OF flap_coreD(4) [OF assms], of s_next_check_event i] arg_cong [OF flap_coreD(5) [OF assms], of h_next_check_event h]
    by (simp_all add: svc_flap_core_def host_flap_core_def svc_core_def host_core_def)
  then show "pending d s' = pending d s" by (cases d) simp_all
  show "event_queue s' = event_queue s" using arg_cong [OF assms, of event_queue] by (simp add: flap_core_def)
  show "next_event_handle s' = next_event_handle s" using arg_cong [OF assms, of next_event_handle] by (simp add: flap_core_def)
qed

lemma notif_rings:
  assumes "notif_core s' = notif_core s"
  shows "rings s' = rings s"
  using arg_cong [OF notif_coreD(17) [OF assms], of s_state_history_index]
    arg_cong [OF notif_coreD(18) [OF assms], of h_state_history_index]
  by (simp add: rings_def svc_core_def host_core_def)

lemma flap_core_heap: "flap_core s' = flap_core s \<Longrightarrow> dt_heap s' = dt_heap s"
  by (drule arg_cong [of _ _ dt_heap]) (simp add: flap_core_def)

lemma calm_notif:
  assumes "notif_core s' = notif_core s"
  shows "calm s s'"
proof -
  note flap = flap_core_notif [OF assms]
  have "keeps_dt_events s s'" using pending_flap [OF flap] flap_core_heap [OF flap] by (intro keeps_dt_events_frame) simp_all
  then show ?thesis
    unfolding calm_def using chk_core_notif [OF assms] notif_rings [OF assms] adds_events_same [OF pending_flap(2,3,1) [OF flap]] by blast
qed

lemma calm_upd_dt:
  assumes "\<And>d. dt_start_event (f d) = dt_start_event d" "\<And>d. dt_stop_event (f d) = dt_stop_event d"
  shows "calm s (upd_dt a f s)"
proof -
  have "keeps_dt_events s (upd_dt a f s)"
    unfolding keeps_dt_events_def using assms by (auto intro!: dt_events_ok_upd_dt dest: dt_handlesI)
  then show ?thesis unfolding calm_def by (intro conjI adds_events_same pending_cong) (simp_all add: chk_frame rings_def)
qed

lemma calm_set_depth: "calm s (set_depth t n s)"
proof -
  have "chk_core (set_depth t n s) = chk_core s"
    by (cases t) (simp_all add: chk_frame svc_chk_core_def host_chk_core_def svc_flap_core_def host_flap_core_def svc_core_def host_core_def)
  moreover have "rings (set_depth t n s) = rings s" by (cases t) (simp_all add: rings_def fun_eq_iff)
  moreover have "adds_events s (set_depth t n s)" by (rule adds_events_same) (cases t; simp)+
  moreover have "pending d (set_depth t n s) = pending d s" for d by (cases t; cases d; simp)
  then have "keeps_dt_events s (set_depth t n s)" by (intro keeps_dt_events_frame) (cases t; simp)+
  ultimately show ?thesis by (simp add: calm_def)
qed

lemma calm_add_new_event:
  assumes "check_event_type (ev_data e) = None" "event_fits (ev_type e) (ev_data e)"
  shows "calm s (new_event e s)"
proof -
  have "chk_core (new_event e s) = chk_core s" by (simp add: new_event_def chk_frame)
  moreover have "rings (new_event e s) = rings s" by (simp add: rings_def)
  moreover have "keeps_dt_events s (new_event e s)" using dt_events_ok_new_event by (simp add: keeps_dt_events_def)
  ultimately show ?thesis using adds_events_new [OF assms] by (simp add: calm_def)
qed

lemma calm_new_event:
  assumes "check_event_type d = None" "event_fits ty d"
  shows "calm s (snd (schedule_new_event ty p t d opts s))"
  using schedule_new_event_new [of ty p t d opts s] calm_add_new_event assms by metis

text \<open>A new event that is noted in an entry.\<close>

lemma calm_noted_event:
  assumes "check_event_type d = None" "schedule_new_event ty p t d opts s = (h, s')" "event_fits ty d"
    and "\<And>x. dt_start_event (f x) = dt_start_event x \<or> dt_start_event (f x) = Some h"
      "\<And>x. dt_stop_event (f x) = dt_stop_event x \<or> dt_stop_event (f x) = Some h"
  shows "calm s (upd_dt a f s')"
proof -
  have c: "calm s s'" using calm_new_event [OF assms(1,3), of s p t opts] assms(2) by simp
  have "keeps_dt_events s (upd_dt a f s')"
    unfolding keeps_dt_events_def
  proof (intro allI impI)
    fix X assume ok: "sched_ok X s" "dt_events_ok s"
    have new: "h < next_event_handle s'" "\<And>d. pending d s' \<noteq> Some h" using new_event_not_pending [OF ok(1) assms(2)] by blast+
    have "dt_events_ok s'" using schedule_new_event_new [of ty p t d opts s] dt_events_ok_new_event [OF ok(2)] assms(2) by (metis snd_conv)
    then show "dt_events_ok (upd_dt a f s')"
    proof (rule dt_events_ok_upd_dt)
      show "x \<in> dt_handles s' \<or> x < next_event_handle s' \<and> (\<forall>d. pending d s' \<noteq> Some x)"
        if "dt_start_event (f (dt_heap s' a)) = Some x" for x
        using that assms(4) [of "dt_heap s' a"] new by (auto intro: dt_handlesI)
      show "x \<in> dt_handles s' \<or> x < next_event_handle s' \<and> (\<forall>d. pending d s' \<noteq> Some x)"
        if "dt_stop_event (f (dt_heap s' a)) = Some x" for x
        using that assms(5) [of "dt_heap s' a"] new by (auto intro: dt_handlesI)
    qed
  qed
  moreover have "adds_events s' (upd_dt a f s')" by (intro adds_events_same pending_cong) simp_all
  then have "adds_events s (upd_dt a f s')" using c adds_events_trans by (auto simp: calm_def)
  ultimately show ?thesis using c by (simp add: calm_def chk_frame rings_def)
qed

lemma calm_notify_target: "notify_target t ty s = Some s' \<Longrightarrow> calm s s'"
  by (cases t) (auto intro!: calm_notif dest: service_notification_frame host_notification_frame)

lemma calm_start_one:
  assumes "start_one s a = Some (started, r, s')"
  shows "calm s s'"
proof (cases "dt_is_in_effect (dt_heap s a) \<or> downtime_target s (dt_heap s a) = None")
  case True
  with assms show ?thesis by (auto simp: start_one_def Let_def split: if_splits option.splits)
next
  case False
  then obtain t where t: "downtime_target s (dt_heap s a) = Some t" by auto
  obtain s1 where s1: "(if target_depth t s = 0 \<and> \<not> dt_start_notification_sent (dt_heap s a)
      then map_option (upd_dt a (\<lambda>d. d\<lparr>dt_start_notification_sent := True\<rparr>)) (notify_target t NOTIFICATION_DOWNTIMESTART s)
      else Some s) = Some s1"
    using assms False t by (auto simp: start_one_def Let_def split: option.splits bind_splits)
  then have "calm s s1"
    by (auto split: if_splits intro!: calm_trans [OF calm_notify_target calm_upd_dt])
  moreover define s2 where "s2 = set_depth t (target_depth t s1 + 1) s1"
  have "calm s1 s2" unfolding s2_def by (rule calm_set_depth)
  moreover obtain ev s3 where s3: "schedule_new_event EVENT_SCHEDULED_DOWNTIME_END 1
      (end_event_time (dt_heap s a) (effective_start s2 (dt_heap s a))) (Downtime_id (dt_id (dt_heap s a))) 0 s2 = (ev, s3)" by fastforce
  have "s' = upd_dt a (\<lambda>d. d\<lparr>dt_is_in_effect := True, dt_flex_downtime_start := effective_start s2 (dt_heap s a), dt_stop_event := Some ev\<rparr>) s3"
    using assms False t s1 s3 by (simp add: start_one_def Let_def s2_def)
  then have "calm s2 s'" using calm_noted_event [OF _ s3] by (simp add: event_fits_def)
  ultimately show ?thesis using calm_trans by metis
qed

lemma calm_start_triggered: "start_triggered s loop = Some s' \<Longrightarrow> calm s s'"
proof (rule start_triggered.raw_induct [where P = "\<lambda>s loop s'. calm s s'", rotated])
  fix start_triggered s loop s'
  assume ih: "\<And>s loop s'. start_triggered s loop = Some s' \<Longrightarrow> calm s s'"
    and run: "(case snd loop of [] \<Rightarrow> Some s
     | a # rest \<Rightarrow>
        if dt_triggered_by (dt_heap s a) = fst loop then
          (start_one s a \<bind> (\<lambda>(started, _, s').
            (if started then start_triggered s' (dt_id (dt_heap s' a), scheduled_downtime_list s') else Some s')
            \<bind> (\<lambda>s''. start_triggered s'' (fst loop, rest))))
        else start_triggered s (fst loop, rest)) = Some s'"
  show "calm s s'"
  proof (cases "snd loop")
    case Nil
    with run show ?thesis by simp
  next
    case (Cons a rest)
    show ?thesis
    proof (cases "dt_triggered_by (dt_heap s a) = fst loop")
      case True
      with run Cons obtain st r s1 s2 where s1: "start_one s a = Some (st, r, s1)"
        and s2: "(if st then start_triggered s1 (dt_id (dt_heap s1 a), scheduled_downtime_list s1) else Some s1) = Some s2"
        and s': "start_triggered s2 (fst loop, rest) = Some s'"
        by (auto split: bind_splits)
      have "calm s1 s2"
      proof (cases st)
        case True
        then show ?thesis using s2 by (intro ih) simp
      next
        case False
        then show ?thesis using s2 by simp
      qed
      with calm_start_one [OF s1] ih [OF s'] show ?thesis by (blast intro: calm_trans)
    next
      case False
      with ih run Cons show ?thesis by simp
    qed
  qed
qed

lemma calm_handle_start: "handle_scheduled_downtime_start s a = Some (r, s') \<Longrightarrow> calm s s'"
  by (auto simp: handle_scheduled_downtime_start_def split: bind_splits if_splits
    intro: calm_trans [OF calm_start_one calm_start_triggered] calm_start_one)

lemma calm_start_flexible: "start_flexible t todo s = Some s' \<Longrightarrow> calm s s'"
proof (induction todo arbitrary: s)
  case (Cons a rest)
  show ?case
  proof (cases "start_flexible t rest s = Some s'")
    case True
    then show ?thesis by (rule Cons.IH)
  next
    case False
    with Cons.prems obtain r s1 where "handle_scheduled_downtime_start (upd_dt a (\<lambda>d. d\<lparr>dt_flex_downtime_start := clock s\<rparr>) s) a = Some (r, s1)"
      "start_flexible t rest s1 = Some s'"
      by (auto simp: Let_def split: if_splits bind_splits)
    moreover have "calm s (upd_dt a (\<lambda>d. d\<lparr>dt_flex_downtime_start := clock s\<rparr>) s)" by (rule calm_upd_dt) simp_all
    ultimately show ?thesis using Cons.IH calm_trans calm_handle_start by metis
  qed
qed simp

section \<open>The invariant of the daemon\<close>

text \<open>What the configuration sets: every service has its host, the tree of child hosts is one, and a check that timed
  out gets a state.\<close>

definition pointers :: "daemon \<Rightarrow> ((nat \<Rightarrow> nat option) \<times> nat) \<times> (nat \<Rightarrow> nat list)" where
  "pointers s = ((\<lambda>i. s_host (svcs s i), service_check_timeout_state (globs s)), \<lambda>h. h_child_hosts (hosts s h))"

definition child_rel :: "daemon \<Rightarrow> (nat \<times> nat) set" where
  "child_rel s = {(c, h). c \<in> set (h_child_hosts (hosts s h))}"

definition linked :: "daemon \<Rightarrow> bool" where
  "linked s \<longleftrightarrow> (\<forall>i. s_host (svcs s i) \<noteq> None) \<and> wf (child_rel s) \<and> service_check_timeout_state (globs s) < 31"

lemma linked_frame: "pointers s' = pointers s \<Longrightarrow> linked s \<Longrightarrow> linked s'"
  by (simp add: linked_def child_rel_def pointers_def fun_eq_iff)

lemma chk_core_pointers:
  assumes "chk_core s' = chk_core s"
  shows "pointers s' = pointers s"
proof -
  note same = chk_coreD(12,13,2) [OF assms]
  have "s_host (svcs s' i) = s_host (svcs s i)" "h_child_hosts (hosts s' h) = h_child_hosts (hosts s h)" for i h
    using arg_cong [OF same(1), of s_host i] arg_cong [OF same(2), of h_child_hosts h]
    by (simp_all add: svc_chk_core_def svc_flap_core_def svc_core_def host_chk_core_def host_flap_core_def host_core_def)
  with same(3) show ?thesis by (simp add: pointers_def)
qed

definition daemon_ok :: "nat set \<Rightarrow> daemon \<Rightarrow> bool" where
  "daemon_ok X s \<longleftrightarrow> dt_inv {} s \<and> flap_ready s \<and> sched_ok X s \<and> linked s \<and> dt_events_ok s"

lemma daemon_okD:
  assumes "daemon_ok X s"
  shows "dt_inv {} s" "flap_ready s" "sched_ok X s" "acyclic_links s" "linked s" "dt_events_ok s"
  using assms by (simp_all add: daemon_ok_def flap_ready_def)

text \<open>A step that keeps the invariant, the core and the pending checks.\<close>

definition stays :: "nat set \<Rightarrow> daemon \<Rightarrow> daemon \<Rightarrow> bool" where
  "stays X s s' \<longleftrightarrow> daemon_ok X s' \<and> chk_core s' = chk_core s \<and> (\<forall>d. pending_event d s' = pending_event d s)"

lemma stays_trans: "stays X s s' \<Longrightarrow> stays X s' s'' \<Longrightarrow> stays X s s''"
  by (simp add: stays_def)

lemma stays_refl: "daemon_ok X s \<Longrightarrow> stays X s s"
  by (simp add: stays_def)

lemma staysD:
  assumes "stays X s s'"
  shows "daemon_ok X s'" "chk_core s' = chk_core s" "pending_event d s' = pending_event d s"
  using assms by (simp_all add: stays_def)

lemma calm_stays:
  assumes "daemon_ok X s" "calm s s'" "dt_inv {} s'" "comments s' = comments s"
  shows "stays X s s'"
proof -
  have "acyclic_links s'" using acyclic_links_frame [OF chk_core_links] assms(1,2) by (simp add: calm_def daemon_okD)
  then have "flap_ready s'" "linked s'" using assms linked_frame [OF chk_core_pointers]
    by (simp_all add: calm_def daemon_ok_def flap_ready_def)
  moreover have "dt_events_ok s'" using assms(1,2) by (auto simp: calm_def keeps_dt_events_def daemon_ok_def)
  ultimately show ?thesis using adds_events_pending assms by (auto simp: calm_def stays_def daemon_ok_def)
qed

lemma stays_notif:
  assumes "daemon_ok X s" "notif_core s' = notif_core s"
  shows "stays X s s'"
  using assms dt_inv_quiet [OF daemon_okD(1) notif_core_quiet] notif_coreD(8) by (intro calm_stays calm_notif) blast+

lemma stays_service_notification:
  assumes "daemon_ok X s"
  shows "\<exists>r s'. service_notification i ty opts s = Some (r, s') \<and> stays X s s'"
  using service_notification_total [OF daemon_okD(4) [OF assms], of i ty opts] stays_notif [OF assms] by blast

lemma stays_host_notification:
  assumes "daemon_ok X s"
  shows "\<exists>r s'. host_notification h ty opts s = Some (r, s') \<and> stays X s s'"
  using host_notification_total [OF daemon_okD(4) [OF assms], of h ty opts] stays_notif [OF assms] by blast

lemma stays_start_flexible:
  assumes "daemon_ok X s"
  shows "\<exists>s'. start_flexible t (scheduled_downtime_list s) s = Some s' \<and> stays X s s'"
proof -
  from start_flexible_spec [OF daemon_okD(1) [OF assms] subset_refl, of t] obtain s' where
    s': "start_flexible t (scheduled_downtime_list s) s = Some s'" "dt_inv {} s'" "starts s s'" by blast
  then show ?thesis using calm_stays [OF assms calm_start_flexible [OF s'(1)] s'(2)] by (simp add: starts_def)
qed

lemma stays_flex_host:
  assumes "daemon_ok X s"
  shows "\<exists>r s'. check_pending_flex_host_downtime s h = Some (r, s') \<and> stays X s s'"
  using stays_start_flexible [OF assms, of "At_host h"] stays_refl [OF assms] by (auto simp: check_pending_flex_host_downtime_def)

lemma stays_flex_service:
  assumes "daemon_ok X s"
  shows "\<exists>r s'. check_pending_flex_service_downtime s i = Some (r, s') \<and> stays X s s'"
  using stays_start_flexible [OF assms, of "At_service i"] stays_refl [OF assms] by (auto simp: check_pending_flex_service_downtime_def)

lemma dt_inv_comments:
  assumes "dt_inv X s" "cm_wf c"
  shows "dt_inv X (s\<lparr>comments := c\<rparr>)"
proof -
  let ?s = "s\<lparr>comments := c\<rparr>"
  have "dl_wf ?s" by (rule dl_wf_frame [OF dt_invD(1) [OF assms(1)]]) simp_all
  moreover have "target_depth t ?s = target_depth t s" for t by (cases t) simp_all
  moreover have "downtime_target ?s = downtime_target s" by (rule downtime_target_frame) (simp add: dt_keeps_def)
  ultimately show ?thesis using assms by (simp add: dt_inv_def depth_ok_def parents_set_def in_effect_at_def)
qed

lemma stays_comments:
  assumes "daemon_ok X s" "comments_ok c"
  shows "stays X s (s\<lparr>comments := c\<rparr>)"
proof -
  let ?s = "s\<lparr>comments := c\<rparr>"
  have "sched_ok X ?s" "pending_event d ?s = pending_event d s" for d
    using daemon_okD(3) [OF assms(1)] sched_ok_frame [of ?s s] pending_cong [of ?s s] by simp_all
  moreover have "flap_ready ?s"
    using assms flap_ready_frame [OF daemon_okD(2) [OF assms(1)], of ?s] by (simp add: flap_core_comments rings_comments)
  moreover have "dt_inv {} ?s" using assms dt_inv_comments by (simp add: daemon_ok_def comments_ok_def)
  moreover have "linked ?s" using linked_frame [OF chk_core_pointers daemon_okD(5) [OF assms(1)]] by (simp add: chk_frame)
  moreover have "dt_events_ok ?s" by (rule dt_events_ok_frame [OF _ _ pending_cong daemon_okD(6) [OF assms(1)]]) simp_all
  ultimately show ?thesis by (simp add: stays_def daemon_ok_def chk_frame)
qed

lemma stays_flap:
  assumes "daemon_ok X s" "flap_ready s'" "flap_core s' = flap_core s"
  shows "stays X s s'"
proof -
  have c: "cm_wf (comments s')" "cm_wf (comments s)" using assms(2) daemon_okD(2) [OF assms(1)] by (simp_all add: flap_ready_def comments_ok_def)
  have "quiet (s\<lparr>comments := comments s'\<rparr>) s'"
  proof -
    have depth: "target_depth t s' = target_depth t s" "target_depth t (s\<lparr>comments := c\<rparr>) = target_depth t s" for t c
      using arg_cong [OF flap_coreD(4) [OF assms(3)], of s_scheduled_downtime_depth]
        arg_cong [OF flap_coreD(5) [OF assms(3)], of h_scheduled_downtime_depth]
      by (cases t; simp add: svc_flap_core_def host_flap_core_def svc_core_def host_core_def)+
    have par: "s_parents (svcs s' i) = s_parents (svcs s i)" for i
      using arg_cong [OF flap_coreD(4) [OF assms(3)], of s_parents] by (simp add: svc_flap_core_def svc_core_def)
    show ?thesis unfolding quiet_def dt_keeps_def
      using arg_cong [OF assms(3), of next_downtime_id] arg_cong [OF assms(3), of next_dt_addr]
        arg_cong [OF assms(3), of defer_downtime_sorting] arg_cong [OF assms(3), of host_table]
        arg_cong [OF assms(3), of service_table] arg_cong [OF assms(3), of clib]
        arg_cong [OF assms(3), of scheduled_downtime_list] arg_cong [OF assms(3), of dt_fanout]
        arg_cong [OF assms(3), of dt_heap] flap_coreD(1,2) [OF assms(3)]
      by (simp add: flap_core_def depth par)
  qed
  then have "dt_inv {} s'" using dt_inv_quiet [OF dt_inv_comments [OF daemon_okD(1) [OF assms(1)] c(1)]] by blast
  moreover note sched_ok_frame [OF pending_flap(2,3,1) [OF assms(3)]]
  moreover have "linked s'" using linked_frame [OF chk_core_pointers [OF chk_core_flap [OF assms(3)]]] daemon_okD(5) [OF assms(1)] by blast
  moreover have "dt_events_ok s'"
    using pending_flap [OF assms(3)] flap_core_heap [OF assms(3)] by (intro dt_events_ok_frame [OF _ _ _ daemon_okD(6) [OF assms(1)]]) simp_all
  ultimately show ?thesis using assms chk_core_flap [OF assms(3)] by (simp add: stays_def daemon_ok_def)
qed

lemma stays_service_flapping:
  assumes "daemon_ok X s"
  shows "\<exists>s'. check_for_service_flapping i update allow s = Some s' \<and> stays X s s'"
  using check_for_service_flapping_total [OF daemon_okD(2) [OF assms], of i update allow] stays_flap [OF assms] by blast

lemma stays_host_flapping:
  assumes "daemon_ok X s"
  shows "\<exists>s'. check_for_host_flapping h update actual allow s = Some s' \<and> stays X s s'"
  using check_for_host_flapping_spec [OF daemon_okD(2) [OF assms], of h update actual allow] stays_flap [OF assms] by blast

lemma delete_each_next_id: "delete_each P ty xs c = Some c' \<Longrightarrow> next_comment_id c' = next_comment_id c"
proof (induction xs arbitrary: c)
  case (Cons x xs)
  then show ?case by (auto simp: delete_comment_def Let_def split: if_splits Option.bind_splits option.splits)
qed simp

lemma delete_ack_ok:
  assumes "comments_ok c"
  shows "\<exists>c'. delete_service_acknowledgement_comments c h d = Some (OK, c') \<and> comments_ok c'"
    "\<exists>c'. delete_host_acknowledgement_comments c h = Some (OK, c') \<and> comments_ok c'"
  using delete_service_ack_spec [of c h d] delete_host_ack_spec [of c h] assms delete_each_next_id
  by (fastforce simp: comments_ok_def delete_service_acknowledgement_comments_def delete_host_acknowledgement_comments_def)+

section \<open>Other updates\<close>

text \<open>The fields the invariant is about.\<close>

definition svc_ties :: "service \<Rightarrow> nat option \<times> int \<times> nat option list \<times> dependency list \<times> dependency list \<times> nat \<times> nat option" where
  "svc_ties v = (s_next_check_event v, s_scheduled_downtime_depth v, s_parents v, s_exec_deps v, s_notify_deps v,
     s_state_history_index v, s_host v)"

definition host_ties :: "host \<Rightarrow> nat option \<times> int \<times> dependency list \<times> dependency list \<times> nat \<times> nat list" where
  "host_ties v = (h_next_check_event v, h_scheduled_downtime_depth v, h_exec_deps v, h_notify_deps v, h_state_history_index v,
     h_child_hosts v)"

definition holds :: "nat set \<Rightarrow> daemon \<Rightarrow> daemon \<Rightarrow> bool" where
  "holds X s s' \<longleftrightarrow> daemon_ok X s' \<and> (\<forall>d. pending_event d s' = pending_event d s)"

lemma stays_holds: "stays X s s' \<Longrightarrow> holds X s s'"
  by (simp add: holds_def stays_def)

lemma holds_trans: "holds X s s' \<Longrightarrow> holds X s' s'' \<Longrightarrow> holds X s s''"
  by (simp add: holds_def)

lemma holds_frame:
  assumes ok: "daemon_ok X s" and same: "event_queue s' = event_queue s" "next_event_handle s' = next_event_handle s" "comments s' = comments s"
      "dt_keeps s s'" "scheduled_downtime_list s' = scheduled_downtime_list s" "dt_fanout s' = dt_fanout s" "dt_heap s' = dt_heap s"
      "globs s' = globs s"
    and ties: "\<And>i. svc_ties (svcs s' i) = svc_ties (svcs s i)" "\<And>h. host_ties (hosts s' h) = host_ties (hosts s h)"
  shows "holds X s s'"
proof -
  note t = ties [unfolded svc_ties_def host_ties_def prod.inject]
  have pend: "pending d s' = pending d s" for d using t by (cases d) simp_all
  have "target_depth u s' = target_depth u s" for u using t by (cases u) simp_all
  with same have "quiet s s'" by (simp add: quiet_def)
  then have "dt_inv {} s'" using dt_inv_quiet [OF daemon_okD(1) [OF ok]] by blast
  moreover have "acyclic_links s'"
    using daemon_okD(4) [OF ok] by (subst acyclic_links_frame [of s' s]) (use t in \<open>simp_all add: links_def\<close>)
  then have "flap_ready s'" using daemon_okD(2) [OF ok] t same(3) by (simp add: flap_ready_def rings_def)
  moreover note sched_ok_frame [OF same(1,2) pend]
  moreover have "linked s'" by (rule linked_frame [OF _ daemon_okD(5) [OF ok]]) (use t same(8) in \<open>simp add: pointers_def\<close>)
  moreover have "dt_events_ok s'" by (rule dt_events_ok_frame [OF _ _ pend daemon_okD(6) [OF ok]]) (simp_all add: same)
  ultimately show ?thesis using daemon_okD(3) [OF ok] by (simp add: holds_def daemon_ok_def)
qed

lemma holds_upd_svc:
  assumes "daemon_ok X s" "svc_ties (f (svcs s i)) = svc_ties (svcs s i)"
  shows "holds X s (upd_svc i f s)"
  by (rule holds_frame [OF assms(1)]) (use assms(2) in \<open>simp_all add: dt_keeps_def svc_ties_def\<close>)

lemma holds_upd_host:
  assumes "daemon_ok X s" "host_ties (f (hosts s h)) = host_ties (hosts s h)"
  shows "holds X s (upd_host h f s)"
  by (rule holds_frame [OF assms(1)]) (use assms(2) in \<open>simp_all add: dt_keeps_def\<close>)

lemma holds_fields:
  assumes "daemon_ok X s"
  shows "holds X s (act as s)" "holds X s (s\<lparr>next_event_id := n\<rparr>)" "holds X s (s\<lparr>next_problem_id := n\<rparr>)"
    "holds X s (s\<lparr>currently_running_service_checks := n\<rparr>)" "holds X s (s\<lparr>currently_running_host_checks := n\<rparr>)"
    "holds X s (s\<lparr>rands := r\<rparr>)"
  by (rule holds_frame [OF assms]; simp add: dt_keeps_def)+

lemma holdsD: "holds X s s' \<Longrightarrow> daemon_ok X s'" "holds X s s' \<Longrightarrow> pending_event d s' = pending_event d s"
  by (simp_all add: holds_def)

section \<open>Scheduling\<close>

lemma place_event_fields:
  assumes "place_event old ty d t opts s = (h, s')"
  shows "chk_core s' = chk_core s" "quiet s s'" "comments s' = comments s" "svcs s' = svcs s" "hosts s' = hosts s"
    "dt_heap s' = dt_heap s" "next_event_handle s \<le> next_event_handle s'" "h = next_event_handle s \<or> (\<exists>e. old = Some (h, e))"
proof -
  show "h = next_event_handle s \<or> (\<exists>e. old = Some (h, e))"
    using assms by (auto simp: place_event_def Let_def split: option.splits)
  obtain s1 e where s1: "s' = add_event h e s1" "s1 = s\<lparr>next_event_handle := next_event_handle s + 1\<rparr> \<or> (\<exists>k. s1 = remove_event (Some k) s)"
    using assms by (auto simp: place_event_def Let_def split: option.splits prod.splits)
  from s1(2) show "chk_core s' = chk_core s" unfolding s1(1) by (auto simp: chk_frame)
  have depth: "target_depth t (add_event h e s1) = target_depth t s" for t using s1(2) by (cases t) auto
  from s1(2) show "quiet s s'" unfolding s1(1) quiet_def dt_keeps_def depth by auto
  from s1(2) show "comments s' = comments s" "svcs s' = svcs s" "hosts s' = hosts s" "dt_heap s' = dt_heap s"
    "next_event_handle s \<le> next_event_handle s'" unfolding s1(1) by auto
qed

lemma queued_event_handle: "queued_event s p = Some (Some (h, e)) \<Longrightarrow> p = Some h"
  by (auto simp: queued_event_def split: option.splits)

lemma keeps_rescheduled_svc:
  assumes ok: "daemon_ok X s" and s1: "chk_core s1 = chk_core s" "quiet s s1" "svcs s1 = svcs s" "hosts s1 = hosts s"
    and f: "\<And>v. svc_chk_core (f v) = svc_chk_core v" "\<And>v. s_state_history_index (f v) = s_state_history_index v"
      "\<And>v. s_scheduled_downtime_depth (f v) = s_scheduled_downtime_depth v"
    and sched: "sched_ok X (upd_svc i f s1)"
    and heap: "dt_heap s1 = dt_heap s" "next_event_handle s \<le> next_event_handle s1"
    and handle: "s_next_check_event (f (svcs s i)) = s_next_check_event (svcs s i)
      \<or> (\<exists>h. s_next_check_event (f (svcs s i)) = Some h \<and> (s_next_check_event (svcs s i) = Some h \<or> next_event_handle s \<le> h))"
  shows "daemon_ok X (upd_svc i f s1)" "chk_core (upd_svc i f s1) = chk_core s"
proof -
  let ?s = "upd_svc i f s1"
  show core: "chk_core ?s = chk_core s" using chk_core_svc [OF f(1)] s1(1) by simp
  have par: "s_parents (f v) = s_parents v" for v
    using arg_cong [OF f(1), of s_parents v] by (simp add: svc_chk_core_def svc_flap_core_def svc_core_def)
  have "target_depth t ?s = target_depth t s1" for t using f(3) by (cases t) simp_all
  then have "quiet s1 ?s" by (simp add: quiet_def dt_keeps_def par)
  then have "dt_inv {} ?s" using dt_inv_quiet [OF daemon_okD(1) [OF ok] quiet_trans [OF s1(2)]] by blast
  moreover have "flap_ready ?s"
    using daemon_okD(2) [OF ok] acyclic_links_frame [OF chk_core_links [OF core]] s1(2-4) f(2)
    by (simp add: flap_ready_def rings_def quiet_def)
  moreover have "linked ?s" by (rule linked_frame [OF chk_core_pointers [OF core] daemon_okD(5) [OF ok]])
  moreover have "dt_events_ok ?s"
  proof (rule dt_events_ok_mono [OF daemon_okD(6) [OF ok]])
    show "dt_handles ?s \<subseteq> dt_handles s" using heap(1) by (simp add: dt_handles_def)
    show "next_event_handle s \<le> next_event_handle ?s" using heap(2) by simp
    show "pending d s = Some h \<or> next_event_handle s \<le> h" if "pending d ?s = Some h" for d h
      using that handle s1(3,4) by (cases d) (auto split: if_splits)
  qed
  ultimately show "daemon_ok X ?s" using sched by (simp add: daemon_ok_def)
qed

lemma stays_schedule_service_check:
  assumes "daemon_ok X s"
  shows "\<exists>s'. schedule_service_check i t opts s = Some s' \<and> daemon_ok X s' \<and> chk_core s' = chk_core s"
proof (cases "schedule_service_check i t opts s = Some s")
  case False
  have "\<not> (s_checks_enabled (svcs s i) \<or> forced opts) \<Longrightarrow> schedule_service_check i t opts s = Some s"
    "opts = CHECK_OPTION_DEPENDENCY_CHECK \<and> s_last_check (svcs s i) \<le> clock s
      \<and> s_last_check (svcs s i) + int (cached_service_check_horizon (globs s)) > t
      \<Longrightarrow> schedule_service_check i t opts s = Some s"
    by (auto simp: schedule_service_check_def)
  with False have acc: "s_checks_enabled (svcs s i) \<or> forced opts"
    "\<not> (opts = CHECK_OPTION_DEPENDENCY_CHECK \<and> s_last_check (svcs s i) \<le> clock s
      \<and> s_last_check (svcs s i) + int (cached_service_check_horizon (globs s)) > t)"
    by blast+
  from schedule_service_check_spec [OF daemon_okD(3) [OF assms] acc] obtain s' e where
    s': "schedule_service_check i t opts s = Some s'" "scheduled X (Service_ref i) t opts s s' e" by blast
  obtain old where old: "queued_event s (s_next_check_event (svcs s i)) = Some old"
    using s'(1) acc by (auto simp: schedule_service_check_def split: if_splits Option.bind_splits)
  have ok: "sched_ok X s'" using s'(2) by (simp add: scheduled_def)
  show ?thesis
  proof (cases "use_original_event old t opts")
    case True
    then obtain h e where "old = Some (h, e)" by (auto simp: use_original_event_def split: option.splits)
    with True s'(1) old acc have "s' = upd_svc i (\<lambda>v. v\<lparr>s_next_check := ev_run_time e\<rparr>) s"
      by (auto simp: schedule_service_check_def)
    with keeps_rescheduled_svc [OF assms, of s "\<lambda>v. v\<lparr>s_next_check := ev_run_time e\<rparr>" i] ok s'(1) show ?thesis
      by (simp add: svc_chk_core_def svc_flap_core_def svc_core_def)
  next
    case False
    obtain h s1 where p: "place_event old EVENT_SERVICE_CHECK (Service_ref i) t opts s = (h, s1)" by fastforce
    let ?f = "\<lambda>v. v\<lparr>s_next_check_event := Some h, s_next_check := t, s_check_options := opts\<rparr>"
    have "s' = upd_svc i ?f s1"
      using False s'(1) old acc p by (auto simp: schedule_service_check_def)
    moreover have "s_next_check_event (svcs s i) = Some h \<or> next_event_handle s \<le> h"
      using place_event_fields(8) [OF p] old queued_event_handle by auto
    ultimately show ?thesis
      using keeps_rescheduled_svc [OF assms place_event_fields(1,2,4,5) [OF p], of ?f i] place_event_fields(6,7) [OF p] ok s'(1)
      by (simp add: svc_chk_core_def svc_flap_core_def svc_core_def)
  qed
qed (use assms in simp)

lemma keeps_rescheduled_host:
  assumes ok: "daemon_ok X s" and s1: "chk_core s1 = chk_core s" "quiet s s1" "svcs s1 = svcs s" "hosts s1 = hosts s"
    and f: "\<And>v. host_chk_core (f v) = host_chk_core v" "\<And>v. h_state_history_index (f v) = h_state_history_index v"
      "\<And>v. h_scheduled_downtime_depth (f v) = h_scheduled_downtime_depth v"
    and sched: "sched_ok X (upd_host i f s1)"
    and heap: "dt_heap s1 = dt_heap s" "next_event_handle s \<le> next_event_handle s1"
    and handle: "h_next_check_event (f (hosts s i)) = h_next_check_event (hosts s i)
      \<or> (\<exists>h. h_next_check_event (f (hosts s i)) = Some h \<and> (h_next_check_event (hosts s i) = Some h \<or> next_event_handle s \<le> h))"
  shows "daemon_ok X (upd_host i f s1)" "chk_core (upd_host i f s1) = chk_core s"
proof -
  let ?s = "upd_host i f s1"
  show core: "chk_core ?s = chk_core s" using chk_core_host [OF f(1)] s1(1) by simp
  have "target_depth t ?s = target_depth t s1" for t using f(3) by (cases t) simp_all
  then have "quiet s1 ?s" by (simp add: quiet_def dt_keeps_def)
  then have "dt_inv {} ?s" using dt_inv_quiet [OF daemon_okD(1) [OF ok] quiet_trans [OF s1(2)]] by blast
  moreover have "flap_ready ?s"
    using daemon_okD(2) [OF ok] acyclic_links_frame [OF chk_core_links [OF core]] s1(2-4) f(2)
    by (simp add: flap_ready_def rings_def quiet_def)
  moreover have "linked ?s" by (rule linked_frame [OF chk_core_pointers [OF core] daemon_okD(5) [OF ok]])
  moreover have "dt_events_ok ?s"
  proof (rule dt_events_ok_mono [OF daemon_okD(6) [OF ok]])
    show "dt_handles ?s \<subseteq> dt_handles s" using heap(1) by (simp add: dt_handles_def)
    show "next_event_handle s \<le> next_event_handle ?s" using heap(2) by simp
    show "pending d s = Some h \<or> next_event_handle s \<le> h" if "pending d ?s = Some h" for d h
      using that handle s1(3,4) by (cases d) (auto split: if_splits)
  qed
  ultimately show "daemon_ok X ?s" using sched by (simp add: daemon_ok_def)
qed

lemma stays_schedule_host_check:
  assumes "daemon_ok X s"
  shows "\<exists>s'. schedule_host_check i t opts s = Some s' \<and> daemon_ok X s' \<and> chk_core s' = chk_core s"
proof (cases "schedule_host_check i t opts s = Some s")
  case False
  have "\<not> (h_checks_enabled (hosts s i) \<or> forced opts) \<Longrightarrow> schedule_host_check i t opts s = Some s"
    "opts = CHECK_OPTION_DEPENDENCY_CHECK \<and> h_last_check (hosts s i) + int (cached_host_check_horizon (globs s)) > t
      \<Longrightarrow> schedule_host_check i t opts s = Some s"
    by (auto simp: schedule_host_check_def)
  with False have acc: "h_checks_enabled (hosts s i) \<or> forced opts"
    "\<not> (opts = CHECK_OPTION_DEPENDENCY_CHECK \<and> h_last_check (hosts s i) + int (cached_host_check_horizon (globs s)) > t)"
    by blast+
  from schedule_host_check_spec [OF daemon_okD(3) [OF assms] acc] obtain s' e where
    s': "schedule_host_check i t opts s = Some s'" "scheduled X (Host_ref i) t opts s s' e" by blast
  obtain old where old: "queued_event s (h_next_check_event (hosts s i)) = Some old"
    using s'(1) acc by (auto simp: schedule_host_check_def split: if_splits Option.bind_splits)
  have ok: "sched_ok X s'" using s'(2) by (simp add: scheduled_def)
  show ?thesis
  proof (cases "use_original_event old t opts")
    case True
    then obtain h e where "old = Some (h, e)" by (auto simp: use_original_event_def split: option.splits)
    with True s'(1) old acc have "s' = upd_host i (\<lambda>v. v\<lparr>h_next_check := ev_run_time e\<rparr>) s"
      by (auto simp: schedule_host_check_def)
    with keeps_rescheduled_host [OF assms, of s "\<lambda>v. v\<lparr>h_next_check := ev_run_time e\<rparr>" i] ok s'(1) show ?thesis
      by (simp add: host_chk_core_def host_flap_core_def host_core_def)
  next
    case False
    obtain h s1 where p: "place_event old EVENT_HOST_CHECK (Host_ref i) t opts s = (h, s1)" by fastforce
    let ?f = "\<lambda>v. v\<lparr>h_next_check_event := Some h, h_next_check := t, h_check_options := opts\<rparr>"
    have "s' = upd_host i ?f s1"
      using False s'(1) old acc p by (auto simp: schedule_host_check_def)
    moreover have "h_next_check_event (hosts s i) = Some h \<or> next_event_handle s \<le> h"
      using place_event_fields(8) [OF p] old queued_event_handle by auto
    ultimately show ?thesis
      using keeps_rescheduled_host [OF assms place_event_fields(1,2,4,5) [OF p], of ?f i] place_event_fields(6,7) [OF p] ok s'(1)
      by (simp add: host_chk_core_def host_flap_core_def host_core_def)
  qed
qed (use assms in simp)

end
