(* ===== verification/CheckResults.thy ===== *)
theory CheckResults
  imports CheckFrames
begin

text \<open>
  The handling of check results, from \<open>base/checks.c\<close>: \<open>handle_async_service_check_result\<close> and
  \<open>handle_async_host_check_result\<close> with the functions they are split into.

  \<^item> The local flags of a handler are a record that is passed along with the state.
  \<^item> A return code that is no state, which only a passive result can have (the codes of active checks
    are mapped to states), leaves the model: \<open>None\<close>.  The code shifts 1 by such a state.
  \<^item> What is written to the log, the event handlers and the obsessive commands is recorded as actions.
\<close>

section \<open>Results\<close>

definition OPT_NOTIFICATIONS :: u32 where "OPT_NOTIFICATIONS = push_bit 9 1"

definition calculate_check_result_execution_time :: "check_result \<Rightarrow> rat" where
  "calculate_check_result_execution_time cr =
    (let execution_time = of_int (fst (cr_finish_time cr) - fst (cr_start_time cr))
       + of_int (snd (cr_finish_time cr) - snd (cr_start_time cr)) / 1000 / 1000
     in if execution_time < 0 then 0 else execution_time)"

text \<open>\<open>printf\<close> with \<open>%.2lf\<close> and with \<open>%d\<close>.\<close>

definition two_decimals :: "rat \<Rightarrow> string" where
  "two_decimals x =
    (let hundredths = \<bar>x\<bar> * 100; below = \<lfloor>hundredths\<rfloor>;
         n = nat (if hundredths - of_int below < 1/2 then below else if hundredths - of_int below > 1/2 then below + 1
           else if even below then below else below + 1)
     in (if x < 0 then ''-'' else '''') @ decimal (n div 100) @ ''.'' @ decimal (n mod 100 div 10) @ decimal (n mod 10))"

definition signed_decimal :: "int \<Rightarrow> string" where
  "signed_decimal n = (if n < 0 then ''-'' @ decimal (nat (- n)) else decimal (nat n))"

definition quoted :: "string \<Rightarrow> string" where
  "quoted s = CHR 0x27 # s @ [CHR 0x27]"

definition set_service_output :: "nat \<Rightarrow> string \<Rightarrow> daemon \<Rightarrow> daemon" where
  "set_service_output i s_output s = upd_svc i (\<lambda>v. v\<lparr>s_plugin_output := Some s_output, s_long_plugin_output := None, s_perf_data := None\<rparr>) s"

definition set_host_output :: "nat \<Rightarrow> string \<Rightarrow> daemon \<Rightarrow> daemon" where
  "set_host_output h h_output s = upd_host h (\<lambda>v. v\<lparr>h_plugin_output := Some h_output, h_long_plugin_output := None, h_perf_data := None\<rparr>) s"

definition get_service_check_return_code :: "nat \<Rightarrow> check_result \<Rightarrow> daemon \<Rightarrow> c_int \<times> daemon" where
  "get_service_check_return_code i cr s =
    (let rc = cr_return_code cr in
     if cr_check_type cr \<noteq> CHECK_TYPE_ACTIVE then (rc, s)
     else if cr_early_timeout cr then
       (int (service_check_timeout_state (globs s)),
        set_service_output i (''(Service check timed out after '' @ two_decimals (s_execution_time (svcs s i)) @ '' seconds)'') s)
     else if \<not> cr_exited_ok cr then (int STATE_CRITICAL, set_service_output i ''(Service check did not exit properly)'' s)
     else if rc = 126 then
       (int STATE_CRITICAL, set_service_output i ''(Return code of 126 is out of bounds. Check if plugin is executable)'' s)
     else if rc = 127 then
       (int STATE_CRITICAL, set_service_output i ''(Return code of 127 is out of bounds. Check if plugin exists)'' s)
     else if rc < 0 \<or> rc > 3 then
       (int STATE_CRITICAL, upd_svc i (\<lambda>v. v\<lparr>s_plugin_output := Some (''(Return code of '' @ signed_decimal rc @ '' for service ''
          @ quoted (s_description v) @ '' on host '' @ quoted (s_host_name v) @ '' was out of bounds)'')\<rparr>) s)
     else (rc, s))"

definition get_host_check_return_code :: "nat \<Rightarrow> check_result \<Rightarrow> daemon \<Rightarrow> c_int \<times> daemon" where
  "get_host_check_return_code h cr s =
    (if cr_check_type cr \<noteq> CHECK_TYPE_ACTIVE then (cr_return_code cr, s)
     else
      let (rc, s) =
        (let rc = cr_return_code cr in
         if cr_early_timeout cr then
           (int HOST_UNREACHABLE, set_host_output h (''(Host check timed out after '' @ two_decimals (h_execution_time (hosts s h)) @ '' seconds)'') s)
         else if \<not> cr_exited_ok cr then (int HOST_UNREACHABLE, set_host_output h ''(Host check did not exit properly)'' s)
         else if rc = 126 then
           (int HOST_UNREACHABLE, set_host_output h ''(Return code of 126 is out of bounds. Check if plugin is executable)'' s)
         else if rc = 127 then
           (int HOST_UNREACHABLE, set_host_output h ''(Return code of 127 is out of bounds. Check if plugin exists)'' s)
         else if rc < 0 \<or> rc > 3 then
           (int HOST_UNREACHABLE, set_host_output h (''(Return code of '' @ signed_decimal rc @ '' for host ''
              @ quoted (h_name (hosts s h)) @ '' was out of bounds)'') s)
         else (rc, s))
      in
      if h_check_command (hosts s h) = None then
        (int HOST_UP, upd_host h (\<lambda>v. v\<lparr>h_plugin_output := Some ''(Host assumed to be UP)''\<rparr>) s)
      else if \<not> use_aggressive_host_checking (globs s) \<and> rc = int STATE_WARNING then (int HOST_UP, s)
      else if rc \<noteq> int HOST_UP then (int HOST_DOWN, s)
      else (rc, s))"

section \<open>Parts of both handlers\<close>

text \<open>The state after a check ended: when it was last in the state it had before.\<close>

definition record_last_service_state_ended :: "nat \<Rightarrow> daemon \<Rightarrow> daemon" where
  "record_last_service_state_ended i = upd_svc i (\<lambda>v.
     if s_last_state v = STATE_OK then v\<lparr>s_last_time_ok := s_last_check v\<rparr>
     else if s_last_state v = STATE_WARNING then v\<lparr>s_last_time_warning := s_last_check v\<rparr>
     else if s_last_state v = STATE_UNKNOWN then v\<lparr>s_last_time_unknown := s_last_check v\<rparr>
     else if s_last_state v = STATE_CRITICAL then v\<lparr>s_last_time_critical := s_last_check v\<rparr>
     else v)"

definition record_last_host_state_ended :: "nat \<Rightarrow> daemon \<Rightarrow> daemon" where
  "record_last_host_state_ended h = upd_host h (\<lambda>v.
     if h_last_state v = HOST_UP then v\<lparr>h_last_time_up := h_last_check v\<rparr>
     else if h_last_state v = HOST_DOWN then v\<lparr>h_last_time_down := h_last_check v\<rparr>
     else if h_last_state v = HOST_UNREACHABLE then v\<lparr>h_last_time_unreachable := h_last_check v\<rparr>
     else v)"

definition service_is_passive :: "nat \<Rightarrow> daemon \<Rightarrow> bool \<times> daemon" where
  "service_is_passive i s =
    (if \<not> accept_passive_service_checks (globs s) then (False, s)
     else if \<not> s_accept_passive_checks (svcs s i) then (False, s)
     else (True, upd_svc i (\<lambda>v. v\<lparr>s_check_type := CHECK_TYPE_PASSIVE\<rparr>) s))"

definition host_is_passive :: "nat \<Rightarrow> daemon \<Rightarrow> bool \<times> daemon" where
  "host_is_passive h s =
    (if \<not> accept_passive_host_checks (globs s) then (False, s)
     else if \<not> h_accept_passive_checks (hosts s h) then (False, s)
     else (True, upd_host h (\<lambda>v. v\<lparr>h_check_type := CHECK_TYPE_PASSIVE\<rparr>) s))"

definition service_is_active :: "nat \<Rightarrow> daemon \<Rightarrow> daemon" where
  "service_is_active i s = upd_svc i (\<lambda>v. v\<lparr>s_check_type := CHECK_TYPE_ACTIVE, s_is_executing := False\<rparr>)
    (s\<lparr>currently_running_service_checks := currently_running_service_checks s - 1\<rparr>)"

definition host_is_active :: "nat \<Rightarrow> daemon \<Rightarrow> daemon" where
  "host_is_active h s = upd_host h (\<lambda>v. v\<lparr>h_check_type := CHECK_TYPE_ACTIVE, h_is_executing := False\<rparr>)
    (s\<lparr>currently_running_host_checks := currently_running_host_checks s - 1\<rparr>)"

definition service_fresh_check :: "nat \<Rightarrow> check_result \<Rightarrow> daemon \<Rightarrow> daemon" where
  "service_fresh_check i cr s =
    (if cr_check_options cr AND CHECK_OPTION_FRESHNESS_CHECK \<noteq> 0 \<and> \<not> is_service_result_fresh s i
     then upd_svc i (\<lambda>v. v\<lparr>s_is_being_freshened := False\<rparr>) s else s)"

definition host_fresh_check :: "nat \<Rightarrow> check_result \<Rightarrow> daemon \<Rightarrow> daemon" where
  "host_fresh_check h cr s =
    (if cr_check_options cr AND CHECK_OPTION_FRESHNESS_CHECK \<noteq> 0 \<and> \<not> is_host_result_fresh s h
     then upd_host h (\<lambda>v. v\<lparr>h_is_being_freshened := False\<rparr>) s else s)"

definition initialize_last_service_state_change_times :: "nat \<Rightarrow> nat \<Rightarrow> daemon \<Rightarrow> daemon" where
  "initialize_last_service_state_change_times i h s =
    (let now = s_last_check (svcs s i) in
     upd_host h (\<lambda>v. v\<lparr>h_last_state_change := (if h_last_state_change v = 0 then now else h_last_state_change v),
         h_last_hard_state_change := (if h_last_hard_state_change v = 0 then now else h_last_hard_state_change v)\<rparr>)
      (upd_svc i (\<lambda>v. v\<lparr>s_last_state_change := (if s_last_state_change v = 0 then now else s_last_state_change v),
         s_last_hard_state_change := (if s_last_hard_state_change v = 0 then now else s_last_hard_state_change v)\<rparr>) s))"

definition initialize_last_host_state_change_times :: "nat \<Rightarrow> daemon \<Rightarrow> daemon" where
  "initialize_last_host_state_change_times h = upd_host h (\<lambda>v.
     v\<lparr>h_last_state_change := (if h_last_state_change v = 0 then h_last_check v else h_last_state_change v),
       h_last_hard_state_change := (if h_last_hard_state_change v = 0 then h_last_check v else h_last_hard_state_change v)\<rparr>)"

text \<open>The output is parsed and the result taken over.  Returns the output there was before.\<close>

definition parsed_output :: "check_result \<Rightarrow> string \<Rightarrow> string option \<times> string option \<times> string option" where
  "parsed_output cr missing =
    (case parse_check_output (cr_output cr) True False of (short, long, perf) \<Rightarrow>
       (case short of None \<Rightarrow> Some missing | Some t \<Rightarrow> Some (replace_semicolons t), long, perf))"

definition a_state :: "c_int \<Rightarrow> bool" where
  "a_state rc \<longleftrightarrow> 0 \<le> rc \<and> rc < 31"

definition service_initial_handling :: "nat \<Rightarrow> check_result \<Rightarrow> daemon \<Rightarrow> (string option \<times> daemon) ub" where
  "service_initial_handling i cr s =
    (let old_plugin_output = s_plugin_output (svcs s i);
         (short, long, perf) = parsed_output cr ''(No output returned from plugin)'';
         s = upd_svc i (\<lambda>v. v\<lparr>s_plugin_output := short, s_long_plugin_output := long, s_perf_data := perf,
           s_latency := cr_latency cr, s_execution_time := calculate_check_result_execution_time cr,
           s_last_check := fst (cr_start_time cr), s_should_be_scheduled := cr_reschedule_check cr,
           s_last_state := s_current_state v\<rparr>) s;
         (rc, s) = get_service_check_return_code i cr s
     in if a_state rc then Some (old_plugin_output, upd_svc i (\<lambda>v. v\<lparr>s_current_state := nat rc\<rparr>) s) else None)"

definition host_initial_handling :: "nat \<Rightarrow> check_result \<Rightarrow> daemon \<Rightarrow> (string option \<times> daemon) ub" where
  "host_initial_handling h cr s =
    (let old_plugin_output = h_plugin_output (hosts s h);
         (short, long, perf) = parsed_output cr ''(No output returned from host check)'';
         s = upd_host h (\<lambda>v. v\<lparr>h_plugin_output := short, h_long_plugin_output := long, h_perf_data := perf,
           h_latency := cr_latency cr, h_execution_time := calculate_check_result_execution_time cr,
           h_last_check := fst (cr_start_time cr), h_should_be_scheduled := cr_reschedule_check cr,
           h_last_state := h_current_state v\<rparr>) s;
         (rc, s) = get_host_check_return_code h cr s
     in if a_state rc then Some (old_plugin_output, upd_host h (\<lambda>v. v\<lparr>h_current_state := nat rc\<rparr>) s) else None)"

section \<open>Propagation\<close>

text \<open>Loops that may queue a check for each element of a list.\<close>

fun queue_checks :: "(nat \<Rightarrow> daemon \<Rightarrow> daemon ub) \<Rightarrow> nat list \<Rightarrow> daemon \<Rightarrow> daemon ub" where
  "queue_checks f [] s = Some s"
| "queue_checks f (x # xs) s = (f x s \<bind> queue_checks f xs)"

definition host_propagate_checks_to_immediate_parents :: "nat \<Rightarrow> bool \<Rightarrow> daemon \<Rightarrow> daemon ub" where
  "host_propagate_checks_to_immediate_parents h parent_host_up s =
    queue_checks (\<lambda>p s. if parent_host_up \<and> h_current_state (hosts s p) \<noteq> HOST_UP
        \<or> \<not> parent_host_up \<and> h_current_state (hosts s p) = HOST_UP
      then schedule_host_check p (clock s) CHECK_OPTION_DEPENDENCY_CHECK s else Some s)
      (h_parent_hosts (hosts s h)) s"

definition host_propagate_checks_to_immediate_children :: "nat \<Rightarrow> bool \<Rightarrow> bool \<Rightarrow> daemon \<Rightarrow> daemon ub" where
  "host_propagate_checks_to_immediate_children h children_none_up children_none_unreachable s =
    queue_checks (\<lambda>c s. if children_none_up \<and> h_current_state (hosts s c) \<noteq> HOST_UP
        \<or> children_none_unreachable \<and> h_current_state (hosts s c) \<noteq> HOST_UNREACHABLE
      then schedule_host_check c (clock s) CHECK_OPTION_DEPENDENCY_CHECK s else Some s)
      (h_child_hosts (hosts s h)) s"

text \<open>The masters of the dependencies of an object.\<close>

definition masters :: "nat \<Rightarrow> dependency list \<Rightarrow> nat list" where
  "masters x ds = map (the \<circ> d_master) (filter (\<lambda>d. d_dependent d = Some x \<and> d_master d \<noteq> None) ds)"

definition host_propagate_dependency_checks :: "nat \<Rightarrow> daemon \<Rightarrow> daemon ub" where
  "host_propagate_dependency_checks h s =
    (let v = hosts s h in
     if h_current_attempt v = h_max_attempts v - 1 \<and> execute_host_checks (globs s)
       \<and> enable_predictive_host_dependency_checks (globs s)
     then queue_checks (\<lambda>m s. schedule_host_check m (clock s) CHECK_OPTION_NONE s)
       (masters h (h_notify_deps v) @ masters h (h_exec_deps v)) s
     else Some s)"

definition service_propagate_dependency_checks :: "nat \<Rightarrow> daemon \<Rightarrow> daemon ub" where
  "service_propagate_dependency_checks i s =
    (let v = svcs s i in
     if s_current_attempt v = s_max_attempts v - 1 \<and> execute_service_checks (globs s)
       \<and> enable_predictive_service_dependency_checks (globs s)
     then queue_checks (\<lambda>m s. schedule_service_check m (clock s) CHECK_OPTION_DEPENDENCY_CHECK s)
       (masters i (s_exec_deps v) @ masters i (s_notify_deps v)) s
     else Some s)"

text \<open>\<open>compare_strings\<close> as a condition, and the stalking macros.\<close>

definition compare_strings :: "string option \<Rightarrow> string option \<Rightarrow> c_int" where
  "compare_strings val1a val2a = compare_hashdata val1a None val2a None"

definition should_stalk :: "u32 \<Rightarrow> nat \<Rightarrow> bool" where
  "should_stalk stalking_options current_state = flag_isset stalking_options (state_flag current_state)"

definition should_stalk_notifications :: "u32 \<Rightarrow> bool" where
  "should_stalk_notifications stalking_options = flag_isset stalking_options OPT_NOTIFICATIONS"

section \<open>Changes of the state or its type\<close>

abbreviation (input) ACKNOWLEDGEMENT_NONE :: nat where "ACKNOWLEDGEMENT_NONE \<equiv> 0"
abbreviation (input) ACKNOWLEDGEMENT_NORMAL :: nat where "ACKNOWLEDGEMENT_NORMAL \<equiv> 1"
abbreviation (input) ACKNOWLEDGEMENT_STICKY :: nat where "ACKNOWLEDGEMENT_STICKY \<equiv> 2"

text \<open>The local variables of a handler.\<close>

record run_flags =
  next_check_time :: int
  state_change :: bool
  hard_state_change :: bool
  send_notification :: bool
  handle_event :: bool
  log_event :: bool
  new_last_hard_state :: nat

definition new_service_event_ids :: "nat \<Rightarrow> daemon \<Rightarrow> daemon" where
  "new_service_event_ids i s =
    (let s = upd_svc i (\<lambda>v. v\<lparr>s_last_state_change := s_last_check v, s_last_event_id := s_current_event_id v,
           s_current_event_id := next_event_id s\<rparr>) (s\<lparr>next_event_id := next_event_id s + 1\<rparr>);
         s = (if s_last_state (svcs s i) = STATE_OK
           then upd_svc i (\<lambda>v. v\<lparr>s_current_problem_id := next_problem_id s\<rparr>) (s\<lparr>next_problem_id := next_problem_id s + 1\<rparr>) else s)
     in upd_svc i (\<lambda>v. v\<lparr>s_state_type := SOFT_STATE\<rparr>) s)"

definition forget_service_acknowledgement :: "nat \<Rightarrow> bool \<Rightarrow> bool \<Rightarrow> daemon \<Rightarrow> daemon ub" where
  "forget_service_acknowledgement i changed changed_hard s =
    (let v = svcs s i in
     if s_acknowledgement_type v = ACKNOWLEDGEMENT_NORMAL \<and> (changed \<or> \<not> changed_hard)
       \<or> s_acknowledgement_type v = ACKNOWLEDGEMENT_STICKY \<and> s_current_state v = STATE_OK
     then do {
       let s = upd_svc i (\<lambda>v. v\<lparr>s_problem_has_been_acknowledged := False, s_acknowledgement_type := ACKNOWLEDGEMENT_NONE\<rparr>) s;
       (_, c) \<leftarrow> delete_service_acknowledgement_comments (comments s) (s_host_name v) (s_description v);
       Some (s\<lparr>comments := c\<rparr>)
     } else Some s)"

definition service_state_or_hard_state_type_change :: "nat \<Rightarrow> run_flags \<Rightarrow> daemon \<Rightarrow> (run_flags \<times> daemon) ub" where
  "service_state_or_hard_state_type_change i f s = do {
     let s = (if state_change f then new_service_event_ids i s else s);
     let s = (if hard_state_change f then upd_svc i (\<lambda>v. v\<lparr>s_last_hard_state_change := s_last_check v,
         s_last_state_change := s_last_check v, s_last_hard_state := s_current_state v, s_state_type := HARD_STATE\<rparr>) s else s);
     (if state_change f \<or> hard_state_change f then do {
        s \<leftarrow> (if s_pending_flex_downtime (svcs s i) > 0
          then map_option snd (check_pending_flex_service_downtime s i) else Some s);
        let s = upd_svc i (\<lambda>v. v\<lparr>s_last_notification := 0, s_next_notification := 0, s_no_more_notifications := False\<rparr>) s;
        s \<leftarrow> forget_service_acknowledgement i (state_change f) (hard_state_change f) s;
        Some (f\<lparr>log_event := True, handle_event := True\<rparr>, upd_svc i (\<lambda>v. v\<lparr>s_should_be_scheduled := True\<rparr>) s)
      } else Some (f, s))
   }"

definition new_host_event_ids :: "nat \<Rightarrow> daemon \<Rightarrow> daemon" where
  "new_host_event_ids h s =
    (let s = upd_host h (\<lambda>v. v\<lparr>h_last_state_change := h_last_check v, h_last_event_id := h_current_event_id v,
           h_current_event_id := next_event_id s\<rparr>) (s\<lparr>next_event_id := next_event_id s + 1\<rparr>);
         s = (if h_last_state (hosts s h) = HOST_UP
           then upd_host h (\<lambda>v. v\<lparr>h_current_problem_id := next_problem_id s\<rparr>) (s\<lparr>next_problem_id := next_problem_id s + 1\<rparr>)
           else upd_host h (\<lambda>v. v\<lparr>h_last_problem_id := h_current_problem_id v, h_current_problem_id := 0\<rparr>) s)
     in upd_host h (\<lambda>v. v\<lparr>h_state_type := SOFT_STATE\<rparr>) s)"

definition forget_host_acknowledgement :: "nat \<Rightarrow> bool \<Rightarrow> bool \<Rightarrow> daemon \<Rightarrow> daemon ub" where
  "forget_host_acknowledgement h changed changed_hard s =
    (let v = hosts s h in
     if h_acknowledgement_type v = ACKNOWLEDGEMENT_NORMAL \<and> (changed \<or> \<not> changed_hard)
       \<or> h_acknowledgement_type v = ACKNOWLEDGEMENT_STICKY \<and> h_current_state v = STATE_OK
     then do {
       let s = upd_host h (\<lambda>v. v\<lparr>h_problem_has_been_acknowledged := False, h_acknowledgement_type := ACKNOWLEDGEMENT_NONE\<rparr>) s;
       (_, c) \<leftarrow> delete_host_acknowledgement_comments (comments s) (h_name v);
       Some (s\<lparr>comments := c\<rparr>)
     } else Some s)"

text \<open>A passive result makes a hard state at once, unless configured otherwise.\<close>

definition simulate_hard_host_state :: "nat \<Rightarrow> run_flags \<Rightarrow> daemon \<Rightarrow> run_flags \<times> daemon" where
  "simulate_hard_host_state h f s =
    (if h_check_type (hosts s h) = CHECK_TYPE_PASSIVE \<and> \<not> passive_host_checks_are_soft (globs s) then
       (if state_change f
        then (f\<lparr>hard_state_change := True\<rparr>, upd_host h (\<lambda>v. v\<lparr>h_current_attempt := 1, h_state_type := HARD_STATE\<rparr>) s)
        else (f, upd_host h (\<lambda>v. v\<lparr>h_state_type := HARD_STATE\<rparr>) s))
     else (f, s))"

definition host_state_or_hard_state_type_change :: "nat \<Rightarrow> run_flags \<Rightarrow> daemon \<Rightarrow> (run_flags \<times> daemon) ub" where
  "host_state_or_hard_state_type_change h f s = do {
     let (f', s) = simulate_hard_host_state h f s;
     let s = (if state_change f' then new_host_event_ids h s else s);
     let s = (if hard_state_change f' then upd_host h (\<lambda>v. v\<lparr>h_last_hard_state_change := h_last_check v,
         h_last_state_change := h_last_check v, h_last_hard_state := h_current_state v, h_state_type := HARD_STATE\<rparr>) s else s);
     let f = (if hard_state_change f' then f\<lparr>send_notification := True\<rparr> else f);
     (if state_change f' \<or> hard_state_change f' then do {
        s \<leftarrow> map_option snd (check_pending_flex_host_downtime s h);
        let s = upd_host h (\<lambda>v. v\<lparr>h_last_notification := 0, h_next_notification := 0, h_no_more_notifications := False\<rparr>) s;
        s \<leftarrow> forget_host_acknowledgement h (state_change f') (hard_state_change f') s;
        Some (f\<lparr>log_event := True, handle_event := True\<rparr>, upd_host h (\<lambda>v. v\<lparr>h_should_be_scheduled := True\<rparr>) s)
      } else Some (f, s))
   }"

section \<open>The service handler\<close>

text \<open>Whether the host must be checked as well, and the host problem the service knows of.\<close>

definition service_check_host :: "nat \<Rightarrow> nat \<Rightarrow> daemon \<Rightarrow> (bool \<times> daemon) ub" where
  "service_check_host i h s =
    (let svc = svcs s i; hst = hosts s h; current_time = clock s;
         problem = (\<lambda>b. upd_svc i (\<lambda>v. v\<lparr>s_host_problem_at_last_check := b\<rparr>)) in
     if s_current_state svc = STATE_OK then
       (if \<not> h_has_been_checked hst then
          Some (h_next_check hst = 0 \<or> h_initial_state hst \<noteq> HOST_UP
            \<or> of_int (h_next_check hst) < h_check_interval hst * of_int (interval_length (globs s)) + of_int current_time, s)
        else if h_current_state hst \<noteq> HOST_UP then
          Some (\<not> (s_last_state svc = STATE_OK \<and> h_has_been_checked hst
            \<and> current_time - h_last_check hst < int (cached_host_check_horizon (globs s))), problem True s)
        else Some (False, s))
     else if h_current_state hst = HOST_UP then
       Some (execute_host_checks (globs s) \<and> s_last_state svc \<noteq> s_current_state svc
           \<and> h_last_check hst + int (cached_host_check_horizon (globs s)) < current_time,
         problem False (if s_host_problem_at_last_check svc \<and> s_state_type svc = SOFT_STATE
           then upd_svc i (\<lambda>v. v\<lparr>s_current_attempt := 1\<rparr>) s else s))
     else do {
       s \<leftarrow> (if \<not> execute_host_checks (globs s) \<or> s_current_state svc = s_last_state svc then
           map_option snd (host_notification h NOTIFICATION_NORMAL NOTIFICATION_OPTION_NONE
             (if \<not> h_has_been_checked hst
              then upd_host h (\<lambda>v. v\<lparr>h_has_been_checked := True, h_last_check := s_last_check svc\<rparr>) s else s))
         else Some s);
       Some (False, problem True s)
     })"

definition service_host_down :: "nat \<Rightarrow> nat \<Rightarrow> run_flags \<Rightarrow> daemon \<Rightarrow> run_flags \<times> daemon" where
  "service_host_down i h f s =
    (if h_current_state (hosts s h) \<noteq> HOST_UP \<and> new_last_hard_state f \<noteq> s_current_state (svcs s i)
     then (f\<lparr>hard_state_change := True, new_last_hard_state := s_current_state (svcs s i)\<rparr>,
       upd_svc i (\<lambda>v. v\<lparr>s_state_type := HARD_STATE, s_current_attempt := s_max_attempts v\<rparr>) s)
     else (f, s))"

definition service_was_ok :: "nat \<Rightarrow> run_flags \<Rightarrow> daemon \<Rightarrow> (run_flags \<times> daemon) ub" where
  "service_was_ok i f s =
    (if s_current_state (svcs s i) = STATE_OK
     then Some (f, upd_svc i (\<lambda>v. v\<lparr>s_state_type := HARD_STATE, s_current_attempt := 1\<rparr>) s)
     else do {
       s \<leftarrow> service_propagate_dependency_checks i (upd_svc i (\<lambda>v. v\<lparr>s_state_type :=
           (if \<not> s_host_problem_at_last_check v \<and> \<not> hard_state_change f then SOFT_STATE else s_state_type v),
           s_current_attempt := 1\<rparr>) s);
       Some (f\<lparr>handle_event := True\<rparr>, s)
     })"

definition service_was_problem :: "nat \<Rightarrow> run_flags \<Rightarrow> daemon \<Rightarrow> run_flags \<times> daemon" where
  "service_was_problem i f s =
    (let svc = svcs s i in
     if s_current_state svc = STATE_OK then
       (let (f, s) = (if s_state_type svc = HARD_STATE
          then (f\<lparr>send_notification := True, hard_state_change := True\<rparr>, upd_svc i (\<lambda>v. v\<lparr>s_current_attempt := 1\<rparr>) s) else (f, s))
        in (f\<lparr>handle_event := True, state_change := True\<rparr>, s))
     else if s_state_type svc = SOFT_STATE
       then (f\<lparr>handle_event := True, next_check_time := time_plus s (clock s) (s_retry_interval svc)\<rparr>, s)
     else if s_host_problem_at_last_check svc then (f, s)
     else (f\<lparr>send_notification := True\<rparr>, s))"

definition service_adjust_attempt :: "nat \<Rightarrow> run_flags \<Rightarrow> daemon \<Rightarrow> run_flags \<times> daemon" where
  "service_adjust_attempt i f s =
    (let svc = svcs s i;
         f = (if s_state_type svc = SOFT_STATE then f\<lparr>next_check_time := time_plus s (clock s) (s_retry_interval svc)\<rparr> else f);
         f = (if s_current_state svc \<noteq> s_last_state svc \<or> s_current_state svc = STATE_OK \<and> s_state_type svc = SOFT_STATE
           then f\<lparr>state_change := True\<rparr> else f);
         attempt = s_current_attempt svc;
         attempt = (if s_state_type svc = SOFT_STATE then
             (if s_last_state svc \<noteq> STATE_OK \<and> attempt < s_max_attempts svc then attempt + 1
              else if state_change f \<and> s_current_state svc \<noteq> STATE_OK then 1
              else if attempt < s_max_attempts svc then attempt + 1 else attempt)
           else attempt);
         f = (if attempt \<ge> s_max_attempts svc \<and> (s_current_state svc \<noteq> new_last_hard_state f
               \<or> s_state_type svc = SOFT_STATE \<and> s_current_state svc \<noteq> STATE_OK)
           then f\<lparr>next_check_time := time_plus s (clock s) (s_check_interval svc), hard_state_change := True, send_notification := True\<rparr>
           else f)
     in (f, upd_svc i (\<lambda>v. v\<lparr>s_current_attempt := attempt\<rparr>) s))"

text \<open>The last hard state is put back until the end.\<close>

definition service_change_type :: "nat \<Rightarrow> run_flags \<Rightarrow> daemon \<Rightarrow> (run_flags \<times> daemon) ub" where
  "service_change_type i f s = do {
     let original_last_hard_state = s_last_hard_state (svcs s i);
     (f, s) \<leftarrow> service_state_or_hard_state_type_change i f s;
     let (f, s) = (if original_last_hard_state \<noteq> s_last_hard_state (svcs s i)
       then (f\<lparr>new_last_hard_state := s_last_hard_state (svcs s i)\<rparr>, upd_svc i (\<lambda>v. v\<lparr>s_last_hard_state := original_last_hard_state\<rparr>) s)
       else (f, s));
     let f = (if s_current_state (svcs s i) \<noteq> STATE_OK \<and> s_state_type (svcs s i) = SOFT_STATE then f\<lparr>log_event := True\<rparr> else f);
     Some (f, record_last_service_state_ended i s)
   }"

definition service_reschedule :: "nat \<Rightarrow> int \<Rightarrow> daemon \<Rightarrow> daemon ub" where
  "service_reschedule i next_check s =
    (let svc = svcs s i in
     if \<not> s_checks_enabled svc then Some (upd_svc i (\<lambda>v. v\<lparr>s_should_be_scheduled := False\<rparr>) s)
     else if s_check_interval svc = 0 \<and> (s_state_type svc = HARD_STATE \<or> s_current_state svc = STATE_OK)
       then Some (upd_svc i (\<lambda>v. v\<lparr>s_should_be_scheduled := False\<rparr>) s)
     else if s_should_be_scheduled svc then
       (let preferred_time = (if clock s > next_check then clock s else next_check);
            next_valid_time = get_next_valid_time (clib s) (clock s) preferred_time (s_check_period svc);
            s = (if next_valid_time > preferred_time then
                (case next_rand s of (r, s) \<Rightarrow> upd_svc i (\<lambda>v. v\<lparr>s_next_check :=
                   reschedule_within_timeperiod (clib s) r next_valid_time (s_check_period svc) (service_check_window s i)\<rparr>) s)
              else upd_svc i (\<lambda>v. v\<lparr>s_next_check := next_valid_time\<rparr>) s)
        in schedule_service_check i (s_next_check (svcs s i)) CHECK_OPTION_NONE s)
     else Some s)"

definition service_notify :: "nat \<Rightarrow> run_flags \<Rightarrow> daemon \<Rightarrow> (run_flags \<times> daemon) ub" where
  "service_notify i f s = do {
     let s = (if s_current_state (svcs s i) = STATE_OK \<and> state_change f
       then upd_svc i (\<lambda>v. v\<lparr>s_last_problem_id := s_current_problem_id v, s_current_problem_id := 0\<rparr>) s else s);
     let svc = svcs s i;
     let f = (if s_current_state svc \<noteq> STATE_OK \<and> s_state_type svc = HARD_STATE \<and> s_is_volatile svc
       then f\<lparr>send_notification := True, log_event := True, handle_event := True\<rparr> else f);
     let (notification_type, f) = (if s_notified_on svc \<noteq> 0 \<and> s_current_state svc = STATE_OK \<and> s_state_type svc = HARD_STATE
       then (NOTIFICATION_RECOVERY, f\<lparr>send_notification := True\<rparr>) else (NOTIFICATION_NORMAL, f));
     (if send_notification f then do {
        (r, s) \<leftarrow> service_notification i notification_type NOTIFICATION_OPTION_NONE s;
        Some (if r = OK \<and> should_stalk_notifications (s_stalking_options (svcs s i)) then f\<lparr>log_event := True\<rparr> else f, s)
      } else Some (f, s))
   }"

definition service_report :: "nat \<Rightarrow> string option \<Rightarrow> run_flags \<Rightarrow> daemon \<Rightarrow> daemon" where
  "service_report i old_plugin_output f s =
    (let svc = svcs s i;
         log = (log_event f \<or> should_stalk (s_stalking_options svc) (s_current_state svc)
           \<and> compare_strings old_plugin_output (s_plugin_output svc) \<noteq> 0)
     in act ((if obsess_over_services (globs s) then [Obsess_service i] else [])
         @ (if log then [Log_service_event i (s_current_state svc) (s_state_type svc) (s_current_attempt svc)] else [])
         @ (if handle_event f then [Handle_service_event i (s_current_state svc) (s_state_type svc) (s_current_attempt svc)] else [])) s)"

definition service_finish :: "nat \<Rightarrow> run_flags \<Rightarrow> daemon \<Rightarrow> daemon" where
  "service_finish i f s =
    (let recovered = (s_current_state (svcs s i) = STATE_OK \<and> state_change f);
         s = (if recovered then upd_svc i (\<lambda>v. v\<lparr>
             s_host_problem_at_last_check := (if hard_state_change f then False else s_host_problem_at_last_check v),
             s_last_hard_state_change := s_last_check v, s_current_attempt := 1, s_state_type := HARD_STATE\<rparr>) s else s);
         s = act [Service_perfdata i] (upd_svc i (\<lambda>v. v\<lparr>s_has_been_checked := True\<rparr>) s)
     in upd_svc i (\<lambda>v. v\<lparr>s_last_hard_state := (if recovered then s_current_state v else new_last_hard_state f)\<rparr>) s)"

definition process_service_result :: "nat \<Rightarrow> nat \<Rightarrow> check_result \<Rightarrow> nat \<Rightarrow> daemon \<Rightarrow> daemon ub" where
  "process_service_result i h cr last_hard_state s = do {
     (old_plugin_output, s) \<leftarrow> service_initial_handling i cr (service_fresh_check i cr (initialize_last_service_state_change_times i h s));
     let f = \<lparr>next_check_time = time_plus s (s_last_check (svcs s i)) (s_check_interval (svcs s i)), state_change = False,
       hard_state_change = False, send_notification = False, handle_event = False, log_event = False,
       new_last_hard_state = last_hard_state\<rparr>;
     (check_host, s) \<leftarrow> service_check_host i h s;
     let (f, s) = service_host_down i h f s;
     s \<leftarrow> (if check_host then schedule_host_check h (clock s) CHECK_OPTION_DEPENDENCY_CHECK s else Some s);
     (f, s) \<leftarrow> (if s_last_state (svcs s i) = STATE_OK then service_was_ok i f s else Some (service_was_problem i f s));
     let (f, s) = service_adjust_attempt i f s;
     (f, s) \<leftarrow> service_change_type i f s;
     s \<leftarrow> check_for_service_flapping i True True s;
     s \<leftarrow> check_for_host_flapping h True False True s;
     s \<leftarrow> service_reschedule i (next_check_time f) s;
     (f, s) \<leftarrow> service_notify i f s;
     Some (service_finish i f (service_report i old_plugin_output f s))
   }"

definition handle_async_service_check_result :: "nat \<Rightarrow> check_result \<Rightarrow> daemon \<Rightarrow> (c_int \<times> daemon) ub" where
  "handle_async_service_check_result i cr s =
    (case s_host (svcs s i) of None \<Rightarrow> Some (ERROR, s)
     | Some h \<Rightarrow>
        let (accepted, s') = (if cr_check_type cr = CHECK_TYPE_PASSIVE then service_is_passive i s else (True, service_is_active i s)) in
        if \<not> accepted then Some (ERROR, s')
        else map_option (Pair OK) (process_service_result i h cr (s_last_hard_state (svcs s i)) s'))"

section \<open>The host handler\<close>

definition determine_host_reachability :: "daemon \<Rightarrow> nat \<Rightarrow> nat" where
  "determine_host_reachability s h =
    (let v = hosts s h in
     if h_current_state v = HOST_UP then HOST_UP
     else if h_check_type v = CHECK_TYPE_PASSIVE \<and> h_current_state v = HOST_UNREACHABLE then HOST_UNREACHABLE
     else if h_parent_hosts v = [] then HOST_DOWN
     else if \<exists>p \<in> set (h_parent_hosts v). h_current_state (hosts s p) = HOST_UP then HOST_DOWN
     else HOST_UNREACHABLE)"

definition host_was_up :: "nat \<Rightarrow> run_flags \<Rightarrow> daemon \<Rightarrow> (run_flags \<times> daemon) ub" where
  "host_was_up h f s =
    (if h_current_state (hosts s h) = HOST_UP
     then Some (f, upd_host h (\<lambda>v. v\<lparr>h_state_type := HARD_STATE, h_current_attempt := 1\<rparr>) s)
     else do {
       let s = upd_host h (\<lambda>v. v\<lparr>h_state_type := SOFT_STATE, h_current_attempt := 1\<rparr>) s;
       s \<leftarrow> host_propagate_checks_to_immediate_parents h False s;
       s \<leftarrow> host_propagate_checks_to_immediate_children h False True s;
       s \<leftarrow> host_propagate_dependency_checks h s;
       Some (f\<lparr>handle_event := True\<rparr>, s)
     })"

definition host_was_down :: "nat \<Rightarrow> run_flags \<Rightarrow> daemon \<Rightarrow> (run_flags \<times> daemon) ub" where
  "host_was_down h f s =
    (if h_current_state (hosts s h) = HOST_UP then do {
       s \<leftarrow> host_propagate_checks_to_immediate_parents h True s;
       s \<leftarrow> host_propagate_checks_to_immediate_children h True False s;
       let f = f\<lparr>handle_event := True\<rparr>;
       Some (if h_state_type (hosts s h) = HARD_STATE
         then (f\<lparr>send_notification := True, hard_state_change := True\<rparr>, upd_host h (\<lambda>v. v\<lparr>h_current_attempt := 1\<rparr>) s)
         else (f, s))
     }
     else if h_state_type (hosts s h) = SOFT_STATE
       then Some (f\<lparr>handle_event := True, next_check_time := time_plus s (clock s) (h_retry_interval (hosts s h))\<rparr>, s)
     else Some (f\<lparr>send_notification := True\<rparr>, s))"

definition host_translate_state :: "nat \<Rightarrow> run_flags \<Rightarrow> daemon \<Rightarrow> run_flags \<times> daemon" where
  "host_translate_state h f s =
    (let v = hosts s h in
     if h_current_state v \<noteq> HOST_UP \<and> (h_check_type v = CHECK_TYPE_ACTIVE \<or> translate_passive_host_checks (globs s))
     then (if h_state_type v = SOFT_STATE then f\<lparr>next_check_time := time_plus s (clock s) (h_retry_interval v)\<rparr> else f,
       upd_host h (\<lambda>v. v\<lparr>h_current_state := determine_host_reachability s h\<rparr>) s)
     else (f, s))"

definition host_adjust_attempt :: "nat \<Rightarrow> run_flags \<Rightarrow> daemon \<Rightarrow> run_flags \<times> daemon" where
  "host_adjust_attempt h f s =
    (let hst = hosts s h;
         f = (if h_current_state hst \<noteq> h_last_state hst \<or> h_current_state hst = HOST_UP \<and> h_state_type hst = SOFT_STATE
           then f\<lparr>state_change := True\<rparr> else f);
         attempt = h_current_attempt hst;
         attempt = (if h_state_type hst = SOFT_STATE then
             (if h_last_state hst \<noteq> HOST_UP \<and> h_current_state hst \<noteq> HOST_UP \<and> attempt < h_max_attempts hst then attempt + 1
              else if state_change f \<or> h_current_state hst = HOST_UP then 1
              else if attempt < h_max_attempts hst then attempt + 1 else attempt)
           else attempt);
         f = (if attempt \<ge> h_max_attempts hst \<and> h_current_state hst \<noteq> new_last_hard_state f
           then f\<lparr>next_check_time := time_plus s (clock s) (h_check_interval hst), hard_state_change := True, send_notification := True\<rparr>
           else f)
     in (f, upd_host h (\<lambda>v. v\<lparr>h_current_attempt := attempt\<rparr>) s))"

definition host_change_type :: "nat \<Rightarrow> run_flags \<Rightarrow> daemon \<Rightarrow> (run_flags \<times> daemon) ub" where
  "host_change_type h f s = do {
     let original_last_hard_state = h_last_hard_state (hosts s h);
     (f, s) \<leftarrow> host_state_or_hard_state_type_change h f s;
     let (f, s) = (if original_last_hard_state \<noteq> h_last_hard_state (hosts s h)
       then (f\<lparr>new_last_hard_state := h_last_hard_state (hosts s h)\<rparr>, upd_host h (\<lambda>v. v\<lparr>h_last_hard_state := original_last_hard_state\<rparr>) s)
       else (f, s));
     Some (f, record_last_host_state_ended h s)
   }"

definition host_reschedule :: "nat \<Rightarrow> int \<Rightarrow> daemon \<Rightarrow> daemon ub" where
  "host_reschedule h next_check s =
    (let hst = hosts s h in
     if \<not> h_checks_enabled hst then Some (upd_host h (\<lambda>v. v\<lparr>h_should_be_scheduled := False\<rparr>) s)
     else if h_check_interval hst = 0 \<and> (h_state_type hst = HARD_STATE \<or> h_current_state hst = HOST_UP)
       then Some (upd_host h (\<lambda>v. v\<lparr>h_should_be_scheduled := False\<rparr>) s)
     else if h_should_be_scheduled hst then
       (let preferred_time = (if clock s > next_check then clock s else next_check);
            next_valid_time = get_next_valid_time (clib s) (clock s) preferred_time (h_check_period hst);
            s = (if next_valid_time > preferred_time then
                (case next_rand s of (r, s) \<Rightarrow> upd_host h (\<lambda>v. v\<lparr>h_next_check :=
                   reschedule_within_timeperiod (clib s) r next_valid_time (h_check_period hst) (host_check_window s h)\<rparr>) s)
              else upd_host h (\<lambda>v. v\<lparr>h_next_check := next_valid_time\<rparr>) s)
        in schedule_host_check h (h_next_check (hosts s h)) CHECK_OPTION_NONE s)
     else Some s)"

text \<open>The code compares the attempt with \<open>HOST_UP\<close>, which is 0.\<close>

definition host_notify :: "nat \<Rightarrow> run_flags \<Rightarrow> daemon \<Rightarrow> (run_flags \<times> daemon) ub" where
  "host_notify h f s = do {
     let s = (if h_current_attempt (hosts s h) = int HOST_UP then upd_host h (\<lambda>v. v\<lparr>h_current_attempt := 1\<rparr>) s else s);
     let hst = hosts s h;
     let (notification_type, f) = (if h_notified_on hst \<noteq> 0 \<and> h_current_state hst = HOST_UP \<and> h_state_type hst = HARD_STATE
       then (NOTIFICATION_RECOVERY, f\<lparr>send_notification := True\<rparr>) else (NOTIFICATION_NORMAL, f));
     (if send_notification f then do {
        (r, s) \<leftarrow> host_notification h notification_type NOTIFICATION_OPTION_NONE s;
        Some (if r = OK \<and> should_stalk_notifications (h_stalking_options (hosts s h)) then f\<lparr>log_event := True\<rparr> else f, s)
      } else Some (f, s))
   }"

definition host_report :: "nat \<Rightarrow> string option \<Rightarrow> run_flags \<Rightarrow> daemon \<Rightarrow> daemon" where
  "host_report h old_plugin_output f s =
    (let hst = hosts s h;
         log = (log_event f \<or> should_stalk (h_stalking_options hst) (h_current_state hst)
             \<and> compare_strings old_plugin_output (h_plugin_output hst) \<noteq> 0
           \<or> h_state_type hst = SOFT_STATE \<and> log_host_retries (globs s))
     in act ((if obsess_over_hosts (globs s) then [Obsess_host h] else [])
         @ (if log then [Log_host_event h (h_current_state hst) (h_state_type hst) (h_current_attempt hst)] else [])
         @ (if handle_event f then [Handle_host_event h (h_current_state hst) (h_state_type hst) (h_current_attempt hst)] else [])) s)"

definition host_finish :: "nat \<Rightarrow> run_flags \<Rightarrow> daemon \<Rightarrow> daemon" where
  "host_finish h f s = upd_host h (\<lambda>v. v\<lparr>h_last_hard_state := new_last_hard_state f\<rparr>)
     (act [Host_perfdata h] (upd_host h (\<lambda>v. v\<lparr>h_has_been_checked := True\<rparr>) s))"

definition process_host_result :: "nat \<Rightarrow> check_result \<Rightarrow> nat \<Rightarrow> daemon \<Rightarrow> daemon ub" where
  "process_host_result h cr last_hard_state s = do {
     (old_plugin_output, s) \<leftarrow> host_initial_handling h cr (host_fresh_check h cr (initialize_last_host_state_change_times h s));
     let f = \<lparr>next_check_time = time_plus s (h_last_check (hosts s h)) (h_check_interval (hosts s h)), state_change = False,
       hard_state_change = False, send_notification = False, handle_event = False, log_event = False,
       new_last_hard_state = last_hard_state\<rparr>;
     (f, s) \<leftarrow> (if h_last_state (hosts s h) = HOST_UP then host_was_up h f s else host_was_down h f s);
     let (f, s) = host_translate_state h f s;
     let (f, s) = host_adjust_attempt h f s;
     (f, s) \<leftarrow> host_change_type h f s;
     s \<leftarrow> check_for_host_flapping h True True True s;
     s \<leftarrow> host_reschedule h (next_check_time f) s;
     (f, s) \<leftarrow> host_notify h f s;
     Some (host_finish h f (host_report h old_plugin_output f s))
   }"

definition handle_async_host_check_result :: "nat \<Rightarrow> check_result \<Rightarrow> daemon \<Rightarrow> (c_int \<times> daemon) ub" where
  "handle_async_host_check_result h cr s =
    (let (accepted, s') = (if cr_check_type cr = CHECK_TYPE_PASSIVE then host_is_passive h s else (True, host_is_active h s)) in
     if \<not> accepted then Some (ERROR, s')
     else map_option (Pair OK) (process_host_result h cr (h_last_hard_state (hosts s h)) s'))"

end
