(* ===== verification/CheckStates.thy ===== *)
theory CheckStates
  imports CheckResults
begin

text \<open>
  What the handling of a check result comes to: an abstract machine of soft and hard states for services and
  hosts, which the handlers refine, and that every handler returns and keeps the invariants.
\<close>

section \<open>Views\<close>

text \<open>What the parts of the service handler read but do not change, and what they change.\<close>

definition ctx :: "daemon \<Rightarrow> globals \<times> int \<times> libc \<times> (nat \<Rightarrow> nat)" where
  "ctx s = (globs s, clock s, clib s, \<lambda>h. h_current_state (hosts s h))"

definition svc_view :: "service \<Rightarrow> nat \<times> nat \<times> int \<times> bool \<times> rat \<times> nat option" where
  "svc_view v = (s_current_state v, s_last_state v, s_max_attempts v, s_checks_enabled v, s_check_interval v, s_host v)"

record machine =
  m_type :: nat
  m_attempt :: int
  m_last_hard :: nat
  m_host_problem :: bool
  m_scheduled :: bool

definition svc_machine :: "service \<Rightarrow> machine" where
  "svc_machine v = \<lparr>m_type = s_state_type v, m_attempt = s_current_attempt v, m_last_hard = s_last_hard_state v,
     m_host_problem = s_host_problem_at_last_check v, m_scheduled = s_should_be_scheduled v\<rparr>"

definition passes :: "nat set \<Rightarrow> nat \<Rightarrow> daemon \<Rightarrow> daemon \<Rightarrow> bool" where
  "passes X i s s' \<longleftrightarrow> daemon_ok X s' \<and> ctx s' = ctx s \<and> svc_view (svcs s' i) = svc_view (svcs s i)"

lemma passes_trans: "passes X i s s' \<Longrightarrow> passes X i s' s'' \<Longrightarrow> passes X i s s''"
  by (simp add: passes_def)

lemma ctxD:
  assumes "ctx s' = ctx s"
  shows "globs s' = globs s" "clock s' = clock s" "clib s' = clib s" "h_current_state (hosts s' h) = h_current_state (hosts s h)"
  using assms fun_cong [of "\<lambda>h. h_current_state (hosts s' h)" _ h] by (simp_all add: ctx_def)

lemma svc_viewD:
  assumes "svc_view v' = svc_view v"
  shows "s_current_state v' = s_current_state v" "s_last_state v' = s_last_state v" "s_max_attempts v' = s_max_attempts v"
    "s_checks_enabled v' = s_checks_enabled v" "s_check_interval v' = s_check_interval v" "s_host v' = s_host v"
  using assms by (simp_all add: svc_view_def)

lemmas chk_core_defs = svc_chk_core_def host_chk_core_def svc_flap_core_def host_flap_core_def svc_core_def host_core_def

lemma chk_core_passes:
  assumes "daemon_ok X s'" "chk_core s' = chk_core s"
  shows "passes X i s s'" "svc_machine (svcs s' i) = svc_machine (svcs s i)"
proof -
  note svc = chk_coreD(12) [OF assms(2), of i] and hst = chk_coreD(13) [OF assms(2)]
  have "h_current_state (hosts s' h) = h_current_state (hosts s h)" for h
    using arg_cong [OF hst, of h_current_state h] by (simp add: chk_core_defs)
  moreover have "svc_view (svcs s' i) = svc_view (svcs s i)"
    using arg_cong [OF svc, of svc_view] by (simp add: svc_view_def chk_core_defs)
  ultimately show "passes X i s s'" using assms(1) chk_coreD(1-3) [OF assms(2)] by (simp add: passes_def ctx_def)
  show "svc_machine (svcs s' i) = svc_machine (svcs s i)"
    using arg_cong [OF svc, of svc_machine] by (simp add: svc_machine_def chk_core_defs)
qed

lemma holds_passes: "holds X s s' \<Longrightarrow> ctx s' = ctx s \<Longrightarrow> svc_view (svcs s' i) = svc_view (svcs s i) \<Longrightarrow> passes X i s s'"
  by (simp add: holds_def passes_def)

lemma upd_svc_passes:
  assumes "daemon_ok X s" "svc_ties (f (svcs s i)) = svc_ties (svcs s i)" "svc_view (f (svcs s i)) = svc_view (svcs s i)"
  shows "passes X i s (upd_svc i f s)"
  using holds_upd_svc [where f = f and i = i, OF assms(1,2)] assms(3) by (simp add: holds_def passes_def ctx_def)

lemma queue_checks_passes:
  assumes "daemon_ok X s" "\<And>x t. daemon_ok X t \<Longrightarrow> \<exists>t'. f x t = Some t' \<and> daemon_ok X t' \<and> chk_core t' = chk_core t"
  shows "\<exists>s'. queue_checks f xs s = Some s' \<and> daemon_ok X s' \<and> chk_core s' = chk_core s"
  using assms(1)
proof (induction xs arbitrary: s)
  case (Cons x xs)
  from assms(2) [OF Cons.prems, of x] obtain s1 where s1: "f x s = Some s1" "daemon_ok X s1" "chk_core s1 = chk_core s" by blast
  from Cons.IH [OF s1(2)] s1 show ?case by auto
qed simp

lemma service_propagate_passes:
  assumes "daemon_ok X s"
  shows "\<exists>s'. service_propagate_dependency_checks i s = Some s' \<and> daemon_ok X s' \<and> chk_core s' = chk_core s"
  using queue_checks_passes [OF assms stays_schedule_service_check] assms
  by (auto simp: service_propagate_dependency_checks_def Let_def)

section \<open>Parts of the service handler\<close>

lemma service_check_host_step:
  assumes ok: "daemon_ok X s"
  shows "\<exists>b s'. service_check_host i h s = Some (b, s') \<and> passes X i s s'
    \<and> svc_machine (svcs s' i) = (svc_machine (svcs s i))
        \<lparr>m_attempt := if s_current_state (svcs s i) \<noteq> STATE_OK \<and> h_current_state (hosts s h) = HOST_UP
             \<and> s_host_problem_at_last_check (svcs s i) \<and> s_state_type (svcs s i) = SOFT_STATE then 1 else s_current_attempt (svcs s i),
         m_host_problem := s_host_problem_at_last_check (svcs s' i)\<rparr>
    \<and> (s_current_state (svcs s i) \<noteq> STATE_OK \<longrightarrow> s_host_problem_at_last_check (svcs s' i) = (h_current_state (hosts s h) \<noteq> HOST_UP))"
proof -
  let ?v = "svcs s i" and ?u = "hosts s h"
  note refl = chk_core_passes [OF ok refl, of i]
  have hp: "passes X i t (upd_svc i (\<lambda>v. v\<lparr>s_host_problem_at_last_check := b\<rparr>) t)" if "daemon_ok X t" for t b
    by (rule upd_svc_passes [OF that]) (simp_all add: svc_ties_def svc_view_def)
  show ?thesis
  proof (cases "s_current_state ?v = STATE_OK \<or> h_current_state ?u = HOST_UP")
    case True
    have at: "passes X i s (upd_svc i (\<lambda>v. v\<lparr>s_current_attempt := 1\<rparr>) s)"
      by (rule upd_svc_passes [OF ok]) (simp_all add: svc_ties_def svc_view_def)
    then have "passes X i s (upd_svc i (\<lambda>v. v\<lparr>s_host_problem_at_last_check := False\<rparr>) (upd_svc i (\<lambda>v. v\<lparr>s_current_attempt := 1\<rparr>) s))"
      using hp [of "upd_svc i (\<lambda>v. v\<lparr>s_current_attempt := 1\<rparr>) s"] passes_trans by (auto simp: passes_def)
    with True hp [OF ok] refl show ?thesis by (auto simp: service_check_host_def Let_def svc_machine_def)
  next
    case False
    let ?s1 = "if \<not> h_has_been_checked ?u then upd_host h (\<lambda>v. v\<lparr>h_has_been_checked := True, h_last_check := s_last_check ?v\<rparr>) s else s"
    have s1: "daemon_ok X ?s1" "passes X i s ?s1" "svc_machine (svcs ?s1 i) = svc_machine ?v"
      using holds_upd_host [OF ok, of "\<lambda>v. v\<lparr>h_has_been_checked := True, h_last_check := s_last_check ?v\<rparr>" h] ok refl
      by (auto simp: holds_def passes_def host_ties_def ctx_def)
    obtain s2 where s2: "(if \<not> execute_host_checks (globs s) \<or> s_current_state ?v = s_last_state ?v
        then map_option snd (host_notification h NOTIFICATION_NORMAL NOTIFICATION_OPTION_NONE ?s1) else Some s) = Some s2"
      "passes X i s s2" "svc_machine (svcs s2 i) = svc_machine ?v"
    proof (cases "\<not> execute_host_checks (globs s) \<or> s_current_state ?v = s_last_state ?v")
      case True
      from stays_host_notification [OF s1(1), of h NOTIFICATION_NORMAL NOTIFICATION_OPTION_NONE] obtain r s2 where
        s2: "host_notification h NOTIFICATION_NORMAL NOTIFICATION_OPTION_NONE ?s1 = Some (r, s2)" "stays X ?s1 s2" by blast
      from chk_core_passes [OF staysD(1,2) [OF s2(2)], of i] have "passes X i s s2" "svc_machine (svcs s2 i) = svc_machine ?v"
        using passes_trans [OF s1(2)] s1(3) by simp_all
      with that [of s2] True s2(1) show ?thesis by simp
    next
      case False
      with that [of s] refl show ?thesis by simp
    qed
    have ok2: "daemon_ok X s2" using s2(2) by (simp add: passes_def)
    have "service_check_host i h s = Some (False, upd_svc i (\<lambda>v. v\<lparr>s_host_problem_at_last_check := True\<rparr>) s2)"
      using False s2(1) by (simp add: service_check_host_def Let_def)
    moreover have "passes X i s (upd_svc i (\<lambda>v. v\<lparr>s_host_problem_at_last_check := True\<rparr>) s2)"
      using passes_trans [OF s2(2) hp [OF ok2]] .
    ultimately show ?thesis using False s2(3) by (auto simp: svc_machine_def)
  qed
qed

text \<open>The flags that decide.\<close>

definition turns :: "run_flags \<Rightarrow> bool \<times> bool \<times> nat" where
  "turns f = (state_change f, hard_state_change f, new_last_hard_state f)"

lemma turnsD:
  assumes "turns f' = turns f"
  shows "state_change f' = state_change f" "hard_state_change f' = hard_state_change f" "new_last_hard_state f' = new_last_hard_state f"
  using assms by (simp_all add: turns_def)

lemma service_was_ok_step:
  assumes ok: "daemon_ok X s"
  shows "\<exists>f' s'. service_was_ok i f s = Some (f', s') \<and> passes X i s s' \<and> turns f' = turns f
    \<and> svc_machine (svcs s' i) = (svc_machine (svcs s i))\<lparr>m_attempt := 1, m_type := if s_current_state (svcs s i) = STATE_OK then HARD_STATE
        else if \<not> s_host_problem_at_last_check (svcs s i) \<and> \<not> hard_state_change f then SOFT_STATE else s_state_type (svcs s i)\<rparr>"
proof (cases "s_current_state (svcs s i) = STATE_OK")
  case True
  have "passes X i s (upd_svc i (\<lambda>v. v\<lparr>s_state_type := HARD_STATE, s_current_attempt := 1\<rparr>) s)"
    by (rule upd_svc_passes [OF ok]) (simp_all add: svc_ties_def svc_view_def)
  with True show ?thesis by (simp add: service_was_ok_def svc_machine_def)
next
  case False
  let ?s = "upd_svc i (\<lambda>v. v\<lparr>s_state_type := (if \<not> s_host_problem_at_last_check v \<and> \<not> hard_state_change f then SOFT_STATE
    else s_state_type v), s_current_attempt := 1\<rparr>) s"
  have p: "passes X i s ?s" by (rule upd_svc_passes [OF ok]) (simp_all add: svc_ties_def svc_view_def)
  then have "daemon_ok X ?s" by (simp add: passes_def)
  from service_propagate_passes [OF this, of i] obtain s' where
    s': "service_propagate_dependency_checks i ?s = Some s'" "daemon_ok X s'" "chk_core s' = chk_core ?s" by blast
  from chk_core_passes [OF s'(2,3)] passes_trans [OF p] have "passes X i s s'" "svc_machine (svcs s' i) = svc_machine (svcs ?s i)" by blast+
  with False s'(1) show ?thesis by (simp add: service_was_ok_def svc_machine_def turns_def)
qed

lemma new_service_event_ids_step:
  assumes ok: "daemon_ok X s"
  shows "passes X i s (new_service_event_ids i s)"
    "svc_machine (svcs (new_service_event_ids i s) i) = (svc_machine (svcs s i))\<lparr>m_type := SOFT_STATE\<rparr>"
proof -
  have "holds X s (new_service_event_ids i s)"
    by (rule holds_frame [OF ok]) (simp_all add: new_service_event_ids_def Let_def dt_keeps_def svc_ties_def)
  then show "passes X i s (new_service_event_ids i s)"
    by (rule holds_passes) (simp_all add: new_service_event_ids_def Let_def ctx_def svc_view_def)
  show "svc_machine (svcs (new_service_event_ids i s) i) = (svc_machine (svcs s i))\<lparr>m_type := SOFT_STATE\<rparr>"
    by (simp add: new_service_event_ids_def Let_def svc_machine_def)
qed

lemma forget_service_acknowledgement_step:
  assumes ok: "daemon_ok X s"
  shows "\<exists>s'. forget_service_acknowledgement i a b s = Some s' \<and> passes X i s s' \<and> svc_machine (svcs s' i) = svc_machine (svcs s i)"
proof -
  let ?s = "upd_svc i (\<lambda>v. v\<lparr>s_problem_has_been_acknowledged := False, s_acknowledgement_type := ACKNOWLEDGEMENT_NONE\<rparr>) s"
  have p: "passes X i s ?s" by (rule upd_svc_passes [OF ok]) (simp_all add: svc_ties_def svc_view_def)
  then have ok1: "daemon_ok X ?s" by (simp add: passes_def)
  then have "comments_ok (comments ?s)" by (simp add: daemon_ok_def flap_ready_def)
  from delete_ack_ok(1) [OF this] obtain c where
    c: "delete_service_acknowledgement_comments (comments ?s) (s_host_name (svcs s i)) (s_description (svcs s i)) = Some (OK, c)" "comments_ok c" by blast
  from chk_core_passes [OF staysD(1,2) [OF stays_comments [OF ok1 c(2)]], of i] passes_trans [OF p]
  have "passes X i s (?s\<lparr>comments := c\<rparr>)" "svc_machine (svcs (?s\<lparr>comments := c\<rparr>) i) = svc_machine (svcs ?s i)" by blast+
  with c(1) chk_core_passes [OF ok refl, of i] show ?thesis
    by (simp add: forget_service_acknowledgement_def Let_def svc_machine_def)
qed

text \<open>The change of the state or its type, with the last hard state put back.\<close>

lemma service_state_or_hard_state_type_change_step:
  assumes ok: "daemon_ok X s"
  shows "\<exists>f' s'. service_state_or_hard_state_type_change i f s = Some (f', s') \<and> passes X i s s' \<and> turns f' = turns f
    \<and> next_check_time f' = next_check_time f
    \<and> svc_machine (svcs s' i) = (svc_machine (svcs s i))\<lparr>
        m_type := if hard_state_change f then HARD_STATE else if state_change f then SOFT_STATE else s_state_type (svcs s i),
        m_last_hard := if hard_state_change f then s_current_state (svcs s i) else s_last_hard_state (svcs s i),
        m_scheduled := s_should_be_scheduled (svcs s i) \<or> state_change f \<or> hard_state_change f\<rparr>"
proof -
  define s1 where "s1 = (if state_change f then new_service_event_ids i s else s)"
  have s1: "passes X i s s1" "svc_machine (svcs s1 i) = (svc_machine (svcs s i))\<lparr>m_type := if state_change f then SOFT_STATE else s_state_type (svcs s i)\<rparr>"
    using new_service_event_ids_step [OF ok, of i] chk_core_passes [OF ok refl, of i] by (simp_all add: s1_def svc_machine_def)
  define s2 where "s2 = (if hard_state_change f then upd_svc i (\<lambda>v. v\<lparr>s_last_hard_state_change := s_last_check v,
         s_last_state_change := s_last_check v, s_last_hard_state := s_current_state v, s_state_type := HARD_STATE\<rparr>) s1 else s1)"
  have ok1: "daemon_ok X s1" using s1(1) by (simp add: passes_def)
  have "passes X i s1 (upd_svc i (\<lambda>v. v\<lparr>s_last_hard_state_change := s_last_check v,
         s_last_state_change := s_last_check v, s_last_hard_state := s_current_state v, s_state_type := HARD_STATE\<rparr>) s1)"
    by (rule upd_svc_passes [OF ok1]) (simp_all add: svc_ties_def svc_view_def)
  then have p12: "passes X i s1 s2" using chk_core_passes [OF ok1 refl, of i] by (simp add: s2_def)
  have p2: "passes X i s s2" by (rule passes_trans [OF s1(1) p12])
  have view: "svc_view (svcs s2 i) = svc_view (svcs s i)" "s_current_state (svcs s1 i) = s_current_state (svcs s i)"
    using p2 svc_viewD(1) [of "svcs s1 i" "svcs s i"] s1(1) by (simp_all add: passes_def)
  have m2: "svc_machine (svcs s2 i) = (svc_machine (svcs s i))\<lparr>
      m_type := if hard_state_change f then HARD_STATE else if state_change f then SOFT_STATE else s_state_type (svcs s i),
      m_last_hard := if hard_state_change f then s_current_state (svcs s i) else s_last_hard_state (svcs s i)\<rparr>"
    using s1(2) view(2) by (auto simp: s2_def svc_machine_def)
  show ?thesis
  proof (cases "state_change f \<or> hard_state_change f")
    case False
    then have "service_state_or_hard_state_type_change i f s = Some (f, s)"
      unfolding service_state_or_hard_state_type_change_def by simp
    moreover have "s2 = s" using False by (simp add: s1_def s2_def)
    ultimately show ?thesis using p2 False by (auto simp: svc_machine_def)
  next
    case True
    have ok2: "daemon_ok X s2" using p2 by (simp add: passes_def)
    obtain r s3' where fl: "check_pending_flex_service_downtime s2 i = Some (r, s3')" "stays X s2 s3'"
      using stays_flex_service [OF ok2] by blast
    define s3 where "s3 = (if s_pending_flex_downtime (svcs s2 i) > 0 then s3' else s2)"
    have s3: "(if s_pending_flex_downtime (svcs s2 i) > 0 then map_option snd (check_pending_flex_service_downtime s2 i) else Some s2) = Some s3"
      "stays X s2 s3" using fl stays_refl [OF ok2] by (simp_all add: s3_def)
    let ?s4 = "upd_svc i (\<lambda>v. v\<lparr>s_last_notification := 0, s_next_notification := 0, s_no_more_notifications := False\<rparr>) s3"
    have p4: "passes X i s ?s4" "svc_machine (svcs ?s4 i) = svc_machine (svcs s2 i)"
    proof -
      have "passes X i s3 ?s4" by (rule upd_svc_passes [OF staysD(1) [OF s3(2)]]) (simp_all add: svc_ties_def svc_view_def)
      with chk_core_passes [OF staysD(1,2) [OF s3(2)], of i] p2 show "passes X i s ?s4" using passes_trans by blast
      show "svc_machine (svcs ?s4 i) = svc_machine (svcs s2 i)"
        using chk_core_passes(2) [OF staysD(1,2) [OF s3(2)], of i] by (simp add: svc_machine_def)
    qed
    then have "daemon_ok X ?s4" by (simp add: passes_def)
    from forget_service_acknowledgement_step [OF this, of i "state_change f" "hard_state_change f"] obtain s5 where
      s5: "forget_service_acknowledgement i (state_change f) (hard_state_change f) ?s4 = Some s5" "passes X i ?s4 s5"
      "svc_machine (svcs s5 i) = svc_machine (svcs ?s4 i)" by blast
    let ?s6 = "upd_svc i (\<lambda>v. v\<lparr>s_should_be_scheduled := True\<rparr>) s5"
    have "passes X i s5 ?s6" by (rule upd_svc_passes) (use s5(2) in \<open>simp_all add: svc_ties_def svc_view_def passes_def\<close>)
    then have "passes X i s ?s6" using p4(1) s5(2) passes_trans by blast
    moreover have "svc_machine (svcs ?s6 i) = (svc_machine (svcs s2 i))\<lparr>m_scheduled := True\<rparr>"
      using s5(3) p4(2) by (simp add: svc_machine_def)
    moreover have "service_state_or_hard_state_type_change i f s = Some (f\<lparr>log_event := True, handle_event := True\<rparr>, ?s6)"
      using True s3(1) s5(1) by (simp add: service_state_or_hard_state_type_change_def s2_def [symmetric] s1_def [symmetric])
    ultimately show ?thesis using True m2 by (auto simp: svc_machine_def turns_def)
  qed
qed

lemma service_change_type_step:
  assumes ok: "daemon_ok X s"
  shows "\<exists>f' s'. service_change_type i f s = Some (f', s') \<and> passes X i s s'
    \<and> state_change f' = state_change f \<and> hard_state_change f' = hard_state_change f \<and> next_check_time f' = next_check_time f
    \<and> new_last_hard_state f' = (if hard_state_change f \<and> s_last_hard_state (svcs s i) \<noteq> s_current_state (svcs s i)
        then s_current_state (svcs s i) else new_last_hard_state f)
    \<and> svc_machine (svcs s' i) = (svc_machine (svcs s i))\<lparr>
        m_type := if hard_state_change f then HARD_STATE else if state_change f then SOFT_STATE else s_state_type (svcs s i),
        m_scheduled := s_should_be_scheduled (svcs s i) \<or> state_change f \<or> hard_state_change f\<rparr>"
proof -
  let ?v = "svcs s i"
  from service_state_or_hard_state_type_change_step [OF ok, of i f] obtain f1 s1 where
    s1: "service_state_or_hard_state_type_change i f s = Some (f1, s1)" "passes X i s s1" "turns f1 = turns f"
      "next_check_time f1 = next_check_time f" 
      "svc_machine (svcs s1 i) = (svc_machine ?v)\<lparr>
        m_type := if hard_state_change f then HARD_STATE else if state_change f then SOFT_STATE else s_state_type ?v,
        m_last_hard := if hard_state_change f then s_current_state ?v else s_last_hard_state ?v,
        m_scheduled := s_should_be_scheduled ?v \<or> state_change f \<or> hard_state_change f\<rparr>" by blast
  note t = turnsD [OF s1(3)]
  have lh: "s_last_hard_state (svcs s1 i) = (if hard_state_change f then s_current_state ?v else s_last_hard_state ?v)"
    using arg_cong [OF s1(5), of m_last_hard] by (simp add: svc_machine_def)
  define s2 where "s2 = (if s_last_hard_state ?v \<noteq> s_last_hard_state (svcs s1 i)
      then upd_svc i (\<lambda>v. v\<lparr>s_last_hard_state := s_last_hard_state ?v\<rparr>) s1 else s1)"
  define f2 where "f2 = (if s_last_hard_state ?v \<noteq> s_last_hard_state (svcs s1 i) then f1\<lparr>new_last_hard_state := s_last_hard_state (svcs s1 i)\<rparr> else f1)"
  have ok1: "daemon_ok X s1" using s1(2) by (simp add: passes_def)
  have "passes X i s1 (upd_svc i (\<lambda>v. v\<lparr>s_last_hard_state := s_last_hard_state ?v\<rparr>) s1)"
    by (rule upd_svc_passes [OF ok1]) (simp_all add: svc_ties_def svc_view_def)
  then have p2: "passes X i s1 s2" using chk_core_passes [OF ok1 refl, of i] by (simp add: s2_def)
  then have ok2: "daemon_ok X s2" by (simp add: passes_def)
  have p3: "passes X i s2 (record_last_service_state_ended i s2)"
    unfolding record_last_service_state_ended_def
    by (rule upd_svc_passes [OF ok2]) (simp_all add: svc_ties_def svc_view_def)
  have m3: "svc_machine (svcs (record_last_service_state_ended i s2) i) = svc_machine (svcs s2 i)"
    by (simp add: record_last_service_state_ended_def svc_machine_def)
  have m2: "svc_machine (svcs s2 i) = (svc_machine (svcs s1 i))\<lparr>m_last_hard := s_last_hard_state ?v\<rparr>"
    by (simp add: s2_def svc_machine_def)
  let ?f = "if s_current_state (svcs s2 i) \<noteq> STATE_OK \<and> s_state_type (svcs s2 i) = SOFT_STATE then f2\<lparr>log_event := True\<rparr> else f2"
  have "service_change_type i f s = Some (?f, record_last_service_state_ended i s2)"
    using s1(1) by (simp add: service_change_type_def s2_def f2_def)
  moreover have "passes X i s (record_last_service_state_ended i s2)"
    using s1(2) p2 p3 passes_trans by blast
  moreover have "svc_machine (svcs (record_last_service_state_ended i s2) i) = (svc_machine ?v)\<lparr>
        m_type := if hard_state_change f then HARD_STATE else if state_change f then SOFT_STATE else s_state_type ?v,
        m_scheduled := s_should_be_scheduled ?v \<or> state_change f \<or> hard_state_change f\<rparr>"
    unfolding m3 m2 s1(5) by (simp add: svc_machine_def)
  moreover have "state_change ?f = state_change f" "hard_state_change ?f = hard_state_change f" "next_check_time ?f = next_check_time f"
    "new_last_hard_state ?f = (if hard_state_change f \<and> s_last_hard_state ?v \<noteq> s_current_state ?v then s_current_state ?v else new_last_hard_state f)"
    using t s1(4) lh by (auto simp: f2_def)
  ultimately show ?thesis by blast
qed

text \<open>The next check: when the service may be checked again, one stays pending.\<close>

definition will_reschedule :: "service \<Rightarrow> bool" where
  "will_reschedule v \<longleftrightarrow> s_checks_enabled v \<and> s_should_be_scheduled v
    \<and> \<not> (s_check_interval v = 0 \<and> (s_state_type v = HARD_STATE \<or> s_current_state v = STATE_OK))"

lemma dependency_not_none [simp]: "CHECK_OPTION_NONE \<noteq> CHECK_OPTION_DEPENDENCY_CHECK"
  by (simp add: CHECK_OPTION_NONE_def CHECK_OPTION_DEPENDENCY_CHECK_def)

lemma service_reschedule_step:
  assumes ok: "daemon_ok X s"
  shows "\<exists>s'. service_reschedule i t s = Some s' \<and> passes X i s s'
    \<and> (\<exists>b. svc_machine (svcs s' i) = (svc_machine (svcs s i))\<lparr>m_scheduled := b\<rparr>)
    \<and> (will_reschedule (svcs s i) \<longrightarrow> (\<exists>e. pending_event (Service_ref i) s' = Some e \<and> s_next_check (svcs s' i) = ev_run_time e))"
proof (cases "will_reschedule (svcs s i)")
  case False
  let ?s = "upd_svc i (\<lambda>v. v\<lparr>s_should_be_scheduled := False\<rparr>) s"
  have "passes X i s ?s" by (rule upd_svc_passes [OF ok]) (simp_all add: svc_ties_def svc_view_def)
  moreover have "svc_machine (svcs ?s i) = (svc_machine (svcs s i))\<lparr>m_scheduled := False\<rparr>"
    "svc_machine (svcs s i) = (svc_machine (svcs s i))\<lparr>m_scheduled := s_should_be_scheduled (svcs s i)\<rparr>" by (simp_all add: svc_machine_def)
  moreover have "service_reschedule i t s = Some ?s \<or> service_reschedule i t s = Some s"
    using False by (auto simp: service_reschedule_def Let_def will_reschedule_def)
  ultimately show ?thesis using chk_core_passes(1) [OF ok refl, of i] False by metis
next
  case True
  define pt where "pt = (if clock s > t then clock s else t)"
  define nv where "nv = get_next_valid_time (clib s) (clock s) pt (s_check_period (svcs s i))"
  define s1 where "s1 = (if nv > pt then (case next_rand s of (r, s') \<Rightarrow> upd_svc i (\<lambda>v. v\<lparr>s_next_check :=
       reschedule_within_timeperiod (clib s') r nv (s_check_period (svcs s i)) (service_check_window s' i)\<rparr>) s')
     else upd_svc i (\<lambda>v. v\<lparr>s_next_check := nv\<rparr>) s)"
  have upd: "daemon_ok X (upd_svc i (\<lambda>v. v\<lparr>s_next_check := n\<rparr>) u)" "chk_core (upd_svc i (\<lambda>v. v\<lparr>s_next_check := n\<rparr>) u) = chk_core u"
    if "daemon_ok X u" for n u
    using holds_upd_svc [where f = "\<lambda>v. v\<lparr>s_next_check := n\<rparr>" and i = i, OF that] by (simp_all add: svc_ties_def holds_def chk_frame chk_core_defs)
  have r: "daemon_ok X (snd (next_rand s))" "chk_core (snd (next_rand s)) = chk_core s"
    using holds_fields(6) [OF ok] by (simp_all add: next_rand_def holds_def chk_frame)
  have s1: "daemon_ok X s1" "chk_core s1 = chk_core s"
    using upd [OF ok] upd [OF r(1)] r(2) by (cases "next_rand s"; simp add: s1_def)+
  have run: "service_reschedule i t s = schedule_service_check i (s_next_check (svcs s1 i)) CHECK_OPTION_NONE s1"
    using True by (auto simp: service_reschedule_def Let_def will_reschedule_def s1_def pt_def nv_def)
  have en: "s_checks_enabled (svcs s1 i)"
    using True svc_viewD(4) [of "svcs s1 i" "svcs s i"] chk_core_passes(1) [OF s1, of i] by (simp add: passes_def will_reschedule_def)
  obtain s' e where s': "schedule_service_check i (s_next_check (svcs s1 i)) CHECK_OPTION_NONE s1 = Some s'"
      "scheduled X (Service_ref i) (s_next_check (svcs s1 i)) CHECK_OPTION_NONE s1 s' e" "s_next_check (svcs s' i) = ev_run_time e"
    using schedule_service_check_spec [OF daemon_okD(3) [OF s1(1)], of i CHECK_OPTION_NONE "s_next_check (svcs s1 i)"] en by auto
  with stays_schedule_service_check [OF s1(1), of i "s_next_check (svcs s1 i)" CHECK_OPTION_NONE]
  have "daemon_ok X s'" "chk_core s' = chk_core s" using s1(2) by auto
  from chk_core_passes [OF this, of i] have "passes X i s s'" "svc_machine (svcs s' i) = (svc_machine (svcs s i))\<lparr>m_scheduled := s_should_be_scheduled (svcs s i)\<rparr>"
    by (simp_all add: svc_machine_def)
  with run s' show ?thesis by (auto simp: scheduled_def)
qed

lemma service_notify_step:
  assumes ok: "daemon_ok X s"
  shows "\<exists>f' s'. service_notify i f s = Some (f', s') \<and> passes X i s s' \<and> svc_machine (svcs s' i) = svc_machine (svcs s i)
    \<and> turns f' = turns f \<and> pending_event d s' = pending_event d s \<and> s_next_check (svcs s' i) = s_next_check (svcs s i)"
proof -
  let ?f = "\<lambda>v. v\<lparr>s_last_problem_id := s_current_problem_id v, s_current_problem_id := 0\<rparr>"
  define s1 where "s1 = (if s_current_state (svcs s i) = STATE_OK \<and> state_change f then upd_svc i ?f s else s)"
  have "holds X s s1" using holds_upd_svc [where f = ?f and i = i, OF ok] stays_holds [OF stays_refl [OF ok]]
    by (simp add: s1_def svc_ties_def)
  moreover have "ctx s1 = ctx s" "svc_view (svcs s1 i) = svc_view (svcs s i)" by (simp_all add: s1_def ctx_def svc_view_def)
  ultimately have s1: "passes X i s s1" "pending_event d s1 = pending_event d s" "daemon_ok X s1"
    using holds_passes by (simp_all add: holds_def)
  have m1: "svc_machine (svcs s1 i) = svc_machine (svcs s i)" "s_next_check (svcs s1 i) = s_next_check (svcs s i)"
    by (simp_all add: s1_def svc_machine_def)
  let ?v = "svcs s1 i"
  define f1 where "f1 = (if s_current_state ?v \<noteq> STATE_OK \<and> s_state_type ?v = HARD_STATE \<and> s_is_volatile ?v
       then f\<lparr>send_notification := True, log_event := True, handle_event := True\<rparr> else f)"
  define ty where "ty = (if s_notified_on ?v \<noteq> 0 \<and> s_current_state ?v = STATE_OK \<and> s_state_type ?v = HARD_STATE then NOTIFICATION_RECOVERY else NOTIFICATION_NORMAL)"
  define f2 where "f2 = (if s_notified_on ?v \<noteq> 0 \<and> s_current_state ?v = STATE_OK \<and> s_state_type ?v = HARD_STATE then f1\<lparr>send_notification := True\<rparr> else f1)"
  have t: "turns f2 = turns f" by (simp add: f2_def f1_def turns_def)
  obtain r s2 where s2: "service_notification i ty NOTIFICATION_OPTION_NONE s1 = Some (r, s2)" "notif_core s2 = notif_core s1"
    using service_notification_total [OF daemon_okD(4) [OF s1(3)]] by blast
  note st = stays_notif [OF s1(3) s2(2)]
  have nxt: "s_next_check (svcs s2 i) = s_next_check ?v"
    using arg_cong [OF notif_coreD(17) [OF s2(2), of i], of s_next_check] by (simp add: svc_core_def)
  have pair: "(if s_notified_on ?v \<noteq> 0 \<and> s_current_state ?v = STATE_OK \<and> s_state_type ?v = HARD_STATE
      then (NOTIFICATION_RECOVERY, f1\<lparr>send_notification := True\<rparr>) else (NOTIFICATION_NORMAL, f1)) = (ty, f2)"
    by (simp add: ty_def f2_def)
  have run: "service_notify i f s = (if send_notification f2 then service_notification i ty NOTIFICATION_OPTION_NONE s1 \<bind>
      (\<lambda>(r, s). Some (if r = OK \<and> should_stalk_notifications (s_stalking_options (svcs s i)) then f2\<lparr>log_event := True\<rparr> else f2, s))
      else Some (f2, s1))"
    unfolding service_notify_def Let_def s1_def [symmetric] f1_def [symmetric] pair prod.case by (rule refl)
  show ?thesis
  proof (cases "send_notification f2")
    case True
    with run s2(1) t st s1 m1 nxt chk_core_passes [OF staysD(1,2) [OF st], of i] passes_trans [OF s1(1)] show ?thesis
      by (auto simp: stays_def turns_def)
  qed (use run t s1 m1 in auto)
qed

section \<open>The result of a service check\<close>

definition service_result_code :: "globals \<Rightarrow> check_result \<Rightarrow> c_int" where
  "service_result_code g cr =
    (if cr_check_type cr \<noteq> CHECK_TYPE_ACTIVE then cr_return_code cr
     else if cr_early_timeout cr then int (service_check_timeout_state g)
     else if \<not> cr_exited_ok cr \<or> cr_return_code cr < 0 \<or> cr_return_code cr > 3 then int STATE_CRITICAL
     else cr_return_code cr)"

text \<open>Updates that neither the invariant nor the views see.\<close>

definition idle_update :: "(service \<Rightarrow> service) \<Rightarrow> bool" where
  "idle_update g \<longleftrightarrow> (\<forall>v. svc_ties (g v) = svc_ties v \<and> svc_view (g v) = svc_view v \<and> svc_machine (g v) = svc_machine v)"

lemma get_service_check_return_code_step:
  "\<exists>g. get_service_check_return_code i cr s = (service_result_code (globs s) cr, upd_svc i g s) \<and> idle_update g"
proof -
  have id: "upd_svc i (\<lambda>v. v) s = s" by (simp add: upd_svc_def)
  let ?P = "\<lambda>t. \<exists>g. t = upd_svc i g s \<and> idle_update g"
  have P: "?P s" "\<And>t. ?P (set_service_output i t s)" "\<And>t. ?P (upd_svc i (\<lambda>v. v\<lparr>s_plugin_output := Some (t v)\<rparr>) s)"
  proof -
    show "?P s" using id by (intro exI [of _ "\<lambda>v. v"]) (simp add: idle_update_def)
    show "?P (set_service_output i t s)" for t unfolding set_service_output_def
      by (intro exI conjI, rule refl) (simp add: idle_update_def svc_ties_def svc_view_def svc_machine_def)
    show "?P (upd_svc i (\<lambda>v. v\<lparr>s_plugin_output := Some (t v)\<rparr>) s)" for t
      by (intro exI conjI, rule refl) (simp add: idle_update_def svc_ties_def svc_view_def svc_machine_def)
  qed
  have if_snd: "?P (snd (if b then x else y))" if "?P (snd x)" "?P (snd y)" for b and x y :: "c_int \<times> daemon"
    using that by simp
  have pair: "?P (snd (c, t))" if "?P t" for c :: c_int and t using that by simp
  have "?P (snd (get_service_check_return_code i cr s))"
    unfolding get_service_check_return_code_def Let_def by (intro if_snd pair P)
  moreover have "fst (get_service_check_return_code i cr s) = service_result_code (globs s) cr"
    by (simp add: get_service_check_return_code_def service_result_code_def Let_def)
  ultimately show ?thesis by (metis prod.collapse)
qed

lemma service_initial_step:
  assumes ok: "daemon_ok X s" and code: "a_state (service_result_code (globs s) cr)"
  shows "\<exists>old s'. service_initial_handling i cr (service_fresh_check i cr (initialize_last_service_state_change_times i h s)) = Some (old, s')
    \<and> daemon_ok X s' \<and> ctx s' = ctx s
    \<and> svc_view (svcs s' i) = (nat (service_result_code (globs s) cr), s_current_state (svcs s i), s_max_attempts (svcs s i),
        s_checks_enabled (svcs s i), s_check_interval (svcs s i), s_host (svcs s i))
    \<and> svc_machine (svcs s' i) = (svc_machine (svcs s i))\<lparr>m_scheduled := cr_reschedule_check cr\<rparr>"
proof -
  let ?s1 = "initialize_last_service_state_change_times i h s"
  have h1: "holds X s ?s1"
    by (rule holds_frame [OF ok]) (simp_all add: initialize_last_service_state_change_times_def Let_def dt_keeps_def svc_ties_def host_ties_def)
  have c1: "ctx ?s1 = ctx s" "svc_view (svcs ?s1 i) = svc_view (svcs s i)" "svc_machine (svcs ?s1 i) = svc_machine (svcs s i)"
    by (auto simp: initialize_last_service_state_change_times_def Let_def ctx_def svc_view_def svc_machine_def)
  let ?s2 = "service_fresh_check i cr ?s1"
  have "svc_machine (svcs ?s2 i) = svc_machine (svcs ?s1 i)" "passes X i ?s1 ?s2"
    using upd_svc_passes [OF holdsD(1) [OF h1], of "\<lambda>v. v\<lparr>s_is_being_freshened := False\<rparr>" i]
      chk_core_passes [OF holdsD(1) [OF h1] refl, of i]
    by (simp_all add: service_fresh_check_def svc_ties_def svc_view_def svc_machine_def)
  then have s2: "daemon_ok X ?s2" "ctx ?s2 = ctx s" "svc_view (svcs ?s2 i) = svc_view (svcs s i)" "svc_machine (svcs ?s2 i) = svc_machine (svcs s i)"
    using c1 by (simp_all add: passes_def)
  obtain t where t: "t = ?s2" by blast
  note s2 = s2 [folded t]
  obtain short long perf where out: "parsed_output cr ''(No output returned from plugin)'' = (short, long, perf)" by (metis prod_cases3)
  let ?f = "\<lambda>v. v\<lparr>s_plugin_output := short, s_long_plugin_output := long, s_perf_data := perf,
           s_latency := cr_latency cr, s_execution_time := calculate_check_result_execution_time cr,
           s_last_check := fst (cr_start_time cr), s_should_be_scheduled := cr_reschedule_check cr,
           s_last_state := s_current_state v\<rparr>"
  let ?s3 = "upd_svc i ?f t"
  have h3: "daemon_ok X ?s3" using holds_upd_svc [where f = ?f and i = i, OF s2(1)] by (simp add: holds_def svc_ties_def)
  from get_service_check_return_code_step [of i cr ?s3] obtain g where
    g: "get_service_check_return_code i cr ?s3 = (service_result_code (globs ?s3) cr, upd_svc i g ?s3)" "idle_update g" by blast
  have same: "globs ?s3 = globs s" using ctxD(1) [OF s2(2)] by simp
  let ?s4 = "upd_svc i g ?s3"
  have h4: "daemon_ok X ?s4"
    using holds_upd_svc [where f = g and i = i, OF h3] g(2) by (simp add: holds_def idle_update_def)
  let ?s5 = "upd_svc i (\<lambda>v. v\<lparr>s_current_state := nat (service_result_code (globs s) cr)\<rparr>) ?s4"
  have h5: "daemon_ok X ?s5"
    using holds_upd_svc [where f = "\<lambda>v. v\<lparr>s_current_state := nat (service_result_code (globs s) cr)\<rparr>" and i = i, OF h4]
    by (simp add: holds_def svc_ties_def)
  have "service_initial_handling i cr t = Some (s_plugin_output (svcs t i), ?s5)"
    unfolding service_initial_handling_def Let_def out prod.case g(1) same using code by simp
  moreover have "ctx ?s5 = ctx s" using s2(2) by (simp add: ctx_def)
  moreover have "svc_view (svcs ?s5 i) = (nat (service_result_code (globs s) cr), s_current_state (svcs s i), s_max_attempts (svcs s i),
        s_checks_enabled (svcs s i), s_check_interval (svcs s i), s_host (svcs s i))"
  proof -
    have "svc_view (g (?f (svcs t i))) = svc_view (?f (svcs t i))" using g(2) by (simp add: idle_update_def)
    then show ?thesis using s2(3) by (simp add: svc_view_def)
  qed
  moreover have "svc_machine (svcs ?s5 i) = (svc_machine (svcs s i))\<lparr>m_scheduled := cr_reschedule_check cr\<rparr>"
  proof -
    have "svc_machine (g (?f (svcs t i))) = svc_machine (?f (svcs t i))" using g(2) by (simp add: idle_update_def)
    then show ?thesis using s2(4) by (simp add: svc_machine_def)
  qed
  ultimately show ?thesis using h5 unfolding t by blast
qed

section \<open>The machine of soft and hard states\<close>

text \<open>The state of a service as its results make it.  Whether the host was down at the last result counts only
  for a service with a problem.\<close>

record soft_hard =
  sh_state :: nat
  sh_type :: nat
  sh_attempt :: int
  sh_last_hard :: nat
  sh_host_problem :: bool

definition soft_hard_of :: "service \<Rightarrow> soft_hard" where
  "soft_hard_of v = \<lparr>sh_state = s_current_state v, sh_type = s_state_type v, sh_attempt = s_current_attempt v,
     sh_last_hard = s_last_hard_state v, sh_host_problem = (s_current_state v \<noteq> STATE_OK \<and> s_host_problem_at_last_check v)\<rparr>"

definition consistent :: "int \<Rightarrow> soft_hard \<Rightarrow> bool" where
  "consistent max_attempts m \<longleftrightarrow> 1 \<le> sh_attempt m \<and> sh_attempt m \<le> max_attempts
    \<and> (sh_type m = HARD_STATE \<and> sh_last_hard m = sh_state m
       \<or> sh_type m = SOFT_STATE \<and> sh_state m \<noteq> STATE_OK \<and> sh_attempt m < max_attempts)"

text \<open>The next state: a good result makes everything good.  A problem is hard at once when the host is down,
  and otherwise soft until it has been seen \<open>max_attempts\<close> times; when the host was down before, the count starts
  again.  A hard problem stays hard, unless another state comes before the attempts are used up.\<close>

definition next_state :: "bool \<Rightarrow> int \<Rightarrow> nat \<Rightarrow> soft_hard \<Rightarrow> soft_hard" where
  "next_state host_up max_attempts st m =
    (let problem = (st \<noteq> STATE_OK \<and> \<not> host_up);
         hard = (\<lambda>n. \<lparr>sh_state = st, sh_type = HARD_STATE, sh_attempt = n, sh_last_hard = st, sh_host_problem = problem\<rparr>);
         soft = (\<lambda>n. \<lparr>sh_state = st, sh_type = SOFT_STATE, sh_attempt = n, sh_last_hard = sh_last_hard m, sh_host_problem = problem\<rparr>);
         count = (\<lambda>n. if n < max_attempts then soft n else hard n) in
     if st = STATE_OK then hard 1
     else if \<not> host_up \<and> st \<noteq> sh_last_hard m then hard (if sh_state m = STATE_OK then 1 else max_attempts)
     else if sh_state m = STATE_OK then count 1
     else if sh_type m = SOFT_STATE then count ((if host_up \<and> sh_host_problem m then 1 else sh_attempt m) + 1)
     else if st = sh_state m then hard (sh_attempt m)
     else count (sh_attempt m))"

text \<open>What the handler computes from its flags.\<close>

definition attempt_after :: "int \<Rightarrow> nat \<Rightarrow> nat \<Rightarrow> nat \<Rightarrow> bool \<Rightarrow> int \<Rightarrow> int" where
  "attempt_after max_attempts st old type changed attempt =
    (if type = SOFT_STATE then
       (if old \<noteq> STATE_OK \<and> attempt < max_attempts then attempt + 1
        else if changed \<and> st \<noteq> STATE_OK then 1
        else if attempt < max_attempts then attempt + 1 else attempt)
     else attempt)"

definition outcome :: "bool \<Rightarrow> int \<Rightarrow> nat \<Rightarrow> nat \<Rightarrow> machine \<Rightarrow> nat \<times> int \<times> nat \<times> bool \<times> bool \<times> bool" where
  "outcome host_up max_attempts st old m =
    (let lh = m_last_hard m; down = (\<not> host_up \<and> lh \<noteq> st); n1 = (if down then st else lh);
         type1 = (if down then HARD_STATE else m_type m); attempt1 = (if down then max_attempts else m_attempt m);
         (type2, attempt2, changed2, hard2) =
           (if old = STATE_OK then
              (if st = STATE_OK then HARD_STATE else if \<not> m_host_problem m \<and> \<not> down then SOFT_STATE else type1, 1, False, down)
            else if st = STATE_OK then (type1, if type1 = HARD_STATE then 1 else attempt1, True, down \<or> type1 = HARD_STATE)
            else (type1, attempt1, False, down));
         changed3 = (changed2 \<or> st \<noteq> old \<or> st = STATE_OK \<and> type2 = SOFT_STATE);
         attempt3 = attempt_after max_attempts st old type2 changed3 attempt2;
         hard3 = (hard2 \<or> attempt3 \<ge> max_attempts \<and> (st \<noteq> n1 \<or> type2 = SOFT_STATE \<and> st \<noteq> STATE_OK));
         type4 = (if hard3 then HARD_STATE else if changed3 then SOFT_STATE else type2);
         n4 = (if hard3 \<and> lh \<noteq> st then st else n1);
         recovered = (st = STATE_OK \<and> changed3)
     in (if recovered then HARD_STATE else type4, if recovered then 1 else attempt3, if recovered then st else n4,
         if recovered \<and> hard3 then False else m_host_problem m, changed3, hard3))"

lemma outcome_next_state:
  assumes "consistent max_attempts m" "a = (if st \<noteq> STATE_OK \<and> up \<and> sh_host_problem m \<and> sh_type m = SOFT_STATE then 1 else sh_attempt m)"
    "st \<noteq> STATE_OK \<Longrightarrow> hp = (\<not> up)"
  shows "outcome up max_attempts st (sh_state m) \<lparr>m_type = sh_type m, m_attempt = a, m_last_hard = sh_last_hard m, m_host_problem = hp, m_scheduled = b\<rparr>
    = (t', a', l', h', sc, hc) \<Longrightarrow> sh_type (next_state up max_attempts st m) = t' \<and> sh_attempt (next_state up max_attempts st m) = a'
      \<and> sh_last_hard (next_state up max_attempts st m) = l' \<and> sh_state (next_state up max_attempts st m) = st
      \<and> sh_host_problem (next_state up max_attempts st m) = (st \<noteq> STATE_OK \<and> h') \<and> consistent max_attempts (next_state up max_attempts st m)"
proof -
  let ?m = "\<lparr>m_type = sh_type m, m_attempt = a, m_last_hard = sh_last_hard m, m_host_problem = hp, m_scheduled = b\<rparr>"
  assume run: "outcome up max_attempts st (sh_state m) ?m = (t', a', l', h', sc, hc)"
  note c = assms(1) [unfolded consistent_def]
  consider (ok_ok) "st = STATE_OK" "sh_state m = STATE_OK" | (recovery) "st = STATE_OK" "sh_state m \<noteq> STATE_OK"
    | (down) "st \<noteq> STATE_OK" "\<not> up" "st \<noteq> sh_last_hard m"
    | (fresh) "st \<noteq> STATE_OK" "up \<or> st = sh_last_hard m" "sh_state m = STATE_OK"
    | (soft) "st \<noteq> STATE_OK" "up \<or> st = sh_last_hard m" "sh_state m \<noteq> STATE_OK" "sh_type m = SOFT_STATE"
    | (hard) "st \<noteq> STATE_OK" "up \<or> st = sh_last_hard m" "sh_state m \<noteq> STATE_OK" "sh_type m \<noteq> SOFT_STATE" by blast
  then show ?thesis
  proof cases
    case ok_ok
    with run c assms(2) show ?thesis by (auto simp: outcome_def next_state_def consistent_def attempt_after_def Let_def)
  next
    case recovery
    with run c assms(2) show ?thesis by (auto simp: outcome_def next_state_def consistent_def Let_def)
  next
    case down
    with run c assms(2,3) show ?thesis
      by (cases "sh_state m = STATE_OK") (auto simp: outcome_def next_state_def consistent_def attempt_after_def Let_def)
  next
    case fresh
    with c have "sh_last_hard m = STATE_OK" "sh_type m = HARD_STATE" "up" by auto
    with fresh run c assms(2,3) show ?thesis
      by (auto simp: outcome_def next_state_def consistent_def attempt_after_def Let_def)
  next
    case soft
    with run c assms(2,3) show ?thesis
      by (cases up) (auto simp: outcome_def next_state_def consistent_def attempt_after_def Let_def split: if_splits)
  next
    case hard
    with c have "sh_last_hard m = sh_state m" "sh_type m = HARD_STATE" by auto
    with hard run c assms(2,3) show ?thesis
      by (cases "st = sh_state m") (auto simp: outcome_def next_state_def consistent_def attempt_after_def Let_def split: if_splits)
  qed
qed

text \<open>The handler, step by step.\<close>

lemma service_host_down_step:
  assumes ok: "daemon_ok X s"
  shows "\<exists>f' s'. service_host_down i h f s = (f', s') \<and> passes X i s s' \<and> state_change f' = state_change f
    \<and> (let down = h_current_state (hosts s h) \<noteq> HOST_UP \<and> new_last_hard_state f \<noteq> s_current_state (svcs s i) in
        hard_state_change f' = (hard_state_change f \<or> down)
        \<and> new_last_hard_state f' = (if down then s_current_state (svcs s i) else new_last_hard_state f)
        \<and> svc_machine (svcs s' i) = (svc_machine (svcs s i))\<lparr>m_type := if down then HARD_STATE else s_state_type (svcs s i),
            m_attempt := if down then s_max_attempts (svcs s i) else s_current_attempt (svcs s i)\<rparr>)"
proof -
  have "passes X i s (upd_svc i (\<lambda>v. v\<lparr>s_state_type := HARD_STATE, s_current_attempt := s_max_attempts v\<rparr>) s)"
    by (rule upd_svc_passes [OF ok]) (simp_all add: svc_ties_def svc_view_def)
  with chk_core_passes(1) [OF ok refl, of i] show ?thesis
    by (simp add: service_host_down_def Let_def svc_machine_def)
qed

lemma service_was_problem_step:
  assumes ok: "daemon_ok X s"
  shows "\<exists>f' s'. service_was_problem i f s = (f', s') \<and> passes X i s s' \<and> new_last_hard_state f' = new_last_hard_state f
    \<and> (let recovers = s_current_state (svcs s i) = STATE_OK; hard = s_state_type (svcs s i) = HARD_STATE in
        state_change f' = (state_change f \<or> recovers) \<and> hard_state_change f' = (hard_state_change f \<or> recovers \<and> hard)
        \<and> svc_machine (svcs s' i) = (svc_machine (svcs s i))\<lparr>m_attempt := if recovers \<and> hard then 1 else s_current_attempt (svcs s i)\<rparr>)"
proof -
  have "passes X i s (upd_svc i (\<lambda>v. v\<lparr>s_current_attempt := 1\<rparr>) s)"
    by (rule upd_svc_passes [OF ok]) (simp_all add: svc_ties_def svc_view_def)
  with chk_core_passes(1) [OF ok refl, of i] show ?thesis
    by (simp add: service_was_problem_def Let_def svc_machine_def)
qed

lemma service_adjust_attempt_step:
  assumes ok: "daemon_ok X s"
  shows "\<exists>f' s'. service_adjust_attempt i f s = (f', s') \<and> passes X i s s' \<and> new_last_hard_state f' = new_last_hard_state f
    \<and> (let v = svcs s i; changed = state_change f \<or> s_current_state v \<noteq> s_last_state v \<or> s_current_state v = STATE_OK \<and> s_state_type v = SOFT_STATE;
           attempt = attempt_after (s_max_attempts v) (s_current_state v) (s_last_state v) (s_state_type v) changed (s_current_attempt v) in
        state_change f' = changed
        \<and> hard_state_change f' = (hard_state_change f \<or> attempt \<ge> s_max_attempts v \<and> (s_current_state v \<noteq> new_last_hard_state f
            \<or> s_state_type v = SOFT_STATE \<and> s_current_state v \<noteq> STATE_OK))
        \<and> svc_machine (svcs s' i) = (svc_machine v)\<lparr>m_attempt := attempt\<rparr>)"
proof -
  have p: "passes X i s (upd_svc i (\<lambda>v. v\<lparr>s_current_attempt := n\<rparr>) s)" for n
    by (rule upd_svc_passes [OF ok]) (simp_all add: svc_ties_def svc_view_def)
  define changed where "changed = (state_change f \<or> s_current_state (svcs s i) \<noteq> s_last_state (svcs s i)
    \<or> s_current_state (svcs s i) = STATE_OK \<and> s_state_type (svcs s i) = SOFT_STATE)"
  define g where "g = (if s_current_state (svcs s i) \<noteq> s_last_state (svcs s i) \<or> s_current_state (svcs s i) = STATE_OK \<and> s_state_type (svcs s i) = SOFT_STATE
      then (if s_state_type (svcs s i) = SOFT_STATE then f\<lparr>next_check_time := time_plus s (clock s) (s_retry_interval (svcs s i))\<rparr> else f)\<lparr>state_change := True\<rparr>
      else (if s_state_type (svcs s i) = SOFT_STATE then f\<lparr>next_check_time := time_plus s (clock s) (s_retry_interval (svcs s i))\<rparr> else f))"
  have g: "state_change g = changed" "hard_state_change g = hard_state_change f" "new_last_hard_state g = new_last_hard_state f"
    by (auto simp: g_def changed_def)
  define att where "att = attempt_after (s_max_attempts (svcs s i)) (s_current_state (svcs s i)) (s_last_state (svcs s i))
    (s_state_type (svcs s i)) changed (s_current_attempt (svcs s i))"
  have eq: "service_adjust_attempt i f s = ((if att \<ge> s_max_attempts (svcs s i) \<and> (s_current_state (svcs s i) \<noteq> new_last_hard_state g
               \<or> s_state_type (svcs s i) = SOFT_STATE \<and> s_current_state (svcs s i) \<noteq> STATE_OK)
           then g\<lparr>next_check_time := time_plus s (clock s) (s_check_interval (svcs s i)), hard_state_change := True, send_notification := True\<rparr>
           else g), upd_svc i (\<lambda>v. v\<lparr>s_current_attempt := att\<rparr>) s)"
    unfolding service_adjust_attempt_def Let_def g_def [symmetric] g att_def attempt_after_def by (rule refl)
  show ?thesis
    unfolding eq Let_def changed_def [symmetric] att_def [symmetric] using p g by (simp add: svc_machine_def) auto
qed

lemma service_finish_step:
  assumes ok: "daemon_ok X s"
  shows "passes X i s (service_finish i f (service_report i old f' s))"
    "pending_event d (service_finish i f (service_report i old f' s)) = pending_event d s"
    "s_next_check (svcs (service_finish i f (service_report i old f' s)) i) = s_next_check (svcs s i)"
    "svc_machine (svcs (service_finish i f (service_report i old f' s)) i) = (let v = svcs s i; recovered = s_current_state v = STATE_OK \<and> state_change f in
      (svc_machine v)\<lparr>m_type := if recovered then HARD_STATE else s_state_type v, m_attempt := if recovered then 1 else s_current_attempt v,
        m_last_hard := if recovered then s_current_state v else new_last_hard_state f,
        m_host_problem := if recovered \<and> hard_state_change f then False else s_host_problem_at_last_check v\<rparr>)"
proof -
  have "holds X s (service_finish i f (service_report i old f' s))"
    by (rule holds_frame [OF ok]) (simp_all add: service_finish_def service_report_def Let_def dt_keeps_def svc_ties_def)
  then show "passes X i s (service_finish i f (service_report i old f' s))"
    "pending_event d (service_finish i f (service_report i old f' s)) = pending_event d s"
    by (auto simp: holds_def passes_def service_finish_def service_report_def Let_def ctx_def svc_view_def)
  show "s_next_check (svcs (service_finish i f (service_report i old f' s)) i) = s_next_check (svcs s i)"
    by (simp add: service_finish_def service_report_def Let_def)
  show "svc_machine (svcs (service_finish i f (service_report i old f' s)) i) = (let v = svcs s i; recovered = s_current_state v = STATE_OK \<and> state_change f in
      (svc_machine v)\<lparr>m_type := if recovered then HARD_STATE else s_state_type v, m_attempt := if recovered then 1 else s_current_attempt v,
        m_last_hard := if recovered then s_current_state v else new_last_hard_state f,
        m_host_problem := if recovered \<and> hard_state_change f then False else s_host_problem_at_last_check v\<rparr>)"
    by (simp add: service_finish_def service_report_def Let_def svc_machine_def)
qed

lemma passesD:
  assumes "passes X i s s'"
  shows "daemon_ok X s'" "ctx s' = ctx s" "svc_view (svcs s' i) = svc_view (svcs s i)"
  using assms by (simp_all add: passes_def)

lemma svc_machineD:
  assumes "svc_machine v = \<lparr>m_type = ty, m_attempt = a, m_last_hard = lh, m_host_problem = hp, m_scheduled = b\<rparr>"
  shows "s_state_type v = ty" "s_current_attempt v = a" "s_last_hard_state v = lh" "s_host_problem_at_last_check v = hp" "s_should_be_scheduled v = b"
  using assms by (simp_all add: svc_machine_def)

lemma process_service_result_step:
  fixes s h i
  defines "st \<equiv> \<lambda>cr. nat (service_result_code (globs s) cr)" and "up \<equiv> h_current_state (hosts s h) = HOST_UP" and "v \<equiv> svcs s i"
  assumes ok: "daemon_ok X s" and code: "a_state (service_result_code (globs s) cr)"
  shows "\<exists>s' hp b sc hc. process_service_result i h cr (s_last_hard_state v) s = Some s' \<and> daemon_ok X s' \<and> ctx s' = ctx s
    \<and> svc_view (svcs s' i) = (st cr, s_current_state v, s_max_attempts v, s_checks_enabled v, s_check_interval v, s_host v)
    \<and> (st cr \<noteq> STATE_OK \<longrightarrow> hp = (\<not> up))
    \<and> outcome up (s_max_attempts v) (st cr) (s_current_state v)
        \<lparr>m_type = s_state_type v, m_attempt = if st cr \<noteq> STATE_OK \<and> up \<and> s_host_problem_at_last_check v \<and> s_state_type v = SOFT_STATE then 1
           else s_current_attempt v, m_last_hard = s_last_hard_state v, m_host_problem = hp, m_scheduled = b\<rparr>
      = (s_state_type (svcs s' i), s_current_attempt (svcs s' i), s_last_hard_state (svcs s' i), s_host_problem_at_last_check (svcs s' i), sc, hc)
    \<and> (s_checks_enabled v \<and> (cr_reschedule_check cr \<or> sc) \<and> s_check_interval v \<noteq> 0 \<longrightarrow>
        (\<exists>e. pending_event (Service_ref i) s' = Some e \<and> s_next_check (svcs s' i) = ev_run_time e))"
proof -
  let ?c = "st cr" and ?old = "s_current_state v" and ?max = "s_max_attempts v" and ?lh = "s_last_hard_state v"
  let ?a = "if ?c \<noteq> STATE_OK \<and> up \<and> s_host_problem_at_last_check v \<and> s_state_type v = SOFT_STATE then 1 else s_current_attempt v"
  from service_initial_step [OF ok code, of i h] obtain old s1 where
    s1: "service_initial_handling i cr (service_fresh_check i cr (initialize_last_service_state_change_times i h s)) = Some (old, s1)"
      "daemon_ok X s1" "ctx s1 = ctx s" "svc_view (svcs s1 i) = (?c, ?old, ?max, s_checks_enabled v, s_check_interval v, s_host v)"
      "svc_machine (svcs s1 i) = (svc_machine v)\<lparr>m_scheduled := cr_reschedule_check cr\<rparr>" unfolding st_def v_def by blast
  define f0 where "f0 = \<lparr>next_check_time = time_plus s1 (s_last_check (svcs s1 i)) (s_check_interval (svcs s1 i)), state_change = False,
       hard_state_change = False, send_notification = False, handle_event = False, log_event = False, new_last_hard_state = ?lh\<rparr>"
  have view: "s_current_state (svcs t i) = ?c" "s_last_state (svcs t i) = ?old" "s_max_attempts (svcs t i) = ?max"
    "s_checks_enabled (svcs t i) = s_checks_enabled v" "s_check_interval (svcs t i) = s_check_interval v"
    if "svc_view (svcs t i) = svc_view (svcs s1 i)" for t
    using that s1(4) by (simp_all add: svc_view_def)
  have host: "(h_current_state (hosts t h) = HOST_UP) = up" if "ctx t = ctx s" for t
    using ctxD(4) [OF that] by (simp add: up_def)
  have m1: "s_state_type (svcs s1 i) = s_state_type v" "s_current_attempt (svcs s1 i) = s_current_attempt v" "s_last_hard_state (svcs s1 i) = ?lh"
    "s_host_problem_at_last_check (svcs s1 i) = s_host_problem_at_last_check v" "s_should_be_scheduled (svcs s1 i) = cr_reschedule_check cr"
    using s1(5) by (simp_all add: svc_machine_def)
  from service_check_host_step [OF s1(2), of i h] obtain b s2 where
    s2: "service_check_host i h s1 = Some (b, s2)" "passes X i s1 s2"
      "svc_machine (svcs s2 i) = (svc_machine (svcs s1 i))\<lparr>m_attempt := ?a, m_host_problem := s_host_problem_at_last_check (svcs s2 i)\<rparr>"
      "?c \<noteq> STATE_OK \<longrightarrow> s_host_problem_at_last_check (svcs s2 i) = (\<not> up)"
    unfolding view [OF refl] m1 host [OF s1(3)] by blast
  define hp where "hp = s_host_problem_at_last_check (svcs s2 i)"
  have m2: "svc_machine (svcs s2 i) = \<lparr>m_type = s_state_type v, m_attempt = ?a, m_last_hard = ?lh, m_host_problem = hp, m_scheduled = cr_reschedule_check cr\<rparr>"
    using s2(3) s1(5) by (simp add: svc_machine_def hp_def)
  define down where "down = (\<not> up \<and> ?lh \<noteq> ?c)"
  note p2 = passesD [OF s2(2)]
  from service_host_down_step [OF p2(1), of i h f0] obtain f3 s3 where
    s3: "service_host_down i h f0 s2 = (f3, s3)" "passes X i s2 s3" "\<not> state_change f3" "hard_state_change f3 = down"
      "new_last_hard_state f3 = (if down then ?c else ?lh)"
      "svc_machine (svcs s3 i) = (svc_machine (svcs s2 i))\<lparr>m_type := if down then HARD_STATE else s_state_type v, m_attempt := if down then ?max else ?a\<rparr>"
    using svc_machineD [OF m2] host [of s2] p2(2) s1(3) view [OF p2(3)]
    unfolding Let_def down_def f0_def by (auto simp: svc_machine_def)
  note p3 = passesD [OF s3(2)]
  from stays_schedule_host_check [OF p3(1), of h "clock s3" CHECK_OPTION_DEPENDENCY_CHECK] p3(1) obtain s4 where
    s4: "(if b then schedule_host_check h (clock s3) CHECK_OPTION_DEPENDENCY_CHECK s3 else Some s3) = Some s4" "daemon_ok X s4" "chk_core s4 = chk_core s3"
    by (cases b) auto
  note c4 = chk_core_passes [OF s4(2,3), of i]
  define ty where "ty = (if down then HARD_STATE else s_state_type v)"
  define att where "att = (if down then ?max else ?a)"
  have m4: "svc_machine (svcs s4 i) = \<lparr>m_type = ty, m_attempt = att, m_last_hard = ?lh, m_host_problem = hp, m_scheduled = cr_reschedule_check cr\<rparr>"
    using c4(2) s3(6) m2 by (simp add: ty_def att_def)
  have p24: "passes X i s1 s4" using s2(2) s3(2) c4(1) passes_trans by blast
  note p4 = passesD [OF p24] and v4 = view [OF passesD(3) [OF p24]] and n4 = svc_machineD [OF m4]
  define ty5 at5 sc5 hc5 where "ty5 = (if ?old = STATE_OK then if ?c = STATE_OK then HARD_STATE else if \<not> hp \<and> \<not> down then SOFT_STATE else ty else ty)"
    and "at5 = (if ?old = STATE_OK then 1 else if ?c = STATE_OK \<and> ty = HARD_STATE then 1 else att)"
    and "sc5 = (?old \<noteq> STATE_OK \<and> ?c = STATE_OK)" and "hc5 = (down \<or> ?old \<noteq> STATE_OK \<and> ?c = STATE_OK \<and> ty = HARD_STATE)"
  obtain f5 s5 where s5: "(if s_last_state (svcs s4 i) = STATE_OK then service_was_ok i f3 s4 else Some (service_was_problem i f3 s4)) = Some (f5, s5)"
      "passes X i s4 s5" "state_change f5 = sc5" "hard_state_change f5 = hc5" "new_last_hard_state f5 = (if down then ?c else ?lh)"
      "svc_machine (svcs s5 i) = \<lparr>m_type = ty5, m_attempt = at5, m_last_hard = ?lh, m_host_problem = hp, m_scheduled = cr_reschedule_check cr\<rparr>"
  proof (cases "?old = STATE_OK")
    case True
    with service_was_ok_step [OF p4(1), of i f3] that show ?thesis
      unfolding v4 n4 m4 s3 by (auto simp: turns_def s3 ty5_def at5_def sc5_def hc5_def)
  next
    case False
    with service_was_problem_step [OF p4(1), of i f3] that show ?thesis
      unfolding v4 n4 m4 s3 Let_def by (auto simp: s3 ty5_def at5_def sc5_def hc5_def)
  qed
  have p15: "passes X i s1 s5" using p24 s5(2) passes_trans by blast
  note p5 = passesD [OF p15] and v5 = view [OF passesD(3) [OF p15]] and n5 = svc_machineD [OF s5(6)]
  define sc where "sc = (sc5 \<or> ?c \<noteq> ?old \<or> ?c = STATE_OK \<and> ty5 = SOFT_STATE)"
  define at6 where "at6 = attempt_after ?max ?c ?old ty5 sc at5"
  define hc where "hc = (hc5 \<or> at6 \<ge> ?max \<and> (?c \<noteq> (if down then ?c else ?lh) \<or> ty5 = SOFT_STATE \<and> ?c \<noteq> STATE_OK))"
  from service_adjust_attempt_step [OF p5(1), of i f5] obtain f6 s6 where
    s6: "service_adjust_attempt i f5 s5 = (f6, s6)" "passes X i s5 s6" "new_last_hard_state f6 = (if down then ?c else ?lh)"
      "state_change f6 = sc" "hard_state_change f6 = hc"
      "svc_machine (svcs s6 i) = \<lparr>m_type = ty5, m_attempt = at6, m_last_hard = ?lh, m_host_problem = hp, m_scheduled = cr_reschedule_check cr\<rparr>"
    unfolding v5 n5 s5 Let_def sc_def [symmetric] at6_def [symmetric] hc_def [symmetric] by auto
  have p16: "passes X i s1 s6" using p15 s6(2) passes_trans by blast
  note p6 = passesD [OF p16] and v6 = view [OF passesD(3) [OF p16]] and n6 = svc_machineD [OF s6(6)]
  define ty7 where "ty7 = (if hc then HARD_STATE else if sc then SOFT_STATE else ty5)"
  define lh7 where "lh7 = (if hc \<and> ?lh \<noteq> ?c then ?c else if down then ?c else ?lh)"
  from service_change_type_step [OF p6(1), of i f6] obtain f7 s7 where
    s7: "service_change_type i f6 s6 = Some (f7, s7)" "passes X i s6 s7" "state_change f7 = sc" "hard_state_change f7 = hc"
      "new_last_hard_state f7 = lh7"
      "svc_machine (svcs s7 i) = \<lparr>m_type = ty7, m_attempt = at6, m_last_hard = ?lh, m_host_problem = hp, m_scheduled = cr_reschedule_check cr \<or> sc \<or> hc\<rparr>"
    unfolding v6 n6 s6 ty7_def lh7_def by auto
  from stays_service_flapping [OF passesD(1) [OF s7(2)], of i True True] obtain s8 where
    s8: "check_for_service_flapping i True True s7 = Some s8" "stays X s7 s8" by blast
  from stays_host_flapping [OF staysD(1) [OF s8(2)], of h True False True] obtain s9 where
    s9: "check_for_host_flapping h True False True s8 = Some s9" "stays X s8 s9" by blast
  have st9: "stays X s7 s9" using s8(2) s9(2) stays_trans by blast
  note c9 = chk_core_passes [OF staysD(1,2) [OF st9], of i]
  have p19: "passes X i s1 s9" using p16 s7(2) c9(1) passes_trans by blast
  note v9 = view [OF passesD(3) [OF p19]] and n9 = svc_machineD [OF trans [OF c9(2) s7(6)]]
  from service_reschedule_step [OF staysD(1) [OF st9], of i "next_check_time f7"] obtain s10 b10 where
    s10: "service_reschedule i (next_check_time f7) s9 = Some s10" "passes X i s9 s10"
      "svc_machine (svcs s10 i) = (svc_machine (svcs s9 i))\<lparr>m_scheduled := b10\<rparr>"
      "will_reschedule (svcs s9 i) \<longrightarrow> (\<exists>e. pending_event (Service_ref i) s10 = Some e \<and> s_next_check (svcs s10 i) = ev_run_time e)" by blast
  from service_notify_step [OF passesD(1) [OF s10(2)], of i f7 "Service_ref i"] obtain f11 s11 where
    s11: "service_notify i f7 s10 = Some (f11, s11)" "passes X i s10 s11" "svc_machine (svcs s11 i) = svc_machine (svcs s10 i)"
      "turns f11 = turns f7" "pending_event (Service_ref i) s11 = pending_event (Service_ref i) s10" "s_next_check (svcs s11 i) = s_next_check (svcs s10 i)" by blast
  let ?s = "service_finish i f11 (service_report i old f11 s11)"
  note fin = service_finish_step [OF passesD(1) [OF s11(2)], where i = i and f = f11 and old = old and f' = f11]
  have p11: "passes X i s1 s11" using p19 s10(2) s11(2) passes_trans by blast
  note v11 = view [OF passesD(3) [OF p11]]
  have m11: "svc_machine (svcs s11 i) = \<lparr>m_type = ty7, m_attempt = at6, m_last_hard = ?lh, m_host_problem = hp, m_scheduled = b10\<rparr>"
    using s11(3) s10(3) c9(2) s7(6) by simp
  have t11: "state_change f11 = sc" "hard_state_change f11 = hc" "new_last_hard_state f11 = lh7" using turnsD [OF s11(4)] s7(3-5) by simp_all
  have run: "process_service_result i h cr ?lh s = Some ?s"
    unfolding process_service_result_def s1(1) Let_def Option.bind.bind_lunit prod.case f0_def [symmetric] s2(1) s3(1) s4(1) s5(1) s6(1) s7(1) s8(1) s9(1) s10(1) s11(1)
    by simp
  let ?rec = "?c = STATE_OK \<and> sc"
  have m: "svc_machine (svcs ?s i) = \<lparr>m_type = if ?rec then HARD_STATE else ty7, m_attempt = if ?rec then 1 else at6,
      m_last_hard = if ?rec then ?c else lh7, m_host_problem = if ?rec \<and> hc then False else hp, m_scheduled = b10\<rparr>"
    unfolding fin(4) Let_def v11 t11 svc_machineD [OF m11] unfolding m11 by simp
  have out: "outcome up ?max ?c ?old \<lparr>m_type = s_state_type v, m_attempt = ?a, m_last_hard = ?lh, m_host_problem = hp, m_scheduled = b10\<rparr>
      = (if ?rec then HARD_STATE else ty7, if ?rec then 1 else at6, if ?rec then ?c else lh7, if ?rec \<and> hc then False else hp, sc, hc)"
  proof -
    have mid: "(if ?old = STATE_OK then (if ?c = STATE_OK then HARD_STATE else if \<not> hp \<and> \<not> down then SOFT_STATE else ty, 1, False, down)
        else if ?c = STATE_OK then (ty, if ty = HARD_STATE then 1 else att, True, down \<or> ty = HARD_STATE)
        else (ty, att, False, down)) = (ty5, at5, sc5, hc5)"
      by (simp add: ty5_def at5_def sc5_def hc5_def)
    show ?thesis
      unfolding outcome_def Let_def machine.simps down_def [symmetric] ty_def [symmetric] att_def [symmetric] mid prod.case
        sc_def [symmetric] at6_def [symmetric] hc_def [symmetric] ty7_def [symmetric] lh7_def [symmetric] by (rule refl)
  qed
  have pend: "\<exists>e. pending_event (Service_ref i) ?s = Some e \<and> s_next_check (svcs ?s i) = ev_run_time e"
    if "s_checks_enabled v" "cr_reschedule_check cr \<or> sc" "s_check_interval v \<noteq> 0"
  proof -
    have "will_reschedule (svcs s9 i)" using that n9 v9 by (auto simp: will_reschedule_def)
    with s10(4) show ?thesis unfolding fin(2,3) s11(5,6) by blast
  qed
  have p: "passes X i s1 ?s" using p11 fin(1) passes_trans by blast
  show ?thesis
    using run passesD [OF p] s1(3,4) s2(4) out svc_machineD [OF m] pend
    by (intro exI [of _ ?s] exI [of _ hp] exI [of _ b10] exI [of _ sc] exI [of _ hc]) (simp add: hp_def)
qed


text \<open>The whole handler.  A passive result is taken only where passive checks are accepted.\<close>

definition accepts :: "nat \<Rightarrow> check_result \<Rightarrow> daemon \<Rightarrow> bool" where
  "accepts i cr s \<longleftrightarrow> (cr_check_type cr = CHECK_TYPE_PASSIVE \<longrightarrow> accept_passive_service_checks (globs s) \<and> s_accept_passive_checks (svcs s i))"

lemma service_entry_step:
  assumes ok: "daemon_ok X s" and acc: "accepts i cr s"
  shows "\<exists>s'. (if cr_check_type cr = CHECK_TYPE_PASSIVE then service_is_passive i s else (True, service_is_active i s)) = (True, s')
    \<and> passes X i s s' \<and> svc_machine (svcs s' i) = svc_machine (svcs s i)"
proof -
  have "holds X s (service_is_active i s)"
    by (rule holds_frame [OF ok]) (simp_all add: service_is_active_def dt_keeps_def svc_ties_def)
  then have "passes X i s (service_is_active i s)" "svc_machine (svcs (service_is_active i s) i) = svc_machine (svcs s i)"
    by (simp_all add: holds_def passes_def service_is_active_def ctx_def svc_view_def svc_machine_def)
  moreover have "passes X i s (upd_svc i (\<lambda>v. v\<lparr>s_check_type := CHECK_TYPE_PASSIVE\<rparr>) s)"
    by (rule upd_svc_passes [OF ok]) (simp_all add: svc_ties_def svc_view_def)
  ultimately show ?thesis using acc by (auto simp: accepts_def service_is_passive_def svc_machine_def)
qed

lemma handle_service_result_spec:
  fixes s h i cr
  defines "st \<equiv> nat (service_result_code (globs s) cr)" and "up \<equiv> h_current_state (hosts s h) = HOST_UP" and "v \<equiv> svcs s i"
  assumes ok: "daemon_ok X s" and code: "a_state (service_result_code (globs s) cr)"
    and host: "s_host v = Some h" and acc: "accepts i cr s" and con: "consistent (s_max_attempts v) (soft_hard_of v)"
  shows "\<exists>s'. handle_async_service_check_result i cr s = Some (OK, s') \<and> daemon_ok X s' \<and> ctx s' = ctx s
    \<and> svc_view (svcs s' i) = (st, s_current_state v, s_max_attempts v, s_checks_enabled v, s_check_interval v, Some h)
    \<and> soft_hard_of (svcs s' i) = next_state up (s_max_attempts v) st (soft_hard_of v)
    \<and> consistent (s_max_attempts v) (soft_hard_of (svcs s' i))
    \<and> (s_checks_enabled v \<and> (cr_reschedule_check cr \<or> st \<noteq> s_current_state v) \<and> s_check_interval v \<noteq> 0 \<longrightarrow>
        (\<exists>e. pending_event (Service_ref i) s' = Some e \<and> s_next_check (svcs s' i) = ev_run_time e))"
proof -
  from service_entry_step [OF ok acc] obtain s1 where
    s1: "(if cr_check_type cr = CHECK_TYPE_PASSIVE then service_is_passive i s else (True, service_is_active i s)) = (True, s1)"
      "passes X i s s1" "svc_machine (svcs s1 i) = svc_machine v" unfolding v_def by blast
  note p1 = passesD [OF s1(2)]
  note view = svc_viewD [OF p1(3), folded v_def]
  have m1: "s_state_type (svcs s1 i) = s_state_type v" "s_current_attempt (svcs s1 i) = s_current_attempt v"
    "s_last_hard_state (svcs s1 i) = s_last_hard_state v" "s_host_problem_at_last_check (svcs s1 i) = s_host_problem_at_last_check v"
    using s1(3) by (simp_all add: svc_machine_def)
  have g: "globs s1 = globs s" "(h_current_state (hosts s1 h) = HOST_UP) = up" using ctxD [OF p1(2)] by (simp_all add: up_def)
  let ?a = "if st \<noteq> STATE_OK \<and> up \<and> s_host_problem_at_last_check v \<and> s_state_type v = SOFT_STATE then 1 else s_current_attempt v"
  from process_service_result_step [where cr = cr and h = h and i = i, OF p1(1), unfolded g view m1, folded st_def, OF code]
  obtain s' hp b sc hc where s': "process_service_result i h cr (s_last_hard_state v) s1 = Some s'" "daemon_ok X s'" "ctx s' = ctx s1"
      "svc_view (svcs s' i) = (st, s_current_state v, s_max_attempts v, s_checks_enabled v, s_check_interval v, s_host v)"
      "st \<noteq> STATE_OK \<longrightarrow> hp = (\<not> up)"
      "outcome up (s_max_attempts v) st (s_current_state v)
        \<lparr>m_type = s_state_type v, m_attempt = ?a, m_last_hard = s_last_hard_state v, m_host_problem = hp, m_scheduled = b\<rparr>
      = (s_state_type (svcs s' i), s_current_attempt (svcs s' i), s_last_hard_state (svcs s' i), s_host_problem_at_last_check (svcs s' i), sc, hc)"
      "s_checks_enabled v \<and> (cr_reschedule_check cr \<or> sc) \<and> s_check_interval v \<noteq> 0 \<longrightarrow>
        (\<exists>e. pending_event (Service_ref i) s' = Some e \<and> s_next_check (svcs s' i) = ev_run_time e)" by blast
  have sh: "sh_state (soft_hard_of v) = s_current_state v" "sh_type (soft_hard_of v) = s_state_type v"
    "sh_attempt (soft_hard_of v) = s_current_attempt v" "sh_last_hard (soft_hard_of v) = s_last_hard_state v"
    "sh_host_problem (soft_hard_of v) = (s_current_state v \<noteq> STATE_OK \<and> s_host_problem_at_last_check v)" by (simp_all add: soft_hard_of_def)
  have "s_state_type v = SOFT_STATE \<longrightarrow> s_current_state v \<noteq> STATE_OK" using con by (auto simp: consistent_def soft_hard_of_def)
  then have att: "?a = (if st \<noteq> STATE_OK \<and> up \<and> sh_host_problem (soft_hard_of v) \<and> sh_type (soft_hard_of v) = SOFT_STATE then 1
      else sh_attempt (soft_hard_of v))" by (auto simp: sh)
  note out = outcome_next_state [OF con refl _ s'(6) [unfolded att, folded sh(1-4)]]
  have st: "s_current_state (svcs s' i) = st" using s'(4) by (simp add: svc_view_def)
  have "soft_hard_of (svcs s' i) = next_state up (s_max_attempts v) st (soft_hard_of v)"
    using out s'(5) by (intro soft_hard.equality) (auto simp: soft_hard_of_def st)
  moreover have "consistent (s_max_attempts v) (soft_hard_of (svcs s' i))" using out s'(5) calculation by auto
  moreover have "sc" if "st \<noteq> s_current_state v"
    using s'(6) that by (simp add: outcome_def Let_def split: prod.splits)
  moreover have "handle_async_service_check_result i cr s = Some (OK, s')"
    using host s1(1) s'(1) by (simp add: handle_async_service_check_result_def v_def)
  ultimately show ?thesis using s'(2-4,7) p1(2) host by auto
qed

end
