(* ===== verification/CheckRuns.thy ===== *)
theory CheckRuns
  imports CheckStates
begin

text \<open>
  What follows from the refinement of the result handler: how a service moves over a history of results, when a
  problem becomes hard, and that a service that is checked stays scheduled.
\<close>

section \<open>A history of results\<close>

text \<open>What may happen between two results: anything that keeps the invariant and leaves the state of the
  service and its definition alone.  The state of the host is free.\<close>

definition undisturbed :: "nat set \<Rightarrow> nat \<Rightarrow> daemon \<Rightarrow> daemon \<Rightarrow> bool" where
  "undisturbed X i s s' \<longleftrightarrow> daemon_ok X s' \<and> soft_hard_of (svcs s' i) = soft_hard_of (svcs s i)
    \<and> s_max_attempts (svcs s' i) = s_max_attempts (svcs s i) \<and> s_host (svcs s' i) = s_host (svcs s i)"

text \<open>The results that came in for a service, each with whether the host was up.\<close>

inductive result_history :: "nat set \<Rightarrow> nat \<Rightarrow> daemon \<Rightarrow> (bool \<times> nat) list \<Rightarrow> daemon \<Rightarrow> bool" for X i s0 where
  start: "result_history X i s0 [] s0"
| meanwhile: "result_history X i s0 rs s \<Longrightarrow> undisturbed X i s s' \<Longrightarrow> result_history X i s0 rs s'"
| result: "result_history X i s0 rs s \<Longrightarrow> s_host (svcs s i) = Some h \<Longrightarrow> accepts i cr s \<Longrightarrow> a_state (service_result_code (globs s) cr)
    \<Longrightarrow> handle_async_service_check_result i cr s = Some (r, s')
    \<Longrightarrow> result_history X i s0 (rs @ [(h_current_state (hosts s h) = HOST_UP, nat (service_result_code (globs s) cr))]) s'"

definition after_results :: "int \<Rightarrow> (bool \<times> nat) list \<Rightarrow> soft_hard \<Rightarrow> soft_hard" where
  "after_results max_attempts rs m = fold (\<lambda>(up, st). next_state up max_attempts st) rs m"

lemma after_results_snoc [simp]:
  "after_results max_attempts (rs @ [(up, st)]) m = next_state up max_attempts st (after_results max_attempts rs m)"
  "after_results max_attempts [] m = m"
  by (simp_all add: after_results_def)

lemma result_history_spec:
  assumes "result_history X i s0 rs s" and ok: "daemon_ok X s0" and host: "s_host (svcs s0 i) = Some h"
    and con: "consistent (s_max_attempts (svcs s0 i)) (soft_hard_of (svcs s0 i))"
  shows "daemon_ok X s \<and> s_host (svcs s i) = Some h \<and> s_max_attempts (svcs s i) = s_max_attempts (svcs s0 i)
    \<and> consistent (s_max_attempts (svcs s0 i)) (soft_hard_of (svcs s i))
    \<and> soft_hard_of (svcs s i) = after_results (s_max_attempts (svcs s0 i)) rs (soft_hard_of (svcs s0 i))"
  using assms(1)
proof induction
  case start
  with ok host con show ?case by simp
next
  case (meanwhile rs s s')
  then show ?case unfolding undisturbed_def by metis
next
  case (result rs s h' cr r s')
  note IH = result.IH
  from IH result.hyps(2) have h: "h' = h" by simp
  have con': "consistent (s_max_attempts (svcs s i)) (soft_hard_of (svcs s i))" using IH by metis
  from handle_service_result_spec [OF _ result.hyps(4,2,3) con', of X] IH obtain s'' where
    s'': "handle_async_service_check_result i cr s = Some (OK, s'')" "daemon_ok X s''"
      "svc_view (svcs s'' i) = (nat (service_result_code (globs s) cr), s_current_state (svcs s i), s_max_attempts (svcs s i),
         s_checks_enabled (svcs s i), s_check_interval (svcs s i), Some h')"
      "soft_hard_of (svcs s'' i) = next_state (h_current_state (hosts s h') = HOST_UP) (s_max_attempts (svcs s i))
         (nat (service_result_code (globs s) cr)) (soft_hard_of (svcs s i))"
      "consistent (s_max_attempts (svcs s i)) (soft_hard_of (svcs s'' i))" by blast
  have "s' = s''" using result.hyps(5) s''(1) by simp
  with s''(2-5) IH show ?case by (simp add: svc_view_def h)
qed

section \<open>When a problem becomes hard\<close>

lemma count_problems:
  assumes "\<forall>(up, st) \<in> set rs. up \<and> st \<noteq> STATE_OK" "rs \<noteq> []" "sh_state m = STATE_OK" "consistent max_attempts m"
  shows "after_results max_attempts rs m = (let n = int (length rs); st = snd (last rs) in
    \<lparr>sh_state = st, sh_type = if n < max_attempts then SOFT_STATE else HARD_STATE, sh_attempt = min n max_attempts,
     sh_last_hard = if n < max_attempts then STATE_OK else st, sh_host_problem = False\<rparr>)"
  using assms(2,1)
proof (induction rs rule: rev_nonempty_induct)
  case (single r)
  obtain up st where r: "r = (up, st)" by fastforce
  have "sh_last_hard m = STATE_OK" "1 \<le> max_attempts" using assms(3,4) by (auto simp: consistent_def)
  with single r assms(3) show ?case using after_results_snoc(1) [of max_attempts "[]" up st m]
    by (auto simp: next_state_def Let_def)
next
  case (snoc r rs)
  obtain up st where r: "r = (up, st)" by fastforce
  have pos: "1 \<le> max_attempts" using assms(4) by (auto simp: consistent_def)
  have last: "snd (List.last rs) \<noteq> STATE_OK" using snoc.prems snoc.hyps by (cases "List.last rs") (use last_in_set in fastforce)
  have len: "1 \<le> int (length rs)" using snoc.hyps by (cases rs) auto
  note IH = snoc.IH [unfolded Let_def]
  show ?case
  proof (cases "int (length rs) < max_attempts")
    case True
    with IH snoc.prems r last len show ?thesis by (auto simp: next_state_def Let_def min_def)
  next
    case False
    with IH snoc.prems r last len pos show ?thesis by (auto simp: next_state_def Let_def min_def)
  qed
qed

section \<open>Properties\<close>

text \<open>C5. The result of a service check moves the service as the machine of soft and hard states says: a good
  result makes it hard OK, a problem is soft until \<open>max_attempts\<close> results have shown it, hard at once when the host
  is down, and the last hard state follows.  The handler returns, and keeps the invariants of downtimes, flap
  detection and scheduling.\<close>

theorem service_result_refines:
  assumes "daemon_ok X s" "s_host (svcs s i) = Some h" "accepts i cr s" "a_state (service_result_code (globs s) cr)"
    and "consistent (s_max_attempts (svcs s i)) (soft_hard_of (svcs s i))"
  shows "\<exists>s'. handle_async_service_check_result i cr s = Some (OK, s') \<and> daemon_ok X s'
    \<and> soft_hard_of (svcs s' i) = next_state (h_current_state (hosts s h) = HOST_UP) (s_max_attempts (svcs s i))
        (nat (service_result_code (globs s) cr)) (soft_hard_of (svcs s i))
    \<and> consistent (s_max_attempts (svcs s' i)) (soft_hard_of (svcs s' i))"
proof -
  from handle_service_result_spec [OF assms(1,4,2,3,5)] obtain s' where s': "handle_async_service_check_result i cr s = Some (OK, s')"
    "daemon_ok X s'" "svc_view (svcs s' i) = (nat (service_result_code (globs s) cr), s_current_state (svcs s i), s_max_attempts (svcs s i),
      s_checks_enabled (svcs s i), s_check_interval (svcs s i), Some h)"
    "soft_hard_of (svcs s' i) = next_state (h_current_state (hosts s h) = HOST_UP) (s_max_attempts (svcs s i))
        (nat (service_result_code (globs s) cr)) (soft_hard_of (svcs s i))"
    "consistent (s_max_attempts (svcs s i)) (soft_hard_of (svcs s' i))" by blast
  from s'(3) have "s_max_attempts (svcs s' i) = s_max_attempts (svcs s i)" by (simp add: svc_view_def)
  with s' show ?thesis by auto
qed

text \<open>A service on a host that is up, with three attempts and a check every five minutes.\<close>

definition watched :: daemon where
  "watched = blank_daemon\<lparr>svcs := (\<lambda>i. blank_service\<lparr>s_host := Some 0, s_max_attempts := 3, s_current_attempt := 1,
     s_state_type := HARD_STATE, s_checks_enabled := True, s_check_interval := 5, s_retry_interval := 1, s_accept_passive_checks := True\<rparr>),
     globs := blank_globals\<lparr>interval_length := 60, accept_passive_service_checks := True\<rparr>\<rparr>"

definition critical_result :: check_result where
  "critical_result = (new_check_result CHECK_OPTION_NONE True True 0 (100, 0))\<lparr>cr_return_code := 2, cr_output := Some ''down''\<rparr>"

lemma watched_ok: "daemon_ok {} watched"
proof -
  have "links watched = links blank_daemon" by (simp add: links_def watched_def blank_daemon_def blank_service_def)
  then have "acyclic_links watched" using acyclic_links_frame acyclic_links_blank by blast
  then have "flap_ready watched"
    by (simp add: flap_ready_def comments_ok_def no_comments_wf rings_def watched_def blank_daemon_def no_comments_def
      blank_service_def blank_host_def MAX_STATE_HISTORY_ENTRIES_def cm_wf_def)
  moreover have "dt_inv {} watched"
  proof -
    have "in_effect_at watched t = {}" "target_depth t watched = 0" for t
      by (cases t; simp add: in_effect_at_def watched_def blank_daemon_def blank_host_def blank_service_def)+
    moreover have "dl_wf watched" using one_host_wf by (simp add: dl_wf_def one_host_def watched_def blank_daemon_def)
    ultimately show ?thesis
      using no_comments_wf by (simp add: dt_inv_def depth_ok_def parents_set_def watched_def blank_daemon_def blank_service_def)
  qed
  moreover have "pending d watched = None" for d by (cases d) (simp_all add: watched_def blank_daemon_def blank_service_def blank_host_def)
  then have "sched_ok {} watched" by (simp add: sched_ok_def watched_def blank_daemon_def)
  moreover have "linked watched" by (simp add: linked_def child_rel_def watched_def blank_daemon_def blank_host_def blank_globals_def)
  moreover have "dt_events_ok watched" by (simp add: dt_events_ok_def dt_handles_def watched_def blank_daemon_def blank_downtime_def)
  ultimately show ?thesis by (simp add: daemon_ok_def)
qed

lemma watched_fields:
  "s_host (svcs watched i) = Some 0" "s_max_attempts (svcs watched i) = 3" "accepts i critical_result watched"
  "service_result_code (globs watched) critical_result = 2" "h_current_state (hosts watched h) = HOST_UP"
  "soft_hard_of (svcs watched i) = \<lparr>sh_state = 0, sh_type = 1, sh_attempt = 1, sh_last_hard = 0, sh_host_problem = False\<rparr>"
  "consistent 3 (soft_hard_of (svcs watched i))" "s_checks_enabled (svcs watched i)" "s_check_interval (svcs watched i) = 5"
  by (simp_all add: watched_def blank_daemon_def blank_service_def blank_host_def blank_globals_def accepts_def critical_result_def
    new_check_result_def service_result_code_def soft_hard_of_def consistent_def)

theorem service_result_refines_witness:
  "\<exists>s'. handle_async_service_check_result 0 critical_result watched = Some (OK, s')
    \<and> soft_hard_of (svcs s' 0) = \<lparr>sh_state = 2, sh_type = SOFT_STATE, sh_attempt = 1, sh_last_hard = 0, sh_host_problem = False\<rparr>"
  using service_result_refines [OF watched_ok, of 0 0 critical_result] watched_fields
  by (auto simp: a_state_def next_state_def Let_def)

text \<open>C7. From hard OK on a host that stays up, however the results are spread out and whatever happens in between,
  the \<open>n\<close>-th problem in a row is a soft one with attempt \<open>n\<close> as long as \<open>n\<close> is below \<open>max_attempts\<close>, also when the
  kind of problem changes, and a hard one from there on.\<close>

theorem problem_hard_at_max_attempts:
  assumes "result_history X i s0 rs s" "daemon_ok X s0" "s_host (svcs s0 i) = Some h"
    and "consistent (s_max_attempts (svcs s0 i)) (soft_hard_of (svcs s0 i))" "s_current_state (svcs s0 i) = STATE_OK"
    and "rs \<noteq> []" "\<forall>(up, st) \<in> set rs. up \<and> st \<noteq> STATE_OK"
  shows "s_current_state (svcs s i) = snd (last rs)
    \<and> s_current_attempt (svcs s i) = min (int (length rs)) (s_max_attempts (svcs s0 i))
    \<and> s_state_type (svcs s i) = (if int (length rs) < s_max_attempts (svcs s0 i) then SOFT_STATE else HARD_STATE)
    \<and> s_last_hard_state (svcs s i) = (if int (length rs) < s_max_attempts (svcs s0 i) then STATE_OK else snd (last rs))"
proof -
  have "soft_hard_of (svcs s i) = after_results (s_max_attempts (svcs s0 i)) rs (soft_hard_of (svcs s0 i))"
    using result_history_spec [OF assms(1-4)] by blast
  also note count_problems [OF assms(7,6) _ assms(4)]
  finally show ?thesis using assms(5) by (simp add: soft_hard_of_def Let_def)
qed

theorem problem_hard_at_max_attempts_witness:
  "\<exists>s. result_history {} 0 watched [(True, 2)] s \<and> s_state_type (svcs s 0) = SOFT_STATE \<and> s_current_attempt (svcs s 0) = 1"
proof -
  obtain s where s: "handle_async_service_check_result 0 critical_result watched = Some (OK, s)"
    using handle_service_result_spec [OF watched_ok, of critical_result 0 0] watched_fields by (auto simp: a_state_def)
  have "result_history {} 0 watched ([] @ [(h_current_state (hosts watched 0) = HOST_UP, nat (service_result_code (globs watched) critical_result))]) s"
    by (rule result_history.result [OF result_history.start _ _ _ s]) (use watched_fields in \<open>simp_all add: a_state_def\<close>)
  then have r: "result_history {} 0 watched [(True, 2)] s" using watched_fields by simp
  moreover have "s_current_state (svcs watched 0) = STATE_OK" by (simp add: watched_def blank_daemon_def blank_service_def)
  ultimately show ?thesis
    using problem_hard_at_max_attempts [OF r watched_ok, of 0] watched_fields by auto
qed

text \<open>C8. A service that is checked stays so: when a result was handled for a service with checks enabled and an
  interval, and the result asks for the next check or the state has changed, a check is in the event queue, at the
  time that the service says.\<close>

theorem service_stays_scheduled:
  assumes "daemon_ok X s" "s_host (svcs s i) = Some h" "accepts i cr s" "a_state (service_result_code (globs s) cr)"
    and "consistent (s_max_attempts (svcs s i)) (soft_hard_of (svcs s i))"
    and "s_checks_enabled (svcs s i)" "s_check_interval (svcs s i) \<noteq> 0"
    and "cr_reschedule_check cr \<or> nat (service_result_code (globs s) cr) \<noteq> s_current_state (svcs s i)"
  shows "\<exists>s' k e. handle_async_service_check_result i cr s = Some (OK, s') \<and> s_next_check_event (svcs s' i) = Some k
    \<and> (k, e) \<in> set (event_queue s') \<and> ev_type e = EVENT_SERVICE_CHECK \<and> ev_data e = Service_ref i
    \<and> ev_run_time e = s_next_check (svcs s' i)"
proof -
  from handle_service_result_spec [OF assms(1,4,2,3,5)] assms(6-8) obtain s' e where
    s': "handle_async_service_check_result i cr s = Some (OK, s')" "daemon_ok X s'"
      "pending_event (Service_ref i) s' = Some e" "s_next_check (svcs s' i) = ev_run_time e" by blast
  from s'(3) obtain k where k: "pending (Service_ref i) s' = Some k" by (auto simp: pending_event_def split: option.splits)
  from queued_event_ok(2,3,5) [OF daemon_okD(3) [OF s'(2)] k] s' k show ?thesis by auto
qed

theorem service_stays_scheduled_witness:
  "\<exists>s' k e. handle_async_service_check_result 0 critical_result watched = Some (OK, s') \<and> s_next_check_event (svcs s' 0) = Some k
    \<and> (k, e) \<in> set (event_queue s') \<and> ev_type e = EVENT_SERVICE_CHECK \<and> ev_data e = Service_ref 0
    \<and> ev_run_time e = s_next_check (svcs s' 0)"
proof -
  have "cr_reschedule_check critical_result" by (simp add: critical_result_def new_check_result_def)
  with service_stays_scheduled [OF watched_ok, of 0 0 critical_result] watched_fields show ?thesis by (simp add: a_state_def)
qed

text \<open>C9. Scheduling a check leaves exactly one event for the service, and the best one: a forced check goes before
  an unforced one, of two alike the earlier one is kept, and the events of other objects stay.\<close>

theorem schedule_service_check_best:
  assumes "sched_ok X s" "s_checks_enabled (svcs s i) \<or> forced opts" "opts \<noteq> CHECK_OPTION_DEPENDENCY_CHECK"
  shows "\<exists>s' e. schedule_service_check i t opts s = Some s' \<and> sched_ok X s' \<and> pending_event (Service_ref i) s' = Some e
    \<and> s_next_check (svcs s' i) = ev_run_time e
    \<and> (pending_event (Service_ref i) s = Some e \<or> ev_run_time e = t \<and> ev_options e = opts)
    \<and> no_worse e opts t \<and> (\<forall>old. pending_event (Service_ref i) s = Some old \<longrightarrow> no_worse e (ev_options old) (ev_run_time old))
    \<and> (\<forall>d. d \<noteq> Service_ref i \<longrightarrow> pending_event d s' = pending_event d s)"
proof -
  from assms obtain s' e where "schedule_service_check i t opts s = Some s'" "scheduled X (Service_ref i) t opts s s' e"
    "s_next_check (svcs s' i) = ev_run_time e"
    using schedule_service_check_spec [of X s i opts t] by blast
  then show ?thesis by (auto simp: scheduled_def)
qed

theorem schedule_service_check_best_witness:
  "\<exists>s' e. schedule_service_check 0 500 CHECK_OPTION_NONE watched = Some s' \<and> pending_event (Service_ref 0) s' = Some e \<and> ev_run_time e = 500"
proof -
  have "pending_event (Service_ref 0) watched = None" by (simp add: pending_event_def watched_def blank_daemon_def blank_service_def)
  with schedule_service_check_best [OF daemon_okD(3) [OF watched_ok], of 0 CHECK_OPTION_NONE 500] watched_fields(8) show ?thesis by auto
qed

end
