(* ===== verification/HostStates.thy ===== *)
theory HostStates
  imports CheckRuns
begin

text \<open>
  What the handling of a host result comes to: the machine of soft and hard states of a host, which
  \<open>handle_async_host_check_result\<close> refines, and that the handler returns and keeps the invariants.  The views
  are those of the service handler (theory CheckStates), for hosts.
\<close>

section \<open>Views\<close>

definition host_ctx :: "nat \<Rightarrow> daemon \<Rightarrow> globals \<times> int \<times> libc \<times> (nat \<Rightarrow> nat)" where
  "host_ctx h s = (globs s, clock s, clib s, \<lambda>p. if p = h then 0 else h_current_state (hosts s p))"

definition host_view :: "host \<Rightarrow> nat \<times> nat \<times> int \<times> bool \<times> rat \<times> nat \<times> nat list" where
  "host_view v = (h_current_state v, h_last_state v, h_max_attempts v, h_checks_enabled v, h_check_interval v, h_check_type v, h_parent_hosts v)"

definition host_machine :: "host \<Rightarrow> machine" where
  "host_machine v = \<lparr>m_type = h_state_type v, m_attempt = h_current_attempt v, m_last_hard = h_last_hard_state v,
     m_host_problem = False, m_scheduled = h_should_be_scheduled v\<rparr>"

definition host_passes :: "nat set \<Rightarrow> nat \<Rightarrow> daemon \<Rightarrow> daemon \<Rightarrow> bool" where
  "host_passes X h s s' \<longleftrightarrow> daemon_ok X s' \<and> host_ctx h s' = host_ctx h s \<and> host_view (hosts s' h) = host_view (hosts s h)"

lemma host_passes_trans: "host_passes X h s s' \<Longrightarrow> host_passes X h s' s'' \<Longrightarrow> host_passes X h s s''"
  by (simp add: host_passes_def)

lemma host_passesD:
  assumes "host_passes X h s s'"
  shows "daemon_ok X s'" "host_ctx h s' = host_ctx h s" "host_view (hosts s' h) = host_view (hosts s h)"
  using assms by (simp_all add: host_passes_def)

lemma host_ctxD:
  assumes "host_ctx h s' = host_ctx h s"
  shows "globs s' = globs s" "clock s' = clock s" "p \<noteq> h \<Longrightarrow> h_current_state (hosts s' p) = h_current_state (hosts s p)"
  using assms fun_cong [of "\<lambda>p. if p = h then 0 else h_current_state (hosts s' p)" _ p] by (simp_all add: host_ctx_def)

lemma host_viewD:
  assumes "host_view v' = host_view v"
  shows "h_current_state v' = h_current_state v" "h_last_state v' = h_last_state v" "h_max_attempts v' = h_max_attempts v"
    "h_checks_enabled v' = h_checks_enabled v" "h_check_interval v' = h_check_interval v" "h_check_type v' = h_check_type v"
    "h_parent_hosts v' = h_parent_hosts v"
  using assms by (simp_all add: host_view_def)

lemma host_machineD:
  assumes "host_machine v = \<lparr>m_type = ty, m_attempt = a, m_last_hard = lh, m_host_problem = False, m_scheduled = b\<rparr>"
  shows "h_state_type v = ty" "h_current_attempt v = a" "h_last_hard_state v = lh" "h_should_be_scheduled v = b"
  using assms by (simp_all add: host_machine_def)

lemma chk_core_host_passes:
  assumes "daemon_ok X s'" "chk_core s' = chk_core s"
  shows "host_passes X h s s'" "host_machine (hosts s' h) = host_machine (hosts s h)"
proof -
  note hst = chk_coreD(13) [OF assms(2)]
  have "h_current_state (hosts s' p) = h_current_state (hosts s p)" for p
    using arg_cong [OF hst, of h_current_state p] by (simp add: chk_core_defs)
  moreover have "host_view (hosts s' h) = host_view (hosts s h)"
    using arg_cong [OF hst, of host_view h] by (simp add: host_view_def chk_core_defs)
  ultimately show "host_passes X h s s'" using assms(1) chk_coreD(1-3) [OF assms(2)] by (simp add: host_passes_def host_ctx_def cong: if_cong)
  show "host_machine (hosts s' h) = host_machine (hosts s h)"
    using arg_cong [OF hst, of host_machine h] by (simp add: host_machine_def chk_core_defs)
qed

lemma stays_host_passes:
  assumes "stays X s s'"
  shows "host_passes X h s s'" "host_machine (hosts s' h) = host_machine (hosts s h)"
  using chk_core_host_passes [OF staysD(1,2) [OF assms]] by blast+

lemma holds_host_passes:
  "holds X s s' \<Longrightarrow> host_ctx h s' = host_ctx h s \<Longrightarrow> host_view (hosts s' h) = host_view (hosts s h) \<Longrightarrow> host_passes X h s s'"
  by (simp add: holds_def host_passes_def)

lemma upd_host_passes:
  assumes "daemon_ok X s" "host_ties (f (hosts s h)) = host_ties (hosts s h)" "host_view (f (hosts s h)) = host_view (hosts s h)"
  shows "host_passes X h s (upd_host h f s)"
  using holds_upd_host [where f = f and h = h, OF assms(1,2)] assms(3)
  by (simp add: holds_def host_passes_def host_ctx_def cong: if_cong)

section \<open>Checks of other hosts\<close>

lemma host_propagate_passes:
  assumes ok: "daemon_ok X s"
  shows "\<exists>s'. host_propagate_checks_to_immediate_parents h a s = Some s' \<and> daemon_ok X s' \<and> chk_core s' = chk_core s"
    "\<exists>s'. host_propagate_checks_to_immediate_children h a b s = Some s' \<and> daemon_ok X s' \<and> chk_core s' = chk_core s"
    "\<exists>s'. host_propagate_dependency_checks h s = Some s' \<and> daemon_ok X s' \<and> chk_core s' = chk_core s"
proof -
  have step: "\<exists>t'. (if P t then schedule_host_check x (clock t) opts t else Some t) = Some t' \<and> daemon_ok X t' \<and> chk_core t' = chk_core t"
    if "daemon_ok X t" for P x opts t
    using stays_schedule_host_check [OF that] that by auto
  show "\<exists>s'. host_propagate_checks_to_immediate_parents h a s = Some s' \<and> daemon_ok X s' \<and> chk_core s' = chk_core s"
    unfolding host_propagate_checks_to_immediate_parents_def by (rule queue_checks_passes [OF ok step])
  show "\<exists>s'. host_propagate_checks_to_immediate_children h a b s = Some s' \<and> daemon_ok X s' \<and> chk_core s' = chk_core s"
    unfolding host_propagate_checks_to_immediate_children_def by (rule queue_checks_passes [OF ok step])
  show "\<exists>s'. host_propagate_dependency_checks h s = Some s' \<and> daemon_ok X s' \<and> chk_core s' = chk_core s"
    using queue_checks_passes [OF ok stays_schedule_host_check] ok by (auto simp: host_propagate_dependency_checks_def Let_def)
qed

section \<open>Parts of the handler\<close>

lemma host_was_up_step:
  assumes ok: "daemon_ok X s"
  shows "\<exists>f' s'. host_was_up h f s = Some (f', s') \<and> host_passes X h s s' \<and> turns f' = turns f
    \<and> host_machine (hosts s' h) = (host_machine (hosts s h))\<lparr>m_attempt := 1,
        m_type := if h_current_state (hosts s h) = HOST_UP then HARD_STATE else SOFT_STATE\<rparr>"
proof (cases "h_current_state (hosts s h) = HOST_UP")
  case True
  have "host_passes X h s (upd_host h (\<lambda>v. v\<lparr>h_state_type := HARD_STATE, h_current_attempt := 1\<rparr>) s)"
    by (rule upd_host_passes [OF ok]) (simp_all add: host_ties_def host_view_def)
  with True show ?thesis by (simp add: host_was_up_def host_machine_def)
next
  case False
  let ?s = "upd_host h (\<lambda>v. v\<lparr>h_state_type := SOFT_STATE, h_current_attempt := 1\<rparr>) s"
  have p: "host_passes X h s ?s" by (rule upd_host_passes [OF ok]) (simp_all add: host_ties_def host_view_def)
  from host_propagate_passes(1) [OF host_passesD(1) [OF p], of h False] obtain s1 where
    s1: "host_propagate_checks_to_immediate_parents h False ?s = Some s1" "daemon_ok X s1" "chk_core s1 = chk_core ?s" by blast
  from host_propagate_passes(2) [OF s1(2), of h False True] obtain s2 where
    s2: "host_propagate_checks_to_immediate_children h False True s1 = Some s2" "daemon_ok X s2" "chk_core s2 = chk_core s1" by blast
  from host_propagate_passes(3) [OF s2(2), of h] obtain s3 where
    s3: "host_propagate_dependency_checks h s2 = Some s3" "daemon_ok X s3" "chk_core s3 = chk_core s2" by blast
  have core: "chk_core s3 = chk_core ?s" using s1(3) s2(3) s3(3) by simp
  from chk_core_host_passes [OF s3(2) core, of h] host_passes_trans [OF p]
  have "host_passes X h s s3" "host_machine (hosts s3 h) = host_machine (hosts ?s h)" by blast+
  with False s1(1) s2(1) s3(1) show ?thesis by (simp add: host_was_up_def host_machine_def turns_def)
qed

lemma host_was_down_step:
  assumes ok: "daemon_ok X s"
  shows "\<exists>f' s'. host_was_down h f s = Some (f', s') \<and> host_passes X h s s' \<and> state_change f' = state_change f
    \<and> new_last_hard_state f' = new_last_hard_state f
    \<and> (let recovers = h_current_state (hosts s h) = HOST_UP \<and> h_state_type (hosts s h) = HARD_STATE in
        hard_state_change f' = (hard_state_change f \<or> recovers)
        \<and> host_machine (hosts s' h) = (host_machine (hosts s h))\<lparr>m_attempt := if recovers then 1 else h_current_attempt (hosts s h)\<rparr>)"
proof (cases "h_current_state (hosts s h) = HOST_UP")
  case True
  from host_propagate_passes(1) [OF ok, of h True] obtain s1 where
    s1: "host_propagate_checks_to_immediate_parents h True s = Some s1" "daemon_ok X s1" "chk_core s1 = chk_core s" by blast
  from host_propagate_passes(2) [OF s1(2), of h True False] obtain s2 where
    s2: "host_propagate_checks_to_immediate_children h True False s1 = Some s2" "daemon_ok X s2" "chk_core s2 = chk_core s1" by blast
  have core: "chk_core s2 = chk_core s" using s1(3) s2(3) by simp
  note p = chk_core_host_passes [OF s2(2) core, of h]
  have "host_passes X h s2 (upd_host h (\<lambda>v. v\<lparr>h_current_attempt := 1\<rparr>) s2)"
    by (rule upd_host_passes [OF s2(2)]) (simp_all add: host_ties_def host_view_def)
  with p(1) have "host_passes X h s (upd_host h (\<lambda>v. v\<lparr>h_current_attempt := 1\<rparr>) s2)" by (rule host_passes_trans)
  with True s1(1) s2(1) p show ?thesis by (auto simp: host_was_down_def host_machine_def Let_def)
next
  case False
  with chk_core_host_passes(1) [OF ok refl, of h] show ?thesis by (auto simp: host_was_down_def host_machine_def Let_def)
qed

text \<open>The state after the translation between DOWN and UNREACHABLE.\<close>

definition translated :: "daemon \<Rightarrow> nat \<Rightarrow> nat \<Rightarrow> nat \<Rightarrow> nat" where
  "translated s h ty c =
    (if c = HOST_UP \<or> ty \<noteq> CHECK_TYPE_ACTIVE \<and> \<not> translate_passive_host_checks (globs s) then c
     else if ty = CHECK_TYPE_PASSIVE \<and> c = HOST_UNREACHABLE then HOST_UNREACHABLE
     else if h_parent_hosts (hosts s h) = [] \<or> (\<exists>p \<in> set (h_parent_hosts (hosts s h)). p \<noteq> h \<and> h_current_state (hosts s p) = HOST_UP)
       then HOST_DOWN else HOST_UNREACHABLE)"

lemma translated_up [simp]: "translated s h ty c = HOST_UP \<longleftrightarrow> c = HOST_UP"
  by (simp add: translated_def)

lemma translated_frame: "host_ctx h s' = host_ctx h s \<Longrightarrow> h_parent_hosts (hosts s' h) = h_parent_hosts (hosts s h)
    \<Longrightarrow> translated s' h ty c = translated s h ty c"
  using host_ctxD(1,3) [of h s' s] by (auto simp: translated_def)

lemma host_translate_state_step:
  assumes ok: "daemon_ok X s"
  shows "\<exists>f' s'. host_translate_state h f s = (f', s') \<and> daemon_ok X s' \<and> host_ctx h s' = host_ctx h s \<and> turns f' = turns f
    \<and> (let (c, rest) = host_view (hosts s h) in host_view (hosts s' h) = (translated s h (h_check_type (hosts s h)) c, rest))
    \<and> host_machine (hosts s' h) = host_machine (hosts s h)"
proof -
  let ?v = "hosts s h"
  have reach: "determine_host_reachability s h = translated s h (h_check_type ?v) (h_current_state ?v)"
    if "h_current_state ?v \<noteq> HOST_UP" "h_check_type ?v = CHECK_TYPE_ACTIVE \<or> translate_passive_host_checks (globs s)"
  proof -
    have "(\<exists>p \<in> set (h_parent_hosts ?v). h_current_state (hosts s p) = HOST_UP)
        \<longleftrightarrow> (\<exists>p \<in> set (h_parent_hosts ?v). p \<noteq> h \<and> h_current_state (hosts s p) = HOST_UP)" using that(1) by metis
    with that show ?thesis by (auto simp: determine_host_reachability_def translated_def Let_def)
  qed
  have "holds X s (upd_host h (\<lambda>v. v\<lparr>h_current_state := c\<rparr>) s)" for c
    using holds_upd_host [where f = "\<lambda>v. v\<lparr>h_current_state := c\<rparr>" and h = h, OF ok] by (simp add: host_ties_def)
  then have "daemon_ok X (upd_host h (\<lambda>v. v\<lparr>h_current_state := c\<rparr>) s)" for c by (simp add: holds_def)
  with ok reach show ?thesis
    by (cases "h_current_state ?v \<noteq> HOST_UP \<and> (h_check_type ?v = CHECK_TYPE_ACTIVE \<or> translate_passive_host_checks (globs s))")
      (auto simp: host_translate_state_def Let_def host_ctx_def host_view_def host_machine_def turns_def translated_def cong: if_cong)
qed

definition host_attempt_after :: "int \<Rightarrow> nat \<Rightarrow> nat \<Rightarrow> nat \<Rightarrow> bool \<Rightarrow> int \<Rightarrow> int" where
  "host_attempt_after max_attempts st old type changed attempt =
    (if type = SOFT_STATE then
       (if old \<noteq> HOST_UP \<and> st \<noteq> HOST_UP \<and> attempt < max_attempts then attempt + 1
        else if changed \<or> st = HOST_UP then 1
        else if attempt < max_attempts then attempt + 1 else attempt)
     else attempt)"

lemma host_adjust_attempt_step:
  assumes ok: "daemon_ok X s"
  shows "\<exists>f' s'. host_adjust_attempt h f s = (f', s') \<and> host_passes X h s s' \<and> new_last_hard_state f' = new_last_hard_state f
    \<and> (let v = hosts s h; changed = state_change f \<or> h_current_state v \<noteq> h_last_state v \<or> h_current_state v = HOST_UP \<and> h_state_type v = SOFT_STATE;
           attempt = host_attempt_after (h_max_attempts v) (h_current_state v) (h_last_state v) (h_state_type v) changed (h_current_attempt v) in
        state_change f' = changed
        \<and> hard_state_change f' = (hard_state_change f \<or> attempt \<ge> h_max_attempts v \<and> h_current_state v \<noteq> new_last_hard_state f)
        \<and> host_machine (hosts s' h) = (host_machine v)\<lparr>m_attempt := attempt\<rparr>)"
proof -
  have p: "host_passes X h s (upd_host h (\<lambda>v. v\<lparr>h_current_attempt := n\<rparr>) s)" for n
    by (rule upd_host_passes [OF ok]) (simp_all add: host_ties_def host_view_def)
  define changed where "changed = (state_change f \<or> h_current_state (hosts s h) \<noteq> h_last_state (hosts s h)
    \<or> h_current_state (hosts s h) = HOST_UP \<and> h_state_type (hosts s h) = SOFT_STATE)"
  define g where "g = (if h_current_state (hosts s h) \<noteq> h_last_state (hosts s h) \<or> h_current_state (hosts s h) = HOST_UP \<and> h_state_type (hosts s h) = SOFT_STATE
      then f\<lparr>state_change := True\<rparr> else f)"
  have g: "state_change g = changed" "hard_state_change g = hard_state_change f" "new_last_hard_state g = new_last_hard_state f"
    by (auto simp: g_def changed_def)
  define att where "att = host_attempt_after (h_max_attempts (hosts s h)) (h_current_state (hosts s h)) (h_last_state (hosts s h))
    (h_state_type (hosts s h)) changed (h_current_attempt (hosts s h))"
  have eq: "host_adjust_attempt h f s = ((if att \<ge> h_max_attempts (hosts s h) \<and> h_current_state (hosts s h) \<noteq> new_last_hard_state g
           then g\<lparr>next_check_time := time_plus s (clock s) (h_check_interval (hosts s h)), hard_state_change := True, send_notification := True\<rparr>
           else g), upd_host h (\<lambda>v. v\<lparr>h_current_attempt := att\<rparr>) s)"
    unfolding host_adjust_attempt_def Let_def g_def [symmetric] g att_def host_attempt_after_def by (rule refl)
  show ?thesis
    unfolding eq Let_def changed_def [symmetric] att_def [symmetric] using p g by (simp add: host_machine_def) blast
qed


text \<open>The change of the type, with the simulated hard state of a passive result.\<close>

definition simulated :: "daemon \<Rightarrow> nat \<Rightarrow> bool" where
  "simulated s ty \<longleftrightarrow> ty = CHECK_TYPE_PASSIVE \<and> \<not> passive_host_checks_are_soft (globs s)"

lemma simulate_hard_host_state_step:
  assumes ok: "daemon_ok X s"
  shows "\<exists>f' s'. simulate_hard_host_state h f s = (f', s') \<and> host_passes X h s s' \<and> state_change f' = state_change f
    \<and> hard_state_change f' = (hard_state_change f \<or> simulated s (h_check_type (hosts s h)) \<and> state_change f)
    \<and> host_machine (hosts s' h) = (if simulated s (h_check_type (hosts s h))
        then (host_machine (hosts s h))\<lparr>m_type := HARD_STATE, m_attempt := if state_change f then 1 else h_current_attempt (hosts s h)\<rparr>
        else host_machine (hosts s h))"
proof -
  have "host_passes X h s (upd_host h (\<lambda>v. v\<lparr>h_current_attempt := 1, h_state_type := HARD_STATE\<rparr>) s)"
    "host_passes X h s (upd_host h (\<lambda>v. v\<lparr>h_state_type := HARD_STATE\<rparr>) s)"
    by (rule upd_host_passes [OF ok]; simp add: host_ties_def host_view_def)+
  with chk_core_host_passes(1) [OF ok refl, of h] show ?thesis
    by (auto simp: simulate_hard_host_state_def simulated_def host_machine_def)
qed

lemma new_host_event_ids_step:
  assumes ok: "daemon_ok X s"
  shows "host_passes X h s (new_host_event_ids h s)"
    "host_machine (hosts (new_host_event_ids h s) h) = (host_machine (hosts s h))\<lparr>m_type := SOFT_STATE\<rparr>"
proof -
  have "holds X s (new_host_event_ids h s)"
    by (rule holds_frame [OF ok]) (simp_all add: new_host_event_ids_def Let_def dt_keeps_def host_ties_def)
  then show "host_passes X h s (new_host_event_ids h s)"
    by (rule holds_host_passes) (simp_all add: new_host_event_ids_def Let_def host_ctx_def host_view_def cong: if_cong)
  show "host_machine (hosts (new_host_event_ids h s) h) = (host_machine (hosts s h))\<lparr>m_type := SOFT_STATE\<rparr>"
    by (simp add: new_host_event_ids_def Let_def host_machine_def)
qed

lemma forget_host_acknowledgement_step:
  assumes ok: "daemon_ok X s"
  shows "\<exists>s'. forget_host_acknowledgement h a b s = Some s' \<and> host_passes X h s s' \<and> host_machine (hosts s' h) = host_machine (hosts s h)"
proof -
  let ?s = "upd_host h (\<lambda>v. v\<lparr>h_problem_has_been_acknowledged := False, h_acknowledgement_type := ACKNOWLEDGEMENT_NONE\<rparr>) s"
  have p: "host_passes X h s ?s" by (rule upd_host_passes [OF ok]) (simp_all add: host_ties_def host_view_def)
  note ok1 = host_passesD(1) [OF p]
  then have "comments_ok (comments ?s)" by (simp add: daemon_ok_def flap_ready_def)
  from delete_ack_ok(2) [OF this] obtain c where
    c: "delete_host_acknowledgement_comments (comments ?s) (h_name (hosts s h)) = Some (OK, c)" "comments_ok c" by blast
  from stays_host_passes [OF stays_comments [OF ok1 c(2)], of h] host_passes_trans [OF p]
  have "host_passes X h s (?s\<lparr>comments := c\<rparr>)" "host_machine (hosts (?s\<lparr>comments := c\<rparr>) h) = host_machine (hosts ?s h)" by blast+
  with c(1) chk_core_host_passes [OF ok refl, of h] show ?thesis
    by (simp add: forget_host_acknowledgement_def Let_def host_machine_def)
qed

text \<open>The type, the attempt and the last hard state that the change leaves.\<close>

definition type_after :: "bool \<Rightarrow> bool \<Rightarrow> bool \<Rightarrow> nat \<Rightarrow> nat" where
  "type_after sim changed hard type = (if hard \<or> sim then HARD_STATE else if changed then SOFT_STATE else type)"

lemma host_state_or_hard_state_type_change_step:
  fixes s h f
  defines "sim \<equiv> simulated s (h_check_type (hosts s h))" and "hard \<equiv> hard_state_change f \<or> simulated s (h_check_type (hosts s h)) \<and> state_change f"
  assumes ok: "daemon_ok X s"
  shows "\<exists>f' s'. host_state_or_hard_state_type_change h f s = Some (f', s') \<and> host_passes X h s s' \<and> turns f' = turns f
    \<and> next_check_time f' = next_check_time f
    \<and> host_machine (hosts s' h) = (host_machine (hosts s h))\<lparr>
        m_type := type_after sim (state_change f) (hard) (h_state_type (hosts s h)),
        m_attempt := if sim \<and> state_change f then 1 else h_current_attempt (hosts s h),
        m_last_hard := if hard then h_current_state (hosts s h) else h_last_hard_state (hosts s h),
        m_scheduled := h_should_be_scheduled (hosts s h) \<or> state_change f \<or> hard\<rparr>"
proof -
  obtain g s0 where s0: "simulate_hard_host_state h f s = (g, s0)" "host_passes X h s s0" "state_change g = state_change f" "hard_state_change g = hard"
    "host_machine (hosts s0 h) = (if sim then (host_machine (hosts s h))\<lparr>m_type := HARD_STATE,
        m_attempt := if state_change f then 1 else h_current_attempt (hosts s h)\<rparr> else host_machine (hosts s h))"
    using simulate_hard_host_state_step [OF ok, of h f] unfolding sim_def hard_def by blast
  define s1 where "s1 = (if state_change f then new_host_event_ids h s0 else s0)"
  note ok0 = host_passesD(1) [OF s0(2)]
  have s1: "host_passes X h s s1" "host_machine (hosts s1 h) = (host_machine (hosts s0 h))\<lparr>m_type := if state_change f then SOFT_STATE else h_state_type (hosts s0 h)\<rparr>"
    using new_host_event_ids_step [OF ok0, of h] chk_core_host_passes [OF ok0 refl, of h] host_passes_trans [OF s0(2)] s0(2)
    by (auto simp: s1_def host_machine_def)
  let ?f = "\<lambda>v. v\<lparr>h_last_hard_state_change := h_last_check v, h_last_state_change := h_last_check v,
     h_last_hard_state := h_current_state v, h_state_type := HARD_STATE\<rparr>"
  define s2 where "s2 = (if hard then upd_host h ?f s1 else s1)"
  note ok1 = host_passesD(1) [OF s1(1)]
  have "host_passes X h s1 (upd_host h ?f s1)" by (rule upd_host_passes [OF ok1]) (simp_all add: host_ties_def host_view_def)
  then have p2: "host_passes X h s s2" using host_passes_trans [OF s1(1)] s1(1) by (simp add: s2_def)
  have cur: "h_current_state (hosts s1 h) = h_current_state (hosts s h)" using host_viewD(1) [OF host_passesD(3) [OF s1(1)]] .
  have m2: "host_machine (hosts s2 h) = (host_machine (hosts s h))\<lparr>
      m_type := type_after sim (state_change f) (hard) (h_state_type (hosts s h)),
      m_attempt := if sim \<and> state_change f then 1 else h_current_attempt (hosts s h),
      m_last_hard := if hard then h_current_state (hosts s h) else h_last_hard_state (hosts s h)\<rparr>"
    using s1(2) s0(5) cur by (auto simp: s2_def host_machine_def type_after_def hard_def sim_def split: if_splits)
  show ?thesis
  proof (cases "state_change f \<or> hard")
    case False
    then have "host_state_or_hard_state_type_change h f s = Some (f, s0)"
      using s0 unfolding host_state_or_hard_state_type_change_def by simp
    moreover have "s2 = s0" using False by (simp add: s1_def s2_def)
    ultimately show ?thesis using p2 m2 False by (auto simp: host_machine_def)
  next
    case True
    note ok2 = host_passesD(1) [OF p2]
    obtain r s3 where fl: "check_pending_flex_host_downtime s2 h = Some (r, s3)" "stays X s2 s3"
      using stays_flex_host [OF ok2] by blast
    let ?s4 = "upd_host h (\<lambda>v. v\<lparr>h_last_notification := 0, h_next_notification := 0, h_no_more_notifications := False\<rparr>) s3"
    note p3 = stays_host_passes [OF fl(2), of h]
    have "host_passes X h s3 ?s4" by (rule upd_host_passes [OF host_passesD(1) [OF p3(1)]]) (simp_all add: host_ties_def host_view_def)
    then have p4: "host_passes X h s ?s4" "host_machine (hosts ?s4 h) = host_machine (hosts s2 h)"
      using host_passes_trans [OF p2 host_passes_trans [OF p3(1)]] p3(2) by (simp_all add: host_machine_def)
    from forget_host_acknowledgement_step [OF host_passesD(1) [OF p4(1)], of h "state_change f" "hard"] obtain s5 where
      s5: "forget_host_acknowledgement h (state_change f) (hard) ?s4 = Some s5" "host_passes X h ?s4 s5"
      "host_machine (hosts s5 h) = host_machine (hosts ?s4 h)" by blast
    let ?s6 = "upd_host h (\<lambda>v. v\<lparr>h_should_be_scheduled := True\<rparr>) s5"
    have "host_passes X h s5 ?s6" by (rule upd_host_passes [OF host_passesD(1) [OF s5(2)]]) (simp_all add: host_ties_def host_view_def)
    then have "host_passes X h s ?s6" using host_passes_trans [OF p4(1) host_passes_trans [OF s5(2)]] by blast
    moreover have "host_machine (hosts ?s6 h) = (host_machine (hosts s2 h))\<lparr>m_scheduled := True\<rparr>"
      using s5(3) p4(2) by (simp add: host_machine_def)
    moreover have "\<exists>f'. host_state_or_hard_state_type_change h f s = Some (f', ?s6) \<and> turns f' = turns f \<and> next_check_time f' = next_check_time f"
      using True s0 fl(1) s5(1)
      by (simp add: host_state_or_hard_state_type_change_def s2_def [symmetric] s1_def [symmetric] turns_def)
    ultimately show ?thesis using True m2 by (auto simp: host_machine_def)
  qed
qed


lemma host_change_type_step:
  fixes s h f
  defines "v \<equiv> hosts s h" and "sim \<equiv> simulated s (h_check_type (hosts s h))"
    and "hard \<equiv> hard_state_change f \<or> simulated s (h_check_type (hosts s h)) \<and> state_change f"
  assumes ok: "daemon_ok X s"
  shows "\<exists>f' s'. host_change_type h f s = Some (f', s') \<and> host_passes X h s s' \<and> next_check_time f' = next_check_time f
    \<and> new_last_hard_state f' = (if hard \<and> h_last_hard_state v \<noteq> h_current_state v then h_current_state v else new_last_hard_state f)
    \<and> host_machine (hosts s' h) = (host_machine v)\<lparr>
        m_type := type_after sim (state_change f) hard (h_state_type v),
        m_attempt := if sim \<and> state_change f then 1 else h_current_attempt v,
        m_scheduled := h_should_be_scheduled v \<or> state_change f \<or> hard\<rparr>"
proof -
  from host_state_or_hard_state_type_change_step [OF ok, of h f, folded hard_def, folded sim_def v_def] obtain f1 s1 where
    s1: "host_state_or_hard_state_type_change h f s = Some (f1, s1)" "host_passes X h s s1" "turns f1 = turns f"
      "next_check_time f1 = next_check_time f"
      "host_machine (hosts s1 h) = (host_machine v)\<lparr>
        m_type := type_after sim (state_change f) hard (h_state_type v),
        m_attempt := if sim \<and> state_change f then 1 else h_current_attempt v,
        m_last_hard := if hard then h_current_state v else h_last_hard_state v,
        m_scheduled := h_should_be_scheduled v \<or> state_change f \<or> hard\<rparr>" by blast
  note t = turnsD [OF s1(3)]
  have lh: "h_last_hard_state (hosts s1 h) = (if hard then h_current_state v else h_last_hard_state v)"
    using arg_cong [OF s1(5), of m_last_hard] by (simp add: host_machine_def)
  define s2 where "s2 = (if h_last_hard_state v \<noteq> h_last_hard_state (hosts s1 h)
      then upd_host h (\<lambda>u. u\<lparr>h_last_hard_state := h_last_hard_state v\<rparr>) s1 else s1)"
  define f2 where "f2 = (if h_last_hard_state v \<noteq> h_last_hard_state (hosts s1 h) then f1\<lparr>new_last_hard_state := h_last_hard_state (hosts s1 h)\<rparr> else f1)"
  note ok1 = host_passesD(1) [OF s1(2)]
  have "host_passes X h s1 (upd_host h (\<lambda>u. u\<lparr>h_last_hard_state := h_last_hard_state v\<rparr>) s1)"
    by (rule upd_host_passes [OF ok1]) (simp_all add: host_ties_def host_view_def)
  then have p2: "host_passes X h s1 s2" using chk_core_host_passes [OF ok1 refl, of h] by (simp add: s2_def)
  have p3: "host_passes X h s2 (record_last_host_state_ended h s2)"
    unfolding record_last_host_state_ended_def
    by (rule upd_host_passes [OF host_passesD(1) [OF p2]]) (simp_all add: host_ties_def host_view_def)
  have m3: "host_machine (hosts (record_last_host_state_ended h s2) h) = host_machine (hosts s2 h)"
    by (simp add: record_last_host_state_ended_def host_machine_def)
  have m2: "host_machine (hosts s2 h) = (host_machine (hosts s1 h))\<lparr>m_last_hard := h_last_hard_state v\<rparr>"
    by (simp add: s2_def host_machine_def)
  have "host_change_type h f s = Some (f2, record_last_host_state_ended h s2)"
    using s1(1) by (simp add: host_change_type_def s2_def f2_def v_def)
  moreover have "host_passes X h s (record_last_host_state_ended h s2)"
    using s1(2) p2 p3 host_passes_trans by blast
  moreover have "host_machine (hosts (record_last_host_state_ended h s2) h) = (host_machine v)\<lparr>
        m_type := type_after sim (state_change f) hard (h_state_type v),
        m_attempt := if sim \<and> state_change f then 1 else h_current_attempt v,
        m_scheduled := h_should_be_scheduled v \<or> state_change f \<or> hard\<rparr>"
    unfolding m3 m2 s1(5) by (simp add: host_machine_def)
  moreover have "next_check_time f2 = next_check_time f"
    "new_last_hard_state f2 = (if hard \<and> h_last_hard_state v \<noteq> h_current_state v then h_current_state v else new_last_hard_state f)"
    using t s1(4) lh by (auto simp: f2_def)
  ultimately show ?thesis by blast
qed

definition will_reschedule_host :: "host \<Rightarrow> bool" where
  "will_reschedule_host v \<longleftrightarrow> h_checks_enabled v \<and> h_should_be_scheduled v
    \<and> \<not> (h_check_interval v = 0 \<and> (h_state_type v = HARD_STATE \<or> h_current_state v = HOST_UP))"

lemma host_reschedule_step:
  assumes ok: "daemon_ok X s"
  shows "\<exists>s'. host_reschedule h t s = Some s' \<and> host_passes X h s s'
    \<and> (\<exists>b. host_machine (hosts s' h) = (host_machine (hosts s h))\<lparr>m_scheduled := b\<rparr>)
    \<and> (will_reschedule_host (hosts s h) \<longrightarrow> (\<exists>e. pending_event (Host_ref h) s' = Some e \<and> h_next_check (hosts s' h) = ev_run_time e))"
proof (cases "will_reschedule_host (hosts s h)")
  case False
  let ?s = "upd_host h (\<lambda>v. v\<lparr>h_should_be_scheduled := False\<rparr>) s"
  have "host_passes X h s ?s" by (rule upd_host_passes [OF ok]) (simp_all add: host_ties_def host_view_def)
  moreover have "host_machine (hosts ?s h) = (host_machine (hosts s h))\<lparr>m_scheduled := False\<rparr>"
    "host_machine (hosts s h) = (host_machine (hosts s h))\<lparr>m_scheduled := h_should_be_scheduled (hosts s h)\<rparr>" by (simp_all add: host_machine_def)
  moreover have "host_reschedule h t s = Some ?s \<or> host_reschedule h t s = Some s"
    using False by (auto simp: host_reschedule_def Let_def will_reschedule_host_def)
  ultimately show ?thesis using chk_core_host_passes(1) [OF ok refl, of h] False by metis
next
  case True
  define pt where "pt = (if clock s > t then clock s else t)"
  define nv where "nv = get_next_valid_time (clib s) (clock s) pt (h_check_period (hosts s h))"
  define s1 where "s1 = (if nv > pt then (case next_rand s of (r, s') \<Rightarrow> upd_host h (\<lambda>v. v\<lparr>h_next_check :=
       reschedule_within_timeperiod (clib s') r nv (h_check_period (hosts s h)) (host_check_window s' h)\<rparr>) s')
     else upd_host h (\<lambda>v. v\<lparr>h_next_check := nv\<rparr>) s)"
  have upd: "daemon_ok X (upd_host h (\<lambda>v. v\<lparr>h_next_check := n\<rparr>) u)" "chk_core (upd_host h (\<lambda>v. v\<lparr>h_next_check := n\<rparr>) u) = chk_core u"
    if "daemon_ok X u" for n u
    using holds_upd_host [where f = "\<lambda>v. v\<lparr>h_next_check := n\<rparr>" and h = h, OF that] by (simp_all add: host_ties_def holds_def chk_frame chk_core_defs)
  have r: "daemon_ok X (snd (next_rand s))" "chk_core (snd (next_rand s)) = chk_core s"
    using holds_fields(6) [OF ok] by (simp_all add: next_rand_def holds_def chk_frame)
  have s1: "daemon_ok X s1" "chk_core s1 = chk_core s"
    using upd [OF ok] upd [OF r(1)] r(2) by (cases "next_rand s"; simp add: s1_def)+
  have run: "host_reschedule h t s = schedule_host_check h (h_next_check (hosts s1 h)) CHECK_OPTION_NONE s1"
    using True by (auto simp: host_reschedule_def Let_def will_reschedule_host_def s1_def pt_def nv_def)
  have en: "h_checks_enabled (hosts s1 h)"
    using True host_viewD(4) [OF host_passesD(3) [OF chk_core_host_passes(1) [OF s1]]] by (simp add: will_reschedule_host_def)
  obtain s' e where s': "schedule_host_check h (h_next_check (hosts s1 h)) CHECK_OPTION_NONE s1 = Some s'"
      "scheduled X (Host_ref h) (h_next_check (hosts s1 h)) CHECK_OPTION_NONE s1 s' e" "h_next_check (hosts s' h) = ev_run_time e"
    using schedule_host_check_spec [OF daemon_okD(3) [OF s1(1)], of h CHECK_OPTION_NONE "h_next_check (hosts s1 h)"] en by auto
  with stays_schedule_host_check [OF s1(1), of h "h_next_check (hosts s1 h)" CHECK_OPTION_NONE]
  have "daemon_ok X s'" "chk_core s' = chk_core s" using s1(2) by auto
  from chk_core_host_passes [OF this, of h] have "host_passes X h s s'" "host_machine (hosts s' h) = (host_machine (hosts s h))\<lparr>m_scheduled := h_should_be_scheduled (hosts s h)\<rparr>"
    by (simp_all add: host_machine_def)
  with run s' show ?thesis by (auto simp: scheduled_def)
qed

definition positive :: "int \<Rightarrow> int" where
  "positive n = (if n = 0 then 1 else n)"

lemma host_notify_step:
  assumes ok: "daemon_ok X s"
  shows "\<exists>f' s'. host_notify h f s = Some (f', s') \<and> host_passes X h s s'
    \<and> host_machine (hosts s' h) = (host_machine (hosts s h))\<lparr>m_attempt := positive (h_current_attempt (hosts s h))\<rparr>
    \<and> turns f' = turns f \<and> pending_event d s' = pending_event d s \<and> h_next_check (hosts s' h) = h_next_check (hosts s h)"
proof -
  define s1 where "s1 = (if h_current_attempt (hosts s h) = int HOST_UP then upd_host h (\<lambda>v. v\<lparr>h_current_attempt := 1\<rparr>) s else s)"
  have "host_passes X h s (upd_host h (\<lambda>v. v\<lparr>h_current_attempt := 1\<rparr>) s)"
    by (rule upd_host_passes [OF ok]) (simp_all add: host_ties_def host_view_def)
  moreover have "holds X s (upd_host h (\<lambda>v. v\<lparr>h_current_attempt := 1\<rparr>) s)"
    using holds_upd_host [where f = "\<lambda>v. v\<lparr>h_current_attempt := 1\<rparr>" and h = h, OF ok] by (simp add: host_ties_def)
  ultimately have s1: "host_passes X h s s1" "pending_event d s1 = pending_event d s" "h_next_check (hosts s1 h) = h_next_check (hosts s h)"
    "host_machine (hosts s1 h) = (host_machine (hosts s h))\<lparr>m_attempt := positive (h_current_attempt (hosts s h))\<rparr>"
    using chk_core_host_passes(1) [OF ok refl, of h] by (auto simp: s1_def holds_def host_machine_def positive_def)
  note ok1 = host_passesD(1) [OF s1(1)]
  let ?v = "hosts s1 h"
  define ty where "ty = (if h_notified_on ?v \<noteq> 0 \<and> h_current_state ?v = HOST_UP \<and> h_state_type ?v = HARD_STATE then NOTIFICATION_RECOVERY else NOTIFICATION_NORMAL)"
  define f2 where "f2 = (if h_notified_on ?v \<noteq> 0 \<and> h_current_state ?v = HOST_UP \<and> h_state_type ?v = HARD_STATE then f\<lparr>send_notification := True\<rparr> else f)"
  have t: "turns f2 = turns f" by (simp add: f2_def turns_def)
  obtain r s2 where s2: "host_notification h ty NOTIFICATION_OPTION_NONE s1 = Some (r, s2)" "notif_core s2 = notif_core s1"
    using host_notification_total [OF daemon_okD(4) [OF ok1]] by blast
  note st = stays_notif [OF ok1 s2(2)]
  have nxt: "h_next_check (hosts s2 h) = h_next_check ?v"
    using arg_cong [OF notif_coreD(18) [OF s2(2), of h], of h_next_check] by (simp add: host_core_def)
  have pair: "(if h_notified_on ?v \<noteq> 0 \<and> h_current_state ?v = HOST_UP \<and> h_state_type ?v = HARD_STATE
      then (NOTIFICATION_RECOVERY, f\<lparr>send_notification := True\<rparr>) else (NOTIFICATION_NORMAL, f)) = (ty, f2)"
    by (simp add: ty_def f2_def)
  have run: "host_notify h f s = (if send_notification f2 then host_notification h ty NOTIFICATION_OPTION_NONE s1 \<bind>
      (\<lambda>(r, s). Some (if r = OK \<and> should_stalk_notifications (h_stalking_options (hosts s h)) then f2\<lparr>log_event := True\<rparr> else f2, s))
      else Some (f2, s1))"
    unfolding host_notify_def s1_def [symmetric] Let_def pair prod.case by (rule refl)
  show ?thesis
  proof (cases "send_notification f2")
    case True
    with run s2(1) t st nxt s1 stays_host_passes [OF st, of h] host_passes_trans [OF s1(1)] show ?thesis by (auto simp: stays_def turns_def)
  qed (use run t s1 in auto)
qed

lemma host_finish_step:
  assumes ok: "daemon_ok X s"
  shows "host_passes X h s (host_finish h f (host_report h old f' s))"
    "pending_event d (host_finish h f (host_report h old f' s)) = pending_event d s"
    "h_next_check (hosts (host_finish h f (host_report h old f' s)) h) = h_next_check (hosts s h)"
    "host_machine (hosts (host_finish h f (host_report h old f' s)) h) = (host_machine (hosts s h))\<lparr>m_last_hard := new_last_hard_state f\<rparr>"
proof -
  have "holds X s (host_finish h f (host_report h old f' s))"
    by (rule holds_frame [OF ok]) (simp_all add: host_finish_def host_report_def Let_def dt_keeps_def host_ties_def)
  then show "host_passes X h s (host_finish h f (host_report h old f' s))"
    "pending_event d (host_finish h f (host_report h old f' s)) = pending_event d s"
    by (auto simp: holds_def host_passes_def host_finish_def host_report_def Let_def host_ctx_def host_view_def cong: if_cong)
  show "h_next_check (hosts (host_finish h f (host_report h old f' s)) h) = h_next_check (hosts s h)"
    "host_machine (hosts (host_finish h f (host_report h old f' s)) h) = (host_machine (hosts s h))\<lparr>m_last_hard := new_last_hard_state f\<rparr>"
    by (simp_all add: host_finish_def host_report_def Let_def host_machine_def)
qed

section \<open>The result of a host check\<close>

text \<open>The state that a result stands for, before it is translated.\<close>

definition host_result_code :: "globals \<Rightarrow> bool \<Rightarrow> check_result \<Rightarrow> c_int" where
  "host_result_code g has_command cr =
    (let rc = (if cr_early_timeout cr \<or> \<not> cr_exited_ok cr \<or> cr_return_code cr < 0 \<or> cr_return_code cr > 3 then int HOST_UNREACHABLE
       else cr_return_code cr) in
     if cr_check_type cr \<noteq> CHECK_TYPE_ACTIVE then cr_return_code cr
     else if \<not> has_command \<or> \<not> use_aggressive_host_checking g \<and> rc = int STATE_WARNING then int HOST_UP
     else if rc \<noteq> int HOST_UP then int HOST_DOWN else rc)"

definition idle_host_update :: "(host \<Rightarrow> host) \<Rightarrow> bool" where
  "idle_host_update g \<longleftrightarrow> (\<forall>v. host_ties (g v) = host_ties v \<and> host_view (g v) = host_view v \<and> host_machine (g v) = host_machine v
     \<and> h_check_command (g v) = h_check_command v)"

lemma get_host_check_return_code_step:
  "\<exists>g. get_host_check_return_code h cr s = (host_result_code (globs s) (h_check_command (hosts s h) \<noteq> None) cr, upd_host h g s) \<and> idle_host_update g"
proof -
  have id: "upd_host h (\<lambda>v. v) s = s" by (simp add: upd_host_def)
  let ?P = "\<lambda>t. \<exists>g. t = upd_host h g s \<and> idle_host_update g"
  define out where "out = (\<lambda>v :: host. v\<lparr>h_plugin_output := Some ''(Host assumed to be UP)''\<rparr>)"
  have P: "?P s" "\<And>t. ?P (set_host_output h t s)"
  proof -
    show "?P s" using id by (intro exI [of _ "\<lambda>v. v"]) (simp add: idle_host_update_def)
    show "?P (set_host_output h t s)" for t unfolding set_host_output_def
      by (intro exI conjI, rule refl) (simp add: idle_host_update_def host_ties_def host_view_def host_machine_def)
  qed
  have up: "?P (upd_host h out t)" if t: "?P t" for t
  proof -
    obtain g where g: "t = upd_host h g s" "idle_host_update g" using t by blast
    have "upd_host h out t = upd_host h (\<lambda>v. out (g v)) s" unfolding g(1) by (simp add: upd_host_def)
    moreover have "idle_host_update (\<lambda>v. out (g v))" using g(2)
      by (simp add: idle_host_update_def out_def host_ties_def host_view_def host_machine_def)
    ultimately show ?thesis by blast
  qed
  define first where "first = (let rc = cr_return_code cr in
         if cr_early_timeout cr then
           (int HOST_UNREACHABLE, set_host_output h (''(Host check timed out after '' @ two_decimals (h_execution_time (hosts s h)) @ '' seconds)'') s)
         else if \<not> cr_exited_ok cr then (int HOST_UNREACHABLE, set_host_output h ''(Host check did not exit properly)'' s)
         else if rc = 126 then
           (int HOST_UNREACHABLE, set_host_output h ''(Return code of 126 is out of bounds. Check if plugin is executable)'' s)
         else if rc = 127 then
           (int HOST_UNREACHABLE, set_host_output h ''(Return code of 127 is out of bounds. Check if plugin exists)'' s)
         else if rc < 0 \<or> rc > 3 then
           (int HOST_UNREACHABLE, set_host_output h (''(Return code of '' @ signed_decimal rc @ '' for host ''
              @ quoted (h_name (hosts s h)) @ '' was out of bounds)'') s)
         else (rc, s))"
  have if_snd: "?P (snd (if b then x else y))" if "?P (snd x)" "?P (snd y)" for b and x y :: "c_int \<times> daemon"
    using that by simp
  have pair: "?P (snd (c, t))" if "?P t" for c :: c_int and t using that by simp
  have F: "?P (snd first)" unfolding first_def Let_def by (intro if_snd pair P)
  obtain rc t where rc: "first = (rc, t)" by fastforce
  obtain g where g: "t = upd_host h g s" "idle_host_update g" using F rc by auto
  have code: "rc = (if cr_early_timeout cr \<or> \<not> cr_exited_ok cr \<or> cr_return_code cr < 0 \<or> cr_return_code cr > 3 then int HOST_UNREACHABLE
       else cr_return_code cr)"
    using rc by (auto simp: first_def Let_def split: if_splits)
  have cmd: "h_check_command (hosts t h) = h_check_command (hosts s h)" and gl: "globs t = globs s" using g by (simp_all add: idle_host_update_def)
  have eq: "get_host_check_return_code h cr s = (if cr_check_type cr \<noteq> CHECK_TYPE_ACTIVE then (cr_return_code cr, s)
     else if h_check_command (hosts s h) = None then (int HOST_UP, upd_host h out t)
     else if \<not> use_aggressive_host_checking (globs s) \<and> rc = int STATE_WARNING then (int HOST_UP, t)
     else if rc \<noteq> int HOST_UP then (int HOST_DOWN, t) else (rc, t))"
    unfolding get_host_check_return_code_def Let_def rc [unfolded first_def Let_def] prod.case cmd gl out_def [symmetric] by (rule refl)
  have "?P (snd (get_host_check_return_code h cr s))"
    unfolding eq using g by (intro if_snd pair up P) blast+
  moreover have "fst (get_host_check_return_code h cr s) = host_result_code (globs s) (h_check_command (hosts s h) \<noteq> None) cr"
    unfolding eq host_result_code_def code [symmetric] Let_def by auto
  ultimately show ?thesis by (metis prod.collapse)
qed


lemma host_initial_step:
  assumes ok: "daemon_ok X s" and code: "a_state (host_result_code (globs s) (h_check_command (hosts s h) \<noteq> None) cr)"
  shows "\<exists>old s'. host_initial_handling h cr (host_fresh_check h cr (initialize_last_host_state_change_times h s)) = Some (old, s')
    \<and> daemon_ok X s' \<and> host_ctx h s' = host_ctx h s
    \<and> host_view (hosts s' h) = (nat (host_result_code (globs s) (h_check_command (hosts s h) \<noteq> None) cr), h_current_state (hosts s h),
        h_max_attempts (hosts s h), h_checks_enabled (hosts s h), h_check_interval (hosts s h), h_check_type (hosts s h), h_parent_hosts (hosts s h))
    \<and> host_machine (hosts s' h) = (host_machine (hosts s h))\<lparr>m_scheduled := cr_reschedule_check cr\<rparr>"
proof -
  let ?code = "host_result_code (globs s) (h_check_command (hosts s h) \<noteq> None) cr"
  let ?s1 = "initialize_last_host_state_change_times h s"
  have p1: "host_passes X h s ?s1" unfolding initialize_last_host_state_change_times_def
    by (rule upd_host_passes [OF ok]) (simp_all add: host_ties_def host_view_def)
  have c1: "host_machine (hosts ?s1 h) = host_machine (hosts s h)" "h_check_command (hosts ?s1 h) = h_check_command (hosts s h)"
    by (simp_all add: initialize_last_host_state_change_times_def host_machine_def)
  define t where "t = host_fresh_check h cr ?s1"
  have p2: "host_passes X h ?s1 t" "host_machine (hosts t h) = host_machine (hosts ?s1 h)" "h_check_command (hosts t h) = h_check_command (hosts ?s1 h)"
    using upd_host_passes [OF host_passesD(1) [OF p1], of "\<lambda>v. v\<lparr>h_is_being_freshened := False\<rparr>" h]
      chk_core_host_passes [OF host_passesD(1) [OF p1] refl, of h]
    by (simp_all add: t_def host_fresh_check_def host_ties_def host_view_def host_machine_def)
  note t = host_passesD [OF host_passes_trans [OF p1 p2(1)]]
  obtain short long perf where out: "parsed_output cr ''(No output returned from host check)'' = (short, long, perf)" by (metis prod_cases3)
  let ?f = "\<lambda>v. v\<lparr>h_plugin_output := short, h_long_plugin_output := long, h_perf_data := perf,
           h_latency := cr_latency cr, h_execution_time := calculate_check_result_execution_time cr,
           h_last_check := fst (cr_start_time cr), h_should_be_scheduled := cr_reschedule_check cr,
           h_last_state := h_current_state v\<rparr>"
  let ?s3 = "upd_host h ?f t"
  have h3: "daemon_ok X ?s3" using holds_upd_host [where f = ?f and h = h, OF t(1)] by (simp add: holds_def host_ties_def)
  from get_host_check_return_code_step [of h cr ?s3] obtain g where
    g: "get_host_check_return_code h cr ?s3 = (host_result_code (globs ?s3) (h_check_command (hosts ?s3 h) \<noteq> None) cr, upd_host h g ?s3)"
      "idle_host_update g" by blast
  have same: "globs ?s3 = globs s" "h_check_command (hosts ?s3 h) = h_check_command (hosts s h)"
    using host_ctxD(1) [OF t(2)] c1 p2(3) by simp_all
  let ?s4 = "upd_host h g ?s3"
  have h4: "daemon_ok X ?s4"
    using holds_upd_host [where f = g and h = h, OF h3] g(2) by (simp add: holds_def idle_host_update_def)
  let ?s5 = "upd_host h (\<lambda>v. v\<lparr>h_current_state := nat ?code\<rparr>) ?s4"
  have h5: "daemon_ok X ?s5"
    using holds_upd_host [where f = "\<lambda>v. v\<lparr>h_current_state := nat ?code\<rparr>" and h = h, OF h4]
    by (simp add: holds_def host_ties_def)
  have "host_initial_handling h cr t = Some (h_plugin_output (hosts t h), ?s5)"
    unfolding host_initial_handling_def Let_def out prod.case g(1) same using code by simp
  moreover have "host_ctx h ?s5 = host_ctx h s" using t(2) by (simp add: host_ctx_def cong: if_cong)
  moreover have "host_view (hosts ?s5 h) = (nat ?code, h_current_state (hosts s h), h_max_attempts (hosts s h),
        h_checks_enabled (hosts s h), h_check_interval (hosts s h), h_check_type (hosts s h), h_parent_hosts (hosts s h))"
  proof -
    have "host_view (g (?f (hosts t h))) = host_view (?f (hosts t h))" using g(2) by (simp add: idle_host_update_def)
    then show ?thesis using t(3) by (simp add: host_view_def)
  qed
  moreover have "host_machine (hosts ?s5 h) = (host_machine (hosts s h))\<lparr>m_scheduled := cr_reschedule_check cr\<rparr>"
  proof -
    have "host_machine (g (?f (hosts t h))) = host_machine (?f (hosts t h))" using g(2) by (simp add: idle_host_update_def)
    then show ?thesis using c1(1) p2(2) by (simp add: host_machine_def)
  qed
  ultimately show ?thesis using h5 unfolding t_def by blast
qed

section \<open>The machine of soft and hard states\<close>

definition host_soft_hard :: "host \<Rightarrow> soft_hard" where
  "host_soft_hard v = \<lparr>sh_state = h_current_state v, sh_type = h_state_type v, sh_attempt = h_current_attempt v,
     sh_last_hard = h_last_hard_state v, sh_host_problem = False\<rparr>"

text \<open>A host whose passive results are hard at once is never soft.  Elsewhere a soft recovery stays soft until the
  next result, and a hard problem has used up its attempts.\<close>

definition host_consistent :: "bool \<Rightarrow> int \<Rightarrow> soft_hard \<Rightarrow> bool" where
  "host_consistent sim max_attempts m \<longleftrightarrow> 1 \<le> sh_attempt m \<and> sh_attempt m \<le> max_attempts \<and> \<not> sh_host_problem m
    \<and> (sh_type m = HARD_STATE \<and> sh_last_hard m = sh_state m \<and> (sim \<or> sh_state m = HOST_UP \<or> sh_attempt m = max_attempts)
       \<or> \<not> sim \<and> sh_type m = SOFT_STATE \<and> sh_last_hard m = HOST_UP
          \<and> (if sh_state m = HOST_UP then sh_attempt m = 1 else sh_attempt m < max_attempts))"

definition next_host_state :: "bool \<Rightarrow> int \<Rightarrow> nat \<Rightarrow> soft_hard \<Rightarrow> soft_hard" where
  "next_host_state sim max_attempts st m =
    (let hard = (\<lambda>n. \<lparr>sh_state = st, sh_type = HARD_STATE, sh_attempt = n, sh_last_hard = st, sh_host_problem = False\<rparr>);
         soft = (\<lambda>n. \<lparr>sh_state = st, sh_type = SOFT_STATE, sh_attempt = n, sh_last_hard = HOST_UP, sh_host_problem = False\<rparr>);
         count = (\<lambda>n. if n < max_attempts then soft n else hard n) in
     if sim then hard (if st = sh_state m \<and> st \<noteq> HOST_UP then sh_attempt m else 1)
     else if st = HOST_UP then (if sh_state m \<noteq> HOST_UP \<and> sh_type m = SOFT_STATE then soft 1 else hard 1)
     else if sh_state m = HOST_UP then count 1
     else if sh_type m = SOFT_STATE then count (sh_attempt m + 1)
     else hard (sh_attempt m))"

text \<open>What the handler computes.\<close>

definition host_outcome :: "bool \<Rightarrow> int \<Rightarrow> nat \<Rightarrow> nat \<Rightarrow> machine \<Rightarrow> nat \<times> int \<times> nat \<times> bool" where
  "host_outcome sim max_attempts st old m =
    (let lh = m_last_hard m; recovers = (old \<noteq> HOST_UP \<and> st = HOST_UP \<and> m_type m = HARD_STATE);
         type1 = (if old = HOST_UP then (if st = HOST_UP then HARD_STATE else SOFT_STATE) else m_type m);
         attempt1 = (if old = HOST_UP \<or> recovers then 1 else m_attempt m);
         changed = (st \<noteq> old \<or> st = HOST_UP \<and> type1 = SOFT_STATE);
         attempt2 = host_attempt_after max_attempts st old type1 changed attempt1;
         hard2 = (recovers \<or> attempt2 \<ge> max_attempts \<and> st \<noteq> lh);
         hard = (hard2 \<or> sim \<and> changed)
     in (type_after sim changed hard type1, if sim \<and> changed then 1 else attempt2, if hard \<and> lh \<noteq> st then st else lh, changed \<or> hard))"

lemma host_outcome_next_state:
  assumes "host_consistent sim max_attempts m"
    "host_outcome sim max_attempts st (sh_state m) \<lparr>m_type = sh_type m, m_attempt = sh_attempt m, m_last_hard = sh_last_hard m,
       m_host_problem = False, m_scheduled = b\<rparr> = (t', a', l', ch)"
  shows "next_host_state sim max_attempts st m = \<lparr>sh_state = st, sh_type = t', sh_attempt = a', sh_last_hard = l', sh_host_problem = False\<rparr>
    \<and> host_consistent sim max_attempts (next_host_state sim max_attempts st m) \<and> 1 \<le> a' \<and> (st \<noteq> sh_state m \<longrightarrow> ch)"
proof -
  note run = assms(2) and c = assms(1) [unfolded host_consistent_def]
  have ty: "sh_type m = HARD_STATE \<or> \<not> sim \<and> sh_type m = SOFT_STATE" using c by argo
  note defs = host_outcome_def next_host_state_def host_consistent_def host_attempt_after_def type_after_def Let_def
  consider (sim) "sim" "sh_type m = HARD_STATE" | (up_up) "\<not> sim" "st = HOST_UP" "sh_state m = HOST_UP"
    | (recovery) "\<not> sim" "st = HOST_UP" "sh_state m \<noteq> HOST_UP" | (fresh) "\<not> sim" "st \<noteq> HOST_UP" "sh_state m = HOST_UP"
    | (soft) "\<not> sim" "st \<noteq> HOST_UP" "sh_state m \<noteq> HOST_UP" "sh_type m = SOFT_STATE"
    | (hard) "\<not> sim" "st \<noteq> HOST_UP" "sh_state m \<noteq> HOST_UP" "sh_type m = HARD_STATE" using ty by metis
  then show ?thesis
  proof cases
    case sim
    with c have "sh_last_hard m = sh_state m" by simp
    with sim run c show ?thesis by (cases "st = sh_state m"; cases "sh_state m = HOST_UP") (auto simp: defs)
  next
    case up_up
    with c have "sh_last_hard m = HOST_UP" by auto
    with up_up run c show ?thesis by (auto simp: defs)
  next
    case recovery
    with run c show ?thesis by (cases "sh_type m = HARD_STATE") (auto simp: defs)
  next
    case fresh
    with c have "sh_last_hard m = HOST_UP" by auto
    with fresh run c show ?thesis by (auto simp: defs)
  next
    case soft
    with c have "sh_last_hard m = HOST_UP" "sh_attempt m < max_attempts" by auto
    with soft run c show ?thesis by (auto simp: defs split: if_splits)
  next
    case hard
    with c have "sh_last_hard m = sh_state m" "sh_attempt m = max_attempts" by auto
    with hard run c show ?thesis by (cases "st = sh_state m") (auto simp: defs)
  qed
qed


section \<open>The handler\<close>

lemma process_host_result_step:
  fixes s h cr X
  defines "code \<equiv> host_result_code (globs s) (h_check_command (hosts s h) \<noteq> None) cr" and "v \<equiv> hosts s h"
  defines "st \<equiv> translated s h (h_check_type (hosts s h)) (nat code)" and "sim \<equiv> simulated s (h_check_type (hosts s h))"
  assumes ok: "daemon_ok X s" and code: "a_state code"
  shows "\<exists>s' ty a lh ch. process_host_result h cr (h_last_hard_state v) s = Some s' \<and> daemon_ok X s' \<and> host_ctx h s' = host_ctx h s
    \<and> host_view (hosts s' h) = (st, h_current_state v, h_max_attempts v, h_checks_enabled v, h_check_interval v, h_check_type v, h_parent_hosts v)
    \<and> host_outcome sim (h_max_attempts v) st (h_current_state v) (host_machine v) = (ty, a, lh, ch)
    \<and> h_state_type (hosts s' h) = ty \<and> h_current_attempt (hosts s' h) = positive a \<and> h_last_hard_state (hosts s' h) = lh
    \<and> (h_checks_enabled v \<and> (cr_reschedule_check cr \<or> ch) \<and> h_check_interval v \<noteq> 0 \<longrightarrow>
        (\<exists>e. pending_event (Host_ref h) s' = Some e \<and> h_next_check (hosts s' h) = ev_run_time e))"
proof -
  let ?old = "h_current_state v" and ?max = "h_max_attempts v" and ?lh = "h_last_hard_state v"
  let ?rest = "(?old, ?max, h_checks_enabled v, h_check_interval v, h_check_type v, h_parent_hosts v)"
  from host_initial_step [OF ok, of h cr, folded code_def v_def, OF code] obtain old s1 where
    s1: "host_initial_handling h cr (host_fresh_check h cr (initialize_last_host_state_change_times h s)) = Some (old, s1)"
      "daemon_ok X s1" "host_ctx h s1 = host_ctx h s" "host_view (hosts s1 h) = (nat code, ?rest)"
      "host_machine (hosts s1 h) = (host_machine v)\<lparr>m_scheduled := cr_reschedule_check cr\<rparr>" unfolding v_def by blast
  define f0 where "f0 = \<lparr>next_check_time = time_plus s1 (h_last_check (hosts s1 h)) (h_check_interval (hosts s1 h)), state_change = False,
       hard_state_change = False, send_notification = False, handle_event = False, log_event = False, new_last_hard_state = ?lh\<rparr>"
  have view1: "h_current_state (hosts t h) = nat code" "h_last_state (hosts t h) = ?old" "h_check_type (hosts t h) = h_check_type v"
    "h_parent_hosts (hosts t h) = h_parent_hosts v" if "host_view (hosts t h) = host_view (hosts s1 h)" for t
    using that s1(4) by (simp_all add: host_view_def)
  have up: "(nat code = HOST_UP) = (st = HOST_UP)" unfolding st_def by simp
  have m1: "host_machine (hosts s1 h) = \<lparr>m_type = h_state_type v, m_attempt = h_current_attempt v, m_last_hard = ?lh, m_host_problem = False,
     m_scheduled = cr_reschedule_check cr\<rparr>" using s1(5) by (simp add: host_machine_def)
  note n1 = host_machineD [OF m1]
  define recovers where "recovers = (?old \<noteq> HOST_UP \<and> st = HOST_UP \<and> h_state_type v = HARD_STATE)"
  define type1 where "type1 = (if ?old = HOST_UP then (if st = HOST_UP then HARD_STATE else SOFT_STATE) else h_state_type v)"
  define attempt1 where "attempt1 = (if ?old = HOST_UP \<or> recovers then 1 else h_current_attempt v)"
  obtain f2 s2 where s2: "(if h_last_state (hosts s1 h) = HOST_UP then host_was_up h f0 s1 else host_was_down h f0 s1) = Some (f2, s2)"
      "host_passes X h s1 s2" "\<not> state_change f2" "hard_state_change f2 = recovers" "new_last_hard_state f2 = ?lh"
      "host_machine (hosts s2 h) = \<lparr>m_type = type1, m_attempt = attempt1, m_last_hard = ?lh, m_host_problem = False, m_scheduled = cr_reschedule_check cr\<rparr>"
  proof (cases "?old = HOST_UP")
    case True
    with host_was_up_step [OF s1(2), of h f0] that show ?thesis
      unfolding view1 [OF refl] m1 up by (auto simp: turns_def f0_def recovers_def type1_def attempt1_def)
  next
    case False
    with host_was_down_step [OF s1(2), of h f0] that show ?thesis
      unfolding view1 [OF refl] m1 n1 up Let_def by (auto simp: f0_def recovers_def type1_def attempt1_def)
  qed
  note p2 = host_passesD [OF s2(2)]
  have tr: "translated s2 h (h_check_type (hosts s2 h)) (nat code) = st"
    unfolding st_def v_def [symmetric] view1(3) [OF p2(3)]
    by (rule translated_frame) (use p2(2) s1(3) view1(4) [OF p2(3)] in \<open>simp_all add: v_def\<close>)
  have v2: "host_view (hosts s2 h) = (nat code, ?rest)" using p2(3) s1(4) by simp
  from host_translate_state_step [OF p2(1), of h f2] obtain f3 s3 where
    s3: "host_translate_state h f2 s2 = (f3, s3)" "daemon_ok X s3" "host_ctx h s3 = host_ctx h s2" "turns f3 = turns f2"
      "host_view (hosts s3 h) = (st, ?rest)" "host_machine (hosts s3 h) = host_machine (hosts s2 h)"
    unfolding v2 Let_def prod.case tr by blast
  note t3 = turnsD [OF s3(4)] and n3 = host_machineD [OF trans [OF s3(6) s2(6)]]
  have ctx3: "host_ctx h s3 = host_ctx h s" using s3(3) p2(2) s1(3) by simp
  have view: "h_current_state (hosts t h) = st" "h_last_state (hosts t h) = ?old" "h_max_attempts (hosts t h) = ?max"
    "h_check_type (hosts t h) = h_check_type v" "h_checks_enabled (hosts t h) = h_checks_enabled v"
    "h_check_interval (hosts t h) = h_check_interval v" if "host_view (hosts t h) = host_view (hosts s3 h)" for t
    using that s3(5) by (simp_all add: host_view_def)
  define changed where "changed = (st \<noteq> ?old \<or> st = HOST_UP \<and> type1 = SOFT_STATE)"
  define attempt2 where "attempt2 = host_attempt_after ?max st ?old type1 changed attempt1"
  define hard2 where "hard2 = (recovers \<or> attempt2 \<ge> ?max \<and> st \<noteq> ?lh)"
  have sc2: "state_change f2 = False" and F: "(False \<or> P) = P" for P using s2(3) by simp_all
  from host_adjust_attempt_step [OF s3(2), of h f3] obtain f4 s4 where
    s4: "host_adjust_attempt h f3 s3 = (f4, s4)" "host_passes X h s3 s4" "new_last_hard_state f4 = ?lh" "state_change f4 = changed"
      "hard_state_change f4 = hard2"
      "host_machine (hosts s4 h) = \<lparr>m_type = type1, m_attempt = attempt2, m_last_hard = ?lh, m_host_problem = False, m_scheduled = cr_reschedule_check cr\<rparr>"
    unfolding view [OF refl] n3 t3 sc2 s2(4-6) Let_def s3(6) F changed_def [symmetric] attempt2_def [symmetric] hard2_def [symmetric] by auto
  note p4 = host_passesD [OF s4(2)] and v4 = view [OF host_passesD(3) [OF s4(2)]] and n4 = host_machineD [OF s4(6)]
  have sim4: "simulated s4 (h_check_type v) = sim"
    using host_ctxD(1) [OF trans [OF p4(2) ctx3]] by (simp add: sim_def simulated_def v_def)
  define hard where "hard = (hard2 \<or> sim \<and> changed)"
  define type5 where "type5 = type_after sim changed hard type1"
  define attempt5 where "attempt5 = (if sim \<and> changed then 1 else attempt2)"
  define lh5 where "lh5 = (if hard \<and> ?lh \<noteq> st then st else ?lh)"
  from host_change_type_step [OF p4(1), of h f4] obtain f5 s5 where
    s5: "host_change_type h f4 s4 = Some (f5, s5)" "host_passes X h s4 s5" "new_last_hard_state f5 = lh5"
      "host_machine (hosts s5 h) = \<lparr>m_type = type5, m_attempt = attempt5, m_last_hard = ?lh, m_host_problem = False,
         m_scheduled = cr_reschedule_check cr \<or> changed \<or> hard\<rparr>"
    unfolding v4 n4 s4 sim4 hard_def [symmetric] type5_def [symmetric] attempt5_def [symmetric] lh5_def [symmetric] by auto
  have hm: "host_machine v = \<lparr>m_type = h_state_type v, m_attempt = h_current_attempt v, m_last_hard = ?lh, m_host_problem = False,
      m_scheduled = h_should_be_scheduled v\<rparr>" by (simp add: host_machine_def)
  have ho: "host_outcome sim ?max st ?old (host_machine v) = (type5, attempt5, lh5, changed \<or> hard)"
    unfolding hm host_outcome_def Let_def machine.simps recovers_def [symmetric] type1_def [symmetric] attempt1_def [symmetric] changed_def [symmetric]
      attempt2_def [symmetric] hard2_def [symmetric] hard_def [symmetric] type5_def [symmetric] attempt5_def [symmetric] lh5_def [symmetric] by (rule refl)
  from stays_host_flapping [OF host_passesD(1) [OF s5(2)], of h True True True] obtain s6 where
    s6: "check_for_host_flapping h True True True s5 = Some s6" "stays X s5 s6" by blast
  note p6 = stays_host_passes [OF s6(2), of h]
  from host_reschedule_step [OF host_passesD(1) [OF p6(1)], of h "next_check_time f5"] obtain s7 b7 where
    s7: "host_reschedule h (next_check_time f5) s6 = Some s7" "host_passes X h s6 s7"
      "host_machine (hosts s7 h) = (host_machine (hosts s6 h))\<lparr>m_scheduled := b7\<rparr>"
      "will_reschedule_host (hosts s6 h) \<longrightarrow> (\<exists>e. pending_event (Host_ref h) s7 = Some e \<and> h_next_check (hosts s7 h) = ev_run_time e)" by blast
  have m7: "host_machine (hosts s7 h) = \<lparr>m_type = type5, m_attempt = attempt5, m_last_hard = ?lh, m_host_problem = False, m_scheduled = b7\<rparr>"
    using s7(3) p6(2) s5(4) by simp
  from host_notify_step [OF host_passesD(1) [OF s7(2)], of h f5 "Host_ref h"] obtain f8 s8 where
    s8: "host_notify h f5 s7 = Some (f8, s8)" "host_passes X h s7 s8" "host_machine (hosts s8 h) = (host_machine (hosts s7 h))\<lparr>m_attempt := positive (h_current_attempt (hosts s7 h))\<rparr>"
      "turns f8 = turns f5" "pending_event (Host_ref h) s8 = pending_event (Host_ref h) s7" "h_next_check (hosts s8 h) = h_next_check (hosts s7 h)" by blast
  let ?s = "host_finish h f8 (host_report h old f8 s8)"
  note fin = host_finish_step [OF host_passesD(1) [OF s8(2)], where h = h and f = f8 and old = old and f' = f8]
  have run: "process_host_result h cr ?lh s = Some ?s"
    unfolding process_host_result_def s1(1) Let_def Option.bind.bind_lunit prod.case f0_def [symmetric] s2(1) s3(1) s4(1) s5(1) s6(1) s7(1) s8(1) by simp
  have p: "host_passes X h s3 ?s" using s4(2) s5(2) p6(1) s7(2) s8(2) fin(1) host_passes_trans by blast
  have v: "host_view (hosts ?s h) = (st, ?rest)" using host_passesD(3) [OF p] s3(5) by simp
  have m: "host_machine (hosts ?s h) = \<lparr>m_type = type5, m_attempt = positive attempt5, m_last_hard = lh5, m_host_problem = False, m_scheduled = b7\<rparr>"
    using turnsD(3) [OF s8(4)] s5(3) s8(3) m7 host_machineD(2) [OF m7] unfolding fin(4) by simp
  have pend: "\<exists>e. pending_event (Host_ref h) ?s = Some e \<and> h_next_check (hosts ?s h) = ev_run_time e"
    if "h_checks_enabled v" "cr_reschedule_check cr \<or> changed \<or> hard" "h_check_interval v \<noteq> 0"
  proof -
    have "host_passes X h s3 s6" using s4(2) s5(2) p6(1) host_passes_trans by blast
    note v6 = view [OF host_passesD(3) [OF this]] and n6 = host_machineD [OF trans [OF p6(2) s5(4)]]
    have "will_reschedule_host (hosts s6 h)" using that n6 v6 by (auto simp: will_reschedule_host_def)
    with s7(4) show ?thesis unfolding fin(2,3) s8(5,6) by blast
  qed
  show ?thesis
    using run host_passesD(1,2) [OF p] ctx3 v ho host_machineD [OF m] pend
    by (intro exI [of _ ?s] exI [of _ type5] exI [of _ attempt5] exI [of _ lh5] exI [of _ "changed \<or> hard"]) simp
qed


definition host_accepts :: "nat \<Rightarrow> check_result \<Rightarrow> daemon \<Rightarrow> bool" where
  "host_accepts h cr s \<longleftrightarrow> (cr_check_type cr = CHECK_TYPE_PASSIVE \<longrightarrow> accept_passive_host_checks (globs s) \<and> h_accept_passive_checks (hosts s h))"

text \<open>The kind of check that the handler notes in the host.\<close>

definition noted_type :: "check_result \<Rightarrow> nat" where
  "noted_type cr = (if cr_check_type cr = CHECK_TYPE_PASSIVE then CHECK_TYPE_PASSIVE else CHECK_TYPE_ACTIVE)"

lemma host_entry_step:
  assumes ok: "daemon_ok X s" and acc: "host_accepts h cr s"
  shows "\<exists>s'. (if cr_check_type cr = CHECK_TYPE_PASSIVE then host_is_passive h s else (True, host_is_active h s)) = (True, s')
    \<and> daemon_ok X s' \<and> host_ctx h s' = host_ctx h s \<and> host_machine (hosts s' h) = host_machine (hosts s h)
    \<and> h_check_command (hosts s' h) = h_check_command (hosts s h)
    \<and> host_view (hosts s' h) = (h_current_state (hosts s h), h_last_state (hosts s h), h_max_attempts (hosts s h), h_checks_enabled (hosts s h),
        h_check_interval (hosts s h), noted_type cr, h_parent_hosts (hosts s h))"
proof -
  have "holds X s (host_is_active h s)"
    by (rule holds_frame [OF ok]) (simp_all add: host_is_active_def dt_keeps_def host_ties_def)
  then have "daemon_ok X (host_is_active h s)" by (simp add: holds_def)
  moreover have "daemon_ok X (upd_host h (\<lambda>v. v\<lparr>h_check_type := CHECK_TYPE_PASSIVE\<rparr>) s)"
    using holds_upd_host [where f = "\<lambda>v. v\<lparr>h_check_type := CHECK_TYPE_PASSIVE\<rparr>" and h = h, OF ok] by (simp add: holds_def host_ties_def)
  ultimately show ?thesis using acc
    by (auto simp: host_accepts_def host_is_passive_def host_is_active_def host_ctx_def host_view_def host_machine_def noted_type_def cong: if_cong)
qed

lemma handle_host_result_spec:
  fixes s h cr X
  defines "code \<equiv> host_result_code (globs s) (h_check_command (hosts s h) \<noteq> None) cr" and "v \<equiv> hosts s h"
  defines "st \<equiv> translated s h (noted_type cr) (nat code)" and "sim \<equiv> simulated s (noted_type cr)"
  assumes ok: "daemon_ok X s" and code: "a_state code" and acc: "host_accepts h cr s"
  shows "\<exists>s'. handle_async_host_check_result h cr s = Some (OK, s') \<and> daemon_ok X s' \<and> host_ctx h s' = host_ctx h s
    \<and> h_current_state (hosts s' h) = st \<and> h_max_attempts (hosts s' h) = h_max_attempts v
    \<and> (host_consistent sim (h_max_attempts v) (host_soft_hard v) \<longrightarrow>
        host_soft_hard (hosts s' h) = next_host_state sim (h_max_attempts v) st (host_soft_hard v)
        \<and> host_consistent sim (h_max_attempts v) (host_soft_hard (hosts s' h))
        \<and> (h_checks_enabled v \<and> (cr_reschedule_check cr \<or> st \<noteq> h_current_state v) \<and> h_check_interval v \<noteq> 0 \<longrightarrow>
            (\<exists>e. pending_event (Host_ref h) s' = Some e \<and> h_next_check (hosts s' h) = ev_run_time e)))"
proof -
  from host_entry_step [OF ok acc] obtain s1 where
    s1: "(if cr_check_type cr = CHECK_TYPE_PASSIVE then host_is_passive h s else (True, host_is_active h s)) = (True, s1)"
      "daemon_ok X s1" "host_ctx h s1 = host_ctx h s" "host_machine (hosts s1 h) = host_machine v"
      "h_check_command (hosts s1 h) = h_check_command v"
      "host_view (hosts s1 h) = (h_current_state v, h_last_state v, h_max_attempts v, h_checks_enabled v,
        h_check_interval v, noted_type cr, h_parent_hosts v)" unfolding v_def by blast
  have view: "h_current_state (hosts s1 h) = h_current_state v" "h_max_attempts (hosts s1 h) = h_max_attempts v"
    "h_checks_enabled (hosts s1 h) = h_checks_enabled v" "h_check_interval (hosts s1 h) = h_check_interval v"
    "h_check_type (hosts s1 h) = noted_type cr" "h_parent_hosts (hosts s1 h) = h_parent_hosts (hosts s h)"
    using s1(6) by (simp_all add: host_view_def v_def)
  have lh: "h_last_hard_state (hosts s1 h) = h_last_hard_state v" using s1(4) by (simp add: host_machine_def)
  have g: "globs s1 = globs s" "simulated s1 (noted_type cr) = sim" using host_ctxD(1) [OF s1(3)] by (simp_all add: sim_def simulated_def)
  have tr: "translated s1 h (noted_type cr) (nat code) = st" unfolding st_def by (rule translated_frame [OF s1(3) view(6)])
  have cd: "host_result_code (globs s) (h_check_command v \<noteq> None) cr = code" by (simp add: code_def v_def)
  from process_host_result_step [OF s1(2), of h cr, unfolded g(1) view s1(5) cd, unfolded g(2) tr, OF code]
  obtain s' ty a lh ch where s': "process_host_result h cr (h_last_hard_state v) s1 = Some s'" "daemon_ok X s'" "host_ctx h s' = host_ctx h s1"
      "host_view (hosts s' h) = (st, h_current_state v, h_max_attempts v, h_checks_enabled v, h_check_interval v, noted_type cr, h_parent_hosts (hosts s h))"
      "host_outcome sim (h_max_attempts v) st (h_current_state v) (host_machine v) = (ty, a, lh, ch)"
      "h_state_type (hosts s' h) = ty" "h_current_attempt (hosts s' h) = positive a" "h_last_hard_state (hosts s' h) = lh"
      "h_checks_enabled v \<and> (cr_reschedule_check cr \<or> ch) \<and> h_check_interval v \<noteq> 0 \<longrightarrow>
        (\<exists>e. pending_event (Host_ref h) s' = Some e \<and> h_next_check (hosts s' h) = ev_run_time e)"
    unfolding lh s1(4) by blast
  have run: "handle_async_host_check_result h cr s = Some (OK, s')"
    using s1(1) s'(1) by (simp add: handle_async_host_check_result_def v_def)
  have st: "h_current_state (hosts s' h) = st" "h_max_attempts (hosts s' h) = h_max_attempts v" using s'(4) by (simp_all add: host_view_def)
  have sh: "sh_state (host_soft_hard v) = h_current_state v" "sh_type (host_soft_hard v) = h_state_type v" "sh_attempt (host_soft_hard v) = h_current_attempt v"
    "sh_last_hard (host_soft_hard v) = h_last_hard_state v" by (simp_all add: host_soft_hard_def)
  have hm: "host_machine v = \<lparr>m_type = h_state_type v, m_attempt = h_current_attempt v, m_last_hard = h_last_hard_state v, m_host_problem = False,
      m_scheduled = h_should_be_scheduled v\<rparr>" by (simp add: host_machine_def)
  have "host_soft_hard (hosts s' h) = next_host_state sim (h_max_attempts v) st (host_soft_hard v)
        \<and> host_consistent sim (h_max_attempts v) (next_host_state sim (h_max_attempts v) st (host_soft_hard v)) \<and> (st \<noteq> h_current_state v \<longrightarrow> ch)"
    if con: "host_consistent sim (h_max_attempts v) (host_soft_hard v)"
  proof -
    note nxt = host_outcome_next_state [OF con, of st "h_should_be_scheduled v" ty a lh ch, unfolded sh, folded hm, OF s'(5)]
    then have "positive a = a" by (simp add: positive_def)
    then have "host_soft_hard (hosts s' h) = next_host_state sim (h_max_attempts v) st (host_soft_hard v)"
      using nxt s'(6-8) st by (simp add: host_soft_hard_def)
    with nxt show ?thesis by blast
  qed
  with run s'(2,3,9) s1(3) st show ?thesis by auto
qed

section \<open>Property\<close>

text \<open>C6. The result of a host check, active or passive, moves the host as the machine of soft and hard host states
  says, after DOWN and UNREACHABLE were told apart by the states of the parents: UP is hard unless it ends a soft
  problem, a problem is soft until \<open>max_attempts\<close> results have shown it, and a passive result is hard at once unless
  configured otherwise.  The handler returns, keeps the invariants, and a host that is checked stays scheduled.\<close>

theorem host_result_refines:
  assumes "daemon_ok X s" "host_accepts h cr s"
    and "a_state (host_result_code (globs s) (h_check_command (hosts s h) \<noteq> None) cr)"
    and "host_consistent (simulated s (noted_type cr)) (h_max_attempts (hosts s h)) (host_soft_hard (hosts s h))"
  shows "\<exists>s'. handle_async_host_check_result h cr s = Some (OK, s') \<and> daemon_ok X s'
    \<and> (let sim = simulated s (noted_type cr);
           st = translated s h (noted_type cr) (nat (host_result_code (globs s) (h_check_command (hosts s h) \<noteq> None) cr)) in
        host_soft_hard (hosts s' h) = next_host_state sim (h_max_attempts (hosts s h)) st (host_soft_hard (hosts s h))
        \<and> host_consistent sim (h_max_attempts (hosts s' h)) (host_soft_hard (hosts s' h))
        \<and> (h_checks_enabled (hosts s h) \<and> h_check_interval (hosts s h) \<noteq> 0 \<and> (cr_reschedule_check cr \<or> st \<noteq> h_current_state (hosts s h))
           \<longrightarrow> (\<exists>e. pending_event (Host_ref h) s' = Some e \<and> h_next_check (hosts s' h) = ev_run_time e)))"
  using handle_host_result_spec [OF assms(1,3,2)] assms(4) by (auto simp: Let_def)

text \<open>A host with two attempts whose parent, host 1, is up.\<close>

definition watched_host :: daemon where
  "watched_host = watched\<lparr>hosts := (\<lambda>h. blank_host\<lparr>h_check_command := Some ''ping'', h_max_attempts := 2, h_current_attempt := 1,
     h_state_type := HARD_STATE, h_parent_hosts := (if h = 0 then [1] else [])\<rparr>)\<rparr>"

lemma watched_host_ok: "daemon_ok {} watched_host"
proof -
  have "holds {} watched watched_host"
    by (rule holds_frame [OF watched_ok])
      (simp_all add: watched_host_def watched_def blank_daemon_def blank_host_def dt_keeps_def host_ties_def svc_ties_def)
  then show ?thesis by (simp add: holds_def)
qed

theorem host_result_refines_witness:
  "\<exists>s'. handle_async_host_check_result 0 critical_result watched_host = Some (OK, s')
    \<and> host_soft_hard (hosts s' 0) = \<lparr>sh_state = HOST_DOWN, sh_type = SOFT_STATE, sh_attempt = 1, sh_last_hard = HOST_UP, sh_host_problem = False\<rparr>"
proof -
  have f: "host_accepts 0 critical_result watched_host" "noted_type critical_result = 0"
    "host_result_code (globs watched_host) (h_check_command (hosts watched_host 0) \<noteq> None) critical_result = 1"
    "h_max_attempts (hosts watched_host 0) = 2"
    "host_soft_hard (hosts watched_host 0) = \<lparr>sh_state = 0, sh_type = 1, sh_attempt = 1, sh_last_hard = 0, sh_host_problem = False\<rparr>"
    by (simp_all add: host_accepts_def noted_type_def critical_result_def new_check_result_def watched_host_def watched_def blank_daemon_def
      blank_host_def host_soft_hard_def host_result_code_def)
  have g: "simulated watched_host 0 = False" "a_state 1" by (simp_all add: simulated_def a_state_def)
  have t: "translated watched_host 0 0 1 = 1"
    by (simp add: translated_def watched_host_def blank_host_def)
  have "host_consistent False 2 \<lparr>sh_state = 0, sh_type = 1, sh_attempt = 1, sh_last_hard = 0, sh_host_problem = False\<rparr>"
    by (simp add: host_consistent_def)
  from host_result_refines [OF watched_host_ok f(1), unfolded f g, OF g(2) this] t show ?thesis
    by (auto simp: Let_def next_host_state_def)
qed

end
