(* ===== verification/DowntimeFrames.thy ===== *)
theory DowntimeFrames
  imports CheckFrames DowntimeRuns
begin

text \<open>
  The operations on downtimes keep the invariant of the whole daemon: besides downtimes and their depths
  (theory DowntimeRuns) also the pending checks, flap detection and the links between objects.
\<close>

section \<open>Mild steps\<close>

text \<open>The events in \<open>X\<close>, those that are being run, stay as they are.\<close>

definition mild :: "nat set \<Rightarrow> daemon \<Rightarrow> daemon \<Rightarrow> bool" where
  "mild X s s' \<longleftrightarrow> links s' = links s \<and> pointers s' = pointers s \<and> rings s' = rings s
    \<and> (sched_ok X s \<longrightarrow> dt_events_ok s \<longrightarrow> sched_ok X s' \<and> dt_events_ok s')
    \<and> next_comment_id (comments s) \<le> next_comment_id (comments s')
    \<and> next_event_handle s \<le> next_event_handle s'
    \<and> (\<forall>k \<in> X. k < next_event_handle s \<longrightarrow> map_of (event_queue s') k = map_of (event_queue s) k)"

lemma mild_refl [simp]: "mild X s s"
  by (simp add: mild_def)

lemma mild_trans: "mild X s s' \<Longrightarrow> mild X s' s'' \<Longrightarrow> mild X s s''"
  unfolding mild_def by auto

lemma mild_ok:
  assumes "daemon_ok X s" "mild X s s'" "dt_inv {} s'"
  shows "daemon_ok X s'"
proof -
  have "acyclic_links s'" using acyclic_links_frame [of s' s] assms(1,2) by (simp add: mild_def daemon_okD)
  moreover have "comments_ok (comments s')"
    using assms daemon_okD(2) [OF assms(1)] dt_invD(2) [OF assms(3)] by (auto simp: mild_def comments_ok_def flap_ready_def)
  ultimately have "flap_ready s'" using assms(2) daemon_okD(2) [OF assms(1)] by (simp add: flap_ready_def mild_def)
  moreover have "linked s'" using assms(2) linked_frame daemon_okD(5) [OF assms(1)] by (simp add: mild_def)
  moreover have "sched_ok X s'" "dt_events_ok s'"
    using assms(2) daemon_okD(3,6) [OF assms(1)] unfolding mild_def by blast+
  ultimately show ?thesis using assms(3) by (simp add: daemon_ok_def)
qed

lemma calm_mild:
  assumes "calm s s'" "next_comment_id (comments s) \<le> next_comment_id (comments s')"
  shows "mild X s s'"
proof -
  have core: "chk_core s' = chk_core s" using assms(1) by (simp add: calm_def)
  show ?thesis unfolding mild_def
    using chk_core_links [OF core] chk_core_pointers [OF core] assms by (auto simp: calm_def keeps_dt_events_def adds_events_def)
qed

lemma mild_frame:
  assumes "hosts s' = hosts s" "svcs s' = svcs s" "event_queue s' = event_queue s" "next_event_handle s' = next_event_handle s"
    "next_comment_id (comments s) \<le> next_comment_id (comments s')" "dt_handles s' \<subseteq> dt_handles s" "globs s' = globs s"
  shows "mild X s s'"
proof -
  have pend: "pending d s' = pending d s" for d by (rule pending_cong [OF assms(1,2)])
  have "dt_events_ok s \<Longrightarrow> dt_events_ok s'" using assms(4,6) by (auto simp: dt_events_ok_def pend)
  moreover have "sched_ok X s' = sched_ok X s" for X by (rule sched_ok_frame [OF assms(3,4) pend])
  ultimately show ?thesis using assms(1-5,7) by (simp add: mild_def links_def pointers_def rings_def)
qed

lemma mild_notify_target:
  assumes "notify_target t ty s = Some s'"
  shows "mild X s s'" "dt_heap s' = dt_heap s"
proof -
  from assms have "notif_core s' = notif_core s"
    by (cases t) (auto dest: service_notification_frame host_notification_frame)
  note same = this
  show "mild X s s'" by (rule calm_mild [OF calm_notif [OF same]]) (simp add: notif_coreD(8) [OF same])
  show "dt_heap s' = dt_heap s" by (rule flap_core_heap [OF flap_core_notif [OF same]])
qed

lemma mild_set_depth: "mild X s (set_depth t n s)" "dt_heap (set_depth t n s) = dt_heap s"
proof -
  have "comments (set_depth t n s) = comments s" by (cases t) simp_all
  then show "mild X s (set_depth t n s)" by (intro calm_mild [OF calm_set_depth]) simp
  show "dt_heap (set_depth t n s) = dt_heap s" by (cases t) simp_all
qed

lemma mild_set_pending: "mild X s (set_pending t n s)" "dt_heap (set_pending t n s) = dt_heap s"
proof -
  have pend: "pending d (set_pending t n s) = pending d s" for d by (cases t; cases d) simp_all
  have "sched_ok X (set_pending t n s) = sched_ok X s" for X by (rule sched_ok_frame [OF _ _ pend]) (cases t; simp)+
  moreover have "dt_events_ok s \<Longrightarrow> dt_events_ok (set_pending t n s)" by (rule dt_events_ok_frame [OF _ _ pend]) (cases t; simp)+
  moreover have "links (set_pending t n s) = links s" "pointers (set_pending t n s) = pointers s" "rings (set_pending t n s) = rings s"
    by (cases t; simp add: links_def pointers_def rings_def fun_eq_iff)+
  moreover have "comments (set_pending t n s) = comments s" by (cases t) simp_all
  moreover have "event_queue (set_pending t n s) = event_queue s" "next_event_handle (set_pending t n s) = next_event_handle s"
    by (cases t; simp)+
  ultimately show "mild X s (set_pending t n s)" by (simp add: mild_def)
  show "dt_heap (set_pending t n s) = dt_heap s" by (cases t) simp_all
qed

lemma sched_ok_remove:
  assumes "sched_ok X s" "\<And>d. pending d s \<noteq> Some h" "h \<notin> X"
  shows "sched_ok X (remove_event (Some h) s)"
proof -
  have pend: "pending d (remove_event (Some h) s) = pending d s" for d by (rule pending_cong) simp_all
  show ?thesis unfolding sched_ok_def pend
  proof (intro conjI)
    show "distinct (map fst (event_queue (remove_event (Some h) s)))"
      using sched_okD(1) [OF assms(1)] by (simp add: distinct_map_filter)
    show "\<forall>(h', e) \<in> set (event_queue (remove_event (Some h) s)). h' < next_event_handle (remove_event (Some h) s)"
      using sched_okD(2) [OF assms(1)] by auto
    show "\<forall>d k. pending d s = Some k \<longrightarrow> k \<notin> X
      \<and> (\<exists>e. (k, e) \<in> set (event_queue (remove_event (Some h) s)) \<and> ev_data e = d \<and> check_event_type d = Some (ev_type e))"
      using sched_okD(3,4) [OF assms(1)] assms(2) by fastforce
    show "\<forall>(k, e) \<in> set (event_queue (remove_event (Some h) s)). k \<notin> X \<and> check_event_type (ev_data e) \<noteq> None
      \<longrightarrow> pending (ev_data e) s = Some k"
      using sched_okD(5) [OF assms(1)] by auto
    show "X \<subseteq> fst ` set (event_queue (remove_event (Some h) s))"
      using sched_okD(6) [OF assms(1)] assms(3) by force
    show "\<forall>(k, e) \<in> set (event_queue (remove_event (Some h) s)). event_ok e"
      using sched_okD(7) [OF assms(1)] by auto
  qed
qed

lemma mild_remove_event:
  assumes "\<And>h. ev = Some h \<Longrightarrow> h \<in> dt_handles s"
  shows "mild {} s (remove_event ev s)" "dt_heap (remove_event ev s) = dt_heap s"
proof -
  show "mild {} s (remove_event ev s)"
  proof (cases ev)
    case None
    then show ?thesis by (simp add: remove_event_def)
  next
    case (Some h)
    have pend: "pending d (remove_event ev s) = pending d s" for d by (rule pending_cong) simp_all
    have "sched_ok {} (remove_event ev s) \<and> dt_events_ok (remove_event ev s)" if ok: "sched_ok {} s" "dt_events_ok s"
    proof
      have "pending d s \<noteq> Some h" for d using assms [OF Some] ok(2) by (auto simp: dt_events_ok_def)
      with sched_ok_remove [OF ok(1)] Some show "sched_ok {} (remove_event ev s)" by blast
      show "dt_events_ok (remove_event ev s)" by (rule dt_events_ok_frame [OF _ _ pend ok(2)]) simp_all
    qed
    then show ?thesis by (simp add: mild_def links_def pointers_def rings_def)
  qed
qed simp

lemma mild_comments: "next_comment_id (comments s) \<le> next_comment_id c \<Longrightarrow> mild X s (s\<lparr>comments := c\<rparr>)"
  by (rule mild_frame) (simp_all add: dt_handles_def)

lemma delete_comment_next_id: "delete_comment c ty i = Some (r, c') \<Longrightarrow> next_comment_id c' = next_comment_id c"
  by (auto simp: delete_comment_def Let_def split: option.splits Option.bind_splits)

section \<open>Deleting and cancelling\<close>

lemma mild_delete_downtime:
  assumes "delete_downtime s ty i = Some (r, s')"
  shows "mild X s s'"
proof -
  from assms consider "s' = s" | a s1 c r' where "downtime_remove s a = Some s1" "s' = s1\<lparr>comments := c\<rparr>"
    "delete_comment (comments s1) (if dt_type (dt_heap s a) = HOST_DOWNTIME then HOST_COMMENT else SERVICE_COMMENT)
       (dt_comment_id (dt_heap s a)) = Some (r', c)"
    by (auto simp: delete_downtime_def delete_host_comment_def delete_service_comment_def
      split: option.splits Option.bind_splits if_splits)
  then show ?thesis
  proof cases
    case (2 a s1 c r')
    have "mild X s s1" by (rule mild_frame) (use 2(1) in \<open>auto simp: downtime_remove_def dt_handles_def split: Option.bind_splits prod.splits\<close>)
    moreover have "mild X s1 (s1\<lparr>comments := c\<rparr>)" by (rule mild_comments) (use delete_comment_next_id [OF 2(3)] in simp)
    ultimately show ?thesis using 2(2) mild_trans by blast
  qed simp
qed

lemma mild_delete_own: "delete_own s ty i = Some s' \<Longrightarrow> mild X s s'"
  by (auto simp: delete_own_def delete_host_downtime_def delete_service_downtime_def intro: mild_delete_downtime split: if_splits)

lemma mild_cancel_effect:
  assumes "cancel_effect t s = Some s'"
  shows "mild X s s'" "dt_heap s' = dt_heap s"
proof -
  define s1 where "s1 = (if target_depth t s > 0 then set_depth t (target_depth t s - 1) s else s)"
  have s1: "mild X s s1" "dt_heap s1 = dt_heap s" by (simp_all add: s1_def mild_set_depth)
  have "(if target_depth t s1 = 0 then notify_target t NOTIFICATION_DOWNTIMECANCELLED s1 else Some s1) = Some s'"
    using assms by (simp only: cancel_effect_def s1_def Let_def)
  then have "mild X s1 s'" "dt_heap s' = dt_heap s1" by (auto split: if_splits dest: mild_notify_target)
  with s1 show "mild X s s'" "dt_heap s' = dt_heap s" using mild_trans by auto
qed

lemma mild_unschedule_one:
  assumes "unschedule_one s ty i = Some (r, s')"
  shows "mild {} s s'"
proof (cases "find_downtime s ty i")
  case (Some x)
  show ?thesis
  proof (cases x)
    case None
    with Some assms show ?thesis by (simp add: unschedule_one_def)
  next
    case (Some a)
    with \<open>find_downtime s ty i = Some x\<close> have found: "find_downtime s ty i = Some (Some a)" by simp
    show ?thesis
    proof (cases "downtime_target s (dt_heap s a)")
      case None
      with found assms show ?thesis by (simp add: unschedule_one_def Let_def)
    next
      case (Some t)
      define s1 where "s1 = (if \<not> dt_fixed (dt_heap s a) \<and> dt_incremented_pending_downtime (dt_heap s a)
        then set_pending t (target_pending t s - 1) s else s)"
      have s1: "mild {} s s1" "dt_heap s1 = dt_heap s" by (simp_all add: s1_def mild_set_pending)
      have "unschedule_one s ty i = (if dt_is_in_effect (dt_heap s a) then cancel_effect t s1 else Some s1) \<bind> (\<lambda>s2.
          delete_own (remove_event (dt_stop_event (dt_heap s a)) (remove_event (dt_start_event (dt_heap s a)) s2)) (dt_type (dt_heap s a)) i
            \<bind> (\<lambda>s. Some (OK, s)))"
        unfolding unschedule_one_def found Let_def Option.bind.bind_lunit option.case Some s1_def [symmetric] by (rule refl)
      with assms obtain s2 where s2: "(if dt_is_in_effect (dt_heap s a) then cancel_effect t s1 else Some s1) = Some s2"
        "delete_own (remove_event (dt_stop_event (dt_heap s a)) (remove_event (dt_start_event (dt_heap s a)) s2)) (dt_type (dt_heap s a)) i = Some s'"
        by (auto split: Option.bind_splits)
      from s2(1) have "mild {} s1 s2" "dt_heap s2 = dt_heap s1" by (auto split: if_splits dest: mild_cancel_effect)
      with s1 have m: "mild {} s s2" and heap: "dt_heap s2 = dt_heap s" using mild_trans by auto
      let ?s3 = "remove_event (dt_start_event (dt_heap s a)) s2"
      have "mild {} s2 ?s3" by (rule mild_remove_event) (use heap dt_handlesI in metis)
      moreover have "mild {} ?s3 (remove_event (dt_stop_event (dt_heap s a)) ?s3)"
        by (rule mild_remove_event) (use heap dt_handlesI [of ?s3 a] in simp)
      ultimately show ?thesis using m mild_delete_own [OF s2(2)] mild_trans by metis
    qed
  qed
qed (use assms in \<open>simp add: unschedule_one_def\<close>)

lemma mild_unschedule_triggered: "unschedule_triggered s i = Some s' \<Longrightarrow> mild {} s s'"
proof (rule unschedule_triggered.raw_induct [where P = "\<lambda>s i s'. mild {} s s'", rotated])
  fix f s i s'
  assume ih: "\<And>s i s'. f s i = Some s' \<Longrightarrow> mild {} s s'"
    and run: "(case find (\<lambda>a. dt_triggered_by (dt_heap s a) = i) (scheduled_downtime_list s) of
       None \<Rightarrow> Some s
     | Some a \<Rightarrow>
        (unschedule_one s ANY_DOWNTIME (dt_id (dt_heap s a)) \<bind> (\<lambda>(r, s').
          (if r \<noteq> OK then Some s' else f s' (dt_id (dt_heap s a))) \<bind> (\<lambda>s''. f s'' i)))) = Some s'"
  show "mild {} s s'"
  proof (cases "find (\<lambda>a. dt_triggered_by (dt_heap s a) = i) (scheduled_downtime_list s)")
    case (Some a)
    with run obtain r s1 s2 where s1: "unschedule_one s ANY_DOWNTIME (dt_id (dt_heap s a)) = Some (r, s1)"
      and s2: "(if r \<noteq> OK then Some s1 else f s1 (dt_id (dt_heap s a))) = Some s2" and s': "f s2 i = Some s'"
      by (auto split: Option.bind_splits)
    have "mild {} s1 s2" using s2 ih by (auto split: if_splits)
    with mild_unschedule_one [OF s1] ih [OF s'] show ?thesis using mild_trans by blast
  qed (use run in simp)
qed

lemma mild_unschedule_downtime: "unschedule_downtime s ty i = Some (r, s') \<Longrightarrow> mild {} s s'"
  by (auto simp: unschedule_downtime_def split: Option.bind_splits if_splits
    intro: mild_unschedule_one mild_trans [OF mild_unschedule_one mild_unschedule_triggered])

lemma mild_unschedule_each: "unschedule_each ms s = Some s' \<Longrightarrow> mild {} s s'"
proof (induction ms arbitrary: s)
  case (Cons m ms)
  then obtain r s1 where "unschedule_downtime s (fst m) (snd m) = Some (r, s1)" "unschedule_each ms s1 = Some s'"
    by (cases m) (auto split: Option.bind_splits)
  with Cons.IH mild_unschedule_downtime mild_trans show ?case by metis
qed simp

lemma mild_delete_by:
  "delete_downtime_by_hostname_service_description_start_time_comment s hn sd st co = Some (n, s') \<Longrightarrow> mild {} s s'"
  by (auto simp: delete_downtime_by_hostname_service_description_start_time_comment_def
    split: Option.bind_splits if_splits intro: mild_unschedule_each)

section \<open>Start, end and expiry\<close>

lemma starts_mild:
  assumes "calm s s'" "starts s s'"
  shows "mild X s s'"
  using calm_mild [OF assms(1)] assms(2) by (simp add: starts_def)

lemma mild_end_one:
  assumes "end_one s a = Some (r, s')"
  shows "mild X s s'"
proof (cases "downtime_target s (dt_heap s a)")
  case None
  with assms show ?thesis by (simp add: end_one_def Let_def)
next
  case (Some t)
  have leave: "mild X u u'" if "leave_effect t u = Some u'" for u u'
  proof -
    from that have "u' = u \<or> (\<exists>n. u' = set_depth t n u)" by (cases t) (fastforce split: if_splits)+
    then show ?thesis using mild_set_depth(1) by auto
  qed
  from assms Some obtain s1 where s1: "(if dt_is_in_effect (dt_heap s a) then leave_effect t s \<bind>
      (\<lambda>s. if target_depth t s = 0 then notify_target t NOTIFICATION_DOWNTIMEEND s else Some s) else Some s) = Some s1"
    and s': "s' = (if \<not> dt_fixed (dt_heap s a) \<and> dt_incremented_pending_downtime (dt_heap s a) \<and> target_pending t s1 > 0
            then set_pending t (target_pending t s1 - 1) s1 else s1)"
    by (auto simp: end_one_def Let_def split: Option.bind_splits)
  have "mild X s s1"
  proof (cases "dt_is_in_effect (dt_heap s a)")
    case True
    with s1 obtain s2 where "leave_effect t s = Some s2" "s1 = s2 \<or> notify_target t NOTIFICATION_DOWNTIMEEND s2 = Some s1"
      by (auto split: Option.bind_splits if_splits)
    with leave mild_notify_target(1) mild_trans show ?thesis by metis
  qed (use s1 in simp)
  moreover have "mild X s1 s'" by (simp add: s' mild_set_pending)
  ultimately show ?thesis by (rule mild_trans)
qed

lemma mild_end_triggered: "end_triggered s i = Some s' \<Longrightarrow> mild X s s'"
proof (rule end_triggered.raw_induct [where P = "\<lambda>s i s'. mild X s s'", rotated])
  fix f s i s'
  assume ih: "\<And>s i s'. f s i = Some s' \<Longrightarrow> mild X s s'"
    and run: "(case find (\<lambda>a. dt_triggered_by (dt_heap s a) = i) (scheduled_downtime_list s) of
       None \<Rightarrow> Some s
     | Some a \<Rightarrow>
        (end_one s a \<bind> (\<lambda>(r, s').
          (if r \<noteq> OK then Some s'
           else f s' (dt_id (dt_heap s' a)) \<bind> (\<lambda>s''.
             delete_own s'' (dt_type (dt_heap s'' a)) (dt_id (dt_heap s'' a)))) \<bind> (\<lambda>s''. f s'' i)))) = Some s'"
  show "mild X s s'"
  proof (cases "find (\<lambda>a. dt_triggered_by (dt_heap s a) = i) (scheduled_downtime_list s)")
    case (Some a)
    with run obtain r s1 s2 where s1: "end_one s a = Some (r, s1)"
      and s2: "(if r \<noteq> OK then Some s1 else f s1 (dt_id (dt_heap s1 a)) \<bind> (\<lambda>s''.
          delete_own s'' (dt_type (dt_heap s'' a)) (dt_id (dt_heap s'' a)))) = Some s2" and s': "f s2 i = Some s'"
      by (auto split: Option.bind_splits)
    have "mild X s1 s2"
    proof (cases "r \<noteq> OK")
      case False
      with s2 obtain s3 where "f s1 (dt_id (dt_heap s1 a)) = Some s3"
        "delete_own s3 (dt_type (dt_heap s3 a)) (dt_id (dt_heap s3 a)) = Some s2" by (auto split: Option.bind_splits)
      with ih mild_delete_own mild_trans show ?thesis by metis
    qed (use s2 in simp)
    with mild_end_one [OF s1] ih [OF s'] show ?thesis using mild_trans by blast
  qed (use run in simp)
qed

lemma mild_handle_end: "handle_scheduled_downtime_end s a = Some (r, s') \<Longrightarrow> mild X s s'"
  by (auto simp: handle_scheduled_downtime_end_def split: Option.bind_splits if_splits
    intro: mild_end_one mild_trans [OF mild_end_one mild_trans [OF mild_end_triggered mild_delete_own]])

lemma mild_expire_each: "expire_each todo s = Some (r, s') \<Longrightarrow> mild X s s'"
proof (induction todo arbitrary: s)
  case (Cons a rest)
  show ?case
  proof (cases "\<not> dt_is_in_effect (dt_heap s a) \<and> dt_end_time (dt_heap s a) \<le> clock s \<and> downtime_target s (dt_heap s a) \<noteq> None")
    case True
    with Cons.prems obtain t s1 s2 where "notify_target t NOTIFICATION_DOWNTIMEEND s = Some s1"
      "delete_own s1 (dt_type (dt_heap s a)) (dt_id (dt_heap s a)) = Some s2" "expire_each rest s2 = Some (r, s')"
      by (auto simp: Let_def split: Option.bind_splits)
    with Cons.IH mild_notify_target(1) mild_delete_own mild_trans show ?thesis by metis
  next
    case False
    with Cons show ?thesis by (auto simp: Let_def split: if_splits option.splits)
  qed
qed simp

section \<open>Scheduling\<close>

lemma add_comment_next_id:
  assumes "cm_wf c" "add_new_comment True c ty et (Some h) d tm (Some a) (Some dt) p src ex ext = (r, cid, c', ev)"
    "ty = HOST_COMMENT \<or> ty = SERVICE_COMMENT \<and> d \<noteq> None"
  shows "comments_ok c'" "next_comment_id c \<le> next_comment_id c'"
proof -
  have "ty = HOST_COMMENT \<or> ty = SERVICE_COMMENT" "ty = SERVICE_COMMENT \<longrightarrow> d \<noteq> None" using assms(3) by auto
  from add_new_comment_spec [OF assms(1) this, of et h tm a dt p src ex ext] assms(2)
  show "comments_ok c'" "next_comment_id c \<le> next_comment_id c'" by (auto simp: comments_ok_def)
qed

lemma mild_register_comment:
  assumes "dt_inv {} s" "downtime_target s (dt_heap s a) = Some t"
  shows "mild X s (register_comment t a words s)"
proof -
  let ?d = "dt_heap s a"
  obtain hn desc where names: "target_names t s = (hn, desc)" by fastforce
  define kind where "kind = (if dt_type ?d = SERVICE_DOWNTIME then SERVICE_COMMENT else HOST_COMMENT)"
  have kind: "kind = HOST_COMMENT \<or> kind = SERVICE_COMMENT \<and> desc \<noteq> None"
    using assms(2) names by (cases t) (auto simp: kind_def downtime_target_def split: if_splits)
  define author where "author = (case dt_author ?d of None \<Rightarrow> ''(Nagios Process)'' | Some au \<Rightarrow> au)"
  obtain r cid cm ev where cm: "add_new_comment True (comments s) kind DOWNTIME_COMMENT (Some hn) desc (dt_entry_time ?d) (Some author)
      (Some words) False 0 False 0 = (r, cid, cm, ev)" by (metis prod_cases4)
  have "register_comment t a words s = upd_dt a (\<lambda>d. d\<lparr>dt_comment_id := cid, dt_is_in_effect := False\<rparr>) (s\<lparr>comments := cm\<rparr>)"
    using names cm unfolding register_comment_def Let_def kind_def [symmetric] author_def [symmetric] by simp
  moreover have "mild X s (s\<lparr>comments := cm\<rparr>)"
    by (rule mild_comments [OF add_comment_next_id(2) [OF dt_invD(2) [OF assms(1)] cm kind]])
  moreover have "mild X u (upd_dt a (\<lambda>d. d\<lparr>dt_comment_id := cid, dt_is_in_effect := False\<rparr>) u)" for u
    by (rule calm_mild [OF calm_upd_dt]) simp_all
  ultimately show ?thesis using mild_trans by metis
qed

lemma mild_register_flexible: "mild X s (register_flexible t a s)"
proof -
  obtain h s1 where h: "schedule_new_event EVENT_EXPIRE_DOWNTIME 1 (dt_end_time (dt_heap s a) + 1) No_data 0
     (set_pending t (target_pending t s + 1) s) = (h, s1)" by fastforce
  have c: "comments s1 = comments s" using arg_cong [OF h, of "comments \<circ> snd"] by (cases t) simp_all
  have c0: "comments (set_pending t (target_pending t s + 1) s) = comments s" by (cases t) simp_all
  have "calm (set_pending t (target_pending t s + 1) s)
     (upd_dt a (\<lambda>d. d\<lparr>dt_incremented_pending_downtime := True, dt_stop_event := Some h\<rparr>) s1)"
    by (rule calm_noted_event [OF _ h]) (simp_all add: event_fits_def)
  then have "mild X (set_pending t (target_pending t s + 1) s)
     (upd_dt a (\<lambda>d. d\<lparr>dt_incremented_pending_downtime := True, dt_stop_event := Some h\<rparr>) s1)"
    by (rule calm_mild) (simp add: c c0)
  with mild_trans [OF mild_set_pending(1)] h show ?thesis by (auto simp: register_flexible_def Let_def)
qed

lemma mild_register_start_event: "mild X s (register_start_event a s)"
proof -
  define t where "t = (if dt_fixed (dt_heap s a) then dt_start_time (dt_heap s a) else effective_start s (dt_heap s a))"
  obtain h s1 where h: "schedule_new_event EVENT_SCHEDULED_DOWNTIME_START 1 t (Downtime_id (dt_id (dt_heap s a))) 0 s = (h, s1)" by fastforce
  have c: "comments s1 = comments s" using arg_cong [OF h, of "comments \<circ> snd"] by simp
  have "calm s (upd_dt a (\<lambda>d. d\<lparr>dt_flex_downtime_start := effective_start s (dt_heap s a), dt_start_event := Some h\<rparr>) s1)"
    by (rule calm_noted_event [OF _ h]) (simp_all add: event_fits_def)
  then have "mild X s (upd_dt a (\<lambda>d. d\<lparr>dt_flex_downtime_start := effective_start s (dt_heap s a), dt_start_event := Some h\<rparr>) s1)"
    by (rule calm_mild) (simp add: c)
  with h show ?thesis by (simp add: register_start_event_def Let_def t_def)
qed

lemma mild_register_downtime:
  assumes "dt_inv {} s" "register_downtime s ty i = Some (r, s')"
  shows "mild X s s'"
proof (cases "\<exists>a t. find_downtime s ty i = Some (Some a) \<and> downtime_target s (dt_heap s a) = Some t")
  case True
  then obtain a t where a: "find_downtime s ty i = Some (Some a)" "downtime_target s (dt_heap s a) = Some t" by blast
  obtain words trigger b1 b2 where s': "s' = (let s1 = register_comment t a words s; s2 = (if b1 then register_flexible t a s1 else s1) in
      if b2 trigger then register_start_event a s2 else s2)"
    using assms(2) a unfolding register_downtime_def by (auto simp: Let_def split: Option.bind_splits)
  show ?thesis unfolding s' Let_def
    using mild_register_comment [OF assms(1) a(2), where words = words and X = X] mild_register_flexible [where X = X]
      mild_register_start_event [where X = X] mild_trans [where X = X]
    by (simp split: if_splits) blast
next
  case False
  with assms(2) show ?thesis by (auto simp: register_downtime_def Let_def split: Option.bind_splits option.splits)
qed

lemma mild_add_downtime:
  assumes "add_downtime s ty hn d et au co st fs en fx tr du i ef sent = Some (r, s')"
  shows "mild X s s'"
proof (cases "hn = None \<or> ty = SERVICE_DOWNTIME \<and> d = None")
  case False
  then obtain h where hn: "hn = Some h" and d: "ty = SERVICE_DOWNTIME \<longrightarrow> d \<noteq> None" by auto
  define e where "e = entry ty h d et au co st fs en fx tr du i ef sent"
  have e: "dt_start_event e = None" "dt_stop_event e = None" by (simp_all add: e_def entry_def)
  from assms obtain r' where s': "downtime_add (new_cell e s) (next_dt_addr s) = Some (r', s')"
    unfolding hn add_downtime_run [OF d] e_def by (auto split: Option.bind_splits)
  have "mild X s (new_cell e s)" by (rule mild_frame) (use e in \<open>auto simp: new_cell_def dt_handles_def split: if_splits\<close>)
  moreover have "mild X (new_cell e s) s'"
  proof (rule mild_frame)
    show "dt_handles s' \<subseteq> dt_handles (new_cell e s)"
      using s' by (auto simp: downtime_add_def downtime_link_def Let_def dt_handles_def split: Option.bind_splits if_splits prod.splits)
  qed (use s' in \<open>auto simp: downtime_add_def downtime_link_def Let_def split: Option.bind_splits if_splits prod.splits\<close>)
  ultimately show ?thesis by (rule mild_trans)
qed (use assms in \<open>auto simp: add_downtime_def\<close>)

lemma mild_next_id: "mild X s (s\<lparr>next_downtime_id := n\<rparr>)"
  by (rule mild_frame) (simp_all add: dt_handles_def)

lemma mild_add_new_downtime:
  assumes "dl_wf s" "add_new_downtime s ty hn d et au co st en fx tr du ef sent = Some (r, i, s')"
  shows "mild X s s'"
proof -
  let ?s = "s\<lparr>next_downtime_id := next_downtime_id s + 1\<rparr>"
  from assms(2) consider "s' = s"
    | ty hn d j r where "add_downtime ?s ty hn d et au co st 0 en fx tr du j ef sent = Some (r, s')"
    by (auto simp: add_new_downtime_def add_new_host_downtime_def add_new_service_downtime_def get_next_downtime_id_spec [OF assms(1)]
      add_host_downtime_def add_service_downtime_def split: if_splits Option.bind_splits)
  then show ?thesis
  proof cases
    case 2
    then show ?thesis using mild_trans [OF mild_next_id mild_add_downtime] by blast
  qed simp
qed

section \<open>Operations that keep the invariant\<close>

text \<open>An operation keeps the invariant of the daemon and the links between its objects, and returns.\<close>

definition kept :: "nat set \<Rightarrow> daemon \<Rightarrow> daemon \<Rightarrow> bool" where
  "kept X s s' \<longleftrightarrow> daemon_ok X s' \<and> pointers s' = pointers s"

lemma kept_refl: "daemon_ok X s \<Longrightarrow> kept X s s"
  by (simp add: kept_def)

lemma kept_trans: "kept X s s' \<Longrightarrow> kept X s' s'' \<Longrightarrow> kept X s s''"
  by (simp add: kept_def)

lemma keptD: "kept X s s' \<Longrightarrow> daemon_ok X s'"
  by (simp add: kept_def)

lemma kept_mild: "daemon_ok X s \<Longrightarrow> mild X s s' \<Longrightarrow> dt_inv {} s' \<Longrightarrow> kept X s s'"
  by (simp add: kept_def mild_ok) (simp add: mild_def)

lemma kept_core: "daemon_ok X s' \<Longrightarrow> chk_core s' = chk_core s \<Longrightarrow> kept X s s'"
  unfolding kept_def using chk_core_pointers by blast

lemma kept_schedule_downtime:
  assumes "daemon_ok X s" "0 \<le> st" "st < 2 ^ 31" "du < 2 ^ 31"
  shows "\<exists>r i s'. schedule_downtime s ty hn d et au co st en fx tr du = Some (r, i, s') \<and> kept X s s'"
proof -
  from schedule_downtime_total [OF daemon_okD(1) [OF assms(1)] assms(2-4)] obtain r i s' where
    run: "schedule_downtime s ty hn d et au co st en fx tr du = Some (r, i, s')" "dt_inv {} s'" by blast
  have "mild X s s'"
  proof (cases "s' = s")
    case False
    with run(1) obtain r1 s1 r2 where s1: "add_new_downtime s ty hn d et au co st en fx tr du False False = Some (r1, i, s1)"
      "register_downtime s1 ty i = Some (r2, s')"
      by (auto simp: schedule_downtime_def split: if_splits Option.bind_splits)
    have "dt_inv {} s1"
    proof (cases "hn = None \<or> ty \<noteq> HOST_DOWNTIME \<and> d = None")
      case True
      with s1(1) daemon_okD(1) [OF assms(1)] show ?thesis
        by (cases hn) (auto simp: add_new_downtime_def add_new_host_downtime_def add_new_service_downtime_def split: if_splits)
    next
      case False
      then obtain h where h: "hn = Some h" by auto
      define kind where "kind = (if ty = HOST_DOWNTIME then HOST_DOWNTIME else SERVICE_DOWNTIME)"
      have "kind = HOST_DOWNTIME \<or> kind = SERVICE_DOWNTIME \<and> d \<noteq> None" using False by (auto simp: kind_def)
      from add_new_downtime_idle [OF daemon_okD(1) [OF assms(1)] assms(2,3) this assms(4), of h et au co en fx tr] s1(1)
      show ?thesis by (auto simp: h add_new_downtime_def kind_def split: if_splits)
    qed
    with mild_trans [OF mild_add_new_downtime [OF dt_invD(1) [OF daemon_okD(1) [OF assms(1)]] s1(1)] mild_register_downtime [OF _ s1(2)]]
    show ?thesis by blast
  qed simp
  with kept_mild [OF assms(1)] run show ?thesis by blast
qed

lemma kept_unschedule_downtime:
  assumes "daemon_ok {} s"
  shows "\<exists>r s'. unschedule_downtime s ty i = Some (r, s') \<and> kept {} s s'"
  using unschedule_downtime_total [OF daemon_okD(1) [OF assms], of ty i] kept_mild [OF assms] mild_unschedule_downtime by metis

lemma kept_delete_by:
  assumes "daemon_ok {} s" "co = None \<or> commented s"
  shows "\<exists>n s'. delete_downtime_by_hostname_service_description_start_time_comment s hn sd st co = Some (n, s') \<and> kept {} s s'"
  using delete_by_total [OF daemon_okD(1) [OF assms(1)] assms(2), of hn sd st] kept_mild [OF assms(1)] mild_delete_by by metis

lemma kept_start_by_id:
  assumes "daemon_ok X s"
  shows "\<exists>r s'. handle_scheduled_downtime_start_by_id s i = Some (r, s') \<and> kept X s s' \<and> mild X s s'"
proof -
  from start_by_id_total [OF daemon_okD(1) [OF assms]] obtain r s' where
    run: "handle_scheduled_downtime_start_by_id s i = Some (r, s')" "dt_inv {} s'" by blast
  have "mild X s s'"
  proof (cases "s' = s")
    case False
    have "\<exists>a. handle_scheduled_downtime_start (upd_dt a (\<lambda>d. d\<lparr>dt_start_event := None\<rparr>) s) a = Some (r, s')
      \<and> a \<in> set (scheduled_downtime_list s)"
    proof (cases rule: find_downtime_cases [OF dt_invD(1) [OF daemon_okD(1) [OF assms]], of i ANY_DOWNTIME, case_names found absent])
      case (found a)
      with run(1) show ?thesis by (auto simp: handle_scheduled_downtime_start_by_id_def)
    qed (use run(1) False in \<open>simp add: handle_scheduled_downtime_start_by_id_def\<close>)
    then obtain a where a: "handle_scheduled_downtime_start (upd_dt a (\<lambda>d. d\<lparr>dt_start_event := None\<rparr>) s) a = Some (r, s')"
      "a \<in> set (scheduled_downtime_list s)" by blast
    let ?s = "upd_dt a (\<lambda>d. d\<lparr>dt_start_event := None\<rparr>) s"
    have "mild X s ?s" by (rule mild_frame) (auto simp: dt_handles_def upd_dt_def)
    moreover have "dt_inv {} ?s" by (rule dt_inv_upd_dt [OF daemon_okD(1) [OF assms]]) (simp_all add: same_entry_def)
    from handle_start_total [OF this, of a] a have "comments s' = comments ?s" by (auto simp: starts_def)
    then have "mild X ?s s'" by (intro calm_mild [OF calm_handle_start [OF a(1)]]) simp
    ultimately show ?thesis by (rule mild_trans)
  qed simp
  with kept_mild [OF assms] run show ?thesis by blast
qed

lemma kept_end_by_id:
  assumes "daemon_ok X s"
  shows "\<exists>r s'. handle_scheduled_downtime_end_by_id s i = Some (r, s') \<and> kept X s s' \<and> mild X s s'"
proof -
  from end_by_id_total [OF daemon_okD(1) [OF assms]] obtain r s' where
    run: "handle_scheduled_downtime_end_by_id s i = Some (r, s')" "dt_inv {} s'" by blast
  then have "mild X s s'"
    by (auto simp: handle_scheduled_downtime_end_by_id_def split: Option.bind_splits option.splits intro: mild_handle_end)
  with kept_mild [OF assms] run show ?thesis by blast
qed

lemma kept_expired:
  assumes "daemon_ok X s"
  shows "\<exists>r s'. check_for_expired_downtime s = Some (r, s') \<and> kept X s s'"
proof -
  note inv = daemon_okD(1) [OF assms]
  from expire_each_spec [OF inv subset_refl dl_wfD(2) [OF dt_invD(1) [OF inv]]] obtain s' where
    run: "check_for_expired_downtime s = Some (OK, s')" "dt_inv {} s'" by (auto simp: check_for_expired_downtime_def)
  then have "mild X s s'" using mild_expire_each by (simp add: check_for_expired_downtime_def)
  with kept_mild [OF assms] run show ?thesis by blast
qed

end
