(* ===== verification/ObjectCommands.thy ===== *)
theory ObjectCommands
  imports CheckRuns DowntimeFrames
begin

text \<open>
  What external commands do to one object or to the program: the internal command implementations of
  \<open>base/commands.c\<close>.  Switches of the program, of hosts, services and contacts record in the modified
  attributes that they were changed; checks that are switched on are scheduled; notifications are switched along
  the tree of child hosts; problems are acknowledged; flapping is cleared.
\<close>

section \<open>Modified attributes\<close>

definition MODATTR_NONE :: u64 where "MODATTR_NONE = 0"
definition MODATTR_NOTIFICATIONS_ENABLED :: u64 where "MODATTR_NOTIFICATIONS_ENABLED = 1"
definition MODATTR_ACTIVE_CHECKS_ENABLED :: u64 where "MODATTR_ACTIVE_CHECKS_ENABLED = 2"
definition MODATTR_PASSIVE_CHECKS_ENABLED :: u64 where "MODATTR_PASSIVE_CHECKS_ENABLED = 4"
definition MODATTR_EVENT_HANDLER_ENABLED :: u64 where "MODATTR_EVENT_HANDLER_ENABLED = 8"
definition MODATTR_PERFORMANCE_DATA_ENABLED :: u64 where "MODATTR_PERFORMANCE_DATA_ENABLED = 64"
definition MODATTR_OBSESSIVE_HANDLER_ENABLED :: u64 where "MODATTR_OBSESSIVE_HANDLER_ENABLED = 128"
definition MODATTR_NORMAL_CHECK_INTERVAL :: u64 where "MODATTR_NORMAL_CHECK_INTERVAL = 1024"
definition MODATTR_RETRY_CHECK_INTERVAL :: u64 where "MODATTR_RETRY_CHECK_INTERVAL = 2048"
definition MODATTR_MAX_CHECK_ATTEMPTS :: u64 where "MODATTR_MAX_CHECK_ATTEMPTS = 4096"
definition MODATTR_FRESHNESS_CHECKS_ENABLED :: u64 where "MODATTR_FRESHNESS_CHECKS_ENABLED = 8192"
definition MODATTR_CHECK_TIMEPERIOD :: u64 where "MODATTR_CHECK_TIMEPERIOD = 16384"
definition MODATTR_CUSTOM_VARIABLE :: u64 where "MODATTR_CUSTOM_VARIABLE = 32768"
definition MODATTR_NOTIFICATION_TIMEPERIOD :: u64 where "MODATTR_NOTIFICATION_TIMEPERIOD = 65536"
definition MODATTR_EVENT_HANDLER_TIMEPERIOD :: u64 where "MODATTR_EVENT_HANDLER_TIMEPERIOD = 131072"

section \<open>Program switches\<close>

text \<open>A switch of the program: nothing happens when it is set already; otherwise the attribute is recorded in the
  process attributes of hosts, of services or of both.\<close>

definition mark_program :: "bool \<Rightarrow> bool \<Rightarrow> u64 \<Rightarrow> globals \<Rightarrow> globals" where
  "mark_program for_hosts for_services attr g = g\<lparr>
     modified_host_process_attributes := (if for_hosts then modified_host_process_attributes g OR attr else modified_host_process_attributes g),
     modified_service_process_attributes := (if for_services then modified_service_process_attributes g OR attr else modified_service_process_attributes g)\<rparr>"

definition set_program :: "(globals \<Rightarrow> bool) \<Rightarrow> bool \<Rightarrow> (globals \<Rightarrow> globals) \<Rightarrow> daemon \<Rightarrow> daemon" where
  "set_program flag b change s = (if flag (globs s) = b then s else s\<lparr>globs := change (globs s)\<rparr>)"

definition enable_all_notifications :: "daemon \<Rightarrow> daemon" where
  "enable_all_notifications = set_program enable_notifications True
     (\<lambda>g. (mark_program True True MODATTR_NOTIFICATIONS_ENABLED g)\<lparr>enable_notifications := True\<rparr>)"

definition disable_all_notifications :: "daemon \<Rightarrow> daemon" where
  "disable_all_notifications = set_program enable_notifications False
     (\<lambda>g. (mark_program True True MODATTR_NOTIFICATIONS_ENABLED g)\<lparr>enable_notifications := False\<rparr>)"

definition start_executing_service_checks :: "daemon \<Rightarrow> daemon" where
  "start_executing_service_checks = set_program execute_service_checks True
     (\<lambda>g. (mark_program False True MODATTR_ACTIVE_CHECKS_ENABLED g)\<lparr>execute_service_checks := True\<rparr>)"

definition stop_executing_service_checks :: "daemon \<Rightarrow> daemon" where
  "stop_executing_service_checks = set_program execute_service_checks False
     (\<lambda>g. (mark_program False True MODATTR_ACTIVE_CHECKS_ENABLED g)\<lparr>execute_service_checks := False\<rparr>)"

definition start_accepting_passive_service_checks :: "daemon \<Rightarrow> daemon" where
  "start_accepting_passive_service_checks = set_program accept_passive_service_checks True
     (\<lambda>g. (mark_program False True MODATTR_PASSIVE_CHECKS_ENABLED g)\<lparr>accept_passive_service_checks := True\<rparr>)"

definition stop_accepting_passive_service_checks :: "daemon \<Rightarrow> daemon" where
  "stop_accepting_passive_service_checks = set_program accept_passive_service_checks False
     (\<lambda>g. (mark_program False True MODATTR_PASSIVE_CHECKS_ENABLED g)\<lparr>accept_passive_service_checks := False\<rparr>)"

definition start_executing_host_checks :: "daemon \<Rightarrow> daemon" where
  "start_executing_host_checks = set_program execute_host_checks True
     (\<lambda>g. (mark_program True False MODATTR_ACTIVE_CHECKS_ENABLED g)\<lparr>execute_host_checks := True\<rparr>)"

definition stop_executing_host_checks :: "daemon \<Rightarrow> daemon" where
  "stop_executing_host_checks = set_program execute_host_checks False
     (\<lambda>g. (mark_program True False MODATTR_ACTIVE_CHECKS_ENABLED g)\<lparr>execute_host_checks := False\<rparr>)"

definition start_accepting_passive_host_checks :: "daemon \<Rightarrow> daemon" where
  "start_accepting_passive_host_checks = set_program accept_passive_host_checks True
     (\<lambda>g. (mark_program True False MODATTR_PASSIVE_CHECKS_ENABLED g)\<lparr>accept_passive_host_checks := True\<rparr>)"

definition stop_accepting_passive_host_checks :: "daemon \<Rightarrow> daemon" where
  "stop_accepting_passive_host_checks = set_program accept_passive_host_checks False
     (\<lambda>g. (mark_program True False MODATTR_PASSIVE_CHECKS_ENABLED g)\<lparr>accept_passive_host_checks := False\<rparr>)"

definition start_using_event_handlers :: "daemon \<Rightarrow> daemon" where
  "start_using_event_handlers = set_program enable_event_handlers True
     (\<lambda>g. (mark_program True True MODATTR_EVENT_HANDLER_ENABLED g)\<lparr>enable_event_handlers := True\<rparr>)"

definition stop_using_event_handlers :: "daemon \<Rightarrow> daemon" where
  "stop_using_event_handlers = set_program enable_event_handlers False
     (\<lambda>g. (mark_program True True MODATTR_EVENT_HANDLER_ENABLED g)\<lparr>enable_event_handlers := False\<rparr>)"

definition start_obsessing_over_service_checks :: "daemon \<Rightarrow> daemon" where
  "start_obsessing_over_service_checks = set_program obsess_over_services True
     (\<lambda>g. (mark_program False True MODATTR_OBSESSIVE_HANDLER_ENABLED g)\<lparr>obsess_over_services := True\<rparr>)"

definition stop_obsessing_over_service_checks :: "daemon \<Rightarrow> daemon" where
  "stop_obsessing_over_service_checks = set_program obsess_over_services False
     (\<lambda>g. (mark_program False True MODATTR_OBSESSIVE_HANDLER_ENABLED g)\<lparr>obsess_over_services := False\<rparr>)"

definition start_obsessing_over_host_checks :: "daemon \<Rightarrow> daemon" where
  "start_obsessing_over_host_checks = set_program obsess_over_hosts True
     (\<lambda>g. (mark_program True False MODATTR_OBSESSIVE_HANDLER_ENABLED g)\<lparr>obsess_over_hosts := True\<rparr>)"

definition stop_obsessing_over_host_checks :: "daemon \<Rightarrow> daemon" where
  "stop_obsessing_over_host_checks = set_program obsess_over_hosts False
     (\<lambda>g. (mark_program True False MODATTR_OBSESSIVE_HANDLER_ENABLED g)\<lparr>obsess_over_hosts := False\<rparr>)"

definition enable_service_freshness_checks :: "daemon \<Rightarrow> daemon" where
  "enable_service_freshness_checks = set_program check_service_freshness True
     (\<lambda>g. (mark_program False True MODATTR_FRESHNESS_CHECKS_ENABLED g)\<lparr>check_service_freshness := True\<rparr>)"

definition disable_service_freshness_checks :: "daemon \<Rightarrow> daemon" where
  "disable_service_freshness_checks = set_program check_service_freshness False
     (\<lambda>g. (mark_program False True MODATTR_FRESHNESS_CHECKS_ENABLED g)\<lparr>check_service_freshness := False\<rparr>)"

definition enable_host_freshness_checks :: "daemon \<Rightarrow> daemon" where
  "enable_host_freshness_checks = set_program check_host_freshness True
     (\<lambda>g. (mark_program True False MODATTR_FRESHNESS_CHECKS_ENABLED g)\<lparr>check_host_freshness := True\<rparr>)"

definition disable_host_freshness_checks :: "daemon \<Rightarrow> daemon" where
  "disable_host_freshness_checks = set_program check_host_freshness False
     (\<lambda>g. (mark_program True False MODATTR_FRESHNESS_CHECKS_ENABLED g)\<lparr>check_host_freshness := False\<rparr>)"

definition enable_performance_data :: "daemon \<Rightarrow> daemon" where
  "enable_performance_data = set_program process_performance_data True
     (\<lambda>g. (mark_program True True MODATTR_PERFORMANCE_DATA_ENABLED g)\<lparr>process_performance_data := True\<rparr>)"

definition disable_performance_data :: "daemon \<Rightarrow> daemon" where
  "disable_performance_data = set_program process_performance_data False
     (\<lambda>g. (mark_program True True MODATTR_PERFORMANCE_DATA_ENABLED g)\<lparr>process_performance_data := False\<rparr>)"

section \<open>Object switches\<close>

definition set_service :: "(service \<Rightarrow> bool) \<Rightarrow> bool \<Rightarrow> u64 \<Rightarrow> (service \<Rightarrow> service) \<Rightarrow> nat \<Rightarrow> daemon \<Rightarrow> daemon" where
  "set_service flag b attr change i s = (if flag (svcs s i) = b then s
     else upd_svc i (\<lambda>v. change (v\<lparr>s_modified_attributes := s_modified_attributes v OR attr\<rparr>)) s)"

definition set_host :: "(host \<Rightarrow> bool) \<Rightarrow> bool \<Rightarrow> u64 \<Rightarrow> (host \<Rightarrow> host) \<Rightarrow> nat \<Rightarrow> daemon \<Rightarrow> daemon" where
  "set_host flag b attr change h s = (if flag (hosts s h) = b then s
     else upd_host h (\<lambda>v. change (v\<lparr>h_modified_attributes := h_modified_attributes v OR attr\<rparr>)) s)"

definition enable_service_notifications :: "nat \<Rightarrow> daemon \<Rightarrow> daemon" where
  "enable_service_notifications = set_service s_notifications_enabled True MODATTR_NOTIFICATIONS_ENABLED (\<lambda>v. v\<lparr>s_notifications_enabled := True\<rparr>)"

definition disable_service_notifications :: "nat \<Rightarrow> daemon \<Rightarrow> daemon" where
  "disable_service_notifications = set_service s_notifications_enabled False MODATTR_NOTIFICATIONS_ENABLED (\<lambda>v. v\<lparr>s_notifications_enabled := False\<rparr>)"

definition enable_passive_service_checks :: "nat \<Rightarrow> daemon \<Rightarrow> daemon" where
  "enable_passive_service_checks = set_service s_accept_passive_checks True MODATTR_PASSIVE_CHECKS_ENABLED (\<lambda>v. v\<lparr>s_accept_passive_checks := True\<rparr>)"

definition disable_passive_service_checks :: "nat \<Rightarrow> daemon \<Rightarrow> daemon" where
  "disable_passive_service_checks = set_service s_accept_passive_checks False MODATTR_PASSIVE_CHECKS_ENABLED (\<lambda>v. v\<lparr>s_accept_passive_checks := False\<rparr>)"

definition enable_service_event_handler :: "nat \<Rightarrow> daemon \<Rightarrow> daemon" where
  "enable_service_event_handler = set_service s_event_handler_enabled True MODATTR_EVENT_HANDLER_ENABLED (\<lambda>v. v\<lparr>s_event_handler_enabled := True\<rparr>)"

definition disable_service_event_handler :: "nat \<Rightarrow> daemon \<Rightarrow> daemon" where
  "disable_service_event_handler = set_service s_event_handler_enabled False MODATTR_EVENT_HANDLER_ENABLED (\<lambda>v. v\<lparr>s_event_handler_enabled := False\<rparr>)"

definition start_obsessing_over_service :: "nat \<Rightarrow> daemon \<Rightarrow> daemon" where
  "start_obsessing_over_service = set_service s_obsess True MODATTR_OBSESSIVE_HANDLER_ENABLED (\<lambda>v. v\<lparr>s_obsess := True\<rparr>)"

definition stop_obsessing_over_service :: "nat \<Rightarrow> daemon \<Rightarrow> daemon" where
  "stop_obsessing_over_service = set_service s_obsess False MODATTR_OBSESSIVE_HANDLER_ENABLED (\<lambda>v. v\<lparr>s_obsess := False\<rparr>)"

definition disable_service_checks :: "nat \<Rightarrow> daemon \<Rightarrow> daemon" where
  "disable_service_checks = set_service s_checks_enabled False MODATTR_ACTIVE_CHECKS_ENABLED (\<lambda>v. v\<lparr>s_checks_enabled := False, s_should_be_scheduled := False\<rparr>)"

definition enable_host_notifications :: "nat \<Rightarrow> daemon \<Rightarrow> daemon" where
  "enable_host_notifications = set_host h_notifications_enabled True MODATTR_NOTIFICATIONS_ENABLED (\<lambda>v. v\<lparr>h_notifications_enabled := True\<rparr>)"

definition disable_host_notifications :: "nat \<Rightarrow> daemon \<Rightarrow> daemon" where
  "disable_host_notifications = set_host h_notifications_enabled False MODATTR_NOTIFICATIONS_ENABLED (\<lambda>v. v\<lparr>h_notifications_enabled := False\<rparr>)"

definition enable_passive_host_checks :: "nat \<Rightarrow> daemon \<Rightarrow> daemon" where
  "enable_passive_host_checks = set_host h_accept_passive_checks True MODATTR_PASSIVE_CHECKS_ENABLED (\<lambda>v. v\<lparr>h_accept_passive_checks := True\<rparr>)"

definition disable_passive_host_checks :: "nat \<Rightarrow> daemon \<Rightarrow> daemon" where
  "disable_passive_host_checks = set_host h_accept_passive_checks False MODATTR_PASSIVE_CHECKS_ENABLED (\<lambda>v. v\<lparr>h_accept_passive_checks := False\<rparr>)"

definition enable_host_event_handler :: "nat \<Rightarrow> daemon \<Rightarrow> daemon" where
  "enable_host_event_handler = set_host h_event_handler_enabled True MODATTR_EVENT_HANDLER_ENABLED (\<lambda>v. v\<lparr>h_event_handler_enabled := True\<rparr>)"

definition disable_host_event_handler :: "nat \<Rightarrow> daemon \<Rightarrow> daemon" where
  "disable_host_event_handler = set_host h_event_handler_enabled False MODATTR_EVENT_HANDLER_ENABLED (\<lambda>v. v\<lparr>h_event_handler_enabled := False\<rparr>)"

definition start_obsessing_over_host :: "nat \<Rightarrow> daemon \<Rightarrow> daemon" where
  "start_obsessing_over_host = set_host h_obsess True MODATTR_OBSESSIVE_HANDLER_ENABLED (\<lambda>v. v\<lparr>h_obsess := True\<rparr>)"

definition stop_obsessing_over_host :: "nat \<Rightarrow> daemon \<Rightarrow> daemon" where
  "stop_obsessing_over_host = set_host h_obsess False MODATTR_OBSESSIVE_HANDLER_ENABLED (\<lambda>v. v\<lparr>h_obsess := False\<rparr>)"

definition disable_host_checks :: "nat \<Rightarrow> daemon \<Rightarrow> daemon" where
  "disable_host_checks = set_host h_checks_enabled False MODATTR_ACTIVE_CHECKS_ENABLED (\<lambda>v. v\<lparr>h_checks_enabled := False, h_should_be_scheduled := False\<rparr>)"

text \<open>The flags of a contact; what it was changed in is recorded apart for hosts and services.\<close>

definition set_contact :: "(contact \<Rightarrow> bool) \<Rightarrow> bool \<Rightarrow> (contact \<Rightarrow> contact) \<Rightarrow> nat \<Rightarrow> daemon \<Rightarrow> daemon" where
  "set_contact flag b change c s = (if flag (contacts s c) = b then s else upd_contact c change s)"

definition enable_contact_host_notifications :: "nat \<Rightarrow> daemon \<Rightarrow> daemon" where
  "enable_contact_host_notifications = set_contact ct_host_notifications_enabled True
     (\<lambda>v. v\<lparr>ct_modified_host_attributes := ct_modified_host_attributes v OR MODATTR_NOTIFICATIONS_ENABLED,
        ct_host_notifications_enabled := True\<rparr>)"

definition disable_contact_host_notifications :: "nat \<Rightarrow> daemon \<Rightarrow> daemon" where
  "disable_contact_host_notifications = set_contact ct_host_notifications_enabled False
     (\<lambda>v. v\<lparr>ct_modified_host_attributes := ct_modified_host_attributes v OR MODATTR_NOTIFICATIONS_ENABLED,
        ct_host_notifications_enabled := False\<rparr>)"

definition enable_contact_service_notifications :: "nat \<Rightarrow> daemon \<Rightarrow> daemon" where
  "enable_contact_service_notifications = set_contact ct_service_notifications_enabled True
     (\<lambda>v. v\<lparr>ct_modified_service_attributes := ct_modified_service_attributes v OR MODATTR_NOTIFICATIONS_ENABLED,
        ct_service_notifications_enabled := True\<rparr>)"

definition disable_contact_service_notifications :: "nat \<Rightarrow> daemon \<Rightarrow> daemon" where
  "disable_contact_service_notifications = set_contact ct_service_notifications_enabled False
     (\<lambda>v. v\<lparr>ct_modified_service_attributes := ct_modified_service_attributes v OR MODATTR_NOTIFICATIONS_ENABLED,
        ct_service_notifications_enabled := False\<rparr>)"

section \<open>Checks\<close>

text \<open>Now, or the first valid time of the period.\<close>

definition first_check_time :: "timeperiod option \<Rightarrow> daemon \<Rightarrow> int" where
  "first_check_time period s = (if check_time_against_period (clib s) (clock s) period = ERROR
     then get_next_valid_time (clib s) (clock s) (clock s) period else clock s)"

definition enable_service_checks :: "nat \<Rightarrow> daemon \<Rightarrow> daemon ub" where
  "enable_service_checks i s =
    (if s_checks_enabled (svcs s i) then Some s
     else let s = upd_svc i (\<lambda>v. v\<lparr>s_modified_attributes := s_modified_attributes v OR MODATTR_ACTIVE_CHECKS_ENABLED,
            s_checks_enabled := True, s_should_be_scheduled := s_check_interval v \<noteq> 0,
            s_next_check := first_check_time (s_check_period v) s\<rparr>) s in
       if s_should_be_scheduled (svcs s i) then schedule_service_check i (s_next_check (svcs s i)) CHECK_OPTION_NONE s
       else Some s)"

definition enable_host_checks :: "nat \<Rightarrow> daemon \<Rightarrow> daemon ub" where
  "enable_host_checks h s =
    (if h_checks_enabled (hosts s h) then Some s
     else let s = upd_host h (\<lambda>v. v\<lparr>h_modified_attributes := h_modified_attributes v OR MODATTR_ACTIVE_CHECKS_ENABLED,
            h_checks_enabled := True, h_should_be_scheduled := h_check_interval v \<noteq> 0,
            h_next_check := first_check_time (h_check_period v) s\<rparr>) s in
       if h_should_be_scheduled (hosts s h) then schedule_host_check h (h_next_check (hosts s h)) CHECK_OPTION_NONE s
       else Some s)"

section \<open>The tree of hosts\<close>

text \<open>For all hosts beyond a list of hosts, and those themselves: the recursion of a function that handles a child
  after everything below it.\<close>

partial_function (option) descend :: "daemon \<Rightarrow> (nat \<Rightarrow> daemon \<Rightarrow> daemon option) \<times> nat list \<Rightarrow> daemon option" where
  "descend s todo =
    (case snd todo of [] \<Rightarrow> Some s
     | c # rest \<Rightarrow> descend s (fst todo, h_child_hosts (hosts s c)) \<bind> (\<lambda>s.
         fst todo c s \<bind> (\<lambda>s. descend s (fst todo, rest))))"

definition switch_host_and_services :: "bool \<Rightarrow> bool \<Rightarrow> (nat \<Rightarrow> daemon \<Rightarrow> daemon) \<Rightarrow> (nat \<Rightarrow> daemon \<Rightarrow> daemon) \<Rightarrow> nat \<Rightarrow> daemon \<Rightarrow> daemon" where
  "switch_host_and_services affect_hosts affect_services host_switch service_switch c s =
    (let s = (if affect_hosts then host_switch c s else s) in
     if affect_services then fold service_switch (h_services (hosts s c)) s else s)"

text \<open>The level is only looked at for the host the recursion starts from.\<close>

definition enable_and_propagate_notifications :: "nat \<Rightarrow> nat \<Rightarrow> bool \<Rightarrow> bool \<Rightarrow> bool \<Rightarrow> daemon \<Rightarrow> daemon ub" where
  "enable_and_propagate_notifications h level affect_top_host affect_hosts affect_services s =
    (let s = (if affect_top_host \<and> level = 0 then enable_host_notifications h s else s) in
     descend s (\<lambda>c s. Some (switch_host_and_services affect_hosts affect_services enable_host_notifications
       enable_service_notifications c s), h_child_hosts (hosts s h)))"

definition disable_and_propagate_notifications :: "nat \<Rightarrow> nat \<Rightarrow> bool \<Rightarrow> bool \<Rightarrow> bool \<Rightarrow> daemon \<Rightarrow> daemon ub" where
  "disable_and_propagate_notifications h level affect_top_host affect_hosts affect_services s =
    (let s = (if affect_top_host \<and> level = 0 then disable_host_notifications h s else s) in
     descend s (\<lambda>c s. Some (switch_host_and_services affect_hosts affect_services disable_host_notifications
       disable_service_notifications c s), h_child_hosts (hosts s h)))"

definition schedule_and_propagate_downtime :: "nat \<Rightarrow> int \<Rightarrow> string \<Rightarrow> string \<Rightarrow> int \<Rightarrow> int \<Rightarrow> bool \<Rightarrow> nat \<Rightarrow> nat \<Rightarrow> daemon \<Rightarrow> daemon ub" where
  "schedule_and_propagate_downtime h entry_time author comment_data start_time end_time fixed triggered_by duration s =
    descend s (\<lambda>c s. map_option (snd \<circ> snd) (schedule_downtime s HOST_DOWNTIME (Some (h_name (hosts s c))) None entry_time
        (Some author) (Some comment_data) start_time end_time fixed triggered_by duration),
      h_child_hosts (hosts s h))"

section \<open>Acknowledgements\<close>

abbreviation (input) COMMENTSOURCE_INTERNAL :: nat where "COMMENTSOURCE_INTERNAL \<equiv> 0"
abbreviation (input) COMMENTSOURCE_EXTERNAL :: nat where "COMMENTSOURCE_EXTERNAL \<equiv> 1"

definition acknowledge_host_problem :: "nat \<Rightarrow> string \<Rightarrow> string \<Rightarrow> int \<Rightarrow> bool \<Rightarrow> bool \<Rightarrow> daemon \<Rightarrow> daemon ub" where
  "acknowledge_host_problem h ack_author ack_data ty notify persistent s =
    (if h_current_state (hosts s h) = HOST_UP then Some s
     else do {
       s \<leftarrow> (if notify then map_option snd (host_notification h NOTIFICATION_ACKNOWLEDGEMENT NOTIFICATION_OPTION_NONE s) else Some s);
       let s = upd_host h (\<lambda>v. v\<lparr>h_problem_has_been_acknowledged := True,
         h_acknowledgement_type := if ty = int ACKNOWLEDGEMENT_STICKY then ACKNOWLEDGEMENT_STICKY else ACKNOWLEDGEMENT_NORMAL\<rparr>) s;
       let (_, _, c) = add_new_host_comment True (comments s) ACKNOWLEDGEMENT_COMMENT (Some (h_name (hosts s h))) (clock s)
         (Some ack_author) (Some ack_data) persistent COMMENTSOURCE_INTERNAL False 0;
       Some (s\<lparr>comments := c\<rparr>)
     })"

definition acknowledge_service_problem :: "nat \<Rightarrow> string \<Rightarrow> string \<Rightarrow> int \<Rightarrow> bool \<Rightarrow> bool \<Rightarrow> daemon \<Rightarrow> daemon ub" where
  "acknowledge_service_problem i ack_author ack_data ty notify persistent s =
    (if s_current_state (svcs s i) = STATE_OK then Some s
     else do {
       s \<leftarrow> (if notify then map_option snd (service_notification i NOTIFICATION_ACKNOWLEDGEMENT NOTIFICATION_OPTION_NONE s) else Some s);
       let s = upd_svc i (\<lambda>v. v\<lparr>s_problem_has_been_acknowledged := True,
         s_acknowledgement_type := if ty = int ACKNOWLEDGEMENT_STICKY then ACKNOWLEDGEMENT_STICKY else ACKNOWLEDGEMENT_NORMAL\<rparr>) s;
       let (_, _, c) = add_new_service_comment True (comments s) ACKNOWLEDGEMENT_COMMENT (Some (s_host_name (svcs s i)))
         (Some (s_description (svcs s i))) (clock s) (Some ack_author) (Some ack_data) persistent COMMENTSOURCE_INTERNAL False 0;
       Some (s\<lparr>comments := c\<rparr>)
     })"

definition remove_host_acknowledgement :: "nat \<Rightarrow> daemon \<Rightarrow> daemon ub" where
  "remove_host_acknowledgement h s =
    (let s = upd_host h (\<lambda>v. v\<lparr>h_problem_has_been_acknowledged := False\<rparr>) s in
     map_option (\<lambda>(_, c). s\<lparr>comments := c\<rparr>) (delete_host_acknowledgement_comments (comments s) (h_name (hosts s h))))"

definition remove_service_acknowledgement :: "nat \<Rightarrow> daemon \<Rightarrow> daemon ub" where
  "remove_service_acknowledgement i s =
    (let s = upd_svc i (\<lambda>v. v\<lparr>s_problem_has_been_acknowledged := False\<rparr>) s in
     map_option (\<lambda>(_, c). s\<lparr>comments := c\<rparr>)
       (delete_service_acknowledgement_comments (comments s) (s_host_name (svcs s i)) (s_description (svcs s i))))"

section \<open>Notification numbers and flapping\<close>

definition set_host_notification_number :: "nat \<Rightarrow> c_int \<Rightarrow> daemon \<Rightarrow> daemon" where
  "set_host_notification_number h num = upd_host h (\<lambda>v. v\<lparr>h_current_notification_number := num\<rparr>)"

definition set_service_notification_number :: "nat \<Rightarrow> c_int \<Rightarrow> daemon \<Rightarrow> daemon" where
  "set_service_notification_number i num = upd_svc i (\<lambda>v. v\<lparr>s_current_notification_number := num\<rparr>)"

definition clear_host_flapping_state :: "nat \<Rightarrow> daemon \<Rightarrow> daemon ub" where
  "clear_host_flapping_state h s =
    (if \<not> enable_flap_detection (globs s) \<or> \<not> h_flap_detection_enabled (hosts s h) then Some s
     else do {
       s \<leftarrow> (if h_is_flapping (hosts s h) then flapping_over_host h NOTIFICATION_FLAPPINGSTOP s else Some s);
       let s = upd_host h (\<lambda>v. v\<lparr>h_state_history := replicate MAX_STATE_HISTORY_ENTRIES 0, h_state_history_index := 0,
         h_percent_state_change := 0\<rparr>) s;
       s \<leftarrow> forget_host_flap h s;
       Some (upd_host h (\<lambda>v. v\<lparr>h_check_flapping_recovery_notification := False\<rparr>) s)
     })"

definition clear_service_flapping_state :: "nat \<Rightarrow> daemon \<Rightarrow> daemon ub" where
  "clear_service_flapping_state i s =
    (if \<not> enable_flap_detection (globs s) \<or> \<not> s_flap_detection_enabled (svcs s i) then Some s
     else do {
       s \<leftarrow> (if s_is_flapping (svcs s i) then flapping_over_service i NOTIFICATION_FLAPPINGSTOP s else Some s);
       let s = upd_svc i (\<lambda>v. v\<lparr>s_state_history := replicate MAX_STATE_HISTORY_ENTRIES 0, s_state_history_index := 0,
         s_percent_state_change := 0\<rparr>) s;
       s \<leftarrow> forget_service_flap i s;
       Some (upd_svc i (\<lambda>v. v\<lparr>s_check_flapping_recovery_notification := False\<rparr>) s)
     })"

section \<open>Everything keeps the invariant\<close>

text \<open>The outcome of an operation: it returns, in a state the invariant holds in.\<close>

definition fine :: "nat set \<Rightarrow> daemon \<Rightarrow> daemon option \<Rightarrow> bool" where
  "fine X s r \<longleftrightarrow> (\<exists>s'. r = Some s' \<and> kept X s s')"

named_theorems upkeep \<open>operations that return and keep the invariant\<close>

lemma fine_Some [simp]: "fine X s (Some s') \<longleftrightarrow> kept X s s'"
  by (simp add: fine_def)

lemma fine_bind: "fine X s r \<Longrightarrow> (\<And>s'. kept X s s' \<Longrightarrow> fine X s' (g s')) \<Longrightarrow> fine X s (r \<bind> g)"
  using kept_trans by (fastforce simp: fine_def)

lemma fine_trans: "kept X s s' \<Longrightarrow> fine X s' r \<Longrightarrow> fine X s r"
  using kept_trans by (fastforce simp: fine_def)

lemma fine_cases: "kept X s s' \<Longrightarrow> fine X s r \<Longrightarrow> fine X s (if b then Some s' else r)"
  by simp

lemma kept_fold: "(\<And>x s. daemon_ok X s \<Longrightarrow> kept X s (f x s)) \<Longrightarrow> daemon_ok X s \<Longrightarrow> kept X s (fold f xs s)"
proof (induction xs arbitrary: s)
  case (Cons x xs)
  from Cons.prems have "kept X s (f x s)" by blast
  with Cons.IH [OF Cons.prems(1), of "f x s"] show ?case using kept_trans [OF _ Cons.IH [OF Cons.prems(1)]] keptD by simp
qed (simp add: kept_refl)

lemma kept_stays: "stays X s s' \<Longrightarrow> kept X s s'"
  using kept_core staysD by blast

lemma kept_upd_svc: "daemon_ok X s \<Longrightarrow> svc_ties (f (svcs s i)) = svc_ties (svcs s i) \<Longrightarrow> kept X s (upd_svc i f s)"
  using holds_upd_svc by (fastforce simp: kept_def holds_def pointers_def svc_ties_def)

lemma kept_upd_host: "daemon_ok X s \<Longrightarrow> host_ties (f (hosts s h)) = host_ties (hosts s h) \<Longrightarrow> kept X s (upd_host h f s)"
  using holds_upd_host by (fastforce simp: kept_def holds_def pointers_def host_ties_def)

lemma kept_upd_contact: 
  assumes "daemon_ok X s"
  shows "kept X s (upd_contact c f s)"
proof -
  have "holds X s (upd_contact c f s)" by (rule holds_frame [OF assms]) (simp_all add: dt_keeps_def)
  then show ?thesis by (simp add: kept_def holds_def pointers_def)
qed

lemma dt_inv_globs:
  assumes "dt_inv X s"
  shows "dt_inv X (s\<lparr>globs := g\<rparr>)"
proof -
  let ?s = "s\<lparr>globs := g\<rparr>"
  have names: "find_host ?s = find_host s" "find_service ?s = find_service s"
    by (simp_all add: fun_eq_iff find_host_def find_service_def cong: option.case_cong)
  then have target: "downtime_target ?s = downtime_target s" by (simp add: fun_eq_iff downtime_target_def)
  from names have "dl_entry_ok ?s = dl_entry_ok s" by (simp add: fun_eq_iff dl_entry_ok_def)
  then have "dl_wf ?s" using dt_invD(1) [OF assms] by (simp add: dl_wf_def)
  moreover have "target_depth t ?s = target_depth t s" for t by (cases t) simp_all
  ultimately show ?thesis using assms by (simp add: dt_inv_def depth_ok_def parents_set_def in_effect_at_def target)
qed

lemma kept_globs:
  assumes "daemon_ok X s" "service_check_timeout_state g = service_check_timeout_state (globs s)"
  shows "kept X s (s\<lparr>globs := g\<rparr>)"
proof -
  let ?s = "s\<lparr>globs := g\<rparr>"
  have pend: "pending d ?s = pending d s" for d by (rule pending_cong) simp_all
  have "sched_ok X ?s = sched_ok X s" by (rule sched_ok_frame [OF _ _ pend]) simp_all
  moreover have "dt_events_ok ?s" by (rule dt_events_ok_frame [OF _ _ pend daemon_okD(6) [OF assms(1)]]) simp_all
  moreover have "acyclic_links ?s = acyclic_links s" by (rule acyclic_links_frame) (simp add: links_def)
  then have "flap_ready ?s" using daemon_okD(2) [OF assms(1)] by (simp add: flap_ready_def rings_def)
  moreover have "pointers ?s = pointers s" using assms(2) by (simp add: pointers_def)
  moreover from linked_frame [OF this daemon_okD(5) [OF assms(1)]] have "linked ?s" .
  ultimately show ?thesis using assms dt_inv_globs [OF daemon_okD(1) [OF assms(1)]] by (simp add: kept_def daemon_ok_def)
qed

lemma kept_set_program [upkeep]:
  "daemon_ok X s \<Longrightarrow> service_check_timeout_state (change (globs s)) = service_check_timeout_state (globs s) \<Longrightarrow> kept X s (set_program flag b change s)"
  by (simp add: set_program_def kept_globs kept_refl)

lemma kept_set_contact [upkeep]: "daemon_ok X s \<Longrightarrow> kept X s (set_contact flag b change c s)"
  by (simp add: set_contact_def kept_upd_contact kept_refl)

lemmas program_switches = enable_all_notifications_def disable_all_notifications_def start_executing_service_checks_def
  stop_executing_service_checks_def start_accepting_passive_service_checks_def stop_accepting_passive_service_checks_def
  start_executing_host_checks_def stop_executing_host_checks_def start_accepting_passive_host_checks_def
  stop_accepting_passive_host_checks_def start_using_event_handlers_def stop_using_event_handlers_def
  start_obsessing_over_service_checks_def stop_obsessing_over_service_checks_def start_obsessing_over_host_checks_def
  stop_obsessing_over_host_checks_def enable_service_freshness_checks_def disable_service_freshness_checks_def
  enable_host_freshness_checks_def disable_host_freshness_checks_def enable_performance_data_def disable_performance_data_def

lemmas service_switches = enable_service_notifications_def disable_service_notifications_def enable_passive_service_checks_def
  disable_passive_service_checks_def enable_service_event_handler_def disable_service_event_handler_def
  start_obsessing_over_service_def stop_obsessing_over_service_def disable_service_checks_def

lemmas host_switches = enable_host_notifications_def disable_host_notifications_def enable_passive_host_checks_def
  disable_passive_host_checks_def enable_host_event_handler_def disable_host_event_handler_def
  start_obsessing_over_host_def stop_obsessing_over_host_def disable_host_checks_def

lemmas contact_switches = enable_contact_host_notifications_def disable_contact_host_notifications_def
  enable_contact_service_notifications_def disable_contact_service_notifications_def

lemma kept_set_service: "daemon_ok X s \<Longrightarrow> (\<And>v. svc_ties (change v) = svc_ties v) \<Longrightarrow> kept X s (set_service flag b attr change i s)"
  by (simp add: set_service_def kept_refl) (intro impI kept_upd_svc, simp_all add: svc_ties_def)

lemma kept_set_host: "daemon_ok X s \<Longrightarrow> (\<And>v. host_ties (change v) = host_ties v) \<Longrightarrow> kept X s (set_host flag b attr change h s)"
  by (simp add: set_host_def kept_refl) (intro impI kept_upd_host, simp_all add: host_ties_def)

lemma kept_switches [upkeep]:
  assumes "daemon_ok X s"
  shows "kept X s (enable_service_notifications i s)" "kept X s (disable_service_notifications i s)"
    "kept X s (enable_passive_service_checks i s)" "kept X s (disable_passive_service_checks i s)"
    "kept X s (enable_service_event_handler i s)" "kept X s (disable_service_event_handler i s)"
    "kept X s (start_obsessing_over_service i s)" "kept X s (stop_obsessing_over_service i s)" "kept X s (disable_service_checks i s)"
    "kept X s (enable_host_notifications i s)" "kept X s (disable_host_notifications i s)"
    "kept X s (enable_passive_host_checks i s)" "kept X s (disable_passive_host_checks i s)"
    "kept X s (enable_host_event_handler i s)" "kept X s (disable_host_event_handler i s)"
    "kept X s (start_obsessing_over_host i s)" "kept X s (stop_obsessing_over_host i s)" "kept X s (disable_host_checks i s)"
  unfolding service_switches host_switches
  by ((rule kept_set_service [OF assms] kept_set_host [OF assms]; simp add: svc_ties_def host_ties_def)+)

lemma fine_schedule [upkeep]:
  assumes "daemon_ok X s"
  shows "fine X s (schedule_service_check i t opts s)" "fine X s (schedule_host_check h t opts s)"
  using stays_schedule_service_check [OF assms, of i t opts] stays_schedule_host_check [OF assms, of h t opts] kept_core
  by (auto simp: fine_def)

lemma fine_notification [upkeep]:
  assumes "daemon_ok X s"
  shows "fine X s (map_option snd (service_notification i ty opts s))" "fine X s (map_option snd (host_notification h ty opts s))"
  using stays_service_notification [OF assms, of i ty opts] stays_host_notification [OF assms, of h ty opts] kept_stays
  by (auto simp: fine_def)

lemma fine_enable_service_checks [upkeep]:
  assumes "daemon_ok X s"
  shows "fine X s (enable_service_checks i s)"
proof -
  define f where "f = (\<lambda>v :: service. v\<lparr>s_modified_attributes := s_modified_attributes v OR MODATTR_ACTIVE_CHECKS_ENABLED,
    s_checks_enabled := True, s_should_be_scheduled := s_check_interval v \<noteq> 0,
    s_next_check := first_check_time (s_check_period v) s\<rparr>)"
  have k: "kept X s (upd_svc i f s)" by (rule kept_upd_svc [OF assms]) (simp add: f_def svc_ties_def)
  show ?thesis unfolding enable_service_checks_def Let_def f_def [symmetric]
    using kept_refl [OF assms] k fine_trans [OF k fine_schedule(1) [OF keptD [OF k]]] by simp
qed

lemma fine_enable_host_checks [upkeep]:
  assumes "daemon_ok X s"
  shows "fine X s (enable_host_checks h s)"
proof -
  define f where "f = (\<lambda>v :: host. v\<lparr>h_modified_attributes := h_modified_attributes v OR MODATTR_ACTIVE_CHECKS_ENABLED,
    h_checks_enabled := True, h_should_be_scheduled := h_check_interval v \<noteq> 0,
    h_next_check := first_check_time (h_check_period v) s\<rparr>)"
  have k: "kept X s (upd_host h f s)" by (rule kept_upd_host [OF assms]) (simp add: f_def host_ties_def)
  show ?thesis unfolding enable_host_checks_def Let_def f_def [symmetric]
    using kept_refl [OF assms] k fine_trans [OF k fine_schedule(2) [OF keptD [OF k]]] by simp
qed

text \<open>The recursion along the tree of hosts ends, as the tree is one.\<close>

lemma fine_descend:
  assumes "\<And>c s. daemon_ok X s \<Longrightarrow> fine X s (f c s)"
  shows "daemon_ok X s \<Longrightarrow> pointers s = p \<Longrightarrow> fine X s (descend s (f, h_child_hosts (hosts s h)))"
proof -
  define r where "r = {(c, h). c \<in> set (snd p h)}"
  show "daemon_ok X s \<Longrightarrow> pointers s = p \<Longrightarrow> fine X s (descend s (f, h_child_hosts (hosts s h)))"
  proof -
    assume start: "daemon_ok X s" "pointers s = p"
    have rel: "child_rel u = r" "h_child_hosts (hosts u k) = snd p k" if "pointers u = p" for u k
      using that by (auto simp: child_rel_def r_def pointers_def)
    have "wf r" using start daemon_okD(5) [OF start(1)] rel by (simp add: linked_def)
    then have "\<forall>s. daemon_ok X s \<longrightarrow> pointers s = p \<longrightarrow> fine X s (descend s (f, snd p h))" for h
    proof (induction h)
      case (less h)
      have "\<forall>s. daemon_ok X s \<longrightarrow> pointers s = p \<longrightarrow> fine X s (descend s (f, todo))" if "set todo \<subseteq> set (snd p h)" for todo
        using that
      proof (induction todo)
        case Nil
        then show ?case by (subst descend.simps) (simp add: kept_refl)
      next
        case (Cons c rest)
        show ?case
        proof (intro allI impI)
          fix s assume s: "daemon_ok X s" "pointers s = p"
          have "(c, h) \<in> r" using Cons.prems by (simp add: r_def)
          with less.IH s have below: "fine X s (descend s (f, h_child_hosts (hosts s c)))" by (simp add: rel(2) [OF s(2)])
          have rest: "fine X u (descend u (f, rest))" if "daemon_ok X u" "pointers u = p" for u
            using Cons that by simp
          have "fine X s (descend s (f, h_child_hosts (hosts s c)) \<bind> (\<lambda>s. f c s \<bind> (\<lambda>s. descend s (f, rest))))"
            by (intro fine_bind [OF below] fine_bind assms rest) (simp_all add: kept_def s)
          then show "fine X s (descend s (f, c # rest))" by (subst descend.simps) simp
        qed
      qed
      then show ?case by blast
    qed
    then show ?thesis using start rel(2) [OF start(2)] by simp
  qed
qed

lemma kept_comments: "daemon_ok X s \<Longrightarrow> comments_ok c \<Longrightarrow> kept X s (s\<lparr>comments := c\<rparr>)"
  by (intro kept_stays stays_comments)

lemma kept_switch_tree [upkeep]:
  assumes "\<And>c s. daemon_ok X s \<Longrightarrow> kept X s (host_switch c s)" "\<And>i s. daemon_ok X s \<Longrightarrow> kept X s (service_switch i s)"
    and "daemon_ok X s"
  shows "kept X s (switch_host_and_services ah as host_switch service_switch c s)"
proof -
  let ?s = "if ah then host_switch c s else s"
  have k: "kept X s ?s" using assms(1,3) kept_refl by simp
  have "kept X ?s (fold service_switch (h_services (hosts ?s c)) ?s)" by (rule kept_fold [OF assms(2) keptD [OF k]])
  from kept_trans [OF k this] k show ?thesis unfolding switch_host_and_services_def Let_def by (cases as) simp_all
qed

lemma fine_propagate_notifications [upkeep]:
  assumes "daemon_ok X s"
  shows "fine X s (enable_and_propagate_notifications h level affect_top ah as s)"
    "fine X s (disable_and_propagate_notifications h level affect_top ah as s)"
proof -
  have "fine X s (let s = (if c then g h s else s) in
      descend s (\<lambda>c s. Some (switch_host_and_services ah as g k c s), h_child_hosts (hosts s h)))"
    if "\<And>c s. daemon_ok X s \<Longrightarrow> kept X s (g c s)" "\<And>i s. daemon_ok X s \<Longrightarrow> kept X s (k i s)" for g k c
  proof -
    have s1: "kept X s (if c then g h s else s)" using that(1) assms kept_refl by simp
    show ?thesis unfolding Let_def
      by (rule fine_trans [OF s1 fine_descend [OF _ keptD [OF s1] refl]]) (simp add: kept_switch_tree that)
  qed
  note tree = this
  show "fine X s (enable_and_propagate_notifications h level affect_top ah as s)"
    unfolding enable_and_propagate_notifications_def by (rule tree) (rule kept_switches, assumption)+
  show "fine X s (disable_and_propagate_notifications h level affect_top ah as s)"
    unfolding disable_and_propagate_notifications_def by (rule tree) (rule kept_switches, assumption)+
qed

lemma fine_schedule_downtime [upkeep]:
  assumes "daemon_ok X s" "0 \<le> st" "st < 2 ^ 31" "du < 2 ^ 31"
  shows "fine X s (map_option (snd \<circ> snd) (schedule_downtime s ty hn d et au co st en fx tr du))"
  using kept_schedule_downtime [OF assms, of ty hn d et au co en fx tr] by (auto simp: fine_def)

lemma fine_propagate_downtime [upkeep]:
  assumes "daemon_ok X s" "0 \<le> st" "st < 2 ^ 31" "du < 2 ^ 31"
  shows "fine X s (schedule_and_propagate_downtime h et au co st en fx tr du s)"
  unfolding schedule_and_propagate_downtime_def
  by (rule fine_descend [OF _ assms(1) refl]) (rule fine_schedule_downtime [OF _ assms(2-4)])

section \<open>Comments, acknowledgements, flapping\<close>

lemma add_object_comment_ok:
  assumes "comments_ok c"
  shows "comments_ok (snd (snd (add_new_host_comment True c et (Some h) tm (Some a) (Some d) p src False 0)))"
    "comments_ok (snd (snd (add_new_service_comment True c et (Some h) (Some sd) tm (Some a) (Some d) p src False 0)))"
proof -
  have c: "cm_wf c" using assms by (simp add: comments_ok_def)
  from add_new_comment_spec [OF c, of HOST_COMMENT None et h tm a d p src False 0]
  show "comments_ok (snd (snd (add_new_host_comment True c et (Some h) tm (Some a) (Some d) p src False 0)))"
    by (auto simp: add_new_comment_def comments_ok_def split: prod.splits)
  from add_new_comment_spec [OF c, of SERVICE_COMMENT "Some sd" et h tm a d p src False 0]
  show "comments_ok (snd (snd (add_new_service_comment True c et (Some h) (Some sd) tm (Some a) (Some d) p src False 0)))"
    by (auto simp: add_new_comment_def comments_ok_def split: prod.splits)
qed

lemma daemon_comments_ok: "daemon_ok X s \<Longrightarrow> comments_ok (comments s)"
  using daemon_okD(2) by (simp add: flap_ready_def)

lemma fine_add_comment:
  assumes "daemon_ok X s"
  shows "fine X s (case add_new_host_comment True (comments s) et (Some h) tm (Some a) (Some d) p src False 0 of
      (_, _, c) \<Rightarrow> Some (s\<lparr>comments := c\<rparr>))"
    "fine X s (case add_new_service_comment True (comments s) et (Some h) (Some sd) tm (Some a) (Some d) p src False 0 of
      (_, _, c) \<Rightarrow> Some (s\<lparr>comments := c\<rparr>))"
  using kept_comments [OF assms add_object_comment_ok(1) [OF daemon_comments_ok [OF assms]]]
    kept_comments [OF assms add_object_comment_ok(2) [OF daemon_comments_ok [OF assms]]]
  by (simp_all add: case_prod_beta)

lemma fine_optional: "daemon_ok X s \<Longrightarrow> fine X s r \<Longrightarrow> fine X s (if b then r else Some s)"
  by (simp add: kept_refl)

lemma fine_acknowledge [upkeep]:
  assumes "daemon_ok X s"
  shows "fine X s (acknowledge_host_problem h au d ty nf p s)" "fine X s (acknowledge_service_problem i au d ty nf p s)"
proof -
  have host: "kept X u (upd_host h (\<lambda>v. v\<lparr>h_problem_has_been_acknowledged := True, h_acknowledgement_type := n\<rparr>) u)"
    if "daemon_ok X u" for u n by (rule kept_upd_host [OF that]) (simp add: host_ties_def)
  have svc: "kept X u (upd_svc i (\<lambda>v. v\<lparr>s_problem_has_been_acknowledged := True, s_acknowledgement_type := n\<rparr>) u)"
    if "daemon_ok X u" for u n by (rule kept_upd_svc [OF that]) (simp add: svc_ties_def)
  show "fine X s (acknowledge_host_problem h au d ty nf p s)"
    unfolding acknowledge_host_problem_def Let_def
    by (rule fine_cases [OF kept_refl [OF assms]], rule fine_bind [OF fine_optional [OF assms fine_notification(2) [OF assms]]],
      rule fine_trans [OF host [OF keptD] fine_add_comment(1) [OF keptD [OF host [OF keptD]]]])
  show "fine X s (acknowledge_service_problem i au d ty nf p s)"
    unfolding acknowledge_service_problem_def Let_def
    by (rule fine_cases [OF kept_refl [OF assms]], rule fine_bind [OF fine_optional [OF assms fine_notification(1) [OF assms]]],
      rule fine_trans [OF svc [OF keptD] fine_add_comment(2) [OF keptD [OF svc [OF keptD]]]])
qed

lemma fine_remove_acknowledgement [upkeep]:
  assumes "daemon_ok X s"
  shows "fine X s (remove_host_acknowledgement h s)" "fine X s (remove_service_acknowledgement i s)"
proof -
  let ?h = "upd_host h (\<lambda>v. v\<lparr>h_problem_has_been_acknowledged := False\<rparr>) s"
  let ?i = "upd_svc i (\<lambda>v. v\<lparr>s_problem_has_been_acknowledged := False\<rparr>) s"
  have kh: "kept X s ?h" by (rule kept_upd_host [OF assms]) (simp add: host_ties_def)
  have ki: "kept X s ?i" by (rule kept_upd_svc [OF assms]) (simp add: svc_ties_def)
  from delete_ack_ok(2) [OF daemon_comments_ok [OF keptD [OF kh]], of "h_name (hosts ?h h)"] obtain c where
    c: "delete_host_acknowledgement_comments (comments ?h) (h_name (hosts ?h h)) = Some (OK, c)" "comments_ok c" by blast
  from kept_trans [OF kh kept_comments [OF keptD [OF kh] c(2)]] c(1)
  show "fine X s (remove_host_acknowledgement h s)" by (simp add: remove_host_acknowledgement_def Let_def)
  from delete_ack_ok(1) [OF daemon_comments_ok [OF keptD [OF ki]], of "s_host_name (svcs ?i i)" "s_description (svcs ?i i)"] obtain c where
    c: "delete_service_acknowledgement_comments (comments ?i) (s_host_name (svcs ?i i)) (s_description (svcs ?i i)) = Some (OK, c)" "comments_ok c" by blast
  from kept_trans [OF ki kept_comments [OF keptD [OF ki] c(2)]] c(1)
  show "fine X s (remove_service_acknowledgement i s)" by (simp add: remove_service_acknowledgement_def Let_def)
qed

lemma kept_notification_number [upkeep]:
  assumes "daemon_ok X s"
  shows "kept X s (set_host_notification_number h n s)" "kept X s (set_service_notification_number i n s)"
  unfolding set_host_notification_number_def set_service_notification_number_def
  by (rule kept_upd_host [OF assms], simp add: host_ties_def) (rule kept_upd_svc [OF assms], simp add: svc_ties_def)

text \<open>The ring of states is cleared with its index.\<close>

lemma kept_flap_fields:
  assumes "daemon_ok X s" "flap_core s' = flap_core s" "comments s' = comments s"
    "\<And>i. fst (rings s') i < MAX_STATE_HISTORY_ENTRIES" "\<And>h. snd (rings s') h < MAX_STATE_HISTORY_ENTRIES"
  shows "kept X s s'"
proof -
  have "flap_ready s'" unfolding flap_ready_def acyclic_links_frame [OF flap_coreD(3) [OF assms(2)]] assms(3)
    using daemon_okD(2) [OF assms(1)] assms(4,5) by (simp add: flap_ready_def)
  then show ?thesis by (intro kept_stays stays_flap [OF assms(1) _ assms(2)])
qed

lemma kept_clear_ring:
  assumes "daemon_ok X s"
  shows "kept X s (upd_svc i (\<lambda>v. v\<lparr>s_state_history := xs, s_state_history_index := 0, s_percent_state_change := 0\<rparr>) s)"
    "kept X s (upd_host h (\<lambda>v. v\<lparr>h_state_history := xs, h_state_history_index := 0, h_percent_state_change := 0\<rparr>) s)"
    "kept X s (upd_svc i (\<lambda>v. v\<lparr>s_check_flapping_recovery_notification := b\<rparr>) s)"
    "kept X s (upd_host h (\<lambda>v. v\<lparr>h_check_flapping_recovery_notification := b\<rparr>) s)"
  using daemon_okD(2) [OF assms]
  by (intro kept_flap_fields [OF assms]; simp add: flap_ready_def rings_def flap_core_svc flap_core_host
    svc_flap_core_def svc_core_def host_flap_core_def host_core_def MAX_STATE_HISTORY_ENTRIES_def)+

lemma fine_flap [upkeep]:
  assumes "daemon_ok X s"
  shows "fine X s (flapping_over_service i ty s)" "fine X s (flapping_over_host h ty s)"
    "fine X s (forget_service_flap i s)" "fine X s (forget_host_flap h s)"
proof -
  have "fine X s (Some s')" if "flap_ready s'" "flap_core s' = flap_core s" for s'
    using kept_stays [OF stays_flap [OF assms that]] by simp
  note ok = this
  show "fine X s (flapping_over_service i ty s)" using flapping_over_service_spec [OF daemon_okD(2) [OF assms], of i ty] ok by metis
  show "fine X s (flapping_over_host h ty s)" using flapping_over_host_spec [OF daemon_okD(2) [OF assms], of h ty] ok by metis
  show "fine X s (forget_service_flap i s)" using forget_service_flap_spec [OF daemon_okD(2) [OF assms], of i] ok by metis
  show "fine X s (forget_host_flap h s)" using forget_host_flap_spec [OF daemon_okD(2) [OF assms], of h] ok by metis
qed

lemma fine_clear_flapping [upkeep]:
  assumes "daemon_ok X s"
  shows "fine X s (clear_host_flapping_state h s)" "fine X s (clear_service_flapping_state i s)"
proof -
  show "fine X s (clear_host_flapping_state h s)"
    unfolding clear_host_flapping_state_def Let_def
  proof (rule fine_cases [OF kept_refl [OF assms]], rule fine_bind [OF fine_optional [OF assms fine_flap(2) [OF assms]]])
    fix u assume "kept X s u"
    note ring = kept_clear_ring(2) [OF keptD [OF this], of h "replicate MAX_STATE_HISTORY_ENTRIES 0"]
    show "fine X u (forget_host_flap h (upd_host h (\<lambda>v. v\<lparr>h_state_history := replicate MAX_STATE_HISTORY_ENTRIES 0,
        h_state_history_index := 0, h_percent_state_change := 0\<rparr>) u)
      \<bind> (\<lambda>s. Some (upd_host h (\<lambda>v. v\<lparr>h_check_flapping_recovery_notification := False\<rparr>) s)))"
      by (rule fine_trans [OF ring fine_bind [OF fine_flap(4) [OF keptD [OF ring]]]]) (simp add: kept_clear_ring keptD)
  qed
  show "fine X s (clear_service_flapping_state i s)"
    unfolding clear_service_flapping_state_def Let_def
  proof (rule fine_cases [OF kept_refl [OF assms]], rule fine_bind [OF fine_optional [OF assms fine_flap(1) [OF assms]]])
    fix u assume "kept X s u"
    note ring = kept_clear_ring(1) [OF keptD [OF this], of i "replicate MAX_STATE_HISTORY_ENTRIES 0"]
    show "fine X u (forget_service_flap i (upd_svc i (\<lambda>v. v\<lparr>s_state_history := replicate MAX_STATE_HISTORY_ENTRIES 0,
        s_state_history_index := 0, s_percent_state_change := 0\<rparr>) u)
      \<bind> (\<lambda>s. Some (upd_svc i (\<lambda>v. v\<lparr>s_check_flapping_recovery_notification := False\<rparr>) s)))"
      by (rule fine_trans [OF ring fine_bind [OF fine_flap(3) [OF keptD [OF ring]]]]) (simp add: kept_clear_ring keptD)
  qed
qed

end
