(* ===== verification/CommandText.thy ===== *)
theory CommandText
  imports DowntimeFrames PluginOutput
begin

text \<open>
  The text of external commands, the first half of \<open>base/commands.c\<close>: a line
  \<open>[time] NAME;argument;argument\<close> is split into its entry time, its command and its arguments, and numbers in
  arguments are read by the functions of the C library.  The theory holds the numbers of the commands
  (\<open>include/common.h\<close>), their names, and how both are found in a line; that a well-formed line is read as it
  is meant is a property.
\<close>

section \<open>Numbers of commands and results\<close>

abbreviation (input) CMD_NONE :: nat where "CMD_NONE \<equiv> 0"
abbreviation (input) CMD_ADD_HOST_COMMENT :: nat where "CMD_ADD_HOST_COMMENT \<equiv> 1"
abbreviation (input) CMD_DEL_HOST_COMMENT :: nat where "CMD_DEL_HOST_COMMENT \<equiv> 2"
abbreviation (input) CMD_ADD_SVC_COMMENT :: nat where "CMD_ADD_SVC_COMMENT \<equiv> 3"
abbreviation (input) CMD_DEL_SVC_COMMENT :: nat where "CMD_DEL_SVC_COMMENT \<equiv> 4"
abbreviation (input) CMD_ENABLE_SVC_CHECK :: nat where "CMD_ENABLE_SVC_CHECK \<equiv> 5"
abbreviation (input) CMD_DISABLE_SVC_CHECK :: nat where "CMD_DISABLE_SVC_CHECK \<equiv> 6"
abbreviation (input) CMD_SCHEDULE_SVC_CHECK :: nat where "CMD_SCHEDULE_SVC_CHECK \<equiv> 7"
abbreviation (input) CMD_DELAY_SVC_NOTIFICATION :: nat where "CMD_DELAY_SVC_NOTIFICATION \<equiv> 9"
abbreviation (input) CMD_DELAY_HOST_NOTIFICATION :: nat where "CMD_DELAY_HOST_NOTIFICATION \<equiv> 10"
abbreviation (input) CMD_DISABLE_NOTIFICATIONS :: nat where "CMD_DISABLE_NOTIFICATIONS \<equiv> 11"
abbreviation (input) CMD_ENABLE_NOTIFICATIONS :: nat where "CMD_ENABLE_NOTIFICATIONS \<equiv> 12"
abbreviation (input) CMD_RESTART_PROCESS :: nat where "CMD_RESTART_PROCESS \<equiv> 13"
abbreviation (input) CMD_SHUTDOWN_PROCESS :: nat where "CMD_SHUTDOWN_PROCESS \<equiv> 14"
abbreviation (input) CMD_ENABLE_HOST_SVC_CHECKS :: nat where "CMD_ENABLE_HOST_SVC_CHECKS \<equiv> 15"
abbreviation (input) CMD_DISABLE_HOST_SVC_CHECKS :: nat where "CMD_DISABLE_HOST_SVC_CHECKS \<equiv> 16"
abbreviation (input) CMD_SCHEDULE_HOST_SVC_CHECKS :: nat where "CMD_SCHEDULE_HOST_SVC_CHECKS \<equiv> 17"
abbreviation (input) CMD_DEL_ALL_HOST_COMMENTS :: nat where "CMD_DEL_ALL_HOST_COMMENTS \<equiv> 20"
abbreviation (input) CMD_DEL_ALL_SVC_COMMENTS :: nat where "CMD_DEL_ALL_SVC_COMMENTS \<equiv> 21"
abbreviation (input) CMD_ENABLE_SVC_NOTIFICATIONS :: nat where "CMD_ENABLE_SVC_NOTIFICATIONS \<equiv> 22"
abbreviation (input) CMD_DISABLE_SVC_NOTIFICATIONS :: nat where "CMD_DISABLE_SVC_NOTIFICATIONS \<equiv> 23"
abbreviation (input) CMD_ENABLE_HOST_NOTIFICATIONS :: nat where "CMD_ENABLE_HOST_NOTIFICATIONS \<equiv> 24"
abbreviation (input) CMD_DISABLE_HOST_NOTIFICATIONS :: nat where "CMD_DISABLE_HOST_NOTIFICATIONS \<equiv> 25"
abbreviation (input) CMD_ENABLE_ALL_NOTIFICATIONS_BEYOND_HOST :: nat where "CMD_ENABLE_ALL_NOTIFICATIONS_BEYOND_HOST \<equiv> 26"
abbreviation (input) CMD_DISABLE_ALL_NOTIFICATIONS_BEYOND_HOST :: nat where "CMD_DISABLE_ALL_NOTIFICATIONS_BEYOND_HOST \<equiv> 27"
abbreviation (input) CMD_ENABLE_HOST_SVC_NOTIFICATIONS :: nat where "CMD_ENABLE_HOST_SVC_NOTIFICATIONS \<equiv> 28"
abbreviation (input) CMD_DISABLE_HOST_SVC_NOTIFICATIONS :: nat where "CMD_DISABLE_HOST_SVC_NOTIFICATIONS \<equiv> 29"
abbreviation (input) CMD_PROCESS_SERVICE_CHECK_RESULT :: nat where "CMD_PROCESS_SERVICE_CHECK_RESULT \<equiv> 30"
abbreviation (input) CMD_SAVE_STATE_INFORMATION :: nat where "CMD_SAVE_STATE_INFORMATION \<equiv> 31"
abbreviation (input) CMD_READ_STATE_INFORMATION :: nat where "CMD_READ_STATE_INFORMATION \<equiv> 32"
abbreviation (input) CMD_ACKNOWLEDGE_HOST_PROBLEM :: nat where "CMD_ACKNOWLEDGE_HOST_PROBLEM \<equiv> 33"
abbreviation (input) CMD_ACKNOWLEDGE_SVC_PROBLEM :: nat where "CMD_ACKNOWLEDGE_SVC_PROBLEM \<equiv> 34"
abbreviation (input) CMD_START_EXECUTING_SVC_CHECKS :: nat where "CMD_START_EXECUTING_SVC_CHECKS \<equiv> 35"
abbreviation (input) CMD_STOP_EXECUTING_SVC_CHECKS :: nat where "CMD_STOP_EXECUTING_SVC_CHECKS \<equiv> 36"
abbreviation (input) CMD_START_ACCEPTING_PASSIVE_SVC_CHECKS :: nat where "CMD_START_ACCEPTING_PASSIVE_SVC_CHECKS \<equiv> 37"
abbreviation (input) CMD_STOP_ACCEPTING_PASSIVE_SVC_CHECKS :: nat where "CMD_STOP_ACCEPTING_PASSIVE_SVC_CHECKS \<equiv> 38"
abbreviation (input) CMD_ENABLE_PASSIVE_SVC_CHECKS :: nat where "CMD_ENABLE_PASSIVE_SVC_CHECKS \<equiv> 39"
abbreviation (input) CMD_DISABLE_PASSIVE_SVC_CHECKS :: nat where "CMD_DISABLE_PASSIVE_SVC_CHECKS \<equiv> 40"
abbreviation (input) CMD_ENABLE_EVENT_HANDLERS :: nat where "CMD_ENABLE_EVENT_HANDLERS \<equiv> 41"
abbreviation (input) CMD_DISABLE_EVENT_HANDLERS :: nat where "CMD_DISABLE_EVENT_HANDLERS \<equiv> 42"
abbreviation (input) CMD_ENABLE_HOST_EVENT_HANDLER :: nat where "CMD_ENABLE_HOST_EVENT_HANDLER \<equiv> 43"
abbreviation (input) CMD_DISABLE_HOST_EVENT_HANDLER :: nat where "CMD_DISABLE_HOST_EVENT_HANDLER \<equiv> 44"
abbreviation (input) CMD_ENABLE_SVC_EVENT_HANDLER :: nat where "CMD_ENABLE_SVC_EVENT_HANDLER \<equiv> 45"
abbreviation (input) CMD_DISABLE_SVC_EVENT_HANDLER :: nat where "CMD_DISABLE_SVC_EVENT_HANDLER \<equiv> 46"
abbreviation (input) CMD_ENABLE_HOST_CHECK :: nat where "CMD_ENABLE_HOST_CHECK \<equiv> 47"
abbreviation (input) CMD_DISABLE_HOST_CHECK :: nat where "CMD_DISABLE_HOST_CHECK \<equiv> 48"
abbreviation (input) CMD_START_OBSESSING_OVER_SVC_CHECKS :: nat where "CMD_START_OBSESSING_OVER_SVC_CHECKS \<equiv> 49"
abbreviation (input) CMD_STOP_OBSESSING_OVER_SVC_CHECKS :: nat where "CMD_STOP_OBSESSING_OVER_SVC_CHECKS \<equiv> 50"
abbreviation (input) CMD_REMOVE_HOST_ACKNOWLEDGEMENT :: nat where "CMD_REMOVE_HOST_ACKNOWLEDGEMENT \<equiv> 51"
abbreviation (input) CMD_REMOVE_SVC_ACKNOWLEDGEMENT :: nat where "CMD_REMOVE_SVC_ACKNOWLEDGEMENT \<equiv> 52"
abbreviation (input) CMD_SCHEDULE_FORCED_HOST_SVC_CHECKS :: nat where "CMD_SCHEDULE_FORCED_HOST_SVC_CHECKS \<equiv> 53"
abbreviation (input) CMD_SCHEDULE_FORCED_SVC_CHECK :: nat where "CMD_SCHEDULE_FORCED_SVC_CHECK \<equiv> 54"
abbreviation (input) CMD_SCHEDULE_HOST_DOWNTIME :: nat where "CMD_SCHEDULE_HOST_DOWNTIME \<equiv> 55"
abbreviation (input) CMD_SCHEDULE_SVC_DOWNTIME :: nat where "CMD_SCHEDULE_SVC_DOWNTIME \<equiv> 56"
abbreviation (input) CMD_ENABLE_HOST_FLAP_DETECTION :: nat where "CMD_ENABLE_HOST_FLAP_DETECTION \<equiv> 57"
abbreviation (input) CMD_DISABLE_HOST_FLAP_DETECTION :: nat where "CMD_DISABLE_HOST_FLAP_DETECTION \<equiv> 58"
abbreviation (input) CMD_ENABLE_SVC_FLAP_DETECTION :: nat where "CMD_ENABLE_SVC_FLAP_DETECTION \<equiv> 59"
abbreviation (input) CMD_DISABLE_SVC_FLAP_DETECTION :: nat where "CMD_DISABLE_SVC_FLAP_DETECTION \<equiv> 60"
abbreviation (input) CMD_ENABLE_FLAP_DETECTION :: nat where "CMD_ENABLE_FLAP_DETECTION \<equiv> 61"
abbreviation (input) CMD_DISABLE_FLAP_DETECTION :: nat where "CMD_DISABLE_FLAP_DETECTION \<equiv> 62"
abbreviation (input) CMD_ENABLE_HOSTGROUP_SVC_NOTIFICATIONS :: nat where "CMD_ENABLE_HOSTGROUP_SVC_NOTIFICATIONS \<equiv> 63"
abbreviation (input) CMD_DISABLE_HOSTGROUP_SVC_NOTIFICATIONS :: nat where "CMD_DISABLE_HOSTGROUP_SVC_NOTIFICATIONS \<equiv> 64"
abbreviation (input) CMD_ENABLE_HOSTGROUP_HOST_NOTIFICATIONS :: nat where "CMD_ENABLE_HOSTGROUP_HOST_NOTIFICATIONS \<equiv> 65"
abbreviation (input) CMD_DISABLE_HOSTGROUP_HOST_NOTIFICATIONS :: nat where "CMD_DISABLE_HOSTGROUP_HOST_NOTIFICATIONS \<equiv> 66"
abbreviation (input) CMD_ENABLE_HOSTGROUP_SVC_CHECKS :: nat where "CMD_ENABLE_HOSTGROUP_SVC_CHECKS \<equiv> 67"
abbreviation (input) CMD_DISABLE_HOSTGROUP_SVC_CHECKS :: nat where "CMD_DISABLE_HOSTGROUP_SVC_CHECKS \<equiv> 68"
abbreviation (input) CMD_DEL_HOST_DOWNTIME :: nat where "CMD_DEL_HOST_DOWNTIME \<equiv> 78"
abbreviation (input) CMD_DEL_SVC_DOWNTIME :: nat where "CMD_DEL_SVC_DOWNTIME \<equiv> 79"
abbreviation (input) CMD_ENABLE_PERFORMANCE_DATA :: nat where "CMD_ENABLE_PERFORMANCE_DATA \<equiv> 82"
abbreviation (input) CMD_DISABLE_PERFORMANCE_DATA :: nat where "CMD_DISABLE_PERFORMANCE_DATA \<equiv> 83"
abbreviation (input) CMD_SCHEDULE_HOSTGROUP_HOST_DOWNTIME :: nat where "CMD_SCHEDULE_HOSTGROUP_HOST_DOWNTIME \<equiv> 84"
abbreviation (input) CMD_SCHEDULE_HOSTGROUP_SVC_DOWNTIME :: nat where "CMD_SCHEDULE_HOSTGROUP_SVC_DOWNTIME \<equiv> 85"
abbreviation (input) CMD_SCHEDULE_HOST_SVC_DOWNTIME :: nat where "CMD_SCHEDULE_HOST_SVC_DOWNTIME \<equiv> 86"
abbreviation (input) CMD_PROCESS_HOST_CHECK_RESULT :: nat where "CMD_PROCESS_HOST_CHECK_RESULT \<equiv> 87"
abbreviation (input) CMD_START_EXECUTING_HOST_CHECKS :: nat where "CMD_START_EXECUTING_HOST_CHECKS \<equiv> 88"
abbreviation (input) CMD_STOP_EXECUTING_HOST_CHECKS :: nat where "CMD_STOP_EXECUTING_HOST_CHECKS \<equiv> 89"
abbreviation (input) CMD_START_ACCEPTING_PASSIVE_HOST_CHECKS :: nat where "CMD_START_ACCEPTING_PASSIVE_HOST_CHECKS \<equiv> 90"
abbreviation (input) CMD_STOP_ACCEPTING_PASSIVE_HOST_CHECKS :: nat where "CMD_STOP_ACCEPTING_PASSIVE_HOST_CHECKS \<equiv> 91"
abbreviation (input) CMD_ENABLE_PASSIVE_HOST_CHECKS :: nat where "CMD_ENABLE_PASSIVE_HOST_CHECKS \<equiv> 92"
abbreviation (input) CMD_DISABLE_PASSIVE_HOST_CHECKS :: nat where "CMD_DISABLE_PASSIVE_HOST_CHECKS \<equiv> 93"
abbreviation (input) CMD_START_OBSESSING_OVER_HOST_CHECKS :: nat where "CMD_START_OBSESSING_OVER_HOST_CHECKS \<equiv> 94"
abbreviation (input) CMD_STOP_OBSESSING_OVER_HOST_CHECKS :: nat where "CMD_STOP_OBSESSING_OVER_HOST_CHECKS \<equiv> 95"
abbreviation (input) CMD_SCHEDULE_HOST_CHECK :: nat where "CMD_SCHEDULE_HOST_CHECK \<equiv> 96"
abbreviation (input) CMD_SCHEDULE_FORCED_HOST_CHECK :: nat where "CMD_SCHEDULE_FORCED_HOST_CHECK \<equiv> 98"
abbreviation (input) CMD_START_OBSESSING_OVER_SVC :: nat where "CMD_START_OBSESSING_OVER_SVC \<equiv> 99"
abbreviation (input) CMD_STOP_OBSESSING_OVER_SVC :: nat where "CMD_STOP_OBSESSING_OVER_SVC \<equiv> 100"
abbreviation (input) CMD_START_OBSESSING_OVER_HOST :: nat where "CMD_START_OBSESSING_OVER_HOST \<equiv> 101"
abbreviation (input) CMD_STOP_OBSESSING_OVER_HOST :: nat where "CMD_STOP_OBSESSING_OVER_HOST \<equiv> 102"
abbreviation (input) CMD_ENABLE_HOSTGROUP_HOST_CHECKS :: nat where "CMD_ENABLE_HOSTGROUP_HOST_CHECKS \<equiv> 103"
abbreviation (input) CMD_DISABLE_HOSTGROUP_HOST_CHECKS :: nat where "CMD_DISABLE_HOSTGROUP_HOST_CHECKS \<equiv> 104"
abbreviation (input) CMD_ENABLE_HOSTGROUP_PASSIVE_SVC_CHECKS :: nat where "CMD_ENABLE_HOSTGROUP_PASSIVE_SVC_CHECKS \<equiv> 105"
abbreviation (input) CMD_DISABLE_HOSTGROUP_PASSIVE_SVC_CHECKS :: nat where "CMD_DISABLE_HOSTGROUP_PASSIVE_SVC_CHECKS \<equiv> 106"
abbreviation (input) CMD_ENABLE_HOSTGROUP_PASSIVE_HOST_CHECKS :: nat where "CMD_ENABLE_HOSTGROUP_PASSIVE_HOST_CHECKS \<equiv> 107"
abbreviation (input) CMD_DISABLE_HOSTGROUP_PASSIVE_HOST_CHECKS :: nat where "CMD_DISABLE_HOSTGROUP_PASSIVE_HOST_CHECKS \<equiv> 108"
abbreviation (input) CMD_ENABLE_SERVICEGROUP_SVC_NOTIFICATIONS :: nat where "CMD_ENABLE_SERVICEGROUP_SVC_NOTIFICATIONS \<equiv> 109"
abbreviation (input) CMD_DISABLE_SERVICEGROUP_SVC_NOTIFICATIONS :: nat where "CMD_DISABLE_SERVICEGROUP_SVC_NOTIFICATIONS \<equiv> 110"
abbreviation (input) CMD_ENABLE_SERVICEGROUP_HOST_NOTIFICATIONS :: nat where "CMD_ENABLE_SERVICEGROUP_HOST_NOTIFICATIONS \<equiv> 111"
abbreviation (input) CMD_DISABLE_SERVICEGROUP_HOST_NOTIFICATIONS :: nat where "CMD_DISABLE_SERVICEGROUP_HOST_NOTIFICATIONS \<equiv> 112"
abbreviation (input) CMD_ENABLE_SERVICEGROUP_SVC_CHECKS :: nat where "CMD_ENABLE_SERVICEGROUP_SVC_CHECKS \<equiv> 113"
abbreviation (input) CMD_DISABLE_SERVICEGROUP_SVC_CHECKS :: nat where "CMD_DISABLE_SERVICEGROUP_SVC_CHECKS \<equiv> 114"
abbreviation (input) CMD_ENABLE_SERVICEGROUP_HOST_CHECKS :: nat where "CMD_ENABLE_SERVICEGROUP_HOST_CHECKS \<equiv> 115"
abbreviation (input) CMD_DISABLE_SERVICEGROUP_HOST_CHECKS :: nat where "CMD_DISABLE_SERVICEGROUP_HOST_CHECKS \<equiv> 116"
abbreviation (input) CMD_ENABLE_SERVICEGROUP_PASSIVE_SVC_CHECKS :: nat where "CMD_ENABLE_SERVICEGROUP_PASSIVE_SVC_CHECKS \<equiv> 117"
abbreviation (input) CMD_DISABLE_SERVICEGROUP_PASSIVE_SVC_CHECKS :: nat where "CMD_DISABLE_SERVICEGROUP_PASSIVE_SVC_CHECKS \<equiv> 118"
abbreviation (input) CMD_ENABLE_SERVICEGROUP_PASSIVE_HOST_CHECKS :: nat where "CMD_ENABLE_SERVICEGROUP_PASSIVE_HOST_CHECKS \<equiv> 119"
abbreviation (input) CMD_DISABLE_SERVICEGROUP_PASSIVE_HOST_CHECKS :: nat where "CMD_DISABLE_SERVICEGROUP_PASSIVE_HOST_CHECKS \<equiv> 120"
abbreviation (input) CMD_SCHEDULE_SERVICEGROUP_HOST_DOWNTIME :: nat where "CMD_SCHEDULE_SERVICEGROUP_HOST_DOWNTIME \<equiv> 121"
abbreviation (input) CMD_SCHEDULE_SERVICEGROUP_SVC_DOWNTIME :: nat where "CMD_SCHEDULE_SERVICEGROUP_SVC_DOWNTIME \<equiv> 122"
abbreviation (input) CMD_CHANGE_GLOBAL_HOST_EVENT_HANDLER :: nat where "CMD_CHANGE_GLOBAL_HOST_EVENT_HANDLER \<equiv> 123"
abbreviation (input) CMD_CHANGE_GLOBAL_SVC_EVENT_HANDLER :: nat where "CMD_CHANGE_GLOBAL_SVC_EVENT_HANDLER \<equiv> 124"
abbreviation (input) CMD_CHANGE_HOST_EVENT_HANDLER :: nat where "CMD_CHANGE_HOST_EVENT_HANDLER \<equiv> 125"
abbreviation (input) CMD_CHANGE_SVC_EVENT_HANDLER :: nat where "CMD_CHANGE_SVC_EVENT_HANDLER \<equiv> 126"
abbreviation (input) CMD_CHANGE_HOST_CHECK_COMMAND :: nat where "CMD_CHANGE_HOST_CHECK_COMMAND \<equiv> 127"
abbreviation (input) CMD_CHANGE_SVC_CHECK_COMMAND :: nat where "CMD_CHANGE_SVC_CHECK_COMMAND \<equiv> 128"
abbreviation (input) CMD_CHANGE_NORMAL_HOST_CHECK_INTERVAL :: nat where "CMD_CHANGE_NORMAL_HOST_CHECK_INTERVAL \<equiv> 129"
abbreviation (input) CMD_CHANGE_NORMAL_SVC_CHECK_INTERVAL :: nat where "CMD_CHANGE_NORMAL_SVC_CHECK_INTERVAL \<equiv> 130"
abbreviation (input) CMD_CHANGE_RETRY_SVC_CHECK_INTERVAL :: nat where "CMD_CHANGE_RETRY_SVC_CHECK_INTERVAL \<equiv> 131"
abbreviation (input) CMD_CHANGE_MAX_HOST_CHECK_ATTEMPTS :: nat where "CMD_CHANGE_MAX_HOST_CHECK_ATTEMPTS \<equiv> 132"
abbreviation (input) CMD_CHANGE_MAX_SVC_CHECK_ATTEMPTS :: nat where "CMD_CHANGE_MAX_SVC_CHECK_ATTEMPTS \<equiv> 133"
abbreviation (input) CMD_SCHEDULE_AND_PROPAGATE_TRIGGERED_HOST_DOWNTIME :: nat where "CMD_SCHEDULE_AND_PROPAGATE_TRIGGERED_HOST_DOWNTIME \<equiv> 134"
abbreviation (input) CMD_ENABLE_HOST_AND_CHILD_NOTIFICATIONS :: nat where "CMD_ENABLE_HOST_AND_CHILD_NOTIFICATIONS \<equiv> 135"
abbreviation (input) CMD_DISABLE_HOST_AND_CHILD_NOTIFICATIONS :: nat where "CMD_DISABLE_HOST_AND_CHILD_NOTIFICATIONS \<equiv> 136"
abbreviation (input) CMD_SCHEDULE_AND_PROPAGATE_HOST_DOWNTIME :: nat where "CMD_SCHEDULE_AND_PROPAGATE_HOST_DOWNTIME \<equiv> 137"
abbreviation (input) CMD_ENABLE_SERVICE_FRESHNESS_CHECKS :: nat where "CMD_ENABLE_SERVICE_FRESHNESS_CHECKS \<equiv> 138"
abbreviation (input) CMD_DISABLE_SERVICE_FRESHNESS_CHECKS :: nat where "CMD_DISABLE_SERVICE_FRESHNESS_CHECKS \<equiv> 139"
abbreviation (input) CMD_ENABLE_HOST_FRESHNESS_CHECKS :: nat where "CMD_ENABLE_HOST_FRESHNESS_CHECKS \<equiv> 140"
abbreviation (input) CMD_DISABLE_HOST_FRESHNESS_CHECKS :: nat where "CMD_DISABLE_HOST_FRESHNESS_CHECKS \<equiv> 141"
abbreviation (input) CMD_SET_HOST_NOTIFICATION_NUMBER :: nat where "CMD_SET_HOST_NOTIFICATION_NUMBER \<equiv> 142"
abbreviation (input) CMD_SET_SVC_NOTIFICATION_NUMBER :: nat where "CMD_SET_SVC_NOTIFICATION_NUMBER \<equiv> 143"
abbreviation (input) CMD_CHANGE_HOST_CHECK_TIMEPERIOD :: nat where "CMD_CHANGE_HOST_CHECK_TIMEPERIOD \<equiv> 144"
abbreviation (input) CMD_CHANGE_SVC_CHECK_TIMEPERIOD :: nat where "CMD_CHANGE_SVC_CHECK_TIMEPERIOD \<equiv> 145"
abbreviation (input) CMD_PROCESS_FILE :: nat where "CMD_PROCESS_FILE \<equiv> 146"
abbreviation (input) CMD_CHANGE_CUSTOM_HOST_VAR :: nat where "CMD_CHANGE_CUSTOM_HOST_VAR \<equiv> 147"
abbreviation (input) CMD_CHANGE_CUSTOM_SVC_VAR :: nat where "CMD_CHANGE_CUSTOM_SVC_VAR \<equiv> 148"
abbreviation (input) CMD_CHANGE_CUSTOM_CONTACT_VAR :: nat where "CMD_CHANGE_CUSTOM_CONTACT_VAR \<equiv> 149"
abbreviation (input) CMD_ENABLE_CONTACT_HOST_NOTIFICATIONS :: nat where "CMD_ENABLE_CONTACT_HOST_NOTIFICATIONS \<equiv> 150"
abbreviation (input) CMD_DISABLE_CONTACT_HOST_NOTIFICATIONS :: nat where "CMD_DISABLE_CONTACT_HOST_NOTIFICATIONS \<equiv> 151"
abbreviation (input) CMD_ENABLE_CONTACT_SVC_NOTIFICATIONS :: nat where "CMD_ENABLE_CONTACT_SVC_NOTIFICATIONS \<equiv> 152"
abbreviation (input) CMD_DISABLE_CONTACT_SVC_NOTIFICATIONS :: nat where "CMD_DISABLE_CONTACT_SVC_NOTIFICATIONS \<equiv> 153"
abbreviation (input) CMD_ENABLE_CONTACTGROUP_HOST_NOTIFICATIONS :: nat where "CMD_ENABLE_CONTACTGROUP_HOST_NOTIFICATIONS \<equiv> 154"
abbreviation (input) CMD_DISABLE_CONTACTGROUP_HOST_NOTIFICATIONS :: nat where "CMD_DISABLE_CONTACTGROUP_HOST_NOTIFICATIONS \<equiv> 155"
abbreviation (input) CMD_ENABLE_CONTACTGROUP_SVC_NOTIFICATIONS :: nat where "CMD_ENABLE_CONTACTGROUP_SVC_NOTIFICATIONS \<equiv> 156"
abbreviation (input) CMD_DISABLE_CONTACTGROUP_SVC_NOTIFICATIONS :: nat where "CMD_DISABLE_CONTACTGROUP_SVC_NOTIFICATIONS \<equiv> 157"
abbreviation (input) CMD_CHANGE_RETRY_HOST_CHECK_INTERVAL :: nat where "CMD_CHANGE_RETRY_HOST_CHECK_INTERVAL \<equiv> 158"
abbreviation (input) CMD_SEND_CUSTOM_HOST_NOTIFICATION :: nat where "CMD_SEND_CUSTOM_HOST_NOTIFICATION \<equiv> 159"
abbreviation (input) CMD_SEND_CUSTOM_SVC_NOTIFICATION :: nat where "CMD_SEND_CUSTOM_SVC_NOTIFICATION \<equiv> 160"
abbreviation (input) CMD_CHANGE_HOST_NOTIFICATION_TIMEPERIOD :: nat where "CMD_CHANGE_HOST_NOTIFICATION_TIMEPERIOD \<equiv> 161"
abbreviation (input) CMD_CHANGE_SVC_NOTIFICATION_TIMEPERIOD :: nat where "CMD_CHANGE_SVC_NOTIFICATION_TIMEPERIOD \<equiv> 162"
abbreviation (input) CMD_CHANGE_CONTACT_HOST_NOTIFICATION_TIMEPERIOD :: nat where "CMD_CHANGE_CONTACT_HOST_NOTIFICATION_TIMEPERIOD \<equiv> 163"
abbreviation (input) CMD_CHANGE_CONTACT_SVC_NOTIFICATION_TIMEPERIOD :: nat where "CMD_CHANGE_CONTACT_SVC_NOTIFICATION_TIMEPERIOD \<equiv> 164"
abbreviation (input) CMD_CHANGE_HOST_MODATTR :: nat where "CMD_CHANGE_HOST_MODATTR \<equiv> 165"
abbreviation (input) CMD_CHANGE_SVC_MODATTR :: nat where "CMD_CHANGE_SVC_MODATTR \<equiv> 166"
abbreviation (input) CMD_CHANGE_CONTACT_MODATTR :: nat where "CMD_CHANGE_CONTACT_MODATTR \<equiv> 167"
abbreviation (input) CMD_CHANGE_CONTACT_MODHATTR :: nat where "CMD_CHANGE_CONTACT_MODHATTR \<equiv> 168"
abbreviation (input) CMD_CHANGE_CONTACT_MODSATTR :: nat where "CMD_CHANGE_CONTACT_MODSATTR \<equiv> 169"
abbreviation (input) CMD_DEL_DOWNTIME_BY_HOST_NAME :: nat where "CMD_DEL_DOWNTIME_BY_HOST_NAME \<equiv> 170"
abbreviation (input) CMD_DEL_DOWNTIME_BY_HOSTGROUP_NAME :: nat where "CMD_DEL_DOWNTIME_BY_HOSTGROUP_NAME \<equiv> 171"
abbreviation (input) CMD_DEL_DOWNTIME_BY_START_TIME_COMMENT :: nat where "CMD_DEL_DOWNTIME_BY_START_TIME_COMMENT \<equiv> 172"
abbreviation (input) CMD_CLEAR_HOST_FLAPPING_STATE :: nat where "CMD_CLEAR_HOST_FLAPPING_STATE \<equiv> 173"
abbreviation (input) CMD_CLEAR_SVC_FLAPPING_STATE :: nat where "CMD_CLEAR_SVC_FLAPPING_STATE \<equiv> 174"
abbreviation (input) CMD_CHANGE_HOST_EVENT_HANDLER_TIMEPERIOD :: nat where "CMD_CHANGE_HOST_EVENT_HANDLER_TIMEPERIOD \<equiv> 175"
abbreviation (input) CMD_CHANGE_SVC_EVENT_HANDLER_TIMEPERIOD :: nat where "CMD_CHANGE_SVC_EVENT_HANDLER_TIMEPERIOD \<equiv> 176"
abbreviation (input) CMD_CUSTOM_COMMAND :: nat where "CMD_CUSTOM_COMMAND \<equiv> 999"
abbreviation (input) CMD_ERROR_OK :: c_int where "CMD_ERROR_OK \<equiv> 0"
abbreviation (input) CMD_ERROR_UNKNOWN_COMMAND :: c_int where "CMD_ERROR_UNKNOWN_COMMAND \<equiv> 1"
abbreviation (input) CMD_ERROR_MALFORMED_COMMAND :: c_int where "CMD_ERROR_MALFORMED_COMMAND \<equiv> 2"
abbreviation (input) CMD_ERROR_INTERNAL_ERROR :: c_int where "CMD_ERROR_INTERNAL_ERROR \<equiv> 3"
abbreviation (input) CMD_ERROR_FAILURE :: c_int where "CMD_ERROR_FAILURE \<equiv> 4"

section \<open>Numbers in arguments\<close>

text \<open>\<open>isspace\<close>, and the value of a digit in bases up to 16.\<close>

definition is_space :: "char \<Rightarrow> bool" where
  "is_space c \<longleftrightarrow> uchar c = 32 \<or> 9 \<le> uchar c \<and> uchar c \<le> 13"

definition value_of_digit :: "char \<Rightarrow> nat" where
  "value_of_digit c = (let n = uchar c in
     if 48 \<le> n \<and> n \<le> 57 then nat (n - 48) else if 65 \<le> n \<and> n \<le> 70 then nat (n - 55)
     else if 97 \<le> n \<and> n \<le> 102 then nat (n - 87) else 16)"

definition digits_of :: "nat \<Rightarrow> string \<Rightarrow> string" where
  "digits_of base s = takeWhile (\<lambda>c. value_of_digit c < base) s"

definition number_of_digits :: "nat \<Rightarrow> string \<Rightarrow> nat" where
  "number_of_digits base ds = fold (\<lambda>c n. n * base + value_of_digit c) ds 0"

text \<open>White space and a sign are skipped: whether the number is negative, and what follows.\<close>

definition signed_text :: "string \<Rightarrow> bool \<times> string" where
  "signed_text s = (case dropWhile is_space s of
     c # t \<Rightarrow> if c = CHR ''-'' then (True, t) else if c = CHR ''+'' then (False, t) else (False, c # t)
   | [] \<Rightarrow> (False, []))"

text \<open>\<open>strtoul\<close> in base 10: a sign negates within the type, and a number that does not fit is the largest one.\<close>

definition strtoul :: "string \<Rightarrow> u64" where
  "strtoul s = (let (neg, t) = signed_text s; n = number_of_digits 10 (digits_of 10 t) in
     if n \<ge> 2 ^ 64 then - 1 else if neg then - of_nat n else of_nat n)"

text \<open>As a \<open>time_t\<close>, which is signed.\<close>

definition strtotime :: "string \<Rightarrow> int" where
  "strtotime s = sint (strtoul s)"

definition clamp_long :: "int \<Rightarrow> int" where
  "clamp_long n = max (- (2 ^ 63)) (min (2 ^ 63 - 1) n)"

definition long_of_text :: "nat \<Rightarrow> bool \<Rightarrow> string \<Rightarrow> int" where
  "long_of_text base neg t = (let n = int (number_of_digits base (digits_of base t)) in clamp_long (if neg then - n else n))"

definition has_hex_prefix :: "string \<Rightarrow> bool" where
  "has_hex_prefix t \<longleftrightarrow> (case t of z # x # rest \<Rightarrow> z = CHR ''0'' \<and> (x = CHR ''x'' \<or> x = CHR ''X'') | _ \<Rightarrow> False)"

text \<open>\<open>strtol\<close> in base 0, where a prefix tells the base; an \<open>int\<close> takes its low 32 bits.\<close>

definition strtol_any_base :: "string \<Rightarrow> int" where
  "strtol_any_base s = (let (neg, t) = signed_text s in
     if has_hex_prefix t \<and> digits_of 16 (drop 2 t) \<noteq> [] then long_of_text 16 neg (drop 2 t)
     else if take 1 t = ''0'' then long_of_text 8 neg t
     else long_of_text 10 neg t)"

definition int_of_long :: "int \<Rightarrow> c_int" where
  "int_of_long n = signed_take_bit 31 n"

definition atoi :: "string \<Rightarrow> c_int" where
  "atoi s = (let (neg, t) = signed_text s in int_of_long (long_of_text 10 neg t))"

text \<open>\<open>strtod\<close>: digits with a point among them, then an exponent; \<open>None\<close> stands for an infinity or what is not
  a number.  Values are exact.\<close>

definition fraction_value :: "nat \<Rightarrow> string \<Rightarrow> string \<Rightarrow> rat" where
  "fraction_value base whole fpart = of_nat (number_of_digits base (whole @ fpart)) / of_nat base ^ length fpart"

definition exponent_value :: "string \<Rightarrow> char \<Rightarrow> int" where
  "exponent_value t mark = (case t of [] \<Rightarrow> 0
     | e # r \<Rightarrow> if e = mark \<or> uchar e + 32 = uchar mark then
         (case r of
            c # r' \<Rightarrow> if c = CHR ''-'' then - int (number_of_digits 10 (digits_of 10 r'))
              else if c = CHR ''+'' then int (number_of_digits 10 (digits_of 10 r'))
              else int (number_of_digits 10 (digits_of 10 r))
          | [] \<Rightarrow> 0)
       else 0)"

definition tolower :: "char \<Rightarrow> char" where
  "tolower c = (if 65 \<le> uchar c \<and> uchar c \<le> 90 then char_of (uchar c + 32) else c)"

definition toupper :: "char \<Rightarrow> char" where
  "toupper c = (if 97 \<le> uchar c \<and> uchar c \<le> 122 then char_of (uchar c - 32) else c)"

definition power_of :: "rat \<Rightarrow> int \<Rightarrow> rat" where
  "power_of x n = (if n \<ge> 0 then x ^ nat n else 1 / x ^ nat (- n))"

definition float_of_text :: "nat \<Rightarrow> char \<Rightarrow> rat \<Rightarrow> string \<Rightarrow> rat" where
  "float_of_text base mark exp_base t =
    (let whole = digits_of base t; r = drop (length whole) t;
         fpart = (if take 1 r = ''.'' then digits_of base (drop 1 r) else []);
         r' = (if take 1 r = ''.'' \<and> whole @ fpart \<noteq> [] then drop (Suc (length fpart)) r else r) in
     if whole @ fpart = [] then 0
     else fraction_value base whole fpart * power_of exp_base (exponent_value r' mark))"

definition strtod :: "string \<Rightarrow> rat option" where
  "strtod s = (let (neg, t) = signed_text s; low = map tolower t in
     if take 3 low = ''inf'' \<or> take 3 low = ''nan'' then None
     else let x = (if has_hex_prefix t \<and> digits_of 16 (filter (\<lambda>c. c \<noteq> CHR ''.'') (take 2 (drop 2 t))) \<noteq> []
                   then float_of_text 16 (CHR ''p'') 2 (drop 2 t)
                   else float_of_text 10 (CHR ''e'') 10 t) in
       Some (if neg then - x else x))"

text \<open>\<open>(int)strtod(...)\<close>: the conversion of what does not fit is undefined.\<close>

definition int_of_strtod :: "string \<Rightarrow> c_int ub" where
  "int_of_strtod s = (case strtod s of None \<Rightarrow> None
     | Some x \<Rightarrow> if - (2 ^ 31) \<le> trunc x \<and> trunc x < 2 ^ 31 then Some (trunc x) else None)"

section \<open>The line of a command\<close>

text \<open>\<open>my_strtok\<close>: the next token up to the first of the separators, and what is left.\<close>

definition my_strtok :: "string \<Rightarrow> char \<Rightarrow> (string \<times> string) option" where
  "my_strtok buffer token =
    (if buffer = [] then None
     else Some (takeWhile (\<lambda>c. c \<noteq> token) buffer, drop 1 (dropWhile (\<lambda>c. c \<noteq> token) buffer)))"

abbreviation (input) semicolon :: char where "semicolon \<equiv> CHR '';''"

definition strcaseeq :: "string \<Rightarrow> string \<Rightarrow> bool" where
  "strcaseeq a b \<longleftrightarrow> map tolower a = map tolower b"

definition command_table :: "(string \<times> nat) list" where
  "command_table = [
    (''ENTER_STANDBY_MODE'', CMD_DISABLE_NOTIFICATIONS),
    (''DISABLE_NOTIFICATIONS'', CMD_DISABLE_NOTIFICATIONS),
    (''ENTER_ACTIVE_MODE'', CMD_ENABLE_NOTIFICATIONS),
    (''ENABLE_NOTIFICATIONS'', CMD_ENABLE_NOTIFICATIONS),
    (''SHUTDOWN_PROGRAM'', CMD_SHUTDOWN_PROCESS),
    (''SHUTDOWN_PROCESS'', CMD_SHUTDOWN_PROCESS),
    (''RESTART_PROGRAM'', CMD_RESTART_PROCESS),
    (''RESTART_PROCESS'', CMD_RESTART_PROCESS),
    (''SAVE_STATE_INFORMATION'', CMD_SAVE_STATE_INFORMATION),
    (''READ_STATE_INFORMATION'', CMD_READ_STATE_INFORMATION),
    (''ENABLE_EVENT_HANDLERS'', CMD_ENABLE_EVENT_HANDLERS),
    (''DISABLE_EVENT_HANDLERS'', CMD_DISABLE_EVENT_HANDLERS),
    (''ENABLE_PERFORMANCE_DATA'', CMD_ENABLE_PERFORMANCE_DATA),
    (''DISABLE_PERFORMANCE_DATA'', CMD_DISABLE_PERFORMANCE_DATA),
    (''START_EXECUTING_HOST_CHECKS'', CMD_START_EXECUTING_HOST_CHECKS),
    (''STOP_EXECUTING_HOST_CHECKS'', CMD_STOP_EXECUTING_HOST_CHECKS),
    (''START_EXECUTING_SVC_CHECKS'', CMD_START_EXECUTING_SVC_CHECKS),
    (''STOP_EXECUTING_SVC_CHECKS'', CMD_STOP_EXECUTING_SVC_CHECKS),
    (''START_ACCEPTING_PASSIVE_HOST_CHECKS'', CMD_START_ACCEPTING_PASSIVE_HOST_CHECKS),
    (''STOP_ACCEPTING_PASSIVE_HOST_CHECKS'', CMD_STOP_ACCEPTING_PASSIVE_HOST_CHECKS),
    (''START_ACCEPTING_PASSIVE_SVC_CHECKS'', CMD_START_ACCEPTING_PASSIVE_SVC_CHECKS),
    (''STOP_ACCEPTING_PASSIVE_SVC_CHECKS'', CMD_STOP_ACCEPTING_PASSIVE_SVC_CHECKS),
    (''START_OBSESSING_OVER_HOST_CHECKS'', CMD_START_OBSESSING_OVER_HOST_CHECKS),
    (''STOP_OBSESSING_OVER_HOST_CHECKS'', CMD_STOP_OBSESSING_OVER_HOST_CHECKS),
    (''START_OBSESSING_OVER_SVC_CHECKS'', CMD_START_OBSESSING_OVER_SVC_CHECKS),
    (''STOP_OBSESSING_OVER_SVC_CHECKS'', CMD_STOP_OBSESSING_OVER_SVC_CHECKS),
    (''ENABLE_FLAP_DETECTION'', CMD_ENABLE_FLAP_DETECTION),
    (''DISABLE_FLAP_DETECTION'', CMD_DISABLE_FLAP_DETECTION),
    (''CHANGE_GLOBAL_HOST_EVENT_HANDLER'', CMD_CHANGE_GLOBAL_HOST_EVENT_HANDLER),
    (''CHANGE_GLOBAL_SVC_EVENT_HANDLER'', CMD_CHANGE_GLOBAL_SVC_EVENT_HANDLER),
    (''ENABLE_SERVICE_FRESHNESS_CHECKS'', CMD_ENABLE_SERVICE_FRESHNESS_CHECKS),
    (''DISABLE_SERVICE_FRESHNESS_CHECKS'', CMD_DISABLE_SERVICE_FRESHNESS_CHECKS),
    (''ENABLE_HOST_FRESHNESS_CHECKS'', CMD_ENABLE_HOST_FRESHNESS_CHECKS),
    (''DISABLE_HOST_FRESHNESS_CHECKS'', CMD_DISABLE_HOST_FRESHNESS_CHECKS),
    (''ADD_HOST_COMMENT'', CMD_ADD_HOST_COMMENT),
    (''DEL_HOST_COMMENT'', CMD_DEL_HOST_COMMENT),
    (''DEL_ALL_HOST_COMMENTS'', CMD_DEL_ALL_HOST_COMMENTS),
    (''DELAY_HOST_NOTIFICATION'', CMD_DELAY_HOST_NOTIFICATION),
    (''ENABLE_HOST_NOTIFICATIONS'', CMD_ENABLE_HOST_NOTIFICATIONS),
    (''DISABLE_HOST_NOTIFICATIONS'', CMD_DISABLE_HOST_NOTIFICATIONS),
    (''ENABLE_ALL_NOTIFICATIONS_BEYOND_HOST'', CMD_ENABLE_ALL_NOTIFICATIONS_BEYOND_HOST),
    (''DISABLE_ALL_NOTIFICATIONS_BEYOND_HOST'', CMD_DISABLE_ALL_NOTIFICATIONS_BEYOND_HOST),
    (''ENABLE_HOST_AND_CHILD_NOTIFICATIONS'', CMD_ENABLE_HOST_AND_CHILD_NOTIFICATIONS),
    (''DISABLE_HOST_AND_CHILD_NOTIFICATIONS'', CMD_DISABLE_HOST_AND_CHILD_NOTIFICATIONS),
    (''ENABLE_HOST_SVC_NOTIFICATIONS'', CMD_ENABLE_HOST_SVC_NOTIFICATIONS),
    (''DISABLE_HOST_SVC_NOTIFICATIONS'', CMD_DISABLE_HOST_SVC_NOTIFICATIONS),
    (''ENABLE_HOST_SVC_CHECKS'', CMD_ENABLE_HOST_SVC_CHECKS),
    (''DISABLE_HOST_SVC_CHECKS'', CMD_DISABLE_HOST_SVC_CHECKS),
    (''ENABLE_PASSIVE_HOST_CHECKS'', CMD_ENABLE_PASSIVE_HOST_CHECKS),
    (''DISABLE_PASSIVE_HOST_CHECKS'', CMD_DISABLE_PASSIVE_HOST_CHECKS),
    (''SCHEDULE_HOST_SVC_CHECKS'', CMD_SCHEDULE_HOST_SVC_CHECKS),
    (''SCHEDULE_FORCED_HOST_SVC_CHECKS'', CMD_SCHEDULE_FORCED_HOST_SVC_CHECKS),
    (''ACKNOWLEDGE_HOST_PROBLEM'', CMD_ACKNOWLEDGE_HOST_PROBLEM),
    (''REMOVE_HOST_ACKNOWLEDGEMENT'', CMD_REMOVE_HOST_ACKNOWLEDGEMENT),
    (''ENABLE_HOST_EVENT_HANDLER'', CMD_ENABLE_HOST_EVENT_HANDLER),
    (''DISABLE_HOST_EVENT_HANDLER'', CMD_DISABLE_HOST_EVENT_HANDLER),
    (''ENABLE_HOST_CHECK'', CMD_ENABLE_HOST_CHECK),
    (''DISABLE_HOST_CHECK'', CMD_DISABLE_HOST_CHECK),
    (''SCHEDULE_HOST_CHECK'', CMD_SCHEDULE_HOST_CHECK),
    (''SCHEDULE_FORCED_HOST_CHECK'', CMD_SCHEDULE_FORCED_HOST_CHECK),
    (''SCHEDULE_HOST_DOWNTIME'', CMD_SCHEDULE_HOST_DOWNTIME),
    (''SCHEDULE_HOST_SVC_DOWNTIME'', CMD_SCHEDULE_HOST_SVC_DOWNTIME),
    (''DEL_HOST_DOWNTIME'', CMD_DEL_HOST_DOWNTIME),
    (''DEL_DOWNTIME_BY_HOST_NAME'', CMD_DEL_DOWNTIME_BY_HOST_NAME),
    (''DEL_DOWNTIME_BY_HOSTGROUP_NAME'', CMD_DEL_DOWNTIME_BY_HOSTGROUP_NAME),
    (''DEL_DOWNTIME_BY_START_TIME_COMMENT'', CMD_DEL_DOWNTIME_BY_START_TIME_COMMENT),
    (''ENABLE_HOST_FLAP_DETECTION'', CMD_ENABLE_HOST_FLAP_DETECTION),
    (''DISABLE_HOST_FLAP_DETECTION'', CMD_DISABLE_HOST_FLAP_DETECTION),
    (''START_OBSESSING_OVER_HOST'', CMD_START_OBSESSING_OVER_HOST),
    (''STOP_OBSESSING_OVER_HOST'', CMD_STOP_OBSESSING_OVER_HOST),
    (''CHANGE_HOST_EVENT_HANDLER'', CMD_CHANGE_HOST_EVENT_HANDLER),
    (''CHANGE_HOST_EVENT_HANDLER_TIMEPERIOD'', CMD_CHANGE_HOST_EVENT_HANDLER_TIMEPERIOD),
    (''CHANGE_HOST_CHECK_COMMAND'', CMD_CHANGE_HOST_CHECK_COMMAND),
    (''CHANGE_NORMAL_HOST_CHECK_INTERVAL'', CMD_CHANGE_NORMAL_HOST_CHECK_INTERVAL),
    (''CHANGE_RETRY_HOST_CHECK_INTERVAL'', CMD_CHANGE_RETRY_HOST_CHECK_INTERVAL),
    (''CHANGE_MAX_HOST_CHECK_ATTEMPTS'', CMD_CHANGE_MAX_HOST_CHECK_ATTEMPTS),
    (''SCHEDULE_AND_PROPAGATE_TRIGGERED_HOST_DOWNTIME'', CMD_SCHEDULE_AND_PROPAGATE_TRIGGERED_HOST_DOWNTIME),
    (''SCHEDULE_AND_PROPAGATE_HOST_DOWNTIME'', CMD_SCHEDULE_AND_PROPAGATE_HOST_DOWNTIME),
    (''SET_HOST_NOTIFICATION_NUMBER'', CMD_SET_HOST_NOTIFICATION_NUMBER),
    (''CHANGE_HOST_CHECK_TIMEPERIOD'', CMD_CHANGE_HOST_CHECK_TIMEPERIOD),
    (''CHANGE_CUSTOM_HOST_VAR'', CMD_CHANGE_CUSTOM_HOST_VAR),
    (''SEND_CUSTOM_HOST_NOTIFICATION'', CMD_SEND_CUSTOM_HOST_NOTIFICATION),
    (''CHANGE_HOST_NOTIFICATION_TIMEPERIOD'', CMD_CHANGE_HOST_NOTIFICATION_TIMEPERIOD),
    (''CHANGE_HOST_MODATTR'', CMD_CHANGE_HOST_MODATTR),
    (''CLEAR_HOST_FLAPPING_STATE'', CMD_CLEAR_HOST_FLAPPING_STATE),
    (''ENABLE_HOSTGROUP_HOST_NOTIFICATIONS'', CMD_ENABLE_HOSTGROUP_HOST_NOTIFICATIONS),
    (''DISABLE_HOSTGROUP_HOST_NOTIFICATIONS'', CMD_DISABLE_HOSTGROUP_HOST_NOTIFICATIONS),
    (''ENABLE_HOSTGROUP_SVC_NOTIFICATIONS'', CMD_ENABLE_HOSTGROUP_SVC_NOTIFICATIONS),
    (''DISABLE_HOSTGROUP_SVC_NOTIFICATIONS'', CMD_DISABLE_HOSTGROUP_SVC_NOTIFICATIONS),
    (''ENABLE_HOSTGROUP_HOST_CHECKS'', CMD_ENABLE_HOSTGROUP_HOST_CHECKS),
    (''DISABLE_HOSTGROUP_HOST_CHECKS'', CMD_DISABLE_HOSTGROUP_HOST_CHECKS),
    (''ENABLE_HOSTGROUP_PASSIVE_HOST_CHECKS'', CMD_ENABLE_HOSTGROUP_PASSIVE_HOST_CHECKS),
    (''DISABLE_HOSTGROUP_PASSIVE_HOST_CHECKS'', CMD_DISABLE_HOSTGROUP_PASSIVE_HOST_CHECKS),
    (''ENABLE_HOSTGROUP_SVC_CHECKS'', CMD_ENABLE_HOSTGROUP_SVC_CHECKS),
    (''DISABLE_HOSTGROUP_SVC_CHECKS'', CMD_DISABLE_HOSTGROUP_SVC_CHECKS),
    (''ENABLE_HOSTGROUP_PASSIVE_SVC_CHECKS'', CMD_ENABLE_HOSTGROUP_PASSIVE_SVC_CHECKS),
    (''DISABLE_HOSTGROUP_PASSIVE_SVC_CHECKS'', CMD_DISABLE_HOSTGROUP_PASSIVE_SVC_CHECKS),
    (''SCHEDULE_HOSTGROUP_HOST_DOWNTIME'', CMD_SCHEDULE_HOSTGROUP_HOST_DOWNTIME),
    (''SCHEDULE_HOSTGROUP_SVC_DOWNTIME'', CMD_SCHEDULE_HOSTGROUP_SVC_DOWNTIME),
    (''ADD_SVC_COMMENT'', CMD_ADD_SVC_COMMENT),
    (''DEL_SVC_COMMENT'', CMD_DEL_SVC_COMMENT),
    (''DEL_ALL_SVC_COMMENTS'', CMD_DEL_ALL_SVC_COMMENTS),
    (''SCHEDULE_SVC_CHECK'', CMD_SCHEDULE_SVC_CHECK),
    (''SCHEDULE_FORCED_SVC_CHECK'', CMD_SCHEDULE_FORCED_SVC_CHECK),
    (''ENABLE_SVC_CHECK'', CMD_ENABLE_SVC_CHECK),
    (''DISABLE_SVC_CHECK'', CMD_DISABLE_SVC_CHECK),
    (''ENABLE_PASSIVE_SVC_CHECKS'', CMD_ENABLE_PASSIVE_SVC_CHECKS),
    (''DISABLE_PASSIVE_SVC_CHECKS'', CMD_DISABLE_PASSIVE_SVC_CHECKS),
    (''DELAY_SVC_NOTIFICATION'', CMD_DELAY_SVC_NOTIFICATION),
    (''ENABLE_SVC_NOTIFICATIONS'', CMD_ENABLE_SVC_NOTIFICATIONS),
    (''DISABLE_SVC_NOTIFICATIONS'', CMD_DISABLE_SVC_NOTIFICATIONS),
    (''PROCESS_SERVICE_CHECK_RESULT'', CMD_PROCESS_SERVICE_CHECK_RESULT),
    (''PROCESS_HOST_CHECK_RESULT'', CMD_PROCESS_HOST_CHECK_RESULT),
    (''ENABLE_SVC_EVENT_HANDLER'', CMD_ENABLE_SVC_EVENT_HANDLER),
    (''DISABLE_SVC_EVENT_HANDLER'', CMD_DISABLE_SVC_EVENT_HANDLER),
    (''ENABLE_SVC_FLAP_DETECTION'', CMD_ENABLE_SVC_FLAP_DETECTION),
    (''DISABLE_SVC_FLAP_DETECTION'', CMD_DISABLE_SVC_FLAP_DETECTION),
    (''SCHEDULE_SVC_DOWNTIME'', CMD_SCHEDULE_SVC_DOWNTIME),
    (''DEL_SVC_DOWNTIME'', CMD_DEL_SVC_DOWNTIME),
    (''ACKNOWLEDGE_SVC_PROBLEM'', CMD_ACKNOWLEDGE_SVC_PROBLEM),
    (''REMOVE_SVC_ACKNOWLEDGEMENT'', CMD_REMOVE_SVC_ACKNOWLEDGEMENT),
    (''START_OBSESSING_OVER_SVC'', CMD_START_OBSESSING_OVER_SVC),
    (''STOP_OBSESSING_OVER_SVC'', CMD_STOP_OBSESSING_OVER_SVC),
    (''CHANGE_SVC_EVENT_HANDLER'', CMD_CHANGE_SVC_EVENT_HANDLER),
    (''CHANGE_SVC_EVENT_HANDLER_TIMEPERIOD'', CMD_CHANGE_SVC_EVENT_HANDLER_TIMEPERIOD),
    (''CHANGE_SVC_CHECK_COMMAND'', CMD_CHANGE_SVC_CHECK_COMMAND),
    (''CHANGE_NORMAL_SVC_CHECK_INTERVAL'', CMD_CHANGE_NORMAL_SVC_CHECK_INTERVAL),
    (''CHANGE_RETRY_SVC_CHECK_INTERVAL'', CMD_CHANGE_RETRY_SVC_CHECK_INTERVAL),
    (''CHANGE_MAX_SVC_CHECK_ATTEMPTS'', CMD_CHANGE_MAX_SVC_CHECK_ATTEMPTS),
    (''SET_SVC_NOTIFICATION_NUMBER'', CMD_SET_SVC_NOTIFICATION_NUMBER),
    (''CHANGE_SVC_CHECK_TIMEPERIOD'', CMD_CHANGE_SVC_CHECK_TIMEPERIOD),
    (''CHANGE_CUSTOM_SVC_VAR'', CMD_CHANGE_CUSTOM_SVC_VAR),
    (''CHANGE_CUSTOM_CONTACT_VAR'', CMD_CHANGE_CUSTOM_CONTACT_VAR),
    (''SEND_CUSTOM_SVC_NOTIFICATION'', CMD_SEND_CUSTOM_SVC_NOTIFICATION),
    (''CHANGE_SVC_NOTIFICATION_TIMEPERIOD'', CMD_CHANGE_SVC_NOTIFICATION_TIMEPERIOD),
    (''CHANGE_SVC_MODATTR'', CMD_CHANGE_SVC_MODATTR),
    (''CLEAR_SVC_FLAPPING_STATE'', CMD_CLEAR_SVC_FLAPPING_STATE),
    (''ENABLE_SERVICEGROUP_HOST_NOTIFICATIONS'', CMD_ENABLE_SERVICEGROUP_HOST_NOTIFICATIONS),
    (''DISABLE_SERVICEGROUP_HOST_NOTIFICATIONS'', CMD_DISABLE_SERVICEGROUP_HOST_NOTIFICATIONS),
    (''ENABLE_SERVICEGROUP_SVC_NOTIFICATIONS'', CMD_ENABLE_SERVICEGROUP_SVC_NOTIFICATIONS),
    (''DISABLE_SERVICEGROUP_SVC_NOTIFICATIONS'', CMD_DISABLE_SERVICEGROUP_SVC_NOTIFICATIONS),
    (''ENABLE_SERVICEGROUP_HOST_CHECKS'', CMD_ENABLE_SERVICEGROUP_HOST_CHECKS),
    (''DISABLE_SERVICEGROUP_HOST_CHECKS'', CMD_DISABLE_SERVICEGROUP_HOST_CHECKS),
    (''ENABLE_SERVICEGROUP_PASSIVE_HOST_CHECKS'', CMD_ENABLE_SERVICEGROUP_PASSIVE_HOST_CHECKS),
    (''DISABLE_SERVICEGROUP_PASSIVE_HOST_CHECKS'', CMD_DISABLE_SERVICEGROUP_PASSIVE_HOST_CHECKS),
    (''ENABLE_SERVICEGROUP_SVC_CHECKS'', CMD_ENABLE_SERVICEGROUP_SVC_CHECKS),
    (''DISABLE_SERVICEGROUP_SVC_CHECKS'', CMD_DISABLE_SERVICEGROUP_SVC_CHECKS),
    (''ENABLE_SERVICEGROUP_PASSIVE_SVC_CHECKS'', CMD_ENABLE_SERVICEGROUP_PASSIVE_SVC_CHECKS),
    (''DISABLE_SERVICEGROUP_PASSIVE_SVC_CHECKS'', CMD_DISABLE_SERVICEGROUP_PASSIVE_SVC_CHECKS),
    (''SCHEDULE_SERVICEGROUP_HOST_DOWNTIME'', CMD_SCHEDULE_SERVICEGROUP_HOST_DOWNTIME),
    (''SCHEDULE_SERVICEGROUP_SVC_DOWNTIME'', CMD_SCHEDULE_SERVICEGROUP_SVC_DOWNTIME),
    (''ENABLE_CONTACT_HOST_NOTIFICATIONS'', CMD_ENABLE_CONTACT_HOST_NOTIFICATIONS),
    (''DISABLE_CONTACT_HOST_NOTIFICATIONS'', CMD_DISABLE_CONTACT_HOST_NOTIFICATIONS),
    (''ENABLE_CONTACT_SVC_NOTIFICATIONS'', CMD_ENABLE_CONTACT_SVC_NOTIFICATIONS),
    (''DISABLE_CONTACT_SVC_NOTIFICATIONS'', CMD_DISABLE_CONTACT_SVC_NOTIFICATIONS),
    (''CHANGE_CONTACT_HOST_NOTIFICATION_TIMEPERIOD'', CMD_CHANGE_CONTACT_HOST_NOTIFICATION_TIMEPERIOD),
    (''CHANGE_CONTACT_SVC_NOTIFICATION_TIMEPERIOD'', CMD_CHANGE_CONTACT_SVC_NOTIFICATION_TIMEPERIOD),
    (''CHANGE_CONTACT_MODATTR'', CMD_CHANGE_CONTACT_MODATTR),
    (''CHANGE_CONTACT_MODHATTR'', CMD_CHANGE_CONTACT_MODHATTR),
    (''CHANGE_CONTACT_MODSATTR'', CMD_CHANGE_CONTACT_MODSATTR),
    (''ENABLE_CONTACTGROUP_HOST_NOTIFICATIONS'', CMD_ENABLE_CONTACTGROUP_HOST_NOTIFICATIONS),
    (''DISABLE_CONTACTGROUP_HOST_NOTIFICATIONS'', CMD_DISABLE_CONTACTGROUP_HOST_NOTIFICATIONS),
    (''ENABLE_CONTACTGROUP_SVC_NOTIFICATIONS'', CMD_ENABLE_CONTACTGROUP_SVC_NOTIFICATIONS),
    (''DISABLE_CONTACTGROUP_SVC_NOTIFICATIONS'', CMD_DISABLE_CONTACTGROUP_SVC_NOTIFICATIONS),
    (''PROCESS_FILE'', CMD_PROCESS_FILE)]"

text \<open>What the name of a command stands for; names that start with an underscore are left to modules.\<close>

definition command_type :: "string \<Rightarrow> nat option" where
  "command_type command_id = (case find (\<lambda>(n, _). strcaseeq command_id n) command_table of
     Some (_, cmd) \<Rightarrow> Some cmd
   | None \<Rightarrow> if take 1 command_id = ''_'' then Some CMD_CUSTOM_COMMAND else None)"

text \<open>The first part of \<open>process_external_command1\<close>: an error code, or command, entry time and arguments.  The
  command is looked for one character behind the bracket; when a semicolon follows the bracket at once, that
  is the text behind the semicolon.\<close>

definition parse_external_command :: "string \<Rightarrow> c_int + nat \<times> int \<times> string" where
  "parse_external_command cmd =
    (case my_strtok_with_free (strip cmd) (CHR ''['') of None \<Rightarrow> Inl CMD_ERROR_MALFORMED_COMMAND
     | Some (_, buf) \<Rightarrow>
        (case my_strtok_with_free buf (CHR '']'') of None \<Rightarrow> Inl CMD_ERROR_MALFORMED_COMMAND
         | Some (time_text, buf) \<Rightarrow>
            (case my_strtok_with_free buf semicolon of None \<Rightarrow> Inl CMD_ERROR_MALFORMED_COMMAND
             | Some (name, buf) \<Rightarrow>
                let command_id = (if name = [] then buf else drop 1 name);
                    args = (case my_strtok_with_free buf newline of None \<Rightarrow> [] | Some (args, _) \<Rightarrow> args) in
                (case command_type command_id of None \<Rightarrow> Inl CMD_ERROR_UNKNOWN_COMMAND
                 | Some ty \<Rightarrow> Inr (ty, strtotime time_text, args)))))"

definition cmd_error_strerror :: "c_int \<Rightarrow> string" where
  "cmd_error_strerror code =
    (if code = CMD_ERROR_OK then ''No error''
     else if code = CMD_ERROR_FAILURE then ''Command failed''
     else if code = CMD_ERROR_INTERNAL_ERROR then ''Internal error''
     else if code = CMD_ERROR_UNKNOWN_COMMAND then ''Unknown or unsupported command''
     else if code = CMD_ERROR_MALFORMED_COMMAND then ''Malformed command''
     else ''Unknown error'')"

text \<open>The lines of a file, each with its newline.\<close>

fun mmap_lines :: "string \<Rightarrow> string list" where
  "mmap_lines [] = []"
| "mmap_lines (c # cs) =
    (if c = newline then [newline] # mmap_lines cs
     else case mmap_lines cs of [] \<Rightarrow> [[c]] | l # ls \<Rightarrow> (c # l) # ls)"

section \<open>Reading what was written\<close>

lemma uchar_char_of: "uchar (char_of (n :: nat)) = int (n mod 256)"
proof -
  have "uchar c = int (of_char c)" for c by (simp add: uchar_def of_nat_of_char)
  then show ?thesis by (simp only: of_char_of)
qed

declare decimal.simps [simp del]

lemma value_of_decimal: "k < 10 \<Longrightarrow> value_of_digit (char_of (48 + k)) = k"
  by (simp add: value_of_digit_def uchar_char_of Let_def)

lemma number_of_digits_snoc: "number_of_digits b (ds @ [c]) = number_of_digits b ds * b + value_of_digit c"
  by (simp add: number_of_digits_def)

lemma decimal_digits: "c \<in> set (decimal n) \<Longrightarrow> value_of_digit c < 10"
proof (induction n rule: decimal.induct)
  case (1 n)
  then show ?case by (subst (asm) (2) decimal.simps) (auto simp: value_of_decimal split: if_splits)
qed

lemma number_of_decimal: "number_of_digits 10 (decimal n) = n"
proof (induction n rule: decimal.induct)
  case (1 n)
  show ?case
  proof (cases "n < 10")
    case True
    then show ?thesis by (subst decimal.simps) (simp add: number_of_digits_def value_of_decimal)
  next
    case False
    with 1 show ?thesis by (subst decimal.simps) (simp add: number_of_digits_snoc value_of_decimal)
  qed
qed

lemma decimal_nonempty: "decimal n \<noteq> []"
  by (subst decimal.simps) simp

lemma digits_of_decimal: "digits_of 10 (decimal n) = decimal n"
  using decimal_digits by (simp add: digits_of_def takeWhile_eq_all_conv)

lemma digit_not: "value_of_digit c < 10 \<Longrightarrow> \<not> is_space c \<and> c \<noteq> CHR ''-'' \<and> c \<noteq> CHR ''+'' \<and> c \<noteq> CHR '']'' \<and> c \<noteq> CHR ''[''"
  by (auto simp: value_of_digit_def is_space_def uchar_def Let_def split: if_splits)

lemma strtotime_decimal:
  assumes "n < 2 ^ 63"
  shows "strtotime (decimal n) = int n"
proof -
  obtain c cs where d: "decimal n = c # cs" using decimal_nonempty by (cases "decimal n") blast+
  then have c: "value_of_digit c < 10" using decimal_digits [of c n] by simp
  have "signed_text (decimal n) = (False, decimal n)" using digit_not [OF c] by (simp add: signed_text_def d)
  moreover have "uint (word_of_nat n :: u64) = int n" using assms by (simp add: unsigned_of_nat take_bit_nat_eq_self)
  ultimately show ?thesis using assms
    by (simp add: strtotime_def strtoul_def digits_of_decimal number_of_decimal sint_uint signed_take_bit_int_eq_self)
qed

text \<open>The names in the table differ.  Comparisons stop at the first difference.\<close>

lemma list_differs: "(x # xs = y # ys) = (if x = y then xs = ys else False)"
  by simp

lemma char_differs:
  "(Char a0 a1 a2 a3 a4 a5 a6 a7 = Char b0 b1 b2 b3 b4 b5 b6 b7) =
    (if a0 = b0 then if a1 = b1 then if a2 = b2 then if a3 = b3 then if a4 = b4 then a5 = b5 \<and> a6 = b6 \<and> a7 = b7
     else False else False else False else False else False)"
  by simp

lemma command_names: "distinct (map fst command_table)"
  unfolding command_table_def by (simp only: list.map fst_conv distinct.simps list.set insert_iff empty_iff list_differs
    char_differs list.distinct simp_thms if_True if_False cong: if_weak_cong)

lemma command_names_upper: "list_all (\<lambda>(n, _). list_all (\<lambda>c. \<not> digit5 c) n) command_table"
  unfolding command_table_def by (simp only: list.pred_inject prod.case char.sel simp_thms)

lemma toupper_tolower: "\<not> digit5 c \<Longrightarrow> toupper (tolower c) = c"
proof -
  assume "\<not> digit5 c"
  then have "\<not> (97 \<le> uchar c \<and> uchar c \<le> 122)"
    by (cases c) (auto simp: uchar_def of_char_Char split: if_splits)
  moreover have "uchar (char_of (uchar c + 32)) = uchar c + 32" if "uchar c \<le> 90" "65 \<le> uchar c"
    using that by (simp add: uchar_def)
  moreover have "char_of (uchar c) = c" by (simp add: uchar_def)
  ultimately show ?thesis by (auto simp: toupper_def tolower_def)
qed

lemma command_names_differ:
  assumes "x \<in> set command_table" "y \<in> set command_table" "strcaseeq (fst x) (fst y)"
  shows "x = y"
proof -
  have "map toupper (map tolower n) = n" if "(n, ty) \<in> set command_table" for n ty
  proof -
    have "\<forall>c \<in> set n. toupper (tolower c) = c" using command_names_upper that by (fastforce simp: list_all_iff toupper_tolower)
    then show ?thesis by (simp add: map_idI)
  qed
  from this [of "fst x" "snd x"] this [of "fst y" "snd y"] assms(1,2) arg_cong [OF assms(3) [unfolded strcaseeq_def], of "map toupper"]
  have "fst x = fst y" by (metis prod.collapse)
  with command_names assms(1,2) show ?thesis by (auto simp: distinct_map dest: inj_onD)
qed

text \<open>A name in the table, in whatever case, stands for its command.\<close>

lemma command_type_listed:
  assumes "(n, ty) \<in> set command_table" "strcaseeq cid n"
  shows "command_type cid = Some ty"
proof -
  obtain x where x: "find (\<lambda>(n, _). strcaseeq cid n) command_table = Some x"
    using assms by (cases "find (\<lambda>(n, _). strcaseeq cid n) command_table") (auto simp: find_None_iff)
  then have "x \<in> set command_table" "strcaseeq cid (fst x)"
    using find_Some_iff [of "\<lambda>(n, _). strcaseeq cid n" command_table x] by (auto simp: case_prod_beta)
  with assms command_names_differ [of x "(n, ty)"] have "x = (n, ty)" by (auto simp: strcaseeq_def)
  with x show ?thesis by (simp add: command_type_def)
qed

lemma strip_around:
  assumes "\<forall>c \<in> set a. is_blank c" "\<forall>c \<in> set b. is_blank c" "s = [] \<or> \<not> is_blank (hd s) \<and> \<not> is_blank (last s)"
  shows "strip (a @ s @ b) = s"
proof -
  have dw: "dropWhile is_blank (xs @ ys) = dropWhile is_blank ys" if "\<forall>c \<in> set xs. is_blank c" for xs ys
    using that by (simp add: dropWhile_append)
  show ?thesis
  proof (cases "s = []")
    case True
    with assms(1,2) show ?thesis using dw [of "rev b" "rev a"] dw [of "rev a" "[]"] by (auto simp: strip_def dest: set_dropWhileD)
  next
    case False
    with assms(3) have ends: "\<not> is_blank (hd s)" "\<not> is_blank (last s)" by blast+
    with False have "dropWhile is_blank (rev s @ rev a) = rev s @ rev a" "dropWhile is_blank s = s"
      by (cases s rule: rev_cases, simp, simp) (cases s, simp, use ends(1) in simp)
    with dw [of "rev b" "rev s @ rev a"] dw [of a s] assms(1,2) show ?thesis by (simp add: strip_def)
  qed
qed

lemma parse_written_line:
  assumes "(n, ty) \<in> set command_table" "strcaseeq name n" "t < 2 ^ 63" "semicolon \<notin> set name"
    and "newline \<notin> set args" "args = [] \<or> \<not> is_blank (last args)"
    and "\<forall>c \<in> set before. is_blank c" "\<forall>c \<in> set after. is_blank c"
  shows "parse_external_command (before @ (''['' @ decimal t @ ''] '' @ name @ '';'' @ args) @ after) = Inr (ty, int t, args)"
proof -
  let ?line = "''['' @ decimal t @ ''] '' @ name @ '';'' @ args"
  have "\<not> is_blank (last ?line)" using assms(6) by (auto simp: is_blank_def)
  then have strip: "strip (before @ ?line @ after) = ?line" by (intro strip_around assms) (simp add: is_blank_def)
  have t: "CHR '']'' \<notin> set (decimal t)" using decimal_digits digit_not by blast
  have first: "my_strtok_with_free ?line (CHR ''['') = Some ([], decimal t @ ''] '' @ name @ '';'' @ args)"
    by (simp add: my_strtok_with_free_def)
  have second: "my_strtok_with_free (decimal t @ ''] '' @ name @ '';'' @ args) (CHR '']'') = Some (decimal t, '' '' @ name @ '';'' @ args)"
    using strtok_found [OF t, of "'' '' @ name @ '';'' @ args"] by simp
  have third: "my_strtok_with_free ('' '' @ name @ '';'' @ args) semicolon = Some ('' '' @ name, args)"
    using strtok_found [of semicolon "'' '' @ name" args] assms(4) by simp
  have "(case my_strtok_with_free args newline of None \<Rightarrow> [] | Some (args, _) \<Rightarrow> args) = args"
    using strtok_absent [of newline args] assms(5) by (cases "args = []") (simp_all add: my_strtok_with_free_def)
  then show ?thesis
    unfolding parse_external_command_def strip first option.case prod.case second third
    by (simp add: command_type_listed [OF assms(1,2)] strtotime_decimal [OF assms(3)])
qed

text \<open>C4. A line that holds an entry time in brackets, the name of a command in upper or lower case and its
  arguments is read as that command, with that time and those arguments, whatever blanks surround it; the
  arguments may hold semicolons and brackets.\<close>

theorem command_line_read:
  assumes "(n, ty) \<in> set command_table" "strcaseeq name n" "t < 2 ^ 63" "semicolon \<notin> set name"
    and "newline \<notin> set args" "args = [] \<or> \<not> is_blank (last args)"
    and "\<forall>c \<in> set before. is_blank c" "\<forall>c \<in> set after. is_blank c"
  shows "parse_external_command (before @ (''['' @ decimal t @ ''] '' @ name @ '';'' @ args) @ after) = Inr (ty, int t, args)"
  by (rule parse_written_line [OF assms])

theorem command_line_read_witness:
  "parse_external_command (''  [17] enable_host_check;web; [1] '' @ [newline]) = Inr (CMD_ENABLE_HOST_CHECK, 17, ''web; [1]'')"
proof -
  have "(''ENABLE_HOST_CHECK'', CMD_ENABLE_HOST_CHECK) \<in> set command_table" by (simp add: command_table_def)
  moreover have "strcaseeq ''enable_host_check'' ''ENABLE_HOST_CHECK''"
    unfolding strcaseeq_def tolower_def uchar_def by code_simp
  moreover have "decimal 17 = ''17''" by code_simp
  ultimately show ?thesis
    using command_line_read [of "''ENABLE_HOST_CHECK''" CMD_ENABLE_HOST_CHECK "''enable_host_check''" 17 "''web; [1]''" "''  ''" "'' '' @ [newline]"]
    by (simp add: is_blank_def newline_def)
qed

end
