(* ===== verification/Commands.thy ===== *)
theory Commands
  imports CommandText ObjectCommands HostStates
begin

text \<open>
  External commands, \<open>base/commands.c\<close> from \<open>process_external_command1\<close> to
  \<open>cmd_process_external_commands_from_file\<close>: a line is read (theory CommandText), its arguments are taken
  apart, and the objects it names are changed (theory ObjectCommands) or their checks, comments and
  downtimes (the theories of those).

  \<^item> The tokenizer keeps what is left of its buffer between calls; here it is passed along.
  \<^item> A command that fails halfway keeps what it has done and answers \<open>ERROR\<close>.
  \<^item> Files of commands are a map from names to contents.  A file may ask for another one, or for itself, so that
    processing may not return: \<open>process_lines\<close> is a \<open>partial_function\<close>.
  \<^item> The retention file is written and read by code that is not modelled: whether it could be saved, and what reading
    it does to the daemon, are part of the environment of a command, with the microseconds of the clock and whether
    \<open>errno\<close> was left at \<open>EINVAL\<close> by an earlier call, which one command looks at.  Nothing is assumed of
    \<open>ce_read_state\<close>: the theorems on commands leave out \<open>READ_STATE_INFORMATION\<close>.
\<close>

section \<open>Environment and control flow\<close>

record command_env =
  ce_errno_EINVAL :: bool
  ce_usec :: int
  ce_saved :: bool
  ce_read_state :: "daemon \<Rightarrow> (c_int \<times> daemon) ub"

text \<open>The next token of the buffer, or \<open>ERROR\<close>; the object that was looked for, or \<open>ERROR\<close>.\<close>

definition token :: "char \<Rightarrow> string \<Rightarrow> daemon \<Rightarrow> (string \<Rightarrow> string \<Rightarrow> (c_int \<times> daemon) ub) \<Rightarrow> (c_int \<times> daemon) ub" where
  "token sep buf s k = (case my_strtok buf sep of None \<Rightarrow> Some (ERROR, s) | Some (t, buf') \<Rightarrow> k t buf')"

definition found :: "'a option \<Rightarrow> daemon \<Rightarrow> ('a \<Rightarrow> (c_int \<times> daemon) ub) \<Rightarrow> (c_int \<times> daemon) ub" where
  "found p s k = (case p of None \<Rightarrow> Some (ERROR, s) | Some x \<Rightarrow> k x)"

definition answer :: "daemon ub \<Rightarrow> (c_int \<times> daemon) ub" where
  "answer r = map_option (Pair OK) r"

primrec each :: "('a \<Rightarrow> daemon \<Rightarrow> daemon ub) \<Rightarrow> 'a list \<Rightarrow> daemon \<Rightarrow> daemon ub" where
  "each f [] s = Some s"
| "each f (x # xs) s = f x s \<bind> each f xs"

definition always :: "('a \<Rightarrow> daemon \<Rightarrow> daemon) \<Rightarrow> 'a \<Rightarrow> daemon \<Rightarrow> daemon ub" where
  "always f x s = Some (f x s)"

section \<open>Comments of users\<close>

definition host_user_comment :: "string \<Rightarrow> string \<Rightarrow> string \<Rightarrow> daemon \<Rightarrow> daemon" where
  "host_user_comment host_name author comment s =
    (let (_, _, c) = add_new_host_comment True (comments s) USER_COMMENT (Some host_name) (clock s) (Some author) (Some comment)
       False COMMENTSOURCE_EXTERNAL False 0 in s\<lparr>comments := c\<rparr>)"

definition service_user_comment :: "string \<Rightarrow> string \<Rightarrow> string \<Rightarrow> string \<Rightarrow> daemon \<Rightarrow> daemon" where
  "service_user_comment host_name svc_description author comment s =
    (let (_, _, c) = add_new_service_comment True (comments s) USER_COMMENT (Some host_name) (Some svc_description) (clock s)
       (Some author) (Some comment) False COMMENTSOURCE_EXTERNAL False 0 in s\<lparr>comments := c\<rparr>)"

text \<open>The author and the comment that may follow the other arguments.\<close>

definition author_and_comment :: "string \<Rightarrow> (string \<times> string) option" where
  "author_and_comment buf = do {
     (author, buf) \<leftarrow> my_strtok buf semicolon;
     (comment, _) \<leftarrow> my_strtok buf semicolon;
     Some (author, comment)
   }"

definition with_comment :: "(string \<times> string) option \<Rightarrow> (string \<Rightarrow> string \<Rightarrow> daemon \<Rightarrow> daemon) \<Rightarrow> daemon \<Rightarrow> daemon" where
  "with_comment note add s = (case note of None \<Rightarrow> s | Some (author, comment) \<Rightarrow> add author comment s)"

section \<open>Commands for hosts\<close>

text \<open>A notification asked for by an operator: options, author and text follow in the arguments, of which the last
  two are only looked at by macros.\<close>

definition custom_notification :: "(u32 \<Rightarrow> daemon \<Rightarrow> (c_int \<times> daemon) ub) \<Rightarrow> string \<Rightarrow> daemon \<Rightarrow> (string \<times> daemon) ub" where
  "custom_notification notify buf s =
    (let (intval, buf) = (case my_strtok buf semicolon of None \<Rightarrow> (0, buf) | Some (str, buf) \<Rightarrow> (atoi str, buf)) in
     (case my_strtok buf semicolon of None \<Rightarrow> Some (buf, s)
      | Some (author, buf) \<Rightarrow>
         (case my_strtok buf semicolon of None \<Rightarrow> Some (buf, s)
          | Some (comment, buf) \<Rightarrow> map_option (\<lambda>(_, s). (buf, s)) (notify (word_of_int intval) s))))"

definition notification_number :: "(c_int \<Rightarrow> daemon \<Rightarrow> daemon) \<Rightarrow> string \<Rightarrow> daemon \<Rightarrow> (string \<times> daemon) ub" where
  "notification_number set_number buf s =
    (case my_strtok buf semicolon of None \<Rightarrow> Some (buf, s) | Some (str, buf) \<Rightarrow> Some (buf, set_number (atoi str) s))"

definition host_switch :: "nat \<Rightarrow> nat \<Rightarrow> daemon \<Rightarrow> daemon ub" where
  "host_switch cmd h s =
    (if cmd = CMD_ENABLE_HOST_NOTIFICATIONS then Some (enable_host_notifications h s)
     else if cmd = CMD_DISABLE_HOST_NOTIFICATIONS then Some (disable_host_notifications h s)
     else if cmd = CMD_ENABLE_HOST_AND_CHILD_NOTIFICATIONS then enable_and_propagate_notifications h 0 True True False s
     else if cmd = CMD_DISABLE_HOST_AND_CHILD_NOTIFICATIONS then disable_and_propagate_notifications h 0 True True False s
     else if cmd = CMD_ENABLE_ALL_NOTIFICATIONS_BEYOND_HOST then enable_and_propagate_notifications h 0 False True True s
     else if cmd = CMD_DISABLE_ALL_NOTIFICATIONS_BEYOND_HOST then disable_and_propagate_notifications h 0 False True True s
     else if cmd = CMD_ENABLE_HOST_SVC_NOTIFICATIONS then each (always enable_service_notifications) (h_services (hosts s h)) s
     else if cmd = CMD_DISABLE_HOST_SVC_NOTIFICATIONS then each (always disable_service_notifications) (h_services (hosts s h)) s
     else if cmd = CMD_ENABLE_HOST_SVC_CHECKS then each enable_service_checks (h_services (hosts s h)) s
     else if cmd = CMD_DISABLE_HOST_SVC_CHECKS then each (always disable_service_checks) (h_services (hosts s h)) s
     else if cmd = CMD_ENABLE_HOST_CHECK then enable_host_checks h s
     else if cmd = CMD_DISABLE_HOST_CHECK then Some (disable_host_checks h s)
     else if cmd = CMD_ENABLE_HOST_EVENT_HANDLER then Some (enable_host_event_handler h s)
     else if cmd = CMD_DISABLE_HOST_EVENT_HANDLER then Some (disable_host_event_handler h s)
     else if cmd = CMD_ENABLE_HOST_FLAP_DETECTION then enable_host_flap_detection h s
     else if cmd = CMD_DISABLE_HOST_FLAP_DETECTION then disable_host_flap_detection h s
     else if cmd = CMD_ENABLE_PASSIVE_HOST_CHECKS then Some (enable_passive_host_checks h s)
     else if cmd = CMD_DISABLE_PASSIVE_HOST_CHECKS then Some (disable_passive_host_checks h s)
     else if cmd = CMD_START_OBSESSING_OVER_HOST then Some (start_obsessing_over_host h s)
     else if cmd = CMD_STOP_OBSESSING_OVER_HOST then Some (stop_obsessing_over_host h s)
     else if cmd = CMD_CLEAR_HOST_FLAPPING_STATE then clear_host_flapping_state h s
     else Some s)"

definition process_host_command :: "nat \<Rightarrow> int \<Rightarrow> string \<Rightarrow> daemon \<Rightarrow> (c_int \<times> daemon) ub" where
  "process_host_command cmd entry_time args s =
    token semicolon args s (\<lambda>host_name buf.
    found (find_host s (Some host_name)) s (\<lambda>h. do {
      (buf, s) \<leftarrow> (if cmd = CMD_SET_HOST_NOTIFICATION_NUMBER then notification_number (set_host_notification_number h) buf s
        else if cmd = CMD_SEND_CUSTOM_HOST_NOTIFICATION then custom_notification (host_notification h NOTIFICATION_CUSTOM) buf s
        else map_option (Pair buf) (host_switch cmd h s));
      Some (OK, with_comment (author_and_comment buf) (host_user_comment host_name) s)
    }))"

section \<open>Commands for groups of hosts\<close>

definition hostgroup_host_action :: "nat \<Rightarrow> (nat \<Rightarrow> daemon \<Rightarrow> daemon ub) option" where
  "hostgroup_host_action cmd =
    (if cmd = CMD_ENABLE_HOSTGROUP_HOST_NOTIFICATIONS then Some (always enable_host_notifications)
     else if cmd = CMD_DISABLE_HOSTGROUP_HOST_NOTIFICATIONS then Some (always disable_host_notifications)
     else if cmd = CMD_ENABLE_HOSTGROUP_HOST_CHECKS then Some enable_host_checks
     else if cmd = CMD_DISABLE_HOSTGROUP_HOST_CHECKS then Some (always disable_host_checks)
     else if cmd = CMD_ENABLE_HOSTGROUP_PASSIVE_HOST_CHECKS then Some (always enable_passive_host_checks)
     else if cmd = CMD_DISABLE_HOSTGROUP_PASSIVE_HOST_CHECKS then Some (always disable_passive_host_checks)
     else None)"

definition hostgroup_service_action :: "nat \<Rightarrow> (nat \<Rightarrow> daemon \<Rightarrow> daemon ub) option" where
  "hostgroup_service_action cmd =
    (if cmd = CMD_ENABLE_HOSTGROUP_SVC_NOTIFICATIONS then Some (always enable_service_notifications)
     else if cmd = CMD_DISABLE_HOSTGROUP_SVC_NOTIFICATIONS then Some (always disable_service_notifications)
     else if cmd = CMD_ENABLE_HOSTGROUP_SVC_CHECKS then Some enable_service_checks
     else if cmd = CMD_DISABLE_HOSTGROUP_SVC_CHECKS then Some (always disable_service_checks)
     else if cmd = CMD_ENABLE_HOSTGROUP_PASSIVE_SVC_CHECKS then Some (always enable_passive_service_checks)
     else if cmd = CMD_DISABLE_HOSTGROUP_PASSIVE_SVC_CHECKS then Some (always disable_passive_service_checks)
     else None)"

text \<open>An action on an object, with a comment if one was given.\<close>

definition acted :: "(string \<times> string) option \<Rightarrow> (string \<Rightarrow> string \<Rightarrow> daemon \<Rightarrow> daemon) \<Rightarrow> (nat \<Rightarrow> daemon \<Rightarrow> daemon ub) option
    \<Rightarrow> nat \<Rightarrow> daemon \<Rightarrow> daemon ub" where
  "acted note add action x s = (case action of None \<Rightarrow> Some s | Some f \<Rightarrow> map_option (with_comment note add) (f x s))"

definition process_hostgroup_command :: "nat \<Rightarrow> int \<Rightarrow> string \<Rightarrow> daemon \<Rightarrow> (c_int \<times> daemon) ub" where
  "process_hostgroup_command cmd entry_time args s =
    token semicolon args s (\<lambda>hostgroup_name buf.
    found (hostgroup_table s hostgroup_name) s (\<lambda>members.
      let note = author_and_comment buf in
      answer (each (\<lambda>(_, host_ptr) s. case host_ptr of None \<Rightarrow> Some s
        | Some h \<Rightarrow>
            if hostgroup_host_action cmd \<noteq> None
            then acted note (host_user_comment (h_name (hosts s h))) (hostgroup_host_action cmd) h s
            else each (\<lambda>i s. acted note (service_user_comment (h_name (hosts s h)) (s_description (svcs s i)))
                   (hostgroup_service_action cmd) i s) (h_services (hosts s h)) s) members s)))"

section \<open>Commands for services\<close>

definition service_switch :: "nat \<Rightarrow> nat \<Rightarrow> daemon \<Rightarrow> daemon ub" where
  "service_switch cmd i s =
    (if cmd = CMD_ENABLE_SVC_NOTIFICATIONS then Some (enable_service_notifications i s)
     else if cmd = CMD_DISABLE_SVC_NOTIFICATIONS then Some (disable_service_notifications i s)
     else if cmd = CMD_ENABLE_SVC_CHECK then enable_service_checks i s
     else if cmd = CMD_DISABLE_SVC_CHECK then Some (disable_service_checks i s)
     else if cmd = CMD_ENABLE_SVC_EVENT_HANDLER then Some (enable_service_event_handler i s)
     else if cmd = CMD_DISABLE_SVC_EVENT_HANDLER then Some (disable_service_event_handler i s)
     else if cmd = CMD_ENABLE_SVC_FLAP_DETECTION then enable_service_flap_detection i s
     else if cmd = CMD_DISABLE_SVC_FLAP_DETECTION then disable_service_flap_detection i s
     else if cmd = CMD_ENABLE_PASSIVE_SVC_CHECKS then Some (enable_passive_service_checks i s)
     else if cmd = CMD_DISABLE_PASSIVE_SVC_CHECKS then Some (disable_passive_service_checks i s)
     else if cmd = CMD_START_OBSESSING_OVER_SVC then Some (start_obsessing_over_service i s)
     else if cmd = CMD_STOP_OBSESSING_OVER_SVC then Some (stop_obsessing_over_service i s)
     else if cmd = CMD_CLEAR_SVC_FLAPPING_STATE then clear_service_flapping_state i s
     else Some s)"

definition process_service_command :: "nat \<Rightarrow> int \<Rightarrow> string \<Rightarrow> daemon \<Rightarrow> (c_int \<times> daemon) ub" where
  "process_service_command cmd entry_time args s =
    token semicolon args s (\<lambda>host_name buf.
    token semicolon buf s (\<lambda>svc_description buf.
    found (find_service s (Some host_name) (Some svc_description)) s (\<lambda>i. do {
      (buf, s) \<leftarrow> (if cmd = CMD_SET_SVC_NOTIFICATION_NUMBER then notification_number (set_service_notification_number i) buf s
        else if cmd = CMD_SEND_CUSTOM_SVC_NOTIFICATION then custom_notification (service_notification i NOTIFICATION_CUSTOM) buf s
        else map_option (Pair buf) (service_switch cmd i s));
      Some (OK, with_comment (author_and_comment buf) (service_user_comment host_name svc_description) s)
    })))"

section \<open>Commands for groups of services\<close>

definition servicegroup_service_action :: "nat \<Rightarrow> (nat \<Rightarrow> daemon \<Rightarrow> daemon ub) option" where
  "servicegroup_service_action cmd =
    (if cmd = CMD_ENABLE_SERVICEGROUP_SVC_NOTIFICATIONS then Some (always enable_service_notifications)
     else if cmd = CMD_DISABLE_SERVICEGROUP_SVC_NOTIFICATIONS then Some (always disable_service_notifications)
     else if cmd = CMD_ENABLE_SERVICEGROUP_SVC_CHECKS then Some enable_service_checks
     else if cmd = CMD_DISABLE_SERVICEGROUP_SVC_CHECKS then Some (always disable_service_checks)
     else if cmd = CMD_ENABLE_SERVICEGROUP_PASSIVE_SVC_CHECKS then Some (always enable_passive_service_checks)
     else if cmd = CMD_DISABLE_SERVICEGROUP_PASSIVE_SVC_CHECKS then Some (always disable_passive_service_checks)
     else None)"

definition servicegroup_host_action :: "nat \<Rightarrow> (nat \<Rightarrow> daemon \<Rightarrow> daemon ub) option" where
  "servicegroup_host_action cmd =
    (if cmd = CMD_ENABLE_SERVICEGROUP_HOST_NOTIFICATIONS then Some (always enable_host_notifications)
     else if cmd = CMD_DISABLE_SERVICEGROUP_HOST_NOTIFICATIONS then Some (always disable_host_notifications)
     else if cmd = CMD_ENABLE_SERVICEGROUP_HOST_CHECKS then Some enable_host_checks
     else if cmd = CMD_DISABLE_SERVICEGROUP_HOST_CHECKS then Some (always disable_host_checks)
     else if cmd = CMD_ENABLE_SERVICEGROUP_PASSIVE_HOST_CHECKS then Some (always enable_passive_host_checks)
     else if cmd = CMD_DISABLE_SERVICEGROUP_PASSIVE_HOST_CHECKS then Some (always disable_passive_host_checks)
     else None)"

text \<open>The hosts of the members, where a host that is that of the member before is left out.\<close>

fun hosts_of_members :: "daemon \<Rightarrow> nat option \<Rightarrow> (string \<times> string) list \<Rightarrow> (string \<times> nat) list" where
  "hosts_of_members s last_host [] = []"
| "hosts_of_members s last_host ((host_name, _) # rest) =
    (case find_host s (Some host_name) of None \<Rightarrow> hosts_of_members s last_host rest
     | Some h \<Rightarrow> if last_host = Some h then hosts_of_members s last_host rest
         else (host_name, h) # hosts_of_members s (Some h) rest)"

definition process_servicegroup_command :: "nat \<Rightarrow> int \<Rightarrow> string \<Rightarrow> daemon \<Rightarrow> (c_int \<times> daemon) ub" where
  "process_servicegroup_command cmd entry_time args s =
    token semicolon args s (\<lambda>servicegroup_name buf.
    found (servicegroup_table s servicegroup_name) s (\<lambda>members.
      let note = author_and_comment buf in
      answer (if servicegroup_service_action cmd \<noteq> None then
          each (\<lambda>(host_name, svc_description) s. case find_service s (Some host_name) (Some svc_description) of None \<Rightarrow> Some s
            | Some i \<Rightarrow> acted note (service_user_comment host_name (s_description (svcs s i))) (servicegroup_service_action cmd) i s)
            members s
        else if servicegroup_host_action cmd \<noteq> None then
          each (\<lambda>(_, h) s. acted note (host_user_comment (h_name (hosts s h))) (servicegroup_host_action cmd) h s)
            (hosts_of_members s None members) s
        else Some s)))"

section \<open>Commands for contacts\<close>

definition process_contact_command :: "nat \<Rightarrow> int \<Rightarrow> string \<Rightarrow> daemon \<Rightarrow> (c_int \<times> daemon) ub" where
  "process_contact_command cmd entry_time args s =
    token semicolon args s (\<lambda>contact_name _.
    found (contact_table s contact_name) s (\<lambda>c. Some (OK,
      if cmd = CMD_ENABLE_CONTACT_HOST_NOTIFICATIONS then enable_contact_host_notifications c s
      else if cmd = CMD_DISABLE_CONTACT_HOST_NOTIFICATIONS then disable_contact_host_notifications c s
      else if cmd = CMD_ENABLE_CONTACT_SVC_NOTIFICATIONS then enable_contact_service_notifications c s
      else if cmd = CMD_DISABLE_CONTACT_SVC_NOTIFICATIONS then disable_contact_service_notifications c s
      else s)))"

definition contactgroup_action :: "nat \<Rightarrow> nat \<Rightarrow> daemon \<Rightarrow> daemon" where
  "contactgroup_action cmd c s =
    (if cmd = CMD_ENABLE_CONTACTGROUP_HOST_NOTIFICATIONS then enable_contact_host_notifications c s
     else if cmd = CMD_DISABLE_CONTACTGROUP_HOST_NOTIFICATIONS then disable_contact_host_notifications c s
     else if cmd = CMD_ENABLE_CONTACTGROUP_SVC_NOTIFICATIONS then enable_contact_service_notifications c s
     else if cmd = CMD_DISABLE_CONTACTGROUP_SVC_NOTIFICATIONS then disable_contact_service_notifications c s
     else s)"

definition process_contactgroup_command :: "nat \<Rightarrow> int \<Rightarrow> string \<Rightarrow> daemon \<Rightarrow> (c_int \<times> daemon) ub" where
  "process_contactgroup_command cmd entry_time args s =
    token semicolon args s (\<lambda>contactgroup_name _.
    found (contactgroup_table s contactgroup_name) s (\<lambda>members.
      answer (each (\<lambda>contact_ptr s. case contact_ptr of None \<Rightarrow> Some s | Some c \<Rightarrow> Some (contactgroup_action cmd c s)) members s)))"

end
