(* ===== verification/CommandActions.thy ===== *)
theory CommandActions
  imports Commands
begin

text \<open>
  External commands that are not switches of one object: comments, delays, checks and their passive results,
  acknowledgements, downtimes, and changes of fields; the table of all commands
  (\<open>process_external_command2\<close>) and the processing of whole lines and files, from \<open>base/commands.c\<close>.
\<close>

abbreviation (input) EVENT_PROGRAM_SHUTDOWN :: nat where "EVENT_PROGRAM_SHUTDOWN \<equiv> 3"
abbreviation (input) EVENT_PROGRAM_RESTART :: nat where "EVENT_PROGRAM_RESTART \<equiv> 4"

section \<open>Comments\<close>

definition cmd_add_comment :: "nat \<Rightarrow> int \<Rightarrow> string \<Rightarrow> daemon \<Rightarrow> (c_int \<times> daemon) ub" where
  "cmd_add_comment cmd entry_time args s =
    token semicolon args s (\<lambda>host_name buf.
    (let rest = (\<lambda>svc_description buf.
       found (find_host s (Some host_name)) s (\<lambda>_.
       token semicolon buf s (\<lambda>persistent buf.
       token semicolon buf s (\<lambda>user buf.
       token newline buf s (\<lambda>comment_data _.
         let (result, _, c, _) = add_new_comment True (comments s) (if cmd = CMD_ADD_HOST_COMMENT then HOST_COMMENT else SERVICE_COMMENT)
               USER_COMMENT (Some host_name) svc_description entry_time (Some user) (Some comment_data) (atoi persistent > 0)
               COMMENTSOURCE_EXTERNAL False 0
         in Some (if result < 0 then ERROR else OK, s\<lparr>comments := c\<rparr>))))))
     in if cmd = CMD_ADD_SVC_COMMENT
        then token semicolon buf s (\<lambda>svc_description buf.
          found (find_service s (Some host_name) (Some svc_description)) s (\<lambda>_. rest (Some svc_description) buf))
        else rest None buf))"

definition cmd_delete_comment :: "nat \<Rightarrow> string \<Rightarrow> daemon \<Rightarrow> (c_int \<times> daemon) ub" where
  "cmd_delete_comment cmd args s =
    (let comment_id = unat (strtoul args) in
     if comment_id = 0 then Some (ERROR, s)
     else map_option (\<lambda>(_, c). (OK, s\<lparr>comments := c\<rparr>))
       (if cmd = CMD_DEL_HOST_COMMENT then delete_host_comment (comments s) comment_id
        else delete_service_comment (comments s) comment_id))"

definition cmd_delete_all_comments :: "nat \<Rightarrow> string \<Rightarrow> daemon \<Rightarrow> (c_int \<times> daemon) ub" where
  "cmd_delete_all_comments cmd args s =
    token semicolon args s (\<lambda>host_name buf.
    (let rest = (\<lambda>svc_description.
       found (find_host s (Some host_name)) s (\<lambda>_.
         map_option (\<lambda>(_, c). (OK, s\<lparr>comments := c\<rparr>))
           (delete_all_comments (comments s) (if cmd = CMD_DEL_ALL_HOST_COMMENTS then HOST_COMMENT else SERVICE_COMMENT)
              (Some host_name) svc_description)))
     in if cmd = CMD_DEL_ALL_SVC_COMMENTS
        then token semicolon buf s (\<lambda>svc_description _.
          found (find_service s (Some host_name) (Some svc_description)) s (\<lambda>_. rest (Some svc_description)))
        else rest None))"

section \<open>Delays and checks\<close>

definition cmd_delay_notification :: "nat \<Rightarrow> string \<Rightarrow> daemon \<Rightarrow> (c_int \<times> daemon) ub" where
  "cmd_delay_notification cmd args s =
    token semicolon args s (\<lambda>host_name buf.
    if cmd = CMD_DELAY_SVC_NOTIFICATION
    then token semicolon buf s (\<lambda>svc_description buf.
      found (find_service s (Some host_name) (Some svc_description)) s (\<lambda>i.
      token semicolon buf s (\<lambda>delay_time buf.
        Some (OK, with_comment (author_and_comment buf) (service_user_comment host_name svc_description)
          (upd_svc i (\<lambda>v. v\<lparr>s_next_notification := strtotime delay_time\<rparr>) s)))))
    else found (find_host s (Some host_name)) s (\<lambda>h.
      token semicolon buf s (\<lambda>delay_time buf.
        Some (OK, with_comment (author_and_comment buf) (host_user_comment host_name)
          (upd_host h (\<lambda>v. v\<lparr>h_next_notification := strtotime delay_time\<rparr>) s)))))"

definition check_force :: "bool \<Rightarrow> u32" where
  "check_force forced_check = (if forced_check then CHECK_OPTION_FORCE_EXECUTION else CHECK_OPTION_NONE)"

definition cmd_schedule_check :: "nat \<Rightarrow> string \<Rightarrow> daemon \<Rightarrow> (c_int \<times> daemon) ub" where
  "cmd_schedule_check cmd args s =
    token semicolon args s (\<lambda>host_name buf.
    if cmd = CMD_SCHEDULE_HOST_CHECK \<or> cmd = CMD_SCHEDULE_FORCED_HOST_CHECK
      \<or> cmd = CMD_SCHEDULE_HOST_SVC_CHECKS \<or> cmd = CMD_SCHEDULE_FORCED_HOST_SVC_CHECKS
    then found (find_host s (Some host_name)) s (\<lambda>h.
      token semicolon buf s (\<lambda>delay_time buf.
        map_option (\<lambda>s. (OK, with_comment (author_and_comment buf) (host_user_comment host_name) s))
          (if cmd = CMD_SCHEDULE_HOST_CHECK \<or> cmd = CMD_SCHEDULE_FORCED_HOST_CHECK
           then schedule_host_check h (strtotime delay_time) (check_force (cmd = CMD_SCHEDULE_FORCED_HOST_CHECK)) s
           else each (\<lambda>i. schedule_service_check i (strtotime delay_time) (check_force (cmd = CMD_SCHEDULE_FORCED_HOST_SVC_CHECKS)))
             (h_services (hosts s h)) s)))
    else token semicolon buf s (\<lambda>svc_description buf.
      found (find_service s (Some host_name) (Some svc_description)) s (\<lambda>i.
      token semicolon buf s (\<lambda>delay_time buf.
        map_option (\<lambda>s. (OK, with_comment (author_and_comment buf) (service_user_comment host_name svc_description) s))
          (schedule_service_check i (strtotime delay_time) (check_force (cmd = CMD_SCHEDULE_FORCED_SVC_CHECK)) s)))))"

definition cmd_schedule_host_service_checks :: "nat \<Rightarrow> string \<Rightarrow> bool \<Rightarrow> daemon \<Rightarrow> (c_int \<times> daemon) ub" where
  "cmd_schedule_host_service_checks cmd args force s =
    token semicolon args s (\<lambda>host_name buf.
    found (find_host s (Some host_name)) s (\<lambda>h.
    token newline buf s (\<lambda>delay_time _.
      answer (each (\<lambda>i. schedule_service_check i (strtotime delay_time) (check_force force)) (h_services (hosts s h)) s))))"

definition cmd_signal_process :: "nat \<Rightarrow> string \<Rightarrow> daemon \<Rightarrow> (c_int \<times> daemon) ub" where
  "cmd_signal_process cmd args s =
    (let scheduled_time = (case my_strtok args newline of None \<Rightarrow> 0 | Some (t, _) \<Rightarrow> strtotime t);
         event_signal = (if cmd = CMD_SHUTDOWN_PROCESS then EVENT_PROGRAM_SHUTDOWN else EVENT_PROGRAM_RESTART)
     in Some (OK, snd (schedule_new_event event_signal 1 scheduled_time No_data 0 s)))"

section \<open>Passive check results\<close>

definition find_host_by_name_or_address :: "daemon \<Rightarrow> string option \<Rightarrow> nat option" where
  "find_host_by_name_or_address s name =
    (case find_host s name of Some h \<Rightarrow> Some h
     | None \<Rightarrow> (case name of None \<Rightarrow> None
        | Some n \<Rightarrow> find (\<lambda>h. strcmp (h_address (hosts s h)) n = 0) [0 ..< num_hosts s]))"

text \<open>The result that is handed on: all other fields are 0.\<close>

definition passive_result :: "command_env \<Rightarrow> daemon \<Rightarrow> int \<Rightarrow> c_int \<Rightarrow> string \<Rightarrow> check_result" where
  "passive_result e s check_time return_code output =
    \<lparr>cr_check_type = CHECK_TYPE_PASSIVE, cr_check_options = 0, cr_scheduled_check = False, cr_reschedule_check = False,
     cr_latency = max 0 (of_int (clock s - check_time) + of_int (ce_usec e) / 1000 / 1000),
     cr_start_time = (check_time, 0), cr_finish_time = (check_time, 0), cr_early_timeout = False, cr_exited_ok = True,
     cr_return_code = return_code, cr_output = Some output\<rparr>"

definition process_passive_service_check :: "command_env \<Rightarrow> int \<Rightarrow> string \<Rightarrow> string \<Rightarrow> c_int \<Rightarrow> string \<Rightarrow> daemon
    \<Rightarrow> (c_int \<times> daemon) ub" where
  "process_passive_service_check e check_time host_name svc_description return_code output s =
    (if \<not> accept_passive_service_checks (globs s) then Some (ERROR, s)
     else found (find_host_by_name_or_address s (Some host_name)) s (\<lambda>h.
       found (find_service s (Some (h_name (hosts s h))) (Some svc_description)) s (\<lambda>i.
       if \<not> s_accept_passive_checks (svcs s i) then Some (ERROR, s)
       else handle_async_service_check_result i (passive_result e s check_time
         (if return_code < 0 \<or> return_code > 3 then int STATE_UNKNOWN else return_code) output) s)))"

definition cmd_process_service_check_result :: "command_env \<Rightarrow> nat \<Rightarrow> int \<Rightarrow> string \<Rightarrow> daemon \<Rightarrow> (c_int \<times> daemon) ub" where
  "cmd_process_service_check_result e cmd check_time args s =
    token semicolon args s (\<lambda>host_name buf.
    token semicolon buf s (\<lambda>svc_description buf.
    token semicolon buf s (\<lambda>return_code buf.
      let output = (case my_strtok buf newline of None \<Rightarrow> [] | Some (t, _) \<Rightarrow> unescape_chars t) in
      process_passive_service_check e check_time host_name svc_description (atoi return_code) output s)))"

definition process_passive_host_check :: "command_env \<Rightarrow> int \<Rightarrow> string \<Rightarrow> c_int \<Rightarrow> string \<Rightarrow> daemon \<Rightarrow> (c_int \<times> daemon) ub" where
  "process_passive_host_check e check_time host_name return_code output s =
    (if \<not> accept_passive_service_checks (globs s) then Some (ERROR, s)
     else if return_code < 0 \<or> return_code > 2 then Some (ERROR, s)
     else found (find_host_by_name_or_address s (Some host_name)) s (\<lambda>h.
       if \<not> h_accept_passive_checks (hosts s h) then Some (ERROR, s)
       else map_option (\<lambda>(_, s). (OK, s)) (handle_async_host_check_result h (passive_result e s check_time return_code output) s)))"

definition cmd_process_host_check_result :: "command_env \<Rightarrow> nat \<Rightarrow> int \<Rightarrow> string \<Rightarrow> daemon \<Rightarrow> (c_int \<times> daemon) ub" where
  "cmd_process_host_check_result e cmd check_time args s =
    token semicolon args s (\<lambda>host_name buf.
    token semicolon buf s (\<lambda>return_code buf.
      let output = (case my_strtok buf newline of None \<Rightarrow> [] | Some (t, _) \<Rightarrow> unescape_chars t) in
      process_passive_host_check e check_time host_name (atoi return_code) output s))"

section \<open>Acknowledgements\<close>

definition cmd_acknowledge_problem :: "nat \<Rightarrow> string \<Rightarrow> daemon \<Rightarrow> (c_int \<times> daemon) ub" where
  "cmd_acknowledge_problem cmd args s =
    token semicolon args s (\<lambda>host_name buf.
    found (find_host s (Some host_name)) s (\<lambda>h.
    (let rest = (\<lambda>acknowledge buf.
       token semicolon buf s (\<lambda>ty buf.
       token semicolon buf s (\<lambda>notify buf.
       token semicolon buf s (\<lambda>persistent buf.
       token semicolon buf s (\<lambda>ack_author buf.
       token newline buf s (\<lambda>ack_data _.
         answer (acknowledge ack_author ack_data (atoi ty) (atoi notify > 0) (atoi persistent > 0) s)))))))
     in if cmd = CMD_ACKNOWLEDGE_SVC_PROBLEM
        then token semicolon buf s (\<lambda>svc_description buf.
          found (find_service s (Some (h_name (hosts s h))) (Some svc_description)) s (\<lambda>i. rest (acknowledge_service_problem i) buf))
        else rest (acknowledge_host_problem h) buf)))"

definition cmd_remove_acknowledgement :: "nat \<Rightarrow> string \<Rightarrow> daemon \<Rightarrow> (c_int \<times> daemon) ub" where
  "cmd_remove_acknowledgement cmd args s =
    token semicolon args s (\<lambda>host_name buf.
    found (find_host s (Some host_name)) s (\<lambda>h.
      if cmd = CMD_REMOVE_SVC_ACKNOWLEDGEMENT
      then token semicolon buf s (\<lambda>svc_description _.
        found (find_service s (Some (h_name (hosts s h))) (Some svc_description)) s (\<lambda>i. answer (remove_service_acknowledgement i s)))
      else answer (remove_host_acknowledgement h s)))"

section \<open>Downtimes\<close>

text \<open>What the arguments of a downtime command say: start, end, whether it is fixed, the downtime that triggers it,
  the duration, author and comment.\<close>

record downtime_args =
  da_start :: int
  da_end :: int
  da_fixed :: c_int
  da_triggered_by :: nat
  da_duration :: u64
  da_author :: string
  da_comment :: string

definition downtime_args_of :: "string \<Rightarrow> downtime_args option" where
  "downtime_args_of buf = do {
     (start_time, buf) \<leftarrow> my_strtok buf semicolon;
     (end_time, buf) \<leftarrow> my_strtok buf semicolon;
     (fixed, buf) \<leftarrow> my_strtok buf semicolon;
     (triggered_by, buf) \<leftarrow> my_strtok buf semicolon;
     (duration, buf) \<leftarrow> my_strtok buf semicolon;
     (author, buf) \<leftarrow> my_strtok buf semicolon;
     (comment_data, _) \<leftarrow> my_strtok buf semicolon;
     Some \<lparr>da_start = strtotime start_time, da_end = strtotime end_time, da_fixed = atoi fixed,
       da_triggered_by = unat (strtoul triggered_by), da_duration = strtoul duration,
       da_author = author, da_comment = comment_data\<rparr>
   }"

text \<open>The duration of a fixed downtime is computed; the difference of two times may overflow.\<close>

definition final_duration :: "downtime_args \<Rightarrow> u64 ub" where
  "final_duration a =
    (if da_fixed a > 0 then
       (if - (2 ^ 63) \<le> da_end a - da_start a \<and> da_end a - da_start a < 2 ^ 63 then Some (word_of_int (da_end a - da_start a)) else None)
     else Some (da_duration a))"

definition schedule_for :: "int \<Rightarrow> downtime_args \<Rightarrow> u64 \<Rightarrow> nat \<Rightarrow> nat \<Rightarrow> string \<Rightarrow> string option \<Rightarrow> daemon \<Rightarrow> (nat \<times> daemon) ub" where
  "schedule_for entry_time a duration triggered_by ty host_name svc_description s =
    map_option snd (schedule_downtime s ty (Some host_name) svc_description entry_time (Some (da_author a)) (Some (da_comment a))
      (da_start a) (da_end a) (da_fixed a > 0) triggered_by (unat duration))"

text \<open>The object of the command, which is looked for before the other arguments are read.\<close>

datatype downtime_object =
    Downtime_host string nat "string option"
  | Downtime_hostgroup "(string \<times> nat option) list"
  | Downtime_servicegroup "(string \<times> string) list"

definition downtime_object_of :: "nat \<Rightarrow> string \<Rightarrow> daemon \<Rightarrow> (downtime_object \<times> string) option" where
  "downtime_object_of cmd args s = do {
     (name, buf) \<leftarrow> my_strtok args semicolon;
     (if cmd = CMD_SCHEDULE_HOSTGROUP_HOST_DOWNTIME \<or> cmd = CMD_SCHEDULE_HOSTGROUP_SVC_DOWNTIME then do {
        members \<leftarrow> hostgroup_table s name;
        Some (Downtime_hostgroup members, buf)
      }
      else if cmd = CMD_SCHEDULE_SERVICEGROUP_HOST_DOWNTIME \<or> cmd = CMD_SCHEDULE_SERVICEGROUP_SVC_DOWNTIME then do {
        members \<leftarrow> servicegroup_table s name;
        Some (Downtime_servicegroup members, buf)
      }
      else do {
        h \<leftarrow> find_host s (Some name);
        (if cmd = CMD_SCHEDULE_SVC_DOWNTIME then do {
           (svc_description, buf) \<leftarrow> my_strtok buf semicolon;
           _ \<leftarrow> find_service s (Some (h_name (hosts s h))) (Some svc_description);
           Some (Downtime_host name h (Some svc_description), buf)
         }
         else Some (Downtime_host name h None, buf))
      })
   }"

definition downtime_for_object :: "nat \<Rightarrow> int \<Rightarrow> downtime_args \<Rightarrow> u64 \<Rightarrow> downtime_object \<Rightarrow> daemon \<Rightarrow> daemon ub" where
  "downtime_for_object cmd entry_time a duration object s =
    (let schedule = (\<lambda>ty host_name svc_description s.
           map_option snd (schedule_for entry_time a duration (da_triggered_by a) ty host_name svc_description s));
         services = (\<lambda>h name s. each (\<lambda>i s. schedule SERVICE_DOWNTIME (name i) (Some (s_description (svcs s i))) s) (h_services (hosts s h)) s)
     in case object of
       Downtime_host host_name h svc_description \<Rightarrow>
         if cmd = CMD_SCHEDULE_HOST_DOWNTIME then schedule HOST_DOWNTIME host_name None s
         else if cmd = CMD_SCHEDULE_SVC_DOWNTIME then schedule SERVICE_DOWNTIME host_name svc_description s
         else if cmd = CMD_SCHEDULE_HOST_SVC_DOWNTIME then services h (\<lambda>_. host_name) s
         else if cmd = CMD_SCHEDULE_AND_PROPAGATE_HOST_DOWNTIME then do {
           s \<leftarrow> schedule HOST_DOWNTIME host_name None s;
           schedule_and_propagate_downtime h entry_time (da_author a) (da_comment a) (da_start a) (da_end a) (da_fixed a > 0) 0
             (unat duration) s
         }
         else if cmd = CMD_SCHEDULE_AND_PROPAGATE_TRIGGERED_HOST_DOWNTIME then do {
           (downtime_id, s) \<leftarrow> schedule_for entry_time a duration (da_triggered_by a) HOST_DOWNTIME host_name None s;
           schedule_and_propagate_downtime h entry_time (da_author a) (da_comment a) (da_start a) (da_end a) (da_fixed a > 0) downtime_id
             (unat duration) s
         }
         else Some s
     | Downtime_hostgroup members \<Rightarrow>
         if cmd = CMD_SCHEDULE_HOSTGROUP_HOST_DOWNTIME
         then each (\<lambda>(host_name, _) s. schedule HOST_DOWNTIME host_name None s) members s
         else each (\<lambda>(_, host_ptr) s. case host_ptr of None \<Rightarrow> Some s
           | Some h \<Rightarrow> services h (\<lambda>i. s_host_name (svcs s i)) s) members s
     | Downtime_servicegroup members \<Rightarrow>
         if cmd = CMD_SCHEDULE_SERVICEGROUP_HOST_DOWNTIME
         then each (\<lambda>(host_name, _) s. schedule HOST_DOWNTIME host_name None s) (hosts_of_members s None members) s
         else each (\<lambda>(host_name, svc_description) s. schedule SERVICE_DOWNTIME host_name (Some svc_description) s) members s)"

definition cmd_schedule_downtime :: "nat \<Rightarrow> int \<Rightarrow> string \<Rightarrow> daemon \<Rightarrow> (c_int \<times> daemon) ub" where
  "cmd_schedule_downtime cmd entry_time args s =
    found (downtime_object_of cmd args s) s (\<lambda>(object, buf).
    found (downtime_args_of buf) s (\<lambda>a.
      if da_fixed a = 0 \<and> da_duration a = 0 then Some (ERROR, s)
      else do {
        duration \<leftarrow> final_duration a;
        answer (downtime_for_object cmd entry_time a duration object s)
      }))"

definition cmd_delete_downtime :: "nat \<Rightarrow> string \<Rightarrow> daemon \<Rightarrow> (c_int \<times> daemon) ub" where
  "cmd_delete_downtime cmd args s =
    token newline args s (\<lambda>downtime_id _.
      map_option (\<lambda>(_, s). (OK, s))
        (unschedule_downtime s (if cmd = CMD_DEL_HOST_DOWNTIME then HOST_DOWNTIME else SERVICE_DOWNTIME) (unat (strtoul downtime_id))))"

definition unless_empty :: "string \<Rightarrow> string option \<Rightarrow> string option" where
  "unless_empty t old = (if t = [] then old else Some t)"

text \<open>The optional service, start time and comment, and what is left of the buffer.\<close>

definition downtime_filters :: "string \<Rightarrow> string option \<times> int \<times> string option \<Rightarrow> string \<times> string option \<times> int \<times> string option" where
  "downtime_filters buf old =
    (let (svc_description, start_time, comment) = old in
     case my_strtok buf semicolon of None \<Rightarrow> (buf, old)
     | Some (t, buf) \<Rightarrow>
        let svc_description = unless_empty t svc_description in
        (case my_strtok buf semicolon of None \<Rightarrow> (buf, svc_description, start_time, comment)
         | Some (t, buf) \<Rightarrow>
            let start_time = strtotime t in
            (case my_strtok buf semicolon of None \<Rightarrow> (buf, svc_description, start_time, comment)
             | Some (t, buf) \<Rightarrow> (buf, svc_description, start_time, unless_empty t comment))))"

definition any_deleted :: "(nat \<times> daemon) ub \<Rightarrow> (c_int \<times> daemon) ub" where
  "any_deleted r = map_option (\<lambda>(deleted, s). (if deleted = 0 then ERROR else OK, s)) r"

definition cmd_delete_downtime_by_host_name :: "nat \<Rightarrow> string \<Rightarrow> daemon \<Rightarrow> (c_int \<times> daemon) ub" where
  "cmd_delete_downtime_by_host_name cmd args s =
    token semicolon args s (\<lambda>hostname buf.
      let (_, svc_description, start_time, comment) = downtime_filters buf (None, 0, None) in
      any_deleted (delete_downtime_by_hostname_service_description_start_time_comment s (Some hostname) svc_description start_time comment))"

text \<open>The count is that of the last host only, and the filters are read twice when a host is given.\<close>

primrec delete_downtimes_of_members :: "string option \<Rightarrow> string option \<times> int \<times> string option \<Rightarrow> (string \<times> nat option) list \<Rightarrow> nat
    \<Rightarrow> daemon \<Rightarrow> (nat \<times> daemon) ub" where
  "delete_downtimes_of_members host_name filters [] deleted s = Some (deleted, s)"
| "delete_downtimes_of_members host_name filters (m # ms) deleted s =
    (case snd m of None \<Rightarrow> delete_downtimes_of_members host_name filters ms deleted s
     | Some h \<Rightarrow>
        if host_name \<noteq> None \<and> host_name \<noteq> Some (h_name (hosts s h)) then delete_downtimes_of_members host_name filters ms deleted s
        else do {
          (deleted, s) \<leftarrow> delete_downtime_by_hostname_service_description_start_time_comment s (Some (h_name (hosts s h)))
            (fst filters) (fst (snd filters)) (snd (snd filters));
          delete_downtimes_of_members host_name filters ms deleted s
        })"

definition hostgroup_filters :: "string \<Rightarrow> string option \<times> string option \<times> int \<times> string option" where
  "hostgroup_filters buf =
    (case my_strtok buf semicolon of None \<Rightarrow> (None, None, 0, None)
     | Some (t, buf) \<Rightarrow>
        let (buf, filters) = downtime_filters buf (None, 0, None) in
        (unless_empty t None, snd (downtime_filters buf filters)))"

definition cmd_delete_downtime_by_hostgroup_name :: "nat \<Rightarrow> string \<Rightarrow> daemon \<Rightarrow> (c_int \<times> daemon) ub" where
  "cmd_delete_downtime_by_hostgroup_name cmd args s =
    token semicolon args s (\<lambda>hostgroup_name buf.
    found (hostgroup_table s hostgroup_name) s (\<lambda>members.
      let (host_name, filters) = hostgroup_filters buf in
      any_deleted (delete_downtimes_of_members host_name filters members 0 s)))"

definition start_time_filters :: "string \<Rightarrow> int \<times> string option" where
  "start_time_filters args =
    (let (start_time, buf) = (case my_strtok args semicolon of None \<Rightarrow> (0, args) | Some (t, buf) \<Rightarrow> (strtotime t, buf))
     in (start_time, case my_strtok buf newline of None \<Rightarrow> None | Some (t, _) \<Rightarrow> unless_empty t None))"

definition cmd_delete_downtime_by_start_time_comment :: "nat \<Rightarrow> string \<Rightarrow> daemon \<Rightarrow> (c_int \<times> daemon) ub" where
  "cmd_delete_downtime_by_start_time_comment cmd args s =
    (let (start_time, comment) = start_time_filters args
     in if start_time = 0 \<and> comment = None then Some (ERROR, s)
        else any_deleted (delete_downtime_by_hostname_service_description_start_time_comment s None None start_time comment))"

end
