(* ===== verification/ExternalCommands.thy ===== *)
theory ExternalCommands
  imports CommandActions
begin

text \<open>
  Commands that change fields of objects, the table of all commands (\<open>process_external_command2\<close>), and lines
  and files of commands, from \<open>base/commands.c\<close>.
\<close>

section \<open>Numbers\<close>

text \<open>The value is read twice, as a \<open>long\<close> in any base and as a \<open>double\<close>; the test looks at the first and intervals
  are set to the second.\<close>

definition int_value :: "command_env \<Rightarrow> string \<Rightarrow> daemon \<Rightarrow> (c_int \<Rightarrow> c_int \<Rightarrow> (c_int \<times> daemon) ub) \<Rightarrow> (c_int \<times> daemon) ub" where
  "int_value e buf s k =
    token semicolon buf s (\<lambda>t _.
      let intval = int_of_long (strtol_any_base t) in
      if intval < 0 \<or> intval = 0 \<and> ce_errno_EINVAL e then Some (ERROR, s)
      else do {
        dval \<leftarrow> int_of_strtod t;
        k intval dval
      })"

definition mark_host :: "nat \<Rightarrow> u64 \<Rightarrow> daemon \<Rightarrow> daemon" where
  "mark_host h attr = upd_host h (\<lambda>v. v\<lparr>h_modified_attributes := h_modified_attributes v OR attr\<rparr>)"

definition mark_service :: "nat \<Rightarrow> u64 \<Rightarrow> daemon \<Rightarrow> daemon" where
  "mark_service i attr = upd_svc i (\<lambda>v. v\<lparr>s_modified_attributes := s_modified_attributes v OR attr\<rparr>)"

definition change_host_check_interval :: "nat \<Rightarrow> c_int \<Rightarrow> daemon \<Rightarrow> daemon ub" where
  "change_host_check_interval h dval s =
    (let old_dval = h_check_interval (hosts s h);
         s = upd_host h (\<lambda>v. v\<lparr>h_check_interval := of_int dval\<rparr>) s
     in map_option (mark_host h MODATTR_NORMAL_CHECK_INTERVAL)
       (if old_dval = 0 \<and> h_checks_enabled (hosts s h) then
          let s = upd_host h (\<lambda>v. v\<lparr>h_should_be_scheduled := True, h_next_check := first_check_time (h_check_period v) s\<rparr>) s
          in schedule_host_check h (h_next_check (hosts s h)) CHECK_OPTION_NONE s
        else Some s))"

definition change_service_check_interval :: "nat \<Rightarrow> c_int \<Rightarrow> daemon \<Rightarrow> daemon ub" where
  "change_service_check_interval i dval s =
    (let old_dval = s_check_interval (svcs s i);
         s = upd_svc i (\<lambda>v. v\<lparr>s_check_interval := of_int dval\<rparr>) s
     in map_option (mark_service i MODATTR_NORMAL_CHECK_INTERVAL)
       (if old_dval = 0 \<and> s_checks_enabled (svcs s i) \<and> s_check_interval (svcs s i) \<noteq> 0 then
          let s = upd_svc i (\<lambda>v. v\<lparr>s_should_be_scheduled := True, s_next_check := first_check_time (s_check_period v) s\<rparr>) s
          in schedule_service_check i (s_next_check (svcs s i)) CHECK_OPTION_NONE s
        else Some s))"

definition change_host_int_var :: "nat \<Rightarrow> nat \<Rightarrow> c_int \<Rightarrow> c_int \<Rightarrow> daemon \<Rightarrow> daemon ub" where
  "change_host_int_var cmd h intval dval s =
    (if cmd = CMD_CHANGE_NORMAL_HOST_CHECK_INTERVAL then change_host_check_interval h dval s
     else if cmd = CMD_CHANGE_RETRY_HOST_CHECK_INTERVAL then
       Some (mark_host h MODATTR_RETRY_CHECK_INTERVAL (upd_host h (\<lambda>v. v\<lparr>h_retry_interval := of_int dval\<rparr>) s))
     else if cmd = CMD_CHANGE_MAX_HOST_CHECK_ATTEMPTS then
       Some (mark_host h MODATTR_MAX_CHECK_ATTEMPTS (upd_host h (\<lambda>v. v\<lparr>h_max_attempts := intval,
         h_current_attempt := if h_state_type v = HARD_STATE \<and> h_current_state v \<noteq> HOST_UP \<and> h_current_attempt v > 1 then intval
           else h_current_attempt v\<rparr>) s))
     else Some (upd_host h (\<lambda>v. v\<lparr>h_modified_attributes := word_of_int intval\<rparr>) s))"

definition change_service_int_var :: "nat \<Rightarrow> nat \<Rightarrow> c_int \<Rightarrow> c_int \<Rightarrow> daemon \<Rightarrow> daemon ub" where
  "change_service_int_var cmd i intval dval s =
    (if cmd = CMD_CHANGE_NORMAL_SVC_CHECK_INTERVAL then change_service_check_interval i dval s
     else if cmd = CMD_CHANGE_RETRY_SVC_CHECK_INTERVAL then
       Some (mark_service i MODATTR_RETRY_CHECK_INTERVAL (upd_svc i (\<lambda>v. v\<lparr>s_retry_interval := of_int dval\<rparr>) s))
     else if cmd = CMD_CHANGE_MAX_SVC_CHECK_ATTEMPTS then
       Some (mark_service i MODATTR_MAX_CHECK_ATTEMPTS (upd_svc i (\<lambda>v. v\<lparr>s_max_attempts := intval,
         s_current_attempt := if s_state_type v = HARD_STATE \<and> s_current_state v \<noteq> STATE_OK \<and> s_current_attempt v > 1 then intval
           else s_current_attempt v\<rparr>) s))
     else Some (upd_svc i (\<lambda>v. v\<lparr>s_modified_attributes := word_of_int intval\<rparr>) s))"

definition change_contact_int_var :: "nat \<Rightarrow> nat \<Rightarrow> c_int \<Rightarrow> daemon \<Rightarrow> daemon" where
  "change_contact_int_var cmd c intval s =
    (if cmd = CMD_CHANGE_CONTACT_MODATTR then upd_contact c (\<lambda>v. v\<lparr>ct_modified_attributes := word_of_int intval\<rparr>) s
     else if cmd = CMD_CHANGE_CONTACT_MODHATTR then upd_contact c (\<lambda>v. v\<lparr>ct_modified_host_attributes := word_of_int intval\<rparr>) s
     else upd_contact c (\<lambda>v. v\<lparr>ct_modified_service_attributes := word_of_int intval\<rparr>) s)"

definition cmd_change_object_int_var :: "command_env \<Rightarrow> nat \<Rightarrow> string \<Rightarrow> daemon \<Rightarrow> (c_int \<times> daemon) ub" where
  "cmd_change_object_int_var e cmd args s =
    (if cmd = CMD_CHANGE_NORMAL_SVC_CHECK_INTERVAL \<or> cmd = CMD_CHANGE_RETRY_SVC_CHECK_INTERVAL
       \<or> cmd = CMD_CHANGE_MAX_SVC_CHECK_ATTEMPTS \<or> cmd = CMD_CHANGE_SVC_MODATTR then
       token semicolon args s (\<lambda>host_name buf.
       token semicolon buf s (\<lambda>svc_description buf.
       found (find_service s (Some host_name) (Some svc_description)) s (\<lambda>i.
       int_value e buf s (\<lambda>intval dval. answer (change_service_int_var cmd i intval dval s)))))
     else if cmd = CMD_CHANGE_NORMAL_HOST_CHECK_INTERVAL \<or> cmd = CMD_CHANGE_RETRY_HOST_CHECK_INTERVAL
       \<or> cmd = CMD_CHANGE_MAX_HOST_CHECK_ATTEMPTS \<or> cmd = CMD_CHANGE_HOST_MODATTR then
       token semicolon args s (\<lambda>host_name buf.
       found (find_host s (Some host_name)) s (\<lambda>h.
       int_value e buf s (\<lambda>intval dval. answer (change_host_int_var cmd h intval dval s))))
     else if cmd = CMD_CHANGE_CONTACT_MODATTR \<or> cmd = CMD_CHANGE_CONTACT_MODHATTR \<or> cmd = CMD_CHANGE_CONTACT_MODSATTR then
       token semicolon args s (\<lambda>contact_name buf.
       found (contact_table s contact_name) s (\<lambda>c.
       int_value e buf s (\<lambda>intval _. Some (OK, change_contact_int_var cmd c intval s))))
     else Some (ERROR, s))"

section \<open>Time periods\<close>

text \<open>Event handlers and check commands cannot be changed: the function starts with a patch that refuses those
  commands, and the code for them behind it is dead.\<close>

definition change_host_period :: "nat \<Rightarrow> nat \<Rightarrow> timeperiod \<Rightarrow> daemon \<Rightarrow> daemon" where
  "change_host_period cmd h tp s =
    (if cmd = CMD_CHANGE_HOST_EVENT_HANDLER_TIMEPERIOD
     then mark_host h MODATTR_EVENT_HANDLER_TIMEPERIOD (upd_host h (\<lambda>v. v\<lparr>h_event_handler_period := Some tp\<rparr>) s)
     else if cmd = CMD_CHANGE_HOST_CHECK_TIMEPERIOD
     then mark_host h MODATTR_CHECK_TIMEPERIOD (upd_host h (\<lambda>v. v\<lparr>h_check_period := Some tp\<rparr>) s)
     else mark_host h MODATTR_NOTIFICATION_TIMEPERIOD (upd_host h (\<lambda>v. v\<lparr>h_notification_period := Some tp\<rparr>) s))"

definition change_service_period :: "nat \<Rightarrow> nat \<Rightarrow> timeperiod \<Rightarrow> daemon \<Rightarrow> daemon" where
  "change_service_period cmd i tp s =
    (if cmd = CMD_CHANGE_SVC_EVENT_HANDLER_TIMEPERIOD
     then mark_service i MODATTR_EVENT_HANDLER_TIMEPERIOD (upd_svc i (\<lambda>v. v\<lparr>s_event_handler_period := Some tp\<rparr>) s)
     else if cmd = CMD_CHANGE_SVC_CHECK_TIMEPERIOD
     then mark_service i MODATTR_CHECK_TIMEPERIOD (upd_svc i (\<lambda>v. v\<lparr>s_check_period := Some tp\<rparr>) s)
     else mark_service i MODATTR_NOTIFICATION_TIMEPERIOD (upd_svc i (\<lambda>v. v\<lparr>s_notification_period := Some tp\<rparr>) s))"

definition change_contact_period :: "nat \<Rightarrow> nat \<Rightarrow> timeperiod \<Rightarrow> daemon \<Rightarrow> daemon" where
  "change_contact_period cmd c tp s =
    (if cmd = CMD_CHANGE_CONTACT_HOST_NOTIFICATION_TIMEPERIOD
     then upd_contact c (\<lambda>v. v\<lparr>ct_host_notification_period := Some tp,
       ct_modified_host_attributes := ct_modified_host_attributes v OR MODATTR_NOTIFICATION_TIMEPERIOD\<rparr>) s
     else upd_contact c (\<lambda>v. v\<lparr>ct_service_notification_period := Some tp,
       ct_modified_service_attributes := ct_modified_service_attributes v OR MODATTR_NOTIFICATION_TIMEPERIOD\<rparr>) s)"

definition cmd_change_object_char_var :: "nat \<Rightarrow> string \<Rightarrow> daemon \<Rightarrow> (c_int \<times> daemon) ub" where
  "cmd_change_object_char_var cmd args s =
    (let period = (\<lambda>buf change. token newline buf s (\<lambda>charval _. found (timeperiod_table s charval) s (\<lambda>tp. Some (OK, change tp s)))) in
     if cmd = CMD_CHANGE_GLOBAL_HOST_EVENT_HANDLER \<or> cmd = CMD_CHANGE_GLOBAL_SVC_EVENT_HANDLER
       \<or> cmd = CMD_CHANGE_HOST_EVENT_HANDLER \<or> cmd = CMD_CHANGE_SVC_EVENT_HANDLER
       \<or> cmd = CMD_CHANGE_HOST_CHECK_COMMAND \<or> cmd = CMD_CHANGE_SVC_CHECK_COMMAND then Some (ERROR, s)
     else if cmd = CMD_CHANGE_HOST_CHECK_TIMEPERIOD \<or> cmd = CMD_CHANGE_HOST_NOTIFICATION_TIMEPERIOD
       \<or> cmd = CMD_CHANGE_HOST_EVENT_HANDLER_TIMEPERIOD then
       token semicolon args s (\<lambda>host_name buf.
       found (find_host s (Some host_name)) s (\<lambda>h. period buf (change_host_period cmd h)))
     else if cmd = CMD_CHANGE_SVC_CHECK_TIMEPERIOD \<or> cmd = CMD_CHANGE_SVC_NOTIFICATION_TIMEPERIOD
       \<or> cmd = CMD_CHANGE_SVC_EVENT_HANDLER_TIMEPERIOD then
       token semicolon args s (\<lambda>host_name buf.
       token semicolon buf s (\<lambda>svc_description buf.
       found (find_service s (Some host_name) (Some svc_description)) s (\<lambda>i. period buf (change_service_period cmd i))))
     else if cmd = CMD_CHANGE_CONTACT_HOST_NOTIFICATION_TIMEPERIOD \<or> cmd = CMD_CHANGE_CONTACT_SVC_NOTIFICATION_TIMEPERIOD then
       token semicolon args s (\<lambda>contact_name buf.
       found (contact_table s contact_name) s (\<lambda>c. period buf (change_contact_period cmd c)))
     else Some (ERROR, s))"

section \<open>Custom variables\<close>

text \<open>The first variable of that name is set; that an object was modified is recorded even when it has none.\<close>

fun set_custom_variable :: "string \<Rightarrow> string \<Rightarrow> customvariablesmember list \<Rightarrow> customvariablesmember list" where
  "set_custom_variable varname varvalue [] = []"
| "set_custom_variable varname varvalue (v # vs) =
    (if strcmp varname (cv_name v) = 0 then v\<lparr>cv_value := varvalue, cv_has_been_modified := True\<rparr> # vs
     else v # set_custom_variable varname varvalue vs)"

definition cmd_change_object_custom_var :: "nat \<Rightarrow> string \<Rightarrow> daemon \<Rightarrow> (c_int \<times> daemon) ub" where
  "cmd_change_object_custom_var cmd args s =
    token semicolon args s (\<lambda>name1 buf.
    (let change = (\<lambda>buf f. token semicolon buf s (\<lambda>varname buf. token semicolon buf s (\<lambda>varvalue _.
           Some (OK, f (set_custom_variable (map toupper varname) varvalue) s)))) in
     if cmd = CMD_CHANGE_CUSTOM_SVC_VAR then
       token semicolon buf s (\<lambda>name2 buf.
       found (find_service s (Some name1) (Some name2)) s (\<lambda>i.
       change buf (\<lambda>f. upd_svc i (\<lambda>v. v\<lparr>s_custom_variables := f (s_custom_variables v),
         s_modified_attributes := s_modified_attributes v OR MODATTR_CUSTOM_VARIABLE\<rparr>))))
     else if cmd = CMD_CHANGE_CUSTOM_HOST_VAR then
       found (find_host s (Some name1)) s (\<lambda>h.
       change buf (\<lambda>f. upd_host h (\<lambda>v. v\<lparr>h_custom_variables := f (h_custom_variables v),
         h_modified_attributes := h_modified_attributes v OR MODATTR_CUSTOM_VARIABLE\<rparr>)))
     else
       found (contact_table s name1) s (\<lambda>c.
       change buf (\<lambda>f. upd_contact c (\<lambda>v. v\<lparr>ct_custom_variables := f (ct_custom_variables v),
         ct_modified_attributes := ct_modified_attributes v OR MODATTR_CUSTOM_VARIABLE\<rparr>)))))"

section \<open>The table of commands\<close>

text \<open>The commands without arguments.\<close>

definition program_command :: "nat \<Rightarrow> (daemon \<Rightarrow> daemon ub) option" where
  "program_command cmd =
    (if cmd = CMD_ENABLE_NOTIFICATIONS then Some (Some \<circ> enable_all_notifications)
     else if cmd = CMD_DISABLE_NOTIFICATIONS then Some (Some \<circ> disable_all_notifications)
     else if cmd = CMD_START_EXECUTING_SVC_CHECKS then Some (Some \<circ> start_executing_service_checks)
     else if cmd = CMD_STOP_EXECUTING_SVC_CHECKS then Some (Some \<circ> stop_executing_service_checks)
     else if cmd = CMD_START_ACCEPTING_PASSIVE_SVC_CHECKS then Some (Some \<circ> start_accepting_passive_service_checks)
     else if cmd = CMD_STOP_ACCEPTING_PASSIVE_SVC_CHECKS then Some (Some \<circ> stop_accepting_passive_service_checks)
     else if cmd = CMD_START_OBSESSING_OVER_SVC_CHECKS then Some (Some \<circ> start_obsessing_over_service_checks)
     else if cmd = CMD_STOP_OBSESSING_OVER_SVC_CHECKS then Some (Some \<circ> stop_obsessing_over_service_checks)
     else if cmd = CMD_START_EXECUTING_HOST_CHECKS then Some (Some \<circ> start_executing_host_checks)
     else if cmd = CMD_STOP_EXECUTING_HOST_CHECKS then Some (Some \<circ> stop_executing_host_checks)
     else if cmd = CMD_START_ACCEPTING_PASSIVE_HOST_CHECKS then Some (Some \<circ> start_accepting_passive_host_checks)
     else if cmd = CMD_STOP_ACCEPTING_PASSIVE_HOST_CHECKS then Some (Some \<circ> stop_accepting_passive_host_checks)
     else if cmd = CMD_START_OBSESSING_OVER_HOST_CHECKS then Some (Some \<circ> start_obsessing_over_host_checks)
     else if cmd = CMD_STOP_OBSESSING_OVER_HOST_CHECKS then Some (Some \<circ> stop_obsessing_over_host_checks)
     else if cmd = CMD_ENABLE_EVENT_HANDLERS then Some (Some \<circ> start_using_event_handlers)
     else if cmd = CMD_DISABLE_EVENT_HANDLERS then Some (Some \<circ> stop_using_event_handlers)
     else if cmd = CMD_ENABLE_FLAP_DETECTION then Some enable_flap_detection_routines
     else if cmd = CMD_DISABLE_FLAP_DETECTION then Some disable_flap_detection_routines
     else if cmd = CMD_ENABLE_SERVICE_FRESHNESS_CHECKS then Some (Some \<circ> enable_service_freshness_checks)
     else if cmd = CMD_DISABLE_SERVICE_FRESHNESS_CHECKS then Some (Some \<circ> disable_service_freshness_checks)
     else if cmd = CMD_ENABLE_HOST_FRESHNESS_CHECKS then Some (Some \<circ> enable_host_freshness_checks)
     else if cmd = CMD_DISABLE_HOST_FRESHNESS_CHECKS then Some (Some \<circ> disable_host_freshness_checks)
     else if cmd = CMD_ENABLE_PERFORMANCE_DATA then Some (Some \<circ> enable_performance_data)
     else if cmd = CMD_DISABLE_PERFORMANCE_DATA then Some (Some \<circ> disable_performance_data)
     else if cmd = CMD_CUSTOM_COMMAND then Some Some
     else None)"

text \<open>The commands of one handler.\<close>

definition host_commands :: "nat list" where
  "host_commands = [
    CMD_ENABLE_HOST_CHECK, CMD_DISABLE_HOST_CHECK, CMD_ENABLE_PASSIVE_HOST_CHECKS, CMD_DISABLE_PASSIVE_HOST_CHECKS,
    CMD_ENABLE_HOST_SVC_CHECKS, CMD_DISABLE_HOST_SVC_CHECKS, CMD_ENABLE_HOST_NOTIFICATIONS, CMD_DISABLE_HOST_NOTIFICATIONS,
    CMD_ENABLE_ALL_NOTIFICATIONS_BEYOND_HOST, CMD_DISABLE_ALL_NOTIFICATIONS_BEYOND_HOST,
    CMD_ENABLE_HOST_AND_CHILD_NOTIFICATIONS, CMD_DISABLE_HOST_AND_CHILD_NOTIFICATIONS, CMD_ENABLE_HOST_SVC_NOTIFICATIONS,
    CMD_DISABLE_HOST_SVC_NOTIFICATIONS, CMD_ENABLE_HOST_FLAP_DETECTION, CMD_DISABLE_HOST_FLAP_DETECTION,
    CMD_ENABLE_HOST_EVENT_HANDLER, CMD_DISABLE_HOST_EVENT_HANDLER, CMD_START_OBSESSING_OVER_HOST,
    CMD_STOP_OBSESSING_OVER_HOST, CMD_SET_HOST_NOTIFICATION_NUMBER, CMD_SEND_CUSTOM_HOST_NOTIFICATION,
    CMD_CLEAR_HOST_FLAPPING_STATE]"

definition hostgroup_commands :: "nat list" where
  "hostgroup_commands = [
    CMD_ENABLE_HOSTGROUP_HOST_NOTIFICATIONS, CMD_DISABLE_HOSTGROUP_HOST_NOTIFICATIONS,
    CMD_ENABLE_HOSTGROUP_SVC_NOTIFICATIONS, CMD_DISABLE_HOSTGROUP_SVC_NOTIFICATIONS, CMD_ENABLE_HOSTGROUP_HOST_CHECKS,
    CMD_DISABLE_HOSTGROUP_HOST_CHECKS, CMD_ENABLE_HOSTGROUP_PASSIVE_HOST_CHECKS, CMD_DISABLE_HOSTGROUP_PASSIVE_HOST_CHECKS,
    CMD_ENABLE_HOSTGROUP_SVC_CHECKS, CMD_DISABLE_HOSTGROUP_SVC_CHECKS, CMD_ENABLE_HOSTGROUP_PASSIVE_SVC_CHECKS,
    CMD_DISABLE_HOSTGROUP_PASSIVE_SVC_CHECKS]"

definition service_commands :: "nat list" where
  "service_commands = [
    CMD_ENABLE_SVC_CHECK, CMD_DISABLE_SVC_CHECK, CMD_ENABLE_PASSIVE_SVC_CHECKS, CMD_DISABLE_PASSIVE_SVC_CHECKS,
    CMD_ENABLE_SVC_NOTIFICATIONS, CMD_DISABLE_SVC_NOTIFICATIONS, CMD_ENABLE_SVC_FLAP_DETECTION,
    CMD_DISABLE_SVC_FLAP_DETECTION, CMD_ENABLE_SVC_EVENT_HANDLER, CMD_DISABLE_SVC_EVENT_HANDLER,
    CMD_START_OBSESSING_OVER_SVC, CMD_STOP_OBSESSING_OVER_SVC, CMD_SET_SVC_NOTIFICATION_NUMBER,
    CMD_SEND_CUSTOM_SVC_NOTIFICATION, CMD_CLEAR_SVC_FLAPPING_STATE]"

definition servicegroup_commands :: "nat list" where
  "servicegroup_commands = [
    CMD_ENABLE_SERVICEGROUP_HOST_NOTIFICATIONS, CMD_DISABLE_SERVICEGROUP_HOST_NOTIFICATIONS,
    CMD_ENABLE_SERVICEGROUP_SVC_NOTIFICATIONS, CMD_DISABLE_SERVICEGROUP_SVC_NOTIFICATIONS,
    CMD_ENABLE_SERVICEGROUP_HOST_CHECKS, CMD_DISABLE_SERVICEGROUP_HOST_CHECKS, CMD_ENABLE_SERVICEGROUP_PASSIVE_HOST_CHECKS,
    CMD_DISABLE_SERVICEGROUP_PASSIVE_HOST_CHECKS, CMD_ENABLE_SERVICEGROUP_SVC_CHECKS, CMD_DISABLE_SERVICEGROUP_SVC_CHECKS,
    CMD_ENABLE_SERVICEGROUP_PASSIVE_SVC_CHECKS, CMD_DISABLE_SERVICEGROUP_PASSIVE_SVC_CHECKS]"

definition contact_commands :: "nat list" where
  "contact_commands = [
    CMD_ENABLE_CONTACT_HOST_NOTIFICATIONS, CMD_DISABLE_CONTACT_HOST_NOTIFICATIONS, CMD_ENABLE_CONTACT_SVC_NOTIFICATIONS,
    CMD_DISABLE_CONTACT_SVC_NOTIFICATIONS]"

definition contactgroup_commands :: "nat list" where
  "contactgroup_commands = [
    CMD_ENABLE_CONTACTGROUP_HOST_NOTIFICATIONS, CMD_DISABLE_CONTACTGROUP_HOST_NOTIFICATIONS,
    CMD_ENABLE_CONTACTGROUP_SVC_NOTIFICATIONS, CMD_DISABLE_CONTACTGROUP_SVC_NOTIFICATIONS]"

definition schedule_check_commands :: "nat list" where
  "schedule_check_commands = [
    CMD_SCHEDULE_SVC_CHECK, CMD_SCHEDULE_FORCED_SVC_CHECK, CMD_SCHEDULE_HOST_SVC_CHECKS,
    CMD_SCHEDULE_FORCED_HOST_SVC_CHECKS, CMD_SCHEDULE_HOST_CHECK, CMD_SCHEDULE_FORCED_HOST_CHECK]"

definition downtime_commands :: "nat list" where
  "downtime_commands = [
    CMD_SCHEDULE_HOST_DOWNTIME, CMD_SCHEDULE_SVC_DOWNTIME, CMD_SCHEDULE_HOST_SVC_DOWNTIME,
    CMD_SCHEDULE_HOSTGROUP_HOST_DOWNTIME, CMD_SCHEDULE_HOSTGROUP_SVC_DOWNTIME, CMD_SCHEDULE_SERVICEGROUP_HOST_DOWNTIME,
    CMD_SCHEDULE_SERVICEGROUP_SVC_DOWNTIME, CMD_SCHEDULE_AND_PROPAGATE_HOST_DOWNTIME,
    CMD_SCHEDULE_AND_PROPAGATE_TRIGGERED_HOST_DOWNTIME]"

definition char_var_commands :: "nat list" where
  "char_var_commands = [
    CMD_CHANGE_GLOBAL_HOST_EVENT_HANDLER, CMD_CHANGE_GLOBAL_SVC_EVENT_HANDLER, CMD_CHANGE_HOST_EVENT_HANDLER,
    CMD_CHANGE_SVC_EVENT_HANDLER, CMD_CHANGE_HOST_CHECK_COMMAND, CMD_CHANGE_SVC_CHECK_COMMAND,
    CMD_CHANGE_HOST_CHECK_TIMEPERIOD, CMD_CHANGE_SVC_CHECK_TIMEPERIOD, CMD_CHANGE_HOST_NOTIFICATION_TIMEPERIOD,
    CMD_CHANGE_SVC_NOTIFICATION_TIMEPERIOD, CMD_CHANGE_CONTACT_HOST_NOTIFICATION_TIMEPERIOD,
    CMD_CHANGE_CONTACT_SVC_NOTIFICATION_TIMEPERIOD, CMD_CHANGE_HOST_EVENT_HANDLER_TIMEPERIOD,
    CMD_CHANGE_SVC_EVENT_HANDLER_TIMEPERIOD]"

definition int_var_commands :: "nat list" where
  "int_var_commands = [
    CMD_CHANGE_NORMAL_HOST_CHECK_INTERVAL, CMD_CHANGE_RETRY_HOST_CHECK_INTERVAL, CMD_CHANGE_NORMAL_SVC_CHECK_INTERVAL,
    CMD_CHANGE_RETRY_SVC_CHECK_INTERVAL, CMD_CHANGE_MAX_HOST_CHECK_ATTEMPTS, CMD_CHANGE_MAX_SVC_CHECK_ATTEMPTS,
    CMD_CHANGE_HOST_MODATTR, CMD_CHANGE_SVC_MODATTR, CMD_CHANGE_CONTACT_MODATTR, CMD_CHANGE_CONTACT_MODHATTR,
    CMD_CHANGE_CONTACT_MODSATTR]"

definition custom_var_commands :: "nat list" where
  "custom_var_commands = [
    CMD_CHANGE_CUSTOM_HOST_VAR, CMD_CHANGE_CUSTOM_SVC_VAR, CMD_CHANGE_CUSTOM_CONTACT_VAR]"

text \<open>\<open>process_external_command2\<close>, but for the command that processes a file.\<close>

definition process_external_command2 :: "command_env \<Rightarrow> nat \<Rightarrow> int \<Rightarrow> string \<Rightarrow> daemon \<Rightarrow> (c_int \<times> daemon) ub" where
  "process_external_command2 e cmd entry_time args s =
    (case program_command cmd of Some f \<Rightarrow> answer (f s)
     | None \<Rightarrow>
     if cmd = CMD_SAVE_STATE_INFORMATION then Some (if ce_saved e then OK else ERROR, act [Save_retention False] s)
     else if cmd = CMD_READ_STATE_INFORMATION then ce_read_state e s
     else if cmd = CMD_SHUTDOWN_PROCESS \<or> cmd = CMD_RESTART_PROCESS then cmd_signal_process cmd args s
     else if cmd \<in> set host_commands then process_host_command cmd entry_time args s
     else if cmd \<in> set hostgroup_commands then process_hostgroup_command cmd entry_time args s
     else if cmd \<in> set service_commands then process_service_command cmd entry_time args s
     else if cmd \<in> set servicegroup_commands then process_servicegroup_command cmd entry_time args s
     else if cmd \<in> set contact_commands then process_contact_command cmd entry_time args s
     else if cmd \<in> set contactgroup_commands then process_contactgroup_command cmd entry_time args s
     else if cmd = CMD_ADD_HOST_COMMENT \<or> cmd = CMD_ADD_SVC_COMMENT then cmd_add_comment cmd entry_time args s
     else if cmd = CMD_DEL_HOST_COMMENT \<or> cmd = CMD_DEL_SVC_COMMENT then cmd_delete_comment cmd args s
     else if cmd = CMD_DELAY_HOST_NOTIFICATION \<or> cmd = CMD_DELAY_SVC_NOTIFICATION then cmd_delay_notification cmd args s
     else if cmd \<in> set schedule_check_commands then cmd_schedule_check cmd args s
     else if cmd = CMD_DEL_ALL_HOST_COMMENTS \<or> cmd = CMD_DEL_ALL_SVC_COMMENTS then cmd_delete_all_comments cmd args s
     else if cmd = CMD_PROCESS_SERVICE_CHECK_RESULT then cmd_process_service_check_result e cmd entry_time args s
     else if cmd = CMD_PROCESS_HOST_CHECK_RESULT then cmd_process_host_check_result e cmd entry_time args s
     else if cmd = CMD_ACKNOWLEDGE_HOST_PROBLEM \<or> cmd = CMD_ACKNOWLEDGE_SVC_PROBLEM then cmd_acknowledge_problem cmd args s
     else if cmd = CMD_REMOVE_HOST_ACKNOWLEDGEMENT \<or> cmd = CMD_REMOVE_SVC_ACKNOWLEDGEMENT then cmd_remove_acknowledgement cmd args s
     else if cmd \<in> set downtime_commands then cmd_schedule_downtime cmd entry_time args s
     else if cmd = CMD_DEL_HOST_DOWNTIME \<or> cmd = CMD_DEL_SVC_DOWNTIME then cmd_delete_downtime cmd args s
     else if cmd = CMD_DEL_DOWNTIME_BY_HOST_NAME then cmd_delete_downtime_by_host_name cmd args s
     else if cmd = CMD_DEL_DOWNTIME_BY_HOSTGROUP_NAME then cmd_delete_downtime_by_hostgroup_name cmd args s
     else if cmd = CMD_DEL_DOWNTIME_BY_START_TIME_COMMENT then cmd_delete_downtime_by_start_time_comment cmd args s
     else if cmd \<in> set char_var_commands then cmd_change_object_char_var cmd args s
     else if cmd \<in> set int_var_commands then cmd_change_object_int_var e cmd args s
     else if cmd \<in> set custom_var_commands then cmd_change_object_custom_var cmd args s
     else Some (CMD_ERROR_UNKNOWN_COMMAND, s))"

section \<open>Lines and files\<close>

text \<open>The file a command asks for, and whether it is deleted afterwards.\<close>

definition cmd_process_external_commands_from_file :: "string \<Rightarrow> (string \<times> bool) option" where
  "cmd_process_external_commands_from_file args = do {
     (fname, buf) \<leftarrow> my_strtok args semicolon;
     (delete_file, _) \<leftarrow> my_strtok buf newline;
     Some (fname, atoi delete_file \<noteq> 0)
   }"

type_synonym world = "(string \<rightharpoonup> string) \<times> daemon"

definition unlink_file :: "string \<Rightarrow> bool \<Rightarrow> world \<Rightarrow> world" where
  "unlink_file fname delete_file w = (if delete_file then ((fst w)(fname := None), snd w) else w)"

text \<open>The lines of a file, one after the other, whatever they answer.  \<open>process_external_command1\<close> is unfolded here:
  a line may ask for a file.\<close>

partial_function (option) process_lines :: "world \<Rightarrow> command_env \<times> string list \<Rightarrow> world option" where
  "process_lines w todo =
    (case snd todo of [] \<Rightarrow> Some w
     | line # rest \<Rightarrow>
        (case parse_external_command line of Inl _ \<Rightarrow> process_lines w (fst todo, rest)
         | Inr (cmd, entry_time, args) \<Rightarrow>
            if cmd = CMD_PROCESS_FILE then
              (case cmd_process_external_commands_from_file args of None \<Rightarrow> process_lines w (fst todo, rest)
               | Some (fname, delete_file) \<Rightarrow>
                  (case fst w fname of None \<Rightarrow> process_lines w (fst todo, rest)
                   | Some content \<Rightarrow> process_lines w (fst todo, mmap_lines content) \<bind>
                      (\<lambda>w. process_lines (unlink_file fname delete_file w) (fst todo, rest))))
            else process_external_command2 (fst todo) cmd entry_time args (snd w) \<bind>
              (\<lambda>(_, s). process_lines (fst w, s) (fst todo, rest))))"

definition process_external_commands_from_file :: "command_env \<Rightarrow> string \<Rightarrow> bool \<Rightarrow> world \<Rightarrow> (c_int \<times> world) ub" where
  "process_external_commands_from_file e fname delete_file w =
    (case fst w fname of None \<Rightarrow> Some (ERROR, w)
     | Some content \<Rightarrow> map_option (\<lambda>w. (OK, unlink_file fname delete_file w)) (process_lines w (e, mmap_lines content)))"

definition process_external_command1 :: "command_env \<Rightarrow> string \<Rightarrow> world \<Rightarrow> (c_int \<times> world) ub" where
  "process_external_command1 e cmd w =
    (case parse_external_command cmd of Inl code \<Rightarrow> Some (code, w)
     | Inr (cmd, entry_time, args) \<Rightarrow>
        if cmd = CMD_PROCESS_FILE then
          (case cmd_process_external_commands_from_file args of None \<Rightarrow> Some (CMD_ERROR_FAILURE, w)
           | Some (fname, delete_file) \<Rightarrow>
              map_option (\<lambda>(_, w). (CMD_ERROR_OK, w)) (process_external_commands_from_file e fname delete_file w))
        else map_option (\<lambda>(r, s). (if r = OK then CMD_ERROR_OK else CMD_ERROR_FAILURE, (fst w, s)))
          (process_external_command2 e cmd entry_time args (snd w)))"

end
