(* ===== verification/CommandSafety.thy ===== *)
theory CommandSafety
  imports ExternalCommands
begin

text \<open>
  Whatever line arrives as an external command, the daemon answers it with one of its codes and keeps its
  invariant.
\<close>

section \<open>Rules\<close>

definition answers :: "nat set \<Rightarrow> (c_int \<times> daemon) ub \<Rightarrow> bool" where
  "answers X r \<longleftrightarrow> (\<exists>c s. r = Some (c, s) \<and> (c = OK \<or> c = ERROR) \<and> daemon_ok X s)"

lemma answers_Some [simp]: "answers X (Some (c, s)) \<longleftrightarrow> (c = OK \<or> c = ERROR) \<and> daemon_ok X s"
  by (simp add: answers_def)

lemma answers_token: "daemon_ok X s \<Longrightarrow> (\<And>t buf'. answers X (k t buf')) \<Longrightarrow> answers X (token sep buf s k)"
  by (auto simp: token_def split: option.splits)

lemma answers_found: "daemon_ok X s \<Longrightarrow> (\<And>x. p = Some x \<Longrightarrow> answers X (k x)) \<Longrightarrow> answers X (found p s k)"
  by (auto simp: found_def split: option.splits)

lemma answers_answer: "fine X s r \<Longrightarrow> answers X (answer r)"
  by (auto simp: fine_def answer_def kept_def answers_def)

lemma answers_if: "(b \<Longrightarrow> answers X r) \<Longrightarrow> (\<not> b \<Longrightarrow> answers X r') \<Longrightarrow> answers X (if b then r else r')"
  by simp

lemma answers_OK: "kept X s s' \<Longrightarrow> answers X (Some (OK, s'))"
  by (simp add: keptD)

lemma fine_each:
  assumes "\<And>x s. daemon_ok X s \<Longrightarrow> fine X s (f x s)"
  shows "daemon_ok X s \<Longrightarrow> fine X s (each f xs s)"
proof (induction xs arbitrary: s)
  case (Cons x xs)
  show ?case unfolding each.simps by (rule fine_bind [OF assms [OF Cons.prems] Cons.IH]) (rule keptD)
qed (simp add: kept_refl)

lemma fine_always: "(\<And>s. daemon_ok X s \<Longrightarrow> kept X s (f x s)) \<Longrightarrow> daemon_ok X s \<Longrightarrow> fine X s (always f x s)"
  by (simp add: always_def)

lemma fine_map: "fine X s r \<Longrightarrow> (\<And>s'. daemon_ok X s' \<Longrightarrow> kept X s' (f s')) \<Longrightarrow> fine X s (map_option f r)"
  using kept_trans keptD by (fastforce simp: fine_def)

lemma fine_if: "fine X s r \<Longrightarrow> fine X s r' \<Longrightarrow> fine X s (if b then r else r')"
  by simp

section \<open>Comments of users\<close>

lemma kept_user_comment:
  assumes "daemon_ok X s"
  shows "kept X s (host_user_comment h a c s)" "kept X s (service_user_comment h d a c s)"
  using kept_comments [OF assms add_object_comment_ok(1) [OF daemon_comments_ok [OF assms]]]
    kept_comments [OF assms add_object_comment_ok(2) [OF daemon_comments_ok [OF assms]]]
  by (simp_all add: host_user_comment_def service_user_comment_def case_prod_beta Let_def)

lemma kept_with_comment:
  assumes "daemon_ok X s"
  shows "kept X s (with_comment note (host_user_comment h) s)" "kept X s (with_comment note (service_user_comment h d) s)"
  using kept_user_comment [OF assms] kept_refl [OF assms] by (auto simp: with_comment_def split: option.splits)

section \<open>Flap detection\<close>

lemma fine_check_flapping:
  assumes "daemon_ok X s"
  shows "fine X s (check_for_service_flapping i u a s)" "fine X s (check_for_host_flapping h u ac a s)"
  using stays_service_flapping [OF assms, of i u a] stays_host_flapping [OF assms, of h u ac a] kept_stays by (auto simp: fine_def)

lemma fine_flap_disabled:
  assumes "daemon_ok X s"
  shows "fine X s (handle_service_flap_detection_disabled i s)" "fine X s (handle_host_flap_detection_disabled h s)"
proof -
  have "fine X u (flapping_over_service i ty u \<bind> (\<lambda>s. Some (upd_svc i (\<lambda>v. v\<lparr>s_check_flapping_recovery_notification := False\<rparr>) s)))"
    "fine X u (flapping_over_host h ty u \<bind> (\<lambda>s. Some (upd_host h (\<lambda>v. v\<lparr>h_check_flapping_recovery_notification := False\<rparr>) s)))"
    if "daemon_ok X u" for u ty
    by (rule fine_bind [OF fine_flap(1) [OF that]] fine_bind [OF fine_flap(2) [OF that]]; simp add: kept_clear_ring keptD)+
  note rest = this
  show "fine X s (handle_service_flap_detection_disabled i s)"
    unfolding handle_service_flap_detection_disabled_def
    by (rule fine_optional [OF assms fine_bind [OF fine_flap(3) [OF assms]]]) (rule rest, rule keptD)
  show "fine X s (handle_host_flap_detection_disabled h s)"
    unfolding handle_host_flap_detection_disabled_def
    by (rule fine_optional [OF assms fine_bind [OF fine_flap(4) [OF assms]]]) (rule rest, rule keptD)
qed

lemma fine_switch_flap_detection:
  assumes "daemon_ok X s"
  shows "fine X s (enable_service_flap_detection i s)" "fine X s (disable_service_flap_detection i s)"
    "fine X s (enable_host_flap_detection h s)" "fine X s (disable_host_flap_detection h s)"
proof -
  have svc: "kept X s (upd_svc i (\<lambda>v. v\<lparr>s_flap_detection_enabled := b, s_modified_attributes := s_modified_attributes v OR m\<rparr>) s)" for b m
    by (rule kept_upd_svc [OF assms]) (simp add: svc_ties_def)
  have host: "kept X s (upd_host h (\<lambda>v. v\<lparr>h_flap_detection_enabled := b, h_modified_attributes := h_modified_attributes v OR m\<rparr>) s)" for b m
    by (rule kept_upd_host [OF assms]) (simp add: host_ties_def)
  note at = kept_refl [OF assms]
  show "fine X s (enable_service_flap_detection i s)" unfolding enable_service_flap_detection_def
    by (rule fine_cases [OF at fine_trans [OF svc fine_check_flapping(1) [OF keptD [OF svc]]]])
  show "fine X s (disable_service_flap_detection i s)" unfolding disable_service_flap_detection_def
    by (rule fine_cases [OF at fine_trans [OF svc fine_flap_disabled(1) [OF keptD [OF svc]]]])
  show "fine X s (enable_host_flap_detection h s)" unfolding enable_host_flap_detection_def
    by (rule fine_cases [OF at fine_trans [OF host fine_check_flapping(2) [OF keptD [OF host]]]])
  show "fine X s (disable_host_flap_detection h s)" unfolding disable_host_flap_detection_def
    by (rule fine_cases [OF at fine_trans [OF host fine_flap_disabled(2) [OF keptD [OF host]]]])
qed

lemma fine_for_each:
  assumes "\<And>i s. daemon_ok X s \<Longrightarrow> fine X s (f i s)" "daemon_ok X s"
  shows "fine X s (for_each f n s)"
proof -
  have "fine X s (fold (\<lambda>i r. r \<bind> f i) xs r)" if "fine X s r" for xs r
    using that
  proof (induction xs arbitrary: r)
    case (Cons x xs)
    have "fine X s (r \<bind> f x)" by (rule fine_bind [OF Cons.prems assms(1)]) (rule keptD)
    with Cons.IH show ?case by simp
  qed simp
  from this [of "Some s"] show ?thesis using assms(2) by (simp add: for_each_def kept_refl)
qed

lemma fine_flap_detection_routines:
  assumes "daemon_ok X s"
  shows "fine X s (enable_flap_detection_routines s)" "fine X s (disable_flap_detection_routines s)"
proof -
  have g: "kept X s (switch_flap_detection b s)" for b unfolding switch_flap_detection_def by (rule kept_globs [OF assms]) (simp add: mark_program_def)
  note start = fine_trans [OF g]
  have loops: "fine X s (for_each f (n s) s \<bind> (\<lambda>s. for_each k (m s) s))"
    if "\<And>i s. daemon_ok X s \<Longrightarrow> fine X s (f i s)" "\<And>i s. daemon_ok X s \<Longrightarrow> fine X s (k i s)" "daemon_ok X s" for f k n m s
    by (rule fine_bind [OF fine_for_each [OF that(1,3)] fine_for_each [OF that(2) keptD]])
  show "fine X s (enable_flap_detection_routines s)" unfolding enable_flap_detection_routines_def
    by (rule fine_cases [OF kept_refl [OF assms]], rule start)
      (rule loops [where n = "\<lambda>_. num_hosts s", OF fine_check_flapping(2) fine_check_flapping(1) keptD [OF g]])
  show "fine X s (disable_flap_detection_routines s)" unfolding disable_flap_detection_routines_def
    by (rule fine_cases [OF kept_refl [OF assms]], rule start)
      (rule loops [where n = "\<lambda>_. num_hosts s", OF fine_flap_disabled(2) fine_flap_disabled(1) keptD [OF g]])
qed

section \<open>Commands for objects and groups\<close>

lemma fine_host_switch:
  assumes "daemon_ok X s"
  shows "fine X s (host_switch cmd h s)"
proof -
  have loops: "fine X s (each (always enable_service_notifications) xs s)" "fine X s (each (always disable_service_notifications) xs s)"
    "fine X s (each enable_service_checks xs s)" "fine X s (each (always disable_service_checks) xs s)" for xs
  proof -
    show "fine X s (each (always enable_service_notifications) xs s)" by (intro fine_each [OF _ assms] fine_always kept_switches)
    show "fine X s (each (always disable_service_notifications) xs s)" by (intro fine_each [OF _ assms] fine_always kept_switches)
    show "fine X s (each enable_service_checks xs s)" by (rule fine_each [OF fine_enable_service_checks assms])
    show "fine X s (each (always disable_service_checks) xs s)" by (intro fine_each [OF _ assms] fine_always kept_switches)
  qed
  show ?thesis unfolding host_switch_def
    by (intro fine_if loops fine_propagate_notifications [OF assms]) (simp_all add: kept_switches fine_enable_host_checks
      fine_switch_flap_detection fine_clear_flapping kept_refl assms)
qed

lemma fine_service_switch:
  assumes "daemon_ok X s"
  shows "fine X s (service_switch cmd i s)"
  unfolding service_switch_def
  by (intro fine_if) (simp_all add: kept_switches fine_enable_service_checks fine_switch_flap_detection fine_clear_flapping kept_refl assms)

text \<open>What a command does and what it leaves of its arguments.\<close>

lemma answers_custom:
  assumes "daemon_ok X s" "\<And>opts. fine X s (map_option snd (notify opts s))"
    and "\<And>buf s. daemon_ok X s \<Longrightarrow> kept X s (final buf s)"
  shows "answers X (custom_notification notify buf s \<bind> (\<lambda>(buf, s). Some (OK, final buf s)))"
proof -
  have "answers X (map_option (\<lambda>(_, s). (b, s)) (notify opts s) \<bind> (\<lambda>(buf, s). Some (OK, final buf s)))" for b opts
    using assms(2) [of opts] assms(3) keptD by (fastforce simp: fine_def)
  then show ?thesis using answers_OK [OF assms(3) [OF assms(1)]]
    by (auto simp: custom_notification_def split: option.splits prod.splits)
qed

lemma answers_number:
  assumes "daemon_ok X s" "\<And>n. kept X s (set_number n s)" "\<And>buf s. daemon_ok X s \<Longrightarrow> kept X s (final buf s)"
  shows "answers X (notification_number set_number buf s \<bind> (\<lambda>(buf, s). Some (OK, final buf s)))"
  using assms(1) keptD [OF assms(3) [OF assms(1)]] keptD [OF assms(3) [OF keptD [OF assms(2)]]]
  by (simp add: notification_number_def split: option.splits)

lemma answers_switched:
  assumes "fine X s r" "\<And>buf s. daemon_ok X s \<Longrightarrow> kept X s (final buf s)"
  shows "answers X (map_option (Pair buf) r \<bind> (\<lambda>(buf, s). Some (OK, final buf s)))"
  using assms(1) keptD [OF assms(2) [OF keptD]] by (auto simp: fine_def)

lemma answers_host_command:
  assumes "daemon_ok X s"
  shows "answers X (process_host_command cmd t args s)"
proof -
  have "answers X ((if cmd = CMD_SET_HOST_NOTIFICATION_NUMBER then notification_number (set_host_notification_number h) buf s
      else if cmd = CMD_SEND_CUSTOM_HOST_NOTIFICATION then custom_notification (host_notification h NOTIFICATION_CUSTOM) buf s
      else map_option (Pair buf) (host_switch cmd h s)) \<bind>
    (\<lambda>(buf, s). Some (OK, with_comment (author_and_comment buf) (host_user_comment name) s)))" for h buf name
    by (simp only: split: if_split) (intro conjI impI answers_number answers_custom answers_switched [OF fine_host_switch [OF assms]] assms
      kept_notification_number fine_notification kept_with_comment)
  then show ?thesis unfolding process_host_command_def by (intro answers_token answers_found assms)
qed

lemma answers_service_command:
  assumes "daemon_ok X s"
  shows "answers X (process_service_command cmd t args s)"
proof -
  have "answers X ((if cmd = CMD_SET_SVC_NOTIFICATION_NUMBER then notification_number (set_service_notification_number i) buf s
      else if cmd = CMD_SEND_CUSTOM_SVC_NOTIFICATION then custom_notification (service_notification i NOTIFICATION_CUSTOM) buf s
      else map_option (Pair buf) (service_switch cmd i s)) \<bind>
    (\<lambda>(buf, s). Some (OK, with_comment (author_and_comment buf) (service_user_comment name desc) s)))" for i buf name desc
    by (simp only: split: if_split) (intro conjI impI answers_number answers_custom answers_switched [OF fine_service_switch [OF assms]] assms
      kept_notification_number fine_notification kept_with_comment)
  then show ?thesis unfolding process_service_command_def by (intro answers_token answers_found assms)
qed

lemma fine_acted:
  assumes "daemon_ok X s" "\<And>f. action = Some f \<Longrightarrow> fine X s (f x s)" "\<And>s. daemon_ok X s \<Longrightarrow> kept X s (with_comment note add s)"
  shows "fine X s (acted note add action x s)"
  using assms by (auto simp: acted_def kept_refl intro!: fine_map split: option.splits)

lemma fine_group_actions:
  assumes "daemon_ok X s"
  shows "hostgroup_host_action cmd = Some f \<Longrightarrow> fine X s (f x s)" "hostgroup_service_action cmd = Some f \<Longrightarrow> fine X s (f x s)"
    "servicegroup_service_action cmd = Some f \<Longrightarrow> fine X s (f x s)" "servicegroup_host_action cmd = Some f \<Longrightarrow> fine X s (f x s)"
  using assms by (auto simp: hostgroup_host_action_def hostgroup_service_action_def servicegroup_service_action_def
    servicegroup_host_action_def always_def kept_switches fine_enable_service_checks fine_enable_host_checks split: if_splits)

lemma fine_acted_host:
  assumes "daemon_ok X s"
  shows "fine X s (acted note (host_user_comment h) (hostgroup_host_action cmd) x s)"
    "fine X s (acted note (service_user_comment h d) (hostgroup_service_action cmd) x s)"
    "fine X s (acted note (service_user_comment h d) (servicegroup_service_action cmd) x s)"
    "fine X s (acted note (host_user_comment h) (servicegroup_host_action cmd) x s)"
  by ((rule fine_acted [OF assms]; (rule kept_with_comment | rule fine_group_actions [OF assms]); assumption)+)

lemma answers_hostgroup_command:
  assumes "daemon_ok X s"
  shows "answers X (process_hostgroup_command cmd t args s)"
proof -
  have "fine X u (each (\<lambda>i s. acted nt (service_user_comment (h_name (hosts s h)) (s_description (svcs s i)))
      (hostgroup_service_action cmd) i s) xs u)" if "daemon_ok X u" for u nt h xs
    by (rule fine_each [OF fine_acted_host(2) that])
  then show ?thesis unfolding process_hostgroup_command_def Let_def
    by (intro answers_token answers_found answers_answer [where s = s] assms fine_each)
      (auto split: option.splits prod.splits simp: kept_refl fine_acted_host)
qed

lemma answers_servicegroup_command:
  assumes "daemon_ok X s"
  shows "answers X (process_servicegroup_command cmd t args s)"
proof -
  have "fine X s (each (\<lambda>(host_name, svc_description) s. case find_service s (Some host_name) (Some svc_description) of None \<Rightarrow> Some s
      | Some i \<Rightarrow> acted nt (service_user_comment host_name (s_description (svcs s i))) (servicegroup_service_action cmd) i s) members s)"
    for nt members
    by (rule fine_each [OF _ assms]) (auto split: option.splits simp: kept_refl fine_acted_host)
  moreover have "fine X s (each (\<lambda>(_, h) s. acted nt (host_user_comment (h_name (hosts s h))) (servicegroup_host_action cmd) h s) hs s)"
    for nt and hs :: "(string \<times> nat) list"
    by (rule fine_each [OF _ assms]) (auto simp: fine_acted_host)
  ultimately show ?thesis unfolding process_servicegroup_command_def Let_def
    by (intro answers_token answers_found answers_answer [where s = s] assms fine_if) (simp_all add: kept_refl assms)
qed

lemma answers_contact_commands:
  assumes "daemon_ok X s"
  shows "answers X (process_contact_command cmd t args s)" "answers X (process_contactgroup_command cmd t args s)"
proof -
  have act: "kept X u (contactgroup_action cmd c u)" if "daemon_ok X u" for c u
    using that by (simp add: contactgroup_action_def contact_switches kept_set_contact kept_refl)
  show "answers X (process_contact_command cmd t args s)" unfolding process_contact_command_def
    by (intro answers_token answers_found assms answers_OK [where s = s]) (simp add: contact_switches kept_set_contact kept_refl assms)
  show "answers X (process_contactgroup_command cmd t args s)" unfolding process_contactgroup_command_def
    by (intro answers_token answers_found answers_answer [where s = s] assms fine_each) (auto simp: kept_refl act split: option.splits)
qed

section \<open>Commands for comments and checks\<close>

lemma answers_add_comment:
  assumes "daemon_ok X s" "cmd = CMD_ADD_HOST_COMMENT \<or> cmd = CMD_ADD_SVC_COMMENT"
  shows "answers X (cmd_add_comment cmd t args s)"
proof -
  have "cm_wf (comments s)" "0 < next_comment_id (comments s)" using daemon_comments_ok [OF assms(1)] by (simp_all add: comments_ok_def)
  have "answers X (case add_new_comment True (comments s) ty et (Some h) d tm (Some a) (Some x) p src False 0 of
      (result, _, c, _) \<Rightarrow> Some (if result < 0 then ERROR else OK, s\<lparr>comments := c\<rparr>))"
    if "ty = HOST_COMMENT \<or> ty = SERVICE_COMMENT" "ty = SERVICE_COMMENT \<longrightarrow> d \<noteq> None" for ty et h d tm a x p src
  proof -
    from add_new_comment_spec [OF \<open>cm_wf (comments s)\<close> that, of et h tm a x p src False 0] obtain cid c where
      c: "add_new_comment True (comments s) ty et (Some h) d tm (Some a) (Some x) p src False 0 = (OK, cid, c, None)" "cm_wf c"
        "next_comment_id c = cid + 1" by auto
    then have "comments_ok c" by (simp add: comments_ok_def)
    with keptD [OF kept_comments [OF assms(1)]] c(1) show ?thesis by simp
  qed
  note add = this
  show ?thesis unfolding cmd_add_comment_def Let_def
    by (intro answers_token assms answers_if answers_found add) (use assms(2) in auto)
qed

lemma answers_delete_comment:
  assumes "daemon_ok X s"
  shows "answers X (cmd_delete_comment cmd args s)"
proof -
  have "answers X (map_option (\<lambda>(_, c). (OK, s\<lparr>comments := c\<rparr>)) (delete_comment (comments s) ty i))" for ty i
  proof -
    obtain r c where "delete_comment (comments s) ty i = Some (r, c)" "comments_ok c"
      using delete_comment_ok [OF daemon_comments_ok [OF assms]] by metis
    with keptD [OF kept_comments [OF assms]] show ?thesis by simp
  qed
  then show ?thesis using assms
    by (simp add: cmd_delete_comment_def Let_def delete_host_comment_def delete_service_comment_def)
qed

lemma answers_delete_all_comments:
  assumes "daemon_ok X s" "cmd = CMD_DEL_ALL_HOST_COMMENTS \<or> cmd = CMD_DEL_ALL_SVC_COMMENTS"
  shows "answers X (cmd_delete_all_comments cmd args s)"
proof -
  note cm = daemon_comments_ok [OF assms(1)]
  have "\<exists>c. delete_all_comments (comments s) ty (Some h) d = Some (OK, c) \<and> comments_ok c"
    if "ty = HOST_COMMENT \<or> d \<noteq> None" for ty h d
  proof (cases "ty = HOST_COMMENT")
    case True
    with delete_all_host_spec [of "comments s" h] cm delete_each_next_id show ?thesis
      by (fastforce simp: comments_ok_def delete_all_comments_def delete_all_host_comments_def)
  next
    case False
    with that obtain x where "d = Some x" by auto
    with False delete_all_service_spec [of "comments s" h x] cm delete_each_next_id show ?thesis
      by (fastforce simp: comments_ok_def delete_all_comments_def delete_all_service_comments_def)
  qed
  note total = this
  have "answers X (map_option (\<lambda>(_, c). (OK, s\<lparr>comments := c\<rparr>)) (delete_all_comments (comments s) ty (Some h) d))"
    if both: "ty = HOST_COMMENT \<or> d \<noteq> None" for ty h d
  proof -
    from total [OF both] obtain c where "delete_all_comments (comments s) ty (Some h) d = Some (OK, c)" "comments_ok c" by blast
    with keptD [OF kept_comments [OF assms(1)]] show ?thesis by simp
  qed
  note all = this
  show ?thesis unfolding cmd_delete_all_comments_def Let_def
    by (intro answers_token assms answers_if answers_found all) (use assms(2) in auto)
qed

lemma answers_delay_notification:
  assumes "daemon_ok X s"
  shows "answers X (cmd_delay_notification cmd args s)"
proof -
  have k: "kept X s (upd_svc i (\<lambda>v. v\<lparr>s_next_notification := n\<rparr>) s)" "kept X s (upd_host h (\<lambda>v. v\<lparr>h_next_notification := n\<rparr>) s)" for i h n
    by (rule kept_upd_svc [OF assms], simp add: svc_ties_def) (rule kept_upd_host [OF assms], simp add: host_ties_def)
  show ?thesis unfolding cmd_delay_notification_def
    by (intro answers_token answers_if answers_found assms answers_OK) (rule kept_with_comment [OF keptD [OF k(1)]] kept_with_comment [OF keptD [OF k(2)]])+
qed

lemma answers_noted:
  assumes "fine X s r" "\<And>s. daemon_ok X s \<Longrightarrow> kept X s (final s)"
  shows "answers X (map_option (\<lambda>s. (OK, final s)) r)"
  using assms(1) keptD [OF assms(2) [OF keptD]] by (auto simp: fine_def)

lemma answers_schedule_check:
  assumes "daemon_ok X s"
  shows "answers X (cmd_schedule_check cmd args s)"
  unfolding cmd_schedule_check_def
  by (intro answers_token answers_if answers_found assms answers_noted [where s = s] kept_with_comment fine_if fine_each
    fine_schedule; assumption?)

lemma answers_schedule_host_service_checks:
  assumes "daemon_ok X s"
  shows "answers X (cmd_schedule_host_service_checks cmd args force s)"
  unfolding cmd_schedule_host_service_checks_def
  by (intro answers_token answers_found answers_answer [where s = s] assms fine_each fine_schedule; assumption?)

lemma answers_signal_process:
  assumes "daemon_ok X s"
  shows "answers X (cmd_signal_process cmd args s)"
proof -
  have *: "stays X s (snd (schedule_new_event ty p t No_data n s))" if "event_fits ty No_data" for ty p t n
  proof (rule calm_stays [OF assms])
    have "target_depth u (snd (schedule_new_event ty p t No_data n s)) = target_depth u s" for u
      by (cases u) (simp_all add: schedule_new_event_def Let_def)
    then show "dt_inv {} (snd (schedule_new_event ty p t No_data n s))"
      by (intro dt_inv_quiet [OF daemon_okD(1) [OF assms]]) (simp add: quiet_def dt_keeps_def schedule_new_event_def Let_def)
  qed (rule calm_new_event [OF _ that], simp, simp add: schedule_new_event_def Let_def)
  show ?thesis unfolding cmd_signal_process_def Let_def
    by (intro answers_OK [where s = s] kept_stays *) (simp add: event_fits_def)
qed

section \<open>Passive results\<close>

lemma answers_service_result:
  assumes "daemon_ok X s" "a_state (service_result_code (globs s) cr)"
  shows "answers X (handle_async_service_check_result i cr s)"
proof -
  from daemon_okD(5) [OF assms(1)] obtain h where h: "s_host (svcs s i) = Some h" by (auto simp: linked_def)
  show ?thesis
  proof (cases "accepts i cr s")
    case True
    from service_entry_step [OF assms(1) True] obtain s1 where
      s1: "(if cr_check_type cr = CHECK_TYPE_PASSIVE then service_is_passive i s else (True, service_is_active i s)) = (True, s1)"
        "passes X i s s1" "svc_machine (svcs s1 i) = svc_machine (svcs s i)" by blast
    note p = passesD [OF s1(2)]
    have "globs s1 = globs s" using ctxD [OF p(2)] by simp
    with process_service_result_step [where cr = cr and h = h and i = i, OF p(1)] assms(2) obtain s' where
      "process_service_result i h cr (s_last_hard_state (svcs s1 i)) s1 = Some s'" "daemon_ok X s'" by fastforce
    moreover have "s_last_hard_state (svcs s1 i) = s_last_hard_state (svcs s i)" using s1(3) by (simp add: svc_machine_def)
    ultimately show ?thesis using h s1(1) by (simp add: handle_async_service_check_result_def)
  next
    case False
    then show ?thesis using h assms(1) by (simp add: handle_async_service_check_result_def accepts_def service_is_passive_def)
  qed
qed

lemma answers_host_result:
  assumes "daemon_ok X s" "a_state (host_result_code (globs s) (h_check_command (hosts s h) \<noteq> None) cr)"
  shows "answers X (handle_async_host_check_result h cr s)"
proof (cases "host_accepts h cr s")
  case True
  with handle_host_result_spec [OF assms] show ?thesis by (auto simp: answers_def)
next
  case False
  then show ?thesis using assms(1) by (simp add: handle_async_host_check_result_def host_accepts_def host_is_passive_def)
qed

lemma answers_passive_results:
  assumes "daemon_ok X s"
  shows "answers X (cmd_process_service_check_result e cmd t args s)" "answers X (cmd_process_host_check_result e cmd t args s)"
proof -
  have "answers X (map_option (\<lambda>(_, s). (OK, s)) r)" if "answers X r" for r using that by (auto simp: answers_def)
  note forget = this
  show "answers X (cmd_process_service_check_result e cmd t args s)"
    unfolding cmd_process_service_check_result_def process_passive_service_check_def Let_def
    by (intro answers_token answers_if answers_found assms answers_service_result)
      (simp_all add: assms service_result_code_def passive_result_def a_state_def)
  have "answers X (if rc < 0 \<or> rc > 2 then Some (ERROR, s) else found (find_host_by_name_or_address s n) s (\<lambda>h.
       if \<not> h_accept_passive_checks (hosts s h) then Some (ERROR, s)
       else map_option (\<lambda>(_, s). (OK, s)) (handle_async_host_check_result h (passive_result e s t rc out) s)))" for rc n out
  proof (cases "rc < 0 \<or> rc > 2")
    case False
    then have "a_state (host_result_code (globs s) b (passive_result e s t rc out))" for b
      by (simp add: host_result_code_def passive_result_def a_state_def)
    with False show ?thesis by (simp, intro answers_found answers_if forget answers_host_result) (simp_all add: assms)
  qed (simp add: assms)
  note tail = this
  show "answers X (cmd_process_host_check_result e cmd t args s)"
    unfolding cmd_process_host_check_result_def process_passive_host_check_def Let_def
    by (intro answers_token assms answers_if tail) (simp_all add: assms)
qed

section \<open>Acknowledgements and downtimes\<close>

lemma answers_acknowledgements:
  assumes "daemon_ok X s"
  shows "answers X (cmd_acknowledge_problem cmd args s)" "answers X (cmd_remove_acknowledgement cmd args s)"
  unfolding cmd_acknowledge_problem_def cmd_remove_acknowledgement_def Let_def
  by (intro answers_token answers_found answers_if answers_answer [where s = s] assms fine_acknowledge fine_remove_acknowledgement)+

text \<open>Times and durations that can be printed in the comment about the downtime.\<close>

definition sane_downtime :: "downtime_args \<Rightarrow> bool" where
  "sane_downtime a \<longleftrightarrow> 0 \<le> da_start a \<and> da_start a < 2 ^ 31 \<and> (case final_duration a of None \<Rightarrow> False | Some d \<Rightarrow> unat d < 2 ^ 31)"

lemma fine_schedule_for:
  assumes "daemon_ok X s" "0 \<le> da_start a" "da_start a < 2 ^ 31" "unat d < 2 ^ 31"
  shows "\<exists>i s'. schedule_for et a d tr ty h sd s = Some (i, s') \<and> kept X s s'"
proof -
  from kept_schedule_downtime [OF assms, of ty "Some h" sd et "Some (da_author a)" "Some (da_comment a)" "da_end a" "da_fixed a > 0" tr]
  show ?thesis by (auto simp: schedule_for_def)
qed

lemma fine_downtime_for_object:
  assumes "daemon_ok X s" "0 \<le> da_start a" "da_start a < 2 ^ 31" "unat d < 2 ^ 31"
  shows "fine X s (downtime_for_object cmd et a d object s)"
proof -
  have one: "fine X u (map_option snd (schedule_for et a d tr ty h sd u))" if "daemon_ok X u" for u tr ty h sd
    using fine_schedule_for [OF that assms(2-4), of et tr ty h sd] by (auto simp: fine_def)
  have services: "fine X u (each (\<lambda>i s. map_option snd (schedule_for et a d tr ty (name i) (Some (s_description (svcs s i))) s)) xs u)"
    if "daemon_ok X u" for u tr ty name xs by (rule fine_each [OF one that])
  have tree: "fine X u (schedule_and_propagate_downtime h et (da_author a) (da_comment a) (da_start a) (da_end a) (da_fixed a > 0) tr (unat d) u)"
    if "daemon_ok X u" for h tr u by (rule fine_propagate_downtime [OF that assms(2-4)])
  have triggered: "fine X s (schedule_for et a d tr ty h sd s \<bind> (\<lambda>(i, s). schedule_and_propagate_downtime k et (da_author a) (da_comment a)
      (da_start a) (da_end a) (da_fixed a > 0) i (unat d) s))" for tr ty h sd k
  proof -
    from fine_schedule_for [OF assms] obtain i s' where "schedule_for et a d tr ty h sd s = Some (i, s')" "kept X s s'" by blast
    with fine_trans [OF _ tree [OF keptD]] show ?thesis by simp
  qed
  show ?thesis
  proof (cases object)
    case (Downtime_host host_name h svc_description)
    show ?thesis unfolding downtime_for_object_def Let_def Downtime_host downtime_object.case
      by (intro fine_if one services triggered fine_bind [OF one tree] assms(1)) (simp_all add: keptD kept_refl assms(1))
  next
    case (Downtime_hostgroup members)
    show ?thesis unfolding downtime_for_object_def Let_def Downtime_hostgroup downtime_object.case
      by (intro fine_if fine_each assms(1)) (auto simp: one services kept_refl split: option.splits)
  next
    case (Downtime_servicegroup members)
    show ?thesis unfolding downtime_for_object_def Let_def Downtime_servicegroup downtime_object.case
      by (intro fine_if fine_each assms(1)) (auto simp: one)
  qed
qed

definition sane_downtime_command :: "nat \<Rightarrow> string \<Rightarrow> bool" where
  "sane_downtime_command cmd args \<longleftrightarrow>
    (case do {
       (_, buf) \<leftarrow> my_strtok args semicolon;
       (_, buf) \<leftarrow> (if cmd = CMD_SCHEDULE_SVC_DOWNTIME then my_strtok buf semicolon else Some ([], buf));
       downtime_args_of buf
     } of None \<Rightarrow> True | Some a \<Rightarrow> sane_downtime a)"

lemma downtime_object_rest:
  assumes "downtime_object_of cmd args s = Some (object, buf)" "sane_downtime_command cmd args" "downtime_args_of buf = Some a"
  shows "sane_downtime a"
  using assms by (auto simp: downtime_object_of_def sane_downtime_command_def split: if_splits Option.bind_splits)

lemma answers_schedule_downtime:
  assumes "daemon_ok X s" "sane_downtime_command cmd args"
  shows "answers X (cmd_schedule_downtime cmd et args s)"
proof -
  have "answers X (found (downtime_args_of buf) s (\<lambda>a. if da_fixed a = 0 \<and> da_duration a = 0 then Some (ERROR, s)
      else do { duration \<leftarrow> final_duration a; answer (downtime_for_object cmd et a duration object s) }))"
    if "downtime_object_of cmd args s = Some (object, buf)" for object buf
  proof (rule answers_found [OF assms(1)])
    fix a assume "downtime_args_of buf = Some a"
    with downtime_object_rest [OF that assms(2)] obtain d where a: "0 \<le> da_start a" "da_start a < 2 ^ 31" "final_duration a = Some d" "unat d < 2 ^ 31"
      by (auto simp: sane_downtime_def split: option.splits)
    from answers_answer [OF fine_downtime_for_object [OF assms(1) a(1,2,4)]] assms(1) a(3)
    show "answers X (if da_fixed a = 0 \<and> da_duration a = 0 then Some (ERROR, s)
      else do { duration \<leftarrow> final_duration a; answer (downtime_for_object cmd et a duration object s) })" by simp
  qed
  then show ?thesis unfolding cmd_schedule_downtime_def by (intro answers_found assms(1)) auto
qed

lemma answers_delete_downtime:
  assumes "daemon_ok {} s"
  shows "answers {} (cmd_delete_downtime cmd args s)"
proof -
  have "answers {} (map_option (\<lambda>(_, s). (OK, s)) (unschedule_downtime s ty i))" for ty i
    using kept_unschedule_downtime [OF assms, of ty i] by (auto simp: answers_def intro: keptD)
  then show ?thesis unfolding cmd_delete_downtime_def by (intro answers_token assms)
qed

lemma answers_any_deleted: "r = Some (n, s') \<Longrightarrow> daemon_ok X s' \<Longrightarrow> answers X (any_deleted r)"
  by (simp add: any_deleted_def)

text \<open>The comment a command asks for is only compared with comments that are there.\<close>

definition sane_filter :: "nat \<Rightarrow> string \<Rightarrow> bool \<Rightarrow> bool" where
  "sane_filter cmd args all_commented \<longleftrightarrow>
    (if cmd = CMD_DEL_DOWNTIME_BY_HOSTGROUP_NAME then
       (case my_strtok args semicolon of None \<Rightarrow> True | Some (_, buf) \<Rightarrow> snd (snd (snd (hostgroup_filters buf))) = None)
     else if cmd = CMD_DEL_DOWNTIME_BY_HOST_NAME then
       (case my_strtok args semicolon of None \<Rightarrow> True | Some (_, buf) \<Rightarrow> snd (snd (snd (downtime_filters buf (None, 0, None)))) = None)
       \<or> all_commented
     else snd (start_time_filters args) = None \<or> all_commented)"

lemma delete_downtimes_of_members_kept:
  assumes "daemon_ok {} s" "snd (snd filters) = None"
  shows "\<exists>n s'. delete_downtimes_of_members hn filters ms m s = Some (n, s') \<and> daemon_ok {} s'"
  using assms(1)
proof (induction ms arbitrary: m s)
  case (Cons x ms)
  show ?case
  proof (cases "snd x = None \<or> hn \<noteq> None \<and> hn \<noteq> Some (h_name (hosts s (the (snd x))))")
    case True
    then show ?thesis using Cons by (auto split: option.splits)
  next
    case False
    then obtain h where h: "snd x = Some h" "\<not> (hn \<noteq> None \<and> hn \<noteq> Some (h_name (hosts s h)))" by auto
    from kept_delete_by [OF Cons.prems] obtain n s' where
      s': "delete_downtime_by_hostname_service_description_start_time_comment s (Some (h_name (hosts s h))) (fst filters)
        (fst (snd filters)) (snd (snd filters)) = Some (n, s')" "kept {} s s'" using assms(2) by metis
    from Cons.IH [OF keptD [OF s'(2)]] show ?thesis using h s'(1) by auto
  qed
qed simp

lemma answers_delete_by:
  assumes "daemon_ok {} s"
  shows "sane_filter CMD_DEL_DOWNTIME_BY_HOST_NAME args (commented s) \<Longrightarrow> answers {} (cmd_delete_downtime_by_host_name cmd args s)"
    "sane_filter CMD_DEL_DOWNTIME_BY_HOSTGROUP_NAME args (commented s) \<Longrightarrow> answers {} (cmd_delete_downtime_by_hostgroup_name cmd args s)"
    "sane_filter CMD_DEL_DOWNTIME_BY_START_TIME_COMMENT args (commented s) \<Longrightarrow> answers {} (cmd_delete_downtime_by_start_time_comment cmd args s)"
proof -
  have one: "answers {} (any_deleted (delete_downtime_by_hostname_service_description_start_time_comment s hn sd st co))"
    if "co = None \<or> commented s" for hn sd st co
    using kept_delete_by [OF assms that, of hn sd st] by (auto intro: answers_any_deleted keptD)
  show "answers {} (cmd_delete_downtime_by_host_name cmd args s)" if "sane_filter CMD_DEL_DOWNTIME_BY_HOST_NAME args (commented s)"
    using that assms one by (auto simp: sane_filter_def cmd_delete_downtime_by_host_name_def token_def split: option.splits prod.splits)
  show "answers {} (cmd_delete_downtime_by_start_time_comment cmd args s)" if "sane_filter CMD_DEL_DOWNTIME_BY_START_TIME_COMMENT args (commented s)"
    using that assms one by (auto simp: sane_filter_def cmd_delete_downtime_by_start_time_comment_def split: prod.splits)
  show "answers {} (cmd_delete_downtime_by_hostgroup_name cmd args s)" if sane: "sane_filter CMD_DEL_DOWNTIME_BY_HOSTGROUP_NAME args (commented s)"
  proof (cases "my_strtok args semicolon")
    case (Some p)
    obtain t buf where p: "p = (t, buf)" by (cases p)
    obtain hn filters where f: "hostgroup_filters buf = (hn, filters)" by (cases "hostgroup_filters buf")
    have "snd (snd filters) = None" using sane by (simp add: sane_filter_def Some p f)
    then have "answers {} (any_deleted (delete_downtimes_of_members hn filters ms 0 s))" for ms
      using delete_downtimes_of_members_kept [OF assms, of filters hn ms 0] by (auto intro: answers_any_deleted)
    then show ?thesis using assms by (auto simp: cmd_delete_downtime_by_hostgroup_name_def token_def Some p f found_def split: option.splits)
  qed (simp add: cmd_delete_downtime_by_hostgroup_name_def token_def assms)
qed

section \<open>Changes of fields\<close>

lemma kept_marks:
  assumes "daemon_ok X s"
  shows "kept X s (mark_host h m s)" "kept X s (mark_service i m s)"
  unfolding mark_host_def mark_service_def
  by (rule kept_upd_host [OF assms], simp add: host_ties_def) (rule kept_upd_svc [OF assms], simp add: svc_ties_def)

lemma fine_change_intervals:
  assumes "daemon_ok X s"
  shows "fine X s (change_host_check_interval h d s)" "fine X s (change_service_check_interval i d s)"
proof -
  note marks = fine_map [OF _ kept_marks(1)] fine_map [OF _ kept_marks(2)]
  define f where "f = (\<lambda>v :: host. v\<lparr>h_check_interval := of_int d\<rparr>)"
  define g where "g = (\<lambda>u (v :: host). v\<lparr>h_should_be_scheduled := True, h_next_check := first_check_time (h_check_period v) u\<rparr>)"
  have 1: "kept X s (upd_host h f s)" by (rule kept_upd_host [OF assms]) (simp add: f_def host_ties_def)
  have 2: "kept X u (upd_host h (g u) u)" if "daemon_ok X u" for u by (rule kept_upd_host [OF that]) (simp add: g_def host_ties_def)
  note 3 = fine_trans [OF 1 fine_trans [OF 2 [OF keptD [OF 1]] fine_schedule(2) [OF keptD [OF 2 [OF keptD [OF 1]]]]]]
  show "fine X s (change_host_check_interval h d s)"
    unfolding change_host_check_interval_def Let_def f_def [symmetric]
    by (intro marks fine_if 3 [unfolded g_def]) (simp_all add: 1)
  define k where "k = (\<lambda>v :: service. v\<lparr>s_check_interval := of_int d\<rparr>)"
  define m where "m = (\<lambda>u (v :: service). v\<lparr>s_should_be_scheduled := True, s_next_check := first_check_time (s_check_period v) u\<rparr>)"
  have 4: "kept X s (upd_svc i k s)" by (rule kept_upd_svc [OF assms]) (simp add: k_def svc_ties_def)
  have 5: "kept X u (upd_svc i (m u) u)" if "daemon_ok X u" for u by (rule kept_upd_svc [OF that]) (simp add: m_def svc_ties_def)
  note 6 = fine_trans [OF 4 fine_trans [OF 5 [OF keptD [OF 4]] fine_schedule(1) [OF keptD [OF 5 [OF keptD [OF 4]]]]]]
  show "fine X s (change_service_check_interval i d s)"
    unfolding change_service_check_interval_def Let_def k_def [symmetric]
    by (intro marks fine_if 6 [unfolded m_def]) (simp_all add: 4)
qed

lemma fine_int_var:
  assumes "daemon_ok X s"
  shows "fine X s (change_host_int_var cmd h n d s)" "fine X s (change_service_int_var cmd i n d s)"
    "kept X s (change_contact_int_var cmd c n s)"
proof -
  have marked: "kept X s u \<Longrightarrow> fine X s (Some (mark_host h m u))" "kept X s u \<Longrightarrow> fine X s (Some (mark_service i m u))" for u m
    using kept_trans [OF _ kept_marks(1) [OF keptD]] kept_trans [OF _ kept_marks(2) [OF keptD]] by simp_all
  have host: "kept X s (upd_host h f s)" if "\<And>v. host_ties (f v) = host_ties v" for f
    by (rule kept_upd_host [OF assms]) (rule that)
  have svc: "kept X s (upd_svc i f s)" if "\<And>v. svc_ties (f v) = svc_ties v" for f
    by (rule kept_upd_svc [OF assms]) (rule that)
  show "fine X s (change_host_int_var cmd h n d s)" unfolding change_host_int_var_def
    by (intro fine_if fine_change_intervals assms marked host; (unfold fine_Some, rule host)?; simp add: host_ties_def)
  show "fine X s (change_service_int_var cmd i n d s)" unfolding change_service_int_var_def
    by (intro fine_if fine_change_intervals assms marked svc; (unfold fine_Some, rule svc)?; simp add: svc_ties_def)
  show "kept X s (change_contact_int_var cmd c n s)" by (simp add: change_contact_int_var_def kept_upd_contact assms)
qed

text \<open>The value of a numeric field, and that it can be converted.\<close>

definition sane_value :: "nat \<Rightarrow> string \<Rightarrow> bool" where
  "sane_value cmd args \<longleftrightarrow>
    (case do {
       (_, buf) \<leftarrow> my_strtok args semicolon;
       (_, buf) \<leftarrow> (if cmd = CMD_CHANGE_NORMAL_SVC_CHECK_INTERVAL \<or> cmd = CMD_CHANGE_RETRY_SVC_CHECK_INTERVAL
          \<or> cmd = CMD_CHANGE_MAX_SVC_CHECK_ATTEMPTS \<or> cmd = CMD_CHANGE_SVC_MODATTR then my_strtok buf semicolon else Some ([], buf));
       my_strtok buf semicolon
     } of None \<Rightarrow> True | Some (t, _) \<Rightarrow> int_of_strtod t \<noteq> None)"

lemma answers_int_value:
  assumes "daemon_ok X s" "\<And>t rest. my_strtok buf semicolon = Some (t, rest) \<Longrightarrow> int_of_strtod t \<noteq> None"
    and "\<And>n d. answers X (k n d)"
  shows "answers X (int_value e buf s k)"
  using assms by (fastforce simp: int_value_def token_def Let_def split: option.splits)

lemma answers_token_at:
  assumes "daemon_ok X s" "\<And>t buf'. my_strtok buf sep = Some (t, buf') \<Longrightarrow> answers X (k t buf')"
  shows "answers X (token sep buf s k)"
  using assms by (auto simp: token_def split: option.splits)

lemma answers_int_var:
  assumes "daemon_ok X s" "sane_value cmd args"
  shows "answers X (cmd_change_object_int_var e cmd args s)"
  unfolding cmd_change_object_int_var_def
  by (intro answers_if answers_token_at answers_found answers_int_value answers_answer [where s = s] answers_OK [where s = s] assms(1) fine_int_var)
    (use assms in \<open>auto simp: sane_value_def\<close>)

lemma kept_periods:
  assumes "daemon_ok X s"
  shows "kept X s (change_host_period cmd h tp s)" "kept X s (change_service_period cmd i tp s)" "kept X s (change_contact_period cmd c tp s)"
proof -
  have marked: "kept X s u \<Longrightarrow> kept X s (mark_host h m u)" "kept X s u \<Longrightarrow> kept X s (mark_service i m u)" for u m
    using kept_trans [OF _ kept_marks(1) [OF keptD]] kept_trans [OF _ kept_marks(2) [OF keptD]] by simp_all
  show "kept X s (change_host_period cmd h tp s)" unfolding change_host_period_def
    by (simp, intro conjI impI marked kept_upd_host [OF assms]) (simp_all add: host_ties_def)
  show "kept X s (change_service_period cmd i tp s)" unfolding change_service_period_def
    by (simp, intro conjI impI marked kept_upd_svc [OF assms]) (simp_all add: svc_ties_def)
  show "kept X s (change_contact_period cmd c tp s)" by (simp add: change_contact_period_def kept_upd_contact assms)
qed

lemma answers_char_var:
  assumes "daemon_ok X s"
  shows "answers X (cmd_change_object_char_var cmd args s)"
  unfolding cmd_change_object_char_var_def Let_def
  by (intro answers_if answers_token answers_found answers_OK [where s = s] assms kept_periods) (simp_all add: assms)

lemma answers_custom_var:
  assumes "daemon_ok X s"
  shows "answers X (cmd_change_object_custom_var cmd args s)"
  unfolding cmd_change_object_custom_var_def Let_def
  by (intro answers_if answers_token answers_found answers_OK [where s = s] assms kept_upd_svc [OF assms] kept_upd_host [OF assms]
    kept_upd_contact [OF assms]) (simp_all add: svc_ties_def host_ties_def)

section \<open>Every command\<close>

lemma fine_program_command:
  assumes "daemon_ok X s" "program_command cmd = Some f"
  shows "fine X s (f s)"
  using assms by (auto simp: program_command_def program_switches mark_program_def kept_set_program fine_flap_detection_routines kept_refl split: if_splits)

text \<open>Arguments whose values C can convert and print: a downtime that starts before 2038 and lasts less than 68 years,
  a number that fits an \<open>int\<close>; and the comment of a filter is only given when every downtime has one.\<close>

definition sane_command :: "nat \<Rightarrow> string \<Rightarrow> bool \<Rightarrow> bool" where
  "sane_command cmd args all_commented \<longleftrightarrow>
    cmd \<noteq> CMD_READ_STATE_INFORMATION \<and>
    (if cmd \<in> set downtime_commands then sane_downtime_command cmd args
     else if cmd \<in> set int_var_commands then sane_value cmd args
     else if cmd = CMD_DEL_DOWNTIME_BY_HOST_NAME \<or> cmd = CMD_DEL_DOWNTIME_BY_HOSTGROUP_NAME \<or> cmd = CMD_DEL_DOWNTIME_BY_START_TIME_COMMENT
       then sane_filter cmd args all_commented
     else True)"

definition survives :: "nat set \<Rightarrow> (c_int \<times> daemon) ub \<Rightarrow> bool" where
  "survives X r \<longleftrightarrow> (\<exists>c s. r = Some (c, s) \<and> daemon_ok X s)"

lemma survives_answers: "answers X r \<Longrightarrow> survives X r"
  by (auto simp: answers_def survives_def)

lemma survives_if: "(b \<Longrightarrow> survives X r) \<Longrightarrow> (\<not> b \<Longrightarrow> survives X r') \<Longrightarrow> survives X (if b then r else r')"
  by simp

lemma command2_survives:
  assumes ok: "daemon_ok {} s" and sane: "sane_command cmd args (commented s)"
  shows "survives {} (process_external_command2 e cmd t args s)"
proof (cases "program_command cmd")
  case (Some f)
  from survives_answers [OF answers_answer [OF fine_program_command [OF ok Some]]] show ?thesis
    by (simp add: process_external_command2_def Some)
next
  case None
  have save: "answers {} (Some (if ce_saved e then OK else ERROR, act [Save_retention False] s))"
    using holdsD(1) [OF holds_fields(1) [OF ok]] by simp
  have read: "cmd = CMD_READ_STATE_INFORMATION \<Longrightarrow> survives {} (ce_read_state e s)" using sane by (simp add: sane_command_def)
  have downtime: "answers {} (cmd_schedule_downtime cmd t args s)" if "cmd \<in> set downtime_commands"
    using answers_schedule_downtime [OF ok] sane that by (simp add: sane_command_def)
  have number: "answers {} (cmd_change_object_int_var e cmd args s)" if "cmd \<notin> set downtime_commands" "cmd \<in> set int_var_commands"
    using answers_int_var [OF ok] sane that by (simp add: sane_command_def)
  have filters: "cmd = CMD_DEL_DOWNTIME_BY_HOST_NAME \<Longrightarrow> answers {} (cmd_delete_downtime_by_host_name cmd args s)"
    "cmd = CMD_DEL_DOWNTIME_BY_HOSTGROUP_NAME \<Longrightarrow> answers {} (cmd_delete_downtime_by_hostgroup_name cmd args s)"
    "cmd = CMD_DEL_DOWNTIME_BY_START_TIME_COMMENT \<Longrightarrow> answers {} (cmd_delete_downtime_by_start_time_comment cmd args s)"
    using answers_delete_by [OF ok] sane by (simp_all add: sane_command_def downtime_commands_def int_var_commands_def)
  have unknown: "survives {} (Some (CMD_ERROR_UNKNOWN_COMMAND, s))" using ok by (simp add: survives_def)
  show ?thesis unfolding process_external_command2_def None option.case
    by (intro survives_if unknown survives_answers [OF save] read survives_answers [OF downtime]
      survives_answers [OF number] survives_answers [OF filters(1)] survives_answers [OF filters(2)] survives_answers [OF filters(3)]
      answers_signal_process [OF ok, THEN survives_answers] answers_host_command [OF ok, THEN survives_answers]
      answers_hostgroup_command [OF ok, THEN survives_answers] answers_service_command [OF ok, THEN survives_answers]
      answers_servicegroup_command [OF ok, THEN survives_answers] answers_contact_commands [OF ok, THEN survives_answers]
      answers_add_comment [OF ok, THEN survives_answers] answers_delete_comment [OF ok, THEN survives_answers]
      answers_delay_notification [OF ok, THEN survives_answers] answers_schedule_check [OF ok, THEN survives_answers]
      answers_delete_all_comments [OF ok, THEN survives_answers] answers_passive_results [OF ok, THEN survives_answers]
      answers_acknowledgements [OF ok, THEN survives_answers] answers_delete_downtime [OF ok, THEN survives_answers]
      answers_char_var [OF ok, THEN survives_answers] answers_custom_var [OF ok, THEN survives_answers]; assumption)
qed

section \<open>Lines and files\<close>

text \<open>A line that asks for a file asks for one of a lower rank, so that files do not ask for themselves.\<close>

definition sane_line :: "(string \<Rightarrow> nat) \<Rightarrow> nat \<Rightarrow> bool \<Rightarrow> string \<Rightarrow> bool" where
  "sane_line rank r all_commented line \<longleftrightarrow>
    (case parse_external_command line of Inl _ \<Rightarrow> True
     | Inr (cmd, _, args) \<Rightarrow>
        if cmd = CMD_PROCESS_FILE
        then (case cmd_process_external_commands_from_file args of None \<Rightarrow> True | Some (fname, _) \<Rightarrow> rank fname < r)
        else sane_command cmd args all_commented)"

definition sane_files :: "(string \<Rightarrow> nat) \<Rightarrow> (string \<rightharpoonup> string) \<Rightarrow> bool" where
  "sane_files rank files \<longleftrightarrow> (\<forall>f content. files f = Some content \<longrightarrow> (\<forall>line \<in> set (mmap_lines content). sane_line rank (rank f) False line))"

lemma sane_files_mono: "sane_files rank files \<Longrightarrow> files' \<subseteq>\<^sub>m files \<Longrightarrow> sane_files rank files'"
  by (fastforce simp: sane_files_def map_le_def dom_def)

lemma sane_command_mono: "sane_command cmd args False \<Longrightarrow> sane_command cmd args b"
  by (auto simp: sane_command_def sane_filter_def split: if_splits)

lemma unlink_le: "fst w \<subseteq>\<^sub>m files \<Longrightarrow> fst (unlink_file f b w) \<subseteq>\<^sub>m files" "snd (unlink_file f b w) = snd w"
  by (auto simp: unlink_file_def map_le_def)

definition lives :: "nat set \<Rightarrow> (string \<rightharpoonup> string) \<Rightarrow> world option \<Rightarrow> bool" where
  "lives X files r \<longleftrightarrow> (\<exists>w. r = Some w \<and> fst w \<subseteq>\<^sub>m files \<and> daemon_ok X (snd w))"

lemma process_lines_lives:
  assumes files: "sane_files rank files"
  shows "fst w \<subseteq>\<^sub>m files \<Longrightarrow> daemon_ok {} (snd w) \<Longrightarrow> \<forall>line \<in> set todo. sane_line rank r False line
    \<Longrightarrow> lives {} files (process_lines w (e, todo))"
proof (induction r arbitrary: w todo rule: less_induct)
  case (less r)
  from less.prems show ?case
  proof (induction todo arbitrary: w)
    case Nil
    then show ?case by (subst process_lines.simps) (simp add: lives_def)
  next
    case (Cons line rest)
    have rest: "lives {} files (process_lines u (e, rest))" if "fst u \<subseteq>\<^sub>m files" "daemon_ok {} (snd u)" for u
      using Cons.IH [OF that] Cons.prems(3) by simp
    show ?case
    proof (cases "parse_external_command line")
      case (Inl c)
      then show ?thesis using rest [OF Cons.prems(1,2)] by (subst process_lines.simps) simp
    next
      case (Inr p)
      obtain cmd t args where p: "p = (cmd, t, args)" by (cases p)
      have sane: "sane_line rank r False line" using Cons.prems(3) by simp
      show ?thesis
      proof (cases "cmd = CMD_PROCESS_FILE")
        case True
        show ?thesis
        proof (cases "cmd_process_external_commands_from_file args")
          case None
          then show ?thesis using rest [OF Cons.prems(1,2)] True by (subst process_lines.simps) (simp add: Inr p)
        next
          case (Some q)
          obtain fname del where q: "q = (fname, del)" by (cases q)
          show ?thesis
          proof (cases "fst w fname")
            case None
            then show ?thesis using rest [OF Cons.prems(1,2)] True Some by (subst process_lines.simps) (simp add: Inr p q)
          next
            case (Some content)
            note open_file = Some
            have lower: "rank fname < r" using sane True \<open>cmd_process_external_commands_from_file args = Some q\<close>
              by (simp add: sane_line_def Inr p q)
            have "files fname = Some content" using open_file Cons.prems(1) by (auto simp: map_le_def dom_def)
            then have "\<forall>line \<in> set (mmap_lines content). sane_line rank (rank fname) False line" using files by (auto simp: sane_files_def)
            from less.IH [OF lower Cons.prems(1,2) this] obtain u where
              u: "process_lines w (e, mmap_lines content) = Some u" "fst u \<subseteq>\<^sub>m files" "daemon_ok {} (snd u)" by (auto simp: lives_def)
            from rest [OF unlink_le(1) [OF u(2)]] u(1,3) open_file True \<open>cmd_process_external_commands_from_file args = Some q\<close>
            show ?thesis by (subst process_lines.simps) (simp add: Inr p q unlink_le(2))
          qed
        qed
      next
        case False
        with sane have "sane_command cmd args (commented (snd w))" by (simp add: sane_line_def Inr p sane_command_mono)
        from command2_survives [OF Cons.prems(2) this, of e t] obtain c s where
          s: "process_external_command2 e cmd t args (snd w) = Some (c, s)" "daemon_ok {} s" by (auto simp: survives_def)
        from rest [of "(fst w, s)"] Cons.prems(1) s False show ?thesis by (subst process_lines.simps) (simp add: Inr p)
      qed
    qed
  qed
qed

lemma command1_survives:
  assumes "daemon_ok {} s" "sane_files rank files" "sane_line rank r (commented s) line"
  shows "\<exists>c files' s'. process_external_command1 e line (files, s) = Some (c, files', s')
    \<and> c \<in> {CMD_ERROR_OK, CMD_ERROR_UNKNOWN_COMMAND, CMD_ERROR_MALFORMED_COMMAND, CMD_ERROR_FAILURE}
    \<and> daemon_ok {} s' \<and> files' \<subseteq>\<^sub>m files
    \<and> (c = CMD_ERROR_UNKNOWN_COMMAND \<or> c = CMD_ERROR_MALFORMED_COMMAND \<longrightarrow> files' = files \<and> s' = s)"
proof (cases "parse_external_command line")
  case (Inl c)
  then have "c = CMD_ERROR_UNKNOWN_COMMAND \<or> c = CMD_ERROR_MALFORMED_COMMAND"
    by (auto simp: parse_external_command_def Let_def split: option.splits)
  with Inl assms(1) show ?thesis by (auto simp: process_external_command1_def)
next
  case (Inr p)
  obtain cmd t args where p: "p = (cmd, t, args)" by (cases p)
  show ?thesis
  proof (cases "cmd = CMD_PROCESS_FILE")
    case False
    with assms(3) command2_survives [OF assms(1), of cmd args e t] obtain c s' where
      "process_external_command2 e cmd t args s = Some (c, s')" "daemon_ok {} s'" by (auto simp: survives_def sane_line_def Inr p)
    with False show ?thesis by (simp add: process_external_command1_def Inr p)
  next
    case True
    show ?thesis
    proof (cases "case cmd_process_external_commands_from_file args of None \<Rightarrow> None | Some (fname, _) \<Rightarrow> files fname")
      case None
      with True assms(1) show ?thesis
        by (auto simp: process_external_command1_def process_external_commands_from_file_def Inr p split: option.splits)
    next
      case (Some content)
      then obtain fname del where f: "cmd_process_external_commands_from_file args = Some (fname, del)" "files fname = Some content"
        by (auto split: option.splits)
      then have "\<forall>line \<in> set (mmap_lines content). sane_line rank (rank fname) False line" using assms(2) by (auto simp: sane_files_def)
      from process_lines_lives [OF assms(2) _ _ this, of "(files, s)" e] assms(1) obtain w where
        w: "process_lines (files, s) (e, mmap_lines content) = Some w" "fst w \<subseteq>\<^sub>m files" "daemon_ok {} (snd w)" by (auto simp: lives_def)
      obtain a b where ab: "unlink_file fname del w = (a, b)" by (cases "unlink_file fname del w")
      have "a \<subseteq>\<^sub>m files" "b = snd w" using unlink_le(1) [OF w(2), of fname del] unlink_le(2) [of fname del w] ab by simp_all
      with w f True ab show ?thesis
        by (simp add: process_external_command1_def process_external_commands_from_file_def Inr p)
    qed
  qed
qed

section \<open>Property\<close>


text \<open>A file with two commands, which is asked for and deleted.\<close>

definition plain_env :: command_env where
  "plain_env = \<lparr>ce_errno_EINVAL = False, ce_usec = 0, ce_saved = True, ce_read_state = (\<lambda>s. Some (OK, s))\<rparr>"

definition command_file :: string where
  "command_file = ''[8] DISABLE_NOTIFICATIONS;'' @ [newline] @ ''[9] SCHEDULE_HOST_CHECK;web;9''"


end
