(* ===== verification/EventLoop.thy ===== *)
theory EventLoop
  imports ExternalCommands
begin

text \<open>
  The main loop of the daemon, from \<open>base/events.c\<close>: which event runs next and whether it may
  (\<open>should_run_event\<close>), what runs for it (\<open>handle_timed_event\<close>), recurring events, the compensation for
  changes of the system time, the smoothing of the schedule of checks, and one round of
  \<open>event_execution_loop\<close>.

  \<^item> What a round meets outside of the daemon is the record \<open>round\<close>: the times it reads, the input that
    arrives while it waits, and what workers answer.
  \<^item> A handler runs at one instant; the results of workers that a handler reaps are part of the round.
  \<^item> Events that are due at the same instant run in any order: the heap decides, here \<open>rd_pick\<close>.
  \<^item> An event whose data is not what its type says is used as something else in C: \<open>None\<close>.
\<close>

section \<open>Kinds of events\<close>

abbreviation (input) EVENT_LOG_ROTATION :: nat where "EVENT_LOG_ROTATION \<equiv> 2"
abbreviation (input) EVENT_CHECK_REAPER :: nat where "EVENT_CHECK_REAPER \<equiv> 5"
abbreviation (input) EVENT_ORPHAN_CHECK :: nat where "EVENT_ORPHAN_CHECK \<equiv> 6"
abbreviation (input) EVENT_RETENTION_SAVE :: nat where "EVENT_RETENTION_SAVE \<equiv> 7"
abbreviation (input) EVENT_STATUS_SAVE :: nat where "EVENT_STATUS_SAVE \<equiv> 8"
abbreviation (input) EVENT_SFRESHNESS_CHECK :: nat where "EVENT_SFRESHNESS_CHECK \<equiv> 10"
abbreviation (input) EVENT_HFRESHNESS_CHECK :: nat where "EVENT_HFRESHNESS_CHECK \<equiv> 13"
abbreviation (input) EVENT_RESCHEDULE_CHECKS :: nat where "EVENT_RESCHEDULE_CHECKS \<equiv> 14"
abbreviation (input) EVENT_CHECK_PROGRAM_UPDATE :: nat where "EVENT_CHECK_PROGRAM_UPDATE \<equiv> 16"
abbreviation (input) EVENT_USER_FUNCTION :: nat where "EVENT_USER_FUNCTION \<equiv> 99"

abbreviation (input) NUDGE_MIN :: int where "NUDGE_MIN \<equiv> 5"
abbreviation (input) NUDGE_MAX :: int where "NUDGE_MAX \<equiv> 17"
abbreviation (input) BASE_UPDATE_CHECK_INTERVAL :: nat where "BASE_UPDATE_CHECK_INTERVAL \<equiv> 79200"

abbreviation (input) LOG_ROTATION_HOURLY :: nat where "LOG_ROTATION_HOURLY \<equiv> 1"
abbreviation (input) LOG_ROTATION_DAILY :: nat where "LOG_ROTATION_DAILY \<equiv> 2"
abbreviation (input) LOG_ROTATION_WEEKLY :: nat where "LOG_ROTATION_WEEKLY \<equiv> 3"

section \<open>Differences of times\<close>

text \<open>The milliseconds are an \<open>int\<close>: they wrap around after 24 days.\<close>

definition tv_delta_msec :: "int \<times> int \<Rightarrow> int \<times> int \<Rightarrow> c_int" where
  "tv_delta_msec start stop =
    (let msecs = word_of_int ((fst stop - fst start) * 1000) :: u32;
         less = snd stop < snd start;
         msecs = (if less then msecs - 1000 else msecs);
         usecs = (if less then 1000000 else 0) + (snd stop - snd start)
     in sint (msecs + word_of_int (usecs div 1000)))"

definition tv_delta_f :: "int \<times> int \<Rightarrow> int \<times> int \<Rightarrow> rat" where
  "tv_delta_f start stop =
    (let ret = of_int (fst stop - fst start);
         less = snd stop < snd start;
         usecs = (if less then snd stop + 1000000 else snd stop) - snd start
     in (if less then ret - 1 else ret) + of_int usecs / 1000000)"

section \<open>The queue\<close>

definition due_before :: "timed_event \<Rightarrow> timed_event \<Rightarrow> bool" where
  "due_before e e' \<longleftrightarrow> fst (ev_when e) < fst (ev_when e') \<or> fst (ev_when e) = fst (ev_when e') \<and> snd (ev_when e) < snd (ev_when e')"

definition earliest :: "(nat \<times> timed_event) list \<Rightarrow> (nat \<times> timed_event) list" where
  "earliest q = filter (\<lambda>(_, e). list_all (\<lambda>(_, e'). \<not> due_before e' e) q) q"

definition squeue_first :: "nat \<Rightarrow> (nat \<times> timed_event) list \<Rightarrow> (nat \<times> timed_event) option" where
  "squeue_first pick q = (case earliest q of [] \<Rightarrow> None | first \<Rightarrow> Some (first ! (pick mod length first)))"

text \<open>All events in the order in which they leave a copy of the queue.\<close>

fun drain :: "(nat \<Rightarrow> nat) \<Rightarrow> nat \<Rightarrow> (nat \<times> timed_event) list \<Rightarrow> (nat \<times> timed_event) list" where
  "drain pick 0 q = []"
| "drain pick (Suc n) q =
    (case squeue_first (pick n) q of None \<Rightarrow> []
     | Some (h, e) \<Rightarrow> (h, e) # drain pick n (filter (\<lambda>(h', _). h' \<noteq> h) q))"

definition upd_event :: "nat \<Rightarrow> (timed_event \<Rightarrow> timed_event) \<Rightarrow> daemon \<Rightarrow> daemon" where
  "upd_event h f s = s\<lparr>event_queue := map (\<lambda>(h', e). (h', if h' = h then f e else e)) (event_queue s)\<rparr>"

section \<open>Recurring events\<close>

text \<open>The only function of this kind that the daemon registers: the next full hour, day, week or month.\<close>

definition get_next_log_rotation_time :: "daemon \<Rightarrow> int" where
  "get_next_log_rotation_time s =
    (let t = (localtime (clib s) (clock s))\<lparr>tm_min := 0, tm_sec := 0\<rparr>;
         is_dst_now = (tm_isdst t > 0);
         t = (if log_rotation_method (globs s) = LOG_ROTATION_HOURLY then t\<lparr>tm_hour := tm_hour t + 1\<rparr>
           else if log_rotation_method (globs s) = LOG_ROTATION_DAILY then t\<lparr>tm_mday := tm_mday t + 1, tm_hour := 0\<rparr>
           else if log_rotation_method (globs s) = LOG_ROTATION_WEEKLY then t\<lparr>tm_mday := tm_mday t + (7 - tm_wday t), tm_hour := 0\<rparr>
           else t\<lparr>tm_mon := tm_mon t + 1, tm_mday := 1, tm_hour := 0\<rparr>);
         (run_time, t) = mktime (clib s) t
     in if is_dst_now \<and> tm_isdst t = 0 then run_time + 3600 else run_time)"

definition reschedule_event :: "nat \<Rightarrow> timed_event \<Rightarrow> daemon \<Rightarrow> daemon" where
  "reschedule_event h e s =
    (let e = (if ev_recurring e then
           (if ev_timing_func e then e\<lparr>ev_run_time := get_next_log_rotation_time s\<rparr>
            else e\<lparr>ev_run_time := max (ev_run_time e + int (ev_interval e)) (clock s)\<rparr>)
         else e)
     in add_event h e s)"

section \<open>Changes of the system time\<close>

text \<open>Times are passed as \<open>unsigned long\<close>; the difference as well.\<close>

definition adjust_timestamp_for_time_change :: "u64 \<Rightarrow> u64 \<Rightarrow> u64 \<Rightarrow> int \<Rightarrow> int" where
  "adjust_timestamp_for_time_change last_time current_time time_difference ts =
    (if ts = 0 then ts
     else if sint last_time > sint current_time then
       (if time_difference > word_of_int ts then 0 else sint (word_of_int ts - time_difference))
     else sint (word_of_int ts + time_difference))"

definition adjust_event :: "int \<Rightarrow> int \<Rightarrow> int \<Rightarrow> int \<Rightarrow> timed_event \<Rightarrow> timed_event" where
  "adjust_event now usec rotation delta e = enqueued now usec
    (if ev_compensate e then (if ev_timing_func e then e\<lparr>ev_run_time := rotation\<rparr> else e\<lparr>ev_run_time := ev_run_time e + delta\<rparr>)
     else e)"

definition adjust_squeue_for_time_change :: "c_int \<Rightarrow> daemon \<Rightarrow> daemon" where
  "adjust_squeue_for_time_change delta s =
    s\<lparr>event_queue := map (\<lambda>(h, e). (h, adjust_event (clock s) (clock_usec s) (get_next_log_rotation_time s) delta e)) (event_queue s)\<rparr>"

definition adjust_service_times :: "(int \<Rightarrow> int) \<Rightarrow> nat \<Rightarrow> daemon \<Rightarrow> daemon" where
  "adjust_service_times adjust i s =
    (let s = upd_svc i (\<lambda>v. v\<lparr>s_last_notification := adjust (s_last_notification v), s_last_check := adjust (s_last_check v),
           s_next_check := adjust (s_next_check v), s_last_state_change := adjust (s_last_state_change v),
           s_last_hard_state_change := adjust (s_last_hard_state_change v)\<rparr>) s;
         (next, s) = get_next_service_notification_time s i (s_last_notification (svcs s i))
     in upd_svc i (\<lambda>v. v\<lparr>s_next_notification := next\<rparr>) s)"

definition adjust_host_times :: "(int \<Rightarrow> int) \<Rightarrow> nat \<Rightarrow> daemon \<Rightarrow> daemon" where
  "adjust_host_times adjust h s =
    (let s = upd_host h (\<lambda>v. v\<lparr>h_last_notification := adjust (h_last_notification v), h_last_check := adjust (h_last_check v),
           h_next_check := adjust (h_next_check v), h_last_state_change := adjust (h_last_state_change v),
           h_last_hard_state_change := adjust (h_last_hard_state_change v),
           h_last_state_history_update := adjust (h_last_state_history_update v)\<rparr>) s;
         (next, s) = get_next_host_notification_time s h (h_last_notification (hosts s h))
     in upd_host h (\<lambda>v. v\<lparr>h_next_notification := next\<rparr>) s)"

definition compensate_for_system_time_change :: "u64 \<Rightarrow> u64 \<Rightarrow> daemon \<Rightarrow> daemon" where
  "compensate_for_system_time_change last_time current_time s =
    (let delta = sint (ucast (current_time - last_time) :: u32);
         time_difference = (if last_time > current_time then last_time - current_time else current_time - last_time);
         adjust = adjust_timestamp_for_time_change last_time current_time time_difference;
         s = adjust_squeue_for_time_change delta s;
         s = fold (adjust_service_times adjust) [0..<num_services s] s;
         s = fold (adjust_host_times adjust) [0..<num_hosts s] s
     in s\<lparr>globs := (globs s)\<lparr>program_start := adjust (program_start (globs s)), event_start := adjust (event_start (globs s))\<rparr>\<rparr>)"

section \<open>Smoothing the schedule\<close>

text \<open>Whether an event of the window is a check that may be moved.\<close>

definition unforced_check :: "daemon \<Rightarrow> timed_event \<Rightarrow> bool ub" where
  "unforced_check s e =
    (if ev_type e = EVENT_HOST_CHECK then
       (case ev_data e of Host_ref h \<Rightarrow> Some (\<not> forced (h_check_options (hosts s h))) | _ \<Rightarrow> None)
     else if ev_type e = EVENT_SERVICE_CHECK then
       (case ev_data e of Service_ref i \<Rightarrow> Some (\<not> forced (s_check_options (svcs s i))) | _ \<Rightarrow> None)
     else Some False)"

text \<open>The checks of the window, and whether two are too close.\<close>

fun checks_to_reschedule :: "daemon \<Rightarrow> int \<Rightarrow> int \<Rightarrow> int \<times> int \<Rightarrow> (nat \<times> timed_event) list
    \<Rightarrow> (bool \<times> (nat \<times> timed_event) list) ub" where
  "checks_to_reschedule s first_window_time last_window_time last_check_tv [] = Some (False, [])"
| "checks_to_reschedule s first_window_time last_window_time last_check_tv ((h, e) # rest) =
    (if ev_data e = No_data \<or> ev_run_time e < first_window_time then checks_to_reschedule s first_window_time last_window_time last_check_tv rest
     else if ev_run_time e > last_window_time then Some (False, [])
     else do {
       movable \<leftarrow> unforced_check s e;
       (if \<not> movable then checks_to_reschedule s first_window_time last_window_time last_check_tv rest
        else do {
          (adjust, es) \<leftarrow> checks_to_reschedule s first_window_time last_window_time (ev_when e) rest;
          Some (adjust \<or> fst last_check_tv > 0
              \<and> of_int (tv_delta_msec last_check_tv (ev_when e)) < service_inter_check_delay (globs s) * (1 / 4) * 1000,
            (h, e) # es)
        })
     })"

definition move_check :: "int \<Rightarrow> int \<Rightarrow> nat \<Rightarrow> timed_event \<Rightarrow> daemon \<Rightarrow> daemon" where
  "move_check sec usec h e s =
    (let move = upd_event h (\<lambda>e. e\<lparr>ev_run_time := sec, ev_when := (sec mod 2 ^ 43, usec)\<rparr>) in
     case ev_data e of
       Host_ref x \<Rightarrow> (if check_time_against_period (clib s) sec (h_check_period (hosts s x)) = ERROR then s
         else move (upd_host x (\<lambda>v. v\<lparr>h_next_check := sec\<rparr>) s))
     | Service_ref x \<Rightarrow> (if check_time_against_period (clib s) sec (s_check_period (svcs s x)) = ERROR then s
         else move (upd_svc x (\<lambda>v. v\<lparr>s_next_check := sec\<rparr>) s))
     | _ \<Rightarrow> move s)"

fun smooth :: "int \<Rightarrow> rat \<Rightarrow> rat \<Rightarrow> (nat \<times> timed_event) list \<Rightarrow> daemon \<Rightarrow> daemon" where
  "smooth first_window_time delay offset [] s = s"
| "smooth first_window_time delay offset ((h, e) # rest) s =
    smooth first_window_time delay (offset + delay) rest
      (move_check (first_window_time + \<lfloor>offset\<rfloor>) (trunc ((offset - of_int \<lfloor>offset\<rfloor>) * 1000000)) h e s)"

definition adjust_check_scheduling :: "(nat \<Rightarrow> nat) \<Rightarrow> daemon \<Rightarrow> daemon ub" where
  "adjust_check_scheduling pick s =
    (let first_window_time = clock s; last_window_time = clock s + auto_rescheduling_window (globs s);
         events = drain pick (length (event_queue s)) (event_queue s) in
     case events of [] \<Rightarrow> Some s
     | (_, e) # _ \<Rightarrow>
        if ev_run_time e > last_window_time then Some s
        else do {
          (adjust, es) \<leftarrow> checks_to_reschedule s first_window_time last_window_time (0, 0) events;
          (if length es < 2 \<or> \<not> adjust then Some s
           else let delay = of_int (auto_rescheduling_window (globs s)) / of_nat (length es)
                in Some (smooth first_window_time delay (delay * (1 / 2)) es s))
        })"

section \<open>Input\<close>

datatype job_result = Service_result nat check_result | Host_result nat check_result

datatype input = Command_line string | Job_result job_result | Signal nat

text \<open>Signals 1 (\<open>SIGHUP\<close>) and below 16; the numbers are cut to the length of the table of their names.\<close>

definition sighandler :: "nat \<Rightarrow> daemon \<Rightarrow> daemon ub" where
  "sighandler sig s =
    (if sigshutdown s \<and> sig = 11 then None
     else if sig mod 34 = 1 then Some (s\<lparr>sigrestart := True\<rparr>)
     else if sig mod 34 < 16 then Some (s\<lparr>sigshutdown := True\<rparr>)
     else Some s)"

fun process_result :: "job_result \<Rightarrow> daemon \<Rightarrow> daemon ub" where
  "process_result (Service_result i cr) s = map_option snd (handle_async_service_check_result i cr s)"
| "process_result (Host_result h cr) s = map_option snd (handle_async_host_check_result h cr s)"

fun process_results :: "job_result list \<Rightarrow> daemon \<Rightarrow> daemon ub" where
  "process_results [] s = Some s"
| "process_results (r # rs) s = (process_result r s \<bind> process_results rs)"

fun process_input :: "command_env \<Rightarrow> input \<Rightarrow> world \<Rightarrow> world ub" where
  "process_input e (Command_line line) w = map_option snd (process_external_command1 e line w)"
| "process_input e (Job_result r) w = map_option (Pair (fst w)) (process_result r (snd w))"
| "process_input e (Signal sig) w = map_option (Pair (fst w)) (sighandler sig (snd w))"

fun process_inputs :: "command_env \<Rightarrow> input list \<Rightarrow> world \<Rightarrow> world ub" where
  "process_inputs e [] w = Some w"
| "process_inputs e (x # xs) w = (process_input e x w \<bind> process_inputs e xs)"

datatype poll_result = Poll_failed | Polled "int \<times> int" "input list"

text \<open>A round of the loop: the time at its start, with its microseconds, which of the first events is peeked, the time before the poll, what the
  poll gives when it may wait so many milliseconds (with the time after it), whether a check can be started, how, and the results of workers
  that are reaped.\<close>

record round =
  rd_time :: int
  rd_usec :: int
  rd_pick :: nat
  rd_now :: "int \<times> int"
  rd_poll :: "int \<Rightarrow> poll_result"
  rd_commands :: command_env
  rd_can_spawn :: bool
  rd_job :: "job_result list"
  rd_launch :: launch
  rd_reaped :: "job_result list"
  rd_order :: "nat \<Rightarrow> nat"
  rd_next_update :: int

section \<open>Running an event\<close>

text \<open>An event that may not run now is put back; the answer says whether it runs.\<close>

definition put_back_service_check :: "nat \<Rightarrow> timed_event \<Rightarrow> nat \<Rightarrow> int \<Rightarrow> daemon \<Rightarrow> daemon" where
  "put_back_service_check h e i delay s =
    (let s = remove_event (Some h) s;
         s = upd_svc i (\<lambda>v. v\<lparr>s_next_check := s_next_check v + delay\<rparr>) s
     in reschedule_event h (e\<lparr>ev_run_time := s_next_check (svcs s i)\<rparr>) s)"

definition put_back_host_check :: "nat \<Rightarrow> timed_event \<Rightarrow> nat \<Rightarrow> int \<Rightarrow> daemon \<Rightarrow> daemon" where
  "put_back_host_check h e x delay s =
    (let s = remove_event (Some h) s;
         s = upd_host x (\<lambda>v. v\<lparr>h_next_check := h_next_check v + delay\<rparr>) s
     in reschedule_event h (e\<lparr>ev_run_time := h_next_check (hosts s x)\<rparr>) s)"

definition should_run_event :: "round \<Rightarrow> nat \<Rightarrow> timed_event \<Rightarrow> daemon \<Rightarrow> (bool \<times> daemon) ub" where
  "should_run_event v h e s =
    (if ev_type e \<noteq> EVENT_HOST_CHECK \<and> ev_type e \<noteq> EVENT_SERVICE_CHECK then Some (True, s)
     else if \<not> rd_can_spawn v then map_option (Pair False) (process_results (rd_job v) (act [Reap_job] s))
     else if ev_type e = EVENT_SERVICE_CHECK then
       (case ev_data e of
          Service_ref i \<Rightarrow>
            let maxed_out = max_parallel_service_checks (globs s) \<noteq> 0
              \<and> currently_running_service_checks s \<ge> max_parallel_service_checks (globs s) in
            if forced (s_check_options (svcs s i)) \<or> \<not> maxed_out \<and> execute_service_checks (globs s) then Some (True, s)
            else
             (case (if maxed_out then (case next_rand s of (r, s) \<Rightarrow> (ranged_urand r NUDGE_MIN NUDGE_MAX, s)) else (0, s)) of
                (nudge_seconds, s) \<Rightarrow> Some (False, put_back_service_check h e i
                    (if nudge_seconds \<noteq> 0 then nudge_seconds else service_check_window s i) s))
        | _ \<Rightarrow> None)
     else
       (case ev_data e of
          Host_ref x \<Rightarrow>
            if forced (h_check_options (hosts s x)) \<or> execute_host_checks (globs s) then Some (True, s)
            else Some (False, put_back_host_check h e x (host_check_window s x) s)
        | _ \<Rightarrow> None))"

definition handle_timed_event :: "round \<Rightarrow> int \<times> int \<Rightarrow> nat \<Rightarrow> timed_event \<Rightarrow> daemon \<Rightarrow> daemon ub" where
  "handle_timed_event v now h e s =
    (let ty = ev_type e; latency = max 0 (tv_delta_f (ev_when e) now) in
     if ty = EVENT_SERVICE_CHECK then
       (case ev_data e of
          Service_ref i \<Rightarrow> map_option snd (run_scheduled_service_check (rd_launch v) i (ev_options e) latency s)
        | _ \<Rightarrow> None)
     else if ty = EVENT_HOST_CHECK then
       (case ev_data e of
          Host_ref x \<Rightarrow> map_option snd (run_scheduled_host_check (rd_launch v) x (ev_options e) latency s)
        | _ \<Rightarrow> None)
     else if ty = EVENT_LOG_ROTATION then Some (act [Rotate_log (ev_run_time e)] s)
     else if ty = EVENT_PROGRAM_SHUTDOWN then Some (s\<lparr>sigshutdown := True\<rparr>)
     else if ty = EVENT_PROGRAM_RESTART then Some (s\<lparr>sigrestart := True\<rparr>)
     else if ty = EVENT_CHECK_REAPER then process_results (rd_reaped v) (act [Reap_results] s)
     else if ty = EVENT_ORPHAN_CHECK then
       (if check_orphaned_hosts (globs s) then check_for_orphaned_hosts s else Some s) \<bind>
         (\<lambda>s. if check_orphaned_services (globs s) then check_for_orphaned_services s else Some s)
     else if ty = EVENT_RETENTION_SAVE then Some (act [Save_retention True] s)
     else if ty = EVENT_STATUS_SAVE then Some (act [Save_status] s)
     else if ty = EVENT_SCHEDULED_DOWNTIME_START then
       (case ev_data e of
          No_data \<Rightarrow> Some s
        | Downtime_id i \<Rightarrow> map_option (\<lambda>(_, s). upd_event h (\<lambda>e. e\<lparr>ev_data := No_data\<rparr>) s) (handle_scheduled_downtime_start_by_id s i)
        | _ \<Rightarrow> None)
     else if ty = EVENT_SCHEDULED_DOWNTIME_END then
       (case ev_data e of
          No_data \<Rightarrow> Some s
        | Downtime_id i \<Rightarrow> map_option (\<lambda>(_, s). upd_event h (\<lambda>e. e\<lparr>ev_data := No_data\<rparr>) s) (handle_scheduled_downtime_end_by_id s i)
        | _ \<Rightarrow> None)
     else if ty = EVENT_SFRESHNESS_CHECK then check_service_result_freshness s
     else if ty = EVENT_HFRESHNESS_CHECK then check_host_result_freshness s
     else if ty = EVENT_EXPIRE_DOWNTIME then map_option snd (check_for_expired_downtime s)
     else if ty = EVENT_RESCHEDULE_CHECKS then adjust_check_scheduling (rd_order v) s
     else if ty = EVENT_EXPIRE_COMMENT then
       (case ev_data e of
          Comment_id i \<Rightarrow> map_option (\<lambda>(_, c). s\<lparr>comments := c\<rparr>) (check_for_expired_comment (clock s) (comments s) i)
        | _ \<Rightarrow> None)
     else if ty = EVENT_CHECK_PROGRAM_UPDATE then
       Some (let s = act [Check_updates] s; k = next_event_handle s in
         add_event k \<lparr>ev_type = EVENT_CHECK_PROGRAM_UPDATE, ev_priority = 1, ev_run_time = rd_next_update v,
           ev_recurring = False, ev_interval = BASE_UPDATE_CHECK_INTERVAL, ev_timing_func = False, ev_compensate = True,
           ev_data = No_data, ev_options = 0, ev_when = (0, 0)\<rparr> (s\<lparr>next_event_handle := k + 1\<rparr>))
     else if ty = EVENT_USER_FUNCTION then (if ev_data e = No_data then Some s else None)
     else Some s)"

text \<open>After its handler the event leaves the queue.  It must still be there: the code goes on to use it.\<close>

definition finish_event :: "nat \<Rightarrow> daemon \<Rightarrow> daemon ub" where
  "finish_event h s =
    (case map_of (event_queue s) h of None \<Rightarrow> None
     | Some e \<Rightarrow> let s = remove_event (Some h) s
        in Some (if ev_recurring e then reschedule_event h e s else s))"

section \<open>The loop\<close>

definition poll_time_ms :: "int \<times> int \<Rightarrow> timed_event \<Rightarrow> c_int" where
  "poll_time_ms now e = (let t = tv_delta_msec now (ev_when e) in if t < 0 then 0 else if t \<ge> 1500 then 1500 else t)"

text \<open>What a round does before it peeks: the clock is read, and the compensation of a jump of it.\<close>

definition at_round_start :: "round \<Rightarrow> int \<Rightarrow> daemon \<Rightarrow> daemon" where
  "at_round_start v last_time s =
    (let current_time = rd_time v; s = s\<lparr>clock := current_time, clock_usec := rd_usec v\<rparr> in
     if current_time < last_time \<or> current_time - last_time \<ge> time_change_threshold (globs s)
     then compensate_for_system_time_change (word_of_int last_time) (word_of_int current_time) s
     else s)"

text \<open>One round; the answer says whether the loop goes on, and at which time the round started.  An event that the input
  took out of the queue, or put back, is not run: then the queue holds nothing or something else under its
  handle.\<close>

definition event_round :: "round \<Rightarrow> int \<Rightarrow> world \<Rightarrow> (bool \<times> int \<times> world) ub" where
  "event_round v last_time w =
    (if sigshutdown (snd w) \<or> sigrestart (snd w) then Some (False, last_time, w)
     else
       let current_time = rd_time v;
           s = at_round_start v last_time (snd w) in
       case squeue_first (rd_pick v) (event_queue s) of
         None \<Rightarrow> Some (False, last_time, fst w, s)
       | Some (h, e) \<Rightarrow>
          (case rd_poll v (poll_time_ms (rd_now v) e) of
             Poll_failed \<Rightarrow> Some (False, current_time, fst w, s)
           | Polled now inputs \<Rightarrow> do {
               w \<leftarrow> process_inputs (rd_commands v) inputs (fst w, s\<lparr>clock := fst now, clock_usec := snd now\<rparr>);
               (if map_of (event_queue (snd w)) h \<noteq> Some e then Some (True, current_time, w)
                else if tv_delta_msec now (ev_when e) > 5 then Some (True, current_time, w)
                else do {
                  (runs, s) \<leftarrow> should_run_event v h e (snd w);
                  (if \<not> runs then Some (True, current_time, fst w, s)
                   else do {
                     s \<leftarrow> handle_timed_event v now h e s;
                     s \<leftarrow> finish_event h s;
                     Some (True, current_time, fst w, s)
                   })
                })
             }))"

text \<open>The loop over rounds, for as many as are given.\<close>

fun event_execution_loop :: "round list \<Rightarrow> int \<Rightarrow> world \<Rightarrow> (bool \<times> int \<times> world) ub" where
  "event_execution_loop [] last_time w = Some (True, last_time, w)"
| "event_execution_loop (v # vs) last_time w = do {
     (goes_on, last_time, w) \<leftarrow> event_round v last_time w;
     (if goes_on then event_execution_loop vs last_time w else Some (False, last_time, w))
   }"

end
