(* ===== verification/LoopSafety.thy ===== *)
theory LoopSafety
  imports EventLoop CommandSafety
begin

text \<open>
  The main loop keeps the invariant of the daemon: each event is run by a handler that returns, that finds the data
  it expects, and that leaves the event in the queue until the loop takes it out.
\<close>

section \<open>Changes of the queue\<close>

lemma event_fits_other: "event_fits ty d \<Longrightarrow> check_event_type d = None \<Longrightarrow> ty \<noteq> EVENT_SERVICE_CHECK \<and> ty \<noteq> EVENT_HOST_CHECK"
  by (auto simp: event_fits_def split: if_splits)

lemma event_fitsD:
  "event_fits EVENT_SERVICE_CHECK d \<Longrightarrow> \<exists>i. d = Service_ref i" "event_fits EVENT_HOST_CHECK d \<Longrightarrow> \<exists>x. d = Host_ref x"
  "event_fits EVENT_SCHEDULED_DOWNTIME_START d \<Longrightarrow> d = No_data \<or> (\<exists>i. d = Downtime_id i)"
  "event_fits EVENT_SCHEDULED_DOWNTIME_END d \<Longrightarrow> d = No_data \<or> (\<exists>i. d = Downtime_id i)"
  "event_fits EVENT_EXPIRE_COMMENT d \<Longrightarrow> \<exists>i. d = Comment_id i" "event_fits EVENT_USER_FUNCTION d \<Longrightarrow> d = No_data"
  by (cases d; simp add: event_fits_def)+

text \<open>A step that may change the queue and the pointers into it.\<close>

lemma requeued:
  assumes ok: "daemon_ok X s" and same: "quiet s s'" "links s' = links s" "pointers s' = pointers s" "rings s' = rings s"
    and handles: "next_event_handle s \<le> next_event_handle s'"
      "\<And>d h. pending d s' = Some h \<Longrightarrow> pending d s = Some h \<or> next_event_handle s \<le> h"
    and sched: "sched_ok Y s'"
  shows "daemon_ok Y s'"
proof -
  have "dt_inv {} s'" by (rule dt_inv_quiet [OF daemon_okD(1) [OF ok] same(1)])
  moreover have "acyclic_links s'" using daemon_okD(4) [OF ok] acyclic_links_frame [OF same(2)] by simp
  then have "flap_ready s'" using daemon_okD(2) [OF ok] same(1,4) by (simp add: flap_ready_def quiet_def)
  moreover have "linked s'" by (rule linked_frame [OF same(3) daemon_okD(5) [OF ok]])
  moreover have "dt_handles s' = dt_handles s" using same(1) by (simp add: dt_handles_def quiet_def)
  then have "dt_events_ok s'" using handles by (intro dt_events_ok_mono [OF daemon_okD(6) [OF ok]]) simp_all
  ultimately show ?thesis using sched by (simp add: daemon_ok_def)
qed

lemma quiet_queue:
  assumes "hosts s' = hosts s" "svcs s' = svcs s" "comments s' = comments s" "dt_heap s' = dt_heap s"
    "scheduled_downtime_list s' = scheduled_downtime_list s" "dt_fanout s' = dt_fanout s" "dt_keeps s s'"
  shows "quiet s s'" "links s' = links s" "pointers s' = pointers s" "rings s' = rings s" "pending d s' = pending d s"
proof -
  have "target_depth t s' = target_depth t s" for t using assms(1,2) by (cases t) simp_all
  then show "quiet s s'" using assms by (simp add: quiet_def)
  show "links s' = links s" "rings s' = rings s" using assms(1,2) by (simp_all add: links_def rings_def)
  show "pointers s' = pointers s" using assms(1,2,7) by (simp add: pointers_def dt_keeps_def)
  show "pending d s' = pending d s" by (rule pending_cong [OF assms(1,2)])
qed

lemma sched_ok_map:
  assumes ok: "sched_ok X s"
    and g: "\<And>h e. (h, e) \<in> set (event_queue s) \<Longrightarrow> ev_type (g h e) = ev_type e \<and> event_ok (g h e)
      \<and> (ev_data (g h e) = ev_data e \<or> check_event_type (ev_data e) = None \<and> check_event_type (ev_data (g h e)) = None)"
  shows "sched_ok X (s\<lparr>event_queue := map (\<lambda>(h, e). (h, g h e)) (event_queue s)\<rparr>)"
proof -
  let ?s = "s\<lparr>event_queue := map (\<lambda>(h, e). (h, g h e)) (event_queue s)\<rparr>"
  have pend: "pending d ?s = pending d s" for d by (rule pending_cong) simp_all
  have mem: "(h, e) \<in> set (event_queue ?s) \<longleftrightarrow> (\<exists>e0. (h, e0) \<in> set (event_queue s) \<and> e = g h e0)" for h e by force
  have fsts: "map fst (event_queue ?s) = map fst (event_queue s)" by (auto simp: case_prod_beta)
  show ?thesis unfolding sched_ok_def pend
  proof (intro conjI)
    show "distinct (map fst (event_queue ?s))" unfolding fsts by (rule sched_okD(1) [OF ok])
    show "\<forall>(h, e) \<in> set (event_queue ?s). h < next_event_handle ?s" using sched_okD(2) [OF ok] by auto
    show "\<forall>d h. pending d s = Some h \<longrightarrow> h \<notin> X
      \<and> (\<exists>e. (h, e) \<in> set (event_queue ?s) \<and> ev_data e = d \<and> check_event_type d = Some (ev_type e))"
    proof (intro allI impI conjI)
      fix d h assume p: "pending d s = Some h"
      then show "h \<notin> X" by (rule sched_okD(4) [OF ok])
      obtain e where e: "(h, e) \<in> set (event_queue s)" "ev_data e = d" "check_event_type d = Some (ev_type e)"
        using sched_okD(3) [OF ok p] by blast
      with g [OF e(1)] show "\<exists>e. (h, e) \<in> set (event_queue ?s) \<and> ev_data e = d \<and> check_event_type d = Some (ev_type e)"
        unfolding mem by (intro exI [of _ "g h e"] conjI exI [of _ e]) auto
    qed
    show "\<forall>(h, e) \<in> set (event_queue ?s). h \<notin> X \<and> check_event_type (ev_data e) \<noteq> None \<longrightarrow> pending (ev_data e) s = Some h"
    proof (clarify, unfold mem, elim exE conjE)
      fix h e ty e0 assume a: "h \<notin> X" "check_event_type (ev_data e) = Some ty" "(h, e0) \<in> set (event_queue s)" "e = g h e0"
      with g [OF a(3)] have "ev_data e = ev_data e0" by auto
      with a sched_okD(5) [OF ok a(3,1)] show "pending (ev_data e) s = Some h" by simp
    qed
    show "X \<subseteq> fst ` set (event_queue ?s)" using sched_okD(6) [OF ok] by (force simp: image_image)
    show "\<forall>(h, e) \<in> set (event_queue ?s). event_ok e" using g by auto
  qed
qed

lemma kept_map_queue:
  assumes ok: "daemon_ok X s"
    and g: "\<And>h e. (h, e) \<in> set (event_queue s) \<Longrightarrow> ev_type (g h e) = ev_type e \<and> event_ok (g h e)
      \<and> (ev_data (g h e) = ev_data e \<or> check_event_type (ev_data e) = None \<and> check_event_type (ev_data (g h e)) = None)"
  shows "kept X s (s\<lparr>event_queue := map (\<lambda>(h, e). (h, g h e)) (event_queue s)\<rparr>)"
proof -
  let ?s = "s\<lparr>event_queue := map (\<lambda>(h, e). (h, g h e)) (event_queue s)\<rparr>"
  have "quiet s ?s" "links ?s = links s" "pointers ?s = pointers s" "rings ?s = rings s" "pending d ?s = pending d s" for d
    by (rule quiet_queue; simp add: dt_keeps_def)+
  with requeued [OF ok this(1-4) _ _ sched_ok_map [OF daemon_okD(3) [OF ok] g]] show ?thesis by (simp add: kept_def)
qed

lemma kept_upd_event:
  assumes "daemon_ok X s"
    and "\<And>e. (h, e) \<in> set (event_queue s) \<Longrightarrow> ev_type (f e) = ev_type e \<and> event_ok (f e)
      \<and> (ev_data (f e) = ev_data e \<or> check_event_type (ev_data e) = None \<and> check_event_type (ev_data (f e)) = None)"
  shows "kept X s (upd_event h f s)"
proof -
  have "kept X s (s\<lparr>event_queue := map (\<lambda>(h', e). (h', (\<lambda>h' e. if h' = h then f e else e) h' e)) (event_queue s)\<rparr>)"
    by (rule kept_map_queue [OF assms(1)]) (use assms(2) sched_okD(7) [OF daemon_okD(3) [OF assms(1)]] in auto)
  then show ?thesis by (simp add: upd_event_def)
qed

text \<open>The event that is run.\<close>

lemma running_other:
  assumes ok: "daemon_ok {} s" and e: "(h, e) \<in> set (event_queue s)" "check_event_type (ev_data e) = None"
  shows "daemon_ok {h} s"
proof -
  note sched = daemon_okD(3) [OF ok]
  have "pending d s \<noteq> Some h" for d
  proof
    assume "pending d s = Some h"
    then obtain e' where "(h, e') \<in> set (event_queue s)" "ev_data e' = d" "check_event_type d \<noteq> None"
      using sched_okD(3) [OF sched] by fastforce
    with e sched_okD(1) [OF sched] show False by (metis eq_key_imp_eq_value)
  qed
  then have "sched_ok {h} s" using sched e(1) unfolding sched_ok_def by (auto intro: rev_image_eqI)
  then show ?thesis using ok by (simp add: daemon_ok_def)
qed

lemma running_check:
  assumes ok: "daemon_ok {} s" and e: "(h, e) \<in> set (event_queue s)" "ev_data e = d" "check_event_type d \<noteq> None"
    and s': "s' = (case d of Service_ref i \<Rightarrow> upd_svc i (\<lambda>v. v\<lparr>s_next_check_event := None\<rparr>) s
      | Host_ref x \<Rightarrow> upd_host x (\<lambda>v. v\<lparr>h_next_check_event := None\<rparr>) s | _ \<Rightarrow> s)"
  shows "daemon_ok {h} s'"
proof -
  note sched = daemon_okD(3) [OF ok]
  have p: "pending d s = Some h" using sched_okD(5) [OF sched e(1)] e(2,3) by auto
  have pend: "pending d' s' = (if d' = d then None else pending d' s)" for d'
    using e(3) s' by (cases d) auto
  have queue: "event_queue s' = event_queue s" "next_event_handle s' = next_event_handle s" using s' by (cases d; simp)+
  have other: "k \<noteq> h" if "pending d' s = Some k" "d' \<noteq> d" for d' k
  proof
    assume "k = h"
    with sched_okD(3) [OF sched that(1)] obtain e' where "(h, e') \<in> set (event_queue s)" "ev_data e' = d'" by auto
    with e(1,2) that(2) sched_okD(1) [OF sched] show False by (metis eq_key_imp_eq_value)
  qed
  have "sched_ok {h} s'" unfolding sched_ok_def pend queue
  proof (intro conjI)
    show "\<forall>d' k. (if d' = d then None else pending d' s) = Some k \<longrightarrow> k \<notin> {h}
      \<and> (\<exists>e. (k, e) \<in> set (event_queue s) \<and> ev_data e = d' \<and> check_event_type d' = Some (ev_type e))"
      using sched_okD(3) [OF sched] other by auto
    show "\<forall>(k, e) \<in> set (event_queue s). k \<notin> {h} \<and> check_event_type (ev_data e) \<noteq> None
      \<longrightarrow> (if ev_data e = d then None else pending (ev_data e) s) = Some k"
    proof -
      have "ev_data e' \<noteq> d \<and> pending (ev_data e') s = Some k"
        if "(k, e') \<in> set (event_queue s)" "k \<noteq> h" "check_event_type (ev_data e') \<noteq> None" for k e'
        using sched_okD(5) [OF sched that(1) _ that(3)] p that(2) by auto
      then show ?thesis by auto
    qed
    show "{h} \<subseteq> fst ` set (event_queue s)" using e(1) by force
  qed (use sched_okD(1,2,7) [OF sched] in blast)+
  moreover have "quiet s s'" "links s' = links s" "pointers s' = pointers s" "rings s' = rings s"
  proof -
    have "target_depth t s' = target_depth t s" for t using s' by (cases t; cases d; simp)
    then show "quiet s s'" using s' by (cases d) (simp_all add: quiet_def dt_keeps_def)
  qed (use s' in \<open>cases d; simp add: links_def pointers_def rings_def fun_eq_iff\<close>)+
  moreover have "pending d' s' = Some k \<Longrightarrow> pending d' s = Some k \<or> next_event_handle s \<le> k" for d' k
    unfolding pend by (simp split: if_splits)
  ultimately show ?thesis using requeued [OF ok] queue(2) by simp
qed

section \<open>Putting events back\<close>

lemma kept_put_back_service:
  assumes ok: "daemon_ok {} s" and e: "(h, e) \<in> set (event_queue s)" "ev_type e = EVENT_SERVICE_CHECK" "ev_data e = Service_ref i"
  shows "kept {} s (put_back_service_check h e i delay s)"
proof -
  note sched = daemon_okD(3) [OF ok]
  let ?s = "put_back_service_check h e i delay s"
  let ?f = "\<lambda>v. v\<lparr>s_next_check := s_next_check v + delay\<rparr>"
  have rec: "\<not> ev_recurring e" using sched_okD(7) [OF sched e(1)] e(3) by (simp add: event_ok_def)
  define e' where "e' = e\<lparr>ev_run_time := s_next_check (svcs s i) + delay\<rparr>"
  have s': "?s = add_event h e' (upd_svc i ?f (remove_event (Some h) s))"
    using rec by (simp add: put_back_service_check_def reschedule_event_def Let_def e'_def)
  have p: "pending (Service_ref i) s = Some h" using sched_okD(5) [OF sched e(1)] e(3) by simp
  have pend: "pending d ?s = pending d s" for d unfolding s' by (cases d) simp_all
  have sched': "sched_ok {} ?s"
  proof (rule sched_ok_replace(1) [OF sched, of "Service_ref i" "enqueued (clock s) (clock_usec s) e'" h])
    show "event_queue ?s = (h, enqueued (clock s) (clock_usec s) e') # (case pending (Service_ref i) s of None \<Rightarrow> event_queue s
        | Some h \<Rightarrow> filter (\<lambda>(h', _). h' \<noteq> h) (event_queue s))" by (simp add: s' p del: pending.simps)
    show "pending d ?s = (if d = Service_ref i then Some h else pending d s)" for d using p by (simp add: pend del: pending.simps)
  qed (use e rec p in \<open>simp_all add: e'_def s' del: pending.simps\<close>)
  have same: "quiet s ?s" "links ?s = links s" "pointers ?s = pointers s" "rings ?s = rings s"
  proof -
    have "target_depth t ?s = target_depth t s" for t by (cases t) (simp_all add: s')
    then show "quiet s ?s" by (simp add: s' quiet_def dt_keeps_def)
  qed (simp_all add: s' links_def pointers_def rings_def fun_eq_iff)
  have "next_event_handle ?s = next_event_handle s" by (simp add: s')
  then have "daemon_ok {} ?s" by (intro requeued [OF ok same _ _ sched']) (simp_all only: pend order_refl simp_thms)
  with same(3) show ?thesis by (simp add: kept_def)
qed

lemma kept_put_back_host:
  assumes ok: "daemon_ok {} s" and e: "(h, e) \<in> set (event_queue s)" "ev_type e = EVENT_HOST_CHECK" "ev_data e = Host_ref i"
  shows "kept {} s (put_back_host_check h e i delay s)"
proof -
  note sched = daemon_okD(3) [OF ok]
  let ?s = "put_back_host_check h e i delay s"
  let ?f = "\<lambda>v. v\<lparr>h_next_check := h_next_check v + delay\<rparr>"
  have rec: "\<not> ev_recurring e" using sched_okD(7) [OF sched e(1)] e(3) by (simp add: event_ok_def)
  define e' where "e' = e\<lparr>ev_run_time := h_next_check (hosts s i) + delay\<rparr>"
  have s': "?s = add_event h e' (upd_host i ?f (remove_event (Some h) s))"
    using rec by (simp add: put_back_host_check_def reschedule_event_def Let_def e'_def)
  have p: "pending (Host_ref i) s = Some h" using sched_okD(5) [OF sched e(1)] e(3) by simp
  have pend: "pending d ?s = pending d s" for d unfolding s' by (cases d) simp_all
  have sched': "sched_ok {} ?s"
  proof (rule sched_ok_replace(1) [OF sched, of "Host_ref i" "enqueued (clock s) (clock_usec s) e'" h])
    show "event_queue ?s = (h, enqueued (clock s) (clock_usec s) e') # (case pending (Host_ref i) s of None \<Rightarrow> event_queue s
        | Some h \<Rightarrow> filter (\<lambda>(h', _). h' \<noteq> h) (event_queue s))" by (simp add: s' p del: pending.simps)
    show "pending d ?s = (if d = Host_ref i then Some h else pending d s)" for d using p by (simp add: pend del: pending.simps)
  qed (use e rec p in \<open>simp_all add: e'_def s' del: pending.simps\<close>)
  have same: "quiet s ?s" "links ?s = links s" "pointers ?s = pointers s" "rings ?s = rings s"
  proof -
    have "target_depth t ?s = target_depth t s" for t by (cases t) (simp_all add: s')
    then show "quiet s ?s" by (simp add: s' quiet_def dt_keeps_def)
  qed (simp_all add: s' links_def pointers_def rings_def fun_eq_iff)
  have "next_event_handle ?s = next_event_handle s" by (simp add: s')
  then have "daemon_ok {} ?s" by (intro requeued [OF ok same _ _ sched']) (simp_all only: pend order_refl simp_thms)
  with same(3) show ?thesis by (simp add: kept_def)
qed

section \<open>Leaving the queue\<close>

lemma sched_ok_readd:
  assumes ok: "sched_ok X s" and h: "h \<notin> fst ` set (event_queue s)" "h < next_event_handle s"
    and e: "event_ok e" "check_event_type (ev_data e) = None"
  shows "sched_ok X (add_event h e s)"
proof -
  have pend: "pending d (add_event h e s) = pending d s" for d by (rule pending_cong) simp_all
  have ok': "event_ok (enqueued now usec e)" for now usec using e(1) by (simp add: event_ok_def)
  show ?thesis unfolding sched_ok_def pend
  proof (intro conjI)
    show "distinct (map fst (event_queue (add_event h e s)))" using sched_okD(1) [OF ok] h(1) by simp
    show "\<forall>(k, e') \<in> set (event_queue (add_event h e s)). k < next_event_handle (add_event h e s)"
      using sched_okD(2) [OF ok] h(2) by auto
    show "\<forall>d k. pending d s = Some k \<longrightarrow> k \<notin> X
      \<and> (\<exists>e'. (k, e') \<in> set (event_queue (add_event h e s)) \<and> ev_data e' = d \<and> check_event_type d = Some (ev_type e'))"
      using sched_okD(3,4) [OF ok] unfolding add_event_queue by (metis list.set_intros(2))
    show "\<forall>(k, e') \<in> set (event_queue (add_event h e s)). k \<notin> X \<and> check_event_type (ev_data e') \<noteq> None
      \<longrightarrow> pending (ev_data e') s = Some k" using sched_okD(5) [OF ok] e(2) by auto
    show "X \<subseteq> fst ` set (event_queue (add_event h e s))" using sched_okD(6) [OF ok] by force
    show "\<forall>(k, e') \<in> set (event_queue (add_event h e s)). event_ok e'" using sched_okD(7) [OF ok] ok' by auto
  qed
qed

lemma finish_event_ok:
  assumes ok: "daemon_ok {h} s"
  shows "\<exists>s'. finish_event h s = Some s' \<and> kept {} s s'"
proof -
  note sched = daemon_okD(3) [OF ok]
  let ?r = "remove_event (Some h) s"
  obtain e where e: "(h, e) \<in> set (event_queue s)" using sched_okD(6) [OF sched] by blast
  then have m: "map_of (event_queue s) h = Some e" using map_of_is_SomeI [OF sched_okD(1) [OF sched]] by blast
  have low: "h < next_event_handle s" using sched_okD(2) [OF sched e] .
  have pend: "pending d ?r = pending d s" for d by (rule pending_cong) simp_all
  have gone: "sched_ok {} ?r" unfolding sched_ok_def pend
  proof (intro conjI)
    show "distinct (map fst (event_queue ?r))" using sched_okD(1) [OF sched] by (simp add: distinct_map_filter)
    show "\<forall>(k, e) \<in> set (event_queue ?r). k < next_event_handle ?r" using sched_okD(2) [OF sched] by auto
    show "\<forall>d k. pending d s = Some k \<longrightarrow> k \<notin> {} \<and> (\<exists>e. (k, e) \<in> set (event_queue ?r) \<and> ev_data e = d \<and> check_event_type d = Some (ev_type e))"
      using sched_okD(3,4) [OF sched] by fastforce
    show "\<forall>(k, e) \<in> set (event_queue ?r). k \<notin> {} \<and> check_event_type (ev_data e) \<noteq> None \<longrightarrow> pending (ev_data e) s = Some k"
      using sched_okD(5) [OF sched] by auto
    show "\<forall>(k, e) \<in> set (event_queue ?r). event_ok e" using sched_okD(7) [OF sched] by auto
  qed simp
  define s' where "s' = (if ev_recurring e then reschedule_event h e ?r else ?r)"
  have run: "finish_event h s = Some s'" by (simp add: finish_event_def m s'_def)
  have "s' = ?r \<or> (\<exists>e'. s' = add_event h e' ?r)" by (auto simp: s'_def reschedule_event_def Let_def)
  then have "quiet s s'" "links s' = links s" "pointers s' = pointers s" "rings s' = rings s" "pending d s' = pending d s"
      "next_event_handle s' = next_event_handle s" for d
    using quiet_queue [of s' s] by (auto simp: dt_keeps_def)
  moreover have "sched_ok {} s'"
  proof (cases "ev_recurring e")
    case True
    with sched_okD(7) [OF sched e] have "check_event_type (ev_data e) = None" "event_fits (ev_type e) (ev_data e)" by (simp_all add: event_ok_def)
    with True low show ?thesis unfolding s'_def reschedule_event_def Let_def
      by (simp, intro conjI impI sched_ok_readd [OF gone]) (auto simp: event_ok_def)
  qed (simp add: s'_def gone)
  ultimately show ?thesis using requeued [OF ok, of s' "{}"] run by (simp add: kept_def)
qed

section \<open>The clock\<close>

lemma kept_clock:
  assumes "daemon_ok X s"
  shows "kept X s (s\<lparr>clock := t, clock_usec := u\<rparr>)"
proof -
  let ?s = "s\<lparr>clock := t, clock_usec := u\<rparr>"
  have "dt_inv {} ?s"
  proof -
    have names: "find_host ?s = find_host s" "find_service ?s = find_service s"
      by (simp_all add: fun_eq_iff find_host_def find_service_def cong: option.case_cong)
    then have target: "downtime_target ?s = downtime_target s" by (simp add: fun_eq_iff downtime_target_def)
    from names have "dl_entry_ok ?s = dl_entry_ok s" by (simp add: fun_eq_iff dl_entry_ok_def)
    then have "dl_wf ?s" using dt_invD(1) [OF daemon_okD(1) [OF assms]] by (simp add: dl_wf_def)
    moreover have "target_depth t ?s = target_depth t s" for t by (cases t) simp_all
    ultimately show ?thesis
      using daemon_okD(1) [OF assms] by (simp add: dt_inv_def depth_ok_def parents_set_def in_effect_at_def target)
  qed
  moreover have pend: "pending d ?s = pending d s" for d by (rule pending_cong) simp_all
  have "sched_ok X ?s = sched_ok X s" by (rule sched_ok_frame [OF _ _ pend]) simp_all
  moreover have "dt_events_ok ?s" by (rule dt_events_ok_frame [OF _ _ pend daemon_okD(6) [OF assms]]) simp_all
  moreover have "acyclic_links ?s = acyclic_links s" by (rule acyclic_links_frame) (simp add: links_def)
  then have "flap_ready ?s" using daemon_okD(2) [OF assms] by (simp add: flap_ready_def rings_def)
  moreover have "pointers ?s = pointers s" by (simp add: pointers_def)
  moreover from linked_frame [OF this daemon_okD(5) [OF assms]] have "linked ?s" .
  ultimately show ?thesis using assms by (simp add: kept_def daemon_ok_def)
qed

lemma kept_holds:
  assumes "holds X s s'" "pointers s' = pointers s"
  shows "kept X s s'"
  using assms by (simp add: kept_def holds_def)

lemma kept_fields:
  assumes "daemon_ok X s"
  shows "kept X s (act as s)" "kept X s (s\<lparr>sigshutdown := b\<rparr>)" "kept X s (s\<lparr>sigrestart := b\<rparr>)" "kept X s (s\<lparr>rands := r\<rparr>)"
    "kept X s (s\<lparr>currently_running_service_checks := n\<rparr>)" "kept X s (s\<lparr>currently_running_host_checks := n\<rparr>)"
  by (rule kept_holds [OF holds_frame [OF assms]]; simp add: dt_keeps_def pointers_def)+

section \<open>Changes of the system time\<close>

lemma adjust_event_fields [simp]:
  "ev_type (adjust_event now usec r d e) = ev_type e" "ev_data (adjust_event now usec r d e) = ev_data e"
  "ev_recurring (adjust_event now usec r d e) = ev_recurring e"
  by (simp_all add: adjust_event_def)

lemma kept_adjust_squeue: "daemon_ok X s \<Longrightarrow> kept X s (adjust_squeue_for_time_change delta s)"
  unfolding adjust_squeue_for_time_change_def
  using sched_okD(7) [OF daemon_okD(3)] by (intro kept_map_queue) (auto simp: event_ok_def)

lemma kept_adjust_service_times:
  assumes "daemon_ok X s"
  shows "kept X s (adjust_service_times f i s)"
proof -
  have svc: "kept X u (upd_svc i g u)" if "daemon_ok X u" "\<And>v. svc_ties (g v) = svc_ties v" for u g
    by (rule kept_upd_svc [OF that(1)]) (rule that(2))
  show ?thesis unfolding adjust_service_times_def get_next_service_notification_time_def Let_def prod.case
    by (intro kept_trans [OF kept_trans [OF svc svc] svc] assms keptD [OF svc] keptD [OF kept_trans [OF svc svc]]) (simp_all add: svc_ties_def)
qed

lemma kept_adjust_host_times:
  assumes "daemon_ok X s"
  shows "kept X s (adjust_host_times f i s)"
proof -
  have hst: "kept X u (upd_host i g u)" if "daemon_ok X u" "\<And>v. host_ties (g v) = host_ties v" for u g
    by (rule kept_upd_host [OF that(1)]) (rule that(2))
  show ?thesis unfolding adjust_host_times_def get_next_host_notification_time_def Let_def prod.case
    by (intro kept_trans [OF kept_trans [OF hst hst] hst] assms keptD [OF hst] keptD [OF kept_trans [OF hst hst]]) (simp_all add: host_ties_def)
qed

lemma kept_compensate:
  assumes "daemon_ok X s"
  shows "kept X s (compensate_for_system_time_change last_time current_time s)"
proof -
  have g: "kept X u (u\<lparr>globs := (globs u)\<lparr>program_start := a, event_start := b\<rparr>\<rparr>)" if "daemon_ok X u" for u a b
    by (rule kept_globs [OF that]) simp
  show ?thesis unfolding compensate_for_system_time_change_def Let_def
    by (rule kept_trans [OF kept_trans [OF kept_trans [OF kept_adjust_squeue kept_fold] kept_fold] g])
      (blast intro: assms kept_adjust_squeue kept_adjust_service_times kept_adjust_host_times kept_fold kept_trans keptD)+
qed

section \<open>Running a check\<close>

definition checked :: "nat set \<Rightarrow> daemon \<Rightarrow> ('a \<times> 'b \<times> 'c \<times> daemon) option \<Rightarrow> bool" where
  "checked X s r \<longleftrightarrow> (\<exists>a b c s'. r = Some (a, b, c, s') \<and> kept X s s')"

lemma checked_Some [simp]: "checked X s (Some (a, b, c, s')) \<longleftrightarrow> kept X s s'"
  by (simp add: checked_def)

lemma checked_bind: "checked X s r \<Longrightarrow> (\<And>a b c s'. kept X s s' \<Longrightarrow> checked X s' (g (a, b, c, s'))) \<Longrightarrow> checked X s (r \<bind> g)"
  using kept_trans by (fastforce simp: checked_def)

lemma checked_total: "\<exists>r. m = Some r \<Longrightarrow> (\<And>r. checked X s (g r)) \<Longrightarrow> checked X s (m \<bind> g)"
  by auto

lemma checked_trans: "kept X s s' \<Longrightarrow> checked X s' r \<Longrightarrow> checked X s r"
  using kept_trans by (fastforce simp: checked_def)

lemma checked_if: "(b \<Longrightarrow> checked X s r) \<Longrightarrow> (\<not> b \<Longrightarrow> checked X s r') \<Longrightarrow> checked X s (if b then r else r')"
  by simp

lemma kept_service_state: "daemon_ok X s \<Longrightarrow> kept X s (upd_svc i (\<lambda>v. v\<lparr>s_current_state := f v\<rparr>) s)"
  by (rule kept_upd_svc) (simp_all add: svc_ties_def)

lemma kept_host_state: "daemon_ok X s \<Longrightarrow> kept X s (upd_host h (\<lambda>v. v\<lparr>h_current_state := f v\<rparr>) s)"
  by (rule kept_upd_host) (simp_all add: host_ties_def)

lemma dependencies_total:
  assumes "daemon_ok X s"
  shows "\<exists>r. check_service_dependencies s i ty = Some r" "\<exists>r. check_host_dependencies s i ty = Some r"
    "\<exists>r. check_service_parents s i = Some r"
  using check_dependencies_total [OF daemon_okD(4) [OF assms]] check_service_parents_spec [of s i] daemon_okD(4) [OF assms]
  by (simp_all add: acyclic_links_def)

lemma checked_service_viability:
  assumes ok: "daemon_ok X s"
  shows "checked X s (check_service_check_viability i opts b t s)"
proof -
  have skip: "kept X u (upd_svc i (\<lambda>v. v\<lparr>s_current_state := f v\<rparr>) u)" if "daemon_ok X u" for f u by (rule kept_service_state [OF that])
  show ?thesis unfolding check_service_check_viability_def Let_def
  proof (rule checked_bind, goal_cases)
    case 1
    obtain fd where fd: "check_service_dependencies s i EXECUTION_DEPENDENCY = Some fd" using dependencies_total(1) [OF ok] by blast
    show ?case by (simp add: fd skip ok kept_refl split: prod.splits)
  next
    case (2 p b1 c s1)
    obtain r where r: "check_service_parents s1 i = Some r" using dependencies_total(3) [OF keptD [OF 2]] by blast
    have s2: "kept X s1 (upd_svc i (\<lambda>v. v\<lparr>s_current_state := f v\<rparr>) s1)" for f by (rule skip [OF keptD [OF 2]])
    show ?case using skip [OF keptD [OF s2]] kept_trans [OF s2 skip [OF keptD [OF s2]]] s2 kept_refl [OF keptD [OF 2]]
      by (simp add: r split: option.split)
  qed
qed

lemma checked_host_viability:
  assumes ok: "daemon_ok X s"
  shows "checked X s (check_host_check_viability h opts b s)"
proof -
  obtain fd where fd: "check_host_dependencies s h EXECUTION_DEPENDENCY = Some fd" using dependencies_total(2) [OF ok] by blast
  show ?thesis unfolding check_host_check_viability_def Let_def
    by (rule checked_bind; simp add: fd kept_host_state ok kept_refl keptD split: prod.splits)
qed

lemma kept_run_service:
  assumes ok: "daemon_ok X s"
  shows "kept X s (upd_svc i (\<lambda>v. v\<lparr>s_is_executing := True\<rparr>) (act as (s\<lparr>currently_running_service_checks := n\<rparr>)))"
    "kept X s (upd_svc i (\<lambda>v. v\<lparr>s_check_options := opts\<rparr>) s)"
proof -
  have svc: "kept X u (upd_svc i g u)" if "daemon_ok X u" "\<And>v. svc_ties (g v) = svc_ties v" for u g
    by (rule kept_upd_svc [OF that(1)]) (rule that(2))
  note 1 = kept_fields(5) [OF ok, of n]
  note 2 = kept_trans [OF 1 kept_fields(1) [OF keptD [OF 1]]]
  show "kept X s (upd_svc i (\<lambda>v. v\<lparr>s_is_executing := True\<rparr>) (act as (s\<lparr>currently_running_service_checks := n\<rparr>)))"
    by (rule kept_trans [OF 2 svc [OF keptD [OF 2]]]) (simp add: svc_ties_def)
  show "kept X s (upd_svc i (\<lambda>v. v\<lparr>s_check_options := opts\<rparr>) s)" by (rule svc [OF ok]) (simp add: svc_ties_def)
qed

lemma kept_run_host:
  assumes ok: "daemon_ok X s"
  shows "kept X s (upd_host i (\<lambda>v. v\<lparr>h_is_executing := True\<rparr>) (act as (s\<lparr>currently_running_host_checks := n\<rparr>)))"
    "kept X s (upd_host i (\<lambda>v. v\<lparr>h_check_options := opts\<rparr>) s)" "kept X s (upd_host i (\<lambda>v. v\<lparr>h_latency := l\<rparr>) s)"
proof -
  have hst: "kept X u (upd_host i g u)" if "daemon_ok X u" "\<And>v. host_ties (g v) = host_ties v" for u g
    by (rule kept_upd_host [OF that(1)]) (rule that(2))
  note 1 = kept_fields(6) [OF ok, of n]
  note 2 = kept_trans [OF 1 kept_fields(1) [OF keptD [OF 1]]]
  show "kept X s (upd_host i (\<lambda>v. v\<lparr>h_is_executing := True\<rparr>) (act as (s\<lparr>currently_running_host_checks := n\<rparr>)))"
    by (rule kept_trans [OF 2 hst [OF keptD [OF 2]]]) (simp add: host_ties_def)
  show "kept X s (upd_host i (\<lambda>v. v\<lparr>h_check_options := opts\<rparr>) s)" "kept X s (upd_host i (\<lambda>v. v\<lparr>h_latency := l\<rparr>) s)"
    by (rule hst [OF ok], simp add: host_ties_def)+
qed

lemma checked_run_service:
  assumes "daemon_ok X s"
  shows "checked X s (run_async_service_check l i opts latency True True b t s)"
  unfolding run_async_service_check_def
proof (rule checked_bind [OF checked_service_viability [OF assms]])
  fix a c d s1 assume s1: "kept X s s1"
  note opt = kept_run_service(2) [OF keptD [OF s1], of i CHECK_OPTION_NONE]
  note run = kept_trans [OF opt kept_run_service(1) [OF keptD [OF opt]]]
  show "checked X s1 (case (a, c, d, s1) of (viable, time_is_valid, preferred_time, s) \<Rightarrow>
     (if viable = ERROR \<or> s_host (svcs s i) = None then Some (ERROR, time_is_valid, preferred_time, s)
      else
       let s = (if True then upd_svc i (\<lambda>v. v\<lparr>s_check_options := CHECK_OPTION_NONE\<rparr>) s else s) in
       if \<not> raw_command l \<or> \<not> processed_command l then
         Some (ERROR, time_is_valid, time_plus s preferred_time (s_check_interval (svcs s i)), s)
       else
        let cr = new_check_result opts True True latency (clock s, start_usec l) in
        if run_check_result l = ERROR then Some (ERROR, time_is_valid, preferred_time, s)
        else Some (run_check_result l, time_is_valid, preferred_time,
          upd_svc i (\<lambda>v. v\<lparr>s_is_executing := True\<rparr>)
            (act [Run_service_check i cr] (s\<lparr>currently_running_service_checks := currently_running_service_checks s + 1\<rparr>)))))"
    using opt run kept_refl [OF keptD [OF s1]] by (simp add: Let_def)
qed

lemma checked_run_host:
  assumes "daemon_ok X s"
  shows "checked X s (run_async_host_check l h opts latency True True b t s)"
  unfolding run_async_host_check_def
proof (intro checked_if)
  show "checked X s (check_host_check_viability h opts b s \<bind> (\<lambda>(viable, time_is_valid, preferred_time, s).
       (if viable = ERROR then Some (ERROR, time_is_valid, preferred_time, s)
        else
         let s = (if True then upd_host h (\<lambda>v. v\<lparr>h_check_options := CHECK_OPTION_NONE\<rparr>) s else s) in
         if \<not> raw_command l \<or> \<not> processed_command l then
           Some (ERROR, time_is_valid, preferred_time, upd_host h (\<lambda>v. v\<lparr>h_latency := latency\<rparr>) s)
         else
          let cr = new_check_result opts True True latency (clock s, start_usec l) in
          if run_check_result l = ERROR then Some (ERROR, time_is_valid, preferred_time, s)
          else Some (run_check_result l, time_is_valid, preferred_time,
            upd_host h (\<lambda>v. v\<lparr>h_is_executing := True\<rparr>)
              (act [Run_host_check h cr] (s\<lparr>currently_running_host_checks := currently_running_host_checks s + 1\<rparr>))))))"
  proof (rule checked_bind [OF checked_host_viability [OF assms]])
    fix a :: int and c d s1 assume s1: "kept X s s1"
    note opt = kept_run_host(2) [OF keptD [OF s1], of h CHECK_OPTION_NONE]
    note run = kept_trans [OF opt kept_run_host(1) [OF keptD [OF opt]]] kept_trans [OF opt kept_run_host(3) [OF keptD [OF opt]]]
    show "checked X s1 (case (a, c, d, s1) of (viable, time_is_valid, preferred_time, s) \<Rightarrow>
       (if viable = ERROR then Some (ERROR, time_is_valid, preferred_time, s)
        else
         let s = (if True then upd_host h (\<lambda>v. v\<lparr>h_check_options := CHECK_OPTION_NONE\<rparr>) s else s) in
         if \<not> raw_command l \<or> \<not> processed_command l then
           Some (ERROR, time_is_valid, preferred_time, upd_host h (\<lambda>v. v\<lparr>h_latency := latency\<rparr>) s)
         else
          let cr = new_check_result opts True True latency (clock s, start_usec l) in
          if run_check_result l = ERROR then Some (ERROR, time_is_valid, preferred_time, s)
          else Some (run_check_result l, time_is_valid, preferred_time,
            upd_host h (\<lambda>v. v\<lparr>h_is_executing := True\<rparr>)
              (act [Run_host_check h cr] (s\<lparr>currently_running_host_checks := currently_running_host_checks s + 1\<rparr>)))))"
      using opt run kept_refl [OF keptD [OF s1]] by (simp add: Let_def)
  qed
qed (simp_all add: kept_refl [OF assms])

lemma kept_reschedule_failed:
  assumes "daemon_ok X s"
  shows "kept X s (reschedule_failed_service_check i b t s)" "kept X s (reschedule_failed_host_check i b t s)"
proof -
  have svc: "kept X u (upd_svc i g u)" if "daemon_ok X u" "\<And>v. svc_ties (g v) = svc_ties v" for u g
    by (rule kept_upd_svc [OF that(1)]) (rule that(2))
  have hst: "kept X u (upd_host i g u)" if "daemon_ok X u" "\<And>v. host_ties (g v) = host_ties v" for u g
    by (rule kept_upd_host [OF that(1)]) (rule that(2))
  note r = kept_fields(4) [OF assms]
  have svc2: "kept X s (upd_svc i g (upd_svc i f u))" if "kept X s u" "\<And>v. svc_ties (f v) = svc_ties v" "\<And>v. svc_ties (g v) = svc_ties v" for u f g
    using kept_trans [OF that(1) kept_trans [OF svc [OF keptD [OF that(1)] that(2)] svc [OF keptD [OF svc [OF keptD [OF that(1)] that(2)]] that(3)]]] .
  have hst2: "kept X s (upd_host i g (upd_host i f u))" if "kept X s u" "\<And>v. host_ties (f v) = host_ties v" "\<And>v. host_ties (g v) = host_ties v" for u f g
    using kept_trans [OF that(1) kept_trans [OF hst [OF keptD [OF that(1)] that(2)] hst [OF keptD [OF hst [OF keptD [OF that(1)] that(2)]] that(3)]]] .
  show "kept X s (reschedule_failed_service_check i b t s)"
    unfolding reschedule_failed_service_check_def Let_def next_rand_def prod.case
    by (simp, intro conjI impI svc2 r kept_trans [OF r svc [OF keptD [OF r]]] kept_refl [OF assms]) (simp_all add: svc_ties_def)
  show "kept X s (reschedule_failed_host_check i b t s)"
    unfolding reschedule_failed_host_check_def Let_def next_rand_def prod.case
    by (simp, intro conjI impI hst2 r kept_trans [OF r hst [OF keptD [OF r]]] kept_refl [OF assms]) (simp_all add: host_ties_def)
qed

text \<open>The object has let go of the event that is being run.\<close>

lemma scheduled_service_runs:
  assumes ok: "daemon_ok {} s" and e: "(h, e) \<in> set (event_queue s)" "ev_data e = Service_ref i"
  shows "\<exists>r s'. run_scheduled_service_check l i opts latency s = Some (r, s') \<and> daemon_ok {h} s'"
proof -
  let ?s = "upd_svc i (\<lambda>v. v\<lparr>s_next_check_event := None\<rparr>) s"
  have "daemon_ok {h} ?s" by (rule running_check [OF ok e(1) refl]) (simp_all add: e(2))
  from checked_run_service [OF this] obtain a b t s1 where
    s1: "run_async_service_check l i opts latency True True True 0 ?s = Some (a, b, t, s1)" "kept {h} ?s s1"
    unfolding checked_def by blast
  define s2 where "s2 = (if s_should_be_scheduled (svcs s1 i) then reschedule_failed_service_check i b t s1 else s1)"
  have s2: "daemon_ok {h} s2" using keptD [OF kept_reschedule_failed(1) [OF keptD [OF s1(2)]]] keptD [OF s1(2)] by (simp add: s2_def)
  have "fine {h} s2 (if s_should_be_scheduled (svcs s2 i) then schedule_service_check i (s_next_check (svcs s2 i)) opts s2 else Some s2)"
    using fine_schedule(1) [OF s2] kept_refl [OF s2] by simp
  with s1 keptD show ?thesis by (auto simp: run_scheduled_service_check_def Let_def s2_def fine_def)
qed

lemma scheduled_host_runs:
  assumes ok: "daemon_ok {} s" and e: "(h, e) \<in> set (event_queue s)" "ev_data e = Host_ref i"
  shows "\<exists>r s'. run_scheduled_host_check l i opts latency s = Some (r, s') \<and> daemon_ok {h} s'"
proof -
  let ?s = "upd_host i (\<lambda>v. v\<lparr>h_next_check_event := None\<rparr>) s"
  have "daemon_ok {h} ?s" by (rule running_check [OF ok e(1) refl]) (simp_all add: e(2))
  from checked_run_host [OF this] obtain a b t s1 where
    s1: "run_async_host_check l i opts latency True True True 0 ?s = Some (a, b, t, s1)" "kept {h} ?s s1"
    unfolding checked_def by blast
  define s2 where "s2 = (if h_should_be_scheduled (hosts s1 i) then reschedule_failed_host_check i b t s1 else s1)"
  have s2: "daemon_ok {h} s2" using keptD [OF kept_reschedule_failed(2) [OF keptD [OF s1(2)]]] keptD [OF s1(2)] by (simp add: s2_def)
  have "fine {h} s2 (if h_should_be_scheduled (hosts s2 i) then schedule_host_check i (h_next_check (hosts s2 i)) opts s2 else Some s2)"
    using fine_schedule(2) [OF s2] kept_refl [OF s2] by simp
  with s1 keptD show ?thesis by (auto simp: run_scheduled_host_check_def Let_def s2_def fine_def)
qed

section \<open>Orphans and freshness\<close>

lemma fine_orphans:
  assumes "daemon_ok X s"
  shows "fine X s (check_for_orphaned_services s)" "fine X s (check_for_orphaned_hosts s)"
proof -
  have "fine X u (schedule_service_check i (clock u) CHECK_OPTION_ORPHAN_CHECK
      (upd_svc i (\<lambda>v. v\<lparr>s_is_executing := False\<rparr>) (u\<lparr>currently_running_service_checks := n\<rparr>)))" if "daemon_ok X u" for i n u
  proof -
    note 1 = kept_fields(5) [OF that, of n]
    have 2: "kept X u (upd_svc i (\<lambda>v. v\<lparr>s_is_executing := False\<rparr>) (u\<lparr>currently_running_service_checks := n\<rparr>))"
      by (rule kept_trans [OF 1 kept_upd_svc [OF keptD [OF 1]]]) (simp add: svc_ties_def)
    show ?thesis by (rule fine_trans [OF 2 fine_schedule(1) [OF keptD [OF 2]]])
  qed
  then show "fine X s (check_for_orphaned_services s)" unfolding check_for_orphaned_services_def
    by (intro fine_for_each assms) (auto simp: kept_refl)
  have "fine X u (schedule_host_check i (clock u) CHECK_OPTION_ORPHAN_CHECK
      (upd_host i (\<lambda>v. v\<lparr>h_is_executing := False\<rparr>) (u\<lparr>currently_running_host_checks := n\<rparr>)))" if "daemon_ok X u" for i n u
  proof -
    note 1 = kept_fields(6) [OF that, of n]
    have 2: "kept X u (upd_host i (\<lambda>v. v\<lparr>h_is_executing := False\<rparr>) (u\<lparr>currently_running_host_checks := n\<rparr>))"
      by (rule kept_trans [OF 1 kept_upd_host [OF keptD [OF 1]]]) (simp add: host_ties_def)
    show ?thesis by (rule fine_trans [OF 2 fine_schedule(2) [OF keptD [OF 2]]])
  qed
  then show "fine X s (check_for_orphaned_hosts s)" unfolding check_for_orphaned_hosts_def
    by (intro fine_for_each assms) (auto simp: kept_refl)
qed

lemma fine_freshness:
  assumes "daemon_ok X s"
  shows "fine X s (check_service_result_freshness s)" "fine X s (check_host_result_freshness s)"
proof -
  have "fine X u (schedule_service_check i t opts (upd_svc i (\<lambda>v. v\<lparr>s_is_being_freshened := True\<rparr>) u))" if "daemon_ok X u" for i t opts u
  proof -
    have 1: "kept X u (upd_svc i (\<lambda>v. v\<lparr>s_is_being_freshened := True\<rparr>) u)" by (rule kept_upd_svc [OF that]) (simp add: svc_ties_def)
    show ?thesis by (rule fine_trans [OF 1 fine_schedule(1) [OF keptD [OF 1]]])
  qed
  then have "fine X s (for_each (\<lambda>i s. if P i s then schedule_service_check i (clock s) opts (upd_svc i (\<lambda>v. v\<lparr>s_is_being_freshened := True\<rparr>) s)
      else Some s) n s)" for P opts n by (intro fine_for_each assms) (auto simp: kept_refl)
  then show "fine X s (check_service_result_freshness s)" using assms
    by (simp add: check_service_result_freshness_def Let_def kept_refl)
  have "fine X u (schedule_host_check i t opts (upd_host i (\<lambda>v. v\<lparr>h_is_being_freshened := True\<rparr>) u))" if "daemon_ok X u" for i t opts u
  proof -
    have 1: "kept X u (upd_host i (\<lambda>v. v\<lparr>h_is_being_freshened := True\<rparr>) u)" by (rule kept_upd_host [OF that]) (simp add: host_ties_def)
    show ?thesis by (rule fine_trans [OF 1 fine_schedule(2) [OF keptD [OF 1]]])
  qed
  then have "fine X s (for_each (\<lambda>i s. if P i s then schedule_host_check i (clock s) opts (upd_host i (\<lambda>v. v\<lparr>h_is_being_freshened := True\<rparr>) s)
      else Some s) n s)" for P opts n by (intro fine_for_each assms) (auto simp: kept_refl)
  then show "fine X s (check_host_result_freshness s)" using assms
    by (simp add: check_host_result_freshness_def Let_def kept_refl)
qed

section \<open>Results\<close>

text \<open>A passive result comes with a state.\<close>

fun sane_result :: "job_result \<Rightarrow> bool" where
  "sane_result (Service_result i cr) \<longleftrightarrow> cr_check_type cr = CHECK_TYPE_ACTIVE \<or> a_state (cr_return_code cr)"
| "sane_result (Host_result h cr) \<longleftrightarrow> cr_check_type cr = CHECK_TYPE_ACTIVE \<or> a_state (cr_return_code cr)"

lemma result_codes:
  assumes "daemon_ok X s"
  shows "sane_result (Service_result i cr) \<Longrightarrow> a_state (service_result_code (globs s) cr)"
    "sane_result (Host_result h cr) \<Longrightarrow> a_state (host_result_code (globs s) b cr)"
  using daemon_okD(5) [OF assms] by (auto simp: service_result_code_def host_result_code_def a_state_def linked_def Let_def)

lemma result_survives:
  assumes ok: "daemon_ok X s" and "sane_result r"
  shows "\<exists>s'. process_result r s = Some s' \<and> daemon_ok X s'"
  using assms(2) answers_service_result [OF ok result_codes(1) [OF ok]] answers_host_result [OF ok result_codes(2) [OF ok]]
  by (cases r) (fastforce simp: answers_def)+

lemma results_survive:
  assumes "daemon_ok X s" "\<forall>r \<in> set rs. sane_result r"
  shows "\<exists>s'. process_results rs s = Some s' \<and> daemon_ok X s'"
  using assms
proof (induction rs arbitrary: s)
  case (Cons r rs)
  then obtain s1 where "process_result r s = Some s1" "daemon_ok X s1" using result_survives [OF Cons.prems(1), of r] by auto
  with Cons show ?case by simp
qed simp

section \<open>Smoothing\<close>

lemma squeue_first_in: "squeue_first pick q = Some (h, e) \<Longrightarrow> (h, e) \<in> set q"
proof -
  assume a: "squeue_first pick q = Some (h, e)"
  then obtain x xs where q: "earliest q = x # xs" "(h, e) = (x # xs) ! (pick mod length (x # xs))"
    by (auto simp: squeue_first_def split: list.splits)
  have "(x # xs) ! (pick mod length (x # xs)) \<in> set (x # xs)" by (rule nth_mem) simp
  with q have "(h, e) \<in> set (earliest q)" by simp
  then show ?thesis by (simp add: earliest_def)
qed

lemma drain_subset: "set (drain pick n q) \<subseteq> set q"
proof (induction n arbitrary: q)
  case (Suc n)
  show ?case
  proof (cases "squeue_first (pick n) q")
    case (Some x)
    obtain h e where x: "x = (h, e)" by (cases x)
    have "set (drain pick n (filter (\<lambda>(h', _). h' \<noteq> h) q)) \<subseteq> set q" using Suc [of "filter (\<lambda>(h', _). h' \<noteq> h) q"] by auto
    then show ?thesis using squeue_first_in [of "pick n" q h e] Some x by auto
  qed simp
qed simp

lemma unforced_check_total: "event_ok e \<Longrightarrow> \<exists>m. unforced_check s e = Some m"
  using event_fitsD(1,2) [of "ev_data e"] by (auto simp: unforced_check_def event_ok_def)

lemma checks_to_reschedule_total:
  assumes "\<forall>(h, e) \<in> set es. event_ok e"
  shows "\<exists>r. checks_to_reschedule s a b tv es = Some r"
  using assms
proof (induction es arbitrary: tv)
  case (Cons x es)
  obtain h e where x: "x = (h, e)" by (cases x)
  with Cons.prems have e: "event_ok e" by simp
  then have "\<exists>m. unforced_check s e = Some m" by (rule unforced_check_total)
  then obtain m where m: "unforced_check s e = Some m" by blast
  have rest: "\<forall>(h, e) \<in> set es. event_ok e" using Cons.prems by simp
  obtain r where "checks_to_reschedule s a b tv es = Some r" using Cons.IH [OF rest, of tv] by blast
  moreover obtain r' where "checks_to_reschedule s a b (ev_when e) es = Some r'" using Cons.IH [OF rest, of "ev_when e"] by blast
  ultimately show ?case using m by (cases r; cases r'; cases m) (auto simp: x)
qed (unfold checks_to_reschedule.simps, rule exI, rule refl)

lemma kept_move_check:
  assumes "daemon_ok X s"
  shows "kept X s (move_check sec usec h e s)"
proof -
  have move: "kept X u (upd_event h (\<lambda>e. e\<lparr>ev_run_time := sec, ev_when := (sec mod 2 ^ 43, usec)\<rparr>) u)" if "daemon_ok X u" for u
    by (rule kept_upd_event [OF that]) (use sched_okD(7) [OF daemon_okD(3) [OF that]] in \<open>auto simp: event_ok_def\<close>)
  have hst: "kept X s (upd_host x (\<lambda>v. v\<lparr>h_next_check := sec\<rparr>) s)" for x by (rule kept_upd_host [OF assms]) (simp add: host_ties_def)
  have svc: "kept X s (upd_svc x (\<lambda>v. v\<lparr>s_next_check := sec\<rparr>) s)" for x by (rule kept_upd_svc [OF assms]) (simp add: svc_ties_def)
  show ?thesis unfolding move_check_def Let_def
    using kept_trans [OF hst move [OF keptD [OF hst]]] kept_trans [OF svc move [OF keptD [OF svc]]] move [OF assms] kept_refl [OF assms]
    by (simp split: event_data.split)
qed

lemma kept_smooth: "daemon_ok X s \<Longrightarrow> kept X s (smooth a d t es s)"
proof (induction es arbitrary: s t)
  case (Cons x es)
  obtain h e where x: "x = (h, e)" by (cases x)
  show ?case unfolding x smooth.simps
    by (rule kept_trans [OF kept_move_check [OF Cons.prems] Cons.IH [OF keptD [OF kept_move_check [OF Cons.prems]]]])
qed (simp add: kept_refl)

lemma fine_adjust_check_scheduling:
  assumes ok: "daemon_ok X s"
  shows "fine X s (adjust_check_scheduling pick s)"
proof -
  have "\<forall>(h, e) \<in> set (drain pick n (event_queue s)). event_ok e" for n
    using drain_subset sched_okD(7) [OF daemon_okD(3) [OF ok]] by fast
  then obtain r where "checks_to_reschedule s (clock s) (clock s + auto_rescheduling_window (globs s)) (0, 0)
      (drain pick (length (event_queue s)) (event_queue s)) = Some r" using checks_to_reschedule_total by blast
  then show ?thesis unfolding adjust_check_scheduling_def Let_def
    by (cases r) (auto simp: kept_refl [OF ok] kept_smooth [OF ok] split: list.split)
qed

section \<open>Handling an event\<close>

lemma kept_expired_comment:
  assumes ok: "daemon_ok X s"
  shows "\<exists>r c. check_for_expired_comment t (comments s) i = Some (r, c) \<and> kept X s (s\<lparr>comments := c\<rparr>)"
proof -
  have c: "comments_ok (comments s)" using daemon_okD(2) [OF ok] by (simp add: flap_ready_def)
  have delete: "\<exists>r c. delete_comment (comments s) ty i = Some (r, c) \<and> comments_ok c" for ty
    using delete_comment_spec [of "comments s" i ty] c by (auto simp: comments_ok_def split: if_splits)
  have "\<exists>r c. check_for_expired_comment t (comments s) i = Some (r, c) \<and> comments_ok c"
  proof (cases "find (\<lambda>c. c_id c = i \<and> c_expires c \<and> c_expire_time c < t) (comment_list (comments s))")
    case (Some x)
    from delete [of "c_type x"] obtain r c' where "delete_comment (comments s) (c_type x) i = Some (r, c')" "comments_ok c'" by blast
    with Some show ?thesis by (simp add: check_for_expired_comment_def)
  qed (use c in \<open>simp add: check_for_expired_comment_def\<close>)
  then show ?thesis using kept_comments [OF ok] by blast
qed

definition sane_input :: "(string \<Rightarrow> nat) \<Rightarrow> input \<Rightarrow> bool" where
  "sane_input rank x = (case x of Command_line line \<Rightarrow> \<exists>r. sane_line rank r False line | Job_result r \<Rightarrow> sane_result r | Signal sig \<Rightarrow> sig \<noteq> 11)"

definition sane_round :: "(string \<Rightarrow> nat) \<Rightarrow> round \<Rightarrow> bool" where
  "sane_round rank v \<longleftrightarrow> (\<forall>r \<in> set (rd_job v) \<union> set (rd_reaped v). sane_result r)
    \<and> (\<forall>t now inputs. rd_poll v t = Polled now inputs \<longrightarrow> (\<forall>x \<in> set inputs.
         sane_input rank x))"

lemma daemon_ok_new_event:
  assumes ok: "daemon_ok X s" and e: "check_event_type (ev_data e) = None" "event_fits (ev_type e) (ev_data e)"
  shows "daemon_ok X (new_event e s)"
proof -
  have depth: "target_depth t (new_event e s) = target_depth t s" for t by (cases t) (simp_all add: new_event_def)
  have "dt_keeps s (new_event e s)" "comments (new_event e s) = comments s" unfolding dt_keeps_def new_event_def by simp_all
  then have "quiet s (new_event e s)" by (simp add: quiet_def depth) (simp add: new_event_def)
  from calm_stays [OF ok calm_add_new_event [OF e] dt_inv_quiet [OF daemon_okD(1) [OF ok] this]] show ?thesis by (simp add: staysD)
qed

text \<open>The event of a downtime forgets which one it was for once it is handled.\<close>

lemma cleared_downtime_event:
  assumes ok: "daemon_ok {h} s" and h: "(h, e) \<in> set (event_queue s)" and e: "event_ok e" "check_event_type (ev_data e) = None"
    and u: "kept {h} s u" "mild {h} s u" and t: "ev_type e = EVENT_SCHEDULED_DOWNTIME_START \<or> ev_type e = EVENT_SCHEDULED_DOWNTIME_END"
  shows "daemon_ok {h} (upd_event h (\<lambda>e. e\<lparr>ev_data := No_data\<rparr>) u)"
proof (rule keptD [OF kept_upd_event [OF keptD [OF u(1)]]])
  fix e' assume e': "(h, e') \<in> set (event_queue u)"
  note sched = daemon_okD(3) [OF ok] daemon_okD(3) [OF keptD [OF u(1)]]
  have "map_of (event_queue u) h = map_of (event_queue s) h" using u(2) sched_okD(2) [OF sched(1) h] by (simp add: mild_def)
  then have same: "e' = e"
    using map_of_is_SomeI [OF sched_okD(1) [OF sched(1)] h] map_of_is_SomeI [OF sched_okD(1) [OF sched(2)] e'] by simp
  show "ev_type (e'\<lparr>ev_data := No_data\<rparr>) = ev_type e' \<and> event_ok (e'\<lparr>ev_data := No_data\<rparr>)
    \<and> (ev_data (e'\<lparr>ev_data := No_data\<rparr>) = ev_data e'
      \<or> check_event_type (ev_data e') = None \<and> check_event_type (ev_data (e'\<lparr>ev_data := No_data\<rparr>)) = None)"
    using t e(2) by (auto simp: same event_ok_def event_fits_def)
qed

text \<open>A handler returns, and the event is still in the queue.\<close>

lemma handled_other:
  assumes ok: "daemon_ok {h} s" and v: "sane_round rank v" and e: "event_ok e" "check_event_type (ev_data e) = None"
    and h: "(h, e) \<in> set (event_queue s)"
  shows "\<exists>s'. handle_timed_event v now h e s = Some s' \<and> daemon_ok {h} s'"
proof -
  have fit: "event_fits (ev_type e) (ev_data e)" using e(1) by (simp add: event_ok_def)
  then have ty: "ev_type e \<noteq> EVENT_SERVICE_CHECK" "ev_type e \<noteq> EVENT_HOST_CHECK" using e(2) event_fits_other by blast+
  have fine: "\<exists>s'. r = Some s' \<and> daemon_ok {h} s'" if "fine {h} s r" for r using that keptD by (auto simp: fine_def)
  have orphans: "fine {h} s ((if b then check_for_orphaned_hosts s else Some s) \<bind>
      (\<lambda>s. if check_orphaned_services (globs s) then check_for_orphaned_services s else Some s))" for b
    by (rule fine_bind) (simp_all add: fine_orphans ok kept_refl keptD)
  note cleared = cleared_downtime_event [OF ok h e]
  have start: "\<exists>s'. map_option (\<lambda>(_, s). upd_event h (\<lambda>e. e\<lparr>ev_data := No_data\<rparr>) s) (handle_scheduled_downtime_start_by_id s i) = Some s' \<and> daemon_ok {h} s'"
    if "ev_type e = EVENT_SCHEDULED_DOWNTIME_START" for i using kept_start_by_id [OF ok, of i] cleared that by auto
  have stop: "\<exists>s'. map_option (\<lambda>(_, s). upd_event h (\<lambda>e. e\<lparr>ev_data := No_data\<rparr>) s) (handle_scheduled_downtime_end_by_id s i) = Some s' \<and> daemon_ok {h} s'"
    if "ev_type e = EVENT_SCHEDULED_DOWNTIME_END" for i using kept_end_by_id [OF ok, of i] cleared that by auto
  have expired: "\<exists>s'. map_option snd (check_for_expired_downtime s) = Some s' \<and> daemon_ok {h} s'" using kept_expired [OF ok] keptD by fastforce
  have comment: "\<exists>s'. map_option (\<lambda>(_, c). s\<lparr>comments := c\<rparr>) (check_for_expired_comment (clock s) (comments s) i) = Some s' \<and> daemon_ok {h} s'" for i
    using kept_expired_comment [OF ok] keptD by fastforce
  have reaped: "\<exists>s'. process_results (rd_reaped v) (act [Reap_results] s) = Some s' \<and> daemon_ok {h} s'"
    using results_survive [OF keptD [OF kept_fields(1) [OF ok]]] v by (simp add: sane_round_def)
  note update = daemon_ok_new_event [OF keptD [OF kept_fields(1) [OF ok, of "[Check_updates]"]]]
  note keeps = ok kept_fields(1-3) [OF ok, THEN keptD]
  consider "ev_type e \<notin> {EVENT_SCHEDULED_DOWNTIME_START, EVENT_SCHEDULED_DOWNTIME_END, EVENT_EXPIRE_COMMENT, EVENT_USER_FUNCTION}"
    | (starting) "ev_type e = EVENT_SCHEDULED_DOWNTIME_START" | (stopping) "ev_type e = EVENT_SCHEDULED_DOWNTIME_END"
    | (expiring) "ev_type e = EVENT_EXPIRE_COMMENT" | (user) "ev_type e = EVENT_USER_FUNCTION" by blast
  then show ?thesis
  proof cases
    case 1
    show ?thesis unfolding handle_timed_event_def Let_def
      using 1 ty keeps fine [OF orphans] fine [OF fine_freshness(1) [OF ok]] fine [OF fine_freshness(2) [OF ok]]
        fine [OF fine_adjust_check_scheduling [OF ok]] expired reaped update [unfolded new_event_def]
      by (simp add: event_fits_def)
  next
    case starting
    with fit event_fitsD(3) have "ev_data e = No_data \<or> (\<exists>i. ev_data e = Downtime_id i)" by simp
    then show ?thesis using ok handle_timed_event_def [of v now h e s] starting start [OF starting]
      by (auto simp: Let_def)
  next
    case stopping
    with fit event_fitsD(4) have "ev_data e = No_data \<or> (\<exists>i. ev_data e = Downtime_id i)" by simp
    then show ?thesis using ok handle_timed_event_def [of v now h e s] stopping stop [OF stopping]
      by (auto simp: Let_def)
  next
    case expiring
    with fit event_fitsD(5) obtain i where "ev_data e = Comment_id i" by auto
    with expiring comment show ?thesis by (simp add: handle_timed_event_def Let_def)
  next
    case user
    with fit event_fitsD(6) have "ev_data e = No_data" by simp
    with user ok show ?thesis by (simp add: handle_timed_event_def Let_def)
  qed
qed

lemma handled:
  assumes ok: "daemon_ok {} s" and v: "sane_round rank v" and h: "(h, e) \<in> set (event_queue s)"
  shows "\<exists>s'. handle_timed_event v now h e s = Some s' \<and> daemon_ok {h} s'"
proof -
  have e: "event_ok e" using sched_okD(7) [OF daemon_okD(3) [OF ok] h] .
  then have fit: "event_fits (ev_type e) (ev_data e)" by (simp add: event_ok_def)
  show ?thesis
  proof (cases "check_event_type (ev_data e)")
    case None
    with handled_other [OF running_other [OF ok h None] v e None h] show ?thesis by blast
  next
    case (Some ty)
    then have "ev_type e = ty \<and> (\<exists>i. ty = EVENT_SERVICE_CHECK \<and> ev_data e = Service_ref i \<or> ty = EVENT_HOST_CHECK \<and> ev_data e = Host_ref i)"
      using fit by (cases "ev_data e") (auto simp: event_fits_def split: if_splits)
    then consider i where "ev_type e = EVENT_SERVICE_CHECK" "ev_data e = Service_ref i" | i where "ev_type e = EVENT_HOST_CHECK" "ev_data e = Host_ref i"
      by blast
    then show ?thesis
    proof cases
      case (1 i)
      from scheduled_service_runs [OF ok h 1(2), where l = "rd_launch v" and opts = "ev_options e" and latency = "max 0 (tv_delta_f (ev_when e) now)"]
      show ?thesis using 1 by (auto simp: handle_timed_event_def Let_def)
    next
      case (2 i)
      from scheduled_host_runs [OF ok h 2(2), where l = "rd_launch v" and opts = "ev_options e" and latency = "max 0 (tv_delta_f (ev_when e) now)"]
      show ?thesis using 2 by (auto simp: handle_timed_event_def Let_def)
    qed
  qed
qed

section \<open>Whether an event runs\<close>

lemma should_run_ok:
  assumes ok: "daemon_ok {} s" and v: "sane_round rank v" and h: "(h, e) \<in> set (event_queue s)"
  shows "\<exists>b s'. should_run_event v h e s = Some (b, s') \<and> daemon_ok {} s' \<and> (b \<longrightarrow> s' = s)"
proof -
  have fit: "event_fits (ev_type e) (ev_data e)" using sched_okD(7) [OF daemon_okD(3) [OF ok] h] by (simp add: event_ok_def)
  obtain s1 where job: "process_results (rd_job v) (act [Reap_job] s) = Some s1" "daemon_ok {} s1"
    using results_survive [OF keptD [OF kept_fields(1) [OF ok]]] v unfolding sane_round_def by blast
  consider "ev_type e \<noteq> EVENT_SERVICE_CHECK" "ev_type e \<noteq> EVENT_HOST_CHECK" | i where "ev_type e = EVENT_SERVICE_CHECK" "ev_data e = Service_ref i"
    | i where "ev_type e = EVENT_HOST_CHECK" "ev_data e = Host_ref i"
    using event_fitsD(1,2) [of "ev_data e"] fit by (cases "ev_type e = EVENT_SERVICE_CHECK"; cases "ev_type e = EVENT_HOST_CHECK") auto
  then show ?thesis
  proof cases
    case 1
    then show ?thesis using ok by (auto simp: should_run_event_def)
  next
    case (2 i)
    have r: "kept {} s (snd (next_rand s))" using kept_fields(4) [OF ok] by (simp add: next_rand_def)
    have queue: "(h, e) \<in> set (event_queue (snd (next_rand s)))" using h by (simp add: next_rand_def)
    have "daemon_ok {} (put_back_service_check h e i d s)" "daemon_ok {} (put_back_service_check h e i d (snd (next_rand s)))" for d
      using keptD [OF kept_put_back_service [OF ok h 2]] keptD [OF kept_put_back_service [OF keptD [OF r] queue 2]] by blast+
    with 2 job ok show ?thesis by (auto simp: should_run_event_def Let_def split: prod.split)
  next
    case (3 i)
    have "daemon_ok {} (put_back_host_check h e i d s)" for d using keptD [OF kept_put_back_host [OF ok h 3]] .
    with 3 job ok show ?thesis by (auto simp: should_run_event_def Let_def)
  qed
qed

section \<open>Input\<close>

lemma sane_line_mono: "sane_line rank r False line \<Longrightarrow> sane_line rank r b line"
  by (auto simp: sane_line_def intro: sane_command_mono split: sum.splits prod.splits if_splits)

lemma input_survives:
  assumes ok: "daemon_ok {} (snd w)" and "sane_files rank (fst w)" "sane_input rank x"
  shows "\<exists>w'. process_input e x w = Some w' \<and> daemon_ok {} (snd w') \<and> fst w' \<subseteq>\<^sub>m fst w"
proof (cases x)
  case (Command_line line)
  with assms(3) obtain r where "sane_line rank r False line" by (auto simp: sane_input_def)
  from command1_survives [OF ok assms(2) sane_line_mono [OF this], of e] Command_line show ?thesis by (cases w) fastforce
next
  case (Job_result r)
  with assms(3) result_survives [OF ok, of r] show ?thesis by (auto simp: sane_input_def)
next
  case (Signal sig)
  with assms(3) kept_fields(2,3) [OF ok, THEN keptD] ok show ?thesis by (auto simp: sane_input_def sighandler_def)
qed

lemma inputs_survive:
  assumes "daemon_ok {} (snd w)" "sane_files rank (fst w)" "\<forall>x \<in> set xs. sane_input rank x"
  shows "\<exists>w'. process_inputs e xs w = Some w' \<and> daemon_ok {} (snd w') \<and> fst w' \<subseteq>\<^sub>m fst w"
  using assms
proof (induction xs arbitrary: w)
  case (Cons x xs)
  from input_survives [OF Cons.prems(1,2), where x = x and e = e] Cons.prems(3) obtain w1 where
    w1: "process_input e x w = Some w1" "daemon_ok {} (snd w1)" "fst w1 \<subseteq>\<^sub>m fst w" by auto
  from Cons.IH [OF w1(2) sane_files_mono [OF Cons.prems(2) w1(3)]] Cons.prems(3) obtain w2 where
    "process_inputs e xs w1 = Some w2" "daemon_ok {} (snd w2)" "fst w2 \<subseteq>\<^sub>m fst w1" by auto
  with w1 map_le_trans show ?case by fastforce
qed simp

section \<open>A round\<close>

lemma event_round_ok:
  assumes ok: "daemon_ok {} (snd w)" and files: "sane_files rank (fst w)" and v: "sane_round rank v"
  shows "\<exists>b t w'. event_round v last_time w = Some (b, t, w') \<and> daemon_ok {} (snd w') \<and> fst w' \<subseteq>\<^sub>m fst w"
proof (cases "sigshutdown (snd w) \<or> sigrestart (snd w)")
  case True
  then show ?thesis using ok by (auto simp: event_round_def)
next
  case False
  define s where "s = at_round_start v last_time (snd w)"
  have s: "daemon_ok {} s" using keptD [OF kept_compensate [OF keptD [OF kept_clock [OF ok]]]] keptD [OF kept_clock [OF ok]]
    by (simp add: s_def at_round_start_def Let_def)
  show ?thesis
  proof (cases "squeue_first (rd_pick v) (event_queue s)")
    case None
    with False s show ?thesis by (auto simp: event_round_def Let_def s_def [symmetric])
  next
    case (Some p)
    obtain h e where p: "p = (h, e)" by (cases p)
    show ?thesis
    proof (cases "rd_poll v (poll_time_ms (rd_now v) e)")
      case Poll_failed
      with False s Some p show ?thesis by (auto simp: event_round_def Let_def s_def [symmetric])
    next
      case (Polled now inputs)
      have "\<forall>x \<in> set inputs. sane_input rank x" using v Polled by (cases now) (auto simp: sane_round_def)
      with inputs_survive [where w = "(fst w, s\<lparr>clock := fst now, clock_usec := snd now\<rparr>)" and e = "rd_commands v" and rank = rank and xs = inputs] keptD [OF kept_clock [OF s]] files v
      obtain w1 where w1: "process_inputs (rd_commands v) inputs (fst w, s\<lparr>clock := fst now, clock_usec := snd now\<rparr>) = Some w1" "daemon_ok {} (snd w1)" "fst w1 \<subseteq>\<^sub>m fst w"
        by (auto simp: sane_round_def)
      show ?thesis
      proof (cases "map_of (event_queue (snd w1)) h \<noteq> Some e \<or> tv_delta_msec now (ev_when e) > 5")
        case True
        with False s Some p Polled w1 show ?thesis by (cases w1) (auto simp: event_round_def Let_def s_def [symmetric])
      next
        case runs: False
        then have h: "(h, e) \<in> set (event_queue (snd w1))" by (auto dest: map_of_SomeD)
        obtain b s1 where s1: "should_run_event v h e (snd w1) = Some (b, s1)" "daemon_ok {} s1" "b \<longrightarrow> s1 = snd w1"
          using should_run_ok [OF w1(2) v h] by blast
        obtain s2 where s2: "handle_timed_event v now h e (snd w1) = Some s2" "daemon_ok {h} s2" using handled [OF w1(2) v h] by blast
        obtain s3 where s3: "finish_event h s2 = Some s3" "daemon_ok {} s3" using finish_event_ok [OF s2(2)] keptD by blast
        show ?thesis using False Some p Polled w1 runs s1 s2 s3
          by (cases b) (auto simp: event_round_def Let_def s_def [symmetric])
      qed
    qed
  qed
qed

lemma loop_survives:
  assumes "daemon_ok {} (snd w)" "sane_files rank (fst w)" "\<forall>v \<in> set vs. sane_round rank v"
  shows "\<exists>b t w'. event_execution_loop vs last_time w = Some (b, t, w') \<and> daemon_ok {} (snd w') \<and> fst w' \<subseteq>\<^sub>m fst w"
  using assms
proof (induction vs arbitrary: w last_time)
  case (Cons v vs)
  from event_round_ok [OF Cons.prems(1,2), of v last_time] Cons.prems(3) obtain b t w1 where
    w1: "event_round v last_time w = Some (b, t, w1)" "daemon_ok {} (snd w1)" "fst w1 \<subseteq>\<^sub>m fst w" by auto
  show ?case
  proof (cases b)
    case True
    from Cons.IH [OF w1(2) sane_files_mono [OF Cons.prems(2) w1(3)], of t] Cons.prems(3) obtain b' t' w2 where
      "event_execution_loop vs t w1 = Some (b', t', w2)" "daemon_ok {} (snd w2)" "fst w2 \<subseteq>\<^sub>m fst w1" by auto
    with w1 True map_le_trans show ?thesis by fastforce
  qed (use w1 in auto)
qed auto

end
