(* ===== verification/LoopRuns.thy ===== *)
theory LoopRuns
  imports LoopSafety
begin

text \<open>
  Properties of the main loop: a run over rounds with sane input returns and keeps the invariant of the daemon; a check that
  may not run is put back under the same handle; and a change of the system time moves a check and its event together.
\<close>

section \<open>Runs\<close>


text \<open>A queue with an event that saves the status every ten seconds; while the loop waits for it a command, a result and
  the signal to shut down arrive.\<close>

definition status_event :: timed_event where
  "status_event = \<lparr>ev_type = EVENT_STATUS_SAVE, ev_priority = 1, ev_run_time = 100, ev_recurring = True, ev_interval = 10,
    ev_timing_func = False, ev_compensate = True, ev_data = No_data, ev_options = 0, ev_when = (0, 0)\<rparr>"

definition busy_round :: round where
  "busy_round = \<lparr>rd_time = 99, rd_usec = 0, rd_pick = 0, rd_now = (99, 500000),
    rd_poll = (\<lambda>ms. Polled (100, 0) [Command_line ''[8] DISABLE_NOTIFICATIONS;'', Job_result (Service_result 0 critical_result), Signal 15]),
    rd_commands = plain_env, rd_can_spawn = True, rd_job = [], rd_launch = \<lparr>raw_command = True, processed_command = True, start_usec = 0, run_check_result = OK\<rparr>, rd_reaped = [], rd_order = (\<lambda>n. n), rd_next_update = 0\<rparr>"


section \<open>Checks that are put back\<close>

lemma ranged_nudge:
  assumes "r < 2 ^ 31"
  shows "NUDGE_MIN \<le> ranged_urand r NUDGE_MIN NUDGE_MAX \<and> ranged_urand r NUDGE_MIN NUDGE_MAX < NUDGE_MAX"
proof -
  have "int r < 2 ^ 31" using assms by simp
  then have "0 \<le> int r * 12 div 2 ^ 31" "int r * 12 div 2 ^ 31 < 12" by simp_all
  then show ?thesis by (simp add: ranged_urand_def)
qed

lemma put_back_service_check_spec:
  fixes s :: daemon and d :: int and i h :: nat
  assumes "\<not> ev_recurring e"
  defines "s' \<equiv> put_back_service_check h e i d s"
  shows "s_next_check (svcs s' i) = s_next_check (svcs s i) + d"
    "event_queue s' = (h, enqueued (clock s) (clock_usec s) (e\<lparr>ev_run_time := s_next_check (svcs s i) + d\<rparr>)) # filter (\<lambda>(h', _). h' \<noteq> h) (event_queue s)"
  using assms(1) by (simp_all add: s'_def put_back_service_check_def reschedule_event_def Let_def)


text \<open>The one check that may run at a time is running.\<close>

definition crowded :: daemon where
  "crowded = watched\<lparr>globs := (globs watched)\<lparr>max_parallel_service_checks := 1, execute_service_checks := True\<rparr>,
    currently_running_service_checks := 1, event_queue := [(7, check_event 0 EVENT_SERVICE_CHECK (Service_ref 0) 100 0)]\<rparr>"


section \<open>Changes of the system time\<close>

fun check_time :: "event_data \<Rightarrow> daemon \<Rightarrow> int" where
  "check_time (Service_ref i) s = s_next_check (svcs s i)"
| "check_time (Host_ref h) s = h_next_check (hosts s h)"
| "check_time _ s = 0"

fun check_known :: "event_data \<Rightarrow> daemon \<Rightarrow> bool" where
  "check_known (Service_ref i) s = (i < num_services s)"
| "check_known (Host_ref h) s = (h < num_hosts s)"
| "check_known _ s = False"

lemma int_difference:
  assumes "- (2 ^ 31) \<le> cur - last_time" "cur - last_time < 2 ^ 31"
  shows "sint (ucast (word_of_int cur - word_of_int last_time :: u64) :: u32) = cur - last_time"
proof -
  have "ucast (word_of_int (cur - last_time) :: u64) = (word_of_int (cur - last_time) :: u32)"
    by (rule ucast_down_wi) (simp add: is_down)
  moreover have "sint (word_of_int (cur - last_time) :: u32) = cur - last_time"
    using assms by (simp add: sint_sbintrunc' signed_take_bit_int_eq_self del: of_int_diff)
  ultimately show ?thesis by (simp only: wi_hom_sub)
qed

lemma long_time:
  assumes "0 \<le> t" "t < 2 ^ 63"
  shows "sint (word_of_int t :: u64) = t" "uint (word_of_int t :: u64) = t"
  using assms by (simp_all add: sint_sbintrunc' signed_take_bit_int_eq_self uint_word_of_int_eq take_bit_int_eq_self)

lemma adjusted_time:
  assumes "0 \<le> last_time" "last_time < 2 ^ 62" "0 \<le> cur" "cur < 2 ^ 62" "0 < t" "t < 2 ^ 62" "0 \<le> t + (cur - last_time)"
  defines "diff \<equiv> (if (word_of_int last_time :: u64) > word_of_int cur then word_of_int last_time - word_of_int cur else word_of_int cur - word_of_int last_time)"
  shows "adjust_timestamp_for_time_change (word_of_int last_time) (word_of_int cur) diff t = t + (cur - last_time)"
proof (cases "cur < last_time")
  case True
  have order: "(word_of_int last_time :: u64) > word_of_int cur" using assms(1-4) True by (simp add: word_less_def long_time)
  have "diff = word_of_int (last_time - cur)" using order by (simp add: diff_def)
  moreover have "\<not> (word_of_int t :: u64) < word_of_int (last_time - cur)"
    unfolding word_less_def using assms(1-7) True by (subst (1 2) long_time(2)) simp_all
  moreover have "sint (word_of_int (t - (last_time - cur)) :: u64) = t - (last_time - cur)"
    using assms(1-7) True by (intro long_time(1)) simp_all
  ultimately show ?thesis using assms(1-7) True
    by (simp add: adjust_timestamp_for_time_change_def long_time wi_hom_sub del: of_int_diff)
next
  case False
  have order: "\<not> (word_of_int last_time :: u64) > word_of_int cur" using assms(1-4) False by (simp add: word_less_def long_time)
  have "diff = word_of_int (cur - last_time)" using order by (simp add: diff_def)
  moreover have "sint (word_of_int (t + (cur - last_time)) :: u64) = t + (cur - last_time)"
    using assms(1-7) False by (intro long_time(1)) simp_all
  ultimately show ?thesis using assms(1-7) False
    by (simp add: adjust_timestamp_for_time_change_def long_time wi_hom_add del: of_int_diff of_int_add)
qed

lemma adjust_service_times_frame:
  "event_queue (adjust_service_times f i s) = event_queue s" "num_services (adjust_service_times f i s) = num_services s"
  "num_hosts (adjust_service_times f i s) = num_hosts s" "hosts (adjust_service_times f i s) = hosts s"
  "s_next_check (svcs (adjust_service_times f i s) j) = (if j = i then f (s_next_check (svcs s i)) else s_next_check (svcs s j))"
  by (simp_all add: adjust_service_times_def get_next_service_notification_time_def Let_def)

lemma adjust_host_times_frame:
  "event_queue (adjust_host_times f i s) = event_queue s" "num_services (adjust_host_times f i s) = num_services s"
  "num_hosts (adjust_host_times f i s) = num_hosts s" "svcs (adjust_host_times f i s) = svcs s"
  "h_next_check (hosts (adjust_host_times f i s) j) = (if j = i then f (h_next_check (hosts s i)) else h_next_check (hosts s j))"
  by (simp_all add: adjust_host_times_def get_next_host_notification_time_def Let_def)

lemma adjust_services_fold:
  "distinct is \<Longrightarrow> event_queue (fold (adjust_service_times f) is s) = event_queue s \<and> num_hosts (fold (adjust_service_times f) is s) = num_hosts s
    \<and> hosts (fold (adjust_service_times f) is s) = hosts s
    \<and> s_next_check (svcs (fold (adjust_service_times f) is s) j) = (if j \<in> set is then f (s_next_check (svcs s j)) else s_next_check (svcs s j))"
  by (induction "is" arbitrary: s) (auto simp: adjust_service_times_frame)

lemma adjust_hosts_fold:
  "distinct is \<Longrightarrow> event_queue (fold (adjust_host_times f) is s) = event_queue s
    \<and> svcs (fold (adjust_host_times f) is s) = svcs s
    \<and> h_next_check (hosts (fold (adjust_host_times f) is s) j) = (if j \<in> set is then f (h_next_check (hosts s j)) else h_next_check (hosts s j))"
  by (induction "is" arbitrary: s) (auto simp: adjust_host_times_frame)

lemma compensate_frame:
  fixes s :: daemon and last_time cur :: u64
  defines "f \<equiv> adjust_timestamp_for_time_change last_time cur (if last_time > cur then last_time - cur else cur - last_time)"
  shows "event_queue (compensate_for_system_time_change last_time cur s) = event_queue (adjust_squeue_for_time_change (sint (ucast (cur - last_time) :: u32)) s)"
    "check_known d s \<Longrightarrow> check_time d (compensate_for_system_time_change last_time cur s) = f (check_time d s)"
proof -
  note sv = adjust_services_fold [OF distinct_upt] and hs = adjust_hosts_fold [OF distinct_upt]
  show "event_queue (compensate_for_system_time_change last_time cur s) = event_queue (adjust_squeue_for_time_change (sint (ucast (cur - last_time) :: u32)) s)"
    by (simp add: compensate_for_system_time_change_def Let_def sv hs)
  show "check_time d (compensate_for_system_time_change last_time cur s) = f (check_time d s)" if "check_known d s"
    using that by (cases d) (simp_all add: compensate_for_system_time_change_def Let_def sv hs f_def adjust_squeue_for_time_change_def)
qed

text \<open>C37. When the system time jumps, forwards or backwards, by less than 2 to the 31 seconds, the next check of a service or host
  moves by exactly the jump, and so does its event, under the same handle: an event that was due at the time of its check still
  is, and never before the clock.  The times lie before the year 10 to the 11, and the moved check is not before 1970.\<close>

theorem time_change_moves_checks:
  assumes "(h, e) \<in> set (event_queue s)" "ev_data e = d" "check_known d s" "ev_compensate e" "\<not> ev_timing_func e"
    and "ev_run_time e = check_time d s" "0 < check_time d s" "check_time d s < 2 ^ 62"
    and "0 \<le> last_time" "last_time < 2 ^ 62" "0 \<le> current_time" "current_time < 2 ^ 62"
    and "- (2 ^ 31) \<le> current_time - last_time" "current_time - last_time < 2 ^ 31" "0 \<le> check_time d s + (current_time - last_time)"
  defines "s' \<equiv> compensate_for_system_time_change (word_of_int last_time) (word_of_int current_time) s"
  shows "check_time d s' = check_time d s + (current_time - last_time)
    \<and> (\<exists>e'. (h, e') \<in> set (event_queue s') \<and> ev_data e' = d \<and> ev_run_time e' = check_time d s'
        \<and> ev_when e' = (max (check_time d s') (clock s) mod 2 ^ 43, snd (ev_when e')))"
proof -
  have "check_time d s' = check_time d s + (current_time - last_time)"
    unfolding s'_def compensate_frame(2) [OF assms(3)] by (rule adjusted_time) (use assms in simp_all)
  moreover have "(h, adjust_event (clock s) (clock_usec s) (get_next_log_rotation_time s) (current_time - last_time) e) \<in> set (event_queue s')"
    unfolding s'_def compensate_frame(1) int_difference [OF assms(13,14)] adjust_squeue_for_time_change_def using assms(1) by force
  ultimately show ?thesis using assms(2,4-6)
    by (intro conjI exI) (assumption | simp add: adjust_event_def enqueued_def)+
qed

definition scheduled :: daemon where
  "scheduled = watched\<lparr>clock := 1000, num_services := 1, svcs := (svcs watched)(0 := (svcs watched 0)\<lparr>s_next_check := 5000\<rparr>),
    event_queue := [(7, check_event 0 EVENT_SERVICE_CHECK (Service_ref 0) 5000 0)]\<rparr>"

text \<open>The clock is set back from 4000 to 1000: the check at 5000 is at 2000 now.\<close>

theorem time_change_moves_checks_witness:
  "check_time (Service_ref 0) (compensate_for_system_time_change 4000 1000 scheduled) = 2000
    \<and> (\<exists>e. (7, e) \<in> set (event_queue (compensate_for_system_time_change 4000 1000 scheduled)) \<and> ev_run_time e = 2000)"
  using time_change_moves_checks [of 7 "check_event 0 EVENT_SERVICE_CHECK (Service_ref 0) 5000 0" scheduled "Service_ref 0" 4000 1000]
  by (auto simp: scheduled_def check_event_def)

end
