(* ===== verification/Spec2Isabelle.thy ===== *)
theory Spec2Isabelle
  imports Prelude Bitmap Prqueue Squeue Chains Fanout Dkhash Timeperiods Comments Objects Dependencies
    Downtimes Notifications DowntimeOps DowntimeSafety DowntimeRuns Flapping PluginOutput
    Checks CheckFrames CheckResults CheckStates CheckRuns HostStates
    DowntimeFrames ObjectCommands CommandText Commands CommandActions ExternalCommands CommandSafety
    EventLoop LoopSafety LoopRuns
begin

text \<open>
  A verification library of Nagios Core, the monitoring daemon whose sources are under \<open>src/\<close>.

  The daemon keeps hosts, services and contacts, which it reads from configuration files (\<open>xdata/\<close>,
  \<open>common/objects.c\<close>).  One loop (\<open>base/events.c\<close>) pops timed events from a priority queue
  (\<open>lib/squeue.c\<close>, \<open>lib/prqueue.c\<close>): most of them start plugins that check an object
  (\<open>base/checks.c\<close>).  The results come back from worker processes and are handled one at a time:
  the handler moves the object through soft and hard states, looks for flapping (\<open>base/flapping.c\<close>),
  starts flexible downtimes (\<open>common/downtime.c\<close>), drops acknowledgement comments
  (\<open>common/comments.c\<close>), notifies contacts (\<open>base/notifications.c\<close>) and schedules the next check
  inside the check period (\<open>base/utils.c\<close>).  Operators act on the same objects through external commands
  (\<open>base/commands.c\<close>), which arrive while the loop waits for the next event.

  \<^bold>\<open>Theories.\<close>  Each models one part of the code; definitions carry the names of the C functions.

  \<^item> \<open>Prelude\<close>: facts about lists, options, maps and words that several theories share.
  \<^item> \<open>Bitmap\<close> (\<open>lib/bitmap.c\<close>): bit maps are sets of positions.
  \<^item> \<open>Prqueue\<close> (\<open>lib/prqueue.c\<close>): the binary heap, an array together with a memory that is reached
    through the five callbacks of the queue; the callbacks are a locale.  \<open>Squeue\<close> (\<open>lib/squeue.c\<close>)
    interprets it: the queue of events packed into 64-bit priorities.
  \<^item> \<open>Chains\<close>: tables of chained entries, a locale shared by \<open>Fanout\<close> (\<open>lib/fanout.c\<close>),
    \<open>Dkhash\<close> (\<open>lib/dkhash.c\<close>) and the comment hash list.
  \<^item> \<open>Timeperiods\<close> (\<open>base/utils.c\<close>): whether a time is in a time period, and the searches for the
    next time that is (not).  \<open>localtime\<close> and \<open>mktime\<close> are parameters.
  \<^item> \<open>Objects\<close> (\<open>include/objects.h\<close>, \<open>include/nagios.h\<close>): the records of hosts, services, contacts,
    escalations, dependencies, downtimes and comments, and the state \<open>daemon\<close> of the whole program.
  \<^item> \<open>Comments\<close> (\<open>common/comments.c\<close>): the list of comments, deferred or sorted, and its hash list.
  \<^item> \<open>Dependencies\<close> (\<open>base/checks.c\<close>): the walks over dependencies and over parents.
  \<^item> \<open>Downtimes\<close>, \<open>DowntimeOps\<close>, \<open>DowntimeSafety\<close>, \<open>DowntimeRuns\<close> (\<open>common/downtime.c\<close>): the list
    of downtimes with its table by id; scheduling, start, end, cancelling and expiry; the invariant that the depth
    of an object counts its downtimes in effect; and its preservation over every sequence of operations.
  \<^item> \<open>Notifications\<close> (\<open>base/notifications.c\<close>): filters, escalations, recipients and bookkeeping.
  \<^item> \<open>Flapping\<close> (\<open>base/flapping.c\<close>): the weighted percentage of state changes and the flapping flag.
  \<^item> \<open>PluginOutput\<close> (\<open>base/checks.c\<close>, \<open>base/utils.c\<close>): parsing the output of a plugin.
  \<^item> \<open>Checks\<close> (\<open>base/checks.c\<close>): scheduling and starting checks, orphans and stale results.
  \<^item> \<open>CheckResults\<close> (\<open>base/checks.c\<close>): the two handlers of check results.  \<open>CheckFrames\<close> proves what
    the operations they call leave alone, \<open>CheckStates\<close> and \<open>HostStates\<close> that the handlers refine
    abstract machines of soft and hard states, \<open>CheckRuns\<close> what follows for histories of results.
  \<^item> \<open>CommandText\<close> (\<open>base/commands.c\<close>, \<open>common/shared.c\<close>): the table of commands, the tokenizer, numbers and the
    parsing of a command line.  \<open>ObjectCommands\<close>: the small functions that switch a flag of an object or of the program.
    \<open>Commands\<close> and \<open>CommandActions\<close>: the functions that read further arguments (downtimes, comments, acknowledgements,
    passive results, changed attributes).  \<open>ExternalCommands\<close>: the dispatch of a command, and files of commands.
    \<open>DowntimeFrames\<close> and \<open>CommandSafety\<close> prove that a command answers and keeps the invariant of the daemon.
  \<^item> \<open>EventLoop\<close> (\<open>base/events.c\<close>): which event runs next, whether it may, what each kind of event does, recurring events,
    changes of the system time, the smoothing of the schedule of checks, and the loop.  \<open>LoopSafety\<close> proves that every round
    keeps the invariant, \<open>LoopRuns\<close> what follows for runs, for checks that are put back and for jumps of the clock.

  \<^bold>\<open>How the state corresponds to the code.\<close>  Objects live in total heaps indexed by an id, in the order of
  the linked list the code keeps; a pointer that may be NULL is an option.  The hash tables that find objects by
  name are finite maps, which \<open>Dkhash\<close> proves they implement; the table of downtimes is the fanout table itself.
  The event queue of the daemon is the list of the pending events with a handle for each, which stands for the
  pointer the code keeps; the order in which a queue hands events out is that of \<open>Squeue\<close>.  A function that
  mutates state takes the state and returns it updated; a function that fails returns the code it returns in C.
  \<open>None\<close> in the result of a whole operation stands for a run that does not return or whose effect C leaves
  undefined (a shift by 32 or more, a value out of the range of a conversion, a NULL dereferenced); theorems that
  an operation returns exclude it.

  \<^bold>\<open>Conventions.\<close>  The model is the build without \<open>USE_EVENT_BROKER\<close>, in which the \<open>update_*_status\<close>
  calls have no effect.  Log lines, macros and check statistics are not part of the state.  Floating point numbers
  are exact rationals; times and counters are unbounded integers except where a width matters (bit maps, the
  packed priorities, the hash functions and option flags are words).  Flags held in an \<open>int\<close> are booleans.  Each
  handler runs at one instant, the \<open>clock\<close> of the state.  Allocations at the level of the daemon succeed; those
  of the library data structures can fail.  Commands handed to workers are a trace in the state.  What C takes
  from outside the repository is an argument: the local time functions, the answers of workers and macro
  expansion (\<open>launch\<close>), and the stream of random numbers.

  \<^bold>\<open>External commands.\<close>  A command works on the daemon and on the files of commands, a map from names to contents.  The
  tokenizer's buffer is passed along where C keeps it in a static variable.  A command that fails halfway keeps what it did.
  Numbers are read as glibc does; a value that does not fit the \<open>int\<close> it is converted to is undefined.  The record
  \<open>command_env\<close> holds what a command takes from elsewhere: the microseconds of the clock, a stale \<open>errno\<close>, whether the
  retention file could be saved, and what reading it does, of which nothing is assumed.

  \<^bold>\<open>The event loop.\<close>  The record \<open>round\<close> is what one round meets: the times it reads, the input that arrives while it
  waits (command lines, results of workers, signals), and the answers of workers.  \<open>event_execution_loop\<close> runs over a list of
  rounds.  Events that are due at the same instant run in any order.  Log rotation, the saving of status and retention
  files and the look for a new version of the program are actions in a trace; of the latter the time of the next event is given.  An
  event of a user function, which only broker modules register, is run only when it has no function.

  \<^bold>\<open>Invariants.\<close>  \<open>dt_inv\<close> says that downtimes and depths agree; \<open>sched_ok\<close> that the event an object
  remembers is pending and its own; \<open>linked\<close> that services have their host and parents are well-founded;
  \<open>daemon_ok\<close> combines them, and is what every handler of checks and results, every command and
  every round of the loop keeps; its parameter is the handle of the event that is running, which its
  object no longer remembers.  Commands are \<open>sane\<close> in these theorems: no \<open>READ_STATE_INFORMATION\<close>; downtimes start and last
  less than 2 to the 31 seconds; numbers fit; downtimes are deleted by their comment only when all have one; and files of commands have
  a rank that is lower than that of the file that asks for them, so that none asks for itself.

  \<^bold>\<open>Bounds and fuel.\<close>  The search for the next valid time looks at 296 days at most in the theorem that it
  finds the first one: from there on the code itself stops; the search for the next invalid time passes 300 ranges, which are
  17880 seconds at least.  The laws of the calendar they need are proved for \<open>utc\<close>, the Gregorian calendar.  Walks over dependencies, parents and triggered
  downtimes are \<open>partial_function\<close>s, which are shown to return when the relation they follow has no cycle.

  \<^bold>\<open>Not modelled.\<close>  Configuration files and their templates, retention and status files, macro expansion, event
  handlers, processes, sockets and logs: text and system calls around the logic above.  The first schedule, which
  \<open>init_timing_loop\<close> spreads over time at start-up, and the statistics of events are left out as well.  The web interface prints
  what the daemon wrote.  Event broker modules are compiled out of the build that is modelled.
\<close>

end
